(* ===== verification/Prelude.thy ===== *)
theory Prelude
  imports Main "HOL-Library.Char_ord" "HOL-Library.List_Lexorder" "HOL-Library.Product_Lexorder"
begin

text \<open>
  Shared vocabulary of the development: how Python values, exceptions and sequential
  effects of the source are represented, and the generic list facts the component
  theories use.

  \<^item> An identifier (\<open>run_id\<close>, \<open>owner\<close>, \<open>variant_id\<close>, \<open>reason_code\<close>, \<dots>) is a
    \<open>string\<close> (code points below 256); its order is the lexicographic order by code, as
    in Python.
  \<^item> A payload text, which the source encodes to bytes, is a \<open>pystr\<close>, the list of its
    code points; a \<open>bytes\<close> value is the list of its byte values.
  \<^item> A \<open>datetime\<close> or \<open>timedelta\<close> is an \<open>int\<close> (microseconds).
  \<^item> A raised exception is \<open>Inl e\<close>, a normal return \<open>Inr v\<close>.
  \<^item> An operation on mutable state returns the state it leaves behind on \<^emph>\<open>both\<close>
    paths: \<open>'s \<Rightarrow> (exn + 'a) \<times> 's\<close>, so that "a failed call changed nothing" is a
    statement about the code and not a consequence of the type.
\<close>

type_synonym ident = string
type_synonym pystr = "nat list"
type_synonym pybytes = "nat list"
type_synonym timestamp = int
type_synonym duration = int

named_theorems op_defs "definitions of the operations of a component"
named_theorems frame "what an operation leaves unchanged"
named_theorems ok_elims "what a successful operation tells about its guards"

section \<open>Exceptions\<close>

text \<open>
  The exception classes of \<open>src/src/m_agent/_errors.py\<close> together with the built-in
  classes the modelled code raises. Messages are diagnostic text and are not modelled.
\<close>

datatype exn =
    ModelCapabilityError
  | ModelContractViolationError
  | CompressionContractViolationError
  | DefinitionConflictError
  | DefinitionNotFoundError
  | RunNotFoundError
  | DuplicateRunError
  | RunStoreIntegrityError
  | IllegalRunTransitionError
  | StaleRunVersionError
  | LeaseNotHeldError
  | ContextBudgetExceededError
  | ResolutionNotAllowedError
  | SessionNotFoundError
  | DuplicateSessionError
  | SessionClaimConflictError
  | SessionVersionConflictError
  | RoutingError
  | RoutingBindingError
  | RoutingReplacementError
  | RoutingStoreError
  | RoutingDecisionConflictError
  | PublicationError
  | ValueError
  | TypeError
  | RuntimeError
  | IndexError
  | AssertionError
  | AttributeError
  | UnicodeEncodeError
  | UnicodeDecodeError
  | StepFailureError
  | KeyError
  | IntegrityError
  | OperationalError
  | OverflowError
  | RecursionError
  | EvalError
  | EvalSuiteError
  | EvalFixtureBoundaryError
  | EvidenceIntegrityError
  | EvalRecordConflictError

text \<open>
  \<open>except (LeaseNotHeldError, RunNotFoundError, StaleRunVersionError)\<close> and similar
  clauses list classes; \<open>UnicodeEncodeError\<close> and \<open>UnicodeDecodeError\<close> are subclasses
  of \<open>ValueError\<close> in Python.
\<close>

definition is_value_error :: "exn \<Rightarrow> bool" where
  "is_value_error e \<longleftrightarrow> e \<in> {ValueError, UnicodeEncodeError, UnicodeDecodeError}"

section \<open>Sequencing of operations that may raise\<close>

definition bindE :: "'e + 'a \<Rightarrow> ('a \<Rightarrow> 'e + 'b) \<Rightarrow> 'e + 'b" where
  "bindE m f = (case m of Inl e \<Rightarrow> Inl e | Inr v \<Rightarrow> f v)"

lemma bindE_simps [simp]:
  "bindE (Inl e) f = Inl e"
  "bindE (Inr v) f = f v"
  by (simp_all add: bindE_def)

lemma bindE_eq_Inr: "bindE m f = Inr y \<longleftrightarrow> (\<exists>x. m = Inr x \<and> f x = Inr y)"
  by (cases m) auto

lemma bindE_eq_Inl: "bindE m f = Inl e \<longleftrightarrow> m = Inl e \<or> (\<exists>x. m = Inr x \<and> f x = Inl e)"
  by (cases m) auto

fun mapE :: "('a \<Rightarrow> 'e + 'b) \<Rightarrow> 'a list \<Rightarrow> 'e + 'b list" where
  "mapE f [] = Inr []"
| "mapE f (x # xs) =
     bindE (f x) (\<lambda>y. bindE (mapE f xs) (\<lambda>ys. Inr (y # ys)))"

lemma mapE_all_ok: "(\<And>x. x \<in> set xs \<Longrightarrow> f x = Inr (g x)) \<Longrightarrow> mapE f xs = Inr (map g xs)"
  by (induction xs) auto

lemma mapE_total: "(\<And>x. x \<in> set xs \<Longrightarrow> \<exists>y. f x = Inr y) \<Longrightarrow> \<exists>ys. mapE f xs = Inr ys"
  by (induction xs) fastforce+

lemma mapE_length: "mapE f xs = Inr ys \<Longrightarrow> length ys = length xs"
  by (induction xs arbitrary: ys) (auto simp: bindE_eq_Inr)

section \<open>Lists as the source uses them\<close>

text \<open>
  \<open>next((x for x in xs if p(x)), None)\<close> is the library's \<open>List.find\<close>. The loop
  \<open>for index, existing in enumerate(xs): if key(existing) == key(new): xs[index] = new;
  break; else: xs.append(new)\<close> replaces the first element with the same key, or appends.
\<close>

fun upsert :: "('a \<Rightarrow> 'k) \<Rightarrow> 'a \<Rightarrow> 'a list \<Rightarrow> 'a list" where
  "upsert key x [] = [x]"
| "upsert key x (y # ys) = (if key y = key x then x # ys else y # upsert key x ys)"

lemma set_upsert_subset: "set (upsert key x ys) \<subseteq> insert x (set ys)"
  by (induction ys) auto

lemma mem_upsert [simp]: "x \<in> set (upsert key x ys)"
  by (induction ys) auto

lemma map_key_upsert:
  "map key (upsert key x ys) =
     (if key x \<in> key ` set ys then map key ys else map key ys @ [key x])"
  by (induction ys) auto

lemma distinct_upsert: "distinct (map key ys) \<Longrightarrow> distinct (map key (upsert key x ys))"
  by (simp add: map_key_upsert)

lemma keys_upsert: "key ` set (upsert key x ys) = insert (key x) (key ` set ys)"
proof -
  have "set (map key (upsert key x ys)) = insert (key x) (set (map key ys))"
    by (auto simp: map_key_upsert)
  then show ?thesis by simp
qed

lemma upsert_other:
  "distinct (map key ys) \<Longrightarrow> key z \<noteq> key x \<Longrightarrow> z \<in> set (upsert key x ys) \<longleftrightarrow> z \<in> set ys"
  by (induction ys) auto

lemma find_upsert:
  "find (\<lambda>z. key z = k) (upsert key x ys) =
     (if k = key x then Some x else find (\<lambda>z. key z = k) ys)"
  by (induction ys) auto

lemma length_upsert:
  "length (upsert key x ys) = (if key x \<in> key ` set ys then length ys else Suc (length ys))"
proof -
  have "length (map key (upsert key x ys)) =
      (if key x \<in> key ` set ys then length (map key ys) else Suc (length (map key ys)))"
    by (simp add: map_key_upsert)
  then show ?thesis by simp
qed

text \<open>An order-preserving removal of later duplicates: \<open>dict.setdefault\<close> over a sequence.\<close>

fun dedup_by :: "('a \<Rightarrow> 'k) \<Rightarrow> 'k list \<Rightarrow> 'a list \<Rightarrow> 'a list" where
  "dedup_by key seen [] = []"
| "dedup_by key seen (x # xs) =
     (if key x \<in> set seen then dedup_by key seen xs
      else x # dedup_by key (key x # seen) xs)"

lemma dedup_by_subset: "set (dedup_by key seen xs) \<subseteq> set xs"
  by (induction xs arbitrary: seen) auto

lemma dedup_by_keys: "key ` set (dedup_by key seen xs) = key ` set xs - set seen"
proof (induction xs arbitrary: seen)
  case Nil
  then show ?case by simp
next
  case (Cons x xs)
  then show ?case by (cases "key x \<in> set seen") auto
qed

lemma dedup_by_distinct: "distinct (map key (dedup_by key seen xs))"
proof (induction xs arbitrary: seen)
  case Nil
  then show ?case by simp
next
  case (Cons x xs)
  have "key x \<notin> key ` set (dedup_by key (key x # seen) xs)"
    by (simp add: dedup_by_keys)
  with Cons show ?case by auto
qed

lemma dedup_by_subseq_sorted:
  "sorted (map f xs) \<Longrightarrow> sorted (map f (dedup_by key seen xs))"
proof (induction xs arbitrary: seen)
  case Nil
  then show ?case by simp
next
  case (Cons x xs)
  then show ?case using dedup_by_subset [of key "key x # seen" xs] by auto
qed

text \<open>A sequence of calls on one object; a call that raises leaves its state behind as well.\<close>

fun run_all :: "('c \<Rightarrow> 's \<Rightarrow> 'r \<times> 's) \<Rightarrow> 'c list \<Rightarrow> 's \<Rightarrow> 's" where
  "run_all exec [] s = s"
| "run_all exec (c # cs) s = run_all exec cs (snd (exec c s))"

lemma run_all_append: "run_all exec (cs @ ds) s = run_all exec ds (run_all exec cs s)"
  by (induction cs arbitrary: s) auto

section \<open>Text helpers\<close>

text \<open>\<open>str(n)\<close> for a non-negative integer, and the characters \<open>str.strip\<close> removes.\<close>

definition digit :: "nat \<Rightarrow> char" where
  "digit n = char_of (48 + n)"

fun dec :: "nat \<Rightarrow> string" where
  "dec n = (if n < 10 then [digit n] else dec (n div 10) @ [digit (n mod 10)])"

declare dec.simps [simp del]

definition is_space :: "nat \<Rightarrow> bool" where
  "is_space c \<longleftrightarrow> (9 \<le> c \<and> c \<le> 13) \<or> (28 \<le> c \<and> c \<le> 32) \<or> c \<in> {133, 160, 5760, 8232, 8233, 8239, 8287, 12288}
     \<or> (8192 \<le> c \<and> c \<le> 8202)"

lemma is_space_code [code]:
  "is_space c =
     (if c \<le> 32 then 9 \<le> c \<and> (c \<le> 13 \<or> 28 \<le> c)
      else 133 \<le> c \<and> (c \<in> {133, 160, 5760, 8232, 8233, 8239, 8287, 12288} \<or> (8192 \<le> c \<and> c \<le> 8202)))"
  by (auto simp: is_space_def)

definition blank :: "pystr \<Rightarrow> bool" where
  "blank s \<longleftrightarrow> list_all is_space s"

definition blank_ident :: "ident \<Rightarrow> bool" where
  "blank_ident s \<longleftrightarrow> blank (map of_char s)"

lemma of_char_digit: "a < 10 \<Longrightarrow> of_char (digit a) = 48 + a"
  by (simp add: digit_def)

lemma digit_inj: "a < 10 \<Longrightarrow> b < 10 \<Longrightarrow> digit a = digit b \<longleftrightarrow> a = b"
  by (metis add_left_cancel of_char_digit)

lemma dec_digits: "c \<in> set (dec n) \<Longrightarrow> \<exists>d < 10. c = digit d"
proof (induction n rule: dec.induct)
  case (1 n)
  then show ?case by (subst (asm) (2) dec.simps)
      (auto split: if_splits intro: exI [of _ "n mod 10"])
qed

lemma colon_not_in_dec: "CHR '':'' \<notin> set (dec n)"
proof
  assume "CHR '':'' \<in> set (dec n)"
  then obtain d where "d < 10" and d: "CHR '':'' = digit d" using dec_digits by blast
  then have "of_char (CHR '':'') = 48 + d" by (simp only: d of_char_digit)
  with \<open>d < 10\<close> show False by simp
qed

lemma dec_nonempty [simp]: "dec n \<noteq> []"
  by (subst dec.simps) simp

lemma dec_last: "last (dec n) = digit (n mod 10)" "butlast (dec n) = (if n < 10 then [] else dec (n div 10))"
  by (subst dec.simps, simp)+

lemma dec_inj [simp]: "dec m = dec n \<longleftrightarrow> m = n"
proof
  assume "dec m = dec n"
  then show "m = n"
  proof (induction m arbitrary: n rule: less_induct)
    case (less m)
    have ends: "m mod 10 = n mod 10"
      using less.prems dec_last(1) [of m] dec_last(1) [of n] digit_inj [of "m mod 10" "n mod 10"] by simp
    have starts: "(if m < 10 then [] else dec (m div 10)) = (if n < 10 then [] else dec (n div 10))"
      using less.prems dec_last(2) [of m] dec_last(2) [of n] by simp
    then have "m < 10 \<longleftrightarrow> n < 10" by (auto split: if_splits dest: sym [of "[]"])
    moreover have "m div 10 = n div 10" if "\<not> m < 10" "\<not> n < 10"
      using starts that less.IH [of "m div 10" "n div 10"] by simp
    ultimately show ?case using ends div_mult_mod_eq [of m 10] div_mult_mod_eq [of n 10]
      by (metis div_less)
  qed
qed simp

text \<open>A text with a separator can be cut at its last separator in one way only.\<close>

lemma split_first_unique:
  "xs @ c # ys = xs' @ c # ys' \<Longrightarrow> c \<notin> set xs \<Longrightarrow> c \<notin> set xs' \<Longrightarrow> xs = xs' \<and> ys = ys'"
proof (induction xs arbitrary: xs')
  case Nil
  then show ?case by (cases xs') auto
next
  case (Cons x xs)
  then show ?case by (cases xs') auto
qed

lemma split_last_unique:
  assumes "xs @ c # ys = xs' @ c # ys'" and "c \<notin> set ys" and "c \<notin> set ys'"
  shows "xs = xs'" and "ys = ys'"
proof -
  have "rev ys @ c # rev xs = rev ys' @ c # rev xs'"
    using arg_cong [OF assms(1), of rev] by simp
  then have "rev ys = rev ys' \<and> rev xs = rev xs'"
    using assms(2,3) by (intro split_first_unique) simp_all
  then show "xs = xs'" and "ys = ys'" by simp_all
qed

section \<open>Stable sorting by a comparator\<close>

text \<open>
  \<open>sorted(xs, key=functools.cmp_to_key(compare))\<close>: a stable sort in which \<open>a\<close> goes
  before \<open>b\<close> when \<open>compare(a, b) < 0\<close>. For a comparator that is a total preorder the
  stable sorted permutation is unique, so insertion sort computes what Python's sort
  returns.
\<close>

fun insort_cmp :: "('a \<Rightarrow> 'a \<Rightarrow> int) \<Rightarrow> 'a \<Rightarrow> 'a list \<Rightarrow> 'a list" where
  "insort_cmp cmp x [] = [x]"
| "insort_cmp cmp x (y # ys) =
     (if cmp y x < 0 then y # insort_cmp cmp x ys else x # y # ys)"

definition sort_cmp :: "('a \<Rightarrow> 'a \<Rightarrow> int) \<Rightarrow> 'a list \<Rightarrow> 'a list" where
  "sort_cmp cmp xs = foldr (insort_cmp cmp) xs []"

lemma sort_cmp_simps [simp]:
  "sort_cmp cmp [] = []"
  "sort_cmp cmp (x # xs) = insort_cmp cmp x (sort_cmp cmp xs)"
  by (simp_all add: sort_cmp_def)

lemma set_insort_cmp [simp]: "set (insort_cmp cmp x ys) = insert x (set ys)"
  by (induction ys) auto

lemma length_insort_cmp [simp]: "length (insort_cmp cmp x ys) = Suc (length ys)"
  by (induction ys) auto

lemma distinct_insort_cmp:
  "distinct (map f (insort_cmp cmp x ys)) \<longleftrightarrow> f x \<notin> f ` set ys \<and> distinct (map f ys)"
  by (induction ys) auto

lemma set_sort_cmp [simp]: "set (sort_cmp cmp xs) = set xs"
  by (induction xs) auto

lemma length_sort_cmp [simp]: "length (sort_cmp cmp xs) = length xs"
  by (induction xs) auto

lemma distinct_sort_cmp: "distinct (map f (sort_cmp cmp xs)) = distinct (map f xs)"
  by (induction xs) (auto simp: distinct_insort_cmp)

lemma sort_cmp_Nil_iff [simp]: "sort_cmp cmp xs = [] \<longleftrightarrow> xs = []"
  by (metis length_0_conv length_sort_cmp)

text \<open>The laws a comparator must satisfy for sorting by it to be meaningful.\<close>

locale comparator_on =
  fixes cmp :: "'a \<Rightarrow> 'a \<Rightarrow> int" and A :: "'a set"
  assumes cmp_refl: "x \<in> A \<Longrightarrow> cmp x x = 0"
    and cmp_anti: "x \<in> A \<Longrightarrow> y \<in> A \<Longrightarrow> cmp x y < 0 \<longleftrightarrow> 0 < cmp y x"
    and cmp_trans: "x \<in> A \<Longrightarrow> y \<in> A \<Longrightarrow> z \<in> A \<Longrightarrow> cmp x y \<le> 0 \<Longrightarrow> cmp y z \<le> 0 \<Longrightarrow> cmp x z \<le> 0"
begin

lemma cmp_total: "x \<in> A \<Longrightarrow> y \<in> A \<Longrightarrow> cmp x y \<le> 0 \<or> cmp y x \<le> 0"
  using cmp_anti [of x y] by linarith

lemma insort_cmp_sorted:
  assumes "x \<in> A" and "set ys \<subseteq> A" and "sorted_wrt (\<lambda>a b. cmp a b \<le> 0) ys"
  shows "sorted_wrt (\<lambda>a b. cmp a b \<le> 0) (insort_cmp cmp x ys)"
  using assms
proof (induction ys)
  case Nil
  then show ?case by simp
next
  case (Cons y ys)
  show ?case
  proof (cases "cmp y x < 0")
    case True
    with Cons show ?thesis by auto
  next
    case False
    then have xy: "cmp x y \<le> 0"
      using cmp_total [of x y] cmp_anti [of y x] Cons.prems(1,2) by fastforce
    have "\<forall>z \<in> set ys. cmp x z \<le> 0"
      using Cons.prems xy cmp_trans [of x y] by auto
    with False xy Cons.prems show ?thesis by auto
  qed
qed

lemma sort_cmp_sorted: "set xs \<subseteq> A \<Longrightarrow> sorted_wrt (\<lambda>a b. cmp a b \<le> 0) (sort_cmp cmp xs)"
proof (induction xs)
  case Nil
  then show ?case by simp
next
  case (Cons x xs)
  then show ?case using insort_cmp_sorted [of x "sort_cmp cmp xs"] by simp
qed

lemma sort_cmp_hd_least:
  assumes "set xs \<subseteq> A" and "xs \<noteq> []" and "y \<in> set xs"
  shows "cmp (hd (sort_cmp cmp xs)) y \<le> 0"
proof -
  obtain z zs where zs: "sort_cmp cmp xs = z # zs"
    using assms(2) by (metis neq_Nil_conv sort_cmp_Nil_iff)
  have "y \<in> set (z # zs)" using assms(3) zs set_sort_cmp [of cmp xs] by simp
  moreover have "z \<in> A" using assms(1) zs set_sort_cmp [of cmp xs] by auto
  moreover have "\<forall>w \<in> set zs. cmp z w \<le> 0"
    using sort_cmp_sorted [OF assms(1)] zs by simp
  ultimately show ?thesis using zs cmp_refl [of z] by auto
qed

end

text \<open>Comparators combine lexicographically and pull back along a function.\<close>

lemma comparator_lex:
  assumes "comparator_on c A" and "comparator_on c' A"
  shows "comparator_on (\<lambda>x y. if c x y \<noteq> 0 then c x y else c' x y) A"
proof -
  have zero: "c x y = 0" "c y z = 0"
    if "x \<in> A" "y \<in> A" "z \<in> A" "c x y \<le> 0" "c y z \<le> 0" "c x z = 0" for x y z
  proof -
    note anti = comparator_on.cmp_anti [OF assms(1)] and trans = comparator_on.cmp_trans [OF assms(1)]
    have zx: "c z x \<le> 0" using anti [of x z] that by fastforce
    have "c y x \<le> 0" using trans [of y z x] that zx by blast
    then show "c x y = 0" using anti [of x y] that by fastforce
    have "c z y \<le> 0" using trans [of z x y] that zx by blast
    then show "c y z = 0" using anti [of y z] that by fastforce
  qed
  show ?thesis
  proof
    fix x y z
    assume A: "x \<in> A" "y \<in> A" "z \<in> A"
      and xy: "(if c x y \<noteq> 0 then c x y else c' x y) \<le> 0"
      and yz: "(if c y z \<noteq> 0 then c y z else c' y z) \<le> 0"
    have le: "c x y \<le> 0" "c y z \<le> 0" using xy yz by (auto split: if_splits)
    then have xz: "c x z \<le> 0" using comparator_on.cmp_trans [OF assms(1) A] by simp
    show "(if c x z \<noteq> 0 then c x z else c' x z) \<le> 0"
      using xz zero [OF A le] xy yz comparator_on.cmp_trans [OF assms(2) A] by (cases "c x z = 0") auto
  next
    fix x y
    assume A: "x \<in> A" "y \<in> A"
    show "(if c x y \<noteq> 0 then c x y else c' x y) < 0 \<longleftrightarrow> 0 < (if c y x \<noteq> 0 then c y x else c' y x)"
      using comparator_on.cmp_anti [OF assms(1) A] comparator_on.cmp_anti [OF assms(1) A(2,1)]
        comparator_on.cmp_anti [OF assms(2) A] by auto
  qed (use comparator_on.cmp_refl [OF assms(1)] comparator_on.cmp_refl [OF assms(2)] in auto)
qed

lemma comparator_image:
  assumes "comparator_on c UNIV"
  shows "comparator_on (\<lambda>x y. c (f x) (f y)) A"
proof
  show "c (f x) (f x) = 0" for x by (simp add: comparator_on.cmp_refl [OF assms])
  show "c (f x) (f y) < 0 \<longleftrightarrow> 0 < c (f y) (f x)" for x y
    by (simp add: comparator_on.cmp_anti [OF assms])
  show "c (f x) (f y) \<le> 0 \<Longrightarrow> c (f y) (f z) \<le> 0 \<Longrightarrow> c (f x) (f z) \<le> 0" for x y z
    using comparator_on.cmp_trans [OF assms, of "f x" "f y" "f z"] by simp
qed

end
