(* ===== verification/Json.thy ===== *)
theory Json
  imports Prelude Complex_Main
begin

text \<open>
  Python values that \<open>json.loads\<close> produces, with Python's equality on them. A dict is an
  association list in insertion order (its keys are distinct, see \<open>json_wf\<close>); a string
  is the list of its code points. Used by the Output Contract
  (\<open>src/src/m_agent/_output.py\<close>) and for the configuration dicts of Context Stages.
\<close>

datatype pyfloat = Fin rat | Pos_Inf | Neg_Inf | NaN

datatype json =
    JNull
  | JBool bool
  | JInt int
  | JFloat pyfloat
  | JStr pystr
  | JArr "json list"
  | JObj "(pystr \<times> json) list"

text \<open>A string literal of the source as a list of code points.\<close>

definition ustr :: "string \<Rightarrow> pystr" where
  "ustr s = map of_char s"

lemma of_char_nat_inj: "inj (of_char :: char \<Rightarrow> nat)"
  by (rule injI) (metis char_of_char)

lemma ustr_inj [simp]: "ustr s = ustr t \<longleftrightarrow> s = t"
  by (simp add: ustr_def inj_map_eq_map [OF of_char_nat_inj])

lemma ustr_append [simp]: "ustr (s @ t) = ustr s @ ustr t"
  by (simp add: ustr_def)

lemma ustr_Nil [simp]: "ustr [] = []"
  by (simp add: ustr_def)

definition json_get :: "(pystr \<times> json) list \<Rightarrow> string \<Rightarrow> json option" where
  "json_get kvs k = map_of kvs (ustr k)"

text \<open>Numeric value of the Python objects that compare as numbers (\<open>True == 1 == 1.0\<close>).\<close>

fun num_of :: "json \<Rightarrow> rat option" where
  "num_of (JBool b) = Some (if b then 1 else 0)"
| "num_of (JInt i) = Some (of_int i)"
| "num_of (JFloat (Fin r)) = Some r"
| "num_of _ = None"

lemma size_map_of: "map_of kvs k = Some v \<Longrightarrow> size v < size (JObj kvs)"
proof (induction kvs)
  case Nil
  then show ?case by simp
next
  case (Cons p kvs)
  then show ?case by (cases p) (auto split: if_splits)
qed

lemma size_mem_arr: "v \<in> set vs \<Longrightarrow> size v < size (JArr vs)"
  by (induction vs) auto

text \<open>Python's \<open>==\<close> on these values: \<open>NaN\<close> differs from everything, dicts compare as maps.\<close>

function py_eq :: "json \<Rightarrow> json \<Rightarrow> bool" where
  "py_eq a b =
     (case (a, b) of
        (JNull, JNull) \<Rightarrow> True
      | (JFloat Pos_Inf, JFloat Pos_Inf) \<Rightarrow> True
      | (JFloat Neg_Inf, JFloat Neg_Inf) \<Rightarrow> True
      | (JStr s, JStr t) \<Rightarrow> s = t
      | (JArr xs, JArr ys) \<Rightarrow>
          length xs = length ys \<and> list_all (\<lambda>i. py_eq (xs ! i) (ys ! i)) [0 ..< length xs]
      | (JObj xs, JObj ys) \<Rightarrow>
          set (map fst xs) = set (map fst ys)
          \<and> list_all (\<lambda>k. case (map_of xs k, map_of ys k) of
                (Some v, Some w) \<Rightarrow> py_eq v w | _ \<Rightarrow> False) (map fst xs)
      | _ \<Rightarrow> (case (num_of a, num_of b) of (Some r, Some q) \<Rightarrow> r = q | _ \<Rightarrow> False))"
  by pat_completeness auto

termination
  by (relation "measure (\<lambda>(a, b). size a)")
    (auto simp del: json.size intro!: size_map_of size_mem_arr dest: sym)

declare py_eq.simps [simp del]

lemma py_eq_arr:
  "py_eq (JArr xs) (JArr ys) \<longleftrightarrow>
     length xs = length ys \<and> (\<forall>i < length xs. py_eq (xs ! i) (ys ! i))"
  by (subst py_eq.simps) (auto simp: list_all_iff)

lemma py_eq_obj:
  "py_eq (JObj xs) (JObj ys) \<longleftrightarrow>
     fst ` set xs = fst ` set ys
     \<and> (\<forall>k \<in> fst ` set xs. case (map_of xs k, map_of ys k) of
           (Some v, Some w) \<Rightarrow> py_eq v w | _ \<Rightarrow> False)"
  by (subst py_eq.simps) (simp add: list_all_iff)

lemma py_eq_atoms [simp]:
  "py_eq JNull JNull"
  "py_eq (JBool b) (JBool c) \<longleftrightarrow> b = c"
  "py_eq (JInt i) (JInt j) \<longleftrightarrow> i = j"
  "py_eq (JBool b) (JInt i) \<longleftrightarrow> (if b then i = 1 else i = 0)"
  "py_eq (JInt i) (JBool b) \<longleftrightarrow> (if b then i = 1 else i = 0)"
  "py_eq (JStr s) (JStr t) \<longleftrightarrow> s = t"
  "py_eq (JFloat (Fin r)) (JFloat (Fin q)) \<longleftrightarrow> r = q"
  "py_eq (JFloat Pos_Inf) (JFloat Pos_Inf)"
  "py_eq (JFloat Neg_Inf) (JFloat Neg_Inf)"
  by (subst py_eq.simps; auto)+

text \<open>Representation invariant: dict keys are distinct, at every depth.\<close>

fun json_wf :: "json \<Rightarrow> bool" where
  "json_wf (JArr vs) = list_all json_wf vs"
| "json_wf (JObj kvs) = (distinct (map fst kvs) \<and> list_all (\<lambda>(k, v). json_wf v) kvs)"
| "json_wf _ = True"

text \<open>No \<open>NaN\<close> inside, as \<open>json.dumps(..., allow_nan=False)\<close> guarantees for a schema.\<close>

fun nan_free :: "json \<Rightarrow> bool" where
  "nan_free (JFloat f) = (f \<noteq> NaN)"
| "nan_free (JArr vs) = list_all nan_free vs"
| "nan_free (JObj kvs) = list_all (\<lambda>(k, v). nan_free v) kvs"
| "nan_free _ = True"

lemma py_eq_refl: "nan_free v \<Longrightarrow> py_eq v v"
proof (induction v)
  case (JFloat f)
  then show ?case by (cases f) simp_all
next
  case (JArr vs)
  then show ?case by (auto simp: py_eq_arr list_all_iff)
next
  case (JObj kvs)
  have "\<exists>v. map_of kvs k = Some v \<and> py_eq v v" if k: "k \<in> fst ` set kvs" for k
  proof -
    obtain v where v: "map_of kvs k = Some v"
      using k by (cases "map_of kvs k") (auto simp: map_of_eq_None_iff)
    then have "(k, v) \<in> set kvs" by (rule map_of_SomeD)
    then have "py_eq v v"
      using JObj.IH [of "(k, v)" v] JObj.prems by (auto simp: list_all_iff)
    with v show ?thesis by simp
  qed
  then show ?case by (fastforce simp: py_eq_obj)
qed simp_all

end
