(* ===== verification/Tools.thy ===== *)
theory Tools
  imports Json
begin

text \<open>
  Tool declarations, calls and outcomes, \<open>src/src/m_agent/_tools.py\<close>. Tool
  implementations are code of the embedding application.
\<close>

datatype tool_effect = READ_ONLY | IDEMPOTENT | NON_IDEMPOTENT

record tool_call =
  call_id :: ident
  call_tool_name :: ident
  arguments :: pystr

datatype tool_outcome_status = OUTCOME_SUCCESS | OUTCOME_REJECTED

record tool_outcome =
  outcome_status :: tool_outcome_status
  outcome_call_id :: ident
  outcome_tool_name :: ident
  outcome_result :: "pystr option"
  outcome_code :: "pystr option"
  outcome_message :: "pystr option"

definition validate_payload_shape :: "tool_outcome \<Rightarrow> exn + tool_outcome" where
  "validate_payload_shape o' =
     (if outcome_status o' = OUTCOME_SUCCESS then
        (if outcome_result o' = None then Inl ValueError
         else if outcome_code o' \<noteq> None \<or> outcome_message o' \<noteq> None then Inl ValueError
         else Inr o')
      else if outcome_result o' \<noteq> None then Inl ValueError
      else if outcome_code o' = None \<or> outcome_message o' = None then Inl ValueError
      else Inr o')"

definition outcome_success :: "ident \<Rightarrow> ident \<Rightarrow> pystr \<Rightarrow> exn + tool_outcome" where
  "outcome_success cid name result = validate_payload_shape
     \<lparr>outcome_status = OUTCOME_SUCCESS, outcome_call_id = cid, outcome_tool_name = name,
      outcome_result = Some result, outcome_code = None, outcome_message = None\<rparr>"

definition outcome_rejected :: "ident \<Rightarrow> ident \<Rightarrow> pystr \<Rightarrow> pystr \<Rightarrow> exn + tool_outcome" where
  "outcome_rejected cid name code message = validate_payload_shape
     \<lparr>outcome_status = OUTCOME_REJECTED, outcome_call_id = cid, outcome_tool_name = name,
      outcome_result = None, outcome_code = Some code, outcome_message = Some message\<rparr>"

record tool_spec =
  spec_name :: ident
  spec_description :: pystr
  spec_effect :: tool_effect
  spec_parameters :: "(pystr \<times> json) list"

record tool_declaration =
  decl_name :: ident
  decl_effect :: tool_effect

text \<open>The validated shapes are exactly the two the constructors produce.\<close>

lemma validated_outcome_cases:
  "validate_payload_shape out = Inr out \<longleftrightarrow>
     (\<exists>cid name r. outcome_success cid name r = Inr out)
     \<or> (\<exists>cid name c m. outcome_rejected cid name c m = Inr out)"
proof (cases out)
  case (fields st cid name r c m)
  show ?thesis
    by (cases st; cases r; cases c; cases m)
      (auto simp: fields validate_payload_shape_def outcome_success_def outcome_rejected_def
        split: if_splits)
qed

end
