(* ===== verification/Model_Contract.thy ===== *)
theory Model_Contract
  imports Prelude
begin

text \<open>
  Typed model capabilities, requirements, contracts and bindings,
  \<open>src/src/m_agent/_model.py\<close>. Values are frozen; what a Pydantic validator rejects is
  \<open>Inl ValueError\<close> of the constructor function here. The digest of a contract's
  semantics (\<open>semantic_fingerprint\<close>: SHA-256 over the Pydantic dump without the
  \<open>fingerprint\<close> field) is the parameter \<open>fp\<close>.
\<close>

section \<open>Capability modes\<close>

datatype streaming_mode = STREAMING_NONE | DELTA
datatype tool_calling_mode = TOOL_CALLING_NONE | NATIVE
datatype structured_output_mode = STRUCTURED_OUTPUT_NONE | JSON_OBJECT | JSON_SCHEMA_STRICT
datatype usage_reporting_mode = USAGE_REPORTING_NONE | USAGE_PROVIDER_REPORTED

text \<open>
  The code handles the four enumerations through their base class and the field name.
  \<open>cap_mode\<close> is that base class, \<open>cap_field\<close> the field name; the conversions below
  keep each record field in its own enumeration.
\<close>

datatype cap_field = Streaming | Tool_Calling | Structured_Output | Usage_Reporting

datatype cap_mode =
    M_NONE | M_DELTA | M_NATIVE | M_JSON_OBJECT | M_JSON_SCHEMA_STRICT | M_PROVIDER_REPORTED

fun of_streaming :: "streaming_mode \<Rightarrow> cap_mode" where
  "of_streaming STREAMING_NONE = M_NONE"
| "of_streaming DELTA = M_DELTA"

fun of_tool_calling :: "tool_calling_mode \<Rightarrow> cap_mode" where
  "of_tool_calling TOOL_CALLING_NONE = M_NONE"
| "of_tool_calling NATIVE = M_NATIVE"

fun of_structured_output :: "structured_output_mode \<Rightarrow> cap_mode" where
  "of_structured_output STRUCTURED_OUTPUT_NONE = M_NONE"
| "of_structured_output JSON_OBJECT = M_JSON_OBJECT"
| "of_structured_output JSON_SCHEMA_STRICT = M_JSON_SCHEMA_STRICT"

fun of_usage_reporting :: "usage_reporting_mode \<Rightarrow> cap_mode" where
  "of_usage_reporting USAGE_REPORTING_NONE = M_NONE"
| "of_usage_reporting USAGE_PROVIDER_REPORTED = M_PROVIDER_REPORTED"

definition CAP_FIELDS :: "cap_field list" where
  "CAP_FIELDS = [Streaming, Tool_Calling, Structured_Output, Usage_Reporting]"

definition capability_mode_supports :: "cap_field \<Rightarrow> cap_mode \<Rightarrow> cap_mode \<Rightarrow> bool" where
  "capability_mode_supports field available required =
     (if required = M_NONE then True
      else if field = Structured_Output then
        available = required \<or> (available = M_JSON_SCHEMA_STRICT \<and> required = M_JSON_OBJECT)
      else available = required)"

text \<open>A field holds a typed mode or a 0.2 boolean.\<close>

datatype 'm cap_value = Flag bool | Mode 'm

definition typed_capability_mode :: "'m \<Rightarrow> 'm \<Rightarrow> 'm cap_value \<Rightarrow> 'm" where
  "typed_capability_mode none first v =
     (case v of Flag b \<Rightarrow> (if b then first else none) | Mode m \<Rightarrow> m)"

record capability_combination =
  comb_streaming :: streaming_mode
  comb_tool_calling :: tool_calling_mode
  comb_structured_output :: structured_output_mode
  comb_usage_reporting :: usage_reporting_mode

record model_capabilities =
  cap_streaming :: "streaming_mode cap_value"
  cap_tool_calling :: "tool_calling_mode cap_value"
  cap_structured_output :: "structured_output_mode cap_value"
  cap_usage_reporting :: "usage_reporting_mode cap_value"
  supported_combinations :: "capability_combination list"

fun combination_mode :: "capability_combination \<Rightarrow> cap_field \<Rightarrow> cap_mode" where
  "combination_mode c Streaming = of_streaming (comb_streaming c)"
| "combination_mode c Tool_Calling = of_tool_calling (comb_tool_calling c)"
| "combination_mode c Structured_Output = of_structured_output (comb_structured_output c)"
| "combination_mode c Usage_Reporting = of_usage_reporting (comb_usage_reporting c)"

definition typed_streaming :: "model_capabilities \<Rightarrow> streaming_mode" where
  "typed_streaming c = typed_capability_mode STREAMING_NONE DELTA (cap_streaming c)"

definition typed_tool_calling :: "model_capabilities \<Rightarrow> tool_calling_mode" where
  "typed_tool_calling c = typed_capability_mode TOOL_CALLING_NONE NATIVE (cap_tool_calling c)"

definition typed_structured_output :: "model_capabilities \<Rightarrow> structured_output_mode" where
  "typed_structured_output c =
     typed_capability_mode STRUCTURED_OUTPUT_NONE JSON_OBJECT (cap_structured_output c)"

definition typed_usage_reporting :: "model_capabilities \<Rightarrow> usage_reporting_mode" where
  "typed_usage_reporting c =
     typed_capability_mode USAGE_REPORTING_NONE USAGE_PROVIDER_REPORTED (cap_usage_reporting c)"

fun mode_for :: "model_capabilities \<Rightarrow> cap_field \<Rightarrow> cap_mode" where
  "mode_for c Streaming = of_streaming (typed_streaming c)"
| "mode_for c Tool_Calling = of_tool_calling (typed_tool_calling c)"
| "mode_for c Structured_Output = of_structured_output (typed_structured_output c)"
| "mode_for c Usage_Reporting = of_usage_reporting (typed_usage_reporting c)"

definition is_typed :: "'m cap_value \<Rightarrow> bool" where
  "is_typed v = (case v of Flag _ \<Rightarrow> False | Mode _ \<Rightarrow> True)"

definition uses_legacy_boolean_surface :: "model_capabilities \<Rightarrow> bool" where
  "uses_legacy_boolean_surface c \<longleftrightarrow>
     \<not> (is_typed (cap_streaming c) \<or> is_typed (cap_tool_calling c)
        \<or> is_typed (cap_structured_output c) \<or> is_typed (cap_usage_reporting c))"

definition active_fields :: "(cap_field \<Rightarrow> cap_mode) \<Rightarrow> cap_field list" where
  "active_fields m = filter (\<lambda>f. m f \<noteq> M_NONE) CAP_FIELDS"

text \<open>The \<open>_validate_supported_combinations\<close> validator, which every construction runs.\<close>

definition validate_supported_combinations :: "model_capabilities \<Rightarrow> exn + model_capabilities" where
  "validate_supported_combinations c =
     (if 1 < length (active_fields (mode_for c)) \<and> supported_combinations c = []
         \<and> \<not> uses_legacy_boolean_surface c then Inl ValueError
      else if \<not> distinct (map (\<lambda>k. map (combination_mode k) CAP_FIELDS) (supported_combinations c))
        then Inl ValueError
      else if \<not> list_all (\<lambda>k. list_all (\<lambda>f. capability_mode_supports f (mode_for c f)
                 (combination_mode k f)) CAP_FIELDS) (supported_combinations c) then Inl ValueError
      else if \<not> list_all (\<lambda>f. supported_combinations c = []
                 \<or> list_ex (\<lambda>k. combination_mode k f = mode_for c f) (supported_combinations c))
                 (active_fields (mode_for c)) then Inl ValueError
      else Inr c)"

definition as_combination :: "model_capabilities \<Rightarrow> capability_combination" where
  "as_combination c = \<lparr>comb_streaming = typed_streaming c,
     comb_tool_calling = typed_tool_calling c,
     comb_structured_output = typed_structured_output c,
     comb_usage_reporting = typed_usage_reporting c\<rparr>"

definition of_combination ::
  "capability_combination \<Rightarrow> capability_combination list \<Rightarrow> model_capabilities" where
  "of_combination k ks = \<lparr>cap_streaming = Mode (comb_streaming k),
     cap_tool_calling = Mode (comb_tool_calling k),
     cap_structured_output = Mode (comb_structured_output k),
     cap_usage_reporting = Mode (comb_usage_reporting k),
     supported_combinations = ks\<rparr>"

definition as_typed :: "model_capabilities \<Rightarrow> exn + model_capabilities" where
  "as_typed c =
     (let combinations =
        (if 1 < length (active_fields (mode_for c)) \<and> supported_combinations c = []
         then [as_combination c] else supported_combinations c)
      in validate_supported_combinations (of_combination (as_combination c) combinations))"

definition no_capabilities :: model_capabilities where
  "no_capabilities = of_combination
     \<lparr>comb_streaming = STREAMING_NONE, comb_tool_calling = TOOL_CALLING_NONE,
      comb_structured_output = STRUCTURED_OUTPUT_NONE,
      comb_usage_reporting = USAGE_REPORTING_NONE\<rparr> []"

definition combination_supports :: "capability_combination \<Rightarrow> model_capabilities \<Rightarrow> bool" where
  "combination_supports k required \<longleftrightarrow>
     list_all (\<lambda>f. capability_mode_supports f (combination_mode k f) (mode_for required f)) CAP_FIELDS"

definition supports_combination :: "model_capabilities \<Rightarrow> model_capabilities \<Rightarrow> bool" where
  "supports_combination c required =
     (if length (active_fields (mode_for required)) \<le> 1 then True
      else if uses_legacy_boolean_surface c \<and> supported_combinations c = [] then True
      else list_ex (\<lambda>k. combination_supports k required) (supported_combinations c))"

definition supports :: "model_capabilities \<Rightarrow> model_capabilities \<Rightarrow> bool" where
  "supports c required \<longleftrightarrow>
     list_all (\<lambda>f. capability_mode_supports f (mode_for c f) (mode_for required f)) CAP_FIELDS
     \<and> supports_combination c required"

text \<open>\<open>merged_requirements\<close>, field by field; the last branch is the conflict error.\<close>

definition merge_mode :: "cap_field \<Rightarrow> ('m \<Rightarrow> cap_mode) \<Rightarrow> 'm \<Rightarrow> 'm \<Rightarrow> exn + 'm" where
  "merge_mode field emb left right =
     (if emb left = M_NONE then Inr right
      else if emb right = M_NONE then Inr left
      else if capability_mode_supports field (emb left) (emb right) then Inr left
      else if capability_mode_supports field (emb right) (emb left) then Inr right
      else Inl ValueError)"

definition merged_requirements ::
  "model_capabilities \<Rightarrow> model_capabilities \<Rightarrow> exn + model_capabilities" where
  "merged_requirements c d =
     bindE (merge_mode Streaming of_streaming (typed_streaming c) (typed_streaming d)) (\<lambda>s.
     bindE (merge_mode Tool_Calling of_tool_calling (typed_tool_calling c) (typed_tool_calling d)) (\<lambda>t.
     bindE (merge_mode Structured_Output of_structured_output
              (typed_structured_output c) (typed_structured_output d)) (\<lambda>so.
     bindE (merge_mode Usage_Reporting of_usage_reporting
              (typed_usage_reporting c) (typed_usage_reporting d)) (\<lambda>u.
       let k = \<lparr>comb_streaming = s, comb_tool_calling = t,
                comb_structured_output = so, comb_usage_reporting = u\<rparr>
       in validate_supported_combinations
            (of_combination k
               (if 1 < length (active_fields (combination_mode k)) then [k] else []))))))"

section \<open>Limits, contracts and requirements\<close>

datatype revision_stability = PINNED | PROVIDER_ALIAS
datatype model_purpose = PRIMARY | CONTEXT_COMPRESSION | OUTPUT_REPAIR
datatype usage_field_guarantee = REQUIRED | OPTIONAL | UNSUPPORTED
datatype usage_provenance = PROVIDER_REPORTED | RUNTIME_SIZED | UNAVAILABLE

definition MODEL_PURPOSES :: "model_purpose list" where
  "MODEL_PURPOSES = [PRIMARY, CONTEXT_COMPRESSION, OUTPUT_REPAIR]"

record model_limits =
  context_window_tokens :: int
  max_output_tokens :: int

record model_usage_guarantees =
  g_input_tokens :: usage_field_guarantee
  g_output_tokens :: usage_field_guarantee
  g_cached_input_tokens :: usage_field_guarantee
  g_reasoning_tokens :: usage_field_guarantee

definition requires_usage :: "model_usage_guarantees \<Rightarrow> bool" where
  "requires_usage g \<longleftrightarrow> g_input_tokens g = REQUIRED \<or> g_output_tokens g = REQUIRED
     \<or> g_cached_input_tokens g = REQUIRED \<or> g_reasoning_tokens g = REQUIRED"

record model_contract =
  contract_id :: ident
  contract_version :: ident
  revision_stability :: revision_stability
  model_identity :: string
  contract_capabilities :: model_capabilities
  limits :: model_limits
  input_sizer_id :: ident
  serialization_id :: ident
  usage_guarantees :: model_usage_guarantees
  fingerprint :: "string option"
  configuration_fingerprint :: "string option"

text \<open>The \<open>_validate_usage_reporting\<close> validator; it also fills the fingerprint in.\<close>

definition validate_contract ::
  "(model_contract \<Rightarrow> string) \<Rightarrow> model_contract \<Rightarrow> exn + model_contract" where
  "validate_contract fp c =
     (if mode_for (contract_capabilities c) Usage_Reporting = M_NONE
         \<and> requires_usage (usage_guarantees c) then Inl ValueError
      else case fingerprint c of
             None \<Rightarrow> Inr (c\<lparr>fingerprint := Some (fp c)\<rparr>)
           | Some f \<Rightarrow> if f \<noteq> fp c then Inl ValueError else Inr c)"

record model_requirements =
  req_capabilities :: model_capabilities
  min_context_window_tokens :: int
  min_output_tokens :: int

definition validate_requirements :: "model_requirements \<Rightarrow> exn + model_requirements" where
  "validate_requirements r =
     (if \<not> supports (req_capabilities r) (req_capabilities r) then Inl ValueError else Inr r)"

definition merged_with :: "model_requirements \<Rightarrow> model_requirements \<Rightarrow> exn + model_requirements" where
  "merged_with r1 r2 =
     bindE (merged_requirements (req_capabilities r1) (req_capabilities r2)) (\<lambda>m.
     bindE (as_typed m) (\<lambda>c.
       validate_requirements
         \<lparr>req_capabilities = c,
          min_context_window_tokens =
            max (min_context_window_tokens r1) (min_context_window_tokens r2),
          min_output_tokens = max (min_output_tokens r1) (min_output_tokens r2)\<rparr>))"

definition usage_requirement :: model_requirements where
  "usage_requirement =
     \<lparr>req_capabilities = no_capabilities\<lparr>cap_usage_reporting := Mode USAGE_PROVIDER_REPORTED\<rparr>,
      min_context_window_tokens = 1, min_output_tokens = 1\<rparr>"

definition effective_for :: "model_requirements \<Rightarrow> model_contract \<Rightarrow> exn + model_requirements" where
  "effective_for r contract =
     (if requires_usage (usage_guarantees contract) then merged_with r usage_requirement
      else Inr r)"

datatype requirement_reason =
    SATISFIED | STREAMING_UNSUPPORTED | TOOL_CALLING_UNSUPPORTED
  | STRUCTURED_OUTPUT_UNSUPPORTED | USAGE_REPORTING_UNSUPPORTED
  | CAPABILITY_COMBINATION_UNSUPPORTED | CONTEXT_WINDOW_TOO_SMALL | MAX_OUTPUT_TOO_SMALL

record requirement_match =
  compatible :: bool
  match_reason :: requirement_reason

fun unsupported_reason :: "cap_field \<Rightarrow> requirement_reason" where
  "unsupported_reason Streaming = STREAMING_UNSUPPORTED"
| "unsupported_reason Tool_Calling = TOOL_CALLING_UNSUPPORTED"
| "unsupported_reason Structured_Output = STRUCTURED_OUTPUT_UNSUPPORTED"
| "unsupported_reason Usage_Reporting = USAGE_REPORTING_UNSUPPORTED"

definition first_unsupported ::
  "model_capabilities \<Rightarrow> model_capabilities \<Rightarrow> cap_field option" where
  "first_unsupported available required =
     find (\<lambda>f. mode_for required f \<noteq> M_NONE
             \<and> \<not> capability_mode_supports f (mode_for available f) (mode_for required f)) CAP_FIELDS"

definition match_requirements ::
  "model_requirements \<Rightarrow> model_contract \<Rightarrow> exn + requirement_match" where
  "match_requirements r contract =
     bindE (effective_for r contract) (\<lambda>e.
       let required = req_capabilities e; available = contract_capabilities contract in
       Inr (case first_unsupported available required of
              Some f \<Rightarrow> \<lparr>compatible = False, match_reason = unsupported_reason f\<rparr>
            | None \<Rightarrow>
                if \<not> supports available required
                  then \<lparr>compatible = False, match_reason = CAPABILITY_COMBINATION_UNSUPPORTED\<rparr>
                else if context_window_tokens (limits contract) < min_context_window_tokens r
                  then \<lparr>compatible = False, match_reason = CONTEXT_WINDOW_TOO_SMALL\<rparr>
                else if max_output_tokens (limits contract) < min_output_tokens r
                  then \<lparr>compatible = False, match_reason = MAX_OUTPUT_TOO_SMALL\<rparr>
                else \<lparr>compatible = True, match_reason = SATISFIED\<rparr>))"

definition capability_ceiling_match ::
  "model_capabilities \<Rightarrow> model_capabilities \<Rightarrow> exn + requirement_match" where
  "capability_ceiling_match ceiling declared =
     (let combinations = (if supported_combinations declared = [] then [as_combination declared]
                          else supported_combinations declared);
          required = (\<lambda>k. validate_supported_combinations (of_combination k
             (if 1 < length (active_fields (combination_mode k)) then [k] else [])));
          verdict = (\<lambda>req. case first_unsupported ceiling req of
                Some f \<Rightarrow> Some (unsupported_reason f)
              | None \<Rightarrow> if supports ceiling req then None
                        else Some CAPABILITY_COMBINATION_UNSUPPORTED)
      in foldr (\<lambda>k rest. bindE (required k) (\<lambda>req.
             case verdict req of
               Some r \<Rightarrow> Inr \<lparr>compatible = False, match_reason = r\<rparr>
             | None \<Rightarrow> rest)) combinations
           (Inr \<lparr>compatible = True, match_reason = SATISFIED\<rparr>))"

section \<open>Bindings and the execution budget\<close>

record model_binding =
  purpose :: model_purpose
  binding_contract :: model_contract
  binding_requirements :: model_requirements
  adapter_configuration_fingerprint :: "string option"
  source_purpose :: "model_purpose option"

definition validate_binding :: "model_binding \<Rightarrow> exn + model_binding" where
  "validate_binding b =
     (if purpose b = PRIMARY \<and> source_purpose b \<noteq> None then Inl ValueError
      else if source_purpose b \<noteq> None \<and> source_purpose b \<noteq> Some PRIMARY then Inl ValueError
      else Inr b)"

type_synonym model_binding_set = "model_binding list"

definition for_purpose :: "model_binding_set \<Rightarrow> model_purpose \<Rightarrow> exn + model_binding" where
  "for_purpose bs p =
     (case find (\<lambda>b. purpose b = p) bs of None \<Rightarrow> Inl ValueError | Some b \<Rightarrow> Inr b)"

definition validate_complete_bindings :: "model_binding_set \<Rightarrow> exn + model_binding_set" where
  "validate_complete_bindings bs =
     (if set (map purpose bs) \<noteq> set MODEL_PURPOSES \<or> \<not> distinct (map purpose bs)
        then Inl ValueError
      else bindE (for_purpose bs PRIMARY) (\<lambda>primary.
        if list_ex (\<lambda>b. source_purpose b = Some PRIMARY
                     \<and> (binding_contract b \<noteq> binding_contract primary
                        \<or> binding_requirements b \<noteq> binding_requirements primary)) bs
          then Inl ValueError else Inr bs))"

definition reuse_primary :: "model_contract \<Rightarrow> model_requirements \<Rightarrow> exn + model_binding_set" where
  "reuse_primary contract requirements =
     (let primary = \<lparr>purpose = PRIMARY, binding_contract = contract,
            binding_requirements = requirements,
            adapter_configuration_fingerprint = None, source_purpose = None\<rparr>
      in bindE (validate_binding primary) (\<lambda>p.
           validate_complete_bindings
             [p, p\<lparr>purpose := CONTEXT_COMPRESSION, source_purpose := Some PRIMARY\<rparr>,
              p\<lparr>purpose := OUTPUT_REPAIR, source_purpose := Some PRIMARY\<rparr>]))"

record model_execution_budget =
  run_max_attempts :: int
  primary_max_attempts :: int
  context_compression_max_attempts :: int
  output_repair_max_attempts :: int

fun maximum_for :: "model_execution_budget \<Rightarrow> model_purpose \<Rightarrow> int" where
  "maximum_for b PRIMARY = primary_max_attempts b"
| "maximum_for b CONTEXT_COMPRESSION = context_compression_max_attempts b"
| "maximum_for b OUTPUT_REPAIR = output_repair_max_attempts b"

record model_usage =
  u_input_tokens :: "int option"
  u_output_tokens :: "int option"
  u_cached_input_tokens :: "int option"
  u_reasoning_tokens :: "int option"
  u_input_provenance :: "usage_provenance option"
  u_output_provenance :: "usage_provenance option"
  u_cached_input_provenance :: "usage_provenance option"
  u_reasoning_provenance :: "usage_provenance option"
  u_raw_unit :: "string option"
  u_normalization_source :: "string option"
  u_provenance :: usage_provenance

section \<open>Capability modes are preordered\<close>

lemma all_CAP_FIELDS [simp]: "list_all P CAP_FIELDS \<longleftrightarrow> (\<forall>f. P f)"
proof
  assume all: "list_all P CAP_FIELDS"
  show "\<forall>f. P f"
  proof
    fix f show "P f" using all by (cases f) (simp_all add: CAP_FIELDS_def)
  qed
qed (simp add: CAP_FIELDS_def)

lemma mode_supports_refl [simp]: "capability_mode_supports f m m"
  by (simp add: capability_mode_supports_def)

lemma mode_supports_none [simp]: "capability_mode_supports f m M_NONE"
  by (simp add: capability_mode_supports_def)

lemma none_supports: "capability_mode_supports f M_NONE m \<longleftrightarrow> m = M_NONE"
  by (auto simp: capability_mode_supports_def split: if_splits)

lemma mode_supports_trans:
  "capability_mode_supports f a b \<Longrightarrow> capability_mode_supports f b c \<Longrightarrow> capability_mode_supports f a c"
  by (auto simp: capability_mode_supports_def split: if_splits)

lemma mode_of_combination [simp]: "mode_for (of_combination k ks) f = combination_mode k f"
  by (cases f) (simp_all add: of_combination_def typed_streaming_def typed_tool_calling_def
      typed_structured_output_def typed_usage_reporting_def typed_capability_mode_def)

lemma combinations_of_combination [simp]: "supported_combinations (of_combination k ks) = ks"
  by (simp add: of_combination_def)

lemma of_combination_typed [simp]: "\<not> uses_legacy_boolean_surface (of_combination k ks)"
  by (simp add: of_combination_def uses_legacy_boolean_surface_def is_typed_def)

lemma as_combination_inverse [simp]: "as_combination (of_combination k ks) = k"
  by (simp add: as_combination_def of_combination_def typed_streaming_def typed_tool_calling_def
      typed_structured_output_def typed_usage_reporting_def typed_capability_mode_def)

lemma mode_as_combination [simp]: "combination_mode (as_combination c) f = mode_for c f"
  by (cases f) (simp_all add: as_combination_def)

lemma mode_for_of_combination_fun [simp]:
  "active_fields (mode_for (of_combination k ks)) = active_fields (combination_mode k)"
  by (simp add: active_fields_def)

lemma active_mono:
  assumes "\<And>f. capability_mode_supports f (m f) (m' f)"
  shows "length (active_fields m') \<le> length (active_fields m)"
proof -
  have "m f \<noteq> M_NONE" if "m' f \<noteq> M_NONE" for f
    using assms [of f] that none_supports by metis
  then have "length (filter (\<lambda>f. m' f \<noteq> M_NONE) CAP_FIELDS) \<le> length (filter (\<lambda>f. m f \<noteq> M_NONE) CAP_FIELDS)"
    by (simp add: CAP_FIELDS_def)
  then show ?thesis by (simp add: active_fields_def)
qed

text \<open>A declaration that supports a requirement supports every weaker one.\<close>

lemma supports_weaken:
  assumes "supports c r" and "\<And>f. capability_mode_supports f (mode_for r f) (mode_for r' f)"
  shows "supports c r'"
proof -
  have "capability_mode_supports f (mode_for c f) (mode_for r' f)" for f
    using assms mode_supports_trans by (fastforce simp: supports_def)
  moreover have "supports_combination c r'"
  proof (cases "length (active_fields (mode_for r)) \<le> 1")
    case True
    then show ?thesis
      using active_mono [OF assms(2)] by (simp add: supports_combination_def)
  next
    case False
    with assms(1) have "(uses_legacy_boolean_surface c \<and> supported_combinations c = [])
        \<or> list_ex (\<lambda>k. combination_supports k r) (supported_combinations c)"
      by (auto simp: supports_def supports_combination_def split: if_splits)
    moreover have "combination_supports k r'" if "combination_supports k r" for k
      using that assms(2) mode_supports_trans by (fastforce simp: combination_supports_def)
    ultimately show ?thesis
      by (auto simp: supports_combination_def list_ex_iff)
  qed
  ultimately show ?thesis by (simp add: supports_def)
qed

section \<open>Merging requirements never fails and never weakens\<close>

lemma merge_mode_streaming: "\<exists>m. merge_mode Streaming of_streaming a b = Inr m \<and> m \<in> {a, b}
    \<and> capability_mode_supports Streaming (of_streaming m) (of_streaming a)
    \<and> capability_mode_supports Streaming (of_streaming m) (of_streaming b)"
  by (cases a; cases b) (simp_all add: merge_mode_def capability_mode_supports_def)

lemma merge_mode_tool: "\<exists>m. merge_mode Tool_Calling of_tool_calling a b = Inr m \<and> m \<in> {a, b}
    \<and> capability_mode_supports Tool_Calling (of_tool_calling m) (of_tool_calling a)
    \<and> capability_mode_supports Tool_Calling (of_tool_calling m) (of_tool_calling b)"
  by (cases a; cases b) (simp_all add: merge_mode_def capability_mode_supports_def)

lemma merge_mode_structured: "\<exists>m. merge_mode Structured_Output of_structured_output a b = Inr m \<and> m \<in> {a, b}
    \<and> capability_mode_supports Structured_Output (of_structured_output m) (of_structured_output a)
    \<and> capability_mode_supports Structured_Output (of_structured_output m) (of_structured_output b)"
  by (cases a; cases b) (simp_all add: merge_mode_def capability_mode_supports_def)

lemma merge_mode_usage: "\<exists>m. merge_mode Usage_Reporting of_usage_reporting a b = Inr m \<and> m \<in> {a, b}
    \<and> capability_mode_supports Usage_Reporting (of_usage_reporting m) (of_usage_reporting a)
    \<and> capability_mode_supports Usage_Reporting (of_usage_reporting m) (of_usage_reporting b)"
  by (cases a; cases b) (simp_all add: merge_mode_def capability_mode_supports_def)

definition wrap_combination :: "capability_combination \<Rightarrow> model_capabilities" where
  "wrap_combination k =
     of_combination k (if 1 < length (active_fields (combination_mode k)) then [k] else [])"

lemma wrap_combination_valid [simp]:
  "validate_supported_combinations (wrap_combination k) = Inr (wrap_combination k)"
  by (simp add: validate_supported_combinations_def wrap_combination_def list_all_iff)

lemma wrap_combination_typed [simp]: "as_typed (wrap_combination k) = Inr (wrap_combination k)"
  by (simp add: as_typed_def wrap_combination_def Let_def)
    (simp add: validate_supported_combinations_def list_all_iff)

lemma mode_wrap [simp]: "mode_for (wrap_combination k) = combination_mode k"
  by (rule ext) (simp add: wrap_combination_def)

lemma supports_wrap_self [simp]: "supports (wrap_combination k) (wrap_combination k)"
  by (simp add: supports_def supports_combination_def combination_supports_def
      wrap_combination_def)

text \<open>
  \<open>merged_requirements\<close> always returns, and what it returns demands at least what each
  argument demands, field by field.
\<close>

lemma merged_requirements_total:
  obtains k where "merged_requirements c d = Inr (wrap_combination k)"
    and "\<And>f. capability_mode_supports f (combination_mode k f) (mode_for c f)"
    and "\<And>f. capability_mode_supports f (combination_mode k f) (mode_for d f)"
    and "\<And>f. combination_mode k f \<in> {mode_for c f, mode_for d f}"
proof -
  obtain s where s: "merge_mode Streaming of_streaming (typed_streaming c) (typed_streaming d) = Inr s"
    "s \<in> {typed_streaming c, typed_streaming d}"
    "capability_mode_supports Streaming (of_streaming s) (of_streaming (typed_streaming c))"
    "capability_mode_supports Streaming (of_streaming s) (of_streaming (typed_streaming d))"
    using merge_mode_streaming by blast
  obtain t where t: "merge_mode Tool_Calling of_tool_calling (typed_tool_calling c) (typed_tool_calling d) = Inr t"
    "t \<in> {typed_tool_calling c, typed_tool_calling d}"
    "capability_mode_supports Tool_Calling (of_tool_calling t) (of_tool_calling (typed_tool_calling c))"
    "capability_mode_supports Tool_Calling (of_tool_calling t) (of_tool_calling (typed_tool_calling d))"
    using merge_mode_tool by blast
  obtain so where so: "merge_mode Structured_Output of_structured_output
      (typed_structured_output c) (typed_structured_output d) = Inr so"
    "so \<in> {typed_structured_output c, typed_structured_output d}"
    "capability_mode_supports Structured_Output (of_structured_output so)
       (of_structured_output (typed_structured_output c))"
    "capability_mode_supports Structured_Output (of_structured_output so)
       (of_structured_output (typed_structured_output d))"
    using merge_mode_structured by blast
  obtain u where u: "merge_mode Usage_Reporting of_usage_reporting
      (typed_usage_reporting c) (typed_usage_reporting d) = Inr u"
    "u \<in> {typed_usage_reporting c, typed_usage_reporting d}"
    "capability_mode_supports Usage_Reporting (of_usage_reporting u)
       (of_usage_reporting (typed_usage_reporting c))"
    "capability_mode_supports Usage_Reporting (of_usage_reporting u)
       (of_usage_reporting (typed_usage_reporting d))"
    using merge_mode_usage by blast
  define k where "k = \<lparr>comb_streaming = s, comb_tool_calling = t,
    comb_structured_output = so, comb_usage_reporting = u\<rparr>"
  have "merged_requirements c d = validate_supported_combinations (wrap_combination k)"
    by (simp add: merged_requirements_def s t so u k_def wrap_combination_def Let_def)
  then have "merged_requirements c d = Inr (wrap_combination k)" by simp
  moreover have "capability_mode_supports f (combination_mode k f) (mode_for c f)" for f
    by (cases f) (simp_all add: k_def s t so u)
  moreover have "capability_mode_supports f (combination_mode k f) (mode_for d f)" for f
    by (cases f) (simp_all add: k_def s t so u)
  moreover have "combination_mode k f \<in> {mode_for c f, mode_for d f}" for f
    using s(2) t(2) so(2) u(2) by (cases f) (auto simp: k_def)
  ultimately show thesis by (rule that)
qed

lemma merged_with_total:
  obtains k where "merged_with r1 r2 = Inr
      \<lparr>req_capabilities = wrap_combination k,
       min_context_window_tokens = max (min_context_window_tokens r1) (min_context_window_tokens r2),
       min_output_tokens = max (min_output_tokens r1) (min_output_tokens r2)\<rparr>"
    and "\<And>f. capability_mode_supports f (combination_mode k f) (mode_for (req_capabilities r1) f)"
    and "\<And>f. capability_mode_supports f (combination_mode k f) (mode_for (req_capabilities r2) f)"
    and "\<And>f. combination_mode k f \<in> {mode_for (req_capabilities r1) f, mode_for (req_capabilities r2) f}"
proof -
  obtain k where k: "merged_requirements (req_capabilities r1) (req_capabilities r2)
      = Inr (wrap_combination k)"
    "\<And>f. capability_mode_supports f (combination_mode k f) (mode_for (req_capabilities r1) f)"
    "\<And>f. capability_mode_supports f (combination_mode k f) (mode_for (req_capabilities r2) f)"
    "\<And>f. combination_mode k f \<in> {mode_for (req_capabilities r1) f, mode_for (req_capabilities r2) f}"
    using merged_requirements_total by blast
  have "merged_with r1 r2 = Inr
      \<lparr>req_capabilities = wrap_combination k,
       min_context_window_tokens = max (min_context_window_tokens r1) (min_context_window_tokens r2),
       min_output_tokens = max (min_output_tokens r1) (min_output_tokens r2)\<rparr>"
    by (simp add: merged_with_def k(1) validate_requirements_def)
  then show thesis using k(2-4) by (rule that)
qed

section \<open>Matching\<close>

lemma first_unsupported_None:
  "first_unsupported a r = None \<longleftrightarrow> (\<forall>f. capability_mode_supports f (mode_for a f) (mode_for r f))"
proof -
  have "first_unsupported a r = None \<longleftrightarrow>
      list_all (\<lambda>f. mode_for r f = M_NONE \<or> capability_mode_supports f (mode_for a f) (mode_for r f)) CAP_FIELDS"
    by (auto simp: first_unsupported_def find_None_iff list_all_iff)
  then show ?thesis by (auto simp: capability_mode_supports_def)
qed

lemma effective_for_total: "\<exists>e. effective_for r c = Inr e"
  by (cases "requires_usage (usage_guarantees c)")
    (auto simp: effective_for_def intro: merged_with_total [of r usage_requirement])

lemma match_requirements_total: "\<exists>m. match_requirements r c = Inr m"
  using effective_for_total [of r c] by (auto simp: match_requirements_def Let_def)

text \<open>What compatibility means, without the first-failure bookkeeping.\<close>

lemma match_compatible_iff:
  assumes "effective_for r c = Inr e"
  shows "(\<exists>m. match_requirements r c = Inr m \<and> compatible m) \<longleftrightarrow>
     supports (contract_capabilities c) (req_capabilities e)
     \<and> min_context_window_tokens r \<le> context_window_tokens (limits c)
     \<and> min_output_tokens r \<le> max_output_tokens (limits c)"
proof (cases "first_unsupported (contract_capabilities c) (req_capabilities e)")
  case None
  then show ?thesis using assms by (auto simp: match_requirements_def)
next
  case (Some f)
  then have "\<not> supports (contract_capabilities c) (req_capabilities e)"
    by (metis all_CAP_FIELDS first_unsupported_None option.distinct(1) supports_def)
  with Some assms show ?thesis by (auto simp: match_requirements_def)
qed

lemma match_reason_satisfied:
  "match_requirements r c = Inr m \<Longrightarrow> compatible m \<longleftrightarrow> match_reason m = SATISFIED"
proof -
  have "unsupported_reason f \<noteq> SATISFIED" for f by (cases f) simp_all
  moreover assume "match_requirements r c = Inr m"
  ultimately show ?thesis
    by (auto simp: match_requirements_def bindE_eq_Inr Let_def split: option.splits if_splits)
qed

text \<open>
  Stronger requirements match fewer contracts: the effective requirements (after the
  usage guarantee of the contract is added) keep the order of the declared ones.
\<close>

definition weaker_requirements :: "model_requirements \<Rightarrow> model_requirements \<Rightarrow> bool" where
  "weaker_requirements q r \<longleftrightarrow>
     (\<forall>f. capability_mode_supports f (mode_for (req_capabilities r) f) (mode_for (req_capabilities q) f))
     \<and> min_context_window_tokens q \<le> min_context_window_tokens r
     \<and> min_output_tokens q \<le> min_output_tokens r"

lemma merged_withE:
  assumes "merged_with r1 r2 = Inr r"
  obtains k where "req_capabilities r = wrap_combination k"
    and "min_context_window_tokens r = max (min_context_window_tokens r1) (min_context_window_tokens r2)"
    and "min_output_tokens r = max (min_output_tokens r1) (min_output_tokens r2)"
    and "\<And>f. capability_mode_supports f (combination_mode k f) (mode_for (req_capabilities r1) f)"
    and "\<And>f. capability_mode_supports f (combination_mode k f) (mode_for (req_capabilities r2) f)"
    and "\<And>f. combination_mode k f \<in> {mode_for (req_capabilities r1) f, mode_for (req_capabilities r2) f}"
proof (rule merged_with_total [of r1 r2])
  fix k
  assume k: "merged_with r1 r2 = Inr
      \<lparr>req_capabilities = wrap_combination k,
       min_context_window_tokens = max (min_context_window_tokens r1) (min_context_window_tokens r2),
       min_output_tokens = max (min_output_tokens r1) (min_output_tokens r2)\<rparr>"
    and s: "\<And>f. capability_mode_supports f (combination_mode k f) (mode_for (req_capabilities r1) f)"
      "\<And>f. capability_mode_supports f (combination_mode k f) (mode_for (req_capabilities r2) f)"
      "\<And>f. combination_mode k f \<in> {mode_for (req_capabilities r1) f, mode_for (req_capabilities r2) f}"
  show thesis by (rule that [OF _ _ _ s]) (use k assms in simp_all)
qed

lemma effective_for_mono:
  assumes "weaker_requirements q r" and "effective_for q c = Inr q'" and "effective_for r c = Inr r'"
  shows "capability_mode_supports f (mode_for (req_capabilities r') f) (mode_for (req_capabilities q') f)"
proof (cases "requires_usage (usage_guarantees c)")
  case True
  then have "merged_with r usage_requirement = Inr r'" and "merged_with q usage_requirement = Inr q'"
    using assms(2,3) by (simp_all add: effective_for_def)
  then obtain k j where kj: "req_capabilities r' = wrap_combination k" "req_capabilities q' = wrap_combination j"
    and k1: "capability_mode_supports f (combination_mode k f) (mode_for (req_capabilities r) f)"
    and k2: "capability_mode_supports f (combination_mode k f) (mode_for (req_capabilities usage_requirement) f)"
    and j: "combination_mode j f \<in>
       {mode_for (req_capabilities q) f, mode_for (req_capabilities usage_requirement) f}"
    by (elim merged_withE) metis
  have "capability_mode_supports f (mode_for (req_capabilities r) f) (mode_for (req_capabilities q) f)"
    using assms(1) by (simp add: weaker_requirements_def)
  with k1 have "capability_mode_supports f (combination_mode k f) (mode_for (req_capabilities q) f)"
    by (rule mode_supports_trans)
  with k2 j kj show ?thesis by auto
next
  case False
  with assms show ?thesis by (simp add: effective_for_def weaker_requirements_def)
qed

lemma match_requirements_mono:
  assumes "weaker_requirements q r" and "match_requirements r c = Inr m" and "compatible m"
  shows "\<exists>m'. match_requirements q c = Inr m' \<and> compatible m'"
proof -
  obtain r' q' where e: "effective_for r c = Inr r'" and e': "effective_for q c = Inr q'"
    using effective_for_total by meson
  have "supports (contract_capabilities c) (req_capabilities r')"
    and lim: "min_context_window_tokens r \<le> context_window_tokens (limits c)"
      "min_output_tokens r \<le> max_output_tokens (limits c)"
    using match_compatible_iff [OF e] assms(2,3) by blast+
  then have "supports (contract_capabilities c) (req_capabilities q')"
    using supports_weaken effective_for_mono [OF assms(1) e' e] by blast
  then show ?thesis
    using match_compatible_iff [OF e'] lim assms(1) by (fastforce simp: weaker_requirements_def)
qed

lemma merged_with_stronger:
  assumes "merged_with r1 r2 = Inr r"
  shows "weaker_requirements r1 r" and "weaker_requirements r2 r"
  by (rule merged_withE [OF assms], simp add: weaker_requirements_def)+

section \<open>Validated binding sets\<close>

lemma for_purpose_validated:
  assumes "validate_complete_bindings bs = Inr bs'"
  shows "bs' = bs" and "\<exists>b. for_purpose bs p = Inr b \<and> b \<in> set bs \<and> purpose b = p"
proof -
  show "bs' = bs"
    using assms by (auto simp: validate_complete_bindings_def bindE_eq_Inr split: if_splits)
  have "set (map purpose bs) = set MODEL_PURPOSES"
    using assms by (auto simp: validate_complete_bindings_def split: if_splits)
  moreover have "p \<in> set MODEL_PURPOSES"
    by (cases p) (simp_all add: MODEL_PURPOSES_def)
  ultimately have "p \<in> set (map purpose bs)" by simp
  then have "find (\<lambda>b. purpose b = p) bs \<noteq> None" by (auto simp: find_None_iff)
  then obtain b where b: "find (\<lambda>b. purpose b = p) bs = Some b" by blast
  then have "b \<in> set bs \<and> purpose b = p"
    by (metis (mono_tags, lifting) find_Some_iff nth_mem)
  with b show "\<exists>b. for_purpose bs p = Inr b \<and> b \<in> set bs \<and> purpose b = p"
    by (simp add: for_purpose_def)
qed

lemma reuse_primary_complete:
  "\<exists>bs. reuse_primary c r = Inr bs \<and>
     (\<forall>p. \<exists>b. for_purpose bs p = Inr b \<and> binding_contract b = c \<and> binding_requirements b = r)"
proof -
  have "\<exists>bs. reuse_primary c r = Inr bs"
    by (auto simp: reuse_primary_def validate_binding_def validate_complete_bindings_def
        for_purpose_def MODEL_PURPOSES_def Let_def)
  moreover have "\<exists>b. for_purpose bs p = Inr b \<and> binding_contract b = c \<and> binding_requirements b = r"
    if "reuse_primary c r = Inr bs" for bs p
    using that by (cases p) (auto simp: reuse_primary_def validate_binding_def
        validate_complete_bindings_def for_purpose_def MODEL_PURPOSES_def Let_def)
  ultimately show ?thesis by blast
qed

lemma validate_contract_fingerprint:
  assumes "validate_contract fp c = Inr c'" and "fp c' = fp c"
  shows "fingerprint c' = Some (fp c')"
  using assms by (auto simp: validate_contract_def split: if_splits option.splits)

lemma match_requirements_exact:
  "\<exists>e m. effective_for r c = Inr e \<and> match_requirements r c = Inr m
     \<and> (compatible m \<longleftrightarrow> supports (contract_capabilities c) (req_capabilities e)
          \<and> min_context_window_tokens r \<le> context_window_tokens (limits c)
          \<and> min_output_tokens r \<le> max_output_tokens (limits c))
     \<and> (compatible m \<longleftrightarrow> match_reason m = SATISFIED)"
proof -
  obtain e m where e: "effective_for r c = Inr e" and m: "match_requirements r c = Inr m"
    using effective_for_total match_requirements_total by blast
  show ?thesis using e m match_compatible_iff [OF e] match_reason_satisfied [OF m] by auto
qed

text \<open>Merging requirements never fails and never weakens: the result demands at least
  what either side demands, so a contract that satisfies it satisfies both sides.\<close>

lemma merged_requirements_meet_both:
  "\<exists>r. merged_with r1 r2 = Inr r \<and> weaker_requirements r1 r \<and> weaker_requirements r2 r
     \<and> (\<forall>c m. match_requirements r c = Inr m \<longrightarrow> compatible m \<longrightarrow>
          (\<exists>m1. match_requirements r1 c = Inr m1 \<and> compatible m1)
          \<and> (\<exists>m2. match_requirements r2 c = Inr m2 \<and> compatible m2))"
proof -
  obtain r where r: "merged_with r1 r2 = Inr r" by (rule merged_with_total [of r1 r2]) blast
  note stronger = merged_with_stronger [OF r]
  show ?thesis using r stronger match_requirements_mono [OF stronger(1)] match_requirements_mono [OF stronger(2)]
    by blast
qed

end
