(* ===== verification/Context_Plan.thy ===== *)
theory Context_Plan
  imports Tools Model_Contract
begin

text \<open>
  The Context Pipeline of \<open>src/src/m_agent/_context_plan.py\<close>: plans and stages with
  their validators, deterministic Step ids of stage invocations, aggregation of stage
  results into the items of one Context Frame, and the input sizer with the hard token
  budget. JSON (de)serialisation of stage results by Pydantic is a parameter.
\<close>

section \<open>Plans\<close>

record context_item =
  item_id :: pystr
  item_content :: pystr
  item_source :: pystr
  item_metadata :: "(pystr \<times> json) list"

definition PROTECTED_CHANNELS :: "ident list" where
  "PROTECTED_CHANNELS = [''instructions'', ''run_input'', ''history'', ''tool_outcomes'']"

definition LEGACY_PROVIDER_STAGE_ID :: ident where
  "LEGACY_PROVIDER_STAGE_ID = ''context-provider''"

datatype context_scope = RUN_INPUT | TOOL_OUTCOME | MODEL_STEP

fun scope_value :: "context_scope \<Rightarrow> string" where
  "scope_value RUN_INPUT = ''RUN_INPUT''"
| "scope_value TOOL_OUTCOME = ''TOOL_OUTCOME''"
| "scope_value MODEL_STEP = ''MODEL_STEP''"

datatype context_transform_type = PROVIDE | SELECT | TRIM | BUDGET_SELECT

record context_stage_identity =
  stage_id :: ident
  stage_scope :: context_scope
  transform_type :: context_transform_type
  config_version :: ident

fun transform_value :: "context_transform_type \<Rightarrow> string" where
  "transform_value PROVIDE = ''PROVIDE''"
| "transform_value SELECT = ''SELECT''"
| "transform_value TRIM = ''TRIM''"
| "transform_value BUDGET_SELECT = ''BUDGET_SELECT''"

definition stable_key :: "context_stage_identity \<Rightarrow> ident" where
  "stable_key i = stage_id i @ '':'' @ scope_value (stage_scope i) @ '':''
     @ transform_value (transform_type i)"

record context_stage_config =
  cfg_stage_id :: ident
  cfg_transform_type :: context_transform_type
  cfg_config_version :: ident
  protected_channels :: "ident list"
  cfg_config :: "(pystr \<times> json) list"

definition validate_stage_config :: "context_stage_config \<Rightarrow> exn + context_stage_config" where
  "validate_stage_config c = (if blank_ident (cfg_stage_id c) then Inl ValueError else Inr c)"

record context_stage =
  stage_identity :: context_stage_identity
  stage_config :: "context_stage_config option"
  input_channels :: "ident list"
  output_channels :: "ident list"

definition validate_stage :: "context_stage \<Rightarrow> exn + context_stage" where
  "validate_stage s =
     (case stage_config s of
        None \<Rightarrow> Inr s
      | Some c \<Rightarrow>
          if cfg_stage_id c \<noteq> stage_id (stage_identity s) then Inl ValueError
          else if cfg_transform_type c \<noteq> transform_type (stage_identity s) then Inl ValueError
          else Inr s)"

record context_plan =
  plan_stages :: "context_stage list"
  plan_version :: ident

text \<open>The loop over \<open>seen\<close>, then the loop over protected output channels.\<close>

fun duplicate_stage :: "ident set \<Rightarrow> context_stage list \<Rightarrow> bool" where
  "duplicate_stage seen [] = False"
| "duplicate_stage seen (s # ss) =
     (if stage_id (stage_identity s) \<in> seen then True
      else duplicate_stage (insert (stage_id (stage_identity s)) seen) ss)"

definition validate_plan :: "context_plan \<Rightarrow> exn + context_plan" where
  "validate_plan p =
     (if duplicate_stage {} (plan_stages p) then Inl ValueError
      else if list_ex (\<lambda>s. list_ex (\<lambda>c. c \<in> set PROTECTED_CHANNELS) (output_channels s))
                (plan_stages p) then Inl ValueError
      else Inr p)"

definition stages_for_scope :: "context_plan \<Rightarrow> context_scope \<Rightarrow> context_stage list" where
  "stages_for_scope p scope = filter (\<lambda>s. stage_scope (stage_identity s) = scope) (plan_stages p)"

definition plan_is_empty :: "context_plan \<Rightarrow> bool" where
  "plan_is_empty p \<longleftrightarrow> length (plan_stages p) = 0"

definition legacy_provider_stage :: context_stage where
  "legacy_provider_stage =
     \<lparr>stage_identity = \<lparr>stage_id = LEGACY_PROVIDER_STAGE_ID, stage_scope = RUN_INPUT,
        transform_type = PROVIDE, config_version = ''1''\<rparr>,
      stage_config = None, input_channels = [], output_channels = []\<rparr>"

definition stage_invocation_step_id :: "context_stage \<Rightarrow> nat \<Rightarrow> ident" where
  "stage_invocation_step_id stage boundary =
     ''ctx:'' @ stage_id (stage_identity stage) @ '':''
       @ scope_value (stage_scope (stage_identity stage)) @ '':'' @ dec boundary"

section \<open>Stage results and frames\<close>

record provenance_source =
  prov_stage_id :: ident
  prov_transform_type :: context_transform_type
  prov_source_item_ids :: "pystr list"

record context_item_with_provenance =
  ip_item :: context_item
  ip_provenance :: provenance_source

record context_stage_result =
  res_stage_id :: ident
  res_scope :: context_scope
  res_transform_type :: context_transform_type
  res_input_item_ids :: "pystr list"
  res_boundary :: nat
  res_output_items :: "context_item_with_provenance list"
  res_decisions :: "(pystr \<times> json) list"
  res_measurement :: "(ident \<times> int) list"

definition result_context_items :: "context_stage_result \<Rightarrow> context_item list" where
  "result_context_items r = map ip_item (res_output_items r)"

text \<open>
  \<open>parse\<close> stands for \<open>ContextStageResult.model_validate_json\<close> (\<open>None\<close> on
  \<open>ValidationError\<close>), \<open>items_of\<close> for \<open>deserialize_context_items\<close>.
\<close>

definition context_items_from_payload ::
  "(pystr \<Rightarrow> context_stage_result option) \<Rightarrow> (pystr \<Rightarrow> exn + context_item list) \<Rightarrow> pystr
     \<Rightarrow> exn + context_item list" where
  "context_items_from_payload parse items_of payload =
     (case parse payload of Some r \<Rightarrow> Inr (result_context_items r) | None \<Rightarrow> items_of payload)"

fun aggregate_frame_items ::
  "(pystr \<Rightarrow> context_stage_result option) \<Rightarrow> (pystr \<Rightarrow> exn + context_item list)
     \<Rightarrow> nat \<Rightarrow> nat \<Rightarrow> pystr list \<Rightarrow> exn + context_item list" where
  "aggregate_frame_items parse items_of tool_boundary model_boundary [] = Inr []"
| "aggregate_frame_items parse items_of tool_boundary model_boundary (payload # payloads) =
     bindE (case parse payload of
              None \<Rightarrow> items_of payload
            | Some r \<Rightarrow>
                if res_scope r = RUN_INPUT then Inr (result_context_items r)
                else if res_scope r = TOOL_OUTCOME \<and> res_boundary r \<le> tool_boundary
                  then Inr (result_context_items r)
                else if res_scope r = MODEL_STEP \<and> res_boundary r = model_boundary
                  then Inr (result_context_items r)
                else Inr []) (\<lambda>items.
     bindE (aggregate_frame_items parse items_of tool_boundary model_boundary payloads) (\<lambda>rest.
       Inr (items @ rest)))"

datatype conversation_role = USER | ASSISTANT

record conversation_message =
  role :: conversation_role
  msg_content :: pystr

record context_frame =
  frame_instructions :: pystr
  frame_run_input :: pystr
  frame_history :: "conversation_message list"
  frame_context_items :: "context_item list"
  frame_tool_outcomes :: "tool_outcome list"
  frame_tools :: "tool_spec list"
  frame_structured_output :: structured_output_mode
  frame_usage_reporting :: usage_reporting_mode

record model_request =
  request_input :: pystr
  request_instructions :: pystr
  request_history :: "conversation_message list"
  request_context_items :: "context_item list"
  request_tools :: "tool_spec list"
  request_tool_outcomes :: "tool_outcome list"
  request_structured_output :: structured_output_mode
  request_usage_reporting :: usage_reporting_mode

definition to_model_request :: "context_frame \<Rightarrow> pystr option \<Rightarrow> model_request" where
  "to_model_request f input_override =
     \<lparr>request_input = (case input_override of Some i \<Rightarrow> i | None \<Rightarrow> frame_run_input f),
      request_instructions = frame_instructions f,
      request_history = frame_history f,
      request_context_items = frame_context_items f,
      request_tools = frame_tools f,
      request_tool_outcomes = frame_tool_outcomes f,
      request_structured_output = frame_structured_output f,
      request_usage_reporting = frame_usage_reporting f\<rparr>"

section \<open>Budget and sizer\<close>

record context_budget =
  total_token_limit :: int
  budget_reserved_output_tokens :: int

text \<open>Field bounds (\<open>ge=1\<close>, \<open>ge=0\<close>) and the model validator.\<close>

definition validate_budget :: "context_budget \<Rightarrow> exn + context_budget" where
  "validate_budget b =
     (if total_token_limit b < 1 \<or> budget_reserved_output_tokens b < 0 then Inl ValueError
      else if total_token_limit b \<le> budget_reserved_output_tokens b then Inl ValueError
      else Inr b)"

definition input_token_limit :: "context_budget \<Rightarrow> int" where
  "input_token_limit b = total_token_limit b - budget_reserved_output_tokens b"

definition from_model_limits :: "model_limits \<Rightarrow> int option \<Rightarrow> exn + context_budget" where
  "from_model_limits l reserved_output =
     (let reserved = (case reserved_output of
            Some r \<Rightarrow> r
          | None \<Rightarrow> min (max_output_tokens l) (context_window_tokens l div 2))
      in validate_budget
           \<lparr>total_token_limit = context_window_tokens l,
            budget_reserved_output_tokens = min reserved (context_window_tokens l - 1)\<rparr>)"

datatype sizing_mode = EXACT | CONSERVATIVE

record frame_sizing_result =
  sz_input_tokens :: int
  sz_reserved_output_tokens :: int
  sz_total_tokens :: int
  channel_breakdown :: "(ident \<times> int) list"
  sz_mode :: sizing_mode

definition within_budget :: "frame_sizing_result \<Rightarrow> bool" where
  "within_budget r \<longleftrightarrow> sz_total_tokens r \<le> sz_input_tokens r + sz_reserved_output_tokens r"

record model_input_sizer =
  sizer_id :: ident
  sizer_mode :: sizing_mode

definition estimate_text :: "pystr \<Rightarrow> int" where
  "estimate_text text = (if text = [] then 0 else max 1 (int (length text) div 4))"

text \<open>\<open>estimate_text(outcome.result)\<close>: a rejected outcome has no result, \<open>not None\<close> is true.\<close>

definition estimate_optional :: "pystr option \<Rightarrow> int" where
  "estimate_optional t = (case t of None \<Rightarrow> 0 | Some s \<Rightarrow> estimate_text s)"

text \<open>\<open>dump_tool\<close> is \<open>json.dumps(tool.model_dump(mode="json"))\<close>.\<close>

definition size_frame ::
  "(tool_spec \<Rightarrow> pystr) \<Rightarrow> model_input_sizer \<Rightarrow> context_frame \<Rightarrow> frame_sizing_result" where
  "size_frame dump_tool sizer f =
     (let breakdown =
        [(''instructions'', estimate_text (frame_instructions f)),
         (''run_input'', estimate_text (frame_run_input f)),
         (''history'', (\<Sum>m \<leftarrow> frame_history f. estimate_text (msg_content m))),
         (''context_items'', (\<Sum>i \<leftarrow> frame_context_items f. estimate_text (item_content i))),
         (''tool_outcomes'', (\<Sum>t \<leftarrow> frame_tool_outcomes f. estimate_optional (outcome_result t))),
         (''tools'', (\<Sum>t \<leftarrow> frame_tools f. estimate_text (dump_tool t))),
         (''protocol_overhead'',
            int (length (frame_context_items f)) * 4 + int (length (frame_history f)) * 4
            + int (length (frame_tool_outcomes f)) * 4 + int (length (frame_tools f)) * 4 + 10)];
          input_tokens = sum_list (map snd breakdown)
      in \<lparr>sz_input_tokens = input_tokens, sz_reserved_output_tokens = 0,
          sz_total_tokens = input_tokens, channel_breakdown = breakdown,
          sz_mode = sizer_mode sizer\<rparr>)"

text \<open>\<open>str.startswith\<close>.\<close>

definition starts_with :: "'a list \<Rightarrow> 'a list \<Rightarrow> bool" where
  "starts_with p s \<longleftrightarrow> take (length p) s = p"

lemma starts_with_iff: "starts_with p s \<longleftrightarrow> (\<exists>rest. s = p @ rest)"
proof
  assume "starts_with p s"
  then have "s = p @ drop (length p) s"
    using append_take_drop_id [of "length p" s] by (simp add: starts_with_def)
  then show "\<exists>rest. s = p @ rest" ..
qed (auto simp: starts_with_def)

definition sizer_for_contract :: "model_contract \<Rightarrow> exn + model_input_sizer" where
  "sizer_for_contract c =
     (if blank_ident (input_sizer_id c) then Inl ValueError
      else Inr \<lparr>sizer_id = input_sizer_id c,
                sizer_mode = (if starts_with ''legacy-'' (input_sizer_id c)
                                 \<or> starts_with ''deterministic-'' (input_sizer_id c)
                              then CONSERVATIVE else EXACT)\<rparr>)"

definition check_frame_budget ::
  "(tool_spec \<Rightarrow> pystr) \<Rightarrow> context_frame \<Rightarrow> context_budget \<Rightarrow> model_input_sizer
     \<Rightarrow> frame_sizing_result" where
  "check_frame_budget dump_tool f b sizer =
     (let r = size_frame dump_tool sizer f
      in r\<lparr>sz_reserved_output_tokens := budget_reserved_output_tokens b,
           sz_total_tokens := sz_input_tokens r + budget_reserved_output_tokens b\<rparr>)"

section \<open>Plans: uniqueness and isolation of protected channels\<close>

lemma duplicate_stage_iff:
  "duplicate_stage seen ss \<longleftrightarrow>
     \<not> distinct (map (\<lambda>s. stage_id (stage_identity s)) ss)
     \<or> (\<exists>s \<in> set ss. stage_id (stage_identity s) \<in> seen)"
  by (induction ss arbitrary: seen) (auto simp: image_iff, metis)

lemma validate_plan_ok:
  "validate_plan p = Inr p' \<longleftrightarrow> p' = p
     \<and> distinct (map (\<lambda>s. stage_id (stage_identity s)) (plan_stages p))
     \<and> (\<forall>s \<in> set (plan_stages p). set (output_channels s) \<inter> set PROTECTED_CHANNELS = {})"
  by (auto simp: validate_plan_def duplicate_stage_iff list_ex_iff)

lemma colon_not_in_scope: "CHR '':'' \<notin> set (scope_value sc)"
  by (cases sc) simp_all

lemma scope_value_inj [simp]: "scope_value a = scope_value b \<longleftrightarrow> a = b"
  by (cases a; cases b) simp_all

text \<open>Two invocations share a Step id only if stage, scope and boundary agree.\<close>

lemma stage_invocation_step_id_inj:
  assumes "stage_invocation_step_id s b = stage_invocation_step_id s' b'"
  shows "stage_id (stage_identity s) = stage_id (stage_identity s')
     \<and> stage_scope (stage_identity s) = stage_scope (stage_identity s') \<and> b = b'"
proof -
  let ?i = "\<lambda>s. ''ctx:'' @ stage_id (stage_identity s)"
  let ?v = "\<lambda>s. scope_value (stage_scope (stage_identity s))"
  have eq: "(?i s @ '':'' @ ?v s) @ CHR '':'' # dec b = (?i s' @ '':'' @ ?v s') @ CHR '':'' # dec b'"
    using assms by (simp add: stage_invocation_step_id_def)
  have d: "dec b = dec b'" and r: "?i s @ CHR '':'' # ?v s = ?i s' @ CHR '':'' # ?v s'"
    using split_last_unique [OF eq colon_not_in_dec colon_not_in_dec] by simp_all
  have "?i s = ?i s'" "?v s = ?v s'"
    by (rule split_last_unique [OF r colon_not_in_scope colon_not_in_scope])+
  with d show ?thesis by simp
qed

section \<open>Frames and budgets\<close>

text \<open>Which stage results belong to the frame of a Model Step.\<close>

definition in_frame :: "nat \<Rightarrow> nat \<Rightarrow> context_stage_result \<Rightarrow> bool" where
  "in_frame tb mb r \<longleftrightarrow>
     (case res_scope r of
        RUN_INPUT \<Rightarrow> True | TOOL_OUTCOME \<Rightarrow> res_boundary r \<le> tb | MODEL_STEP \<Rightarrow> res_boundary r = mb)"

lemma aggregate_stage_results:
  assumes "\<And>p. p \<in> set ps \<Longrightarrow> parse p = Some (res p)"
  shows "aggregate_frame_items parse items_of tb mb ps =
     Inr (concat (map result_context_items (filter (in_frame tb mb) (map res ps))))"
  using assms
  by (induction ps) (auto simp: in_frame_def split: context_scope.splits)

lemma estimate_text_nonneg [simp]: "0 \<le> estimate_text t"
  by (simp add: estimate_text_def max_def)

lemma estimate_optional_nonneg [simp]: "0 \<le> estimate_optional t"
  by (simp add: estimate_optional_def split: option.splits)

lemma estimate_text_bounds:
  "estimate_text t \<le> int (length t)" "int (length t) \<le> 4 * estimate_text t + 3"
proof -
  have "int (length t) < 4 * (int (length t) div 4) + 4" by linarith
  moreover have "t \<noteq> [] \<Longrightarrow> 1 \<le> int (length t)" by (cases t) auto
  ultimately show "estimate_text t \<le> int (length t)" "int (length t) \<le> 4 * estimate_text t + 3"
    by (auto simp: estimate_text_def)
qed

lemma estimate_text_mono: "length s \<le> length t \<Longrightarrow> estimate_text s \<le> estimate_text t"
  by (cases s; cases t) (auto simp: estimate_text_def max_def zdiv_mono1)

lemma from_model_limits_valid:
  assumes "1 \<le> context_window_tokens l" and "0 \<le> max_output_tokens l"
  shows "\<exists>b. from_model_limits l None = Inr b \<and> total_token_limit b = context_window_tokens l
     \<and> 1 \<le> input_token_limit b
     \<and> budget_reserved_output_tokens b \<le> max_output_tokens l"
  using assms by (auto simp: from_model_limits_def validate_budget_def input_token_limit_def Let_def)

lemma check_frame_budget_total:
  "sz_total_tokens (check_frame_budget dump_tool f b sizer) \<le> total_token_limit b \<longleftrightarrow>
     sz_input_tokens (size_frame dump_tool sizer f) \<le> input_token_limit b"
  by (auto simp: check_frame_budget_def input_token_limit_def Let_def)

lemma size_frame_add_item:
  "sz_input_tokens (size_frame d s (f\<lparr>frame_context_items := frame_context_items f @ [i]\<rparr>)) =
     sz_input_tokens (size_frame d s f) + estimate_text (item_content i) + 4"
  by (simp add: size_frame_def Let_def)

text \<open>The frame of a Model Step holds, in checkpoint order, exactly the items of the
  stage results that apply to it: all of RUN_INPUT, TOOL_OUTCOME up to the tool boundary,
  MODEL_STEP of this very step.\<close>

lemma frame_items_selected:
  assumes "\<forall>p \<in> set ps. parse p = Some (res p)"
  shows "aggregate_frame_items parse items_of tb mb ps =
     Inr (concat (map result_context_items (filter (in_frame tb mb) (map res ps))))"
  using assms by (intro aggregate_stage_results) blast

end
