(* ===== verification/Model_Exchange.thy ===== *)
theory Model_Exchange
  imports Context_Plan
begin

text \<open>
  What passes between the Runner and a Model Adapter, second half of
  \<open>src/src/m_agent/_model.py\<close>: usage values with their validator, responses, the check of a
  request before dispatch and the normalisation of a response after it.
  \<open>loads\<close> is \<open>json.loads\<close>; \<open>loads_strict\<close> is \<open>json.loads\<close> with a \<open>parse_constant\<close> that
  raises. An adapter is foreign code and may hand back anything: \<open>Reply None\<close> is a value of
  another type.
\<close>

section \<open>Usage\<close>

datatype usage_field = U_Input | U_Output | U_Cached_Input | U_Reasoning

definition USAGE_FIELDS :: "usage_field list" where
  "USAGE_FIELDS = [U_Input, U_Output, U_Cached_Input, U_Reasoning]"

fun usage_value :: "model_usage \<Rightarrow> usage_field \<Rightarrow> int option" where
  "usage_value x U_Input = u_input_tokens x"
| "usage_value x U_Output = u_output_tokens x"
| "usage_value x U_Cached_Input = u_cached_input_tokens x"
| "usage_value x U_Reasoning = u_reasoning_tokens x"

fun usage_source :: "model_usage \<Rightarrow> usage_field \<Rightarrow> usage_provenance option" where
  "usage_source x U_Input = u_input_provenance x"
| "usage_source x U_Output = u_output_provenance x"
| "usage_source x U_Cached_Input = u_cached_input_provenance x"
| "usage_source x U_Reasoning = u_reasoning_provenance x"

fun guarantee_of :: "model_usage_guarantees \<Rightarrow> usage_field \<Rightarrow> usage_field_guarantee" where
  "guarantee_of g U_Input = g_input_tokens g"
| "guarantee_of g U_Output = g_output_tokens g"
| "guarantee_of g U_Cached_Input = g_cached_input_tokens g"
| "guarantee_of g U_Reasoning = g_reasoning_tokens g"

text \<open>One field of \<open>_normalize_field_provenance\<close>, after \<open>_validate_token_count\<close>.\<close>

definition field_provenance ::
  "usage_provenance \<Rightarrow> int option \<Rightarrow> usage_provenance option \<Rightarrow> exn + usage_provenance" where
  "field_provenance summary count source =
     (if (\<exists>n \<in> set_option count. n < 0) then Inl ValueError
      else if count = None \<and> source \<noteq> None \<and> source \<noteq> Some UNAVAILABLE then Inl ValueError
      else if count \<noteq> None \<and> source = Some UNAVAILABLE then Inl ValueError
      else Inr (if count = None then UNAVAILABLE
                else case source of Some p \<Rightarrow> p | None \<Rightarrow> summary))"

definition validate_usage :: "model_usage \<Rightarrow> exn + model_usage" where
  "validate_usage x =
     bindE (field_provenance (u_provenance x) (u_input_tokens x) (u_input_provenance x)) (\<lambda>i.
     bindE (field_provenance (u_provenance x) (u_output_tokens x) (u_output_provenance x)) (\<lambda>p.
     bindE (field_provenance (u_provenance x) (u_cached_input_tokens x)
              (u_cached_input_provenance x)) (\<lambda>c.
     bindE (field_provenance (u_provenance x) (u_reasoning_tokens x) (u_reasoning_provenance x)) (\<lambda>r.
       Inr (x\<lparr>u_input_provenance := Some i, u_output_provenance := Some p,
              u_cached_input_provenance := Some c, u_reasoning_provenance := Some r,
              u_provenance := (if list_all (\<lambda>f. usage_value x f = None) USAGE_FIELDS
                               then UNAVAILABLE else u_provenance x)\<rparr>)))))"

definition unavailable_usage :: model_usage where
  "unavailable_usage =
     \<lparr>u_input_tokens = None, u_output_tokens = None, u_cached_input_tokens = None,
      u_reasoning_tokens = None, u_input_provenance = Some UNAVAILABLE,
      u_output_provenance = Some UNAVAILABLE, u_cached_input_provenance = Some UNAVAILABLE,
      u_reasoning_provenance = Some UNAVAILABLE, u_raw_unit = None,
      u_normalization_source = None, u_provenance = UNAVAILABLE\<rparr>"

section \<open>Requests and responses\<close>

record model_response =
  resp_content :: "pystr option"
  resp_tool_calls :: "tool_call list"
  resp_usage :: "model_usage option"
  resp_actual_revision :: "ident option"

datatype model_reply = Reply "model_response option"

text \<open>The four modes of one exchange, wrapped into capabilities as both checks do.\<close>

definition exchange_modes ::
  "bool \<Rightarrow> bool \<Rightarrow> structured_output_mode \<Rightarrow> usage_reporting_mode \<Rightarrow> model_capabilities" where
  "exchange_modes streams tools structured usage = wrap_combination
     \<lparr>comb_streaming = (if streams then DELTA else STREAMING_NONE),
      comb_tool_calling = (if tools then NATIVE else TOOL_CALLING_NONE),
      comb_structured_output = structured, comb_usage_reporting = usage\<rparr>"

definition assert_model_request_compatible ::
  "model_contract \<Rightarrow> model_request \<Rightarrow> bool \<Rightarrow> exn + unit" where
  "assert_model_request_compatible contract request streams =
     (if \<not> supports (contract_capabilities contract)
           (exchange_modes streams
              (request_tools request \<noteq> [] \<or> request_tool_outcomes request \<noteq> [])
              (request_structured_output request) (request_usage_reporting request))
      then Inl ModelCapabilityError else Inr ())"

fun check_tool_calls ::
  "(pystr \<Rightarrow> json option) \<Rightarrow> ident set \<Rightarrow> ident set \<Rightarrow> tool_call list \<Rightarrow> exn + unit" where
  "check_tool_calls loads declared seen [] = Inr ()"
| "check_tool_calls loads declared seen (c # cs) =
     (if blank_ident (call_id c) then Inl ModelContractViolationError
      else if call_id c \<in> seen then Inl ModelContractViolationError
      else if blank_ident (call_tool_name c) then Inl ModelContractViolationError
      else if call_tool_name c \<notin> declared then Inl ModelContractViolationError
      else case loads (arguments c) of
             Some (JObj _) \<Rightarrow> check_tool_calls loads declared (insert (call_id c) seen) cs
           | _ \<Rightarrow> Inl ModelContractViolationError)"

definition provider_reported :: "model_usage option \<Rightarrow> bool" where
  "provider_reported usage \<longleftrightarrow>
     (\<exists>x \<in> set_option usage. list_ex (\<lambda>f. usage_value x f \<noteq> None
        \<and> usage_source x f = Some PROVIDER_REPORTED) USAGE_FIELDS)"

definition check_usage_field ::
  "model_usage_guarantees \<Rightarrow> model_usage \<Rightarrow> usage_field \<Rightarrow> bool" where
  "check_usage_field g x f \<longleftrightarrow>
     (guarantee_of g f = REQUIRED \<longrightarrow>
        usage_value x f \<noteq> None \<and> usage_source x f = Some PROVIDER_REPORTED)
     \<and> (guarantee_of g f = UNSUPPORTED \<longrightarrow> usage_value x f = None)"

text \<open>The last part of the normalisation: what usage the contract guarantees.\<close>

definition normalize_usage :: "model_contract \<Rightarrow> model_response \<Rightarrow> exn + model_response" where
  "normalize_usage contract r =
     (case resp_usage r of
        None \<Rightarrow>
          if list_ex (\<lambda>f. guarantee_of (usage_guarantees contract) f = REQUIRED) USAGE_FIELDS
            then Inl ModelContractViolationError
          else Inr (r\<lparr>resp_usage := Some unavailable_usage\<rparr>)
      | Some x \<Rightarrow>
          if mode_for (contract_capabilities contract) Usage_Reporting = M_NONE
             \<and> provider_reported (Some x) then Inl ModelContractViolationError
          else if mode_for (contract_capabilities contract) Usage_Reporting = M_PROVIDER_REPORTED
             \<and> provider_reported (Some x)
             \<and> (u_raw_unit x \<in> {None, Some []} \<or> u_normalization_source x \<in> {None, Some []})
            then Inl ModelContractViolationError
          else if list_all (check_usage_field (usage_guarantees contract) x) USAGE_FIELDS
            then Inr r
          else Inl ModelContractViolationError)"

definition revalidated :: "model_response \<Rightarrow> exn + model_response" where
  "revalidated r =
     (case resp_usage r of
        None \<Rightarrow> Inr r
      | Some x \<Rightarrow> (case validate_usage x of
                     Inl _ \<Rightarrow> Inl ModelContractViolationError
                   | Inr y \<Rightarrow> Inr (r\<lparr>resp_usage := Some y\<rparr>)))"

definition structured_content_ok ::
  "(pystr \<Rightarrow> json option) \<Rightarrow> model_request \<Rightarrow> model_response \<Rightarrow> bool" where
  "structured_content_ok loads_strict request r \<longleftrightarrow>
     (resp_tool_calls r = []
      \<and> request_structured_output request \<in> {JSON_OBJECT, JSON_SCHEMA_STRICT} \<longrightarrow>
        (case loads_strict (case resp_content r of Some t \<Rightarrow> t | None \<Rightarrow> []) of
           Some (JObj _) \<Rightarrow> True | _ \<Rightarrow> False))"

definition normalize_model_response ::
  "(pystr \<Rightarrow> json option) \<Rightarrow> (pystr \<Rightarrow> json option) \<Rightarrow> model_contract \<Rightarrow> model_reply
     \<Rightarrow> model_request \<Rightarrow> bool \<Rightarrow> exn + model_response" where
  "normalize_model_response loads loads_strict contract reply request streams =
     (case reply of Reply None \<Rightarrow> Inl ModelContractViolationError | Reply (Some raw) \<Rightarrow>
     bindE (revalidated raw) (\<lambda>r.
     if resp_tool_calls r \<noteq> []
        \<and> mode_for (contract_capabilities contract) Tool_Calling = M_NONE
       then Inl ModelContractViolationError
     else bindE (check_tool_calls loads (set (map spec_name (request_tools request))) {}
                   (resp_tool_calls r)) (\<lambda>_.
     if \<not> supports (contract_capabilities contract)
           (exchange_modes streams (resp_tool_calls r \<noteq> []) (request_structured_output request)
              (if provider_reported (resp_usage r) then USAGE_PROVIDER_REPORTED
               else request_usage_reporting request))
       then Inl ModelContractViolationError
     else if \<not> structured_content_ok loads_strict request r then Inl ModelContractViolationError
     else normalize_usage contract r)))"

section \<open>What a normalised response guarantees\<close>

lemma usage_field_cases: "f \<in> set USAGE_FIELDS"
  by (cases f) (simp_all add: USAGE_FIELDS_def)

lemma all_USAGE_FIELDS [simp]: "list_all P USAGE_FIELDS \<longleftrightarrow> (\<forall>f. P f)"
  by (auto simp: list_all_iff usage_field_cases)

lemma ex_USAGE_FIELDS [simp]: "list_ex P USAGE_FIELDS \<longleftrightarrow> (\<exists>f. P f)"
  by (auto simp: list_ex_iff usage_field_cases)

lemma field_provenance_Inr:
  "field_provenance summary count source = Inr p \<longleftrightarrow>
     (\<forall>n \<in> set_option count. 0 \<le> n)
     \<and> (if count = None then source \<in> {None, Some UNAVAILABLE} \<and> p = UNAVAILABLE
        else source \<noteq> Some UNAVAILABLE \<and> p = (case source of Some q \<Rightarrow> q | None \<Rightarrow> summary))"
  by (auto simp: field_provenance_def not_less split: option.splits)

lemma validate_usage_values: "validate_usage x = Inr y \<Longrightarrow> usage_value y f = usage_value x f"
  by (cases f) (auto simp: validate_usage_def bindE_eq_Inr)

lemma validate_usage_sources:
  "validate_usage x = Inr y \<Longrightarrow> field_provenance (u_provenance x) (usage_value x f) (usage_source x f)
     = Inr (the (usage_source y f)) \<and> usage_source y f \<noteq> None"
  by (cases f) (auto simp: validate_usage_def bindE_eq_Inr)

lemma usage_eqI:
  fixes x y :: model_usage
  assumes "\<And>f. usage_value x f = usage_value y f" and "\<And>f. usage_source x f = usage_source y f"
    and "u_raw_unit x = u_raw_unit y" "u_normalization_source x = u_normalization_source y"
    and "u_provenance x = u_provenance y"
  shows "x = y"
  using assms(1) [of U_Input] assms(1) [of U_Output] assms(1) [of U_Cached_Input]
    assms(1) [of U_Reasoning] assms(2) [of U_Input] assms(2) [of U_Output]
    assms(2) [of U_Cached_Input] assms(2) [of U_Reasoning] assms(3-5)
  by (cases x; cases y) simp

lemma validate_usage_fixed:
  assumes "\<And>f. \<exists>p. usage_source y f = Some p \<and> field_provenance (u_provenance y) (usage_value y f) (Some p) = Inr p"
    and "(\<forall>f. usage_value y f = None) \<Longrightarrow> u_provenance y = UNAVAILABLE"
  shows "validate_usage y = Inr y"
proof -
  note f = assms(1) [of U_Input] assms(1) [of U_Output] assms(1) [of U_Cached_Input] assms(1) [of U_Reasoning]
  show ?thesis using f assms(2) by (auto simp: validate_usage_def)
qed

text \<open>Validation is idempotent except when a count inherits an UNAVAILABLE summary.\<close>

lemma revalidation_iff:
  assumes y: "validate_usage x = Inr y"
  shows "validate_usage y = Inr y \<longleftrightarrow>
     \<not> (\<exists>f. usage_value x f \<noteq> None \<and> usage_source x f = None \<and> u_provenance x = UNAVAILABLE)"
proof -
  have src: "usage_source y f = Some UNAVAILABLE \<longleftrightarrow> usage_value x f = None
      \<or> usage_value x f \<noteq> None \<and> usage_source x f = None \<and> u_provenance x = UNAVAILABLE" for f
    using validate_usage_sources [OF y, of f]
    by (auto simp: field_provenance_Inr split: if_splits option.splits)
  show ?thesis
  proof
    assume "validate_usage y = Inr y"
    then have "usage_value y f \<noteq> None \<Longrightarrow> usage_source y f \<noteq> Some UNAVAILABLE" for f
      using validate_usage_sources [of y y f] by (auto simp: field_provenance_Inr)
    then show "\<not> (\<exists>f. usage_value x f \<noteq> None \<and> usage_source x f = None \<and> u_provenance x = UNAVAILABLE)"
      using src validate_usage_values [OF y] by metis
  next
    assume ok: "\<not> (\<exists>f. usage_value x f \<noteq> None \<and> usage_source x f = None \<and> u_provenance x = UNAVAILABLE)"
    show "validate_usage y = Inr y"
    proof (rule validate_usage_fixed)
      fix f
      show "\<exists>p. usage_source y f = Some p
          \<and> field_provenance (u_provenance y) (usage_value y f) (Some p) = Inr p"
        using validate_usage_sources [OF y, of f] validate_usage_values [OF y, of f] src [of f] ok
        by (cases "usage_value x f") (fastforce simp: field_provenance_Inr split: if_splits)+
    next
      assume "\<forall>f. usage_value y f = None"
      then show "u_provenance y = UNAVAILABLE"
        using y validate_usage_values [OF y] by (auto simp: validate_usage_def bindE_eq_Inr)
    qed
  qed
qed

lemma check_tool_calls_ok:
  "check_tool_calls loads declared seen cs = Inr () \<Longrightarrow>
     distinct (map call_id cs) \<and> set (map call_id cs) \<inter> seen = {}
     \<and> (\<forall>c \<in> set cs. call_tool_name c \<in> declared \<and> \<not> blank_ident (call_id c)
          \<and> (\<exists>kvs. loads (arguments c) = Some (JObj kvs)))"
  by (induction cs arbitrary: seen) (auto split: if_splits option.splits json.splits)

lemma normalize_usage_ok:
  assumes "normalize_usage contract r = Inr r'"
  shows "\<exists>x. resp_usage r' = Some x
     \<and> (\<forall>f. guarantee_of (usage_guarantees contract) f = REQUIRED \<longrightarrow>
           usage_value x f \<noteq> None \<and> usage_source x f = Some PROVIDER_REPORTED)
     \<and> (\<forall>f. guarantee_of (usage_guarantees contract) f = UNSUPPORTED \<longrightarrow> usage_value x f = None)
     \<and> r' = r\<lparr>resp_usage := Some x\<rparr>"
proof (cases "resp_usage r")
  case None
  have "usage_value unavailable_usage f = None" for f by (cases f) (simp_all add: unavailable_usage_def)
  then show ?thesis using None assms by (auto simp: normalize_usage_def split: if_splits)
next
  case (Some x)
  then show ?thesis using assms
    by (auto simp: normalize_usage_def check_usage_field_def split: if_splits)
qed

lemma revalidated_fields:
  "revalidated raw = Inr r \<Longrightarrow> resp_content r = resp_content raw \<and> resp_tool_calls r = resp_tool_calls raw"
  by (auto simp: revalidated_def split: option.splits sum.splits)

lemma normalizedE:
  assumes "normalize_model_response loads loads_strict contract reply request streams = Inr r'"
  obtains raw r where "reply = Reply (Some raw)" and "revalidated raw = Inr r"
    and "check_tool_calls loads (set (map spec_name (request_tools request))) {} (resp_tool_calls r) = Inr ()"
    and "structured_content_ok loads_strict request r" and "normalize_usage contract r = Inr r'"
  using assms unfolding normalize_model_response_def
  by (auto simp: bindE_eq_Inr split: model_reply.splits option.splits if_splits)

end
