(* ===== verification/Run_Status.thy ===== *)
theory Run_Status
  imports Prelude
begin

text \<open>
  The life-cycle state machine of an Agent Run, \<open>src/src/m_agent/_status.py\<close>: the
  status vocabulary, the terminal set, the table of legal transitions and the check
  every entry point shares.
\<close>

datatype run_status =
    CREATED | RUNNING | WAITING | SUCCEEDED | REJECTED | FAILED | CANCELLED

definition TERMINAL_STATUSES :: "run_status list" where
  "TERMINAL_STATUSES = [SUCCEEDED, REJECTED, FAILED, CANCELLED]"

text \<open>The property \<open>RunStatus.is_terminal\<close> and the module function \<open>is_terminal\<close>.\<close>

definition is_terminal :: "run_status \<Rightarrow> bool" where
  "is_terminal s \<longleftrightarrow> s \<in> set TERMINAL_STATUSES"

fun ALLOWED_TRANSITIONS :: "run_status \<Rightarrow> run_status list" where
  "ALLOWED_TRANSITIONS CREATED = [RUNNING, WAITING, REJECTED, FAILED, CANCELLED]"
| "ALLOWED_TRANSITIONS RUNNING = [SUCCEEDED, REJECTED, FAILED, WAITING, CANCELLED]"
| "ALLOWED_TRANSITIONS WAITING = [RUNNING, FAILED, CANCELLED]"
| "ALLOWED_TRANSITIONS SUCCEEDED = []"
| "ALLOWED_TRANSITIONS REJECTED = []"
| "ALLOWED_TRANSITIONS FAILED = []"
| "ALLOWED_TRANSITIONS CANCELLED = []"

definition validate_transition :: "run_status \<Rightarrow> run_status \<Rightarrow> exn + unit" where
  "validate_transition current target =
     (if target \<notin> set (ALLOWED_TRANSITIONS current) then Inl IllegalRunTransitionError
      else Inr ())"

text \<open>The same table as a step relation, for reasoning about histories of a Run.\<close>

inductive status_step :: "run_status \<Rightarrow> run_status \<Rightarrow> bool" where
  status_step: "validate_transition s t = Inr () \<Longrightarrow> status_step s t"

inductive_simps status_step_simps: "status_step s t"

lemma is_terminal_simps [simp]:
  "\<not> is_terminal CREATED" "\<not> is_terminal RUNNING" "\<not> is_terminal WAITING"
  "is_terminal SUCCEEDED" "is_terminal REJECTED" "is_terminal FAILED" "is_terminal CANCELLED"
  by (simp_all add: is_terminal_def TERMINAL_STATUSES_def)

lemma validate_transition_ok [simp]:
  "validate_transition s t = Inr () \<longleftrightarrow> t \<in> set (ALLOWED_TRANSITIONS s)"
  by (simp add: validate_transition_def)

lemma validate_transition_error [simp]:
  "validate_transition s t = Inl e \<longleftrightarrow>
     e = IllegalRunTransitionError \<and> t \<notin> set (ALLOWED_TRANSITIONS s)"
  by (auto simp: validate_transition_def)

lemma terminal_iff_no_successor: "is_terminal s \<longleftrightarrow> ALLOWED_TRANSITIONS s = []"
  by (cases s) auto

lemma no_step_from_terminal: "is_terminal s \<Longrightarrow> \<not> status_step s t"
  by (simp add: status_step_simps terminal_iff_no_successor)

lemma no_self_transition: "s \<notin> set (ALLOWED_TRANSITIONS s)"
  by (cases s) auto

lemma never_back_to_created: "CREATED \<notin> set (ALLOWED_TRANSITIONS s)"
  by (cases s) auto

text \<open>A history of a Run: the statuses it goes through, each step legal.\<close>

fun legal_history :: "run_status \<Rightarrow> run_status list \<Rightarrow> bool" where
  "legal_history s [] = True"
| "legal_history s (t # ts) = (status_step s t \<and> legal_history t ts)"

lemma legal_history_append:
  "legal_history s (xs @ ys) \<longleftrightarrow> legal_history s xs \<and> legal_history (last (s # xs)) ys"
  by (induction xs arbitrary: s) auto

lemma terminal_history: "is_terminal s \<Longrightarrow> legal_history s ts \<Longrightarrow> ts = []"
  by (cases ts) (auto simp: no_step_from_terminal)

lemma terminal_only_last:
  "legal_history s (xs @ t # ys) \<Longrightarrow> is_terminal t \<Longrightarrow> ys = []"
  by (auto simp: legal_history_append dest: terminal_history)

lemma success_only_from_running: "status_step s SUCCEEDED \<longleftrightarrow> s = RUNNING"
  by (cases s) (auto simp: status_step_simps)

end
