(* ===== verification/Failure.thy ===== *)
theory Failure
  imports Prelude
begin

text \<open>
  Structured Step failures, \<open>src/src/m_agent/_failure.py\<close> and the classification enum
  of \<open>src/src/m_agent/_steps.py\<close>: what the runtime keeps of an exception that a Model or
  Tool adapter raised. Adapter text never reaches the record: the code is taken from a
  fixed allow list or collapsed, the message is replaced by a constant.
\<close>

datatype failure_classification = TRANSIENT | PERMANENT | UNCERTAIN

definition DEFAULT_FAILURE_CODE :: string where
  "DEFAULT_FAILURE_CODE = ''UNCLASSIFIED_FAILURE''"

definition UNSAFE_ERROR_CODE :: string where
  "UNSAFE_ERROR_CODE = ''unsafe_error_code''"

definition REDACTED_FAILURE_MESSAGE :: string where
  "REDACTED_FAILURE_MESSAGE = ''adapter failure diagnostic redacted''"

definition SAFE_ERROR_CODES :: "string list" where
  "SAFE_ERROR_CODES =
     [DEFAULT_FAILURE_CODE,
      ''FROZEN_TOOL_DECLARATION_UNAVAILABLE'',
      ''COMPRESSION_CONTRACT_VIOLATION'',
      ''MODEL_CAPABILITY_UNSUPPORTED'',
      ''MODEL_CONTRACT_VIOLATION'',
      ''MODEL_DISPATCH_CANCELLED'',
      ''POLICY_ERROR'',
      ''POLICY_OUTCOME_PENDING'',
      ''effect_unconfirmed'',
      ''invalid_request'',
      ''lookup_broken'',
      ''lookup_rejected'',
      ''model_rejected'',
      ''model_checkpoint_unconfirmed'',
      ''provider_credentials_missing'',
      ''provider_request_failed'',
      ''provider_response_invalid'',
      ''provider_test_error'',
      ''provider_transport_error'',
      ''provider_unavailable'',
      ''rate_limited'',
      ''upstream_down'',
      ''upstream_unavailable'']"

definition sanitize_error_code :: "string \<Rightarrow> string" where
  "sanitize_error_code code = (if code \<in> set SAFE_ERROR_CODES then code else UNSAFE_ERROR_CODE)"

definition redact_failure_message :: "string \<Rightarrow> string" where
  "redact_failure_message message = REDACTED_FAILURE_MESSAGE"

text \<open>
  What an adapter can raise: a \<open>StepFailure\<close> (\<open>ModelFailure\<close>, \<open>ToolFailure\<close>), which
  carries its classification, code and message, or any other exception, of which the
  runtime reads the type name only; \<open>Bare n s\<close> has type name \<open>n\<close> and text \<open>s\<close>.
\<close>

datatype adapter_exn =
    StepFailure failure_classification string string
  | Bare string string

fun classify_exception :: "adapter_exn \<Rightarrow> failure_classification \<times> string \<times> string" where
  "classify_exception (StepFailure cls code message) =
     (cls, sanitize_error_code code, redact_failure_message message)"
| "classify_exception (Bare type_name text) =
     (PERMANENT, DEFAULT_FAILURE_CODE,
      ''unclassified adapter exception: '' @ type_name)"

text \<open>
  What unwinds through the Runner: an exception of the library or a built-in one, or one that
  an adapter raised. An adapter may raise library exceptions too. Of a library exception
  \<open>classify_exception\<close> sees an unclassified one. \<open>Unfinished\<close> is no exception of the program:
  it marks an execution that was followed for a bounded number of rounds only.
\<close>

datatype fault = Exn exn | Foreign adapter_exn | Unfinished

fun exn_name :: "exn \<Rightarrow> string" where
  "exn_name ModelCapabilityError = ''ModelCapabilityError''"
| "exn_name ModelContractViolationError = ''ModelContractViolationError''"
| "exn_name CompressionContractViolationError = ''CompressionContractViolationError''"
| "exn_name DefinitionConflictError = ''DefinitionConflictError''"
| "exn_name DefinitionNotFoundError = ''DefinitionNotFoundError''"
| "exn_name RunNotFoundError = ''RunNotFoundError''"
| "exn_name DuplicateRunError = ''DuplicateRunError''"
| "exn_name RunStoreIntegrityError = ''RunStoreIntegrityError''"
| "exn_name IllegalRunTransitionError = ''IllegalRunTransitionError''"
| "exn_name StaleRunVersionError = ''StaleRunVersionError''"
| "exn_name LeaseNotHeldError = ''LeaseNotHeldError''"
| "exn_name ContextBudgetExceededError = ''ContextBudgetExceededError''"
| "exn_name ResolutionNotAllowedError = ''ResolutionNotAllowedError''"
| "exn_name SessionNotFoundError = ''SessionNotFoundError''"
| "exn_name DuplicateSessionError = ''DuplicateSessionError''"
| "exn_name SessionClaimConflictError = ''SessionClaimConflictError''"
| "exn_name SessionVersionConflictError = ''SessionVersionConflictError''"
| "exn_name RoutingError = ''RoutingError''"
| "exn_name RoutingBindingError = ''RoutingBindingError''"
| "exn_name RoutingReplacementError = ''RoutingReplacementError''"
| "exn_name RoutingStoreError = ''RoutingStoreError''"
| "exn_name RoutingDecisionConflictError = ''RoutingDecisionConflictError''"
| "exn_name PublicationError = ''PublicationError''"
| "exn_name ValueError = ''ValueError''"
| "exn_name TypeError = ''TypeError''"
| "exn_name RuntimeError = ''RuntimeError''"
| "exn_name IndexError = ''IndexError''"
| "exn_name AssertionError = ''AssertionError''"
| "exn_name AttributeError = ''AttributeError''"
| "exn_name UnicodeEncodeError = ''UnicodeEncodeError''"
| "exn_name UnicodeDecodeError = ''UnicodeDecodeError''"
| "exn_name StepFailureError = ''StepFailure''"
| "exn_name KeyError = ''KeyError''"
| "exn_name IntegrityError = ''IntegrityError''"
| "exn_name OperationalError = ''OperationalError''"
| "exn_name OverflowError = ''OverflowError''"
| "exn_name RecursionError = ''RecursionError''"
| "exn_name EvalError = ''EvalError''"
| "exn_name EvalSuiteError = ''EvalSuiteError''"
| "exn_name EvalFixtureBoundaryError = ''EvalFixtureBoundaryError''"
| "exn_name EvidenceIntegrityError = ''EvidenceIntegrityError''"
| "exn_name EvalRecordConflictError = ''EvalRecordConflictError''"

fun classify_fault :: "fault \<Rightarrow> failure_classification \<times> string \<times> string" where
  "classify_fault (Exn e) = classify_exception (Bare (exn_name e) [])"
| "classify_fault (Foreign a) = classify_exception a"
| "classify_fault Unfinished = classify_exception (Bare [] [])"

text \<open>Every code that can be recorded is one of finitely many fixed strings.\<close>

definition recordable_code :: "string \<Rightarrow> bool" where
  "recordable_code c \<longleftrightarrow> c \<in> set (UNSAFE_ERROR_CODE # SAFE_ERROR_CODES)"

lemma recordable_sanitize [simp]: "recordable_code (sanitize_error_code c)"
  by (simp add: recordable_code_def sanitize_error_code_def)

lemma sanitize_idem [simp]: "sanitize_error_code (sanitize_error_code c) = sanitize_error_code c"
  by (simp add: sanitize_error_code_def SAFE_ERROR_CODES_def UNSAFE_ERROR_CODE_def
      DEFAULT_FAILURE_CODE_def)

lemma sanitize_safe: "c \<in> set SAFE_ERROR_CODES \<Longrightarrow> sanitize_error_code c = c"
  by (simp add: sanitize_error_code_def)

lemma default_code_safe [simp]: "sanitize_error_code DEFAULT_FAILURE_CODE = DEFAULT_FAILURE_CODE"
  by (rule sanitize_safe) (simp add: SAFE_ERROR_CODES_def)

lemma recordable_default [simp]: "recordable_code DEFAULT_FAILURE_CODE"
  by (simp add: recordable_code_def SAFE_ERROR_CODES_def)

lemma classify_code_recordable:
  "classify_exception e = (cls, code, msg) \<Longrightarrow> recordable_code code"
  by (cases e) auto

text \<open>
  Non-interference of adapter text: two exceptions that agree on what the runtime may
  read (kind, classification, allow-listed code, type name) are recorded identically,
  whatever their messages and whatever unlisted codes they carry.
\<close>

fun visible_part :: "adapter_exn \<Rightarrow> failure_classification option \<times> string" where
  "visible_part (StepFailure cls code message) = (Some cls, sanitize_error_code code)"
| "visible_part (Bare type_name text) = (None, type_name)"

lemma classify_noninterference:
  "visible_part e1 = visible_part e2 \<Longrightarrow> classify_exception e1 = classify_exception e2"
  by (cases e1; cases e2) (auto simp: redact_failure_message_def)

lemma classify_bare_permanent: "fst (classify_exception (Bare n t)) = PERMANENT"
  by simp

end
