(* ===== verification/Run_Policy.thy ===== *)
theory Run_Policy
  imports Json
begin

text \<open>
  Deterministic Run Policies, \<open>src/src/m_agent/_policy.py\<close>. The payload a gate sees is
  JSON data; the SHA-256 digests of payloads and of policy configurations are parameters
  where they are used.
\<close>

datatype policy_gate =
  GATE_INPUT | GATE_CONTEXT | GATE_TOOL_REQUEST | GATE_TOOL_OUTCOME | GATE_FINAL_OUTPUT

fun gate_value :: "policy_gate \<Rightarrow> string" where
  "gate_value GATE_INPUT = ''INPUT''"
| "gate_value GATE_CONTEXT = ''CONTEXT''"
| "gate_value GATE_TOOL_REQUEST = ''TOOL_REQUEST''"
| "gate_value GATE_TOOL_OUTCOME = ''TOOL_OUTCOME''"
| "gate_value GATE_FINAL_OUTPUT = ''FINAL_OUTPUT''"

datatype policy_action = ALLOW | REJECT | REQUIRE_RESOLUTION

record policy_identity =
  policy_id :: ident
  policy_version :: ident
  policy_fingerprint :: ident

definition validate_policy_identity :: "policy_identity \<Rightarrow> exn + policy_identity" where
  "validate_policy_identity i =
     (if policy_id i = [] \<or> policy_version i = [] \<or> policy_fingerprint i = []
      then Inl ValueError else Inr i)"

record policy_decision =
  decision_action :: policy_action
  decision_reason_code :: ident

definition is_upper :: "char \<Rightarrow> bool" where
  "is_upper c \<longleftrightarrow> (65 :: nat) \<le> of_char c \<and> of_char c \<le> (90 :: nat)"

definition is_digit :: "char \<Rightarrow> bool" where
  "is_digit c \<longleftrightarrow> (48 :: nat) \<le> of_char c \<and> of_char c \<le> (57 :: nat)"

text \<open>\<open>_REASON_CODE.fullmatch\<close> for \<open>[A-Z][A-Z0-9_]{0,127}\<close> and an end anchor.\<close>

fun is_reason_code :: "string \<Rightarrow> bool" where
  "is_reason_code [] = False"
| "is_reason_code (c # cs) \<longleftrightarrow>
     is_upper c \<and> length cs \<le> 127
     \<and> list_all (\<lambda>d. is_upper d \<or> is_digit d \<or> d = CHR ''_'') cs"

definition validate_decision :: "policy_decision \<Rightarrow> exn + policy_decision" where
  "validate_decision d = (if is_reason_code (decision_reason_code d) then Inr d else Inl ValueError)"

record policy_request =
  request_gate :: policy_gate
  request_run_id :: ident
  request_payload :: "(pystr \<times> json) list"

record policy_decision_record =
  pdr_run_id :: ident
  pdr_gate :: policy_gate
  pdr_action :: policy_action
  pdr_reason_code :: ident
  pdr_policy_id :: ident
  pdr_policy_version :: ident
  pdr_policy_fingerprint :: ident
  pdr_input_summary :: string
  pdr_created_at :: timestamp

text \<open>
  A policy is its identity and its evaluation, which may raise. \<open>AllowAllRunPolicy\<close> and
  \<open>StaticRunPolicy\<close> are the two implementations of the module; the digest over the
  static policy's configuration is the parameter \<open>digest\<close>.
\<close>

record run_policy =
  identity :: policy_identity
  evaluate :: "policy_request \<Rightarrow> exn + policy_decision"

definition allow_decision :: policy_decision where
  "allow_decision = \<lparr>decision_action = ALLOW, decision_reason_code = ''ALLOWED''\<rparr>"

definition AllowAllRunPolicy :: run_policy where
  "AllowAllRunPolicy =
     \<lparr>identity = \<lparr>policy_id = ''m-agent.allow-all'', policy_version = ''1'',
                  policy_fingerprint = ''allow-all-v1''\<rparr>,
      evaluate = (\<lambda>request. validate_decision allow_decision)\<rparr>"

definition static_evaluate ::
  "(policy_gate \<times> policy_decision) list \<Rightarrow> policy_request \<Rightarrow> exn + policy_decision" where
  "static_evaluate decisions request =
     bindE (validate_decision allow_decision) (\<lambda>default.
       Inr (case map_of decisions (request_gate request) of
              Some d \<Rightarrow> d | None \<Rightarrow> default))"

definition StaticRunPolicy ::
  "(ident \<Rightarrow> ident \<Rightarrow> (policy_gate \<times> policy_decision) list \<Rightarrow> ident) \<Rightarrow> ident \<Rightarrow> ident
     \<Rightarrow> (policy_gate \<times> policy_decision) list \<Rightarrow> exn + run_policy" where
  "StaticRunPolicy digest pid version decisions =
     bindE (validate_policy_identity \<lparr>policy_id = pid, policy_version = version,
              policy_fingerprint = digest pid version
                (sort_key (\<lambda>p. gate_value (fst p)) decisions)\<rparr>) (\<lambda>i.
       Inr \<lparr>identity = i, evaluate = static_evaluate decisions\<rparr>)"

lemma allow_decision_valid [simp]: "validate_decision allow_decision = Inr allow_decision"
  by (simp add: validate_decision_def allow_decision_def is_upper_def is_digit_def)

lemma allow_all_evaluates [simp]: "evaluate AllowAllRunPolicy req = Inr allow_decision"
  by (simp add: AllowAllRunPolicy_def)

lemma static_evaluates:
  "static_evaluate ds req =
     Inr (case map_of ds (request_gate req) of Some d \<Rightarrow> d | None \<Rightarrow> allow_decision)"
  by (simp add: static_evaluate_def)

text \<open>The decision of a static policy depends on the gate only.\<close>

lemma static_payload_independent:
  "request_gate r1 = request_gate r2 \<Longrightarrow> static_evaluate ds r1 = static_evaluate ds r2"
  by (simp add: static_evaluates)

end
