(* ===== verification/Output_Contract.thy ===== *)
theory Output_Contract
  imports Json Model_Contract
begin

text \<open>
  The versioned Output Contract, \<open>src/src/m_agent/_output.py\<close>: canonicalisation of the
  schema, the fallback validator and the validation of an answer against the schema
  subset. \<open>json.loads\<close> on the answer text is the parameter \<open>loads\<close> (\<open>None\<close> when it
  raises). The error strings of the code are \<open>output_error\<close> values, with the JSON path
  as a list of steps instead of its rendering \<open>$.key[index]\<close>.
\<close>

datatype output_fallback = FALLBACK_NONE | FALLBACK_REPAIR

record output_repair_policy =
  repair_max_attempts :: int

record output_contract =
  oc_contract_id :: ident
  oc_version :: ident
  oc_schema :: "(pystr \<times> json) list"
  oc_structured_output :: structured_output_mode
  oc_fallback :: output_fallback
  oc_repair :: "output_repair_policy option"

datatype path_step = Key pystr | Index nat
type_synonym path = "path_step list"

datatype output_error =
    OUTPUT_NOT_VALID_JSON
  | OUTPUT_SCHEMA_TYPE path
  | OUTPUT_SCHEMA_ENUM path
  | OUTPUT_SCHEMA_INVALID
  | OUTPUT_SCHEMA_REQUIRED path json
  | OUTPUT_SCHEMA_ADDITIONAL path pystr

section \<open>Canonical schema\<close>

text \<open>\<open>json.loads(json.dumps(value, sort_keys=True, allow_nan=False))\<close> on a JSON value.\<close>

fun finite_json :: "json \<Rightarrow> bool" where
  "finite_json (JFloat f) = (case f of Fin _ \<Rightarrow> True | _ \<Rightarrow> False)"
| "finite_json (JArr vs) = list_all finite_json vs"
| "finite_json (JObj kvs) = list_all (\<lambda>(k, v). finite_json v) kvs"
| "finite_json _ = True"

fun sort_keys :: "json \<Rightarrow> json" where
  "sort_keys (JArr vs) = JArr (map sort_keys vs)"
| "sort_keys (JObj kvs) = JObj (sort_key fst (map (\<lambda>(k, v). (k, sort_keys v)) kvs))"
| "sort_keys v = v"

definition canonical_frozen_schema :: "(pystr \<times> json) list \<Rightarrow> exn + (pystr \<times> json) list" where
  "canonical_frozen_schema kvs =
     (if \<not> finite_json (JObj kvs) then Inl ValueError
      else case sort_keys (JObj kvs) of JObj c \<Rightarrow> Inr c | _ \<Rightarrow> Inl ValueError)"

definition validate_fallback :: "output_contract \<Rightarrow> exn + output_contract" where
  "validate_fallback c =
     (if oc_fallback c = FALLBACK_REPAIR \<and> oc_repair c = None then Inl ValueError
      else if oc_fallback c = FALLBACK_NONE \<and> oc_repair c \<noteq> None then Inl ValueError
      else bindE (canonical_frozen_schema (oc_schema c)) (\<lambda>s. Inr (c\<lparr>oc_schema := s\<rparr>)))"

section \<open>Schema validation\<close>

fun hashable :: "json \<Rightarrow> bool" where
  "hashable (JArr _) = False"
| "hashable (JObj _) = False"
| "hashable _ = True"

fun is_object :: "json \<Rightarrow> bool" where "is_object (JObj _) = True" | "is_object _ = False"
fun is_array :: "json \<Rightarrow> bool" where "is_array (JArr _) = True" | "is_array _ = False"
fun is_string :: "json \<Rightarrow> bool" where "is_string (JStr _) = True" | "is_string _ = False"
fun is_integer :: "json \<Rightarrow> bool" where "is_integer (JInt _) = True" | "is_integer _ = False"
fun is_number :: "json \<Rightarrow> bool" where
  "is_number (JInt _) = True" | "is_number (JFloat _) = True" | "is_number _ = False"
fun is_boolean :: "json \<Rightarrow> bool" where "is_boolean (JBool _) = True" | "is_boolean _ = False"

text \<open>The table \<open>type_ok\<close>: the test behind each type name, \<open>None\<close> for an unknown name.\<close>

definition type_ok :: "pystr \<Rightarrow> (json \<Rightarrow> bool) option" where
  "type_ok = map_of
     [(ustr ''object'', is_object), (ustr ''array'', is_array), (ustr ''string'', is_string),
      (ustr ''integer'', is_integer), (ustr ''number'', is_number), (ustr ''boolean'', is_boolean),
      (ustr ''null'', (\<lambda>v. v = JNull))]"

text \<open>\<open>expected is not None and (expected not in type_ok or not type_ok[expected]())\<close>.\<close>

definition type_error :: "(pystr \<times> json) list \<Rightarrow> json \<Rightarrow> exn + bool" where
  "type_error schema v =
     (case json_get schema ''type'' of
        None \<Rightarrow> Inr False
      | Some JNull \<Rightarrow> Inr False
      | Some (JStr t) \<Rightarrow> (case type_ok t of None \<Rightarrow> Inr True | Some test \<Rightarrow> Inr (\<not> test v))
      | Some t \<Rightarrow> if hashable t then Inr True else Inl TypeError)"

fun is_substring :: "'a list \<Rightarrow> 'a list \<Rightarrow> bool" where
  "is_substring xs [] \<longleftrightarrow> xs = []"
| "is_substring xs (y # ys) \<longleftrightarrow> take (length xs) (y # ys) = xs \<or> is_substring xs ys"

text \<open>\<open>value in container\<close> for any JSON container.\<close>

definition py_in :: "json \<Rightarrow> json \<Rightarrow> exn + bool" where
  "py_in v container =
     (case container of
        JArr xs \<Rightarrow> Inr (list_ex (\<lambda>x. py_eq v x) xs)
      | JObj kvs \<Rightarrow> (if \<not> hashable v then Inl TypeError
                    else Inr (case v of JStr s \<Rightarrow> s \<in> set (map fst kvs) | _ \<Rightarrow> False))
      | JStr s \<Rightarrow> (case v of JStr t \<Rightarrow> Inr (is_substring t s) | _ \<Rightarrow> Inl TypeError)
      | _ \<Rightarrow> Inl TypeError)"

text \<open>A loop that returns at the first error; an exception ends it as well.\<close>

fun first_err :: "('a \<Rightarrow> 'e + 'b option) \<Rightarrow> 'a list \<Rightarrow> 'e + 'b option" where
  "first_err f [] = Inr None"
| "first_err f (x # xs) =
     bindE (f x) (\<lambda>r. case r of None \<Rightarrow> first_err f xs | Some e \<Rightarrow> Inr (Some e))"

lemma first_err_cong [fundef_cong]:
  "xs = ys \<Longrightarrow> (\<And>x. x \<in> set ys \<Longrightarrow> f x = g x) \<Longrightarrow> first_err f xs = first_err g ys"
  by (induction ys arbitrary: xs) (auto simp: bindE_def split: sum.splits option.splits)

lemma first_err_none:
  "first_err f xs = Inr None \<longleftrightarrow> (\<forall>x \<in> set xs. f x = Inr None)"
  by (induction xs) (auto simp: bindE_eq_Inr split: option.splits)

lemma first_err_total:
  "(\<And>x. x \<in> set xs \<Longrightarrow> \<exists>r. f x = Inr r) \<Longrightarrow> \<exists>r. first_err f xs = Inr r"
  by (induction xs) (fastforce split: option.splits)+

definition or_else :: "'e + 'b option \<Rightarrow> 'e + 'b option \<Rightarrow> 'e + 'b option" where
  "or_else a b = bindE a (\<lambda>r. case r of None \<Rightarrow> b | Some e \<Rightarrow> Inr (Some e))"

lemma or_else_none: "or_else a b = Inr None \<longleftrightarrow> a = Inr None \<and> b = Inr None"
  by (auto simp: or_else_def bindE_eq_Inr split: option.splits)

lemma or_else_total:
  "\<exists>r. a = Inr r \<Longrightarrow> \<exists>r. b = Inr r \<Longrightarrow> \<exists>r. or_else a b = Inr r"
  by (auto simp: or_else_def split: option.splits)

definition required_errors ::
  "(pystr \<times> json) list \<Rightarrow> (pystr \<times> json) list \<Rightarrow> path \<Rightarrow> exn + output_error option" where
  "required_errors schema obj p =
     (case json_get schema ''required'' of
        None \<Rightarrow> Inr None
      | Some (JArr ks) \<Rightarrow>
          first_err (\<lambda>k. if \<not> hashable k then Inl TypeError
                         else if (case k of JStr s \<Rightarrow> s \<in> set (map fst obj) | _ \<Rightarrow> False)
                         then Inr None else Inr (Some (OUTPUT_SCHEMA_REQUIRED p k))) ks
      | Some _ \<Rightarrow> Inr (Some OUTPUT_SCHEMA_INVALID))"

definition schema_properties :: "(pystr \<times> json) list \<Rightarrow> (pystr \<times> json) list option" where
  "schema_properties schema =
     (case json_get schema ''properties'' of
        None \<Rightarrow> Some [] | Some (JObj ps) \<Rightarrow> Some ps | Some _ \<Rightarrow> None)"

definition additional_errors ::
  "(pystr \<times> json) list \<Rightarrow> (pystr \<times> json) list \<Rightarrow> (pystr \<times> json) list \<Rightarrow> path
     \<Rightarrow> output_error option" where
  "additional_errors schema ps obj p =
     (if json_get schema ''additionalProperties'' = Some (JBool False) then
        (case sort (filter (\<lambda>k. k \<notin> set (map fst ps)) (map fst obj)) of
           [] \<Rightarrow> None | k # _ \<Rightarrow> Some (OUTPUT_SCHEMA_ADDITIONAL p k))
      else None)"

function validate_schema ::
  "(pystr \<times> json) list \<Rightarrow> json \<Rightarrow> path \<Rightarrow> exn + output_error option" where
  "validate_schema schema v p =
     bindE (type_error schema v) (\<lambda>bad.
     if bad then Inr (Some (OUTPUT_SCHEMA_TYPE p)) else
     bindE (case json_get schema ''enum'' of
              None \<Rightarrow> Inr True | Some es \<Rightarrow> py_in v es) (\<lambda>found.
     if \<not> found then Inr (Some (OUTPUT_SCHEMA_ENUM p)) else
     (case v of
        JObj obj \<Rightarrow>
          or_else (required_errors schema obj p)
            (case schema_properties schema of
               None \<Rightarrow> Inr (Some OUTPUT_SCHEMA_INVALID)
             | Some ps \<Rightarrow>
                 or_else (Inr (additional_errors schema ps obj p))
                   (first_err (\<lambda>(k, child).
                      case map_of obj k of
                        None \<Rightarrow> Inr None
                      | Some w \<Rightarrow>
                          (case child of
                             JObj c \<Rightarrow> validate_schema c w (p @ [Key k])
                           | _ \<Rightarrow> Inr None)) ps))
      | JArr vs \<Rightarrow>
          (case json_get schema ''items'' of
             Some (JObj c) \<Rightarrow>
               first_err (\<lambda>(i, w). validate_schema c w (p @ [Index i])) (enumerate 0 vs)
           | _ \<Rightarrow> Inr None)
      | _ \<Rightarrow> Inr None)))"
  by pat_completeness auto

termination
  by (relation "measure (\<lambda>(s, v, p). size v)")
    (auto simp del: json.size simp: in_set_enumerate_eq intro!: size_map_of size_mem_arr dest: sym)

declare validate_schema.simps [simp del]

definition validate_output ::
  "(pystr \<Rightarrow> json option) \<Rightarrow> output_contract \<Rightarrow> pystr \<Rightarrow> exn + (bool \<times> output_error option)" where
  "validate_output loads contract output =
     (case loads output of
        None \<Rightarrow> Inr (False, Some OUTPUT_NOT_VALID_JSON)
      | Some v \<Rightarrow> bindE (validate_schema (oc_schema contract) v [])
                   (\<lambda>err. Inr (err = None, err)))"

section \<open>What the validator decides\<close>

text \<open>
  Schemas on which the validator cannot raise: the type is a name, \<open>enum\<close> and
  \<open>required\<close> are lists, the required keys are strings, and so on below.
\<close>

function wf_schema :: "(pystr \<times> json) list \<Rightarrow> bool" where
  "wf_schema s \<longleftrightarrow>
     (case json_get s ''type'' of
        None \<Rightarrow> True | Some t \<Rightarrow> t = JNull \<or> is_string t)
     \<and> (case json_get s ''enum'' of None \<Rightarrow> True | Some es \<Rightarrow> is_array es)
     \<and> (case json_get s ''required'' of
          None \<Rightarrow> True | Some (JArr ks) \<Rightarrow> list_all is_string ks | Some _ \<Rightarrow> False)
     \<and> (case json_get s ''properties'' of
          None \<Rightarrow> True
        | Some (JObj ps) \<Rightarrow>
            list_all (\<lambda>(k, c). case c of JObj c' \<Rightarrow> wf_schema c' | _ \<Rightarrow> True) ps
        | Some _ \<Rightarrow> False)
     \<and> (case json_get s ''items'' of Some (JObj c) \<Rightarrow> wf_schema c | _ \<Rightarrow> True)"
  by pat_completeness auto

lemma size_json_get: "json_get s k = Some v \<Longrightarrow> size v < size (JObj s)"
  unfolding json_get_def by (rule size_map_of)

lemma size_mem_obj: "(k, c) \<in> set ps \<Longrightarrow> size c < size (JObj ps)"
  by (induction ps) auto

termination wf_schema
  by (relation "measure (\<lambda>s. size (JObj s))")
    (auto simp del: json.size dest!: sym [of "Some _"] size_json_get size_mem_obj)

declare wf_schema.simps [simp del]

text \<open>
  The declarative reading of the schema subset, without the order in which the
  validator looks at the keywords and without error reporting.
\<close>

inductive conforms :: "(pystr \<times> json) list \<Rightarrow> json \<Rightarrow> bool" where
  conforms:
  "\<lbrakk> \<forall>t. json_get s ''type'' = Some (JStr t) \<longrightarrow> (\<exists>test. type_ok t = Some test \<and> test v);
     \<forall>es. json_get s ''enum'' = Some (JArr es) \<longrightarrow> (\<exists>e \<in> set es. py_eq v e);
     \<forall>obj ks k. v = JObj obj \<and> json_get s ''required'' = Some (JArr ks) \<and> JStr k \<in> set ks
        \<longrightarrow> k \<in> fst ` set obj;
     \<forall>obj ps. v = JObj obj \<and> json_get s ''additionalProperties'' = Some (JBool False)
        \<and> schema_properties s = Some ps \<longrightarrow> fst ` set obj \<subseteq> fst ` set ps;
     \<forall>obj ps k c w. v = JObj obj \<and> schema_properties s = Some ps \<and> (k, JObj c) \<in> set ps
        \<and> map_of obj k = Some w \<longrightarrow> conforms c w;
     \<forall>vs c w. v = JArr vs \<and> json_get s ''items'' = Some (JObj c) \<and> w \<in> set vs
        \<longrightarrow> conforms c w \<rbrakk> \<Longrightarrow> conforms s v"

inductive_simps conforms_simps: "conforms s v"

lemma type_error_wf:
  assumes "wf_schema s"
  shows "\<exists>b. type_error s v = Inr b"
    and "type_error s v = Inr False \<longleftrightarrow>
       (\<forall>t. json_get s ''type'' = Some (JStr t) \<longrightarrow> (\<exists>test. type_ok t = Some test \<and> test v))"
proof -
  have "json_get s ''type'' \<in> {None, Some JNull} \<or> (\<exists>t. json_get s ''type'' = Some (JStr t))"
    using assms by (subst (asm) wf_schema.simps) (auto split: option.splits elim: is_string.elims)
  then show "\<exists>b. type_error s v = Inr b"
    and "type_error s v = Inr False \<longleftrightarrow>
       (\<forall>t. json_get s ''type'' = Some (JStr t) \<longrightarrow> (\<exists>test. type_ok t = Some test \<and> test v))"
    by (auto simp: type_error_def split: option.splits)
qed

lemma enum_wf:
  assumes "wf_schema s"
  shows "\<exists>b. (case json_get s ''enum'' of None \<Rightarrow> Inr True | Some es \<Rightarrow> py_in v es) = Inr b"
    and "(case json_get s ''enum'' of None \<Rightarrow> Inr True | Some es \<Rightarrow> py_in v es) = Inr True \<longleftrightarrow>
       (\<forall>es. json_get s ''enum'' = Some (JArr es) \<longrightarrow> (\<exists>e \<in> set es. py_eq v e))"
proof -
  have "json_get s ''enum'' = None \<or> (\<exists>es. json_get s ''enum'' = Some (JArr es))"
    using assms by (subst (asm) wf_schema.simps) (auto split: option.splits elim: is_array.elims)
  then show "\<exists>b. (case json_get s ''enum'' of None \<Rightarrow> Inr True | Some es \<Rightarrow> py_in v es) = Inr b"
    and "(case json_get s ''enum'' of None \<Rightarrow> Inr True | Some es \<Rightarrow> py_in v es) = Inr True \<longleftrightarrow>
       (\<forall>es. json_get s ''enum'' = Some (JArr es) \<longrightarrow> (\<exists>e \<in> set es. py_eq v e))"
    by (auto simp: py_in_def list_ex_iff)
qed

lemma required_wf:
  assumes "wf_schema s"
  shows "\<exists>r. required_errors s obj p = Inr r"
    and "required_errors s obj p = Inr None \<longleftrightarrow>
       (\<forall>ks k. json_get s ''required'' = Some (JArr ks) \<and> JStr k \<in> set ks \<longrightarrow> k \<in> fst ` set obj)"
proof -
  have "json_get s ''required'' = None
      \<or> (\<exists>ks. json_get s ''required'' = Some (JArr (map JStr ks)))"
  proof -
    have "list_all is_string ks \<Longrightarrow> \<exists>ss. ks = map JStr ss" for ks
      by (induction ks) (auto elim!: is_string.elims intro: exI [of _ "_ # _"])
    then show ?thesis
      using assms by (subst (asm) wf_schema.simps) (auto split: option.splits json.splits)
  qed
  then show "\<exists>r. required_errors s obj p = Inr r"
    and "required_errors s obj p = Inr None \<longleftrightarrow>
       (\<forall>ks k. json_get s ''required'' = Some (JArr ks) \<and> JStr k \<in> set ks \<longrightarrow> k \<in> fst ` set obj)"
    by (auto simp: required_errors_def first_err_none intro!: first_err_total split: if_splits)
qed

lemma properties_wf: "wf_schema s \<Longrightarrow> \<exists>ps. schema_properties s = Some ps"
  by (subst (asm) wf_schema.simps) (auto simp: schema_properties_def split: option.splits json.splits)

lemma child_wf:
  assumes "wf_schema s" and "schema_properties s = Some ps" and "(k, JObj c) \<in> set ps"
  shows "wf_schema c"
  using assms by (subst (asm) wf_schema.simps)
    (auto simp: schema_properties_def list_all_iff split: option.splits json.splits)

lemma items_wf: "wf_schema s \<Longrightarrow> json_get s ''items'' = Some (JObj c) \<Longrightarrow> wf_schema c"
  by (subst (asm) wf_schema.simps) simp

lemma additional_none:
  "additional_errors s ps obj p = None \<longleftrightarrow>
     (json_get s ''additionalProperties'' = Some (JBool False) \<longrightarrow> fst ` set obj \<subseteq> fst ` set ps)"
proof -
  let ?unknown = "filter (\<lambda>k. k \<notin> set (map fst ps)) (map fst obj)"
  have "(case sort ?unknown of [] \<Rightarrow> None | k # _ \<Rightarrow> Some (OUTPUT_SCHEMA_ADDITIONAL p k)) = None
      \<longleftrightarrow> ?unknown = []"
    by (metis (no_types, lifting) list.case_eq_if option.distinct(1) sort_key_simps(1) set_empty set_sort)
  also have "\<dots> \<longleftrightarrow> fst ` set obj \<subseteq> fst ` set ps" by (auto simp: filter_empty_conv)
  finally show ?thesis by (simp add: additional_errors_def)
qed

text \<open>The two structural branches of the validator, for a value that passed type and enum.\<close>

lemma validate_schema_unfold:
  assumes "type_error s v = Inr bt"
    and "(case json_get s ''enum'' of None \<Rightarrow> Inr True | Some es \<Rightarrow> py_in v es) = Inr be"
  shows "validate_schema s v p =
     (if bt then Inr (Some (OUTPUT_SCHEMA_TYPE p))
      else if \<not> be then Inr (Some (OUTPUT_SCHEMA_ENUM p))
      else case v of
        JObj obj \<Rightarrow>
          or_else (required_errors s obj p)
            (case schema_properties s of
               None \<Rightarrow> Inr (Some OUTPUT_SCHEMA_INVALID)
             | Some ps \<Rightarrow>
                 or_else (Inr (additional_errors s ps obj p))
                   (first_err (\<lambda>(k, child).
                      case map_of obj k of
                        None \<Rightarrow> Inr None
                      | Some w \<Rightarrow>
                          (case child of
                             JObj c \<Rightarrow> validate_schema c w (p @ [Key k])
                           | _ \<Rightarrow> Inr None)) ps))
      | JArr vs \<Rightarrow>
          (case json_get s ''items'' of
             Some (JObj c) \<Rightarrow>
               first_err (\<lambda>(i, w). validate_schema c w (p @ [Index i])) (enumerate 0 vs)
           | _ \<Rightarrow> Inr None)
      | _ \<Rightarrow> Inr None)"
  by (subst validate_schema.simps) (simp add: assms)

lemma validate_schema_decides:
  "wf_schema s \<Longrightarrow> (\<exists>r. validate_schema s v p = Inr r)
     \<and> (validate_schema s v p = Inr None \<longleftrightarrow> conforms s v)"
proof (induction "size v" arbitrary: s v p rule: less_induct)
  case less
  note wf = \<open>wf_schema s\<close>
  obtain bt where bt: "type_error s v = Inr bt" using type_error_wf(1) [OF wf] by blast
  obtain be where be: "(case json_get s ''enum'' of None \<Rightarrow> Inr True | Some es \<Rightarrow> py_in v es) = Inr be"
    using enum_wf(1) [OF wf] by blast
  note unfold = validate_schema_unfold [OF bt be]
  have types: "\<not> bt \<longleftrightarrow> (\<forall>t. json_get s ''type'' = Some (JStr t) \<longrightarrow> (\<exists>test. type_ok t = Some test \<and> test v))"
    using type_error_wf(2) [OF wf, of v] bt by simp
  have enums: "be \<longleftrightarrow> (\<forall>es. json_get s ''enum'' = Some (JArr es) \<longrightarrow> (\<exists>e \<in> set es. py_eq v e))"
    using enum_wf(2) [OF wf, of v] be by simp
  show ?case
  proof (cases v)
    case (JObj obj)
    obtain ps where ps: "schema_properties s = Some ps" using properties_wf [OF wf] by blast
    have child: "(\<exists>r. validate_schema c w q = Inr r) \<and> (validate_schema c w q = Inr None \<longleftrightarrow> conforms c w)"
      if "(k, JObj c) \<in> set ps" and "map_of obj k = Some w" for k c w q
      using less.hyps [OF _ child_wf [OF wf ps that(1)], of w q] size_map_of [OF that(2)] JObj by simp
    let ?f = "\<lambda>(k, child). case map_of obj k of None \<Rightarrow> Inr None
        | Some w \<Rightarrow> (case child of JObj c \<Rightarrow> validate_schema c w (p @ [Key k]) | _ \<Rightarrow> Inr None)"
    have f_total: "\<exists>r. first_err ?f ps = Inr r"
      by (rule first_err_total) (use child in \<open>auto split: option.splits json.splits\<close>)
    have f_none: "first_err ?f ps = Inr None \<longleftrightarrow>
        (\<forall>k c w. (k, JObj c) \<in> set ps \<and> map_of obj k = Some w \<longrightarrow> conforms c w)"
      using child by (auto simp: first_err_none split: option.splits json.splits)
    show ?thesis
      unfolding unfold conforms_simps [of s v] types [symmetric] enums [symmetric]
      using JObj ps f_total required_wf [OF wf, of obj p]
      by (auto simp: or_else_none f_none additional_none intro!: or_else_total)
  next
    case (JArr vs)
    have item: "(\<exists>r. validate_schema c w q = Inr r) \<and> (validate_schema c w q = Inr None \<longleftrightarrow> conforms c w)"
      if "json_get s ''items'' = Some (JObj c)" and "w \<in> set vs" for c w q
      using less.hyps [OF _ items_wf [OF wf that(1)], of w q] size_mem_arr [OF that(2)] JArr by simp
    have loop: "(\<exists>r. first_err (\<lambda>(i, w). validate_schema c w (p @ [Index i])) (enumerate 0 vs) = Inr r)
        \<and> (first_err (\<lambda>(i, w). validate_schema c w (p @ [Index i])) (enumerate 0 vs) = Inr None
            \<longleftrightarrow> (\<forall>w \<in> set vs. conforms c w))" if c: "json_get s ''items'' = Some (JObj c)" for c
    proof
      show "\<exists>r. first_err (\<lambda>(i, w). validate_schema c w (p @ [Index i])) (enumerate 0 vs) = Inr r"
        by (rule first_err_total) (use item [OF c] in \<open>auto simp: in_set_enumerate_eq\<close>)
      have "(\<forall>x \<in> set (enumerate 0 vs). conforms c (snd x)) \<longleftrightarrow> (\<forall>w \<in> set vs. conforms c w)"
        by (metis (no_types, lifting) map_snd_enumerate list.set_map image_iff)
      moreover have "x \<in> set (enumerate 0 vs) \<Longrightarrow> snd x \<in> set vs" for x
        by (metis map_snd_enumerate list.set_map image_eqI)
      ultimately show "first_err (\<lambda>(i, w). validate_schema c w (p @ [Index i])) (enumerate 0 vs) = Inr None
            \<longleftrightarrow> (\<forall>w \<in> set vs. conforms c w)"
        using item [OF c] by (simp add: first_err_none case_prod_unfold)
    qed
    show ?thesis
      unfolding unfold conforms_simps [of s v] types [symmetric] enums [symmetric]
      using JArr loop by (auto split: option.splits json.splits)
  qed (unfold unfold conforms_simps [of s v] types [symmetric] enums [symmetric], auto)
qed

text \<open>Sorting keys changes no lookup and is idempotent.\<close>

lemma map_of_sort_key_fst:
  fixes kvs :: "(pystr \<times> 'b) list"
  assumes "distinct (map fst kvs)"
  shows "map_of (sort_key fst kvs) = map_of kvs"
proof -
  have "distinct (map fst (sort_key fst kvs))"
    using assms by (simp add: distinct_map inj_on_def)
  then show ?thesis using assms by (simp add: map_of_inject_set)
qed

end
