(* ===== verification/Compression.thy ===== *)
theory Compression
  imports Context_Plan
begin

text \<open>
  Semantic compression, \<open>src/src/m_agent/_compression.py\<close>: the versioned lossy contract,
  parsing and validation of a compression answer, and its application to the items of a
  frame. \<open>json.loads\<close> is the parameter \<open>loads\<close>.
\<close>

section \<open>Contract and result\<close>

record compression_contract =
  cc_contract_id :: ident
  cc_version :: ident
  cc_instructions :: pystr
  allowed_sources :: "pystr list"
  retained_categories :: "pystr list"
  omitted_categories :: "pystr list"
  derived_categories :: "pystr list"
  max_output_items :: "int option"
  lossy :: bool

text \<open>Field constraints, then \<open>_validate_explicit_lossy_declaration\<close>.\<close>

definition validate_compression_contract ::
  "compression_contract \<Rightarrow> exn + compression_contract" where
  "validate_compression_contract c =
     (if cc_contract_id c = [] \<or> cc_version c = [] \<or> cc_instructions c = []
         \<or> allowed_sources c = [] \<or> retained_categories c = [] \<or> omitted_categories c = []
         \<or> (\<exists>n \<in> set_option (max_output_items c). n < 1) then Inl ValueError
      else if list_ex (list_ex blank) [allowed_sources c, retained_categories c,
                omitted_categories c, derived_categories c] then Inl ValueError
      else if \<not> distinct (allowed_sources c) then Inl ValueError
      else if \<not> list_all distinct [retained_categories c, omitted_categories c,
                derived_categories c] then Inl ValueError
      else if \<not> lossy c then Inl ValueError
      else Inr c)"

definition allows_item :: "compression_contract \<Rightarrow> context_item \<Rightarrow> bool" where
  "allows_item c i \<longleftrightarrow> item_source i \<in> set (allowed_sources c)"

definition compression_source :: "ident \<Rightarrow> ident \<Rightarrow> pystr" where
  "compression_source cid version = ustr (''compression:'' @ cid @ '':'' @ version)"

definition derived_item_source :: "compression_contract \<Rightarrow> pystr" where
  "derived_item_source c = compression_source (cc_contract_id c) (cc_version c)"

definition compression_step_id :: "compression_contract \<Rightarrow> ident" where
  "compression_step_id c = ''compression:'' @ cc_contract_id c @ '':'' @ cc_version c"

text \<open>\<open>dumps\<close> is \<open>json.dumps\<close> with sorted keys and compact separators.\<close>

definition compression_task_input :: "(json \<Rightarrow> pystr) \<Rightarrow> compression_contract \<Rightarrow> pystr" where
  "compression_task_input dumps c =
     (let strings = (\<lambda>xs. JArr (map JStr xs)) in
      dumps (JObj
        [(ustr ''task'', JStr (ustr ''semantic-compression'')),
         (ustr ''contract_id'', JStr (ustr (cc_contract_id c))),
         (ustr ''contract_version'', JStr (ustr (cc_version c))),
         (ustr ''retained_categories'', strings (retained_categories c)),
         (ustr ''omitted_categories'', strings (omitted_categories c)),
         (ustr ''derived_categories'', strings (derived_categories c)),
         (ustr ''max_output_items'',
            case max_output_items c of None \<Rightarrow> JNull | Some n \<Rightarrow> JInt n)]))"

record compression_provenance =
  cp_contract_id :: ident
  cp_contract_version :: ident
  cp_source_item_ids :: "pystr list"

definition validate_provenance :: "compression_provenance \<Rightarrow> exn + compression_provenance" where
  "validate_provenance p =
     (if cp_contract_id p = [] \<or> cp_contract_version p = [] \<or> cp_source_item_ids p = []
        then Inl ValueError
      else if list_ex blank (cp_source_item_ids p) then Inl ValueError
      else if \<not> distinct (cp_source_item_ids p) then Inl ValueError
      else Inr p)"

record compressed_context_item =
  comp_item :: context_item
  comp_provenance :: compression_provenance

record compression_result =
  cr_contract_id :: ident
  cr_contract_version :: ident
  cr_source_item_ids :: "pystr list"
  cr_output_items :: "compressed_context_item list"
  cr_omitted_categories :: "pystr list"
  cr_measurement :: "(ident \<times> int) list"

definition validate_result_shape :: "compression_result \<Rightarrow> exn + compression_result" where
  "validate_result_shape r =
     (if cr_contract_id r = [] \<or> cr_contract_version r = [] then Inl ValueError
      else if \<not> distinct (cr_source_item_ids r) then Inl ValueError
      else if \<not> distinct (map (\<lambda>w. item_id (comp_item w)) (cr_output_items r)) then Inl ValueError
      else if list_ex (\<lambda>w. cp_contract_id (comp_provenance w) \<noteq> cr_contract_id r
                \<or> cp_contract_version (comp_provenance w) \<noteq> cr_contract_version r
                \<or> item_source (comp_item w) \<noteq>
                    compression_source (cr_contract_id r) (cr_contract_version r))
             (cr_output_items r) then Inl ValueError
      else Inr r)"

section \<open>Validation, parsing and application\<close>

definition estimate_items :: "context_item list \<Rightarrow> int" where
  "estimate_items items = (\<Sum>i \<leftarrow> items. estimate_text (item_content i))"

definition validate_compression_result ::
  "compression_result \<Rightarrow> compression_contract \<Rightarrow> context_item list \<Rightarrow> exn + unit" where
  "validate_compression_result r c source_items =
     (let source_ids = map item_id source_items;
          outputs = map comp_item (cr_output_items r) in
      if cr_contract_id r \<noteq> cc_contract_id c \<or> cr_contract_version r \<noteq> cc_version c
        then Inl CompressionContractViolationError
      else if list_ex (\<lambda>i. i \<notin> set source_ids) (cr_source_item_ids r)
        then Inl CompressionContractViolationError
      else if (case max_output_items c of
                 None \<Rightarrow> False | Some n \<Rightarrow> n < int (length (cr_output_items r)))
        then Inl CompressionContractViolationError
      else if list_ex (\<lambda>i. item_id i \<in> set source_ids) outputs
        then Inl CompressionContractViolationError
      else if list_ex (\<lambda>w. list_ex (\<lambda>i. i \<notin> set source_ids)
                (cp_source_item_ids (comp_provenance w))) (cr_output_items r)
        then Inl CompressionContractViolationError
      else if estimate_items source_items < estimate_items outputs
        then Inl CompressionContractViolationError
      else Inr ())"

definition require_str :: "(pystr \<times> json) list \<Rightarrow> string \<Rightarrow> exn + pystr" where
  "require_str entry key =
     (case json_get entry key of
        Some (JStr s) \<Rightarrow> if blank s then Inl CompressionContractViolationError else Inr s
      | _ \<Rightarrow> Inl CompressionContractViolationError)"

fun str_of :: "json \<Rightarrow> pystr" where
  "str_of (JStr s) = s"
| "str_of _ = []"

fun nonblank_str :: "json \<Rightarrow> bool" where
  "nonblank_str (JStr s) = (\<not> blank s)"
| "nonblank_str _ = False"

definition parse_refs :: "(pystr \<times> json) list \<Rightarrow> exn + pystr list" where
  "parse_refs entry =
     (case json_get entry ''source_item_ids'' of
        Some (JArr refs) \<Rightarrow>
          if refs = [] \<or> \<not> list_all nonblank_str refs then Inl CompressionContractViolationError
          else Inr (map str_of refs)
      | _ \<Rightarrow> Inl CompressionContractViolationError)"

definition parse_metadata :: "(pystr \<times> json) list \<Rightarrow> exn + (pystr \<times> json) list" where
  "parse_metadata entry =
     (case json_get entry ''metadata'' of
        None \<Rightarrow> Inr [] | Some (JObj m) \<Rightarrow> Inr m
      | Some _ \<Rightarrow> Inl CompressionContractViolationError)"

definition parse_entry ::
  "compression_contract \<Rightarrow> pystr list \<Rightarrow> json \<Rightarrow> exn + compressed_context_item" where
  "parse_entry c source_ids entry =
     (case entry of
        JObj kvs \<Rightarrow>
          bindE (require_str kvs ''item_id'') (\<lambda>iid.
          bindE (require_str kvs ''content'') (\<lambda>content.
          bindE (parse_refs kvs) (\<lambda>refs.
          bindE (parse_metadata kvs) (\<lambda>metadata.
          if list_ex (\<lambda>r. r \<notin> set source_ids) refs then Inl CompressionContractViolationError
          else if iid \<in> set source_ids then Inl CompressionContractViolationError
          else bindE (validate_provenance
                 \<lparr>cp_contract_id = cc_contract_id c, cp_contract_version = cc_version c,
                  cp_source_item_ids = refs\<rparr>) (\<lambda>prov.
            Inr \<lparr>comp_item = \<lparr>item_id = iid, item_content = content,
                   item_source = derived_item_source c, item_metadata = metadata\<rparr>,
                 comp_provenance = prov\<rparr>)))))
      | _ \<Rightarrow> Inl CompressionContractViolationError)"

definition parse_compression_output ::
  "(pystr \<Rightarrow> json option) \<Rightarrow> pystr option \<Rightarrow> compression_contract \<Rightarrow> context_item list
     \<Rightarrow> exn + compression_result" where
  "parse_compression_output loads content c source_items =
     (case content of
        None \<Rightarrow> Inl CompressionContractViolationError
      | Some text \<Rightarrow>
     (case loads text of
        Some (JObj payload) \<Rightarrow>
          (case json_get payload ''items'' of
             Some (JArr entries) \<Rightarrow>
               bindE (mapE (parse_entry c (map item_id source_items)) entries) (\<lambda>outputs.
               bindE (validate_result_shape
                  \<lparr>cr_contract_id = cc_contract_id c, cr_contract_version = cc_version c,
                   cr_source_item_ids = map item_id source_items,
                   cr_output_items = outputs,
                   cr_omitted_categories = omitted_categories c,
                   cr_measurement =
                     [(''input_tokens_estimate'', estimate_items source_items),
                      (''output_tokens_estimate'', estimate_items (map comp_item outputs)),
                      (''source_item_count'', int (length source_items)),
                      (''output_item_count'', int (length outputs))]\<rparr>) (\<lambda>r.
               bindE (validate_compression_result r c source_items) (\<lambda>_. Inr r)))
           | _ \<Rightarrow> Inl CompressionContractViolationError)
      | _ \<Rightarrow> Inl CompressionContractViolationError))"

definition apply_compression ::
  "context_item list \<Rightarrow> compression_result \<Rightarrow> exn + context_item list" where
  "apply_compression items r =
     (if list_ex (\<lambda>i. i \<notin> set (map item_id items)) (cr_source_item_ids r)
        then Inl CompressionContractViolationError
      else Inr (filter (\<lambda>i. item_id i \<notin> set (cr_source_item_ids r)) items
                @ map comp_item (cr_output_items r)))"

section \<open>What an accepted compression guarantees\<close>

lemma mapE_mem: "mapE f xs = Inr ys \<Longrightarrow> y \<in> set ys \<Longrightarrow> \<exists>x \<in> set xs. f x = Inr y"
  by (induction xs arbitrary: ys) (auto simp: bindE_eq_Inr)

lemma parse_entry_ok:
  assumes "parse_entry c ids entry = Inr w"
  shows "item_source (comp_item w) = derived_item_source c"
    and "item_id (comp_item w) \<notin> set ids"
    and "cp_source_item_ids (comp_provenance w) \<noteq> []"
    and "set (cp_source_item_ids (comp_provenance w)) \<subseteq> set ids"
  using assms
  by (auto simp: parse_entry_def validate_provenance_def bindE_eq_Inr list_ex_iff
      split: json.splits if_splits)

lemma parse_compressionE:
  assumes "parse_compression_output loads content c source_items = Inr r"
  obtains entries where
    "mapE (parse_entry c (map item_id source_items)) entries = Inr (cr_output_items r)"
    and "validate_result_shape r = Inr r"
    and "validate_compression_result r c source_items = Inr ()"
    and "cr_source_item_ids r = map item_id source_items"
  using assms
  by (auto simp: parse_compression_output_def bindE_eq_Inr validate_result_shape_def
      split: option.splits json.splits if_splits)

lemma parse_compression_sound:
  assumes "parse_compression_output loads content c source_items = Inr r"
  shows "cr_source_item_ids r = map item_id source_items"
    and "distinct (map (\<lambda>w. item_id (comp_item w)) (cr_output_items r))"
    and "\<forall>w \<in> set (cr_output_items r). item_source (comp_item w) = derived_item_source c
           \<and> item_id (comp_item w) \<notin> item_id ` set source_items
           \<and> cp_source_item_ids (comp_provenance w) \<noteq> []
           \<and> set (cp_source_item_ids (comp_provenance w)) \<subseteq> item_id ` set source_items"
    and "estimate_items (map comp_item (cr_output_items r)) \<le> estimate_items source_items"
    and "max_output_items c = Some n \<Longrightarrow> int (length (cr_output_items r)) \<le> n"
proof -
  obtain entries where e:
    "mapE (parse_entry c (map item_id source_items)) entries = Inr (cr_output_items r)"
    "validate_result_shape r = Inr r" "validate_compression_result r c source_items = Inr ()"
    and ids: "cr_source_item_ids r = map item_id source_items"
    using parse_compressionE [OF assms] by blast
  show "cr_source_item_ids r = map item_id source_items" by (rule ids)
  show "distinct (map (\<lambda>w. item_id (comp_item w)) (cr_output_items r))"
    using e(2) by (auto simp: validate_result_shape_def split: if_splits)
  show "\<forall>w \<in> set (cr_output_items r). item_source (comp_item w) = derived_item_source c
           \<and> item_id (comp_item w) \<notin> item_id ` set source_items
           \<and> cp_source_item_ids (comp_provenance w) \<noteq> []
           \<and> set (cp_source_item_ids (comp_provenance w)) \<subseteq> item_id ` set source_items"
    using mapE_mem [OF e(1)] parse_entry_ok by fastforce
  show "estimate_items (map comp_item (cr_output_items r)) \<le> estimate_items source_items"
    using e(3) by (auto simp: validate_compression_result_def Let_def split: if_splits)
  show "max_output_items c = Some n \<Longrightarrow> int (length (cr_output_items r)) \<le> n"
    using e(3) by (auto simp: validate_compression_result_def Let_def split: if_splits)
qed

lemma apply_compression_ok:
  assumes "set (cr_source_item_ids r) \<subseteq> item_id ` set items"
  shows "apply_compression items r =
     Inr (filter (\<lambda>i. item_id i \<notin> set (cr_source_item_ids r)) items
          @ map comp_item (cr_output_items r))"
proof -
  have "\<not> list_ex (\<lambda>i. i \<notin> set (map item_id items)) (cr_source_item_ids r)"
    using assms by (auto simp: list_ex_iff)
  then show ?thesis by (simp only: apply_compression_def if_False)
qed

text \<open>Compressing never enlarges the estimated size of a frame with distinct item ids.\<close>

lemma estimate_items_append [simp]:
  "estimate_items (xs @ ys) = estimate_items xs + estimate_items ys"
  by (simp add: estimate_items_def)

lemma estimate_partition:
  "estimate_items items =
     estimate_items (filter P items) + estimate_items (filter (\<lambda>i. \<not> P i) items)"
  by (induction items) (auto simp: estimate_items_def)

text \<open>An accepted answer replaces exactly the compressed items, without raising the estimated size.\<close>

lemma compression_applied:
  assumes "parse_compression_output loads content c sources = Inr r"
    and "sources = filter P items" and "distinct (map item_id items)"
  shows "apply_compression items r =
       Inr (filter (\<lambda>i. \<not> P i) items @ map comp_item (cr_output_items r))
     \<and> estimate_items (filter (\<lambda>i. \<not> P i) items @ map comp_item (cr_output_items r)) \<le> estimate_items items
     \<and> distinct (map (\<lambda>w. item_id (comp_item w)) (cr_output_items r))
     \<and> (\<forall>w \<in> set (cr_output_items r). item_source (comp_item w) = derived_item_source c
          \<and> cp_source_item_ids (comp_provenance w) \<noteq> []
          \<and> set (cp_source_item_ids (comp_provenance w)) \<subseteq> item_id ` set sources)
     \<and> (\<forall>n. max_output_items c = Some n \<longrightarrow> int (length (cr_output_items r)) \<le> n)"
proof -
  note sound = parse_compression_sound [OF assms(1)]
  have keep: "filter (\<lambda>i. item_id i \<notin> set (cr_source_item_ids r)) items = filter (\<lambda>i. \<not> P i) items"
    using sound(1) assms(2,3) by (auto intro!: filter_cong simp: inj_on_def distinct_map)
  have "apply_compression items r = Inr (filter (\<lambda>i. \<not> P i) items @ map comp_item (cr_output_items r))"
    using apply_compression_ok [of r items] sound(1) assms(2) keep by auto
  then show ?thesis using sound estimate_partition [of items P] assms(2) by auto
qed

end
