(* ===== verification/Run_Data.thy ===== *)
theory Run_Data
  imports Run_Status Failure Run_Policy Output_Contract Compression
begin

text \<open>
  The records a Run Store keeps: Steps, Attempts and Checkpoints
  (\<open>src/src/m_agent/_steps.py\<close>), the Run record (\<open>_run.py\<close>), the frozen Definition
  Snapshot with its retry policy (\<open>_definition.py\<close>), and the resolutions an
  application may submit for a WAITING Run (\<open>_resolution.py\<close>).
\<close>

section \<open>Steps, attempts, checkpoints\<close>

datatype step_type = STEP_MODEL | STEP_CONTEXT | STEP_TOOL
datatype step_status = STEP_RUNNING | STEP_SUCCEEDED | STEP_FAILED

record step_record =
  step_id :: ident
  step_run_id :: ident
  step_type :: step_type
  step_status :: step_status
  step_error_code :: "ident option"
  step_created_at :: timestamp

record step_attempt =
  attempt_id :: ident
  attempt_step_id :: ident
  attempt_run_id :: ident
  attempt_status :: step_status
  attempt_output :: "pystr option"
  attempt_error :: "pystr option"
  attempt_classification :: "failure_classification option"
  attempt_error_code :: "ident option"
  attempt_model_purpose :: "model_purpose option"
  attempt_usage :: "model_usage option"
  attempt_created_at :: timestamp

record step_checkpoint =
  cp_run_id :: ident
  cp_step_id :: ident
  cp_attempt_id :: ident
  cp_step_type :: step_type
  cp_output :: pystr
  cp_created_at :: timestamp

section \<open>The frozen definition snapshot\<close>

record retry_policy =
  max_attempts :: int
  retry_delay :: duration

definition validate_retry_policy :: "retry_policy \<Rightarrow> exn + retry_policy" where
  "validate_retry_policy p = (if max_attempts p < 1 then Inl ValueError else Inr p)"

record definition_snapshot =
  snap_definition_id :: ident
  snap_version :: ident
  snap_instructions :: pystr
  snap_model_bindings :: "model_binding_set option"
  snap_required_capabilities :: "model_capabilities option"
  snap_adapter_capabilities :: "model_capabilities option"
  snap_adapter_contract_fingerprint :: string
  snap_model_execution_budget :: "model_execution_budget option"
  snap_has_context_provider :: bool
  snap_tool_declarations :: "tool_declaration list"
  snap_retry_policy :: "retry_policy option"
  snap_policy_identity :: policy_identity
  snap_output_contract :: "output_contract option"
  snap_context_plan :: context_plan
  snap_compression_contract :: "compression_contract option"

definition validate_model_snapshot_shape :: "definition_snapshot \<Rightarrow> exn + definition_snapshot" where
  "validate_model_snapshot_shape s =
     (if snap_model_bindings s = None
         \<and> (snap_required_capabilities s = None \<or> snap_adapter_capabilities s = None)
      then Inl ValueError else Inr s)"

section \<open>Runs\<close>

record run_record =
  run_id :: ident
  run_definition_id :: ident
  run_definition_version :: ident
  run_input :: pystr
  run_history :: "conversation_message list"
  run_status_of :: run_status
  run_snapshot :: "definition_snapshot option"
  run_output :: "pystr option"
  run_waiting_reason :: "ident option"
  run_waiting_step_id :: "ident option"
  run_error_code :: "ident option"
  run_version :: int
  run_lease_owner :: "ident option"
  run_lease_expires_at :: "timestamp option"
  run_created_at :: timestamp
  run_updated_at :: timestamp

record run_inspection =
  insp_run :: run_record
  insp_steps :: "step_record list"
  insp_attempts :: "step_attempt list"
  insp_checkpoints :: "step_checkpoint list"
  insp_policy_decisions :: "policy_decision_record list"

section \<open>Resolutions of WAITING runs\<close>

definition REASON_DEFINITION_UNAVAILABLE :: ident where
  "REASON_DEFINITION_UNAVAILABLE = ''DEFINITION_UNAVAILABLE''"

definition REASON_UNCERTAIN_NON_IDEMPOTENT :: ident where
  "REASON_UNCERTAIN_NON_IDEMPOTENT = ''UNCERTAIN_NON_IDEMPOTENT''"

definition REASON_POLICY_RESOLUTION_REQUIRED :: ident where
  "REASON_POLICY_RESOLUTION_REQUIRED = ''POLICY_RESOLUTION_REQUIRED''"

datatype resolution_action = RETRY_STEP | CONFIRM_STEP | FAIL_RUN | CANCEL_RUN | CONTINUE_RUN

record run_resolution =
  res_action :: resolution_action
  res_result :: "pystr option"
  res_reason :: "pystr option"
  res_waiting_step_id :: "ident option"

definition ALLOWED_FOR_UNCERTAIN_NON_IDEMPOTENT :: "resolution_action list" where
  "ALLOWED_FOR_UNCERTAIN_NON_IDEMPOTENT = [RETRY_STEP, CONFIRM_STEP, FAIL_RUN, CANCEL_RUN]"

definition ALLOWED_FOR_DEFINITION_UNAVAILABLE :: "resolution_action list" where
  "ALLOWED_FOR_DEFINITION_UNAVAILABLE = [FAIL_RUN, CANCEL_RUN]"

definition ALLOWED_FOR_POLICY_RESOLUTION :: "resolution_action list" where
  "ALLOWED_FOR_POLICY_RESOLUTION = [CONTINUE_RUN, FAIL_RUN, CANCEL_RUN]"

definition allowed_resolutions :: "run_record \<Rightarrow> resolution_action list" where
  "allowed_resolutions run =
     (if run_waiting_reason run = Some REASON_UNCERTAIN_NON_IDEMPOTENT
        then ALLOWED_FOR_UNCERTAIN_NON_IDEMPOTENT
      else if run_waiting_reason run = Some REASON_DEFINITION_UNAVAILABLE
        then ALLOWED_FOR_DEFINITION_UNAVAILABLE
      else if (case run_waiting_reason run of
                 None \<Rightarrow> False
               | Some w \<Rightarrow> w \<noteq> [] \<and> starts_with (REASON_POLICY_RESOLUTION_REQUIRED @ '':'') w)
        then ALLOWED_FOR_POLICY_RESOLUTION
      else [])"

definition require_allowed :: "run_record \<Rightarrow> resolution_action \<Rightarrow> exn + unit" where
  "require_allowed run action =
     (if action \<notin> set (allowed_resolutions run) then Inl ResolutionNotAllowedError else Inr ())"

lemmas allowed_tuples = ALLOWED_FOR_UNCERTAIN_NON_IDEMPOTENT_def
  ALLOWED_FOR_DEFINITION_UNAVAILABLE_def ALLOWED_FOR_POLICY_RESOLUTION_def

lemmas reason_defs = REASON_DEFINITION_UNAVAILABLE_def REASON_UNCERTAIN_NON_IDEMPOTENT_def
  REASON_POLICY_RESOLUTION_REQUIRED_def

text \<open>Every WAITING Run that offers any action offers both ways to end it.\<close>

lemma waiting_can_always_end:
  "allowed_resolutions run \<noteq> [] \<Longrightarrow> {FAIL_RUN, CANCEL_RUN} \<subseteq> set (allowed_resolutions run)"
  by (auto simp: allowed_resolutions_def allowed_tuples split: if_splits)

lemma step_actions_iff:
  "(RETRY_STEP \<in> set (allowed_resolutions run) \<longleftrightarrow>
      run_waiting_reason run = Some REASON_UNCERTAIN_NON_IDEMPOTENT)
   \<and> (CONFIRM_STEP \<in> set (allowed_resolutions run) \<longleftrightarrow>
      run_waiting_reason run = Some REASON_UNCERTAIN_NON_IDEMPOTENT)"
  by (auto simp: allowed_resolutions_def allowed_tuples)

lemma continue_run_iff:
  "CONTINUE_RUN \<in> set (allowed_resolutions run) \<longleftrightarrow>
     (\<exists>rest. run_waiting_reason run = Some (REASON_POLICY_RESOLUTION_REQUIRED @ '':'' @ rest))"
proof -
  have other: "\<not> starts_with (REASON_POLICY_RESOLUTION_REQUIRED @ '':'') REASON_UNCERTAIN_NON_IDEMPOTENT"
      "\<not> starts_with (REASON_POLICY_RESOLUTION_REQUIRED @ '':'') REASON_DEFINITION_UNAVAILABLE"
    by (simp_all add: starts_with_def reason_defs)
  have "CONTINUE_RUN \<in> set (allowed_resolutions run) \<longleftrightarrow>
      (\<exists>w. run_waiting_reason run = Some w \<and> starts_with (REASON_POLICY_RESOLUTION_REQUIRED @ '':'') w)"
    using other by (auto simp: allowed_resolutions_def allowed_tuples starts_with_def split: option.splits)
  also have "\<dots> \<longleftrightarrow>
      (\<exists>rest. run_waiting_reason run = Some (REASON_POLICY_RESOLUTION_REQUIRED @ '':'' @ rest))"
    by (auto simp: starts_with_iff)
  finally show ?thesis .
qed

text \<open>Which actions an application may take on a WAITING Run: step actions exactly for an
  uncertain non-idempotent effect, \<open>CONTINUE_RUN\<close> exactly for a policy resolution, and
  wherever any action is offered the Run can also be failed and cancelled.\<close>

lemma resolution_table:
  "(require_allowed run RETRY_STEP = Inr () \<longleftrightarrow> run_waiting_reason run = Some REASON_UNCERTAIN_NON_IDEMPOTENT)
     \<and> (require_allowed run CONFIRM_STEP = Inr () \<longleftrightarrow>
          run_waiting_reason run = Some REASON_UNCERTAIN_NON_IDEMPOTENT)
     \<and> (require_allowed run CONTINUE_RUN = Inr () \<longleftrightarrow>
          (\<exists>rest. run_waiting_reason run = Some (REASON_POLICY_RESOLUTION_REQUIRED @ '':'' @ rest)))
     \<and> (require_allowed run a = Inr () \<longrightarrow>
          require_allowed run FAIL_RUN = Inr () \<and> require_allowed run CANCEL_RUN = Inr ())"
proof -
  have "require_allowed run a = Inr () \<longleftrightarrow> a \<in> set (allowed_resolutions run)" for a
    by (simp add: require_allowed_def)
  then show ?thesis
    using step_actions_iff [of run] continue_run_iff [of run] waiting_can_always_end [of run] by fastforce
qed

end
