(* ===== verification/Agent_Definition.thy ===== *)
theory Agent_Definition
  imports Model_Exchange Run_Data
begin

text \<open>
  Agent Definitions and the registry, \<open>src/src/m_agent/_definition.py\<close>, with the extension
  points a Definition refers to: model adapters (\<open>_model.py\<close>), tools (\<open>_tools.py\<close>) and context
  providers (\<open>_context.py\<close>). Adapters, tools and providers are code of the application: what
  they answer is a function of the number of the call, so that two calls may differ. What an
  adapter says of itself (capabilities, contract, fingerprint) is taken to be stable.

  \<open>definition_env\<close> holds the SHA-256 functions: \<open>de_fingerprint\<close> of a contract's semantics and
  \<open>de_legacy_id\<close>, the first sixteen hex digits for a class name.
\<close>

section \<open>Extension points\<close>

text \<open>What a streaming adapter yields, item by item; \<open>S_Other\<close> is an object of another type.\<close>

datatype stream_event = S_Delta pystr | S_Response model_response | S_Other | S_Raise fault

record model_adapter =
  ma_object :: nat
  ma_type_identity :: string
  ma_capabilities :: model_capabilities
  ma_deterministic :: bool
  ma_overrides_contract :: bool
  ma_model_contract :: "exn + model_contract"
  ma_configuration_fingerprint :: string
  ma_assert_output_schema :: "structured_output_mode \<Rightarrow> (pystr \<times> json) list \<Rightarrow> exn + unit"
  ma_generate :: "nat \<Rightarrow> model_request \<Rightarrow> fault + model_reply"
  ma_stream :: "nat \<Rightarrow> model_request \<Rightarrow> stream_event list"
  ma_validate_response :: "model_request \<Rightarrow> model_reply \<Rightarrow> fault + model_reply"

record tool_request =
  treq_call_id :: ident
  treq_tool_name :: ident
  treq_arguments :: pystr

text \<open>A tool may return a value of another type than \<open>ToolOutcome\<close>.\<close>

datatype tool_reply = Returned "tool_outcome option"

record tool =
  tool_name :: ident
  tool_description :: pystr
  tool_effect_of :: tool_effect
  tool_parameters :: "(pystr \<times> json) list"
  tool_invoke :: "nat \<Rightarrow> tool_request \<Rightarrow> fault + tool_reply"

definition tool_spec_of :: "tool \<Rightarrow> tool_spec" where
  "tool_spec_of t = \<lparr>spec_name = tool_name t, spec_description = tool_description t,
     spec_effect = tool_effect_of t, spec_parameters = tool_parameters t\<rparr>"

record context_provider =
  provider_type_name :: string
  provide :: "nat \<Rightarrow> pystr \<Rightarrow> fault + context_item list"

record agent_definition =
  def_id :: ident
  def_version :: ident
  def_instructions :: pystr
  def_model_requirements :: model_requirements
  def_required_capabilities :: model_capabilities
  def_model_bindings :: model_binding_set
  def_model_execution_budget :: "model_execution_budget option"
  def_model_adapter :: model_adapter
  def_model_adapters :: "(model_purpose \<times> model_adapter) list"
  def_context_provider :: "context_provider option"
  def_tools :: "tool list"
  def_retry_policy :: "retry_policy option"
  def_run_policy :: run_policy
  def_output_contract :: "output_contract option"
  def_context_plan :: context_plan
  def_compression_contract :: "compression_contract option"

record definition_env =
  de_fingerprint :: "model_contract \<Rightarrow> string"
  de_legacy_id :: "string \<Rightarrow> string"

section \<open>Construction\<close>

definition capability_requirements :: "model_capabilities \<Rightarrow> exn + model_requirements" where
  "capability_requirements c =
     bindE (as_typed c) (\<lambda>t. validate_requirements
       \<lparr>req_capabilities = t, min_context_window_tokens = 1, min_output_tokens = 1\<rparr>)"

definition default_budget :: model_execution_budget where
  "default_budget = \<lparr>run_max_attempts = 8, primary_max_attempts = 8,
     context_compression_max_attempts = 8, output_repair_max_attempts = 8\<rparr>"

definition default_guarantees :: model_usage_guarantees where
  "default_guarantees = \<lparr>g_input_tokens = OPTIONAL, g_output_tokens = OPTIONAL,
     g_cached_input_tokens = UNSUPPORTED, g_reasoning_tokens = UNSUPPORTED\<rparr>"

text \<open>
  \<open>_model_contract_for\<close>: only the \<open>ValueError\<close> of the inherited property is answered with the
  synthesised contract of the 0.2 interface.
\<close>

definition model_contract_for :: "definition_env \<Rightarrow> model_adapter \<Rightarrow> exn + model_contract" where
  "model_contract_for de a =
     (case ma_model_contract a of
        Inr c \<Rightarrow> Inr c
      | Inl e \<Rightarrow>
          if \<not> is_value_error e \<or> ma_overrides_contract a then Inl e
          else validate_contract (de_fingerprint de)
            \<lparr>contract_id = ''legacy-'' @ de_legacy_id de (ma_type_identity a),
             contract_version = ''0.2'', revision_stability = PROVIDER_ALIAS,
             model_identity = ''legacy:'' @ ma_type_identity a,
             contract_capabilities = ma_capabilities a,
             limits = \<lparr>context_window_tokens = 1000000, max_output_tokens = 1000000\<rparr>,
             input_sizer_id = ''legacy-0.2'', serialization_id = ''legacy-0.2'',
             usage_guarantees = default_guarantees, fingerprint = None,
             configuration_fingerprint =
               (if ma_configuration_fingerprint a = [] then None
                else Some (ma_configuration_fingerprint a))\<rparr>)"

text \<open>
  \<open>_normalize_legacy_model_definition\<close>. \<open>given\<close> is the \<open>model_bindings\<close> argument of the
  constructor; the field of the draft is not read.
\<close>

definition normalize_definition ::
  "definition_env \<Rightarrow> model_binding_set option \<Rightarrow> agent_definition \<Rightarrow> exn + agent_definition" where
  "normalize_definition de given d =
     bindE (capability_requirements (def_required_capabilities d)) (\<lambda>extra.
     bindE (merged_with (def_model_requirements d) extra) (\<lambda>reqs.
     let d' = d\<lparr>def_model_requirements := reqs\<rparr> in
     case given of
       None \<Rightarrow>
         bindE (model_contract_for de (def_model_adapter d)) (\<lambda>c.
         bindE (reuse_primary c reqs) (\<lambda>bs. Inr (d'\<lparr>def_model_bindings := bs\<rparr>)))
     | Some bs \<Rightarrow>
         bindE (validate_complete_bindings bs) (\<lambda>bs. Inr (d'\<lparr>def_model_bindings := bs,
           def_model_execution_budget :=
             (case def_model_execution_budget d of None \<Rightarrow> Some default_budget | b \<Rightarrow> b)\<rparr>))))"

text \<open>\<open>budget_given\<close>: the keyword was passed, possibly as \<open>None\<close>.\<close>

definition for_adapter ::
  "definition_env \<Rightarrow> model_binding_set option \<Rightarrow> bool \<Rightarrow> agent_definition \<Rightarrow> exn + agent_definition" where
  "for_adapter de given budget_given d =
     bindE (case given of
              Some bs \<Rightarrow> Inr bs
            | None \<Rightarrow> bindE (ma_model_contract (def_model_adapter d)) (\<lambda>c.
                        reuse_primary c (def_model_requirements d))) (\<lambda>bs.
       normalize_definition de (Some bs)
         (if budget_given then d else d\<lparr>def_model_execution_budget := Some default_budget\<rparr>))"

section \<open>Effective bindings\<close>

definition effective_model_requirements :: "agent_definition \<Rightarrow> exn + model_requirements" where
  "effective_model_requirements d =
     (if def_tools d = [] then Inr (def_model_requirements d)
      else bindE (capability_requirements (no_capabilities\<lparr>cap_tool_calling := Mode NATIVE\<rparr>)) (\<lambda>t.
        merged_with (def_model_requirements d) t))"

definition adapter_configuration_fingerprint_of ::
  "definition_env \<Rightarrow> model_adapter \<Rightarrow> model_contract \<Rightarrow> exn + string" where
  "adapter_configuration_fingerprint_of de a contract =
     bindE (model_contract_for de a) (\<lambda>own.
     if own \<noteq> contract then Inl ModelCapabilityError
     else if \<not> ma_deterministic a
       \<and> (configuration_fingerprint contract = None \<or> configuration_fingerprint contract = Some [])
       then Inl ValueError
     else if blank_ident (ma_configuration_fingerprint a) then Inl ValueError
     else if \<not> ma_deterministic a
       \<and> Some (ma_configuration_fingerprint a) \<noteq> configuration_fingerprint contract
       then Inl ValueError
     else Inr (ma_configuration_fingerprint a))"

definition model_adapter_for :: "agent_definition \<Rightarrow> model_purpose \<Rightarrow> exn + model_adapter" where
  "model_adapter_for d p =
     bindE (for_purpose (def_model_bindings d) p) (\<lambda>b.
       if p = PRIMARY \<or> source_purpose b = Some PRIMARY then Inr (def_model_adapter d)
       else case map_of (def_model_adapters d) p of
              None \<Rightarrow> Inl ModelCapabilityError
            | Some a \<Rightarrow> Inr a)"

definition output_requirements :: "agent_definition \<Rightarrow> exn + model_requirements" where
  "output_requirements d =
     (case def_output_contract d of
        Some oc \<Rightarrow>
          if oc_structured_output oc \<noteq> STRUCTURED_OUTPUT_NONE
          then capability_requirements
                 (no_capabilities\<lparr>cap_structured_output := Mode (oc_structured_output oc)\<rparr>)
          else capability_requirements no_capabilities
      | None \<Rightarrow> capability_requirements no_capabilities)"

definition effective_binding ::
  "definition_env \<Rightarrow> agent_definition \<Rightarrow> model_requirements \<Rightarrow> model_binding \<Rightarrow> model_binding
     \<Rightarrow> exn + model_binding" where
  "effective_binding de d output_reqs primary b =
     (if purpose b = PRIMARY then Inr primary
      else if source_purpose b = Some PRIMARY
        then Inr (primary\<lparr>purpose := purpose b, source_purpose := Some PRIMARY\<rparr>)
      else
        bindE (model_adapter_for d (purpose b)) (\<lambda>a.
        bindE (adapter_configuration_fingerprint_of de a (binding_contract b)) (\<lambda>f.
        bindE (if purpose b = OUTPUT_REPAIR then merged_with (binding_requirements b) output_reqs
               else Inr (binding_requirements b)) (\<lambda>r.
        bindE (effective_for r (binding_contract b)) (\<lambda>e.
          Inr (b\<lparr>adapter_configuration_fingerprint := Some f, binding_requirements := e\<rparr>))))))"

definition effective_model_bindings ::
  "definition_env \<Rightarrow> agent_definition \<Rightarrow> exn + model_binding_set" where
  "effective_model_bindings de d =
     bindE (effective_model_requirements d) (\<lambda>reqs.
     bindE (output_requirements d) (\<lambda>output_reqs.
     bindE (model_contract_for de (def_model_adapter d)) (\<lambda>contract.
     bindE (for_purpose (def_model_bindings d) PRIMARY) (\<lambda>primary.
     if binding_contract primary \<noteq> contract then Inl ModelCapabilityError
     else
       bindE (adapter_configuration_fingerprint_of de (def_model_adapter d)
                (binding_contract primary)) (\<lambda>f.
       bindE (merged_with (binding_requirements primary) reqs) (\<lambda>r1.
       bindE (merged_with r1 output_reqs) (\<lambda>r2.
       bindE (effective_for r2 (binding_contract primary)) (\<lambda>e.
       bindE (mapE (effective_binding de d output_reqs
                (primary\<lparr>adapter_configuration_fingerprint := Some f, binding_requirements := e\<rparr>))
                (def_model_bindings d)) validate_complete_bindings))))))))"

definition frozen_snapshot :: "definition_env \<Rightarrow> agent_definition \<Rightarrow> exn + definition_snapshot" where
  "frozen_snapshot de d =
     bindE (effective_model_bindings de d) (\<lambda>bs.
       validate_model_snapshot_shape
         \<lparr>snap_definition_id = def_id d, snap_version = def_version d,
          snap_instructions = def_instructions d, snap_model_bindings = Some bs,
          snap_required_capabilities = Some (def_required_capabilities d),
          snap_adapter_capabilities = Some (ma_capabilities (def_model_adapter d)),
          snap_adapter_contract_fingerprint = ma_configuration_fingerprint (def_model_adapter d),
          snap_model_execution_budget = def_model_execution_budget d,
          snap_has_context_provider = (def_context_provider d \<noteq> None),
          snap_tool_declarations =
            map (\<lambda>t. \<lparr>decl_name = tool_name t, decl_effect = tool_effect_of t\<rparr>) (def_tools d),
          snap_retry_policy = def_retry_policy d,
          snap_policy_identity = identity (def_run_policy d),
          snap_output_contract = def_output_contract d,
          snap_context_plan = def_context_plan d,
          snap_compression_contract = def_compression_contract d\<rparr>)"

section \<open>The registry\<close>

record definition_registry =
  reg_definitions :: "ident \<times> ident \<Rightarrow> agent_definition option"
  reg_fingerprints :: "ident \<times> ident \<Rightarrow> string option"

definition empty_registry :: definition_registry where
  "empty_registry = \<lparr>reg_definitions = Map.empty, reg_fingerprints = Map.empty\<rparr>"

text \<open>
  The local dict \<open>adapter_contracts\<close> is keyed by the identity of the adapter object: the
  ceiling and the fingerprint are checked once per object.
\<close>

definition adapter_contract_once ::
  "definition_env \<Rightarrow> (nat \<Rightarrow> model_contract option) \<Rightarrow> model_adapter
     \<Rightarrow> exn + (model_contract \<times> (nat \<Rightarrow> model_contract option))" where
  "adapter_contract_once de known a =
     (case known (ma_object a) of
        Some c \<Rightarrow> Inr (c, known)
      | None \<Rightarrow>
          bindE (model_contract_for de a) (\<lambda>c.
          bindE (capability_ceiling_match (ma_capabilities a) (contract_capabilities c)) (\<lambda>m.
          if \<not> compatible m then Inl ModelCapabilityError
          else bindE (adapter_configuration_fingerprint_of de a c) (\<lambda>_.
            Inr (c, known(ma_object a \<mapsto> c))))))"

definition check_binding ::
  "definition_env \<Rightarrow> agent_definition \<Rightarrow> model_binding
     \<Rightarrow> (ident \<times> ident \<Rightarrow> string option) \<times> (nat \<Rightarrow> model_contract option)
     \<Rightarrow> exn + ((ident \<times> ident \<Rightarrow> string option) \<times> (nat \<Rightarrow> model_contract option))" where
  "check_binding de d b st =
     (let (prints, known) = st in
     bindE (model_adapter_for d (purpose b)) (\<lambda>a.
     bindE (adapter_contract_once de known a) (\<lambda>(own, known').
     bindE (for_purpose (def_model_bindings d) (purpose b)) (\<lambda>declared.
     if own \<noteq> binding_contract declared then Inl ModelCapabilityError
     else bindE (match_requirements (binding_requirements b) (binding_contract b)) (\<lambda>m.
     if \<not> compatible m then Inl ModelCapabilityError
     else bindE (case def_output_contract d of
                   Some oc \<Rightarrow> if purpose b \<in> {PRIMARY, OUTPUT_REPAIR}
                     then ma_assert_output_schema a (oc_structured_output oc) (oc_schema oc)
                     else Inr ()
                 | None \<Rightarrow> Inr ()) (\<lambda>_.
     let key = (contract_id (binding_contract b), contract_version (binding_contract b)) in
     case fingerprint (binding_contract b) of
       None \<Rightarrow> Inl AssertionError
     | Some f \<Rightarrow>
         if prints key \<noteq> None \<and> prints key \<noteq> Some f then Inl DefinitionConflictError
         else Inr (prints(key \<mapsto> f), known')))))))"

fun check_bindings ::
  "definition_env \<Rightarrow> agent_definition \<Rightarrow> model_binding list
     \<Rightarrow> (ident \<times> ident \<Rightarrow> string option) \<times> (nat \<Rightarrow> model_contract option)
     \<Rightarrow> exn + (ident \<times> ident \<Rightarrow> string option)" where
  "check_bindings de d [] st = Inr (fst st)"
| "check_bindings de d (b # bs) st = bindE (check_binding de d b st) (check_bindings de d bs)"

definition register ::
  "definition_env \<Rightarrow> agent_definition \<Rightarrow> definition_registry \<Rightarrow> (exn + unit) \<times> definition_registry" where
  "register de d r =
     (if reg_definitions r (def_id d, def_version d) \<noteq> None then (Inl DefinitionConflictError, r)
      else case bindE (effective_model_bindings de d) (\<lambda>bs.
                  check_bindings de d bs (reg_fingerprints r, Map.empty)) of
             Inl e \<Rightarrow> (Inl e, r)
           | Inr prints \<Rightarrow>
               (Inr (), r\<lparr>reg_definitions := (reg_definitions r)((def_id d, def_version d) \<mapsto> d),
                          reg_fingerprints := prints\<rparr>))"

definition resolve :: "ident \<Rightarrow> ident \<Rightarrow> definition_registry \<Rightarrow> exn + agent_definition" where
  "resolve did version r =
     (case reg_definitions r (did, version) of
        None \<Rightarrow> Inl DefinitionNotFoundError | Some d \<Rightarrow> Inr d)"

definition is_registered :: "ident \<Rightarrow> ident \<Rightarrow> definition_registry \<Rightarrow> bool" where
  "is_registered did version r \<longleftrightarrow> reg_definitions r (did, version) \<noteq> None"

section \<open>What registration guarantees\<close>

text \<open>
  Every registered Definition stands under its own identity, has effective bindings whose
  requirements are met by their contracts, and every contract identity in the registry means
  one fingerprint.
\<close>

definition contract_key :: "model_binding \<Rightarrow> ident \<times> ident" where
  "contract_key b = (contract_id (binding_contract b), contract_version (binding_contract b))"

definition binding_sound :: "(ident \<times> ident \<Rightarrow> string option) \<Rightarrow> model_binding \<Rightarrow> bool" where
  "binding_sound prints b \<longleftrightarrow>
     fingerprint (binding_contract b) \<noteq> None
     \<and> prints (contract_key b) = fingerprint (binding_contract b)
     \<and> (\<exists>m. match_requirements (binding_requirements b) (binding_contract b) = Inr m \<and> compatible m)"

definition registry_ok :: "definition_env \<Rightarrow> definition_registry \<Rightarrow> bool" where
  "registry_ok de r \<longleftrightarrow>
     (\<forall>k d. reg_definitions r k = Some d \<longrightarrow> k = (def_id d, def_version d)
        \<and> (\<exists>bs. effective_model_bindings de d = Inr bs
             \<and> (\<forall>b \<in> set bs. binding_sound (reg_fingerprints r) b)))"

lemma binding_sound_mono: "binding_sound p b \<Longrightarrow> p \<subseteq>\<^sub>m p' \<Longrightarrow> binding_sound p' b"
  unfolding binding_sound_def map_le_def by (metis domIff)

lemma check_binding_ok:
  assumes "check_binding de d b (prints, known) = Inr (prints', known')"
  shows "prints \<subseteq>\<^sub>m prints' \<and> binding_sound prints' b"
  using assms
  by (auto simp: check_binding_def binding_sound_def contract_key_def map_le_def Let_def bindE_eq_Inr
      split: option.splits if_splits)

lemma check_bindings_ok:
  "check_bindings de d bs (prints, known) = Inr prints' \<Longrightarrow>
     prints \<subseteq>\<^sub>m prints' \<and> (\<forall>b \<in> set bs. binding_sound prints' b)"
proof (induction bs arbitrary: prints known)
  case (Cons b bs)
  then obtain p1 k1 where st: "check_binding de d b (prints, known) = Inr (p1, k1)"
    and rest: "check_bindings de d bs (p1, k1) = Inr prints'" by (auto simp: bindE_eq_Inr)
  have grown: "p1 \<subseteq>\<^sub>m prints'" and others: "\<forall>c \<in> set bs. binding_sound prints' c"
    using Cons.IH [OF rest] by auto
  have "prints \<subseteq>\<^sub>m p1" and "binding_sound p1 b" using check_binding_ok [OF st] by auto
  moreover from this have "binding_sound prints' b" using grown binding_sound_mono by blast
  ultimately show ?case using grown others by (auto intro: map_le_trans)
qed (auto simp: map_le_def)

lemma registerE:
  assumes "register de d r = (Inr (), r')"
  obtains bs prints where "reg_definitions r (def_id d, def_version d) = None"
    and "effective_model_bindings de d = Inr bs"
    and "check_bindings de d bs (reg_fingerprints r, Map.empty) = Inr prints"
    and "r' = r\<lparr>reg_definitions := (reg_definitions r)((def_id d, def_version d) \<mapsto> d),
                reg_fingerprints := prints\<rparr>"
  using assms by (auto simp: register_def bindE_eq_Inr split: if_splits sum.splits)

lemma register_failed: "register de d r = (Inl e, r') \<Longrightarrow> r' = r"
  by (auto simp: register_def split: if_splits sum.splits)

lemma register_keeps:
  assumes "reg_definitions r k = Some d0"
  shows "reg_definitions (snd (register de d r)) k = Some d0"
  using assms by (auto simp: register_def split: sum.splits)

lemma register_ok:
  assumes "registry_ok de r"
  shows "registry_ok de (snd (register de d r))"
proof (cases "register de d r")
  case (Pair res r')
  show ?thesis
  proof (cases res)
    case (Inl e)
    then show ?thesis using Pair assms register_failed [of de d r e r'] by simp
  next
    case (Inr x)
    then have "register de d r = (Inr (), r')" using Pair by simp
    then obtain bs prints where bs: "effective_model_bindings de d = Inr bs"
      and c: "check_bindings de d bs (reg_fingerprints r, Map.empty) = Inr prints"
      and r': "r' = r\<lparr>reg_definitions := (reg_definitions r)((def_id d, def_version d) \<mapsto> d),
                reg_fingerprints := prints\<rparr>" by (rule registerE)
    have grown: "reg_fingerprints r \<subseteq>\<^sub>m prints" and new: "\<forall>b \<in> set bs. binding_sound prints b"
      using check_bindings_ok [OF c] by auto
    have keep: "binding_sound (reg_fingerprints r) b \<Longrightarrow> binding_sound prints b" for b
      using grown binding_sound_mono by blast
    show ?thesis unfolding registry_ok_def
    proof (intro allI impI)
      fix k d1 assume d1: "reg_definitions (snd (register de d r)) k = Some d1"
      have "reg_definitions (snd (register de d r)) = (reg_definitions r)((def_id d, def_version d) \<mapsto> d)"
        by (simp add: Pair r')
      with d1 consider "k = (def_id d, def_version d)" "d1 = d" | "reg_definitions r k = Some d1"
        by (metis fun_upd_apply option.inject)
      then show "k = (def_id d1, def_version d1) \<and> (\<exists>bs. effective_model_bindings de d1 = Inr bs
          \<and> (\<forall>b \<in> set bs. binding_sound (reg_fingerprints (snd (register de d r))) b))"
      proof cases
        case 1
        then show ?thesis using bs new by (simp add: Pair r')
      next
        case 2
        then obtain bs1 where "k = (def_id d1, def_version d1)" "effective_model_bindings de d1 = Inr bs1"
          "\<forall>b \<in> set bs1. binding_sound (reg_fingerprints r) b"
          using assms unfolding registry_ok_def by blast
        moreover have "reg_fingerprints (snd (register de d r)) = prints" by (simp add: Pair r')
        ultimately show ?thesis using keep by metis
      qed
    qed
  qed
qed

lemma registry_ok_empty: "registry_ok de empty_registry"
  by (simp add: registry_ok_def empty_registry_def)

lemma registry_run_ok:
  "registry_ok de r \<Longrightarrow> registry_ok de (run_all (\<lambda>d r. ((), snd (register de d r))) ds r)"
  by (induction ds arbitrary: r) (simp_all add: register_ok)

lemma registry_run_keeps:
  "reg_definitions r k = Some d0 \<Longrightarrow>
     reg_definitions (run_all (\<lambda>d r. ((), snd (register de d r))) ds r) k = Some d0"
  by (induction ds arbitrary: r) (simp_all add: register_keeps)

lemma frozen_snapshot_total:
  "effective_model_bindings de d = Inr bs \<Longrightarrow>
     \<exists>s. frozen_snapshot de d = Inr s \<and> snap_model_bindings s = Some bs
       \<and> snap_definition_id s = def_id d \<and> snap_version s = def_version d"
  by (simp add: frozen_snapshot_def validate_model_snapshot_shape_def)

end
