(* ===== verification/Eval_Data.thy ===== *)
theory Eval_Data
  imports Model_Contract Context_Plan
begin

text \<open>
  Eval cases and suites, \<open>src/src/m_agent/companion/eval/_case.py\<close> and \<open>_identity.py\<close>: the frozen
  declarations, their validators, and the expansion of a suite into items. SHA-256 and the JSON
  text of a value are parameters, as is the JSON value \<open>model_dump\<close> gives for a case.
\<close>

section \<open>Identities\<close>

fun joined :: "pystr list \<Rightarrow> pystr" where
  "joined [] = []"
| "joined [x] = x"
| "joined (x # y # ys) = x @ 10 # joined (y # ys)"

record eval_variant =
  evv_id :: ident
  evv_definition_id :: ident
  evv_definition_version :: ident

record fixture_fact =
  fact_id :: ident
  fact_payload :: pystr

record fixture_bundle =
  bundle_id :: ident
  bundle_facts :: "fixture_fact list"
  declared_external_effects :: "ident list"
  expected_evidence_ids :: "ident list"
  bundle_digest :: string

record execution_protocol =
  proto_deterministic :: bool
  repetitions :: int
  proto_seed :: "pystr option"

record evaluator_ref =
  evaluator_id :: ident
  evaluator_version :: ident

record eval_case =
  case_id :: ident
  case_input :: pystr
  case_history :: "conversation_message list"
  case_variant :: eval_variant
  fixture_bundle_of :: fixture_bundle
  execution_protocol_of :: execution_protocol
  case_evaluators :: "evaluator_ref list"
  case_tags :: "ident list"
  case_required_capabilities :: "model_capabilities option"

record eval_suite_item =
  item_id :: ident
  item_suite_id :: ident
  item_suite_version :: ident
  item_case_id :: ident
  item_variant :: eval_variant
  repetition_index :: nat

record eval_suite =
  suite_id :: ident
  suite_version :: ident
  suite_cases :: "eval_case list"
  suite_variants :: "eval_variant list"

record eval_digests =
  sha256_hex :: "pystr \<Rightarrow> ident"
  canonical_json :: "json \<Rightarrow> pystr"
  dump_case :: "eval_case \<Rightarrow> json"

definition digest_of :: "eval_digests \<Rightarrow> pystr list \<Rightarrow> ident" where
  "digest_of d parts = sha256_hex d (joined parts)"

definition evidence_digest :: "eval_digests \<Rightarrow> ident \<Rightarrow> ident \<Rightarrow> pystr \<Rightarrow> ident" where
  "evidence_digest d artifact_id subject_ref payload =
     digest_of d [ustr ''m-agent-evidence-v1'', ustr artifact_id, ustr subject_ref, payload]"

section \<open>Validators\<close>

definition validate_eval_variant :: "eval_variant \<Rightarrow> exn + eval_variant" where
  "validate_eval_variant v =
     (if blank_ident (evv_id v) \<or> blank_ident (evv_definition_id v) \<or> blank_ident (evv_definition_version v)
      then Inl ValueError else Inr v)"

definition jstr :: "ident \<Rightarrow> json" where
  "jstr s = JStr (ustr s)"

definition bundle_content_digest ::
  "eval_digests \<Rightarrow> ident \<Rightarrow> fixture_fact list \<Rightarrow> ident list \<Rightarrow> ident list \<Rightarrow> ident" where
  "bundle_content_digest d bid facts effects evidence =
     sha256_hex d (canonical_json d (JObj
       [(ustr ''bundle_id'', jstr bid),
        (ustr ''facts'', JArr (map (\<lambda>f. JObj [(ustr ''fact_id'', jstr (fact_id f)), (ustr ''payload'', JStr (fact_payload f))]) facts)),
        (ustr ''declared_external_effects'', JArr (map jstr (sort effects))),
        (ustr ''expected_evidence_ids'', JArr (map jstr (sort evidence)))]))"

definition validate_bundle :: "eval_digests \<Rightarrow> fixture_bundle \<Rightarrow> exn + fixture_bundle" where
  "validate_bundle d b =
     (if bundle_id b = [] \<or> length (bundle_digest b) \<noteq> 64 \<or> list_ex (\<lambda>f. fact_id f = []) (bundle_facts b) then Inl ValueError
      else if bundle_digest b \<noteq> bundle_content_digest d (bundle_id b) (bundle_facts b)
             (declared_external_effects b) (expected_evidence_ids b) then Inl ValueError
      else Inr b)"

definition build_bundle ::
  "eval_digests \<Rightarrow> ident \<Rightarrow> fixture_fact list \<Rightarrow> ident list \<Rightarrow> ident list \<Rightarrow> exn + fixture_bundle" where
  "build_bundle d bid facts effects evidence =
     validate_bundle d \<lparr>bundle_id = bid, bundle_facts = facts, declared_external_effects = effects,
       expected_evidence_ids = evidence, bundle_digest = bundle_content_digest d bid facts effects evidence\<rparr>"

definition validate_protocol :: "execution_protocol \<Rightarrow> exn + execution_protocol" where
  "validate_protocol p =
     (if repetitions p < 1 then Inl ValueError
      else if proto_deterministic p then (if repetitions p \<noteq> 1 then Inl ValueError else Inr p)
      else if (case proto_seed p of None \<Rightarrow> True | Some s \<Rightarrow> blank s) then Inl ValueError
      else Inr p)"

definition validate_evaluator_ref :: "evaluator_ref \<Rightarrow> exn + evaluator_ref" where
  "validate_evaluator_ref r = (if evaluator_id r = [] \<or> evaluator_version r = [] then Inl ValueError else Inr r)"

text \<open>The parts of a case are validated when they are built; what remains is the case itself.\<close>

definition validate_eval_case :: "eval_case \<Rightarrow> exn + eval_case" where
  "validate_eval_case c =
     (if case_evaluators c = [] \<or> blank_ident (case_id c) then Inl ValueError else Inr c)"

definition validate_suite :: "eval_suite \<Rightarrow> exn + eval_suite" where
  "validate_suite s =
     (if suite_id s = [] \<or> suite_version s = [] \<or> suite_cases s = [] \<or> suite_variants s = [] then Inl ValueError
      else if \<not> distinct (map case_id (suite_cases s)) then Inl ValueError
      else if \<not> distinct (map evv_id (suite_variants s)) then Inl ValueError
      else Inr s)"

section \<open>Suites\<close>

definition item_identity :: "eval_digests \<Rightarrow> eval_suite \<Rightarrow> eval_case \<Rightarrow> eval_variant \<Rightarrow> nat \<Rightarrow> ident" where
  "item_identity d s c v i =
     digest_of d [ustr ''eval-suite-item'', ustr (suite_id s), ustr (suite_version s), ustr (case_id c),
       ustr (evv_id v), ustr (dec i)]"

definition suite_item :: "eval_digests \<Rightarrow> eval_suite \<Rightarrow> eval_case \<Rightarrow> eval_variant \<Rightarrow> nat \<Rightarrow> eval_suite_item" where
  "suite_item d s c v i =
     \<lparr>item_id = item_identity d s c v i, item_suite_id = suite_id s, item_suite_version = suite_version s,
      item_case_id = case_id c, item_variant = v, repetition_index = i\<rparr>"

definition case_repetitions :: "eval_case \<Rightarrow> nat" where
  "case_repetitions c = nat (repetitions (execution_protocol_of c))"

definition expand_case :: "eval_digests \<Rightarrow> eval_suite \<Rightarrow> eval_case \<Rightarrow> exn + eval_suite_item list" where
  "expand_case d s c =
     (if case_variant c \<notin> set (suite_variants s) then Inl EvalSuiteError
      else Inr (concat (map (\<lambda>v. map (suite_item d s c v) [0..<case_repetitions c]) (suite_variants s))))"

definition expand :: "eval_digests \<Rightarrow> eval_suite \<Rightarrow> exn + eval_suite_item list" where
  "expand d s = bindE (mapE (expand_case d s) (suite_cases s)) (\<lambda>iss. Inr (concat iss))"

definition suite_content_digest :: "eval_digests \<Rightarrow> eval_suite \<Rightarrow> ident" where
  "suite_content_digest d s =
     sha256_hex d (canonical_json d (JObj
       [(ustr ''suite_id'', jstr (suite_id s)), (ustr ''version'', jstr (suite_version s)),
        (ustr ''cases'', JArr (map (dump_case d) (suite_cases s))),
        (ustr ''variants'', JArr (map (\<lambda>v. JObj
          [(ustr ''variant_id'', jstr (evv_id v)), (ustr ''definition_id'', jstr (evv_definition_id v)),
           (ustr ''definition_version'', jstr (evv_definition_version v))]) (suite_variants s)))]))"

definition case_by_id :: "eval_suite \<Rightarrow> ident \<Rightarrow> exn + eval_case" where
  "case_by_id s cid = (case find (\<lambda>c. case_id c = cid) (suite_cases s) of None \<Rightarrow> Inl EvalSuiteError | Some c \<Rightarrow> Inr c)"

section \<open>What an expansion contains\<close>

lemma expand_raises:
  "isl (expand d s) \<longleftrightarrow> (\<exists>c \<in> set (suite_cases s). case_variant c \<notin> set (suite_variants s))"
proof -
  have "isl (mapE (expand_case d s) cs) \<longleftrightarrow> (\<exists>c \<in> set cs. case_variant c \<notin> set (suite_variants s))" for cs
    by (induction cs) (auto simp: expand_case_def bindE_def isl_def split: sum.splits)
  then show ?thesis by (cases "mapE (expand_case d s) (suite_cases s)") (force simp: expand_def isl_def)+
qed

definition expansion :: "eval_digests \<Rightarrow> eval_suite \<Rightarrow> eval_suite_item list" where
  "expansion d s = concat (map (\<lambda>c. concat (map (\<lambda>v. map (suite_item d s c v) [0..<case_repetitions c]) (suite_variants s)))
     (suite_cases s))"

lemma expand_eq:
  assumes "expand d s = Inr items"
  shows "items = expansion d s"
proof -
  have "mapE (expand_case d s) cs = Inr iss \<Longrightarrow>
      concat iss = concat (map (\<lambda>c. concat (map (\<lambda>v. map (suite_item d s c v) [0..<case_repetitions c]) (suite_variants s))) cs)"
    for cs iss
    by (induction cs arbitrary: iss) (auto simp: bindE_eq_Inr expand_case_def split: if_splits)
  with assms show ?thesis by (auto simp: expand_def bindE_eq_Inr expansion_def)
qed

lemma expand_mem:
  assumes "expand d s = Inr items"
  shows "item \<in> set items \<longleftrightarrow> (\<exists>c \<in> set (suite_cases s). \<exists>v \<in> set (suite_variants s). \<exists>i < case_repetitions c.
     item = suite_item d s c v i)"
proof -
  have "set items = (\<Union>c \<in> set (suite_cases s). \<Union>v \<in> set (suite_variants s). suite_item d s c v ` {0..<case_repetitions c})"
    by (simp add: expand_eq [OF assms] expansion_def)
  then show ?thesis by (auto simp only: UN_iff image_iff atLeast0LessThan lessThan_iff Bex_def)
qed

lemma case_by_id_unique:
  assumes "distinct (map case_id (suite_cases s))" and "c \<in> set (suite_cases s)"
  shows "case_by_id s (case_id c) = Inr c"
proof -
  have "find (\<lambda>c'. case_id c' = case_id c) cs = Some c" if "distinct (map case_id cs)" "c \<in> set cs" for cs
    using that by (induction cs) (auto simp: image_iff)
  with assms show ?thesis by (simp add: case_by_id_def)
qed

section \<open>Identities of items\<close>

text \<open>
  \<open>digest_of\<close> joins its parts by newlines, so it tells apart lists of parts without newlines but
  not where a newline inside a part ends.
\<close>

lemma joined_Cons: "ys \<noteq> [] \<Longrightarrow> joined (x # ys) = x @ 10 # joined ys"
  by (cases ys) simp_all

lemma append_sep_inj:
  "c \<notin> set xs \<Longrightarrow> c \<notin> set ys \<Longrightarrow> xs @ c # us = ys @ c # vs \<Longrightarrow> xs = ys \<and> us = vs"
  by (induction xs arbitrary: ys; rename_tac ys, case_tac ys; auto)

lemma joined_inj:
  "length xs = length ys \<Longrightarrow> \<forall>x \<in> set xs \<union> set ys. 10 \<notin> set x \<Longrightarrow> joined xs = joined ys \<Longrightarrow> xs = ys"
proof (induction xs ys rule: list_induct2)
  case (Cons x xs y ys)
  show ?case
  proof (cases "xs = []")
    case True
    with Cons show ?thesis by simp
  next
    case False
    with Cons.hyps have "ys \<noteq> []" by auto
    with False Cons.prems(2) have "x @ 10 # joined xs = y @ 10 # joined ys" by (simp add: joined_Cons)
    with append_sep_inj [of 10 x y] Cons.prems(1) have "x = y \<and> joined xs = joined ys" by simp
    with Cons show ?thesis by simp
  qed
qed simp

lemma newline_ambiguous: "joined (us @ (a @ 10 # b) # c # vs) = joined (us @ a # (b @ 10 # c) # vs)"
proof -
  have "joined ((a @ 10 # b) # c # vs) = joined (a # (b @ 10 # c) # vs)" by (cases vs) simp_all
  then show ?thesis by (induction us) (simp_all add: joined_Cons)
qed

definition newline_free :: "ident \<Rightarrow> bool" where
  "newline_free s \<longleftrightarrow> 10 \<notin> set (ustr s)"

definition suite_newline_free :: "eval_suite \<Rightarrow> bool" where
  "suite_newline_free s \<longleftrightarrow> newline_free (suite_id s) \<and> newline_free (suite_version s)
     \<and> list_all (\<lambda>c. newline_free (case_id c)) (suite_cases s) \<and> list_all (\<lambda>v. newline_free (evv_id v)) (suite_variants s)"

lemma dec_newline_free: "newline_free (dec n)"
proof (induction n rule: dec.induct)
  case (1 n)
  have d: "of_char (digit m) \<noteq> (10::nat)" if "m < 10" for m using that by (simp add: of_char_digit)
  show ?case
  proof (cases "n < 10")
    case True
    with d show ?thesis by (subst dec.simps) (simp add: newline_free_def ustr_def)
  next
    case False
    with 1 d [of "n mod 10"] show ?thesis by (subst dec.simps) (simp add: newline_free_def ustr_def)
  qed
qed

lemma item_identity_inj:
  assumes "inj (sha256_hex d)" and "suite_newline_free s"
    and "c \<in> set (suite_cases s)" "c' \<in> set (suite_cases s)" "v \<in> set (suite_variants s)" "v' \<in> set (suite_variants s)"
    and "item_identity d s c v i = item_identity d s c' v' j"
  shows "case_id c = case_id c' \<and> evv_id v = evv_id v' \<and> i = j"
proof -
  have "joined [ustr ''eval-suite-item'', ustr (suite_id s), ustr (suite_version s), ustr (case_id c), ustr (evv_id v), ustr (dec i)]
      = joined [ustr ''eval-suite-item'', ustr (suite_id s), ustr (suite_version s), ustr (case_id c'), ustr (evv_id v'), ustr (dec j)]"
    using assms(1,7) by (simp add: item_identity_def digest_of_def inj_eq del: joined.simps)
  moreover have "newline_free ''eval-suite-item''" by (simp add: newline_free_def ustr_def)
  ultimately have "[ustr (case_id c), ustr (evv_id v), ustr (dec i)] = [ustr (case_id c'), ustr (evv_id v'), ustr (dec j)]"
    using joined_inj [of "[ustr ''eval-suite-item'', ustr (suite_id s), ustr (suite_version s), ustr (case_id c), ustr (evv_id v), ustr (dec i)]"
        "[ustr ''eval-suite-item'', ustr (suite_id s), ustr (suite_version s), ustr (case_id c'), ustr (evv_id v'), ustr (dec j)]"]
      assms(2-6) dec_newline_free
    by (auto simp: suite_newline_free_def newline_free_def list_all_iff simp del: joined.simps)
  then show ?thesis using dec_inj by simp
qed

lemma distinct_concat_map:
  assumes "distinct xs" and "\<And>x. x \<in> set xs \<Longrightarrow> distinct (f x)"
    and "\<And>x y. x \<in> set xs \<Longrightarrow> y \<in> set xs \<Longrightarrow> x \<noteq> y \<Longrightarrow> set (f x) \<inter> set (f y) = {}"
  shows "distinct (concat (map f xs))"
  using assms by (induction xs) auto

lemma expansion_ids:
  "map item_id (expansion d s) = concat (map (\<lambda>c. concat (map (\<lambda>v. map (item_identity d s c v) [0..<case_repetitions c])
     (suite_variants s))) (suite_cases s))"
  by (simp add: expansion_def map_concat suite_item_def comp_def)

lemma item_ids_distinct:
  assumes inj: "inj (sha256_hex d)" and nl: "suite_newline_free s" and v: "validate_suite s = Inr s"
    and e: "expand d s = Inr items"
  shows "distinct (map item_id items)"
proof -
  have ids: "distinct (map case_id (suite_cases s))" "distinct (map evv_id (suite_variants s))"
    using v by (auto simp: validate_suite_def split: if_splits)
  note same = item_identity_inj [OF inj nl]
  have cases: "c = c'" if "c \<in> set (suite_cases s)" "c' \<in> set (suite_cases s)" "case_id c = case_id c'" for c c'
    using ids(1) that by (auto simp: distinct_map dest: inj_onD)
  have vars: "v = v'" if "v \<in> set (suite_variants s)" "v' \<in> set (suite_variants s)" "evv_id v = evv_id v'" for v v'
    using ids(2) that by (auto simp: distinct_map dest: inj_onD)
  have "distinct (concat (map (\<lambda>c. concat (map (\<lambda>v. map (item_identity d s c v) [0..<case_repetitions c])
     (suite_variants s))) (suite_cases s)))"
  proof (intro distinct_concat_map)
    show "distinct (suite_cases s)" "distinct (suite_variants s)" using ids by (simp_all add: distinct_map)
    fix c assume c: "c \<in> set (suite_cases s)"
    show "distinct (map (item_identity d s c v) [0..<case_repetitions c])" if "v \<in> set (suite_variants s)" for v
      using same [OF c c that that] by (auto simp: distinct_map inj_on_def)
    show "set (map (item_identity d s c v) [0..<case_repetitions c]) \<inter>
        set (map (item_identity d s c v') [0..<case_repetitions c]) = {}"
      if "v \<in> set (suite_variants s)" "v' \<in> set (suite_variants s)" "v \<noteq> v'" for v v'
      using same [OF c c that(1,2)] vars [OF that(1,2)] that(3) by auto
    show "set (concat (map (\<lambda>v. map (item_identity d s c v) [0..<case_repetitions c]) (suite_variants s))) \<inter>
        set (concat (map (\<lambda>v. map (item_identity d s c' v) [0..<case_repetitions c']) (suite_variants s))) = {}"
      if "c' \<in> set (suite_cases s)" "c \<noteq> c'" for c'
      using same [OF c that(1)] cases [OF c that(1)] that(2) by fastforce
  qed
  then show ?thesis by (simp add: expand_eq [OF e] expansion_ids)
qed

lemma item_ids_collide:
  assumes "case_id c = a @ CHR 0x0A # b" and "evv_id v = z"
    and "case_id c' = a" and "evv_id v' = b @ CHR 0x0A # z"
  shows "item_identity d s c v i = item_identity d s c' v' i"
  using newline_ambiguous [of "[ustr ''eval-suite-item'', ustr (suite_id s), ustr (suite_version s)]"
      "ustr a" "ustr b" "ustr z" "[ustr (dec i)]"] assms
  by (simp add: item_identity_def digest_of_def ustr_def del: joined.simps)

end
