(* ===== verification/Payload_Codec.thy ===== *)
theory Payload_Codec
  imports Json
begin

text \<open>
  The Run Payload codec boundary, \<open>src/src/m_agent/_codec.py\<close>. The interface is a locale:
  what the stores rely on is that decoding returns what was encoded. The plaintext codec
  of the module, a prefix followed by strict UTF-8, is proved to satisfy it.
\<close>

locale payload_codec =
  fixes encode :: "pystr \<Rightarrow> exn + pybytes" and decode :: "pybytes \<Rightarrow> exn + pystr"
  assumes decode_encode: "encode p = Inr b \<Longrightarrow> decode b = Inr p"
begin

lemma encode_inj: "encode p = Inr b \<Longrightarrow> encode q = Inr b \<Longrightarrow> p = q"
  using decode_encode [of p b] decode_encode [of q b] by simp

end

section \<open>Strict UTF-8\<close>

text \<open>
  \<open>str.encode("utf-8")\<close> fails on surrogate code points (which a Python string may hold);
  \<open>bytes.decode("utf-8")\<close> rejects truncated, overlong, surrogate and out-of-range forms.
\<close>

definition is_surrogate :: "nat \<Rightarrow> bool" where
  "is_surrogate c \<longleftrightarrow> 0xD800 \<le> c \<and> c \<le> 0xDFFF"

definition utf8_char :: "nat \<Rightarrow> exn + pybytes" where
  "utf8_char c =
     (if c < 0x80 then Inr [c]
      else if c < 0x800 then Inr [0xC0 + c div 64, 0x80 + c mod 64]
      else if is_surrogate c then Inl UnicodeEncodeError
      else if c < 0x10000 then Inr [0xE0 + c div 4096, 0x80 + c div 64 mod 64, 0x80 + c mod 64]
      else if c < 0x110000 then
        Inr [0xF0 + c div 262144, 0x80 + c div 4096 mod 64, 0x80 + c div 64 mod 64, 0x80 + c mod 64]
      else Inl UnicodeEncodeError)"

fun utf8_encode :: "pystr \<Rightarrow> exn + pybytes" where
  "utf8_encode [] = Inr []"
| "utf8_encode (c # cs) =
     bindE (utf8_char c) (\<lambda>b. bindE (utf8_encode cs) (\<lambda>bs. Inr (b @ bs)))"

definition cont :: "nat \<Rightarrow> bool" where
  "cont b \<longleftrightarrow> 0x80 \<le> b \<and> b < 0xC0"

definition push :: "nat \<Rightarrow> exn + pystr \<Rightarrow> exn + pystr" where
  "push c r = bindE r (\<lambda>cs. Inr (c # cs))"

fun utf8_decode :: "pybytes \<Rightarrow> exn + pystr" where
  "utf8_decode [] = Inr []"
| "utf8_decode (b # bs) =
     (if b < 0x80 then push b (utf8_decode bs)
      else if 0xC2 \<le> b \<and> b \<le> 0xDF then
        (case bs of
           c1 # r \<Rightarrow> if cont c1 then push ((b - 0xC0) * 64 + (c1 - 0x80)) (utf8_decode r)
                     else Inl UnicodeDecodeError
         | _ \<Rightarrow> Inl UnicodeDecodeError)
      else if 0xE0 \<le> b \<and> b \<le> 0xEF then
        (case bs of
           c1 # c2 # r \<Rightarrow>
             let c = (b - 0xE0) * 4096 + (c1 - 0x80) * 64 + (c2 - 0x80) in
             if cont c1 \<and> cont c2 \<and> 0x800 \<le> c \<and> \<not> is_surrogate c then push c (utf8_decode r)
             else Inl UnicodeDecodeError
         | _ \<Rightarrow> Inl UnicodeDecodeError)
      else if 0xF0 \<le> b \<and> b \<le> 0xF4 then
        (case bs of
           c1 # c2 # c3 # r \<Rightarrow>
             let c = (b - 0xF0) * 262144 + (c1 - 0x80) * 4096 + (c2 - 0x80) * 64 + (c3 - 0x80) in
             if cont c1 \<and> cont c2 \<and> cont c3 \<and> 0x10000 \<le> c \<and> c < 0x110000
             then push c (utf8_decode r) else Inl UnicodeDecodeError
         | _ \<Rightarrow> Inl UnicodeDecodeError)
      else Inl UnicodeDecodeError)"

lemma push_eq_Inr: "push c r = Inr y \<longleftrightarrow> (\<exists>cs. r = Inr cs \<and> y = c # cs)"
  by (auto simp: push_def bindE_eq_Inr)

lemma div_split:
  fixes c :: nat
  shows "c div 64 div 64 = c div 4096" and "c div 4096 div 64 = c div 262144"
  by (simp_all add: div_mult2_eq [symmetric])

lemma recombine2: "c div 64 * 64 + c mod 64 = (c :: nat)"
  by simp

lemma recombine3: "c div 4096 * 4096 + c div 64 mod 64 * 64 + c mod 64 = (c :: nat)"
proof -
  have "c div 64 = c div 4096 * 64 + c div 64 mod 64"
    using div_mult_mod_eq [of "c div 64" 64] by (simp add: div_split)
  moreover have "c = c div 64 * 64 + c mod 64" by simp
  ultimately show ?thesis by linarith
qed

lemma recombine4:
  "c div 262144 * 262144 + c div 4096 mod 64 * 4096 + c div 64 mod 64 * 64 + c mod 64 = (c :: nat)"
proof -
  have "c div 4096 = c div 262144 * 64 + c div 4096 mod 64"
    using div_mult_mod_eq [of "c div 4096" 64] by (simp add: div_split)
  with recombine3 [of c] show ?thesis by linarith
qed

lemma utf8_decode_char:
  assumes "utf8_char c = Inr b"
  shows "utf8_decode (b @ bs) = push c (utf8_decode bs)"
proof -
  consider (one) "c < 0x80" | (two) "0x80 \<le> c" "c < 0x800"
    | (three) "0x800 \<le> c" "c < 0x10000" "\<not> is_surrogate c"
    | (four) "0x10000 \<le> c" "c < 0x110000"
    using assms by (force simp: utf8_char_def split: if_splits)
  then show ?thesis
  proof cases
    case one
    then show ?thesis using assms by (auto simp: utf8_char_def)
  next
    case two
    then have "2 \<le> c div 64" "c div 64 \<le> 31" by auto
    then show ?thesis using assms two by (auto simp: utf8_char_def cont_def)
  next
    case three
    then have "c div 4096 \<le> 15" by auto
    then show ?thesis using assms three recombine3 [of c]
      by (auto simp: utf8_char_def cont_def Let_def)
  next
    case four
    then have "c div 262144 \<le> 4" by auto
    moreover have "\<not> is_surrogate c" using four by (simp add: is_surrogate_def)
    ultimately show ?thesis using assms four recombine4 [of c]
      by (auto simp: utf8_char_def cont_def Let_def)
  qed
qed

lemma utf8_roundtrip: "utf8_encode p = Inr b \<Longrightarrow> utf8_decode b = Inr p"
  by (induction p arbitrary: b) (auto simp: bindE_eq_Inr utf8_decode_char push_eq_Inr)

lemma utf8_char_ok: "(\<exists>b. utf8_char c = Inr b) \<longleftrightarrow> c < 0x110000 \<and> \<not> is_surrogate c"
  by (auto simp: utf8_char_def is_surrogate_def)

lemma utf8_encode_ok:
  "(\<exists>b. utf8_encode p = Inr b) \<longleftrightarrow> (\<forall>c \<in> set p. c < 0x110000 \<and> \<not> is_surrogate c)"
proof (induction p)
  case (Cons c p)
  have "(\<exists>b. utf8_encode (c # p) = Inr b) \<longleftrightarrow>
      (\<exists>b. utf8_char c = Inr b) \<and> (\<exists>b. utf8_encode p = Inr b)"
    by (auto simp: bindE_eq_Inr)
  also have "\<dots> \<longleftrightarrow> (\<forall>d \<in> set (c # p). d < 0x110000 \<and> \<not> is_surrogate d)"
    by (simp only: utf8_char_ok Cons.IH) simp
  finally show ?case .
qed simp

text \<open>The decoder accepts exactly the image of the encoder: every text has one byte form.\<close>

lemma contE:
  assumes "cont c"
  obtains y where "c = 0x80 + y" and "y < 64"
proof -
  have "c = 0x80 + (c - 0x80)" and "c - 0x80 < 64" using assms unfolding cont_def by linarith+
  then show thesis by (rule that)
qed

lemma digits64: "y < 64 \<Longrightarrow> (n * 64 + y) div 64 = n \<and> (n * 64 + y) mod 64 = (y :: nat)"
  by simp

lemma utf8_char_two:
  assumes "0xC2 \<le> b" "b \<le> 0xDF" "cont c1"
  shows "utf8_char ((b - 0xC0) * 64 + (c1 - 0x80)) = Inr [b, c1]"
proof -
  obtain x where x: "b = 0xC2 + x" using assms(1) le_Suc_ex by blast
  obtain y where y: "c1 = 0x80 + y" "y < 64" using assms(3) by (rule contE)
  have "b - 0xC0 = x + 2" by (simp add: x)
  then show ?thesis using assms(2) digits64 [OF y(2), of "x + 2"] y by (simp add: x utf8_char_def)
qed

lemma utf8_char_three:
  assumes b: "0xE0 \<le> b" "b \<le> 0xEF" "cont c1" "cont c2"
    and c: "c = (b - 0xE0) * 4096 + (c1 - 0x80) * 64 + (c2 - 0x80)" "0x800 \<le> c" "\<not> is_surrogate c"
  shows "utf8_char c = Inr [b, c1, c2]"
proof -
  obtain x where x: "b = 0xE0 + x" using b(1) le_Suc_ex by blast
  obtain y z where y: "c1 = 0x80 + y" "y < 64" and z: "c2 = 0x80 + z" "z < 64"
    using b(3,4) by (elim contE) blast
  have c': "c = (x * 64 + y) * 64 + z" by (simp add: c(1) x y(1) z(1))
  have "c div 64 = x * 64 + y" "c mod 64 = z" "(x * 64 + y) div 64 = x" "(x * 64 + y) mod 64 = y"
    unfolding c' using digits64 [OF z(2), of "x * 64 + y"] digits64 [OF y(2), of x] by simp_all
  moreover have "c < 0x10000" using b(2) y(2) z(2) by (simp add: c' x)
  ultimately show ?thesis using c(2,3)
    by (simp add: utf8_char_def div_split(1) [symmetric] x y(1) z(1))
qed

lemma utf8_char_four:
  assumes b: "0xF0 \<le> b" "b \<le> 0xF4" "cont c1" "cont c2" "cont c3"
    and c: "c = (b - 0xF0) * 262144 + (c1 - 0x80) * 4096 + (c2 - 0x80) * 64 + (c3 - 0x80)"
      "0x10000 \<le> c" "c < 0x110000"
  shows "utf8_char c = Inr [b, c1, c2, c3]"
proof -
  obtain x where x: "b = 0xF0 + x" using b(1) le_Suc_ex by blast
  obtain y z w where y: "c1 = 0x80 + y" "y < 64" and z: "c2 = 0x80 + z" "z < 64"
    and w: "c3 = 0x80 + w" "w < 64"
    using b(3-5) by (elim contE) blast
  have c': "c = ((x * 64 + y) * 64 + z) * 64 + w" by (simp add: c(1) x y(1) z(1) w(1))
  have "c div 64 = (x * 64 + y) * 64 + z" "c mod 64 = w"
    "((x * 64 + y) * 64 + z) div 64 = x * 64 + y" "((x * 64 + y) * 64 + z) mod 64 = z"
    "(x * 64 + y) div 64 = x" "(x * 64 + y) mod 64 = y"
    unfolding c' using digits64 [OF w(2), of "(x * 64 + y) * 64 + z"]
      digits64 [OF z(2), of "x * 64 + y"] digits64 [OF y(2), of x] by simp_all
  moreover have "\<not> is_surrogate c" using c by (simp add: is_surrogate_def)
  ultimately show ?thesis using c(2,3)
    by (simp add: utf8_char_def div_split [symmetric] x y(1) z(1) w(1))
qed

lemma utf8_decode_canonical: "utf8_decode b = Inr p \<Longrightarrow> utf8_encode p = Inr b"
proof (induction b arbitrary: p rule: utf8_decode.induct)
  case 1
  then show ?case by simp
next
  case (2 b bs)
  consider (one) "b < 0x80" | (two) "0xC2 \<le> b \<and> b \<le> 0xDF"
    | (three) "0xE0 \<le> b \<and> b \<le> 0xEF" | (four) "0xF0 \<le> b \<and> b \<le> 0xF4"
    using "2.prems" by (force split: if_splits)
  then show ?case
  proof cases
    case one
    then obtain cs where "utf8_decode bs = Inr cs" "p = b # cs"
      using "2.prems" by (auto simp: push_eq_Inr)
    with one show ?thesis using "2.IH"(1) [of cs] by (simp add: utf8_char_def)
  next
    case two
    then obtain c1 r cs where "bs = c1 # r" "cont c1" "utf8_decode r = Inr cs"
      "p = ((b - 0xC0) * 64 + (c1 - 0x80)) # cs"
      using "2.prems" by (auto simp: push_eq_Inr split: list.splits if_splits)
    with two show ?thesis using "2.IH"(2) [of c1 r cs] by (simp add: utf8_char_two)
  next
    case three
    then obtain c1 c2 r cs c where f: "bs = c1 # c2 # r" "cont c1" "cont c2" "utf8_decode r = Inr cs"
      "c = (b - 0xE0) * 4096 + (c1 - 0x80) * 64 + (c2 - 0x80)" "0x800 \<le> c" "\<not> is_surrogate c"
      "p = c # cs"
      using "2.prems" by (auto simp: push_eq_Inr Let_def split: list.splits if_splits)
    have "utf8_encode cs = Inr r"
      using "2.IH"(3) [of c1 "c2 # r" c2 r c cs] three f by simp
    with f three show ?thesis using utf8_char_three [of b c1 c2 c] by simp
  next
    case four
    then obtain c1 c2 c3 r cs c where f: "bs = c1 # c2 # c3 # r" "cont c1" "cont c2" "cont c3"
      "utf8_decode r = Inr cs"
      "c = (b - 0xF0) * 262144 + (c1 - 0x80) * 4096 + (c2 - 0x80) * 64 + (c3 - 0x80)"
      "0x10000 \<le> c" "c < 0x110000" "p = c # cs"
      using "2.prems" by (auto simp: push_eq_Inr Let_def split: list.splits if_splits)
    have "utf8_encode cs = Inr r"
      using "2.IH"(4) [of c1 "c2 # c3 # r" c2 "c3 # r" c3 r c cs] four f by simp
    with f four show ?thesis using utf8_char_four [of b c1 c2 c3 c] by simp
  qed
qed

section \<open>The plaintext codec\<close>

definition PLAINTEXT_PREFIX :: pybytes where
  "PLAINTEXT_PREFIX = ustr ''m-agent-plaintext:''"

definition plaintext_encode :: "pystr \<Rightarrow> exn + pybytes" where
  "plaintext_encode payload = bindE (utf8_encode payload) (\<lambda>b. Inr (PLAINTEXT_PREFIX @ b))"

definition plaintext_decode :: "pybytes \<Rightarrow> exn + pystr" where
  "plaintext_decode encoded =
     (if take (length PLAINTEXT_PREFIX) encoded \<noteq> PLAINTEXT_PREFIX then Inl ValueError
      else utf8_decode (drop (length PLAINTEXT_PREFIX) encoded))"

interpretation plaintext: payload_codec plaintext_encode plaintext_decode
  by unfold_locales (auto simp: plaintext_encode_def plaintext_decode_def bindE_eq_Inr utf8_roundtrip)

lemma plaintext_rejects_foreign:
  "plaintext_decode encoded = Inr p \<Longrightarrow> \<exists>b. encoded = PLAINTEXT_PREFIX @ b \<and> utf8_decode b = Inr p"
  by (auto simp: plaintext_decode_def split: if_splits)
    (metis append_take_drop_id)

text \<open>Bytes decode to a text just when they are that text's encoding.\<close>

lemma plaintext_exact: "plaintext_decode b = Inr p \<longleftrightarrow> plaintext_encode p = Inr b"
  using plaintext.decode_encode plaintext_rejects_foreign utf8_decode_canonical
  by (fastforce simp: plaintext_encode_def)

end
