(* ===== verification/Run_Store.thy ===== *)
theory Run_Store
  imports Run_Data Payload_Codec
begin

text \<open>
  The Run Store: shared primitives of \<open>src/src/m_agent/_store.py\<close> (metadata/payload
  split and restore) and the in-memory implementation
  \<open>src/src/m_agent/adapters/_in_memory_store.py\<close>, every operation of it.

  Code outside the repository is a field of \<open>store_env\<close>: the payload codec the
  application configures, and the JSON (de)serialisation of snapshots and of the frozen
  history. \<open>now\<close> is the reading of the injected clock at the call, \<open>utc\<close> that of
  \<open>utc_now()\<close>. Each operation returns its result or exception together with the store
  it leaves behind.
\<close>

section \<open>Stored views\<close>

record run_lease =
  lease_run_id :: ident
  lease_owner :: ident
  lease_expires_at :: timestamp

record stored_run =
  sr_run_id :: ident
  sr_definition_id :: ident
  sr_definition_version :: ident
  sr_status :: run_status
  sr_snapshot :: "definition_snapshot option"
  sr_version :: int
  sr_waiting_reason :: "ident option"
  sr_waiting_step_id :: "ident option"
  sr_error_code :: "ident option"
  sr_lease_owner :: "ident option"
  sr_lease_expires_at :: "timestamp option"
  sr_created_at :: timestamp
  sr_updated_at :: timestamp

record stored_attempt =
  sa_attempt_id :: ident
  sa_step_id :: ident
  sa_run_id :: ident
  sa_status :: step_status
  sa_error :: "pystr option"
  sa_classification :: "failure_classification option"
  sa_error_code :: "ident option"
  sa_model_purpose :: "model_purpose option"
  sa_usage :: "model_usage option"
  sa_created_at :: timestamp

record stored_checkpoint =
  sc_run_id :: ident
  sc_step_id :: ident
  sc_attempt_id :: ident
  sc_step_type :: step_type
  sc_created_at :: timestamp

record store_env =
  env_encode :: "pystr \<Rightarrow> exn + pybytes"
  env_decode :: "pybytes \<Rightarrow> exn + pystr"
  env_dump_snapshot :: "definition_snapshot \<Rightarrow> pystr"
  env_load_snapshot :: "pystr \<Rightarrow> exn + definition_snapshot"
  env_dump_history :: "conversation_message list \<Rightarrow> pystr"
  env_load_history :: "pystr \<Rightarrow> exn + conversation_message list"

record run_store =
  runs :: "ident \<Rightarrow> stored_run option"
  payloads :: "ident \<times> string \<Rightarrow> pybytes option"
  steps :: "ident \<Rightarrow> step_record list option"
  attempts :: "ident \<Rightarrow> stored_attempt list option"
  checkpoints :: "ident \<Rightarrow> stored_checkpoint list option"
  policy_decisions :: "ident \<Rightarrow> policy_decision_record list option"

definition empty_store :: run_store where
  "empty_store = \<lparr>runs = Map.empty, payloads = Map.empty, steps = Map.empty,
     attempts = Map.empty, checkpoints = Map.empty, policy_decisions = Map.empty\<rparr>"

text \<open>\<open>d.get(k, [])\<close> on the four dicts of lists.\<close>

definition entries :: "('k \<Rightarrow> 'a list option) \<Rightarrow> 'k \<Rightarrow> 'a list" where
  "entries d k = (case d k of None \<Rightarrow> [] | Some xs \<Rightarrow> xs)"

section \<open>Payload fields\<close>

definition FIELD_RUN_INPUT :: string where "FIELD_RUN_INPUT = ''run:input''"
definition FIELD_RUN_OUTPUT :: string where "FIELD_RUN_OUTPUT = ''run:output''"
definition FIELD_RUN_SNAPSHOT :: string where "FIELD_RUN_SNAPSHOT = ''run:snapshot''"
definition FIELD_RUN_HISTORY :: string where "FIELD_RUN_HISTORY = ''run:history''"

definition attempt_output_field :: "ident \<Rightarrow> string" where
  "attempt_output_field aid = ''attempt:'' @ aid @ '':output''"

definition attempt_error_field :: "ident \<Rightarrow> string" where
  "attempt_error_field aid = ''attempt:'' @ aid @ '':error''"

definition checkpoint_output_field :: "ident \<Rightarrow> string" where
  "checkpoint_output_field sid = ''checkpoint:'' @ sid @ '':output''"

text \<open>
  A \<open>dict[str, bytes]\<close> of encoded payloads is built left to right; encoding may raise.
  \<open>optional\<close> is an entry guarded by an \<open>is not None\<close> (or non-empty) test.
\<close>

type_synonym payload_entries = "(string \<times> pybytes) list"

definition encode_field :: "store_env \<Rightarrow> string \<Rightarrow> pystr \<Rightarrow> exn + payload_entries" where
  "encode_field env field text = bindE (env_encode env text) (\<lambda>b. Inr [(field, b)])"

definition encode_optional :: "store_env \<Rightarrow> string \<Rightarrow> pystr option \<Rightarrow> exn + payload_entries" where
  "encode_optional env field text =
     (case text of None \<Rightarrow> Inr [] | Some t \<Rightarrow> encode_field env field t)"

definition append_entries ::
  "exn + payload_entries \<Rightarrow> exn + payload_entries \<Rightarrow> exn + payload_entries" where
  "append_entries a b = bindE a (\<lambda>xs. bindE b (\<lambda>ys. Inr (xs @ ys)))"

section \<open>Splitting and restoring\<close>

definition snapshot_metadata :: "definition_snapshot option \<Rightarrow> definition_snapshot option" where
  "snapshot_metadata snapshot = map_option (\<lambda>s. s\<lparr>snap_instructions := []\<rparr>) snapshot"

definition restore_snapshot ::
  "store_env \<Rightarrow> definition_snapshot option \<Rightarrow> pystr option \<Rightarrow> exn + definition_snapshot option" where
  "restore_snapshot env metadata payload =
     (case metadata of
        None \<Rightarrow> Inr None
      | Some _ \<Rightarrow> (case payload of
                    None \<Rightarrow> Inl ValueError
                  | Some p \<Rightarrow> bindE (env_load_snapshot env p) (\<lambda>s. Inr (Some s))))"

definition restore_history ::
  "store_env \<Rightarrow> pystr option \<Rightarrow> exn + conversation_message list" where
  "restore_history env payload =
     (case payload of None \<Rightarrow> Inr [] | Some p \<Rightarrow> env_load_history env p)"

definition run_payloads :: "store_env \<Rightarrow> run_record \<Rightarrow> exn + payload_entries" where
  "run_payloads env run =
     append_entries (encode_field env FIELD_RUN_INPUT (run_input run))
     (append_entries (encode_optional env FIELD_RUN_OUTPUT (run_output run))
     (append_entries (encode_optional env FIELD_RUN_SNAPSHOT
                        (map_option (env_dump_snapshot env) (run_snapshot run)))
        (encode_optional env FIELD_RUN_HISTORY
           (if run_history run = [] then None else Some (env_dump_history env (run_history run))))))"

definition run_metadata :: "run_record \<Rightarrow> stored_run" where
  "run_metadata run =
     \<lparr>sr_run_id = run_id run,
      sr_definition_id = run_definition_id run,
      sr_definition_version = run_definition_version run,
      sr_status = run_status_of run,
      sr_snapshot = snapshot_metadata (run_snapshot run),
      sr_version = run_version run,
      sr_waiting_reason = run_waiting_reason run,
      sr_waiting_step_id = run_waiting_step_id run,
      sr_error_code = run_error_code run,
      sr_lease_owner = run_lease_owner run,
      sr_lease_expires_at = run_lease_expires_at run,
      sr_created_at = run_created_at run,
      sr_updated_at = run_updated_at run\<rparr>"

definition split_run :: "store_env \<Rightarrow> run_record \<Rightarrow> exn + (stored_run \<times> payload_entries)" where
  "split_run env run = bindE (run_payloads env run) (\<lambda>ps. Inr (run_metadata run, ps))"

text \<open>\<open>_StoredRun.to_record\<close>; Pydantic rejects a record without input.\<close>

definition run_to_record ::
  "stored_run \<Rightarrow> pystr option \<Rightarrow> pystr option \<Rightarrow> definition_snapshot option
     \<Rightarrow> conversation_message list \<Rightarrow> exn + run_record" where
  "run_to_record sr input output snapshot history =
     (case input of
        None \<Rightarrow> Inl ValueError
      | Some i \<Rightarrow> Inr
     \<lparr>run_id = sr_run_id sr,
      run_definition_id = sr_definition_id sr,
      run_definition_version = sr_definition_version sr,
      run_input = i,
      run_history = history,
      run_status_of = sr_status sr,
      run_snapshot = snapshot,
      run_output = output,
      run_waiting_reason = sr_waiting_reason sr,
      run_waiting_step_id = sr_waiting_step_id sr,
      run_error_code = sr_error_code sr,
      run_version = sr_version sr,
      run_lease_owner = sr_lease_owner sr,
      run_lease_expires_at = sr_lease_expires_at sr,
      run_created_at = sr_created_at sr,
      run_updated_at = sr_updated_at sr\<rparr>)"

definition attempt_metadata :: "step_attempt \<Rightarrow> stored_attempt" where
  "attempt_metadata a =
     \<lparr>sa_attempt_id = attempt_id a,
      sa_step_id = attempt_step_id a,
      sa_run_id = attempt_run_id a,
      sa_status = attempt_status a,
      sa_error = None,
      sa_classification = attempt_classification a,
      sa_error_code = map_option sanitize_error_code (attempt_error_code a),
      sa_model_purpose = attempt_model_purpose a,
      sa_usage = attempt_usage a,
      sa_created_at = attempt_created_at a\<rparr>"

definition split_attempt ::
  "store_env \<Rightarrow> step_attempt \<Rightarrow> exn + (stored_attempt \<times> payload_entries)" where
  "split_attempt env a =
     bindE (append_entries
              (encode_optional env (attempt_output_field (attempt_id a)) (attempt_output a))
              (encode_optional env (attempt_error_field (attempt_id a)) (attempt_error a)))
       (\<lambda>ps. Inr (attempt_metadata a, ps))"

definition attempt_to_record ::
  "stored_attempt \<Rightarrow> pystr option \<Rightarrow> pystr option \<Rightarrow> step_attempt" where
  "attempt_to_record sa output error =
     \<lparr>attempt_id = sa_attempt_id sa,
      attempt_step_id = sa_step_id sa,
      attempt_run_id = sa_run_id sa,
      attempt_status = sa_status sa,
      attempt_output = output,
      attempt_error = error,
      attempt_classification = sa_classification sa,
      attempt_error_code = sa_error_code sa,
      attempt_model_purpose = sa_model_purpose sa,
      attempt_usage = sa_usage sa,
      attempt_created_at = sa_created_at sa\<rparr>"

definition checkpoint_metadata :: "step_checkpoint \<Rightarrow> stored_checkpoint" where
  "checkpoint_metadata c =
     \<lparr>sc_run_id = cp_run_id c, sc_step_id = cp_step_id c, sc_attempt_id = cp_attempt_id c,
      sc_step_type = cp_step_type c, sc_created_at = cp_created_at c\<rparr>"

definition split_checkpoint ::
  "store_env \<Rightarrow> step_checkpoint \<Rightarrow> exn + (stored_checkpoint \<times> payload_entries)" where
  "split_checkpoint env c =
     bindE (encode_field env (checkpoint_output_field (cp_step_id c)) (cp_output c))
       (\<lambda>ps. Inr (checkpoint_metadata c, ps))"

definition checkpoint_to_record :: "stored_checkpoint \<Rightarrow> pystr option \<Rightarrow> exn + step_checkpoint" where
  "checkpoint_to_record sc output =
     (case output of
        None \<Rightarrow> Inl ValueError
      | Some t \<Rightarrow> Inr \<lparr>cp_run_id = sc_run_id sc, cp_step_id = sc_step_id sc,
           cp_attempt_id = sc_attempt_id sc, cp_step_type = sc_step_type sc,
           cp_output = t, cp_created_at = sc_created_at sc\<rparr>)"

text \<open>\<open>for field, encoded in payloads.items(): self._payloads[(run_id, field)] = encoded\<close>.\<close>

fun write_payloads ::
  "ident \<Rightarrow> payload_entries \<Rightarrow> (ident \<times> string \<Rightarrow> pybytes option) \<Rightarrow> ident \<times> string \<Rightarrow> pybytes option" where
  "write_payloads rid [] d = d"
| "write_payloads rid ((field, b) # ps) d = write_payloads rid ps (d((rid, field) \<mapsto> b))"

definition read_payload :: "store_env \<Rightarrow> run_store \<Rightarrow> ident \<Rightarrow> string \<Rightarrow> exn + pystr option" where
  "read_payload env s rid field =
     (case payloads s (rid, field) of
        None \<Rightarrow> Inr None | Some b \<Rightarrow> bindE (env_decode env b) (\<lambda>t. Inr (Some t)))"

section \<open>Leases\<close>

definition check_lease :: "timestamp \<Rightarrow> stored_run \<Rightarrow> ident \<Rightarrow> exn + unit" where
  "check_lease now stored owner =
     (if sr_lease_owner stored \<noteq> Some owner
         \<or> (case sr_lease_expires_at stored of None \<Rightarrow> True | Some t \<Rightarrow> t \<le> now)
      then Inl LeaseNotHeldError else Inr ())"

text \<open>The guard every mutation opens with: the run exists at the expected version and,
  when an owner is given, the owner holds an unexpired lease.\<close>

definition current_at :: "run_store \<Rightarrow> ident \<Rightarrow> int \<Rightarrow> exn + stored_run" where
  "current_at s rid expected_version =
     (case runs s rid of
        None \<Rightarrow> Inl RunNotFoundError
      | Some cur \<Rightarrow> if sr_version cur \<noteq> expected_version then Inl StaleRunVersionError
                    else Inr cur)"

definition guarded ::
  "timestamp \<Rightarrow> run_store \<Rightarrow> ident \<Rightarrow> int \<Rightarrow> ident option \<Rightarrow> exn + stored_run" where
  "guarded now s rid expected_version owner =
     bindE (current_at s rid expected_version) (\<lambda>cur.
       case owner of
         None \<Rightarrow> Inr cur
       | Some o' \<Rightarrow> bindE (check_lease now cur o') (\<lambda>_. Inr cur))"

text \<open>A raise before the first mutation leaves the store as it was.\<close>

definition attempt_op :: "'s \<Rightarrow> exn + 'a \<Rightarrow> ('a \<Rightarrow> (exn + 'b) \<times> 's) \<Rightarrow> (exn + 'b) \<times> 's" where
  "attempt_op s m f = (case m of Inl e \<Rightarrow> (Inl e, s) | Inr v \<Rightarrow> f v)"

definition acquire_lease ::
  "timestamp \<Rightarrow> ident \<Rightarrow> ident \<Rightarrow> duration \<Rightarrow> int \<Rightarrow> run_store \<Rightarrow> (exn + run_lease) \<times> run_store" where
  "acquire_lease now rid owner ttl expected_version s =
     attempt_op s (current_at s rid expected_version) (\<lambda>cur.
       if (\<exists>o' \<in> set_option (sr_lease_owner cur). o' \<noteq> owner)
          \<and> (\<exists>t \<in> set_option (sr_lease_expires_at cur). now < t)
       then (Inl LeaseNotHeldError, s)
       else let expires_at = now + ttl in
         (Inr \<lparr>lease_run_id = rid, lease_owner = owner, lease_expires_at = expires_at\<rparr>,
          s\<lparr>runs := (runs s)(rid \<mapsto> cur\<lparr>sr_lease_owner := Some owner,
                                         sr_lease_expires_at := Some expires_at\<rparr>)\<rparr>))"

definition release_lease ::
  "ident \<Rightarrow> ident \<Rightarrow> int \<Rightarrow> run_store \<Rightarrow> (exn + unit) \<times> run_store" where
  "release_lease rid owner expected_version s =
     attempt_op s (current_at s rid expected_version) (\<lambda>cur.
       if sr_lease_owner cur \<noteq> Some owner then (Inl LeaseNotHeldError, s)
       else (Inr (),
             s\<lparr>runs := (runs s)(rid \<mapsto> cur\<lparr>sr_lease_owner := None,
                                            sr_lease_expires_at := None\<rparr>)\<rparr>))"

definition get_lease :: "ident \<Rightarrow> run_store \<Rightarrow> run_lease option" where
  "get_lease rid s =
     (case runs s rid of
        None \<Rightarrow> None
      | Some sr \<Rightarrow>
          (case (sr_lease_owner sr, sr_lease_expires_at sr) of
             (Some o', Some t) \<Rightarrow> Some \<lparr>lease_run_id = rid, lease_owner = o', lease_expires_at = t\<rparr>
           | _ \<Rightarrow> None))"

definition assert_lease :: "timestamp \<Rightarrow> ident \<Rightarrow> int \<Rightarrow> ident \<Rightarrow> run_store \<Rightarrow> exn + unit" where
  "assert_lease now rid expected_version owner s =
     bindE (current_at s rid expected_version) (\<lambda>cur. check_lease now cur owner)"

text \<open>\<open>guard\<close> is the caller's synchronous check; it may raise.\<close>

definition prepare_model_dispatch ::
  "timestamp \<Rightarrow> ident \<Rightarrow> int \<Rightarrow> ident \<Rightarrow> (exn + unit) \<Rightarrow> run_store \<Rightarrow> exn + unit" where
  "prepare_model_dispatch now rid expected_version owner guard s =
     bindE (current_at s rid expected_version) (\<lambda>cur.
     bindE guard (\<lambda>_. check_lease now cur owner))"

section \<open>Run life cycle\<close>

definition load_run ::
  "store_env \<Rightarrow> run_store \<Rightarrow> stored_run \<Rightarrow> ident \<Rightarrow> exn + run_record" where
  "load_run env s sr rid =
     bindE (read_payload env s rid FIELD_RUN_INPUT) (\<lambda>input.
     bindE (read_payload env s rid FIELD_RUN_OUTPUT) (\<lambda>output.
     bindE (read_payload env s rid FIELD_RUN_SNAPSHOT) (\<lambda>snap.
     bindE (restore_snapshot env (sr_snapshot sr) snap) (\<lambda>snapshot.
     bindE (read_payload env s rid FIELD_RUN_HISTORY) (\<lambda>hist.
     bindE (restore_history env hist) (\<lambda>history.
       run_to_record sr input output snapshot history))))))"

text \<open>
  \<open>create_run\<close> decodes the freshly encoded payloads; the store it writes to has no other
  entry for a new run, so the lookups in \<open>payloads\<close> are those of the local dict.
\<close>

definition decode_entry :: "store_env \<Rightarrow> payload_entries \<Rightarrow> string \<Rightarrow> exn + pystr option" where
  "decode_entry env ps field =
     (case map_of ps field of
        None \<Rightarrow> Inr None | Some b \<Rightarrow> bindE (env_decode env b) (\<lambda>t. Inr (Some t)))"

definition create_run ::
  "store_env \<Rightarrow> run_record \<Rightarrow> run_store \<Rightarrow> (exn + run_record) \<times> run_store" where
  "create_run env run s =
     (if runs s (run_id run) \<noteq> None then (Inl DuplicateRunError, s)
      else attempt_op s (split_run env run) (\<lambda>(stored, ps).
        (bindE (decode_entry env ps FIELD_RUN_INPUT) (\<lambda>input.
         bindE (decode_entry env ps FIELD_RUN_OUTPUT) (\<lambda>output.
         bindE (decode_entry env ps FIELD_RUN_SNAPSHOT) (\<lambda>snap.
         bindE (restore_snapshot env (sr_snapshot stored) snap) (\<lambda>snapshot.
         bindE (decode_entry env ps FIELD_RUN_HISTORY) (\<lambda>hist.
         bindE (restore_history env hist) (\<lambda>history.
           run_to_record stored input output snapshot history)))))),
         s\<lparr>runs := (runs s)(run_id run \<mapsto> stored),
           payloads := write_payloads (run_id run) ps (payloads s)\<rparr>)))"

definition get_run :: "store_env \<Rightarrow> ident \<Rightarrow> run_store \<Rightarrow> exn + run_record option" where
  "get_run env rid s =
     (case runs s rid of
        None \<Rightarrow> Inr None
      | Some sr \<Rightarrow> bindE (load_run env s sr rid) (\<lambda>r. Inr (Some r)))"

record transition_args =
  to_status :: run_status
  to_snapshot :: "definition_snapshot option"
  to_output :: "pystr option"
  to_waiting_reason :: "ident option"
  to_waiting_step_id :: "ident option"
  to_error_code :: "ident option"
  to_lease_owner :: "ident option"

definition transitioned :: "timestamp \<Rightarrow> transition_args \<Rightarrow> stored_run \<Rightarrow> stored_run" where
  "transitioned utc args cur =
     \<lparr>sr_run_id = sr_run_id cur,
      sr_definition_id = sr_definition_id cur,
      sr_definition_version = sr_definition_version cur,
      sr_status = to_status args,
      sr_snapshot = (if to_snapshot args \<noteq> None then snapshot_metadata (to_snapshot args)
                     else sr_snapshot cur),
      sr_version = sr_version cur + 1,
      sr_waiting_reason = (if to_status args = WAITING then to_waiting_reason args else None),
      sr_waiting_step_id = (if to_status args = WAITING then to_waiting_step_id args else None),
      sr_error_code = to_error_code args,
      sr_lease_owner = sr_lease_owner cur,
      sr_lease_expires_at = sr_lease_expires_at cur,
      sr_created_at = sr_created_at cur,
      sr_updated_at = utc\<rparr>"

text \<open>
  The metadata is written first, then the output payload is encoded and written, then the
  snapshot payload: an exception of the codec leaves the earlier writes in place.
\<close>

definition write_optional ::
  "store_env \<Rightarrow> ident \<Rightarrow> string \<Rightarrow> pystr option \<Rightarrow> run_store \<Rightarrow> (exn + unit) \<times> run_store" where
  "write_optional env rid field text s =
     (case text of
        None \<Rightarrow> (Inr (), s)
      | Some t \<Rightarrow> attempt_op s (env_encode env t) (\<lambda>b.
          (Inr (), s\<lparr>payloads := (payloads s)((rid, field) \<mapsto> b)\<rparr>)))"

definition and_then ::
  "(exn + unit) \<times> 's \<Rightarrow> ('s \<Rightarrow> (exn + 'b) \<times> 's) \<Rightarrow> (exn + 'b) \<times> 's" where
  "and_then r f = (case r of (Inl e, s) \<Rightarrow> (Inl e, s) | (Inr _, s) \<Rightarrow> f s)"

definition transition_run ::
  "store_env \<Rightarrow> timestamp \<Rightarrow> timestamp \<Rightarrow> ident \<Rightarrow> int \<Rightarrow> transition_args \<Rightarrow> run_store
     \<Rightarrow> (exn + run_record) \<times> run_store" where
  "transition_run env now utc rid expected_version args s =
     attempt_op s (guarded now s rid expected_version (to_lease_owner args)) (\<lambda>cur.
     attempt_op s (validate_transition (sr_status cur) (to_status args)) (\<lambda>_.
       let updated = transitioned utc args cur;
           s1 = s\<lparr>runs := (runs s)(rid \<mapsto> updated)\<rparr> in
       and_then (write_optional env rid FIELD_RUN_OUTPUT (to_output args) s1) (\<lambda>s2.
       and_then (write_optional env rid FIELD_RUN_SNAPSHOT
                   (map_option (env_dump_snapshot env) (to_snapshot args)) s2) (\<lambda>s3.
         (load_run env s3 updated rid, s3)))))"

section \<open>Step records\<close>

definition record_step ::
  "timestamp \<Rightarrow> step_record \<Rightarrow> int \<Rightarrow> ident option \<Rightarrow> run_store \<Rightarrow> (exn + step_record) \<times> run_store" where
  "record_step now step expected_version owner s =
     attempt_op s (guarded now s (step_run_id step) expected_version owner) (\<lambda>_.
       (Inr step,
        s\<lparr>steps := (steps s)(step_run_id step \<mapsto>
             upsert step_id step (entries (steps s) (step_run_id step)))\<rparr>))"

definition record_attempt ::
  "store_env \<Rightarrow> timestamp \<Rightarrow> step_attempt \<Rightarrow> int \<Rightarrow> ident option \<Rightarrow> run_store
     \<Rightarrow> (exn + step_attempt) \<times> run_store" where
  "record_attempt env now a expected_version owner s =
     attempt_op s (guarded now s (attempt_run_id a) expected_version owner) (\<lambda>_.
     attempt_op s (split_attempt env a) (\<lambda>(stored, ps).
       (Inr (attempt_to_record stored (attempt_output a) (attempt_error a)),
        s\<lparr>attempts := (attempts s)(attempt_run_id a \<mapsto>
             upsert sa_attempt_id stored (entries (attempts s) (attempt_run_id a))),
          payloads := write_payloads (attempt_run_id a) ps (payloads s)\<rparr>)))"

definition model_attempts :: "stored_attempt list \<Rightarrow> stored_attempt list" where
  "model_attempts as = filter (\<lambda>a. sa_model_purpose a \<noteq> None) as"

definition purpose_attempts :: "model_purpose \<Rightarrow> stored_attempt list \<Rightarrow> stored_attempt list" where
  "purpose_attempts p as = filter (\<lambda>a. sa_model_purpose a = Some p) (model_attempts as)"

text \<open>
  \<open>reserve_model_attempt\<close> appends without looking for an existing attempt of that id,
  and drops the payloads of the split. \<open>setdefault\<close> creates the list on every path that
  reaches it.
\<close>

definition reserve_model_attempt ::
  "store_env \<Rightarrow> timestamp \<Rightarrow> step_record \<Rightarrow> step_attempt \<Rightarrow> int option \<Rightarrow> int option \<Rightarrow> int
     \<Rightarrow> ident \<Rightarrow> run_store \<Rightarrow> (exn + bool) \<times> run_store" where
  "reserve_model_attempt env now step a run_max purpose_max expected_version owner s =
     (case attempt_model_purpose a of
        None \<Rightarrow> (Inl ValueError, s)
      | Some p \<Rightarrow>
     if step_type step \<noteq> STEP_MODEL \<or> step_run_id step \<noteq> attempt_run_id a
        \<or> step_id step \<noteq> attempt_step_id a then (Inl ValueError, s)
     else attempt_op s (guarded now s (attempt_run_id a) expected_version (Some owner)) (\<lambda>_.
       let rid = attempt_run_id a;
           as = entries (attempts s) rid;
           s1 = s\<lparr>attempts := (attempts s)(rid \<mapsto> as)\<rparr> in
       if (\<exists>n \<in> set_option run_max. n \<le> int (length (model_attempts as)))
          \<or> (\<exists>n \<in> set_option purpose_max. n \<le> int (length (purpose_attempts p as)))
       then (Inr False, s1)
       else let s2 = s1\<lparr>steps := (steps s1)(rid \<mapsto> upsert step_id step (entries (steps s1) rid))\<rparr> in
         attempt_op s2 (split_attempt env a) (\<lambda>(stored, _).
           (Inr True, s2\<lparr>attempts := (attempts s2)(rid \<mapsto> as @ [stored])\<rparr>))))"

definition record_checkpoint ::
  "store_env \<Rightarrow> timestamp \<Rightarrow> step_checkpoint \<Rightarrow> int \<Rightarrow> ident option \<Rightarrow> run_store
     \<Rightarrow> (exn + step_checkpoint) \<times> run_store" where
  "record_checkpoint env now c expected_version owner s =
     attempt_op s (guarded now s (cp_run_id c) expected_version owner) (\<lambda>_.
     attempt_op s (split_checkpoint env c) (\<lambda>(stored, ps).
       (checkpoint_to_record stored (Some (cp_output c)),
        s\<lparr>checkpoints := (checkpoints s)(cp_run_id c \<mapsto>
             entries (checkpoints s) (cp_run_id c) @ [stored]),
          payloads := write_payloads (cp_run_id c) ps (payloads s)\<rparr>)))"

definition get_steps :: "ident \<Rightarrow> run_store \<Rightarrow> step_record list" where
  "get_steps rid s = entries (steps s) rid"

definition get_attempts :: "store_env \<Rightarrow> ident \<Rightarrow> run_store \<Rightarrow> exn + step_attempt list" where
  "get_attempts env rid s =
     mapE (\<lambda>a.
        bindE (read_payload env s rid (attempt_output_field (sa_attempt_id a))) (\<lambda>output.
        bindE (read_payload env s rid (attempt_error_field (sa_attempt_id a))) (\<lambda>error.
          Inr (attempt_to_record a output error)))) (entries (attempts s) rid)"

definition get_checkpoints :: "store_env \<Rightarrow> ident \<Rightarrow> run_store \<Rightarrow> exn + step_checkpoint list" where
  "get_checkpoints env rid s =
     mapE (\<lambda>c.
        bindE (read_payload env s rid (checkpoint_output_field (sc_step_id c))) (\<lambda>output.
          checkpoint_to_record c output)) (entries (checkpoints s) rid)"

definition record_policy_decision ::
  "timestamp \<Rightarrow> policy_decision_record \<Rightarrow> int \<Rightarrow> ident option \<Rightarrow> run_store
     \<Rightarrow> (exn + policy_decision_record) \<times> run_store" where
  "record_policy_decision now d expected_version owner s =
     attempt_op s (guarded now s (pdr_run_id d) expected_version owner) (\<lambda>_.
       (Inr d,
        s\<lparr>policy_decisions := (policy_decisions s)(pdr_run_id d \<mapsto>
             entries (policy_decisions s) (pdr_run_id d) @ [d])\<rparr>))"

definition get_policy_decisions :: "ident \<Rightarrow> run_store \<Rightarrow> policy_decision_record list" where
  "get_policy_decisions rid s = entries (policy_decisions s) rid"

lemmas store_op_defs = acquire_lease_def release_lease_def create_run_def transition_run_def
  record_step_def record_attempt_def reserve_model_attempt_def record_checkpoint_def
  record_policy_decision_def

end
