(* ===== verification/Store_Laws.thy ===== *)
theory Store_Laws
  imports Run_Store
begin

text \<open>
  Behaviour of the in-memory Run Store: what a successful operation checked, what each
  operation leaves unchanged, the store invariant, and the round trip through the
  payload codec.
\<close>

section \<open>Guards\<close>

lemma attempt_op_Inr [simp]:
  "attempt_op s m f = (Inr r, s') \<longleftrightarrow> (\<exists>v. m = Inr v \<and> f v = (Inr r, s'))"
  by (cases m) (auto simp: attempt_op_def)

lemma attempt_op_Inl:
  "attempt_op s m f = (Inl e, s') \<longleftrightarrow>
     (m = Inl e \<and> s' = s) \<or> (\<exists>v. m = Inr v \<and> f v = (Inl e, s'))"
  by (cases m) (auto simp: attempt_op_def)

lemma attempt_op_simps [simp]:
  "attempt_op s (Inl e) f = (Inl e, s)" "attempt_op s (Inr v) f = f v"
  by (simp_all add: attempt_op_def)

lemma and_then_Inr:
  "and_then r f = (Inr y, s') \<longleftrightarrow> (\<exists>s. r = (Inr (), s) \<and> f s = (Inr y, s'))"
  by (cases r) (auto simp: and_then_def split: sum.splits)

lemma check_lease_ok:
  "check_lease now sr owner = Inr () \<longleftrightarrow>
     sr_lease_owner sr = Some owner \<and> (\<exists>t. sr_lease_expires_at sr = Some t \<and> now < t)"
  by (auto simp: check_lease_def not_le split: option.splits)

lemma check_lease_error: "check_lease now sr owner = Inl e \<Longrightarrow> e = LeaseNotHeldError"
  by (auto simp: check_lease_def split: if_splits)

lemma current_at_ok:
  "current_at s rid v = Inr cur \<longleftrightarrow> runs s rid = Some cur \<and> sr_version cur = v"
  by (auto simp: current_at_def split: option.splits)

lemma current_at_error:
  "current_at s rid v = Inl e \<longleftrightarrow>
     (runs s rid = None \<and> e = RunNotFoundError)
     \<or> (\<exists>cur. runs s rid = Some cur \<and> sr_version cur \<noteq> v \<and> e = StaleRunVersionError)"
  by (auto simp: current_at_def split: option.splits)

lemma guarded_ok:
  "guarded now s rid v owner = Inr cur \<longleftrightarrow>
     runs s rid = Some cur \<and> sr_version cur = v
     \<and> (\<forall>o'. owner = Some o' \<longrightarrow> check_lease now cur o' = Inr ())"
  by (auto simp: guarded_def bindE_eq_Inr current_at_ok split: option.splits)

lemma guarded_stale:
  "runs s rid = Some cur \<Longrightarrow> sr_version cur \<noteq> v \<Longrightarrow> guarded now s rid v owner = Inl StaleRunVersionError"
  by (simp add: guarded_def current_at_def)

lemma guarded_unowned:
  assumes "runs s rid = Some cur" and "sr_version cur = v" and "check_lease now cur o' = Inl e"
  shows "guarded now s rid v (Some o') = Inl LeaseNotHeldError"
  using assms check_lease_error [of now cur o' e] by (simp add: guarded_def current_at_def)

section \<open>Payload fields do not collide\<close>

lemmas field_defs = FIELD_RUN_INPUT_def FIELD_RUN_OUTPUT_def FIELD_RUN_SNAPSHOT_def
  FIELD_RUN_HISTORY_def attempt_output_field_def attempt_error_field_def
  checkpoint_output_field_def

lemma last_append_eq: "xs @ ys = xs' @ ys' \<Longrightarrow> ys \<noteq> [] \<Longrightarrow> ys' \<noteq> [] \<Longrightarrow> last ys = last ys'"
  by (metis last_appendR)

lemma attempt_fields_disjoint: "attempt_output_field a \<noteq> attempt_error_field b"
proof
  assume "attempt_output_field a = attempt_error_field b"
  then have "(''attempt:'' @ a) @ '':output'' = (''attempt:'' @ b) @ '':error''"
    by (simp add: field_defs)
  from last_append_eq [OF this] show False by simp
qed

lemma attempt_field_inj [simp]:
  "attempt_output_field a = attempt_output_field b \<longleftrightarrow> a = b"
  "attempt_error_field a = attempt_error_field b \<longleftrightarrow> a = b"
  "checkpoint_output_field a = checkpoint_output_field b \<longleftrightarrow> a = b"
  by (simp_all add: field_defs)

lemma fields_distinct [simp]:
  "attempt_output_field a \<noteq> attempt_error_field b" "attempt_error_field b \<noteq> attempt_output_field a"
  "attempt_output_field a \<noteq> checkpoint_output_field c" "checkpoint_output_field c \<noteq> attempt_output_field a"
  "attempt_error_field a \<noteq> checkpoint_output_field c" "checkpoint_output_field c \<noteq> attempt_error_field a"
  using attempt_fields_disjoint [of a b] by (auto simp: field_defs)

lemma run_fields_distinct [simp]:
  "f \<in> {FIELD_RUN_INPUT, FIELD_RUN_OUTPUT, FIELD_RUN_SNAPSHOT, FIELD_RUN_HISTORY} \<Longrightarrow>
     f \<noteq> attempt_output_field a \<and> f \<noteq> attempt_error_field a \<and> f \<noteq> checkpoint_output_field a"
  "distinct [FIELD_RUN_INPUT, FIELD_RUN_OUTPUT, FIELD_RUN_SNAPSHOT, FIELD_RUN_HISTORY]"
  by (auto simp: field_defs)

lemma write_payloads_other:
  "rid' \<noteq> rid \<or> f \<notin> fst ` set ps \<Longrightarrow> write_payloads rid ps d (rid', f) = d (rid', f)"
  by (induction rid ps d rule: write_payloads.induct) auto

lemma write_payloads_map_of:
  "distinct (map fst ps) \<Longrightarrow>
     write_payloads rid ps d (rid, f) = (case map_of ps f of None \<Rightarrow> d (rid, f) | Some b \<Rightarrow> Some b)"
proof (induction ps arbitrary: d)
  case (Cons p ps)
  obtain field b where p: "p = (field, b)" by (cases p)
  show ?case
  proof (cases "f = field")
    case True
    then have "f \<notin> fst ` set ps" using Cons.prems p by simp
    then show ?thesis
      using True write_payloads_other [of rid rid f ps "d((rid, field) \<mapsto> b)"] by (simp add: p)
  next
    case False
    then show ?thesis using Cons.IH [of "d((rid, field) \<mapsto> b)"] Cons.prems
      by (simp add: p fun_upd_def cong: option.case_cong)
  qed
qed simp

section \<open>One Run at a time\<close>

text \<open>Everything the store holds about one Run.\<close>

definition run_view where
  "run_view s rid =
     (runs s rid, (\<lambda>f. payloads s (rid, f)), steps s rid, attempts s rid, checkpoints s rid,
      policy_decisions s rid)"

lemma write_optional_view:
  "rid' \<noteq> rid \<Longrightarrow> run_view (snd (write_optional env rid f t s)) rid' = run_view s rid'"
  by (auto simp: write_optional_def attempt_op_def run_view_def split: option.splits sum.splits)

lemma write_optional_frame [simp]:
  "runs (snd (write_optional env rid f t s)) = runs s"
  "steps (snd (write_optional env rid f t s)) = steps s"
  "attempts (snd (write_optional env rid f t s)) = attempts s"
  "checkpoints (snd (write_optional env rid f t s)) = checkpoints s"
  "policy_decisions (snd (write_optional env rid f t s)) = policy_decisions s"
  by (auto simp: write_optional_def attempt_op_def split: option.splits sum.splits)

lemma view_frame [frame]:
  "rid' \<noteq> rid \<Longrightarrow> run_view (snd (acquire_lease now rid owner ttl v s)) rid' = run_view s rid'"
  "rid' \<noteq> rid \<Longrightarrow> run_view (snd (release_lease rid owner v s)) rid' = run_view s rid'"
  "rid' \<noteq> run_id run \<Longrightarrow> run_view (snd (create_run env run s)) rid' = run_view s rid'"
  "rid' \<noteq> step_run_id st \<Longrightarrow> run_view (snd (record_step now st v ow s)) rid' = run_view s rid'"
  "rid' \<noteq> attempt_run_id a \<Longrightarrow> run_view (snd (record_attempt env now a v ow s)) rid' = run_view s rid'"
  "rid' \<noteq> cp_run_id c \<Longrightarrow> run_view (snd (record_checkpoint env now c v ow s)) rid' = run_view s rid'"
  "rid' \<noteq> pdr_run_id d \<Longrightarrow> run_view (snd (record_policy_decision now d v ow s)) rid' = run_view s rid'"
  "rid' \<noteq> attempt_run_id a \<Longrightarrow>
     run_view (snd (reserve_model_attempt env now st a m1 m2 v owner s)) rid' = run_view s rid'"
  by (auto simp: store_op_defs attempt_op_def run_view_def Let_def write_payloads_other
      split: sum.splits option.splits)

lemma transition_view [frame]:
  assumes "rid' \<noteq> rid"
  shows "run_view (snd (transition_run env now utc rid v args s)) rid' = run_view s rid'"
proof -
  have and_then_view: "run_view (snd (and_then r f)) rid' = V"
    if "run_view (snd r) rid' = V" and "\<And>s. run_view s rid' = V \<Longrightarrow> run_view (snd (f s)) rid' = V"
    for r :: "(exn + unit) \<times> run_store" and f :: "run_store \<Rightarrow> (exn + run_record) \<times> run_store" and V
    using that by (cases r) (auto simp: and_then_def split: sum.splits)
  show ?thesis
    unfolding transition_run_def attempt_op_def Let_def using assms
    by (auto split: sum.splits intro!: and_then_view simp: write_optional_view)
      (simp_all add: run_view_def)
qed

section \<open>Commands\<close>

text \<open>
  A call of a mutating operation with its arguments and clock readings. Calls of
  different Runners interleave freely; each operation has no await point, so a history of
  the store is a list of commands.
\<close>

datatype store_cmd =
    Acquire timestamp ident ident duration int
  | Release ident ident int
  | Create run_record
  | Transition timestamp timestamp ident int transition_args
  | Record_Step timestamp step_record int "ident option"
  | Record_Attempt timestamp step_attempt int "ident option"
  | Reserve timestamp step_record step_attempt "int option" "int option" int ident
  | Record_Checkpoint timestamp step_checkpoint int "ident option"
  | Record_Policy timestamp policy_decision_record int "ident option"

definition outcome_of :: "(exn + 'a) \<times> 's \<Rightarrow> exn option \<times> 's" where
  "outcome_of r = (case fst r of Inl e \<Rightarrow> Some e | Inr _ \<Rightarrow> None, snd r)"

fun exec_cmd :: "store_env \<Rightarrow> store_cmd \<Rightarrow> run_store \<Rightarrow> exn option \<times> run_store" where
  "exec_cmd env (Acquire now rid owner ttl v) s = outcome_of (acquire_lease now rid owner ttl v s)"
| "exec_cmd env (Release rid owner v) s = outcome_of (release_lease rid owner v s)"
| "exec_cmd env (Create run) s = outcome_of (create_run env run s)"
| "exec_cmd env (Transition now utc rid v args) s = outcome_of (transition_run env now utc rid v args s)"
| "exec_cmd env (Record_Step now st v ow) s = outcome_of (record_step now st v ow s)"
| "exec_cmd env (Record_Attempt now a v ow) s = outcome_of (record_attempt env now a v ow s)"
| "exec_cmd env (Reserve now st a m1 m2 v owner) s =
     outcome_of (reserve_model_attempt env now st a m1 m2 v owner s)"
| "exec_cmd env (Record_Checkpoint now c v ow) s = outcome_of (record_checkpoint env now c v ow s)"
| "exec_cmd env (Record_Policy now d v ow) s = outcome_of (record_policy_decision now d v ow s)"

fun cmd_run :: "store_cmd \<Rightarrow> ident" where
  "cmd_run (Acquire now rid owner ttl v) = rid"
| "cmd_run (Release rid owner v) = rid"
| "cmd_run (Create run) = run_id run"
| "cmd_run (Transition now utc rid v args) = rid"
| "cmd_run (Record_Step now st v ow) = step_run_id st"
| "cmd_run (Record_Attempt now a v ow) = attempt_run_id a"
| "cmd_run (Reserve now st a m1 m2 v owner) = attempt_run_id a"
| "cmd_run (Record_Checkpoint now c v ow) = cp_run_id c"
| "cmd_run (Record_Policy now d v ow) = pdr_run_id d"

fun exec_cmds :: "store_env \<Rightarrow> store_cmd list \<Rightarrow> run_store \<Rightarrow> run_store" where
  "exec_cmds env [] s = s"
| "exec_cmds env (c # cs) s = exec_cmds env cs (snd (exec_cmd env c s))"

lemma exec_cmds_append: "exec_cmds env (cs @ ds) s = exec_cmds env ds (exec_cmds env cs s)"
  by (induction cs arbitrary: s) simp_all

lemma snd_outcome_of [simp]: "snd (outcome_of r) = snd r"
  by (simp add: outcome_of_def)

lemma fst_outcome_of: "fst (outcome_of r) = None \<longleftrightarrow> (\<exists>v. fst r = Inr v)"
  by (auto simp: outcome_of_def split: sum.splits)

lemma exec_cmd_isolated:
  "rid \<noteq> cmd_run c \<Longrightarrow> run_view (snd (exec_cmd env c s)) rid = run_view s rid"
  by (cases c) (simp_all add: view_frame transition_view)

section \<open>How one command changes the authoritative record\<close>

text \<open>
  The metadata of an existing Run changes in three ways only: a lease change, a
  transition at the expected version, or not at all.
\<close>

inductive run_change :: "stored_run \<Rightarrow> stored_run \<Rightarrow> bool" where
  unchanged: "run_change sr sr"
| lease_change: "run_change sr (sr\<lparr>sr_lease_owner := o', sr_lease_expires_at := t\<rparr>)"
| transition: "validate_transition (sr_status sr) (to_status args) = Inr () \<Longrightarrow>
     run_change sr (transitioned utc args sr)"

lemma runs_and_then:
  assumes "runs (snd r) = R" and "\<And>s. runs s = R \<Longrightarrow> runs (snd (f s)) = R"
  shows "runs (snd (and_then r f)) = R"
  using assms by (cases r) (auto simp: and_then_def split: sum.splits)

lemma transition_runs:
  "runs (snd (transition_run env now utc rid v args s)) =
     (case guarded now s rid v (to_lease_owner args) of
        Inl e \<Rightarrow> runs s
      | Inr cur \<Rightarrow>
          if validate_transition (sr_status cur) (to_status args) = Inr ()
          then (runs s)(rid \<mapsto> transitioned utc args cur) else runs s)"
proof (cases "guarded now s rid v (to_lease_owner args)")
  case (Inl e)
  then show ?thesis by (simp add: transition_run_def)
next
  case (Inr cur)
  show ?thesis
  proof (cases "validate_transition (sr_status cur) (to_status args)")
    case (Inl e)
    then show ?thesis using Inr by (simp add: transition_run_def validate_transition_def)
  next
    case ok: (Inr w)
    then show ?thesis
      using Inr by (auto simp: transition_run_def validate_transition_def Let_def intro!: runs_and_then)
  qed
qed

lemma exec_cmd_run_change:
  assumes "runs s rid = Some sr"
  shows "\<exists>sr'. runs (snd (exec_cmd env c s)) rid = Some sr' \<and> run_change sr sr'"
proof (cases "rid = cmd_run c")
  case False
  then have "runs (snd (exec_cmd env c s)) rid = runs s rid"
    using exec_cmd_isolated [of rid c env s] by (simp add: run_view_def)
  with assms show ?thesis by (auto intro: run_change.unchanged)
next
  case own: True
  show ?thesis
  proof (cases c)
    case (Transition now utc rid' v args)
    then show ?thesis
      using own assms
      by (auto simp: transition_runs guarded_ok split: sum.splits
          intro: run_change.unchanged run_change.transition)
  next
    case (Acquire now rid' owner ttl v)
    then show ?thesis
      using own assms
      by (auto simp: acquire_lease_def attempt_op_def current_at_ok Let_def split: sum.splits
          intro: run_change.unchanged run_change.lease_change)
  next
    case (Release rid' owner v)
    then show ?thesis
      using own assms
      by (auto simp: release_lease_def attempt_op_def current_at_ok split: sum.splits
          intro: run_change.unchanged run_change.lease_change)
  qed (use own assms in \<open>auto simp: store_op_defs attempt_op_def Let_def split: sum.splits option.splits
          intro: run_change.unchanged\<close>)
qed

lemma run_change_version:
  "run_change sr sr' \<Longrightarrow>
     (sr_version sr' = sr_version sr \<and> sr_status sr' = sr_status sr)
     \<or> (sr_version sr' = sr_version sr + 1 \<and> status_step (sr_status sr) (sr_status sr'))"
  by (auto elim!: run_change.cases simp: transitioned_def status_step_simps)

lemma run_change_identity:
  "run_change sr sr' \<Longrightarrow> sr_run_id sr' = sr_run_id sr \<and> sr_definition_id sr' = sr_definition_id sr
     \<and> sr_definition_version sr' = sr_definition_version sr \<and> sr_created_at sr' = sr_created_at sr"
  by (auto elim!: run_change.cases simp: transitioned_def)

text \<open>Over any interleaving: the version counts the transitions of a legal history.\<close>

lemma exec_cmds_history:
  assumes "runs s rid = Some sr"
  shows "\<exists>sr' h. runs (exec_cmds env cs s) rid = Some sr' \<and> legal_history (sr_status sr) h
     \<and> sr_status sr' = last (sr_status sr # h) \<and> sr_version sr' = sr_version sr + int (length h)"
  using assms
proof (induction cs arbitrary: s sr)
  case Nil
  then show ?case by (intro exI [of _ sr] exI [of _ "[]"]) simp
next
  case (Cons c cs)
  obtain sr1 where sr1: "runs (snd (exec_cmd env c s)) rid = Some sr1" "run_change sr sr1"
    using exec_cmd_run_change [OF Cons.prems] by blast
  obtain sr' h where h: "runs (exec_cmds env cs (snd (exec_cmd env c s))) rid = Some sr'"
    "legal_history (sr_status sr1) h" "sr_status sr' = last (sr_status sr1 # h)"
    "sr_version sr' = sr_version sr1 + int (length h)"
    using Cons.IH [OF sr1(1)] by blast
  from run_change_version [OF sr1(2)] show ?case
  proof
    assume "sr_version sr1 = sr_version sr \<and> sr_status sr1 = sr_status sr"
    with h show ?case by (intro exI [of _ sr'] exI [of _ h]) simp
  next
    assume "sr_version sr1 = sr_version sr + 1 \<and> status_step (sr_status sr) (sr_status sr1)"
    with h show ?case by (intro exI [of _ sr'] exI [of _ "sr_status sr1 # h"]) simp
  qed
qed

lemma terminal_absorbing:
  assumes "runs s rid = Some sr" and "is_terminal (sr_status sr)"
  shows "\<exists>sr'. runs (exec_cmds env cs s) rid = Some sr' \<and> sr_status sr' = sr_status sr
     \<and> sr_version sr' = sr_version sr"
proof -
  obtain sr' h where h: "runs (exec_cmds env cs s) rid = Some sr'" "legal_history (sr_status sr) h"
    "sr_status sr' = last (sr_status sr # h)" "sr_version sr' = sr_version sr + int (length h)"
    using exec_cmds_history [OF assms(1)] by blast
  moreover have "h = []" using terminal_history [OF assms(2) h(2)] .
  ultimately show ?thesis by simp
qed

section \<open>Failed calls\<close>

text \<open>
  Every operation but three raises before its first write. The three are \<open>create_run\<close>
  and \<open>transition_run\<close>, which decode what they wrote, and the writes of
  \<open>transition_run\<close> and \<open>reserve_model_attempt\<close> that precede an encoding.
\<close>

lemma failed_unchanged:
  "acquire_lease now rid owner ttl v s = (Inl e, s') \<Longrightarrow> s' = s"
  "release_lease rid owner v s = (Inl e, s') \<Longrightarrow> s' = s"
  "record_step now st v ow s = (Inl e, s') \<Longrightarrow> s' = s"
  "record_attempt env now a v ow s = (Inl e, s') \<Longrightarrow> s' = s"
  "record_checkpoint env now c v ow s = (Inl e, s') \<Longrightarrow> s' = s"
  "record_policy_decision now d v ow s = (Inl e, s') \<Longrightarrow> s' = s"
  by (auto simp: store_op_defs attempt_op_Inl Let_def split_checkpoint_def checkpoint_to_record_def
      bindE_eq_Inr split: if_splits)

lemma stale_version_rejected:
  assumes "runs s rid = Some sr" and "sr_version sr \<noteq> v"
  shows "acquire_lease now rid owner ttl v s = (Inl StaleRunVersionError, s)"
    and "release_lease rid owner v s = (Inl StaleRunVersionError, s)"
    and "transition_run env now utc rid v args s = (Inl StaleRunVersionError, s)"
    and "step_run_id st = rid \<Longrightarrow> record_step now st v ow s = (Inl StaleRunVersionError, s)"
    and "attempt_run_id a = rid \<Longrightarrow> record_attempt env now a v ow s = (Inl StaleRunVersionError, s)"
    and "cp_run_id c = rid \<Longrightarrow> record_checkpoint env now c v ow s = (Inl StaleRunVersionError, s)"
    and "pdr_run_id d = rid \<Longrightarrow> record_policy_decision now d v ow s = (Inl StaleRunVersionError, s)"
  using assms guarded_stale [OF assms]
  by (simp_all add: acquire_lease_def release_lease_def transition_run_def record_step_def
      record_attempt_def record_checkpoint_def record_policy_decision_def current_at_def)

text \<open>Rejections of \<open>transition_run\<close> by its guards leave the store alone.\<close>

lemma transition_rejected:
  "guarded now s rid v (to_lease_owner args) = Inl e \<Longrightarrow>
     transition_run env now utc rid v args s = (Inl e, s)"
  "guarded now s rid v (to_lease_owner args) = Inr cur \<Longrightarrow>
     to_status args \<notin> set (ALLOWED_TRANSITIONS (sr_status cur)) \<Longrightarrow>
     transition_run env now utc rid v args s = (Inl IllegalRunTransitionError, s)"
  by (simp_all add: transition_run_def validate_transition_def)

section \<open>The store invariant\<close>

definition codec_ok :: "store_env \<Rightarrow> bool" where
  "codec_ok env \<longleftrightarrow> payload_codec (env_encode env) (env_decode env)"

definition snapshot_ok :: "store_env \<Rightarrow> definition_snapshot option \<Rightarrow> bool" where
  "snapshot_ok env sn \<longleftrightarrow>
     (\<forall>x. sn = Some x \<longrightarrow> env_load_snapshot env (env_dump_snapshot env x) = Inr x)"

definition history_ok :: "store_env \<Rightarrow> conversation_message list \<Rightarrow> bool" where
  "history_ok env h \<longleftrightarrow> h = [] \<or> env_load_history env (env_dump_history env h) = Inr h"

text \<open>
  Command arguments whose snapshot and history survive their JSON round trip and, for a
  transition, whose new payloads the codec accepts.
\<close>

definition encodable :: "store_env \<Rightarrow> pystr option \<Rightarrow> bool" where
  "encodable env t \<longleftrightarrow> (\<forall>x. t = Some x \<longrightarrow> (\<exists>b. env_encode env x = Inr b))"

definition transition_args_ok :: "store_env \<Rightarrow> transition_args \<Rightarrow> bool" where
  "transition_args_ok env args \<longleftrightarrow> snapshot_ok env (to_snapshot args) \<and> encodable env (to_output args)
     \<and> encodable env (map_option (env_dump_snapshot env) (to_snapshot args))"

fun cmd_ok :: "store_env \<Rightarrow> store_cmd \<Rightarrow> bool" where
  "cmd_ok env (Create run) \<longleftrightarrow> snapshot_ok env (run_snapshot run) \<and> history_ok env (run_history run)"
| "cmd_ok env (Transition now utc rid v args) \<longleftrightarrow> transition_args_ok env args"
| "cmd_ok env _ \<longleftrightarrow> True"

definition stored_text :: "store_env \<Rightarrow> run_store \<Rightarrow> ident \<Rightarrow> string \<Rightarrow> pystr option" where
  "stored_text env s rid f =
     (case payloads s (rid, f) of
        None \<Rightarrow> None | Some b \<Rightarrow> (case env_decode env b of Inl _ \<Rightarrow> None | Inr t \<Rightarrow> Some t))"

definition payloads_inv :: "store_env \<Rightarrow> run_store \<Rightarrow> ident \<Rightarrow> bool" where
  "payloads_inv env s rid \<longleftrightarrow> (\<forall>f b. payloads s (rid, f) = Some b \<longrightarrow> (\<exists>t. env_decode env b = Inr t))"

definition metadata_inv :: "store_env \<Rightarrow> run_store \<Rightarrow> ident \<Rightarrow> bool" where
  "metadata_inv env s rid \<longleftrightarrow>
     (case runs s rid of
        None \<Rightarrow> run_view s rid = run_view empty_store rid
      | Some sr \<Rightarrow>
          sr_run_id sr = rid
          \<and> stored_text env s rid FIELD_RUN_INPUT \<noteq> None
          \<and> (\<forall>m. sr_snapshot sr = Some m \<longrightarrow>
               (\<exists>t sn. stored_text env s rid FIELD_RUN_SNAPSHOT = Some t
                  \<and> env_load_snapshot env t = Inr sn \<and> m = sn\<lparr>snap_instructions := []\<rparr>))
          \<and> (\<forall>t. stored_text env s rid FIELD_RUN_HISTORY = Some t \<longrightarrow>
               (\<exists>h. env_load_history env t = Inr h)))"

definition records_inv :: "store_env \<Rightarrow> run_store \<Rightarrow> ident \<Rightarrow> bool" where
  "records_inv env s rid \<longleftrightarrow>
     distinct (map step_id (entries (steps s) rid))
     \<and> (\<forall>x \<in> set (entries (steps s) rid). step_run_id x = rid)
     \<and> (\<forall>a \<in> set (entries (attempts s) rid). sa_run_id a = rid \<and> sa_error a = None
          \<and> (\<forall>c. sa_error_code a = Some c \<longrightarrow> recordable_code c))
     \<and> (\<forall>c \<in> set (entries (checkpoints s) rid). sc_run_id c = rid
          \<and> stored_text env s rid (checkpoint_output_field (sc_step_id c)) \<noteq> None)
     \<and> (\<forall>d \<in> set (entries (policy_decisions s) rid). pdr_run_id d = rid)"

definition store_inv :: "store_env \<Rightarrow> run_store \<Rightarrow> bool" where
  "store_inv env s \<longleftrightarrow> (\<forall>rid. payloads_inv env s rid \<and> metadata_inv env s rid \<and> records_inv env s rid)"

lemma inv_cong:
  assumes "run_view s rid = run_view s' rid"
  shows "payloads_inv env s rid = payloads_inv env s' rid"
    and "metadata_inv env s rid = metadata_inv env s' rid"
    and "records_inv env s rid = records_inv env s' rid"
proof -
  have p: "payloads s (rid, f) = payloads s' (rid, f)" for f
    using assms by (auto simp: run_view_def dest: fun_cong)
  then have t: "stored_text env s rid f = stored_text env s' rid f" for f
    by (simp add: stored_text_def)
  have v: "runs s rid = runs s' rid" "steps s rid = steps s' rid" "attempts s rid = attempts s' rid"
    "checkpoints s rid = checkpoints s' rid" "policy_decisions s rid = policy_decisions s' rid"
    using assms by (simp_all add: run_view_def)
  show "payloads_inv env s rid = payloads_inv env s' rid" by (simp add: payloads_inv_def p)
  show "metadata_inv env s rid = metadata_inv env s' rid"
    by (simp add: metadata_inv_def t v(1) assms cong: option.case_cong)
  show "records_inv env s rid = records_inv env s' rid"
    by (simp add: records_inv_def t entries_def v)
qed

lemma no_orphans:
  assumes "store_inv env s" and "runs s rid = None"
  shows "run_view s rid = run_view empty_store rid"
proof -
  have "metadata_inv env s rid" using assms(1) by (simp add: store_inv_def)
  with assms(2) show ?thesis by (simp add: metadata_inv_def)
qed

lemma store_inv_empty: "store_inv env empty_store"
  by (simp add: store_inv_def payloads_inv_def metadata_inv_def records_inv_def empty_store_def
      entries_def run_view_def)

section \<open>Writing and reading payloads\<close>

text \<open>\<open>ps\<close> holds encodings of the texts \<open>kvs\<close>, field by field.\<close>

definition decodes :: "store_env \<Rightarrow> payload_entries \<Rightarrow> (string \<times> pystr) list \<Rightarrow> bool" where
  "decodes env ps kvs \<longleftrightarrow>
     list_all2 (\<lambda>p q. fst p = fst q \<and> env_decode env (snd p) = Inr (snd q)) ps kvs"

lemma codec_decode: "codec_ok env \<Longrightarrow> env_encode env t = Inr b \<Longrightarrow> env_decode env b = Inr t"
  by (simp add: codec_ok_def payload_codec.decode_encode)

lemma decodes_field:
  "codec_ok env \<Longrightarrow> encode_field env f t = Inr ps \<Longrightarrow> decodes env ps [(f, t)]"
  by (auto simp: encode_field_def decodes_def bindE_eq_Inr codec_decode)

definition opt_entry :: "string \<Rightarrow> pystr option \<Rightarrow> (string \<times> pystr) list" where
  "opt_entry f t = (case t of None \<Rightarrow> [] | Some x \<Rightarrow> [(f, x)])"

lemma decodes_optional:
  "codec_ok env \<Longrightarrow> encode_optional env f t = Inr ps \<Longrightarrow> decodes env ps (opt_entry f t)"
  by (cases t) (auto simp: encode_optional_def opt_entry_def decodes_field, simp add: decodes_def)

lemma append_entriesE:
  assumes "append_entries a b = Inr ps"
  obtains xs ys where "a = Inr xs" and "b = Inr ys" and "ps = xs @ ys"
  using assms by (auto simp: append_entries_def bindE_eq_Inr)

lemma decodes_append:
  "decodes env xs ks \<Longrightarrow> decodes env ys ls \<Longrightarrow> decodes env (xs @ ys) (ks @ ls)"
  by (simp add: decodes_def list_all2_appendI)

lemma decodes_keys: "decodes env ps kvs \<Longrightarrow> map fst ps = map fst kvs"
  by (auto simp: decodes_def list_all2_conv_all_nth intro: nth_equalityI)

lemma decodes_map_of:
  "decodes env ps kvs \<Longrightarrow>
     (case map_of ps f of
        None \<Rightarrow> map_of kvs f = None
      | Some b \<Rightarrow> (\<exists>t. map_of kvs f = Some t \<and> env_decode env b = Inr t))"
  unfolding decodes_def by (induction ps kvs rule: list_all2_induct) (auto split: option.splits)

lemma stored_text_write:
  assumes "payloads s' = write_payloads rid ps (payloads s)" and "decodes env ps kvs"
    and "distinct (map fst kvs)"
  shows "stored_text env s' rid f =
     (case map_of kvs f of Some t \<Rightarrow> Some t | None \<Rightarrow> stored_text env s rid f)"
proof -
  have "distinct (map fst ps)" using decodes_keys [OF assms(2)] assms(3) by simp
  from write_payloads_map_of [OF this, of rid "payloads s" f] show ?thesis
    using decodes_map_of [OF assms(2), of f] assms(1)
    by (auto simp: stored_text_def split: option.splits)
qed

lemma payloads_inv_write:
  assumes "payloads s' = write_payloads rid ps (payloads s)" and "decodes env ps kvs"
    and "distinct (map fst kvs)" and "payloads_inv env s rid"
  shows "payloads_inv env s' rid"
proof -
  have "distinct (map fst ps)" using decodes_keys [OF assms(2)] assms(3) by simp
  note lookup = write_payloads_map_of [OF this, of rid "payloads s"]
  show ?thesis
    unfolding payloads_inv_def
  proof (intro allI impI)
    fix f b
    assume "payloads s' (rid, f) = Some b"
    then show "\<exists>t. env_decode env b = Inr t"
      using lookup [of f] decodes_map_of [OF assms(2), of f] assms(1,4)
      by (cases "map_of ps f") (auto simp: payloads_inv_def)
  qed
qed

lemma read_payload_inv:
  "payloads_inv env s rid \<Longrightarrow> read_payload env s rid f = Inr (stored_text env s rid f)"
  by (auto simp: read_payload_def stored_text_def payloads_inv_def split: option.splits sum.splits)
    (metis sum.simps(4))+

lemma load_run_inv:
  "payloads_inv env s rid \<Longrightarrow> load_run env s sr rid =
     bindE (restore_snapshot env (sr_snapshot sr) (stored_text env s rid FIELD_RUN_SNAPSHOT)) (\<lambda>sn.
     bindE (restore_history env (stored_text env s rid FIELD_RUN_HISTORY)) (\<lambda>h.
       run_to_record sr (stored_text env s rid FIELD_RUN_INPUT)
         (stored_text env s rid FIELD_RUN_OUTPUT) sn h))"
  by (simp add: load_run_def read_payload_inv)

lemma load_run_total:
  assumes "payloads_inv env s rid" and "metadata_inv env s rid" and "runs s rid = Some sr"
  shows "\<exists>r. load_run env s sr rid = Inr r"
proof -
  obtain i where i: "stored_text env s rid FIELD_RUN_INPUT = Some i"
    using assms(2,3) by (auto simp: metadata_inv_def)
  obtain h where h: "restore_history env (stored_text env s rid FIELD_RUN_HISTORY) = Inr h"
    using assms(2,3) by (cases "stored_text env s rid FIELD_RUN_HISTORY")
      (auto simp: metadata_inv_def restore_history_def)
  obtain sn where sn: "restore_snapshot env (sr_snapshot sr) (stored_text env s rid FIELD_RUN_SNAPSHOT) = Inr sn"
    using assms(2,3) by (cases "sr_snapshot sr") (auto simp: metadata_inv_def restore_snapshot_def)
  show ?thesis by (simp add: load_run_inv [OF assms(1)] i h sn run_to_record_def)
qed

section \<open>Every operation keeps the invariant\<close>

lemma inv_unaffected:
  assumes "payloads s' = payloads s" and "runs s' rid = runs s rid" and "runs s rid \<noteq> None"
  shows "payloads_inv env s rid \<Longrightarrow> payloads_inv env s' rid"
    and "metadata_inv env s rid \<Longrightarrow> metadata_inv env s' rid"
proof -
  have t: "stored_text env s' rid f = stored_text env s rid f" for f
    by (simp add: stored_text_def assms(1))
  show "payloads_inv env s rid \<Longrightarrow> payloads_inv env s' rid" by (simp add: payloads_inv_def assms(1))
  show "metadata_inv env s rid \<Longrightarrow> metadata_inv env s' rid"
    using assms(3) by (auto simp: metadata_inv_def t assms(2) split: option.splits)
qed

lemma store_inv_own:
  assumes "store_inv env s" and "\<And>rid. rid \<noteq> r \<Longrightarrow> run_view s' rid = run_view s rid"
    and "payloads_inv env s' r" and "metadata_inv env s' r" and "records_inv env s' r"
  shows "store_inv env s'"
proof -
  have "payloads_inv env s' rid \<and> metadata_inv env s' rid \<and> records_inv env s' rid" for rid
  proof (cases "rid = r")
    case False
    with assms(1) show ?thesis
      using inv_cong [OF assms(2) [OF False], of env] by (simp add: store_inv_def)
  qed (use assms in simp)
  then show ?thesis by (simp add: store_inv_def)
qed

lemma entries_upd [simp]: "entries (m(k \<mapsto> xs)) k = xs"
  by (simp add: entries_def)

lemma lease_update_inv:
  assumes "store_inv env s" and "runs s rid = Some cur"
  shows "store_inv env
    (s\<lparr>runs := (runs s)(rid \<mapsto> cur\<lparr>sr_lease_owner := o', sr_lease_expires_at := t\<rparr>)\<rparr>)"
proof (rule store_inv_own [OF assms(1)])
  let ?s = "s\<lparr>runs := (runs s)(rid \<mapsto> cur\<lparr>sr_lease_owner := o', sr_lease_expires_at := t\<rparr>)\<rparr>"
  have inv: "payloads_inv env s rid" "metadata_inv env s rid" "records_inv env s rid"
    using assms(1) by (simp_all add: store_inv_def)
  show "run_view ?s rid' = run_view s rid'" if "rid' \<noteq> rid" for rid'
    using that by (simp add: run_view_def)
  show "payloads_inv env ?s rid" using inv(1) by (simp add: payloads_inv_def)
  show "metadata_inv env ?s rid" using inv(2) assms(2) by (simp add: metadata_inv_def stored_text_def)
  show "records_inv env ?s rid" using inv(3) by (simp add: records_inv_def stored_text_def)
qed

lemma lease_ops_inv:
  assumes "store_inv env s"
  shows "store_inv env (snd (acquire_lease now rid owner ttl v s))"
    and "store_inv env (snd (release_lease rid owner v s))"
  using assms by (auto simp: acquire_lease_def release_lease_def attempt_op_def current_at_ok Let_def
      split: sum.splits intro: lease_update_inv)

text \<open>The record-keeping operations of an existing Run.\<close>

lemma record_step_inv:
  assumes "store_inv env s"
  shows "store_inv env (snd (record_step now st v ow s))"
proof (cases "guarded now s (step_run_id st) v ow")
  case (Inl e)
  then show ?thesis using assms by (simp add: record_step_def)
next
  case (Inr cur)
  let ?r = "step_run_id st" and ?s = "snd (record_step now st v ow s)"
  have s': "?s = s\<lparr>steps := (steps s)(?r \<mapsto> upsert step_id st (entries (steps s) ?r))\<rparr>"
    using Inr by (simp add: record_step_def)
  have inv: "payloads_inv env s ?r" "metadata_inv env s ?r" "records_inv env s ?r"
    using assms by (simp_all add: store_inv_def)
  have run: "runs s ?r \<noteq> None" using Inr by (auto simp: guarded_ok)
  show ?thesis
  proof (rule store_inv_own [OF assms view_frame(4)])
    show "payloads_inv env ?s ?r" "metadata_inv env ?s ?r"
      by (rule inv_unaffected [OF _ _ run]; simp add: s' inv)+
    show "records_inv env ?s ?r"
      using inv(3) set_upsert_subset [of step_id st "entries (steps s) ?r"]
      by (auto simp: s' records_inv_def stored_text_def intro: distinct_upsert)
  qed
qed

lemma record_policy_inv:
  assumes "store_inv env s"
  shows "store_inv env (snd (record_policy_decision now d v ow s))"
proof (cases "guarded now s (pdr_run_id d) v ow")
  case (Inl e)
  then show ?thesis using assms by (simp add: record_policy_decision_def)
next
  case (Inr cur)
  let ?r = "pdr_run_id d" and ?s = "snd (record_policy_decision now d v ow s)"
  have s': "?s = s\<lparr>policy_decisions := (policy_decisions s)(?r \<mapsto> entries (policy_decisions s) ?r @ [d])\<rparr>"
    using Inr by (simp add: record_policy_decision_def)
  have inv: "payloads_inv env s ?r" "metadata_inv env s ?r" "records_inv env s ?r"
    using assms by (simp_all add: store_inv_def)
  have run: "runs s ?r \<noteq> None" using Inr by (auto simp: guarded_ok)
  show ?thesis
  proof (rule store_inv_own [OF assms view_frame(7)])
    show "payloads_inv env ?s ?r" "metadata_inv env ?s ?r"
      by (rule inv_unaffected [OF _ _ run]; simp add: s' inv)+
    show "records_inv env ?s ?r" using inv(3) by (auto simp: s' records_inv_def stored_text_def)
  qed
qed

text \<open>Payload writes of an attempt or a checkpoint keep the run fields.\<close>

lemma metadata_inv_write:
  assumes "payloads s' = write_payloads rid ps (payloads s)" and "decodes env ps kvs"
    and "distinct (map fst kvs)" and "runs s' rid = runs s rid" and "runs s rid \<noteq> None"
    and "set (map fst kvs) \<inter> {FIELD_RUN_INPUT, FIELD_RUN_SNAPSHOT, FIELD_RUN_HISTORY} = {}"
    and "metadata_inv env s rid"
  shows "metadata_inv env s' rid"
proof -
  have "stored_text env s' rid f = stored_text env s rid f"
    if f: "f \<in> {FIELD_RUN_INPUT, FIELD_RUN_SNAPSHOT, FIELD_RUN_HISTORY}" for f
  proof -
    have "f \<notin> set (map fst kvs)" using f assms(6) by blast
    then have "map_of kvs f = None" by (simp add: map_of_eq_None_iff)
    then show ?thesis using stored_text_write [OF assms(1-3), of f] by simp
  qed
  then show ?thesis using assms(4,5,7) by (auto simp: metadata_inv_def split: option.splits)
qed

lemma stored_text_write_some:
  assumes "payloads s' = write_payloads rid ps (payloads s)" and "decodes env ps kvs"
    and "distinct (map fst kvs)" and "stored_text env s rid f \<noteq> None"
  shows "stored_text env s' rid f \<noteq> None"
  using stored_text_write [OF assms(1-3), of f] assms(4) by (auto split: option.splits)

lemma split_attempt_ok:
  assumes "codec_ok env" and "split_attempt env a = Inr (stored, ps)"
  shows "stored = attempt_metadata a"
    and "decodes env ps (opt_entry (attempt_output_field (attempt_id a)) (attempt_output a)
           @ opt_entry (attempt_error_field (attempt_id a)) (attempt_error a))"
proof -
  show "stored = attempt_metadata a" using assms(2) by (auto simp: split_attempt_def bindE_eq_Inr)
  have "append_entries (encode_optional env (attempt_output_field (attempt_id a)) (attempt_output a))
      (encode_optional env (attempt_error_field (attempt_id a)) (attempt_error a)) = Inr ps"
    using assms(2) by (auto simp: split_attempt_def bindE_eq_Inr)
  then show "decodes env ps (opt_entry (attempt_output_field (attempt_id a)) (attempt_output a)
           @ opt_entry (attempt_error_field (attempt_id a)) (attempt_error a))"
    by (auto elim!: append_entriesE intro!: decodes_append decodes_optional assms(1))
qed

lemma attempt_entries_distinct:
  "distinct (map fst (opt_entry (attempt_output_field i) x @ opt_entry (attempt_error_field j) y))"
  "set (map fst (opt_entry (attempt_output_field i) x @ opt_entry (attempt_error_field j) y))
     \<inter> {FIELD_RUN_INPUT, FIELD_RUN_SNAPSHOT, FIELD_RUN_HISTORY} = {}"
  by (cases x; cases y; simp add: opt_entry_def; simp add: field_defs)+

lemma attempt_metadata_ok:
  "sa_run_id (attempt_metadata a) = attempt_run_id a" "sa_error (attempt_metadata a) = None"
  "sa_error_code (attempt_metadata a) = Some c \<Longrightarrow> recordable_code c"
  "sa_attempt_id (attempt_metadata a) = attempt_id a"
  "sa_model_purpose (attempt_metadata a) = attempt_model_purpose a"
  by (auto simp: attempt_metadata_def)

lemma record_attempt_inv:
  assumes "store_inv env s" and "codec_ok env"
  shows "store_inv env (snd (record_attempt env now a v ow s))"
proof (cases "\<exists>cur stored ps. guarded now s (attempt_run_id a) v ow = Inr cur
    \<and> split_attempt env a = Inr (stored, ps)")
  case False
  then have "snd (record_attempt env now a v ow s) = s"
    by (auto simp: record_attempt_def attempt_op_def split: sum.splits)
  with assms(1) show ?thesis by simp
next
  case True
  then obtain cur stored ps where g: "guarded now s (attempt_run_id a) v ow = Inr cur"
    and sp: "split_attempt env a = Inr (stored, ps)" by blast
  let ?r = "attempt_run_id a" and ?s = "snd (record_attempt env now a v ow s)"
  note dec = split_attempt_ok [OF assms(2) sp]
  have s': "?s = s\<lparr>attempts := (attempts s)(?r \<mapsto> upsert sa_attempt_id stored (entries (attempts s) ?r)),
      payloads := write_payloads ?r ps (payloads s)\<rparr>"
    using g sp by (simp add: record_attempt_def)
  then have w: "payloads ?s = write_payloads ?r ps (payloads s)" by simp
  have inv: "payloads_inv env s ?r" "metadata_inv env s ?r" "records_inv env s ?r"
    using assms by (simp_all add: store_inv_def)
  have run: "runs s ?r \<noteq> None" using g by (auto simp: guarded_ok)
  show ?thesis
  proof (rule store_inv_own [OF assms(1) view_frame(5)])
    show "payloads_inv env ?s ?r"
      by (rule payloads_inv_write [OF w dec(2) attempt_entries_distinct(1) inv(1)])
    show "metadata_inv env ?s ?r"
      by (rule metadata_inv_write [OF w dec(2) attempt_entries_distinct(1) _ run
            attempt_entries_distinct(2) inv(2)]) (simp add: s')
    show "records_inv env ?s ?r"
      using inv(3) set_upsert_subset [of sa_attempt_id stored "entries (attempts s) ?r"]
        stored_text_write_some [OF w dec(2) attempt_entries_distinct(1)] dec(1)
      by (auto simp: s' records_inv_def attempt_metadata_ok)
  qed
qed

lemma reserve_inv:
  assumes "store_inv env s"
  shows "store_inv env (snd (reserve_model_attempt env now st a m1 m2 v owner s))"
proof (cases "\<exists>p cur. attempt_model_purpose a = Some p \<and> step_type st = STEP_MODEL
    \<and> step_run_id st = attempt_run_id a \<and> step_id st = attempt_step_id a
    \<and> guarded now s (attempt_run_id a) v (Some owner) = Inr cur")
  case False
  then have "snd (reserve_model_attempt env now st a m1 m2 v owner s) = s"
    by (auto simp: reserve_model_attempt_def attempt_op_def split: option.splits sum.splits)
  with assms(1) show ?thesis by simp
next
  case True
  then obtain p cur where p: "attempt_model_purpose a = Some p" "step_type st = STEP_MODEL"
    "step_run_id st = attempt_run_id a" "step_id st = attempt_step_id a"
    and g: "guarded now s (attempt_run_id a) v (Some owner) = Inr cur" by blast
  let ?r = "attempt_run_id a" and ?s = "snd (reserve_model_attempt env now st a m1 m2 v owner s)"
  have same: "payloads ?s = payloads s" "runs ?s = runs s" "checkpoints ?s = checkpoints s"
    "policy_decisions ?s = policy_decisions s"
    using g p by (auto simp: reserve_model_attempt_def attempt_op_def Let_def split: sum.splits)
  have st: "entries (steps ?s) ?r \<in> {entries (steps s) ?r, upsert step_id st (entries (steps s) ?r)}"
    using g p by (auto simp: reserve_model_attempt_def attempt_op_def Let_def split: sum.splits)
  have at: "entries (attempts ?s) ?r \<in> {entries (attempts s) ?r, entries (attempts s) ?r @ [attempt_metadata a]}"
    using g p by (auto simp: reserve_model_attempt_def attempt_op_def split_attempt_def bindE_eq_Inr Let_def
        split: sum.splits)
  have inv: "payloads_inv env s ?r" "metadata_inv env s ?r" "records_inv env s ?r"
    using assms by (simp_all add: store_inv_def)
  have run: "runs s ?r \<noteq> None" using g by (auto simp: guarded_ok)
  show ?thesis
  proof (rule store_inv_own [OF assms(1) view_frame(8)])
    show "payloads_inv env ?s ?r" "metadata_inv env ?s ?r"
      by (rule inv_unaffected [OF _ _ run]; simp add: same inv)+
    have "distinct (map step_id (entries (steps ?s) ?r)) \<and> (\<forall>x \<in> set (entries (steps ?s) ?r). step_run_id x = ?r)"
      using st inv(3) set_upsert_subset [of step_id st "entries (steps s) ?r"] p(3)
      by (auto simp: records_inv_def distinct_upsert)
    moreover have "\<forall>x \<in> set (entries (attempts ?s) ?r). sa_run_id x = ?r \<and> sa_error x = None
        \<and> (\<forall>c. sa_error_code x = Some c \<longrightarrow> recordable_code c)"
      using at inv(3) by (auto simp: records_inv_def attempt_metadata_ok)
    ultimately show "records_inv env ?s ?r"
      using inv(3) by (simp add: records_inv_def same stored_text_def)
  qed
qed

lemma record_checkpoint_inv:
  assumes "store_inv env s" and "codec_ok env"
  shows "store_inv env (snd (record_checkpoint env now c v ow s))"
proof (cases "\<exists>cur stored ps. guarded now s (cp_run_id c) v ow = Inr cur
    \<and> split_checkpoint env c = Inr (stored, ps)")
  case False
  then have "snd (record_checkpoint env now c v ow s) = s"
    by (auto simp: record_checkpoint_def attempt_op_def split: sum.splits)
  with assms(1) show ?thesis by simp
next
  case True
  then obtain cur stored ps where g: "guarded now s (cp_run_id c) v ow = Inr cur"
    and sp: "split_checkpoint env c = Inr (stored, ps)" by blast
  let ?r = "cp_run_id c" and ?s = "snd (record_checkpoint env now c v ow s)"
    and ?f = "checkpoint_output_field (cp_step_id c)"
  have st: "stored = checkpoint_metadata c" and enc: "encode_field env ?f (cp_output c) = Inr ps"
    using sp by (auto simp: split_checkpoint_def bindE_eq_Inr)
  note dec = decodes_field [OF assms(2) enc]
  have s': "?s = s\<lparr>checkpoints := (checkpoints s)(?r \<mapsto> entries (checkpoints s) ?r @ [stored]),
      payloads := write_payloads ?r ps (payloads s)\<rparr>"
    using g sp by (simp add: record_checkpoint_def)
  then have w: "payloads ?s = write_payloads ?r ps (payloads s)" by simp
  have d: "distinct (map fst [(?f, cp_output c)])" by simp
  have inv: "payloads_inv env s ?r" "metadata_inv env s ?r" "records_inv env s ?r"
    using assms by (simp_all add: store_inv_def)
  have run: "runs s ?r \<noteq> None" using g by (auto simp: guarded_ok)
  show ?thesis
  proof (rule store_inv_own [OF assms(1) view_frame(6)])
    show "payloads_inv env ?s ?r" by (rule payloads_inv_write [OF w dec d inv(1)])
    show "metadata_inv env ?s ?r"
      by (rule metadata_inv_write [OF w dec d _ run _ inv(2)]) (auto simp: s' field_defs)
    show "records_inv env ?s ?r"
      using inv(3) stored_text_write_some [OF w dec d] stored_text_write [OF w dec d, of ?f]
      by (auto simp: s' records_inv_def st checkpoint_metadata_def)
  qed
qed

text \<open>The texts a Run record puts into the payload area.\<close>

definition run_texts :: "store_env \<Rightarrow> run_record \<Rightarrow> (string \<times> pystr) list" where
  "run_texts env run = [(FIELD_RUN_INPUT, run_input run)] @ opt_entry FIELD_RUN_OUTPUT (run_output run)
     @ opt_entry FIELD_RUN_SNAPSHOT (map_option (env_dump_snapshot env) (run_snapshot run))
     @ opt_entry FIELD_RUN_HISTORY
         (if run_history run = [] then None else Some (env_dump_history env (run_history run)))"

lemma run_payloads_decode:
  assumes "codec_ok env" and "run_payloads env run = Inr ps"
  shows "decodes env ps (run_texts env run)"
  using assms(2) unfolding run_payloads_def run_texts_def
  by (elim append_entriesE) (simp only: append_assoc,
      intro decodes_append decodes_optional decodes_field assms(1); assumption)

lemma opt_entry_simps [simp]:
  "map_of (opt_entry f t) g = (if g = f then t else None)"
  "fst ` set (opt_entry f t) = (if t = None then {} else {f})"
  "distinct (map fst (opt_entry f t))"
  by (cases t; auto simp: opt_entry_def)+

lemma run_texts_distinct: "distinct (map fst (run_texts env run))"
  using run_fields_distinct(2) by (auto simp: run_texts_def split: if_splits)

lemma run_texts_lookup:
  "map_of (run_texts env run) FIELD_RUN_INPUT = Some (run_input run)"
  "map_of (run_texts env run) FIELD_RUN_OUTPUT = run_output run"
  "map_of (run_texts env run) FIELD_RUN_SNAPSHOT = map_option (env_dump_snapshot env) (run_snapshot run)"
  "map_of (run_texts env run) FIELD_RUN_HISTORY =
     (if run_history run = [] then None else Some (env_dump_history env (run_history run)))"
  using run_fields_distinct(2)
  by (auto simp: run_texts_def map_add_def split: option.splits)

lemma decode_entry_text:
  "decodes env ps kvs \<Longrightarrow> decode_entry env ps f = Inr (map_of kvs f)"
  using decodes_map_of [of env ps kvs f] by (auto simp: decode_entry_def split: option.splits)

lemma restore_created:
  assumes "snapshot_ok env (run_snapshot run)" and "history_ok env (run_history run)"
  shows "restore_snapshot env (snapshot_metadata (run_snapshot run))
           (map_option (env_dump_snapshot env) (run_snapshot run)) = Inr (run_snapshot run)"
    and "restore_history env (if run_history run = [] then None
           else Some (env_dump_history env (run_history run))) = Inr (run_history run)"
  using assms by (auto simp: restore_snapshot_def snapshot_metadata_def snapshot_ok_def
      restore_history_def history_ok_def split: option.splits)

lemma run_to_record_inverse:
  "run_to_record (run_metadata run) (Some (run_input run)) (run_output run) (run_snapshot run)
     (run_history run) = Inr run"
  by (simp add: run_to_record_def run_metadata_def)

lemma create_run_ok:
  assumes "codec_ok env" and "snapshot_ok env (run_snapshot run)" and "history_ok env (run_history run)"
    and "runs s (run_id run) = None" and "run_payloads env run = Inr ps"
  shows "create_run env run s = (Inr run,
     s\<lparr>runs := (runs s)(run_id run \<mapsto> run_metadata run),
       payloads := write_payloads (run_id run) ps (payloads s)\<rparr>)"
proof -
  note dec = decode_entry_text [OF run_payloads_decode [OF assms(1,5)]]
  have "sr_snapshot (run_metadata run) = snapshot_metadata (run_snapshot run)"
    by (simp add: run_metadata_def)
  then show ?thesis
    using assms(4,5) restore_created [OF assms(2,3)]
    by (simp add: create_run_def split_run_def dec run_texts_lookup run_to_record_inverse)
qed

lemma create_run_failed:
  assumes "codec_ok env" and "snapshot_ok env (run_snapshot run)" and "history_ok env (run_history run)"
    and "create_run env run s = (Inl e, s')"
  shows "s' = s"
proof (cases "runs s (run_id run) = None \<and> (\<exists>ps. run_payloads env run = Inr ps)")
  case True
  then show ?thesis using create_run_ok [OF assms(1-3)] assms(4) by auto
next
  case False
  then show ?thesis
    using assms(4)
    by (cases "run_payloads env run") (auto simp: create_run_def split_run_def split: if_splits)
qed

lemma create_stored_text:
  assumes "codec_ok env" and "store_inv env s" and "runs s (run_id run) = None"
    and "run_payloads env run = Inr ps"
    and "payloads s' = write_payloads (run_id run) ps (payloads s)"
  shows "payloads_inv env s' (run_id run)"
    and "stored_text env s' (run_id run) f = map_of (run_texts env run) f"
proof -
  note dec = run_payloads_decode [OF assms(1,4)]
  have "payloads_inv env s (run_id run)" using assms(2) by (simp add: store_inv_def)
  then show "payloads_inv env s' (run_id run)"
    by (rule payloads_inv_write [OF assms(5) dec run_texts_distinct])
  have "run_view s (run_id run) = run_view empty_store (run_id run)"
    by (rule no_orphans [OF assms(2,3)])
  then have "payloads s (run_id run, f) = None"
    by (auto simp: run_view_def empty_store_def dest: fun_cong)
  then show "stored_text env s' (run_id run) f = map_of (run_texts env run) f"
    using stored_text_write [OF assms(5) dec run_texts_distinct, of f]
    by (simp add: stored_text_def split: option.splits)
qed

text \<open>What was created can be read back, field by field.\<close>

lemma create_get_roundtrip:
  assumes "codec_ok env" and "snapshot_ok env (run_snapshot run)" and "history_ok env (run_history run)"
    and "store_inv env s" and "create_run env run s = (Inr r, s')"
  shows "r = run" and "get_run env (run_id run) s' = Inr (Some run)"
proof -
  obtain ps where new: "runs s (run_id run) = None" and ps: "run_payloads env run = Inr ps"
    using assms(5) by (auto simp: create_run_def split_run_def bindE_eq_Inr split: if_splits)
  note c = create_run_ok [OF assms(1-3) new ps]
  then have s': "s' = s\<lparr>runs := (runs s)(run_id run \<mapsto> run_metadata run),
       payloads := write_payloads (run_id run) ps (payloads s)\<rparr>" and "r = run"
    using assms(5) by auto
  then show "r = run" by simp
  note t = create_stored_text [OF assms(1,4) new ps, of s']
  show "get_run env (run_id run) s' = Inr (Some run)"
    using s' t restore_created [OF assms(2,3)]
    by (simp add: get_run_def load_run_inv run_texts_lookup run_to_record_inverse)
      (simp add: run_metadata_def run_to_record_def)
qed

lemma create_inv:
  assumes "store_inv env s" and "codec_ok env" and "snapshot_ok env (run_snapshot run)"
    and "history_ok env (run_history run)"
  shows "store_inv env (snd (create_run env run s))"
proof (cases "runs s (run_id run) = None \<and> (\<exists>ps. run_payloads env run = Inr ps)")
  case False
  then have "snd (create_run env run s) = s"
    by (cases "run_payloads env run") (auto simp: create_run_def split_run_def)
  with assms(1) show ?thesis by simp
next
  case True
  then obtain ps where new: "runs s (run_id run) = None" and ps: "run_payloads env run = Inr ps" by blast
  let ?s = "snd (create_run env run s)" and ?r = "run_id run"
  have s': "?s = s\<lparr>runs := (runs s)(?r \<mapsto> run_metadata run),
      payloads := write_payloads ?r ps (payloads s)\<rparr>"
    by (simp add: create_run_ok [OF assms(2-4) new ps])
  note t = create_stored_text [OF assms(2,1) new ps, of ?s]
  have v: "run_view s ?r = run_view empty_store ?r" by (rule no_orphans [OF assms(1) new])
  show ?thesis
  proof (rule store_inv_own [OF assms(1) view_frame(3)])
    show "payloads_inv env ?s ?r" using t(1) s' by simp
    show "metadata_inv env ?s ?r"
      using t(2) s' assms(3,4)
      by (auto simp: metadata_inv_def run_texts_lookup run_metadata_def snapshot_metadata_def
          snapshot_ok_def history_ok_def split: if_splits)
    show "records_inv env ?s ?r"
      using v by (simp add: s' records_inv_def run_view_def empty_store_def entries_def)
  qed
qed

section \<open>Transitions\<close>

lemma write_payloads_append:
  "write_payloads rid (ps @ qs) d = write_payloads rid qs (write_payloads rid ps d)"
  by (induction ps arbitrary: d) auto

lemma write_optional_ok:
  assumes "encodable env t"
  shows "\<exists>ps. encode_optional env f t = Inr ps
     \<and> write_optional env rid f t s = (Inr (), s\<lparr>payloads := write_payloads rid ps (payloads s)\<rparr>)"
  using assms
  by (cases t) (auto simp: encodable_def encode_optional_def encode_field_def write_optional_def)

definition transition_texts :: "store_env \<Rightarrow> transition_args \<Rightarrow> (string \<times> pystr) list" where
  "transition_texts env args = opt_entry FIELD_RUN_OUTPUT (to_output args)
     @ opt_entry FIELD_RUN_SNAPSHOT (map_option (env_dump_snapshot env) (to_snapshot args))"

lemma transition_texts_distinct: "distinct (map fst (transition_texts env args))"
  using run_fields_distinct(2) by (auto simp: transition_texts_def split: if_splits)

lemma transition_texts_lookup:
  "map_of (transition_texts env args) FIELD_RUN_OUTPUT = to_output args"
  "map_of (transition_texts env args) FIELD_RUN_SNAPSHOT =
     map_option (env_dump_snapshot env) (to_snapshot args)"
  "map_of (transition_texts env args) FIELD_RUN_INPUT = None"
  "map_of (transition_texts env args) FIELD_RUN_HISTORY = None"
  using run_fields_distinct(2) by (auto simp: transition_texts_def map_add_def split: option.splits)

text \<open>An accepted transition is one atomic update, and the returned record is the stored one.\<close>

lemma transition_accepted:
  assumes "codec_ok env" and "transition_args_ok env args"
    and "guarded now s rid v (to_lease_owner args) = Inr cur"
    and "to_status args \<in> set (ALLOWED_TRANSITIONS (sr_status cur))"
  obtains ps where "decodes env ps (transition_texts env args)"
    and "transition_run env now utc rid v args s =
       (let s' = s\<lparr>runs := (runs s)(rid \<mapsto> transitioned utc args cur),
                   payloads := write_payloads rid ps (payloads s)\<rparr>
        in (load_run env s' (transitioned utc args cur) rid, s'))"
proof -
  let ?s1 = "s\<lparr>runs := (runs s)(rid \<mapsto> transitioned utc args cur)\<rparr>"
  obtain ps where ps: "encode_optional env FIELD_RUN_OUTPUT (to_output args) = Inr ps"
    "write_optional env rid FIELD_RUN_OUTPUT (to_output args) ?s1 =
       (Inr (), ?s1\<lparr>payloads := write_payloads rid ps (payloads ?s1)\<rparr>)"
    using write_optional_ok [of env "to_output args" FIELD_RUN_OUTPUT rid ?s1] assms(2)
    by (auto simp: transition_args_ok_def)
  let ?s2 = "?s1\<lparr>payloads := write_payloads rid ps (payloads ?s1)\<rparr>"
    and ?t = "map_option (env_dump_snapshot env) (to_snapshot args)"
  obtain qs where qs: "encode_optional env FIELD_RUN_SNAPSHOT ?t = Inr qs"
    "write_optional env rid FIELD_RUN_SNAPSHOT ?t ?s2 =
       (Inr (), ?s2\<lparr>payloads := write_payloads rid qs (payloads ?s2)\<rparr>)"
    using write_optional_ok [of env ?t FIELD_RUN_SNAPSHOT rid ?s2] assms(2)
    by (auto simp: transition_args_ok_def)
  have "decodes env (ps @ qs) (transition_texts env args)"
    unfolding transition_texts_def
    by (intro decodes_append decodes_optional assms(1) ps(1) qs(1))
  moreover have "transition_run env now utc rid v args s =
       (let s' = s\<lparr>runs := (runs s)(rid \<mapsto> transitioned utc args cur),
                   payloads := write_payloads rid (ps @ qs) (payloads s)\<rparr>
        in (load_run env s' (transitioned utc args cur) rid, s'))"
    using assms(3,4) ps(2) qs(2)
    by (simp add: transition_run_def validate_transition_def Let_def and_then_def write_payloads_append)
  ultimately show thesis by (rule that)
qed

lemma transition_inv_step:
  assumes "store_inv env s" and "codec_ok env" and "transition_args_ok env args"
    and "runs s rid = Some cur" and "decodes env ps (transition_texts env args)"
    and s'_def: "s' = s\<lparr>runs := (runs s)(rid \<mapsto> transitioned utc args cur),
                 payloads := write_payloads rid ps (payloads s)\<rparr>"
  shows "store_inv env s'"
proof (rule store_inv_own [OF assms(1)])
  have inv: "payloads_inv env s rid" "metadata_inv env s rid" "records_inv env s rid"
    using assms(1) by (simp_all add: store_inv_def)
  have w: "payloads s' = write_payloads rid ps (payloads s)" by (simp add: s'_def)
  note texts = stored_text_write [OF w assms(5) transition_texts_distinct]
  show "run_view s' rid' = run_view s rid'" if "rid' \<noteq> rid" for rid'
    using that by (simp add: s'_def run_view_def write_payloads_other)
  show "payloads_inv env s' rid"
    by (rule payloads_inv_write [OF w assms(5) transition_texts_distinct inv(1)])
  have "sr_snapshot (transitioned utc args cur) = Some m \<Longrightarrow>
      (\<exists>t sn. stored_text env s' rid FIELD_RUN_SNAPSHOT = Some t
         \<and> env_load_snapshot env t = Inr sn \<and> m = sn\<lparr>snap_instructions := []\<rparr>)" for m
    using inv(2) assms(3,4) texts [of FIELD_RUN_SNAPSHOT]
    by (cases "to_snapshot args")
      (auto simp: transitioned_def metadata_inv_def snapshot_metadata_def transition_args_ok_def
        snapshot_ok_def transition_texts_lookup)
  moreover have "sr_run_id (transitioned utc args cur) = sr_run_id cur" by (simp add: transitioned_def)
  moreover have r: "runs s' rid = Some (transitioned utc args cur)" by (simp add: s'_def)
  moreover have "stored_text env s' rid FIELD_RUN_INPUT = stored_text env s rid FIELD_RUN_INPUT"
    "stored_text env s' rid FIELD_RUN_HISTORY = stored_text env s rid FIELD_RUN_HISTORY"
    using texts by (simp_all add: transition_texts_lookup)
  ultimately show "metadata_inv env s' rid"
    using inv(2) assms(4) by (simp add: metadata_inv_def)
  show "records_inv env s' rid"
    using inv(3) stored_text_write_some [OF w assms(5) transition_texts_distinct]
    by (auto simp: records_inv_def s'_def)
qed

lemma transition_inv:
  assumes "store_inv env s" and "codec_ok env" and "transition_args_ok env args"
  shows "store_inv env (snd (transition_run env now utc rid v args s))"
proof (cases "\<exists>cur. guarded now s rid v (to_lease_owner args) = Inr cur
    \<and> to_status args \<in> set (ALLOWED_TRANSITIONS (sr_status cur))")
  case False
  then have "snd (transition_run env now utc rid v args s) = s"
    by (cases "guarded now s rid v (to_lease_owner args)") (auto simp: transition_rejected)
  with assms(1) show ?thesis by simp
next
  case True
  then obtain cur where cur: "guarded now s rid v (to_lease_owner args) = Inr cur"
    "to_status args \<in> set (ALLOWED_TRANSITIONS (sr_status cur))" by blast
  then have run: "runs s rid = Some cur" by (simp add: guarded_ok)
  show ?thesis
    by (rule transition_accepted [OF assms(2,3) cur, of utc])
      (simp add: Let_def transition_inv_step [OF assms run])
qed

lemma transition_result:
  assumes "store_inv env s" and "codec_ok env" and "transition_args_ok env args"
    and "guarded now s rid v (to_lease_owner args) = Inr cur"
    and "to_status args \<in> set (ALLOWED_TRANSITIONS (sr_status cur))"
  shows "\<exists>r s'. transition_run env now utc rid v args s = (Inr r, s')
     \<and> runs s' rid = Some (transitioned utc args cur) \<and> get_run env rid s' = Inr (Some r)"
proof -
  obtain ps where ps: "decodes env ps (transition_texts env args)"
    "transition_run env now utc rid v args s =
       (let s' = s\<lparr>runs := (runs s)(rid \<mapsto> transitioned utc args cur),
                   payloads := write_payloads rid ps (payloads s)\<rparr>
        in (load_run env s' (transitioned utc args cur) rid, s'))"
    by (rule transition_accepted [OF assms(2-5)])
  let ?s = "s\<lparr>runs := (runs s)(rid \<mapsto> transitioned utc args cur),
              payloads := write_payloads rid ps (payloads s)\<rparr>"
  have "runs s rid = Some cur" using assms(4) by (simp add: guarded_ok)
  then have "store_inv env ?s" by (rule transition_inv_step [OF assms(1-3) _ ps(1) refl])
  then obtain r where r: "load_run env ?s (transitioned utc args cur) rid = Inr r"
    using load_run_total [of env ?s rid "transitioned utc args cur"] by (auto simp: store_inv_def)
  then show ?thesis by (simp add: ps(2) Let_def get_run_def)
qed

lemma transition_failed_unchanged:
  assumes "store_inv env s" and "codec_ok env" and "transition_args_ok env args"
    and "transition_run env now utc rid v args s = (Inl e, s')"
  shows "s' = s"
proof (cases "\<exists>cur. guarded now s rid v (to_lease_owner args) = Inr cur
    \<and> to_status args \<in> set (ALLOWED_TRANSITIONS (sr_status cur))")
  case True
  then obtain cur where cur: "guarded now s rid v (to_lease_owner args) = Inr cur"
    "to_status args \<in> set (ALLOWED_TRANSITIONS (sr_status cur))" by blast
  then show ?thesis using transition_result [OF assms(1-3) cur, of utc] assms(4) by auto
next
  case False
  then show ?thesis using assms(4)
    by (cases "guarded now s rid v (to_lease_owner args)") (auto simp: transition_rejected)
qed

section \<open>Reachable stores\<close>

lemma exec_cmd_inv:
  assumes "store_inv env s" and "codec_ok env" and "cmd_ok env c"
  shows "store_inv env (snd (exec_cmd env c s))"
  using assms by (cases c) (simp_all add: lease_ops_inv create_inv transition_inv record_step_inv
      record_attempt_inv reserve_inv record_checkpoint_inv record_policy_inv)

inductive reachable :: "store_env \<Rightarrow> run_store \<Rightarrow> bool" for env where
  reach_empty: "reachable env empty_store"
| reach_step: "reachable env s \<Longrightarrow> cmd_ok env c \<Longrightarrow> reachable env (snd (exec_cmd env c s))"

lemma reachable_inv:
  assumes "reachable env s" and "codec_ok env"
  shows "store_inv env s"
  using assms by (induction rule: reachable.induct) (simp_all add: store_inv_empty exec_cmd_inv)

lemma reachable_cmds:
  "list_all (cmd_ok env) cs \<Longrightarrow> reachable env s \<Longrightarrow> reachable env (exec_cmds env cs s)"
  by (induction cs arbitrary: s) (auto intro: reach_step)

text \<open>Reads of a store that satisfies the invariant never raise.\<close>

lemma reads_total:
  assumes "store_inv env s"
  shows "\<exists>r. get_run env rid s = Inr r" and "\<exists>as. get_attempts env rid s = Inr as"
    and "\<exists>cs. get_checkpoints env rid s = Inr cs"
proof -
  have inv: "payloads_inv env s rid" "metadata_inv env s rid" "records_inv env s rid"
    using assms by (simp_all add: store_inv_def)
  show "\<exists>r. get_run env rid s = Inr r"
    using load_run_total [OF inv(1,2)] by (cases "runs s rid") (auto simp: get_run_def)
  show "\<exists>as. get_attempts env rid s = Inr as"
    by (auto simp: get_attempts_def read_payload_inv [OF inv(1)] intro!: exI mapE_all_ok)
  have "\<exists>x. checkpoint_to_record c (stored_text env s rid (checkpoint_output_field (sc_step_id c))) = Inr x"
    if "c \<in> set (entries (checkpoints s) rid)" for c
    using inv(3) that by (auto simp: records_inv_def checkpoint_to_record_def)
  then show "\<exists>cs. get_checkpoints env rid s = Inr cs"
    unfolding get_checkpoints_def
    by (simp add: read_payload_inv [OF inv(1)] mapE_total)
qed

section \<open>Sequences of commands, failures and budgets\<close>

lemma exec_cmds_isolated:
  "\<forall>c \<in> set cs. cmd_run c \<noteq> rid \<Longrightarrow> run_view (exec_cmds env cs s) rid = run_view s rid"
proof (induction cs arbitrary: s)
  case (Cons c cs)
  then show ?case using exec_cmd_isolated [of rid c env s] by fastforce
qed simp

lemma outcome_of_pair [simp]:
  "outcome_of r = (None, s') \<longleftrightarrow> (\<exists>v. r = (Inr v, s'))"
  "outcome_of r = (Some e, s') \<longleftrightarrow> r = (Inl e, s')"
  by (cases r; auto simp: outcome_of_def split: sum.splits)+

text \<open>Reservations as the Runner makes them: the reserved attempt has no payload yet.\<close>

fun bare_reservation :: "store_cmd \<Rightarrow> bool" where
  "bare_reservation (Reserve now st a m1 m2 v owner) \<longleftrightarrow> attempt_output a = None \<and> attempt_error a = None"
| "bare_reservation _ \<longleftrightarrow> True"

lemma split_attempt_bare:
  "attempt_output a = None \<Longrightarrow> attempt_error a = None \<Longrightarrow> split_attempt env a = Inr (attempt_metadata a, [])"
  by (simp add: split_attempt_def encode_optional_def append_entries_def)

lemma failed_cmd_unchanged:
  assumes "store_inv env s" and "codec_ok env" and "cmd_ok env c" and "bare_reservation c"
    and "exec_cmd env c s = (Some e, s')"
  shows "s' = s"
proof (cases c)
  case (Create run)
  then show ?thesis using assms(3,5) create_run_failed [OF assms(2), of run s e s'] by simp
next
  case (Transition now utc rid v args)
  then show ?thesis
    using assms(3,5) transition_failed_unchanged [OF assms(1,2), of args now utc rid v e s'] by simp
next
  case (Reserve now st a m1 m2 v owner)
  then show ?thesis using assms(4,5)
    by (auto simp: reserve_model_attempt_def attempt_op_Inl split_attempt_bare Let_def split: option.splits if_splits)
qed (use assms(5) in \<open>auto dest: failed_unchanged\<close>)

text \<open>A granted reservation is within both limits and is recorded; a refused one is not.\<close>

lemma reserve_granted:
  assumes "reserve_model_attempt env now st a m1 m2 v owner s = (Inr True, s')"
  shows "\<exists>p. attempt_model_purpose a = Some p
     \<and> entries (attempts s') (attempt_run_id a) = entries (attempts s) (attempt_run_id a) @ [attempt_metadata a]
     \<and> (\<forall>n. m1 = Some n \<longrightarrow> int (length (model_attempts (entries (attempts s') (attempt_run_id a)))) \<le> n)
     \<and> (\<forall>n. m2 = Some n \<longrightarrow> int (length (purpose_attempts p (entries (attempts s') (attempt_run_id a)))) \<le> n)"
  using assms
  by (auto simp: reserve_model_attempt_def split_attempt_def bindE_eq_Inr Let_def model_attempts_def
      purpose_attempts_def attempt_metadata_def split: option.splits if_splits)

lemma reserve_refused:
  assumes "reserve_model_attempt env now st a m1 m2 v owner s = (Inr False, s')"
  shows "entries (attempts s') = entries (attempts s)" and "steps s' = steps s" and "runs s' = runs s"
    and "payloads s' = payloads s"
proof -
  have s': "s' = s\<lparr>attempts := (attempts s)(attempt_run_id a \<mapsto> entries (attempts s) (attempt_run_id a))\<rparr>"
    using assms by (auto simp: reserve_model_attempt_def Let_def split: option.splits if_splits)
  then show "entries (attempts s') = entries (attempts s)" and "steps s' = steps s" and "runs s' = runs s"
    and "payloads s' = payloads s" by (auto simp: entries_def fun_eq_iff)
qed

text \<open>A codec failure in a transition comes after the metadata write.\<close>

lemma transition_encode_failure:
  assumes "guarded now s rid v (to_lease_owner args) = Inr cur"
    and "to_status args \<in> set (ALLOWED_TRANSITIONS (sr_status cur))"
    and "to_output args = Some t" and "env_encode env t = Inl e"
  shows "transition_run env now utc rid v args s = (Inl e, s\<lparr>runs := (runs s)(rid \<mapsto> transitioned utc args cur)\<rparr>)"
proof -
  have legal: "validate_transition (sr_status cur) (to_status args) = Inr ()" using assms(2) by simp
  show ?thesis
    using assms by (simp add: transition_run_def legal Let_def and_then_def write_optional_def
        del: validate_transition_ok)
qed

end
