(* ===== verification/Lease_Protocol.thy ===== *)
theory Lease_Protocol
  imports Store_Laws
begin

text \<open>
  The contract between Runners and a Run Store (\<open>RunStore\<close> protocol of
  \<open>src/src/m_agent/_store.py\<close>): exclusive leases, owner-guarded mutations and optimistic
  versions. It is a locale over the commands of a store; fencing of stale owners and the
  absence of lost updates are proved from its laws for every interleaving of commands,
  and the in-memory store is an instance.
\<close>

datatype lease_kind =
    K_Acquire timestamp ident ident timestamp int
  | K_Release ident ident int
  | K_Mutate timestamp ident "ident option" int bool
  | K_Create ident

fun kind_run :: "lease_kind \<Rightarrow> ident" where
  "kind_run (K_Acquire now rid owner expires v) = rid"
| "kind_run (K_Release rid owner v) = rid"
| "kind_run (K_Mutate now rid owner v bump) = rid"
| "kind_run (K_Create rid) = rid"

text \<open>
  \<open>K_Acquire now rid owner expires v\<close>: acquisition at clock \<open>now\<close> until \<open>expires\<close>;
  \<open>K_Mutate now rid owner v bump\<close>: a mutation at expected version \<open>v\<close>, by a lease owner
  or unowned, that advances the version when \<open>bump\<close>.
\<close>

locale lease_store =
  fixes exec :: "'c \<Rightarrow> 's \<Rightarrow> exn option \<times> 's"
    and kind :: "'c \<Rightarrow> lease_kind"
    and lease_of :: "'s \<Rightarrow> ident \<Rightarrow> (ident \<times> timestamp) option"
    and version_of :: "'s \<Rightarrow> ident \<Rightarrow> int option"
  assumes acquired: "kind c = K_Acquire now rid owner expires v \<Longrightarrow> exec c s = (None, s') \<Longrightarrow>
      version_of s rid = Some v \<and> (\<forall>o' t. lease_of s rid = Some (o', t) \<longrightarrow> o' = owner \<or> t \<le> now)
      \<and> lease_of s' rid = Some (owner, expires) \<and> version_of s' rid = version_of s rid"
    and acquire_failed: "kind c = K_Acquire now rid owner expires v \<Longrightarrow> exec c s = (Some e, s') \<Longrightarrow> s' = s"
    and released: "kind c = K_Release rid owner v \<Longrightarrow> exec c s = (None, s') \<Longrightarrow>
      version_of s rid = Some v \<and> (\<forall>o' t. lease_of s rid = Some (o', t) \<longrightarrow> o' = owner)
      \<and> lease_of s' rid = None \<and> version_of s' rid = version_of s rid"
    and release_failed: "kind c = K_Release rid owner v \<Longrightarrow> exec c s = (Some e, s') \<Longrightarrow> s' = s"
    and mutated: "kind c = K_Mutate now rid ow v bump \<Longrightarrow> exec c s = (None, s') \<Longrightarrow>
      version_of s rid = Some v
      \<and> (\<forall>owner. ow = Some owner \<longrightarrow> (\<exists>t. lease_of s rid = Some (owner, t) \<and> now < t))
      \<and> version_of s' rid = Some (if bump then v + 1 else v)"
    and mutate_frame: "kind c = K_Mutate now rid ow v bump \<Longrightarrow> version_of s rid = Some v0 \<Longrightarrow>
      lease_of (snd (exec c s)) rid = lease_of s rid
      \<and> (\<exists>v'. version_of (snd (exec c s)) rid = Some v' \<and> v0 \<le> v')"
    and create_frame: "kind c = K_Create rid \<Longrightarrow> version_of s rid \<noteq> None \<Longrightarrow>
      lease_of (snd (exec c s)) rid = lease_of s rid \<and> version_of (snd (exec c s)) rid = version_of s rid"
    and other_runs: "rid \<noteq> kind_run (kind c) \<Longrightarrow>
      lease_of (snd (exec c s)) rid = lease_of s rid \<and> version_of (snd (exec c s)) rid = version_of s rid"
begin

fun execs :: "'c list \<Rightarrow> 's \<Rightarrow> 's" where
  "execs [] s = s"
| "execs (c # cs) s = execs cs (snd (exec c s))"

lemma version_step:
  assumes "version_of s rid = Some v"
  shows "\<exists>v'. version_of (snd (exec c s)) rid = Some v' \<and> v \<le> v'"
proof (cases "rid = kind_run (kind c)")
  case False
  then show ?thesis using other_runs [of rid c s] assms by simp
next
  case own: True
  obtain r s' where e: "exec c s = (r, s')" by (cases "exec c s")
  show ?thesis
  proof (cases "kind c")
    case (K_Acquire now rid' owner expires w)
    then show ?thesis
      using own assms e acquired [OF K_Acquire, of s s'] acquire_failed [OF K_Acquire, of s _ s']
      by (cases r) auto
  next
    case (K_Release rid' owner w)
    then show ?thesis
      using own assms e released [OF K_Release, of s s'] release_failed [OF K_Release, of s _ s']
      by (cases r) auto
  next
    case (K_Mutate now rid' ow w bump)
    then show ?thesis using own assms mutate_frame [OF K_Mutate] by simp
  next
    case (K_Create rid')
    then show ?thesis using own assms create_frame [OF K_Create, of s] by simp
  qed
qed

lemma version_monotone:
  "version_of s rid = Some v \<Longrightarrow> \<exists>v'. version_of (execs cs s) rid = Some v' \<and> v \<le> v'"
proof (induction cs arbitrary: s v)
  case (Cons c cs)
  then obtain v1 where "version_of (snd (exec c s)) rid = Some v1" and "v \<le> v1"
    using version_step by blast
  then show ?case using Cons.IH [of "snd (exec c s)" v1] by (auto intro: order_trans)
qed simp

text \<open>Two updates computed from the same version cannot both take effect.\<close>

lemma no_lost_update:
  assumes "kind c = K_Mutate now rid ow v True" and "exec c s = (None, s1)"
    and "kind d = K_Mutate now' rid ow' v bump"
  shows "fst (exec d (execs cs s1)) \<noteq> None"
proof
  assume "fst (exec d (execs cs s1)) = None"
  then obtain s2 where "exec d (execs cs s1) = (None, s2)" by (cases "exec d (execs cs s1)") auto
  then have "version_of (execs cs s1) rid = Some v" using mutated [OF assms(3)] by simp
  moreover have "version_of s1 rid = Some (v + 1)" using mutated [OF assms(1,2)] by simp
  then obtain v' where "version_of (execs cs s1) rid = Some v'" "v + 1 \<le> v'"
    using version_monotone [of s1 rid "v + 1" cs] by blast
  ultimately show False by simp
qed

text \<open>
  Commands that do not come from the holder \<open>B\<close> of the lease of \<open>rid\<close>, issued while the
  lease lasts.
\<close>

definition foreign :: "ident \<Rightarrow> timestamp \<Rightarrow> ident \<Rightarrow> 'c \<Rightarrow> bool" where
  "foreign B t rid c \<longleftrightarrow>
     (case kind c of
        K_Acquire now r owner expires v \<Rightarrow> r = rid \<longrightarrow> owner \<noteq> B \<and> now < t
      | K_Release r owner v \<Rightarrow> r = rid \<longrightarrow> owner \<noteq> B
      | _ \<Rightarrow> True)"

lemma lease_kept_step:
  assumes "lease_of s rid = Some (B, t)" and "version_of s rid = Some v" and "foreign B t rid c"
  shows "lease_of (snd (exec c s)) rid = Some (B, t)"
proof (cases "rid = kind_run (kind c)")
  case False
  then show ?thesis using other_runs [of rid c s] assms by simp
next
  case own: True
  obtain r s' where e: "exec c s = (r, s')" by (cases "exec c s")
  show ?thesis
  proof (cases "kind c")
    case (K_Acquire now rid' owner expires w)
    then show ?thesis
      using own assms e acquired [OF K_Acquire, of s s'] acquire_failed [OF K_Acquire, of s _ s']
      by (cases r) (auto simp: foreign_def)
  next
    case (K_Release rid' owner w)
    then show ?thesis
      using own assms e released [OF K_Release, of s s'] release_failed [OF K_Release, of s _ s']
      by (cases r) (auto simp: foreign_def)
  next
    case (K_Mutate now rid' ow w bump)
    then show ?thesis using own assms mutate_frame [OF K_Mutate, of s v] by simp
  next
    case (K_Create rid')
    then show ?thesis using own assms create_frame [OF K_Create, of s] by simp
  qed
qed

lemma lease_kept:
  "lease_of s rid = Some (B, t) \<Longrightarrow> version_of s rid = Some v \<Longrightarrow> list_all (foreign B t rid) cs \<Longrightarrow>
     lease_of (execs cs s) rid = Some (B, t)"
proof (induction cs arbitrary: s v)
  case (Cons c cs)
  then show ?case
    using lease_kept_step [of s rid B t v c] version_step [of s rid v c] by auto
qed simp

text \<open>Fencing: while \<open>B\<close> holds the lease, no mutation in another owner's name succeeds.\<close>

lemma fenced:
  assumes "lease_of s rid = Some (B, t)" and "version_of s rid = Some v"
    and "list_all (foreign B t rid) cs"
    and "kind d = K_Mutate now rid (Some A) w bump" and "A \<noteq> B"
  shows "fst (exec d (execs cs s)) \<noteq> None"
proof
  assume "fst (exec d (execs cs s)) = None"
  then obtain s2 where "exec d (execs cs s) = (None, s2)" by (cases "exec d (execs cs s)") auto
  then have "\<exists>t. lease_of (execs cs s) rid = Some (A, t)" using mutated [OF assms(4)] by blast
  then show False using lease_kept [OF assms(1-3)] assms(5) by simp
qed

text \<open>A takeover is possible only after expiry or release.\<close>

lemma takeover_after_expiry:
  assumes "lease_of s rid = Some (B, t)" and "kind c = K_Acquire now rid owner expires v"
    and "owner \<noteq> B" and "exec c s = (None, s')"
  shows "t \<le> now" and "lease_of s' rid = Some (owner, expires)"
  using acquired [OF assms(2,4)] assms(1,3) by auto

end

section \<open>The in-memory store\<close>

fun cmd_kind :: "store_cmd \<Rightarrow> lease_kind" where
  "cmd_kind (Acquire now rid owner ttl v) = K_Acquire now rid owner (now + ttl) v"
| "cmd_kind (Release rid owner v) = K_Release rid owner v"
| "cmd_kind (Create run) = K_Create (run_id run)"
| "cmd_kind (Transition now utc rid v args) = K_Mutate now rid (to_lease_owner args) v True"
| "cmd_kind (Record_Step now st v ow) = K_Mutate now (step_run_id st) ow v False"
| "cmd_kind (Record_Attempt now a v ow) = K_Mutate now (attempt_run_id a) ow v False"
| "cmd_kind (Reserve now st a m1 m2 v owner) = K_Mutate now (attempt_run_id a) (Some owner) v False"
| "cmd_kind (Record_Checkpoint now c v ow) = K_Mutate now (cp_run_id c) ow v False"
| "cmd_kind (Record_Policy now d v ow) = K_Mutate now (pdr_run_id d) ow v False"

definition stored_lease :: "run_store \<Rightarrow> ident \<Rightarrow> (ident \<times> timestamp) option" where
  "stored_lease s rid = map_option (\<lambda>l. (lease_owner l, lease_expires_at l)) (get_lease rid s)"

definition stored_version :: "run_store \<Rightarrow> ident \<Rightarrow> int option" where
  "stored_version s rid = map_option sr_version (runs s rid)"

lemma kind_run_cmd [simp]: "kind_run (cmd_kind c) = cmd_run c"
  by (cases c) simp_all

lemma stored_lease_eq:
  "stored_lease s rid = Some (owner, t) \<longleftrightarrow>
     (\<exists>sr. runs s rid = Some sr \<and> sr_lease_owner sr = Some owner \<and> sr_lease_expires_at sr = Some t)"
  by (auto simp: stored_lease_def get_lease_def split: option.splits)

lemma lease_of_runs: "runs s rid = runs s' rid \<Longrightarrow>
    stored_lease s rid = stored_lease s' rid \<and> stored_version s rid = stored_version s' rid"
  by (simp add: stored_lease_def stored_version_def get_lease_def)

lemma guarded_owner:
  "guarded now s rid v (Some owner) = Inr cur \<Longrightarrow> \<exists>t. stored_lease s rid = Some (owner, t) \<and> now < t"
  by (auto simp: guarded_ok check_lease_ok stored_lease_eq)

text \<open>An exec of a mutation went through its guard; only a transition touches the metadata.\<close>

lemma mutation_guarded:
  assumes "cmd_kind c = K_Mutate now rid ow v bump" and "exec_cmd env c s = (None, s')"
  shows "\<exists>cur. guarded now s rid v ow = Inr cur
     \<and> (if bump then \<exists>utc args. runs s' = (runs s)(rid \<mapsto> transitioned utc args cur) else runs s' = runs s)"
proof (cases c)
  case (Transition now' utc rid' v' args)
  then have t: "now' = now" "rid' = rid" "to_lease_owner args = ow" "v' = v" "bump" using assms(1) by simp_all
  obtain r where r: "transition_run env now utc rid v args s = (Inr r, s')"
    using assms(2) Transition t by auto
  then obtain cur where cur: "guarded now s rid v ow = Inr cur"
      and val: "validate_transition (sr_status cur) (to_status args) = Inr ()"
    using t(3) by (auto simp: transition_run_def)
  have "runs s' = (runs s)(rid \<mapsto> transitioned utc args cur)"
    using transition_runs [of env now utc rid v args s] r cur val t(3) by simp
  with cur t(5) show ?thesis by auto
qed (use assms in \<open>auto simp: record_step_def record_attempt_def reserve_model_attempt_def
      record_checkpoint_def record_policy_decision_def Let_def split: option.splits if_splits\<close>)

lemma run_change_lease:
  "run_change sr sr' \<Longrightarrow> sr_version sr \<le> sr_version sr'"
  by (auto elim!: run_change.cases simp: transitioned_def)

lemma mutation_frame:
  assumes "cmd_kind c = K_Mutate now rid ow v bump" and "runs s rid = Some sr"
  shows "\<exists>sr'. runs (snd (exec_cmd env c s)) rid = Some sr' \<and> sr_lease_owner sr' = sr_lease_owner sr
     \<and> sr_lease_expires_at sr' = sr_lease_expires_at sr \<and> sr_version sr \<le> sr_version sr'"
proof (cases c)
  case (Transition now' utc rid' v' args)
  then show ?thesis
    using assms by (auto simp: transition_runs guarded_ok transitioned_def split: sum.splits)
qed (use assms in \<open>auto simp: store_op_defs attempt_op_def Let_def split: sum.splits option.splits\<close>)

interpretation memory: lease_store "exec_cmd env" cmd_kind stored_lease stored_version
proof
  fix c :: store_cmd and now rid owner expires v s s'
  assume k: "cmd_kind c = K_Acquire now rid owner expires v" and e: "exec_cmd env c s = (None, s')"
  then obtain ttl where c: "c = Acquire now rid owner ttl v" "expires = now + ttl" by (cases c) auto
  show "stored_version s rid = Some v
      \<and> (\<forall>o' t. stored_lease s rid = Some (o', t) \<longrightarrow> o' = owner \<or> t \<le> now)
      \<and> stored_lease s' rid = Some (owner, expires) \<and> stored_version s' rid = stored_version s rid"
    using e by (auto simp: c acquire_lease_def current_at_ok stored_lease_eq stored_version_def
        Let_def split: if_splits)
next
  fix c :: store_cmd and now rid owner expires v s e s'
  assume k: "cmd_kind c = K_Acquire now rid owner expires v" and e: "exec_cmd env c s = (Some e, s')"
  then obtain ttl where "c = Acquire now rid owner ttl v" by (cases c) auto
  then show "s' = s" using e failed_unchanged(1) [of now rid owner ttl v s e s'] by simp
next
  fix c :: store_cmd and rid owner v s s'
  assume k: "cmd_kind c = K_Release rid owner v" and e: "exec_cmd env c s = (None, s')"
  then have c: "c = Release rid owner v" by (cases c) auto
  show "stored_version s rid = Some v
      \<and> (\<forall>o' t. stored_lease s rid = Some (o', t) \<longrightarrow> o' = owner)
      \<and> stored_lease s' rid = None \<and> stored_version s' rid = stored_version s rid"
    using e by (auto simp: c release_lease_def current_at_ok stored_lease_eq stored_version_def
        split: if_splits) (simp add: stored_lease_def get_lease_def)
next
  fix c :: store_cmd and rid owner v s e s'
  assume k: "cmd_kind c = K_Release rid owner v" and e: "exec_cmd env c s = (Some e, s')"
  then have "c = Release rid owner v" by (cases c) auto
  then show "s' = s" using e failed_unchanged(2) [of rid owner v s e s'] by simp
next
  fix c :: store_cmd and now rid ow v bump s s'
  assume "cmd_kind c = K_Mutate now rid ow v bump" and "exec_cmd env c s = (None, s')"
  from mutation_guarded [OF this] obtain cur where g: "guarded now s rid v ow = Inr cur"
    and r: "if bump then \<exists>utc args. runs s' = (runs s)(rid \<mapsto> transitioned utc args cur) else runs s' = runs s"
    by blast
  have cur: "runs s rid = Some cur" "sr_version cur = v" using g by (simp_all add: guarded_ok)
  have "\<exists>t. stored_lease s rid = Some (owner, t) \<and> now < t" if "ow = Some owner" for owner
    using guarded_owner g that by blast
  moreover have "stored_version s' rid = Some (if bump then v + 1 else v)"
    using r cur by (cases bump) (auto simp: stored_version_def transitioned_def)
  ultimately show "stored_version s rid = Some v
      \<and> (\<forall>owner. ow = Some owner \<longrightarrow> (\<exists>t. stored_lease s rid = Some (owner, t) \<and> now < t))
      \<and> stored_version s' rid = Some (if bump then v + 1 else v)"
    using cur by (simp add: stored_version_def)
next
  fix c :: store_cmd and now rid ow v bump s v0
  assume k: "cmd_kind c = K_Mutate now rid ow v bump" and "stored_version s rid = Some v0"
  then obtain sr where "runs s rid = Some sr" "sr_version sr = v0" by (auto simp: stored_version_def)
  with mutation_frame [OF k this(1), of env]
  show "stored_lease (snd (exec_cmd env c s)) rid = stored_lease s rid
      \<and> (\<exists>v'. stored_version (snd (exec_cmd env c s)) rid = Some v' \<and> v0 \<le> v')"
    by (auto simp: stored_lease_def stored_version_def get_lease_def split: option.splits)
next
  fix c :: store_cmd and rid s
  assume k: "cmd_kind c = K_Create rid" and "stored_version s rid \<noteq> None"
  then have "snd (exec_cmd env c s) = s"
    by (cases c) (auto simp: stored_version_def create_run_def)
  then show "stored_lease (snd (exec_cmd env c s)) rid = stored_lease s rid
      \<and> stored_version (snd (exec_cmd env c s)) rid = stored_version s rid" by simp
next
  fix c :: store_cmd and rid s
  assume "rid \<noteq> kind_run (cmd_kind c)"
  then have "runs (snd (exec_cmd env c s)) rid = runs s rid"
    using exec_cmd_isolated [of rid c env s] by (simp add: run_view_def)
  then show "stored_lease (snd (exec_cmd env c s)) rid = stored_lease s rid
      \<and> stored_version (snd (exec_cmd env c s)) rid = stored_version s rid"
    by (rule lease_of_runs)
qed

lemma memory_execs [simp]: "memory.execs env cs s = exec_cmds env cs s"
  by (induction cs arbitrary: s) simp_all

text \<open>The laws read on the commands of the in-memory store.\<close>

fun mutation_owner :: "store_cmd \<Rightarrow> ident option" where
  "mutation_owner (Transition now utc rid v args) = to_lease_owner args"
| "mutation_owner (Record_Step now st v ow) = ow"
| "mutation_owner (Record_Attempt now a v ow) = ow"
| "mutation_owner (Reserve now st a m1 m2 v owner) = Some owner"
| "mutation_owner (Record_Checkpoint now c v ow) = ow"
| "mutation_owner (Record_Policy now d v ow) = ow"
| "mutation_owner _ = None"

fun mutation_version :: "store_cmd \<Rightarrow> int option" where
  "mutation_version (Transition now utc rid v args) = Some v"
| "mutation_version (Record_Step now st v ow) = Some v"
| "mutation_version (Record_Attempt now a v ow) = Some v"
| "mutation_version (Reserve now st a m1 m2 v owner) = Some v"
| "mutation_version (Record_Checkpoint now c v ow) = Some v"
| "mutation_version (Record_Policy now d v ow) = Some v"
| "mutation_version _ = None"

fun foreign_cmd :: "ident \<Rightarrow> timestamp \<Rightarrow> ident \<Rightarrow> store_cmd \<Rightarrow> bool" where
  "foreign_cmd B t rid (Acquire now r owner ttl v) \<longleftrightarrow> (r = rid \<longrightarrow> owner \<noteq> B \<and> now < t)"
| "foreign_cmd B t rid (Release r owner v) \<longleftrightarrow> (r = rid \<longrightarrow> owner \<noteq> B)"
| "foreign_cmd B t rid _ \<longleftrightarrow> True"

lemma foreign_cmd_eq: "memory.foreign B t rid c = foreign_cmd B t rid c"
  by (cases c) (simp_all add: memory.foreign_def)

lemma mutation_kind:
  "mutation_version c = Some v \<Longrightarrow>
     \<exists>now bump. cmd_kind c = K_Mutate now (cmd_run c) (mutation_owner c) v bump"
  by (cases c) auto

lemma owned_is_mutation: "mutation_owner c = Some A \<Longrightarrow> \<exists>v. mutation_version c = Some v"
  by (cases c) auto

lemma stored_lease_version: "stored_lease s rid = Some l \<Longrightarrow> \<exists>v. stored_version s rid = Some v"
  by (cases l) (auto simp: stored_lease_eq stored_version_def)

lemma fenced_cmd:
  assumes "stored_lease s rid = Some (B, t)" and "list_all (foreign_cmd B t rid) cs"
    and "cmd_run d = rid" and "mutation_owner d = Some A" and "A \<noteq> B"
  shows "\<exists>e. fst (exec_cmd env d (exec_cmds env cs s)) = Some e"
proof -
  obtain v w where v: "stored_version s rid = Some v" and w: "mutation_version d = Some w"
    using stored_lease_version [OF assms(1)] owned_is_mutation [OF assms(4)] by blast
  obtain now bump where k: "cmd_kind d = K_Mutate now rid (Some A) w bump"
    using mutation_kind [OF w] assms(3,4) by auto
  have "list_all (memory.foreign B t rid) cs" using assms(2) by (simp add: list_all_iff foreign_cmd_eq)
  from memory.fenced [OF assms(1) v this k assms(5), of env] show ?thesis by (simp add: memory_execs)
qed

lemma no_lost_update_cmd:
  assumes "exec_cmd env (Transition now utc rid v args) s = (None, s1)"
    and "cmd_run d = rid" and "mutation_version d = Some v"
  shows "\<exists>e. fst (exec_cmd env d (exec_cmds env cs s1)) = Some e"
proof -
  obtain now' bump where "cmd_kind d = K_Mutate now' rid (mutation_owner d) v bump"
    using mutation_kind [OF assms(3)] assms(2) by auto
  from memory.no_lost_update [OF _ assms(1) this, of now "to_lease_owner args" cs]
  show ?thesis by (simp add: memory_execs)
qed

end
