(* ===== verification/Runner_State.thy ===== *)
theory Runner_State
  imports Agent_Definition Lease_Protocol
begin

text \<open>
  The Runner of \<open>src/src/m_agent/_runner.py\<close>: its state, how it calls the Run Store, and the
  helpers all its entry points share. A coroutine of the Runner is a function on the state that
  ends with a result or a fault (\<open>'a runner\<close>).

  The in-memory store never suspends, so the event loop can run somebody else only while the
  Runner waits for an adapter, a tool, a provider or a retry delay. \<open>suspend\<close> is that moment:
  \<open>re_others\<close> says which store calls other workers made and which cancellations were requested
  during the n-th suspension. What an external call answers is a function of its number.
  \<open>rs_effects\<close> records the calls that reached the outside world, \<open>rs_updates\<close> what live
  subscribers were handed. Telemetry and the crash hook of the tests leave no trace here.
\<close>

section \<open>State and environment\<close>

datatype run_update_type = STATUS_CHANGED | STEP_STARTED | MODEL_DELTA | ATTEMPT_FAILED | STEP_COMPLETED

record run_update =
  upd_run_id :: ident
  upd_type :: run_update_type
  upd_step_id :: "ident option"
  upd_attempt_id :: "ident option"
  upd_step_type :: "step_type option"
  upd_status :: "run_status option"
  upd_content :: "pystr option"

datatype external_call =
    Model_Call ident ident ident model_purpose model_request
  | Tool_Call ident ident ident tool_request
  | Context_Call ident ident ident pystr

record runner_env =
  re_store :: store_env
  re_definitions :: definition_env
  re_registry :: definition_registry
  re_owner :: ident
  re_lease_ttl :: duration
  re_now :: "nat \<Rightarrow> timestamp"
  re_utc :: "nat \<Rightarrow> timestamp"
  re_new_id :: "nat \<Rightarrow> ident"
  re_others :: "nat \<Rightarrow> store_cmd list \<times> ident list"
  re_summary :: "(pystr \<times> json) list \<Rightarrow> string"
  re_loads :: "pystr \<Rightarrow> json option"
  re_loads_strict :: "pystr \<Rightarrow> json option"
  re_dump_outcome :: "tool_outcome \<Rightarrow> exn + pystr"
  re_load_outcome :: "pystr \<Rightarrow> exn + tool_outcome"
  re_dump_response :: "model_response \<Rightarrow> exn + pystr"
  re_load_response :: "pystr \<Rightarrow> exn + model_response"
  re_dump_items :: "context_item list \<Rightarrow> exn + pystr"
  re_load_items :: "pystr \<Rightarrow> exn + context_item list"
  re_dump_stage :: "context_stage_result \<Rightarrow> exn + pystr"
  re_parse_stage :: "pystr \<Rightarrow> context_stage_result option"
  re_dump_compression :: "compression_result \<Rightarrow> exn + pystr"
  re_load_compression :: "pystr \<Rightarrow> exn + compression_result"
  re_dump_tool :: "tool_spec \<Rightarrow> pystr"
  re_dumps :: "json \<Rightarrow> pystr"
  re_error_text :: "output_error \<Rightarrow> pystr"

record runner_state =
  rs_store :: run_store
  rs_ticks :: nat
  rs_ids :: nat
  rs_calls :: nat
  rs_cancel :: "ident set"
  rs_active :: "ident set"
  rs_updates :: "run_update list"
  rs_effects :: "external_call list"

type_synonym 'a runner = "runner_state \<Rightarrow> (fault + 'a) \<times> runner_state"

section \<open>Sequencing\<close>

definition retR :: "'a \<Rightarrow> 'a runner" where
  "retR x s = (Inr x, s)"

definition raiseR :: "exn \<Rightarrow> 'a runner" where
  "raiseR e s = (Inl (Exn e), s)"

definition bindR :: "'a runner \<Rightarrow> ('a \<Rightarrow> 'b runner) \<Rightarrow> 'b runner" where
  "bindR m f s = (case m s of (Inl e, s') \<Rightarrow> (Inl e, s') | (Inr x, s') \<Rightarrow> f x s')"

definition thenR :: "'a runner \<Rightarrow> 'b runner \<Rightarrow> 'b runner" where
  "thenR m n = bindR m (\<lambda>_. n)"

text \<open>\<open>except\<close> clauses: the handler sees every exception and re-raises what its clause lets
  through. \<open>Unfinished\<close> is not an exception and passes.\<close>

definition catchR :: "'a runner \<Rightarrow> (fault \<Rightarrow> 'a runner) \<Rightarrow> 'a runner" where
  "catchR m h s =
     (case m s of
        (Inl e, s') \<Rightarrow> if e = Unfinished then (Inl e, s') else h e s'
      | (Inr x, s') \<Rightarrow> (Inr x, s'))"

definition reraise :: "fault \<Rightarrow> 'a runner" where
  "reraise e s = (Inl e, s)"

definition finallyR :: "'a runner \<Rightarrow> unit runner \<Rightarrow> 'a runner" where
  "finallyR m c s =
     (case m s of (r, s') \<Rightarrow>
        (case c s' of (Inl e, s'') \<Rightarrow> (Inl e, s'') | (Inr _, s'') \<Rightarrow> (r, s'')))"

definition liftE :: "exn + 'a \<Rightarrow> 'a runner" where
  "liftE r = (case r of Inl e \<Rightarrow> raiseR e | Inr x \<Rightarrow> retR x)"

definition getR :: "(runner_state \<Rightarrow> 'a) \<Rightarrow> 'a runner" where
  "getR f s = (Inr (f s), s)"

definition modifyR :: "(runner_state \<Rightarrow> runner_state) \<Rightarrow> unit runner" where
  "modifyR f s = (Inr (), f s)"

lemmas runner_simps = retR_def raiseR_def bindR_def thenR_def catchR_def reraise_def finallyR_def
  liftE_def getR_def modifyR_def

lemma bindR_cong [fundef_cong]:
  assumes "s = s'" and "m s' = m' s'"
    and "\<And>x t. m' s' = (Inr x, t) \<Longrightarrow> f x t = f' x t"
  shows "bindR m f s = bindR m' f' s'"
  using assms by (cases "m' s'") (auto simp: bindR_def split: sum.splits)

text \<open>\<open>except (LeaseNotHeldError, StaleRunVersionError): raise\<close> followed by
  \<open>except Exception as exc\<close>: the exception becomes a value.\<close>

definition tryR :: "'a runner \<Rightarrow> (fault + 'a) runner" where
  "tryR m s =
     (case m s of
        (Inl e, s') \<Rightarrow>
          if e \<in> {Exn LeaseNotHeldError, Exn StaleRunVersionError, Unfinished} then (Inl e, s')
          else (Inr (Inl e), s')
      | (Inr x, s') \<Rightarrow> (Inr (Inr x), s'))"

section \<open>Calls to the store\<close>

text \<open>Every call reads the clocks once; the two clocks are independent functions.\<close>

definition store_op ::
  "runner_env \<Rightarrow> (timestamp \<Rightarrow> timestamp \<Rightarrow> run_store \<Rightarrow> (exn + 'a) \<times> run_store) \<Rightarrow> 'a runner" where
  "store_op env f s =
     (case f (re_now env (rs_ticks s)) (re_utc env (rs_ticks s)) (rs_store s) of (r, st) \<Rightarrow>
        (case r of Inl e \<Rightarrow> Inl (Exn e) | Inr x \<Rightarrow> Inr x,
         s\<lparr>rs_store := st, rs_ticks := Suc (rs_ticks s)\<rparr>))"

definition store_get :: "(run_store \<Rightarrow> exn + 'a) \<Rightarrow> 'a runner" where
  "store_get f = bindR (getR (\<lambda>s. f (rs_store s))) liftE"

definition acquire_run_lease :: "runner_env \<Rightarrow> run_record \<Rightarrow> run_lease runner" where
  "acquire_run_lease env run =
     store_op env (\<lambda>now utc. acquire_lease now (run_id run) (re_owner env) (re_lease_ttl env)
       (run_version run))"

definition release_run_lease :: "runner_env \<Rightarrow> ident \<Rightarrow> run_lease \<Rightarrow> int \<Rightarrow> unit runner" where
  "release_run_lease env rid lease v =
     store_op env (\<lambda>now utc. release_lease rid (lease_owner lease) v)"

definition plain_args :: "run_status \<Rightarrow> run_lease \<Rightarrow> transition_args" where
  "plain_args status lease =
     \<lparr>to_status = status, to_snapshot = None, to_output = None, to_waiting_reason = None,
      to_waiting_step_id = None, to_error_code = None, to_lease_owner = Some (lease_owner lease)\<rparr>"

definition transition :: "runner_env \<Rightarrow> run_record \<Rightarrow> transition_args \<Rightarrow> run_record runner" where
  "transition env run args =
     store_op env (\<lambda>now utc.
       transition_run (re_store env) now utc (run_id run) (run_version run) args)"

definition write_step ::
  "runner_env \<Rightarrow> run_record \<Rightarrow> run_lease \<Rightarrow> ident \<Rightarrow> step_type \<Rightarrow> step_status \<Rightarrow> ident option
     \<Rightarrow> unit runner" where
  "write_step env run lease sid ty status code =
     thenR (store_op env (\<lambda>now utc. record_step now
       \<lparr>step_id = sid, step_run_id = run_id run, step_type = ty, step_status = status,
        step_error_code = code, step_created_at = utc\<rparr>
       (run_version run) (Some (lease_owner lease)))) (retR ())"

definition attempt_of_step :: "run_record \<Rightarrow> ident \<Rightarrow> ident \<Rightarrow> step_status \<Rightarrow> step_attempt" where
  "attempt_of_step run sid aid status =
     \<lparr>attempt_id = aid, attempt_step_id = sid, attempt_run_id = run_id run,
      attempt_status = status, attempt_output = None, attempt_error = None,
      attempt_classification = None, attempt_error_code = None, attempt_model_purpose = None,
      attempt_usage = None, attempt_created_at = 0\<rparr>"

text \<open>\<open>created_at\<close> of the attempt and of the checkpoint is the reading of \<open>utc_now()\<close>.\<close>

definition write_attempt ::
  "runner_env \<Rightarrow> run_record \<Rightarrow> run_lease \<Rightarrow> step_attempt \<Rightarrow> unit runner" where
  "write_attempt env run lease a =
     thenR (store_op env (\<lambda>now utc. record_attempt (re_store env) now
       (a\<lparr>attempt_created_at := utc\<rparr>) (run_version run) (Some (lease_owner lease)))) (retR ())"

definition write_checkpoint ::
  "runner_env \<Rightarrow> run_record \<Rightarrow> run_lease \<Rightarrow> ident \<Rightarrow> ident \<Rightarrow> step_type \<Rightarrow> pystr \<Rightarrow> unit runner" where
  "write_checkpoint env run lease sid aid ty output =
     thenR (store_op env (\<lambda>now utc. record_checkpoint (re_store env) now
       \<lparr>cp_run_id = run_id run, cp_step_id = sid, cp_attempt_id = aid, cp_step_type = ty,
        cp_output = output, cp_created_at = utc\<rparr>
       (run_version run) (Some (lease_owner lease)))) (retR ())"

definition attempts_of :: "runner_env \<Rightarrow> run_record \<Rightarrow> step_attempt list runner" where
  "attempts_of env run = store_get (get_attempts (re_store env) (run_id run))"

definition checkpoints_of :: "runner_env \<Rightarrow> run_record \<Rightarrow> step_checkpoint list runner" where
  "checkpoints_of env run = store_get (get_checkpoints (re_store env) (run_id run))"

definition new_id :: "runner_env \<Rightarrow> ident runner" where
  "new_id env s = (Inr (re_new_id env (rs_ids s)), s\<lparr>rs_ids := Suc (rs_ids s)\<rparr>)"

definition id_or_new :: "runner_env \<Rightarrow> ident option \<Rightarrow> ident runner" where
  "id_or_new env x = (case x of Some i \<Rightarrow> retR i | None \<Rightarrow> new_id env)"

definition suspend :: "runner_env \<Rightarrow> unit runner" where
  "suspend env s =
     (case re_others env (rs_calls s) of (cmds, cancels) \<Rightarrow>
        (Inr (), s\<lparr>rs_store := exec_cmds (re_store env) cmds (rs_store s),
                   rs_cancel := rs_cancel s \<union> set cancels,
                   rs_calls := Suc (rs_calls s)\<rparr>))"

text \<open>The call is on its way before anybody else runs; its answer arrives afterwards.\<close>

definition external :: "runner_env \<Rightarrow> external_call \<Rightarrow> (nat \<Rightarrow> fault + 'a) \<Rightarrow> 'a runner" where
  "external env call answer =
     bindR (getR rs_calls) (\<lambda>n.
     thenR (modifyR (\<lambda>s. s\<lparr>rs_effects := rs_effects s @ [call]\<rparr>))
     (thenR (suspend env)
        (case answer n of Inl e \<Rightarrow> reraise e | Inr x \<Rightarrow> retR x)))"

section \<open>Updates and cancellation\<close>

definition publish :: "run_update \<Rightarrow> unit runner" where
  "publish x = modifyR (\<lambda>s. s\<lparr>rs_updates := rs_updates s @ [x]\<rparr>)"

definition step_update :: "run_record \<Rightarrow> run_update_type \<Rightarrow> ident \<Rightarrow> ident \<Rightarrow> step_type \<Rightarrow> run_update" where
  "step_update run ty sid aid st =
     \<lparr>upd_run_id = run_id run, upd_type = ty, upd_step_id = Some sid, upd_attempt_id = Some aid,
      upd_step_type = Some st, upd_status = None, upd_content = None\<rparr>"

definition publish_status :: "ident \<Rightarrow> run_status \<Rightarrow> unit runner" where
  "publish_status rid status = publish
     \<lparr>upd_run_id = rid, upd_type = STATUS_CHANGED, upd_step_id = None, upd_attempt_id = None,
      upd_step_type = None, upd_status = Some status, upd_content = None\<rparr>"

definition cancel_requested :: "ident \<Rightarrow> bool runner" where
  "cancel_requested rid = getR (\<lambda>s. rid \<in> rs_cancel s)"

definition request_cancel :: "ident \<Rightarrow> unit runner" where
  "request_cancel rid = modifyR (\<lambda>s. s\<lparr>rs_cancel := insert rid (rs_cancel s)\<rparr>)"

definition clear_cancel :: "ident \<Rightarrow> unit runner" where
  "clear_cancel rid = modifyR (\<lambda>s. s\<lparr>rs_cancel := rs_cancel s - {rid}\<rparr>)"

definition set_active :: "ident \<Rightarrow> bool \<Rightarrow> unit runner" where
  "set_active rid b =
     modifyR (\<lambda>s. s\<lparr>rs_active := (if b then insert rid (rs_active s) else rs_active s - {rid})\<rparr>)"

text \<open>The common ending: a transition, the release of the lease, the notification.\<close>

definition end_with :: "runner_env \<Rightarrow> run_record \<Rightarrow> run_lease \<Rightarrow> transition_args \<Rightarrow> run_record runner" where
  "end_with env run lease args =
     bindR (transition env run args) (\<lambda>result.
     thenR (release_run_lease env (run_id run) lease (run_version result))
     (thenR (publish_status (run_id run) (to_status args)) (retR result)))"

definition maybe_cancel :: "runner_env \<Rightarrow> run_record \<Rightarrow> run_lease \<Rightarrow> run_record option runner" where
  "maybe_cancel env run lease =
     bindR (cancel_requested (run_id run)) (\<lambda>c.
     if \<not> c then retR None
     else bindR (transition env run (plain_args CANCELLED lease)) (\<lambda>result.
       thenR (release_run_lease env (run_id run) lease (run_version result))
       (thenR (clear_cancel (run_id run))
       (thenR (publish_status (run_id run) CANCELLED) (retR (Some result))))))"

definition assert_step_dispatch :: "runner_env \<Rightarrow> run_record \<Rightarrow> run_lease \<Rightarrow> unit runner" where
  "assert_step_dispatch env run lease =
     store_op env (\<lambda>now utc st.
       (assert_lease now (run_id run) (run_version run) (lease_owner lease) st, st))"

definition get_existing_run :: "runner_env \<Rightarrow> ident \<Rightarrow> run_record runner" where
  "get_existing_run env rid =
     bindR (store_get (get_run (re_store env) rid)) (\<lambda>r.
       case r of None \<Rightarrow> raiseR RunNotFoundError | Some run \<Rightarrow> retR run)"

text \<open>\<open>_release_quietly\<close> ignores three exceptions and no others.\<close>

definition release_quietly :: "runner_env \<Rightarrow> ident \<Rightarrow> run_lease \<Rightarrow> unit runner" where
  "release_quietly env rid lease =
     catchR
       (bindR (store_get (get_run (re_store env) rid)) (\<lambda>cur.
          case cur of
            None \<Rightarrow> retR ()
          | Some run \<Rightarrow> release_run_lease env rid lease (run_version run)))
       (\<lambda>e. if e \<in> {Exn LeaseNotHeldError, Exn RunNotFoundError, Exn StaleRunVersionError}
             then retR () else reraise e)"

section \<open>Failures and endings\<close>

definition ERROR_POLICY_ERROR :: ident where "ERROR_POLICY_ERROR = ''POLICY_ERROR''"
definition ERROR_POLICY_OUTCOME_PENDING :: ident where
  "ERROR_POLICY_OUTCOME_PENDING = ''POLICY_OUTCOME_PENDING''"
definition ERROR_OUTPUT_VALIDATION_FAILED :: ident where
  "ERROR_OUTPUT_VALIDATION_FAILED = ''OUTPUT_VALIDATION_FAILED''"
definition ERROR_EFFECT_UNCONFIRMED :: ident where
  "ERROR_EFFECT_UNCONFIRMED = ''effect_unconfirmed''"
definition ERROR_MODEL_EXECUTION_BUDGET_EXCEEDED :: ident where
  "ERROR_MODEL_EXECUTION_BUDGET_EXCEEDED = ''MODEL_EXECUTION_BUDGET_EXCEEDED''"
definition ERROR_CONTEXT_BUDGET_EXCEEDED :: ident where
  "ERROR_CONTEXT_BUDGET_EXCEEDED = ''CONTEXT_BUDGET_EXCEEDED''"
definition ERROR_CONTEXT_STAGE_UNSUPPORTED :: ident where
  "ERROR_CONTEXT_STAGE_UNSUPPORTED = ''CONTEXT_STAGE_UNSUPPORTED''"
definition ERROR_MODEL_CHECKPOINT_UNCONFIRMED :: ident where
  "ERROR_MODEL_CHECKPOINT_UNCONFIRMED = ''model_checkpoint_unconfirmed''"
definition ERROR_MODEL_DISPATCH_CANCELLED :: ident where
  "ERROR_MODEL_DISPATCH_CANCELLED = ''MODEL_DISPATCH_CANCELLED''"
definition ERROR_FROZEN_TOOL_DECLARATION_UNAVAILABLE :: ident where
  "ERROR_FROZEN_TOOL_DECLARATION_UNAVAILABLE = ''FROZEN_TOOL_DECLARATION_UNAVAILABLE''"
definition ERROR_COMPRESSION_CONTRACT_VIOLATION :: ident where
  "ERROR_COMPRESSION_CONTRACT_VIOLATION = ''COMPRESSION_CONTRACT_VIOLATION''"

type_synonym failure = "failure_classification \<times> string \<times> string"

definition record_failed_attempt ::
  "runner_env \<Rightarrow> run_record \<Rightarrow> run_lease \<Rightarrow> ident \<Rightarrow> failure \<Rightarrow> step_type \<Rightarrow> ident option
     \<Rightarrow> model_purpose option \<Rightarrow> model_usage option \<Rightarrow> unit runner" where
  "record_failed_attempt env run lease sid failure ty aid pur usage =
     (case failure of (cls, code, message) \<Rightarrow>
      bindR (id_or_new env aid) (\<lambda>i.
      thenR (write_attempt env run lease
        ((attempt_of_step run sid i STEP_FAILED)\<lparr>attempt_error := Some (ustr message),
           attempt_classification := Some cls, attempt_error_code := Some code,
           attempt_model_purpose := pur, attempt_usage := usage\<rparr>))
        (publish (step_update run ATTEMPT_FAILED sid i ty))))"

definition record_failed_step ::
  "runner_env \<Rightarrow> run_record \<Rightarrow> run_lease \<Rightarrow> ident \<Rightarrow> step_type \<Rightarrow> ident option \<Rightarrow> unit runner" where
  "record_failed_step env run lease sid ty code = write_step env run lease sid ty STEP_FAILED code"

definition should_retry ::
  "failure_classification \<Rightarrow> retry_policy option \<Rightarrow> int \<Rightarrow> tool_effect option \<Rightarrow> bool" where
  "should_retry cls policy count effect =
     (case policy of
        None \<Rightarrow> False
      | Some p \<Rightarrow>
          if cls \<noteq> TRANSIENT then False
          else if cls = UNCERTAIN \<and> effect = Some NON_IDEMPOTENT then False
          else count < max_attempts p)"

definition recovery_replay_allowed :: "retry_policy option \<Rightarrow> int \<Rightarrow> bool" where
  "recovery_replay_allowed policy count =
     (case policy of None \<Rightarrow> False | Some p \<Rightarrow> count < max_attempts p)"

definition sleep :: "runner_env \<Rightarrow> retry_policy option \<Rightarrow> unit runner" where
  "sleep env policy =
     (case policy of
        None \<Rightarrow> retR ()
      | Some p \<Rightarrow> if 0 < retry_delay p then suspend env else retR ())"

definition fail_run ::
  "runner_env \<Rightarrow> run_record \<Rightarrow> run_lease \<Rightarrow> ident option \<Rightarrow> run_record runner" where
  "fail_run env run lease code =
     end_with env run lease ((plain_args FAILED lease)\<lparr>to_error_code := code\<rparr>)"

definition terminate_run ::
  "runner_env \<Rightarrow> run_record \<Rightarrow> run_lease \<Rightarrow> run_status \<Rightarrow> run_record runner" where
  "terminate_run env run lease status = end_with env run lease (plain_args status lease)"

definition frozen_tool_effect :: "run_record \<Rightarrow> ident \<Rightarrow> tool_effect option" where
  "frozen_tool_effect run name =
     (case run_snapshot run of
        None \<Rightarrow> None
      | Some snap \<Rightarrow>
          (case filter (\<lambda>d. decl_name d = name) (snap_tool_declarations snap) of
             [d] \<Rightarrow> Some (decl_effect d)
           | _ \<Rightarrow> None))"

definition find_tool :: "agent_definition \<Rightarrow> ident \<Rightarrow> tool runner" where
  "find_tool d name =
     (case find (\<lambda>t. tool_name t = name) (def_tools d) of
        None \<Rightarrow> raiseR RuntimeError | Some t \<Rightarrow> retR t)"

definition retry_policy_of :: "run_record \<Rightarrow> retry_policy option" where
  "retry_policy_of run = (case run_snapshot run of None \<Rightarrow> None | Some s \<Rightarrow> snap_retry_policy s)"

end
