(* ===== verification/Runner_Gates.thy ===== *)
theory Runner_Gates
  imports Runner_State
begin

text \<open>
  What the Runner does around a Step, \<open>src/src/m_agent/_runner.py\<close>: the check that an adapter
  still is the frozen one, the policy gates, the reservation of model attempts, checkpoints of
  tool outcomes and the ways into WAITING.
\<close>

section \<open>The frozen adapter contract\<close>

definition model_bindings_match :: "model_binding_set \<Rightarrow> model_binding_set \<Rightarrow> exn + bool" where
  "model_bindings_match expected current =
     foldr (\<lambda>p rest.
        bindE (for_purpose expected p) (\<lambda>e.
        bindE (for_purpose current p) (\<lambda>c.
          if e \<noteq> c then Inr False else rest))) MODEL_PURPOSES (Inr True)"

fun adapters_match :: "agent_definition \<Rightarrow> model_binding list \<Rightarrow> exn + unit" where
  "adapters_match d [] = Inr ()"
| "adapters_match d (b # bs) =
     bindE (model_adapter_for d (purpose b)) (\<lambda>a.
       case adapter_configuration_fingerprint b of
         Some f \<Rightarrow>
           if ma_configuration_fingerprint a = [] \<or> ma_configuration_fingerprint a \<noteq> f
           then Inl RuntimeError else adapters_match d bs
       | None \<Rightarrow> if \<not> ma_deterministic a then Inl RuntimeError else adapters_match d bs)"

definition contract_matches_snapshot ::
  "definition_env \<Rightarrow> run_record \<Rightarrow> agent_definition \<Rightarrow> exn + unit" where
  "contract_matches_snapshot de run d =
     (case run_snapshot run of
        None \<Rightarrow> Inl RuntimeError
      | Some snap \<Rightarrow>
     (case snap_model_bindings snap of
        None \<Rightarrow>
          if snap_adapter_capabilities snap \<noteq> Some (ma_capabilities (def_model_adapter d))
            then Inl RuntimeError
          else if snap_adapter_contract_fingerprint snap \<noteq> []
               \<and> ma_configuration_fingerprint (def_model_adapter d)
                   \<noteq> snap_adapter_contract_fingerprint snap then Inl RuntimeError
          else Inr ()
      | Some expected \<Rightarrow>
          bindE (effective_model_bindings de d) (\<lambda>current.
          bindE (model_bindings_match expected current) (\<lambda>same.
          if \<not> same then Inl RuntimeError else adapters_match d expected))))"

definition assert_adapter_contract_matches_snapshot ::
  "runner_env \<Rightarrow> run_record \<Rightarrow> agent_definition \<Rightarrow> unit runner" where
  "assert_adapter_contract_matches_snapshot env run d =
     liftE (contract_matches_snapshot (re_definitions env) run d)"

section \<open>Reservation of model attempts\<close>

definition reserve_attempt ::
  "runner_env \<Rightarrow> run_record \<Rightarrow> run_lease \<Rightarrow> ident \<Rightarrow> ident \<Rightarrow> model_purpose \<Rightarrow> bool runner" where
  "reserve_attempt env run lease sid aid p =
     (case run_snapshot run of
        None \<Rightarrow> raiseR AssertionError
      | Some snap \<Rightarrow>
          store_op env (\<lambda>now utc. reserve_model_attempt (re_store env) now
            \<lparr>step_id = sid, step_run_id = run_id run, step_type = STEP_MODEL,
             step_status = STEP_RUNNING, step_error_code = None, step_created_at = utc\<rparr>
            ((attempt_of_step run sid aid STEP_RUNNING)\<lparr>attempt_model_purpose := Some p,
               attempt_created_at := utc\<rparr>)
            (map_option run_max_attempts (snap_model_execution_budget snap))
            (map_option (\<lambda>b. maximum_for b p) (snap_model_execution_budget snap))
            (run_version run) (lease_owner lease)))"

section \<open>Policy gates\<close>

record gate_args =
  ga_failed_step_id :: "ident option"
  ga_failed_step_type :: "step_type option"
  ga_failed_attempt_id :: "ident option"
  ga_pending_outcome :: "tool_outcome option"
  ga_waiting_step_id :: "ident option"

definition no_gate_args :: gate_args where
  "no_gate_args = \<lparr>ga_failed_step_id = None, ga_failed_step_type = None,
     ga_failed_attempt_id = None, ga_pending_outcome = None, ga_waiting_step_id = None\<rparr>"

definition step_gate_args :: "ident \<Rightarrow> step_type \<Rightarrow> ident \<Rightarrow> gate_args" where
  "step_gate_args sid ty aid = no_gate_args\<lparr>ga_failed_step_id := Some sid,
     ga_failed_step_type := Some ty, ga_failed_attempt_id := Some aid\<rparr>"

text \<open>\<open>a or b\<close> on optional strings: an empty string counts as absent.\<close>

definition or_ident :: "ident option \<Rightarrow> ident option \<Rightarrow> ident option" where
  "or_ident a b = (case a of None \<Rightarrow> b | Some x \<Rightarrow> if x = [] then b else Some x)"

definition record_pending_tool_outcome ::
  "runner_env \<Rightarrow> run_record \<Rightarrow> run_lease \<Rightarrow> ident \<Rightarrow> tool_outcome \<Rightarrow> ident option \<Rightarrow> unit runner" where
  "record_pending_tool_outcome env run lease sid outcome aid =
     bindR (id_or_new env aid) (\<lambda>i.
     bindR (liftE (re_dump_outcome env outcome)) (\<lambda>payload.
       write_attempt env run lease
         ((attempt_of_step run sid i STEP_FAILED)\<lparr>attempt_output := Some payload,
            attempt_error := Some (ustr ''policy outcome awaits explicit continuation''),
            attempt_classification := Some PERMANENT,
            attempt_error_code := Some ERROR_POLICY_OUTCOME_PENDING\<rparr>)))"

definition fail_gated_step ::
  "runner_env \<Rightarrow> run_record \<Rightarrow> run_lease \<Rightarrow> gate_args \<Rightarrow> ident \<Rightarrow> string \<Rightarrow> unit runner" where
  "fail_gated_step env run lease ga code message =
     (case (ga_failed_step_id ga, ga_failed_step_type ga) of
        (Some sid, Some ty) \<Rightarrow>
          thenR (record_failed_attempt env run lease sid (PERMANENT, code, message) ty
                   (ga_failed_attempt_id ga) None None)
            (record_failed_step env run lease sid ty (Some code))
      | _ \<Rightarrow> retR ())"

definition policy_record ::
  "runner_env \<Rightarrow> run_record \<Rightarrow> policy_gate \<Rightarrow> (pystr \<times> json) list \<Rightarrow> policy_identity
     \<Rightarrow> policy_decision \<Rightarrow> timestamp \<Rightarrow> policy_decision_record" where
  "policy_record env run gate payload i d utc =
     \<lparr>pdr_run_id = run_id run, pdr_gate = gate, pdr_action = decision_action d,
      pdr_reason_code = decision_reason_code d, pdr_policy_id = policy_id i,
      pdr_policy_version = policy_version i, pdr_policy_fingerprint = policy_fingerprint i,
      pdr_input_summary = re_summary env payload, pdr_created_at = utc\<rparr>"

definition write_decision ::
  "runner_env \<Rightarrow> run_record \<Rightarrow> run_lease \<Rightarrow> policy_gate \<Rightarrow> (pystr \<times> json) list \<Rightarrow> policy_identity
     \<Rightarrow> policy_decision \<Rightarrow> unit runner" where
  "write_decision env run lease gate payload i d =
     thenR (store_op env (\<lambda>now utc. record_policy_decision now
       (policy_record env run gate payload i d utc) (run_version run) (Some (lease_owner lease))))
       (retR ())"

text \<open>The frozen identity is checked and the policy evaluated; any exception is a fault.\<close>

definition policy_verdict ::
  "run_record \<Rightarrow> agent_definition \<Rightarrow> policy_gate \<Rightarrow> (pystr \<times> json) list
     \<Rightarrow> exn + (policy_identity \<times> policy_decision)" where
  "policy_verdict run d gate payload =
     (case run_snapshot run of
        None \<Rightarrow> Inl RuntimeError
      | Some snap \<Rightarrow>
          if identity (def_run_policy d) \<noteq> snap_policy_identity snap then Inl RuntimeError
          else bindE (evaluate (def_run_policy d)
                 \<lparr>request_gate = gate, request_run_id = run_id run, request_payload = payload\<rparr>) (\<lambda>x.
               bindE (validate_decision x) (\<lambda>y. Inr (snap_policy_identity snap, y))))"

definition enforce_policy ::
  "runner_env \<Rightarrow> run_record \<Rightarrow> agent_definition \<Rightarrow> run_lease \<Rightarrow> policy_gate
     \<Rightarrow> (pystr \<times> json) list \<Rightarrow> gate_args \<Rightarrow> run_record runner" where
  "enforce_policy env run d lease gate payload ga =
     (case policy_verdict run d gate payload of
        Inl _ \<Rightarrow>
          let i = (case run_snapshot run of None \<Rightarrow> identity (def_run_policy d)
                   | Some snap \<Rightarrow> snap_policy_identity snap) in
          thenR (write_decision env run lease gate payload i
                   \<lparr>decision_action = REJECT, decision_reason_code = ERROR_POLICY_ERROR\<rparr>)
          (thenR (fail_gated_step env run lease ga ERROR_POLICY_ERROR ''policy implementation fault'')
            (fail_run env run lease (Some ERROR_POLICY_ERROR)))
      | Inr (i, dcn) \<Rightarrow>
          thenR (write_decision env run lease gate payload i dcn)
          (case decision_action dcn of
             ALLOW \<Rightarrow> retR run
           | REQUIRE_RESOLUTION \<Rightarrow>
               thenR (case ga_pending_outcome ga of
                        None \<Rightarrow> retR ()
                      | Some outcome \<Rightarrow>
                          (case ga_failed_step_id ga of
                             None \<Rightarrow> raiseR RuntimeError
                           | Some sid \<Rightarrow>
                               record_pending_tool_outcome env run lease sid outcome
                                 (ga_failed_attempt_id ga)))
                 (end_with env run lease ((plain_args WAITING lease)
                    \<lparr>to_waiting_reason := Some (REASON_POLICY_RESOLUTION_REQUIRED @ '':''
                       @ decision_reason_code dcn),
                     to_waiting_step_id := or_ident (ga_waiting_step_id ga) (ga_failed_step_id ga)\<rparr>))
           | REJECT \<Rightarrow>
               thenR (fail_gated_step env run lease ga (decision_reason_code dcn)
                        ''policy rejected the completed step result'')
                 (end_with env run lease ((plain_args REJECTED lease)
                    \<lparr>to_error_code := Some (decision_reason_code dcn)\<rparr>))))"

definition text_field :: "string \<Rightarrow> pystr \<Rightarrow> pystr \<times> json" where
  "text_field k v = (ustr k, JStr v)"

definition true_field :: "string \<Rightarrow> pystr \<times> json" where
  "true_field k = (ustr k, JBool True)"

section \<open>Tool outcomes\<close>

definition checkpoint_tool_outcome ::
  "runner_env \<Rightarrow> run_record \<Rightarrow> run_lease \<Rightarrow> ident \<Rightarrow> tool_outcome \<Rightarrow> ident option \<Rightarrow> unit runner" where
  "checkpoint_tool_outcome env run lease sid outcome aid =
     bindR (liftE (re_dump_outcome env outcome)) (\<lambda>payload.
     thenR (write_step env run lease sid STEP_TOOL STEP_SUCCEEDED None)
     (bindR (id_or_new env aid) (\<lambda>i.
      thenR (write_attempt env run lease
        ((attempt_of_step run sid i STEP_SUCCEEDED)\<lparr>attempt_output := Some payload\<rparr>))
      (thenR (write_checkpoint env run lease sid i STEP_TOOL payload)
        (publish (step_update run STEP_COMPLETED sid i STEP_TOOL))))))"

definition pending_tool_outcome ::
  "runner_env \<Rightarrow> run_record \<Rightarrow> ident option \<Rightarrow> step_attempt option runner" where
  "pending_tool_outcome env run sid =
     (case sid of
        None \<Rightarrow> retR None
      | Some i \<Rightarrow> bindR (attempts_of env run) (\<lambda>as.
          retR (find (\<lambda>a. attempt_step_id a = i
                  \<and> attempt_error_code a = Some ERROR_POLICY_OUTCOME_PENDING
                  \<and> attempt_output a \<noteq> None) (rev as))))"

section \<open>Ways into WAITING\<close>

definition enter_waiting_definition_unavailable ::
  "runner_env \<Rightarrow> run_record \<Rightarrow> run_lease \<Rightarrow> run_record runner" where
  "enter_waiting_definition_unavailable env run lease =
     bindR (transition env run ((plain_args WAITING lease)
              \<lparr>to_waiting_reason := Some REASON_DEFINITION_UNAVAILABLE\<rparr>)) (\<lambda>result.
     thenR (publish_status (run_id run) WAITING) (retR result))"

definition enter_waiting_policy_outcome ::
  "runner_env \<Rightarrow> run_record \<Rightarrow> run_lease \<Rightarrow> ident \<Rightarrow> run_record runner" where
  "enter_waiting_policy_outcome env run lease sid =
     end_with env run lease ((plain_args WAITING lease)
       \<lparr>to_waiting_reason := Some (REASON_POLICY_RESOLUTION_REQUIRED @ '':''
          @ ERROR_POLICY_OUTCOME_PENDING), to_waiting_step_id := Some sid\<rparr>)"

definition enter_waiting_uncertain ::
  "runner_env \<Rightarrow> run_record \<Rightarrow> run_lease \<Rightarrow> ident \<Rightarrow> run_record runner" where
  "enter_waiting_uncertain env run lease sid =
     bindR (transition env run ((plain_args WAITING lease)
              \<lparr>to_waiting_reason := Some REASON_UNCERTAIN_NON_IDEMPOTENT,
               to_waiting_step_id := Some sid\<rparr>)) (\<lambda>result.
     thenR (clear_cancel (run_id run))
     (thenR (publish_status (run_id run) WAITING) (retR result)))"

definition effect_unconfirmed :: failure where
  "effect_unconfirmed = (UNCERTAIN, ERROR_EFFECT_UNCONFIRMED,
     ''tool checkpoint was not committed before interruption; the external effect may have occurred'')"

definition enter_waiting_unconfirmed ::
  "runner_env \<Rightarrow> run_record \<Rightarrow> run_lease \<Rightarrow> ident option \<Rightarrow> ident option \<Rightarrow> run_record runner" where
  "enter_waiting_unconfirmed env run lease sid aid =
     bindR (id_or_new env sid) (\<lambda>i.
     thenR (record_failed_attempt env run lease i effect_unconfirmed STEP_TOOL aid None None)
     (thenR (record_failed_step env run lease i STEP_TOOL None)
       (enter_waiting_uncertain env run lease i)))"

definition enter_waiting_preserving_failure ::
  "runner_env \<Rightarrow> run_record \<Rightarrow> run_lease \<Rightarrow> ident \<Rightarrow> step_attempt option \<Rightarrow> run_record runner" where
  "enter_waiting_preserving_failure env run lease sid inflight =
     bindR (attempts_of env run) (\<lambda>as.
     let failed = list_ex (\<lambda>a. attempt_step_id a = sid \<and> attempt_status a = STEP_FAILED) as in
     thenR (case inflight of
              None \<Rightarrow> retR ()
            | Some a \<Rightarrow> record_failed_attempt env run lease sid effect_unconfirmed STEP_TOOL
                          (Some (attempt_id a)) None None)
     (if failed \<or> inflight \<noteq> None
      then thenR (record_failed_step env run lease sid STEP_TOOL None)
             (enter_waiting_uncertain env run lease sid)
      else enter_waiting_unconfirmed env run lease (Some sid) (map_option attempt_id inflight)))"

definition fail_missing_frozen_tool_declaration ::
  "runner_env \<Rightarrow> run_record \<Rightarrow> run_lease \<Rightarrow> ident \<Rightarrow> run_record runner" where
  "fail_missing_frozen_tool_declaration env run lease name =
     bindR (new_id env) (\<lambda>sid.
     thenR (record_failed_attempt env run lease sid
              (PERMANENT, ERROR_FROZEN_TOOL_DECLARATION_UNAVAILABLE,
               ''frozen snapshot has no unique declaration for '' @ [CHR 0x27] @ name @ [CHR 0x27])
              STEP_TOOL None None None)
     (thenR (record_failed_step env run lease sid STEP_TOOL None) (fail_run env run lease None)))"

end
