(* ===== verification/Runner_Steps.thy ===== *)
theory Runner_Steps
  imports Runner_Gates
begin

text \<open>
  The Steps of a Run, \<open>src/src/m_agent/_runner.py\<close>: tool calls, context stages and model calls
  with their attempts, retries and checkpoints. The \<open>while True\<close> loop of a Step is split into
  one attempt, which answers \<open>None\<close> when the source says \<open>continue\<close>, and the loop, whose
  termination rests on the frozen retry policy.
\<close>

text \<open>How a \<open>try\<close> body ends without an exception: by returning from the Step, or normally.\<close>

datatype 'a step_end = Stop run_record | Go 'a

definition or_cancelled :: "run_record option \<Rightarrow> 'a runner \<Rightarrow> (run_record \<Rightarrow> 'a runner) \<Rightarrow> 'a runner" where
  "or_cancelled c m stop = (case c of None \<Rightarrow> m | Some r \<Rightarrow> stop r)"

section \<open>Tool Steps\<close>

definition call_fields :: "tool_call \<Rightarrow> (pystr \<times> json) list" where
  "call_fields call = [text_field ''tool_name'' (ustr (call_tool_name call)),
     text_field ''call_id'' (ustr (call_id call)), text_field ''arguments'' (arguments call)]"

definition status_text :: "tool_outcome_status \<Rightarrow> string" where
  "status_text st = (case st of OUTCOME_SUCCESS \<Rightarrow> ''SUCCESS'' | OUTCOME_REJECTED \<Rightarrow> ''REJECTED'')"

definition outcome_fields :: "tool_outcome \<Rightarrow> (pystr \<times> json) list" where
  "outcome_fields out = [text_field ''tool_name'' (ustr (outcome_tool_name out)),
     text_field ''call_id'' (ustr (outcome_call_id out)),
     text_field ''status'' (ustr (status_text (outcome_status out)))]"

definition undeclared_tool :: "ident \<Rightarrow> fault" where
  "undeclared_tool name = Foreign (StepFailure PERMANENT ERROR_FROZEN_TOOL_DECLARATION_UNAVAILABLE
     (''frozen snapshot has no unique declaration for '' @ name))"

text \<open>
  The body of the \<open>try\<close>: final authorisation, the call, validation of what it returned and the
  outcome gate. Where a gate allows, \<open>enforce_policy\<close> returns the Run it was given.
\<close>

definition accept_outcome ::
  "runner_env \<Rightarrow> run_record \<Rightarrow> agent_definition \<Rightarrow> run_lease \<Rightarrow> tool_call \<Rightarrow> ident \<Rightarrow> ident
     \<Rightarrow> tool_reply \<Rightarrow> tool_outcome step_end runner" where
  "accept_outcome env run d lease call sid aid reply =
     (case reply of Returned None \<Rightarrow> raiseR TypeError | Returned (Some raw) \<Rightarrow>
     bindR (liftE (validate_payload_shape raw)) (\<lambda>outcome.
     if outcome_call_id outcome \<noteq> call_id call \<or> outcome_tool_name outcome \<noteq> call_tool_name call
       then raiseR ValueError
     else thenR (liftE (re_dump_outcome env outcome))
     (bindR (enforce_policy env run d lease GATE_TOOL_OUTCOME (outcome_fields outcome)
              ((step_gate_args sid STEP_TOOL aid)\<lparr>ga_pending_outcome := Some outcome\<rparr>)) (\<lambda>run'.
        retR (if run_status_of run' \<noteq> RUNNING then Stop run' else Go outcome)))))"

definition dispatch_tool ::
  "runner_env \<Rightarrow> run_record \<Rightarrow> agent_definition \<Rightarrow> run_lease \<Rightarrow> tool_call \<Rightarrow> ident \<Rightarrow> ident
     \<Rightarrow> tool_effect option \<Rightarrow> tool_outcome step_end runner" where
  "dispatch_tool env run d lease call sid aid effect =
     bindR (find_tool d (call_tool_name call)) (\<lambda>tool.
     if effect = None then reraise (undeclared_tool (call_tool_name call))
     else
     let req = \<lparr>treq_call_id = call_id call, treq_tool_name = call_tool_name call,
                treq_arguments = arguments call\<rparr> in
     thenR (assert_step_dispatch env run lease)
     (bindR (maybe_cancel env run lease) (\<lambda>c. or_cancelled c
       (thenR (assert_adapter_contract_matches_snapshot env run d)
       (bindR (enforce_policy env run d lease GATE_TOOL_REQUEST
                (call_fields call @ [true_field ''final_authorization''])
                (step_gate_args sid STEP_TOOL aid)) (\<lambda>run1.
        if run_status_of run1 \<noteq> RUNNING then retR (Stop run1)
        else bindR (external env (Tool_Call (run_id run) sid aid req) (\<lambda>n. tool_invoke tool n req))
               (accept_outcome env run1 d lease call sid aid))))
       (\<lambda>r. retR (Stop r)))))"

text \<open>
  The \<open>except Exception\<close> clause after \<open>count\<close> attempts. \<open>None\<close> is \<open>continue\<close>.
\<close>

definition tool_failed ::
  "runner_env \<Rightarrow> run_record \<Rightarrow> run_lease \<Rightarrow> ident \<Rightarrow> ident \<Rightarrow> tool_effect option
     \<Rightarrow> retry_policy option \<Rightarrow> int \<Rightarrow> fault \<Rightarrow> (run_record \<times> tool_outcome option) option runner" where
  "tool_failed env run lease sid aid effect policy count e =
     (case classify_fault e of (cls, code, message) \<Rightarrow>
      thenR (record_failed_attempt env run lease sid (cls, code, message) STEP_TOOL (Some aid)
               None None)
      (if cls = UNCERTAIN \<and> effect = Some NON_IDEMPOTENT
       then thenR (record_failed_step env run lease sid STEP_TOOL None)
              (bindR (enter_waiting_uncertain env run lease sid) (\<lambda>r. retR (Some (r, None))))
       else bindR (cancel_requested (run_id run)) (\<lambda>asked.
         bindR (if asked then thenR (record_failed_step env run lease sid STEP_TOOL None)
                                (maybe_cancel env run lease)
                else retR None) (\<lambda>c. or_cancelled c
           (if should_retry cls policy count effect
            then thenR (sleep env policy) (retR None)
            else thenR (record_failed_step env run lease sid STEP_TOOL None)
              (bindR (maybe_cancel env run lease) (\<lambda>c'. or_cancelled c'
                (bindR (fail_run env run lease None) (\<lambda>r. retR (Some (r, None))))
                (\<lambda>r. retR (Some (r, None))))))
           (\<lambda>r. retR (Some (r, None)))))))"

definition tool_attempt ::
  "runner_env \<Rightarrow> run_record \<Rightarrow> agent_definition \<Rightarrow> run_lease \<Rightarrow> tool_call \<Rightarrow> ident
     \<Rightarrow> tool_effect option \<Rightarrow> retry_policy option \<Rightarrow> int
     \<Rightarrow> (run_record \<times> tool_outcome option) option runner" where
  "tool_attempt env run d lease call sid effect policy count =
     bindR (maybe_cancel env run lease) (\<lambda>c. or_cancelled c
       (thenR (assert_step_dispatch env run lease)
       (bindR (enforce_policy env run d lease GATE_TOOL_REQUEST (call_fields call) no_gate_args)
        (\<lambda>run1.
        if run_status_of run1 \<noteq> RUNNING then retR (Some (run1, None))
        else bindR (new_id env) (\<lambda>aid.
        thenR (publish (step_update run STEP_STARTED sid aid STEP_TOOL))
        (thenR (write_step env run lease sid STEP_TOOL STEP_RUNNING None)
        (thenR (write_attempt env run lease (attempt_of_step run sid aid STEP_RUNNING))
        (bindR (tryR (dispatch_tool env run d lease call sid aid effect)) (\<lambda>r.
         case r of
           Inl e \<Rightarrow> tool_failed env run lease sid aid effect policy count e
         | Inr (Stop stopped) \<Rightarrow> retR (Some (stopped, None))
         | Inr (Go outcome) \<Rightarrow>
             thenR (checkpoint_tool_outcome env run lease sid outcome (Some aid))
               (retR (Some (run, Some outcome)))))))))))
       (\<lambda>r. retR (Some (r, None))))"

lemma tool_failed_continue:
  assumes "tool_failed env run lease sid aid effect policy count e s = (Inr None, s')"
  shows "\<exists>p. policy = Some p \<and> count < max_attempts p"
proof -
  obtain cls code message where c: "classify_fault e = (cls, code, message)" by (cases "classify_fault e")
  have "should_retry cls policy count effect"
  proof (rule ccontr)
    assume "\<not> should_retry cls policy count effect"
    then show False using assms
      by (auto simp: tool_failed_def c or_cancelled_def bindR_def thenR_def retR_def
          split: prod.splits sum.splits if_splits option.splits)
  qed
  then show ?thesis by (auto simp: should_retry_def split: option.splits if_splits)
qed

lemma tool_attempt_continue:
  assumes "tool_attempt env run d lease call sid effect policy count s = (Inr None, s')"
  shows "\<exists>p. policy = Some p \<and> count < max_attempts p"
proof -
  have "\<exists>aid e t. tool_failed env run lease sid aid effect policy count e t = (Inr None, s')"
    using assms
    by (auto simp: tool_attempt_def or_cancelled_def bindR_def thenR_def retR_def
        split: prod.splits sum.splits if_splits option.splits step_end.splits)
  then show ?thesis using tool_failed_continue by blast
qed

function tool_loop ::
  "runner_env \<Rightarrow> run_record \<Rightarrow> agent_definition \<Rightarrow> run_lease \<Rightarrow> tool_call \<Rightarrow> ident
     \<Rightarrow> tool_effect option \<Rightarrow> retry_policy option \<Rightarrow> int
     \<Rightarrow> runner_state \<Rightarrow> (fault + run_record \<times> tool_outcome option) \<times> runner_state" where
  "tool_loop env run d lease call sid effect policy count s =
     bindR (tool_attempt env run d lease call sid effect policy (count + 1)) (\<lambda>r t.
       case r of
         Some x \<Rightarrow> retR x t
       | None \<Rightarrow> tool_loop env run d lease call sid effect policy (count + 1) t) s"
  by pat_completeness auto

termination tool_loop
  by (relation "measure (\<lambda>(env, run, d, lease, call, sid, effect, policy, count, s).
        case policy of None \<Rightarrow> 0 | Some p \<Rightarrow> nat (max_attempts p - count))")
    (auto dest: tool_attempt_continue)

declare tool_loop.simps [simp del]

definition run_tool_step ::
  "runner_env \<Rightarrow> run_record \<Rightarrow> agent_definition \<Rightarrow> run_lease \<Rightarrow> tool_call \<Rightarrow> ident option \<Rightarrow> bool
     \<Rightarrow> bool \<Rightarrow> (run_record \<times> tool_outcome option) runner" where
  "run_tool_step env run d lease call step recovery_replay explicit_resolution =
     thenR (assert_adapter_contract_matches_snapshot env run d)
     (bindR (id_or_new env step) (\<lambda>sid.
     let policy = retry_policy_of run; effect = frozen_tool_effect run (call_tool_name call);
         give_up = thenR (record_failed_step env run lease sid STEP_TOOL None)
           (bindR (fail_run env run lease None) (\<lambda>r. retR (r, None))) in
     bindR (attempts_of env run) (\<lambda>all.
     let earlier = filter (\<lambda>a. attempt_step_id a = sid) all; count = int (length earlier) in
     if effect = None \<and> earlier \<noteq> [] then give_up
     else if earlier \<noteq> [] \<and> \<not> explicit_resolution \<and> recovery_replay
          \<and> \<not> recovery_replay_allowed policy count then give_up
     else if earlier \<noteq> [] \<and> \<not> explicit_resolution \<and> \<not> recovery_replay
          \<and> attempt_status (last earlier) = STEP_FAILED
          \<and> \<not> should_retry (case attempt_classification (last earlier) of
                              Some c \<Rightarrow> c | None \<Rightarrow> PERMANENT) policy count effect then give_up
     else tool_loop env run d lease call sid effect policy count)))"

end
