(* ===== verification/Runner_Model.thy ===== *)
theory Runner_Model
  imports Runner_Steps
begin

text \<open>
  Model Steps of \<open>src/src/m_agent/_runner.py\<close>: the streaming consumer, one attempt of
  \<open>_run_single_model_step\<close>, its retry loop, and the final output with its contract and repair.
\<close>

section \<open>Streaming\<close>

definition delta_update :: "run_record \<Rightarrow> ident \<Rightarrow> ident \<Rightarrow> pystr \<Rightarrow> run_update" where
  "delta_update run sid aid content =
     (step_update run MODEL_DELTA sid aid STEP_MODEL)\<lparr>upd_content := Some content\<rparr>"

text \<open>The Runner is suspended before every item of the stream, the end included.\<close>

fun consume_stream ::
  "runner_env \<Rightarrow> run_record \<Rightarrow> ident \<Rightarrow> ident \<Rightarrow> stream_event list \<Rightarrow> model_response option
     \<Rightarrow> model_response option runner" where
  "consume_stream env run sid aid [] response =
     thenR (suspend env)
       (case response of Some r \<Rightarrow> retR (Some r) | None \<Rightarrow> raiseR ModelContractViolationError)"
| "consume_stream env run sid aid (ev # evs) response =
     thenR (suspend env)
       (case ev of
          S_Raise e \<Rightarrow> reraise e
        | S_Other \<Rightarrow> raiseR ModelContractViolationError
        | S_Response r \<Rightarrow>
            if response \<noteq> None then raiseR ModelContractViolationError
            else consume_stream env run sid aid evs (Some r)
        | S_Delta content \<Rightarrow>
            if response \<noteq> None then raiseR ModelContractViolationError
            else thenR (publish (delta_update run sid aid content))
              (bindR (cancel_requested (run_id run)) (\<lambda>asked.
                 if asked then retR None else consume_stream env run sid aid evs response)))"

definition stream_model ::
  "runner_env \<Rightarrow> model_adapter \<Rightarrow> model_request \<Rightarrow> run_record \<Rightarrow> ident \<Rightarrow> ident \<Rightarrow> model_purpose
     \<Rightarrow> model_response option runner" where
  "stream_model env a request run sid aid p =
     bindR (getR rs_calls) (\<lambda>n.
     thenR (modifyR (\<lambda>s. s\<lparr>rs_effects := rs_effects s @ [Model_Call (run_id run) sid aid p request]\<rparr>))
       (consume_stream env run sid aid (ma_stream a n request) None))"

section \<open>One model attempt\<close>

text \<open>The arguments that distinguish PRIMARY, compression and repair Steps.\<close>

record model_task =
  mt_purpose :: model_purpose
  mt_items :: "context_item list"
  mt_outcomes :: "tool_outcome list"
  mt_input_override :: "pystr option"
  mt_instructions_override :: "pystr option"
  mt_history_override :: "conversation_message list option"
  mt_allow_tools :: bool
  mt_transform :: "model_response \<Rightarrow> exn + model_response"

definition primary_task :: "context_item list \<Rightarrow> tool_outcome list \<Rightarrow> model_task" where
  "primary_task items outcomes =
     \<lparr>mt_purpose = PRIMARY, mt_items = items, mt_outcomes = outcomes, mt_input_override = None,
      mt_instructions_override = None, mt_history_override = None, mt_allow_tools = True,
      mt_transform = Inr\<rparr>"

definition build_request ::
  "run_record \<Rightarrow> agent_definition \<Rightarrow> definition_snapshot \<Rightarrow> model_binding \<Rightarrow> model_task
     \<Rightarrow> model_request" where
  "build_request run d snap b t =
     \<lparr>request_input = (case mt_input_override t of None \<Rightarrow> run_input run | Some x \<Rightarrow> x),
      request_instructions =
        (case mt_instructions_override t of None \<Rightarrow> snap_instructions snap | Some x \<Rightarrow> x),
      request_history = (case mt_history_override t of None \<Rightarrow> run_history run | Some x \<Rightarrow> x),
      request_context_items = mt_items t,
      request_tools = (if mt_allow_tools t then map tool_spec_of (def_tools d) else []),
      request_tool_outcomes = mt_outcomes t,
      request_structured_output = typed_structured_output (req_capabilities (binding_requirements b)),
      request_usage_reporting = typed_usage_reporting (req_capabilities (binding_requirements b))\<rparr>"

definition frame_of_request :: "model_request \<Rightarrow> context_frame" where
  "frame_of_request r =
     \<lparr>frame_instructions = request_instructions r, frame_run_input = request_input r,
      frame_history = request_history r, frame_context_items = request_context_items r,
      frame_tool_outcomes = request_tool_outcomes r, frame_tools = request_tools r,
      frame_structured_output = request_structured_output r,
      frame_usage_reporting = request_usage_reporting r\<rparr>"

text \<open>The class attribute \<open>code\<close> of the two contract exceptions and the compression subclass.\<close>

fun contract_error_code :: "fault \<Rightarrow> ident option" where
  "contract_error_code (Exn ModelCapabilityError) = Some ''MODEL_CAPABILITY_UNSUPPORTED''"
| "contract_error_code (Exn ModelContractViolationError) = Some ''MODEL_CONTRACT_VIOLATION''"
| "contract_error_code (Exn CompressionContractViolationError) = Some ERROR_COMPRESSION_CONTRACT_VIOLATION"
| "contract_error_code _ = None"

definition stop_model_step ::
  "runner_env \<Rightarrow> run_record \<Rightarrow> run_lease \<Rightarrow> ident \<Rightarrow> ident option
     \<Rightarrow> run_record runner" where
  "stop_model_step env run lease sid code =
     thenR (record_failed_step env run lease sid STEP_MODEL code) (fail_run env run lease code)"

text \<open>Up to the reservation; afterwards a failure has an attempt to be recorded on.\<close>

definition reserve_dispatch ::
  "runner_env \<Rightarrow> run_record \<Rightarrow> agent_definition \<Rightarrow> run_lease \<Rightarrow> ident \<Rightarrow> ident \<Rightarrow> model_purpose
     \<Rightarrow> model_contract \<Rightarrow> model_request \<Rightarrow> bool \<Rightarrow> unit step_end runner" where
  "reserve_dispatch env run d lease sid aid p contract request streams =
     thenR (assert_step_dispatch env run lease)
     (bindR (maybe_cancel env run lease) (\<lambda>c. or_cancelled c
       (thenR (assert_adapter_contract_matches_snapshot env run d)
       (thenR (liftE (assert_model_request_compatible contract request streams))
       (bindR (reserve_attempt env run lease sid aid p) (\<lambda>reserved.
        if reserved then retR (Go ())
        else bindR (stop_model_step env run lease sid (Some ERROR_MODEL_EXECUTION_BUDGET_EXCEEDED))
               (\<lambda>r. retR (Stop r))))))
       (\<lambda>r. retR (Stop r))))"

definition close_cancelled_dispatch ::
  "runner_env \<Rightarrow> run_record \<Rightarrow> run_lease \<Rightarrow> ident \<Rightarrow> ident \<Rightarrow> model_purpose \<Rightarrow> string
     \<Rightarrow> run_record option runner" where
  "close_cancelled_dispatch env run lease sid aid p message =
     thenR (record_failed_attempt env run lease sid
              (PERMANENT, ERROR_MODEL_DISPATCH_CANCELLED, message) STEP_MODEL (Some aid) (Some p) None)
     (thenR (record_failed_step env run lease sid STEP_MODEL (Some ERROR_MODEL_DISPATCH_CANCELLED))
       (maybe_cancel env run lease))"

definition prepare_dispatch ::
  "runner_env \<Rightarrow> run_record \<Rightarrow> run_lease \<Rightarrow> exn + unit \<Rightarrow> unit runner" where
  "prepare_dispatch env run lease guard =
     store_op env (\<lambda>now utc st.
       (prepare_model_dispatch now (run_id run) (run_version run) (lease_owner lease) guard st, st))"

text \<open>The adapter call itself, streaming or not.\<close>

definition invoke_model ::
  "runner_env \<Rightarrow> run_record \<Rightarrow> run_lease \<Rightarrow> model_adapter \<Rightarrow> ident \<Rightarrow> ident \<Rightarrow> model_purpose
     \<Rightarrow> model_request \<Rightarrow> bool \<Rightarrow> model_reply step_end runner" where
  "invoke_model env run lease a sid aid p request streams =
     (if streams then
        bindR (stream_model env a request run sid aid p) (\<lambda>response.
        case response of
          Some r \<Rightarrow> retR (Go (Reply (Some r)))
        | None \<Rightarrow>
            bindR (cancel_requested (run_id run)) (\<lambda>asked.
            if \<not> asked then raiseR ModelContractViolationError
            else bindR (close_cancelled_dispatch env run lease sid aid p
                          ''streaming model dispatch cancelled'') (\<lambda>c.
              or_cancelled c (raiseR RuntimeError) (\<lambda>r. retR (Stop r)))))
      else bindR (external env (Model_Call (run_id run) sid aid p request)
                    (\<lambda>n. ma_generate a n request)) (\<lambda>r. retR (Go r)))"

definition call_model ::
  "runner_env \<Rightarrow> run_record \<Rightarrow> agent_definition \<Rightarrow> run_lease \<Rightarrow> model_adapter \<Rightarrow> ident \<Rightarrow> ident
     \<Rightarrow> model_purpose \<Rightarrow> model_contract \<Rightarrow> model_request \<Rightarrow> bool \<Rightarrow> model_reply step_end runner" where
  "call_model env run d lease a sid aid p contract request streams =
     bindR (cancel_requested (run_id run)) (\<lambda>asked.
     bindR (if asked then close_cancelled_dispatch env run lease sid aid p
                            ''model dispatch cancelled after reservation''
            else retR None) (\<lambda>c. or_cancelled c
       (thenR (prepare_dispatch env run lease
          (bindE (contract_matches_snapshot (re_definitions env) run d) (\<lambda>_.
             assert_model_request_compatible contract request streams)))
       (bindR (invoke_model env run lease a sid aid p request streams) (\<lambda>r.
          case r of
            Stop stopped \<Rightarrow> retR (Stop stopped)
          | Go reply \<Rightarrow>
              thenR (assert_adapter_contract_matches_snapshot env run d) (retR (Go reply)))))
       (\<lambda>r. retR (Stop r))))"

definition liftF :: "fault + 'a \<Rightarrow> 'a runner" where
  "liftF r = (case r of Inl e \<Rightarrow> reraise e | Inr x \<Rightarrow> retR x)"

definition accept_response ::
  "runner_env \<Rightarrow> run_record \<Rightarrow> agent_definition \<Rightarrow> model_adapter \<Rightarrow> model_contract \<Rightarrow> model_request
     \<Rightarrow> bool \<Rightarrow> model_task \<Rightarrow> model_reply \<Rightarrow> model_response runner" where
  "accept_response env run d a contract request streams t reply =
     bindR (liftF (ma_validate_response a request reply)) (\<lambda>reply'.
     thenR (assert_adapter_contract_matches_snapshot env run d)
     (bindR (liftE (normalize_model_response (re_loads env) (re_loads_strict env) contract reply'
                      request streams)) (\<lambda>response.
      if \<not> mt_allow_tools t \<and> resp_tool_calls response \<noteq> []
        then raiseR ModelContractViolationError
      else liftE (mt_transform t response))))"

definition observed_usage :: "model_reply \<Rightarrow> model_usage option" where
  "observed_usage reply =
     (case reply of Reply None \<Rightarrow> None | Reply (Some r) \<Rightarrow> resp_usage r)"

text \<open>The \<open>except Exception\<close> clause; \<open>reserved\<close> and \<open>usage\<close> are its local variables then.\<close>

definition model_failed ::
  "runner_env \<Rightarrow> run_record \<Rightarrow> run_lease \<Rightarrow> ident \<Rightarrow> ident \<Rightarrow> model_purpose \<Rightarrow> retry_policy option
     \<Rightarrow> int \<Rightarrow> bool \<Rightarrow> model_usage option \<Rightarrow> fault
     \<Rightarrow> (run_record \<times> model_response option) option runner" where
  "model_failed env run lease sid aid p policy count reserved usage e =
     (let terminal = contract_error_code e;
          failure = (case terminal of
                       Some code \<Rightarrow> (PERMANENT, code, redact_failure_message [])
                     | None \<Rightarrow> classify_fault e) in
      thenR (if reserved then record_failed_attempt env run lease sid failure STEP_MODEL (Some aid)
                                (Some p) usage
             else retR ())
      (bindR (cancel_requested (run_id run)) (\<lambda>asked.
       bindR (if asked then thenR (record_failed_step env run lease sid STEP_MODEL None)
                              (maybe_cancel env run lease)
              else retR None) (\<lambda>c. or_cancelled c
         (if should_retry (fst failure) policy count None
          then thenR (sleep env policy) (retR None)
          else thenR (record_failed_step env run lease sid STEP_MODEL terminal)
            (bindR (maybe_cancel env run lease) (\<lambda>c'. or_cancelled c'
              (bindR (fail_run env run lease terminal) (\<lambda>r. retR (Some (r, None))))
              (\<lambda>r. retR (Some (r, None))))))
         (\<lambda>r. retR (Some (r, None)))))))"

definition checkpoint_response ::
  "runner_env \<Rightarrow> run_record \<Rightarrow> run_lease \<Rightarrow> ident \<Rightarrow> ident \<Rightarrow> model_purpose \<Rightarrow> model_response
     \<Rightarrow> unit runner" where
  "checkpoint_response env run lease sid aid p response =
     bindR (liftE (re_dump_response env response)) (\<lambda>payload.
     thenR (write_step env run lease sid STEP_MODEL STEP_SUCCEEDED None)
     (thenR (write_attempt env run lease
        ((attempt_of_step run sid aid STEP_SUCCEEDED)\<lparr>attempt_output := Some payload,
           attempt_model_purpose := Some p, attempt_usage := resp_usage response\<rparr>))
     (thenR (write_checkpoint env run lease sid aid STEP_MODEL payload)
       (publish (step_update run STEP_COMPLETED sid aid STEP_MODEL)))))"

definition over_budget :: "runner_env \<Rightarrow> model_contract \<Rightarrow> model_request \<Rightarrow> exn + bool" where
  "over_budget env contract request =
     bindE (from_model_limits (limits contract) None) (\<lambda>budget.
     bindE (sizer_for_contract contract) (\<lambda>sizer.
       Inr (total_token_limit budget <
            sz_total_tokens (check_frame_budget (re_dump_tool env) (frame_of_request request) budget sizer))))"

text \<open>From the reservation on, every failure is recorded on the reserved attempt.\<close>

definition dispatch_reserved ::
  "runner_env \<Rightarrow> run_record \<Rightarrow> agent_definition \<Rightarrow> run_lease \<Rightarrow> model_adapter \<Rightarrow> ident \<Rightarrow> ident
     \<Rightarrow> model_contract \<Rightarrow> model_request \<Rightarrow> bool \<Rightarrow> model_task \<Rightarrow> retry_policy option \<Rightarrow> int
     \<Rightarrow> (run_record \<times> model_response option) option runner" where
  "dispatch_reserved env run d lease a sid aid contract request streams t policy count =
      bindR (tryR (call_model env run d lease a sid aid (mt_purpose t) contract request streams))
      (\<lambda>r1. case r1 of
         Inl e \<Rightarrow> model_failed env run lease sid aid (mt_purpose t) policy count True None e
       | Inr (Stop r) \<Rightarrow> retR (Some (r, None))
       | Inr (Go reply) \<Rightarrow>
      bindR (tryR (accept_response env run d a contract request streams t reply))
      (\<lambda>r2. case r2 of
         Inl e \<Rightarrow> model_failed env run lease sid aid (mt_purpose t) policy count True
                    (observed_usage reply) e
       | Inr response \<Rightarrow>
           thenR (checkpoint_response env run lease sid aid (mt_purpose t) response)
             (retR (Some (run, Some response)))))"

definition dispatch_model ::
  "runner_env \<Rightarrow> run_record \<Rightarrow> agent_definition \<Rightarrow> run_lease \<Rightarrow> model_adapter \<Rightarrow> ident \<Rightarrow> ident
     \<Rightarrow> model_contract \<Rightarrow> model_request \<Rightarrow> bool \<Rightarrow> model_task \<Rightarrow> retry_policy option \<Rightarrow> int
     \<Rightarrow> (run_record \<times> model_response option) option runner" where
  "dispatch_model env run d lease a sid aid contract request streams t policy count =
      bindR (tryR (reserve_dispatch env run d lease sid aid (mt_purpose t) contract request streams))
      (\<lambda>r. case r of
         Inl e \<Rightarrow> model_failed env run lease sid aid (mt_purpose t) policy count False None e
       | Inr (Stop r) \<Rightarrow> retR (Some (r, None))
       | Inr (Go _) \<Rightarrow>
           dispatch_reserved env run d lease a sid aid contract request streams t policy count)"

definition model_attempt ::
  "runner_env \<Rightarrow> run_record \<Rightarrow> agent_definition \<Rightarrow> run_lease \<Rightarrow> model_adapter \<Rightarrow> model_binding
     \<Rightarrow> definition_snapshot \<Rightarrow> model_task \<Rightarrow> ident \<Rightarrow> retry_policy option \<Rightarrow> int
     \<Rightarrow> (run_record \<times> model_response option) option runner" where
  "model_attempt env run d lease a b snap t sid policy count =
     (let contract = binding_contract b;
          streams = (typed_streaming (req_capabilities (binding_requirements b)) = DELTA);
          request = build_request run d snap b t;
          stop = (\<lambda>r. retR (Some (r, None)));
          stop_with = (\<lambda>code. bindR (stop_model_step env run lease sid (Some code)) stop) in
      bindR (maybe_cancel env run lease) (\<lambda>c. or_cancelled c
        (thenR (assert_step_dispatch env run lease)
        (bindR (maybe_cancel env run lease) (\<lambda>c'. or_cancelled c'
          (case assert_model_request_compatible contract request streams of
             Inl e \<Rightarrow> (case contract_error_code (Exn e) of
                          Some code \<Rightarrow> stop_with code | None \<Rightarrow> raiseR e)
           | Inr _ \<Rightarrow>
               bindR (liftE (over_budget env contract request)) (\<lambda>over.
               if over then stop_with ERROR_CONTEXT_BUDGET_EXCEEDED
               else bindR (new_id env) (\<lambda>aid.
                 thenR (publish (step_update run STEP_STARTED sid aid STEP_MODEL))
                   (dispatch_model env run d lease a sid aid contract request streams t policy count))))
          stop)))
        stop))"

lemma model_failed_continue:
  assumes "model_failed env run lease sid aid p policy count reserved usage e s = (Inr None, s')"
  shows "\<exists>pol. policy = Some pol \<and> count < max_attempts pol"
proof -
  let ?f = "case contract_error_code e of Some code \<Rightarrow> (PERMANENT, code, redact_failure_message [])
            | None \<Rightarrow> classify_fault e"
  have "should_retry (fst ?f) policy count None"
  proof (rule ccontr)
    assume "\<not> should_retry (fst ?f) policy count None"
    then show False using assms
      by (auto simp: model_failed_def Let_def or_cancelled_def bindR_def thenR_def retR_def
          split: prod.splits sum.splits if_splits option.splits)
  qed
  then show ?thesis by (auto simp: should_retry_def split: option.splits if_splits)
qed

lemma dispatch_model_continue:
  assumes "dispatch_model env run d lease a sid aid contract request streams t policy count s = (Inr None, s')"
  shows "\<exists>pol. policy = Some pol \<and> count < max_attempts pol"
proof -
  have "\<exists>reserved usage e t'. model_failed env run lease sid aid (mt_purpose t) policy count reserved usage e t'
      = (Inr None, s')"
    using assms
    by (auto simp: dispatch_model_def dispatch_reserved_def bindR_def thenR_def retR_def
        split: prod.splits sum.splits step_end.splits)
  then show ?thesis using model_failed_continue by blast
qed

lemma model_attempt_continue:
  assumes "model_attempt env run d lease a b snap t sid policy count s = (Inr None, s')"
  shows "\<exists>pol. policy = Some pol \<and> count < max_attempts pol"
  using assms
  by (auto simp: model_attempt_def Let_def or_cancelled_def bindR_def thenR_def retR_def raiseR_def
      split: prod.splits sum.splits if_splits option.splits dest!: dispatch_model_continue)

function model_loop ::
  "runner_env \<Rightarrow> run_record \<Rightarrow> agent_definition \<Rightarrow> run_lease \<Rightarrow> model_adapter \<Rightarrow> model_binding
     \<Rightarrow> definition_snapshot \<Rightarrow> model_task \<Rightarrow> ident \<Rightarrow> retry_policy option \<Rightarrow> int
     \<Rightarrow> runner_state \<Rightarrow> (fault + run_record \<times> model_response option) \<times> runner_state" where
  "model_loop env run d lease a b snap t sid policy count s =
     bindR (model_attempt env run d lease a b snap t sid policy (count + 1)) (\<lambda>r t'.
       case r of
         Some x \<Rightarrow> retR x t'
       | None \<Rightarrow> model_loop env run d lease a b snap t sid policy (count + 1) t') s"
  by pat_completeness auto

termination model_loop
  by (relation "measure (\<lambda>(env, run, d, lease, a, b, snap, t, sid, policy, count, s).
        case policy of None \<Rightarrow> 0 | Some p \<Rightarrow> nat (max_attempts p - count))")
    (auto dest: model_attempt_continue)

declare model_loop.simps [simp del]

definition run_single_model_step ::
  "runner_env \<Rightarrow> run_record \<Rightarrow> agent_definition \<Rightarrow> run_lease \<Rightarrow> model_task \<Rightarrow> ident option \<Rightarrow> bool
     \<Rightarrow> (run_record \<times> model_response option) runner" where
  "run_single_model_step env run d lease t step recovery_replay =
     (case run_snapshot run of None \<Rightarrow> raiseR RuntimeError | Some snap \<Rightarrow>
     thenR (assert_adapter_contract_matches_snapshot env run d)
     (bindR (liftE (model_adapter_for d (mt_purpose t))) (\<lambda>a.
     bindR (liftE (case snap_model_bindings snap of
                     Some bs \<Rightarrow> Inr bs
                   | None \<Rightarrow> effective_model_bindings (re_definitions env) d)) (\<lambda>bindings.
     bindR (liftE (for_purpose bindings (mt_purpose t))) (\<lambda>b.
     bindR (id_or_new env step) (\<lambda>sid.
     bindR (attempts_of env run) (\<lambda>all.
     let policy = snap_retry_policy snap;
         earlier = filter (\<lambda>x. attempt_step_id x = sid) all; count = int (length earlier) in
     if earlier \<noteq> [] \<and> attempt_status (last earlier) = STEP_FAILED \<and> \<not> recovery_replay
        \<and> \<not> should_retry (case attempt_classification (last earlier) of
                            Some c \<Rightarrow> c | None \<Rightarrow> PERMANENT) policy count None
     then bindR (stop_model_step env run lease sid (attempt_error_code (last earlier)))
            (\<lambda>r. retR (r, None))
     else model_loop env run d lease a b snap t sid policy count)))))))"

end
