(* ===== verification/Runner_Context.thy ===== *)
theory Runner_Context
  imports Runner_Model
begin

text \<open>
  Context and compression around the model calls, \<open>src/src/m_agent/_runner.py\<close>: the stages of
  the frozen Context Plan, each invocation a recoverable CONTEXT Step, the explicit compression
  Step, and the items of the frame a Model Step sees.
\<close>

section \<open>Context stages\<close>

definition frozen_plan :: "run_record \<Rightarrow> context_plan" where
  "frozen_plan run =
     (case run_snapshot run of
        None \<Rightarrow> \<lparr>plan_stages = [], plan_version = ''1''\<rparr> | Some s \<Rightarrow> snap_context_plan s)"

definition stage_checkpoint ::
  "runner_env \<Rightarrow> step_checkpoint list \<Rightarrow> context_stage \<Rightarrow> nat \<Rightarrow> step_checkpoint option" where
  "stage_checkpoint env cps stage boundary =
     find (\<lambda>c. cp_step_type c = STEP_CONTEXT
        \<and> (case re_parse_stage env (cp_output c) of
             None \<Rightarrow> False
           | Some r \<Rightarrow> res_stage_id r = stage_id (stage_identity stage)
               \<and> res_scope r = stage_scope (stage_identity stage) \<and> res_boundary r = boundary)) cps"

text \<open>The structured output of one PROVIDE invocation; \<open>stage_id\<close> has a minimum length.\<close>

definition stage_result ::
  "context_provider \<Rightarrow> context_stage \<Rightarrow> nat \<Rightarrow> context_item list \<Rightarrow> exn + context_stage_result" where
  "stage_result provider stage boundary items =
     (let i = stage_identity stage in
      if stage_id i = [] then Inl ValueError
      else Inr \<lparr>res_stage_id = stage_id i, res_scope = stage_scope i,
             res_transform_type = transform_type i, res_input_item_ids = [],
             res_boundary = boundary,
             res_output_items = map (\<lambda>x. \<lparr>ip_item = x,
                ip_provenance = \<lparr>prov_stage_id = stage_id i, prov_transform_type = transform_type i,
                  prov_source_item_ids = []\<rparr>\<rparr>) items,
             res_decisions = [(ustr ''provider'', JStr (ustr (provider_type_name provider))),
                              (ustr ''stage_key'', JStr (ustr (stable_key i)))],
             res_measurement = [(''item_count'', int (length items)),
                                (''output_tokens_estimate'', estimate_items items)]\<rparr>)"

definition provide_context ::
  "runner_env \<Rightarrow> run_record \<Rightarrow> agent_definition \<Rightarrow> run_lease \<Rightarrow> context_provider \<Rightarrow> context_stage
     \<Rightarrow> nat \<Rightarrow> ident \<Rightarrow> ident \<Rightarrow> (context_item list \<times> pystr) step_end runner" where
  "provide_context env run d lease provider stage boundary sid aid =
     thenR (assert_step_dispatch env run lease)
     (bindR (maybe_cancel env run lease) (\<lambda>c. or_cancelled c
       (bindR (enforce_policy env run d lease GATE_CONTEXT
                [text_field ''input'' (run_input run), true_field ''final_authorization'']
                (step_gate_args sid STEP_CONTEXT aid)) (\<lambda>run1.
        if run_status_of run1 \<noteq> RUNNING then retR (Stop run1)
        else
          bindR (external env (Context_Call (run_id run) sid aid (run_input run1))
                   (\<lambda>n. provide provider n (run_input run1))) (\<lambda>items.
          thenR (liftE (re_dump_items env items))
          (bindR (liftE (stage_result provider stage boundary items)) (\<lambda>result.
           bindR (liftE (re_dump_stage env result)) (\<lambda>payload. retR (Go (items, payload))))))))
       (\<lambda>r. retR (Stop r))))"

text \<open>The \<open>except Exception\<close> clause: the Run fails without an error code.\<close>

definition context_failed ::
  "runner_env \<Rightarrow> run_record \<Rightarrow> run_lease \<Rightarrow> ident \<Rightarrow> ident \<Rightarrow> fault
     \<Rightarrow> (run_record \<times> context_item list) runner" where
  "context_failed env run lease sid aid e =
     thenR (write_step env run lease sid STEP_CONTEXT STEP_FAILED None)
     (thenR (record_failed_attempt env run lease sid (classify_fault e) STEP_CONTEXT (Some aid) None None)
     (bindR (maybe_cancel env run lease) (\<lambda>c. or_cancelled c
       (bindR (end_with env run lease (plain_args FAILED lease)) (\<lambda>r. retR (r, [])))
       (\<lambda>r. retR (r, [])))))"

definition checkpoint_context ::
  "runner_env \<Rightarrow> run_record \<Rightarrow> run_lease \<Rightarrow> ident \<Rightarrow> ident \<Rightarrow> pystr \<Rightarrow> unit runner" where
  "checkpoint_context env run lease sid aid payload =
     thenR (write_step env run lease sid STEP_CONTEXT STEP_SUCCEEDED None)
     (thenR (write_attempt env run lease
        ((attempt_of_step run sid aid STEP_SUCCEEDED)\<lparr>attempt_output := Some payload\<rparr>))
     (thenR (write_checkpoint env run lease sid aid STEP_CONTEXT payload)
       (publish (step_update run STEP_COMPLETED sid aid STEP_CONTEXT))))"

definition run_context_stage ::
  "runner_env \<Rightarrow> run_record \<Rightarrow> agent_definition \<Rightarrow> run_lease \<Rightarrow> context_stage \<Rightarrow> nat
     \<Rightarrow> (run_record \<times> context_item list) runner" where
  "run_context_stage env run d lease stage boundary =
     (let sid = stage_invocation_step_id stage boundary;
          unsupported =
            thenR (record_failed_step env run lease sid STEP_CONTEXT (Some ERROR_CONTEXT_STAGE_UNSUPPORTED))
              (bindR (fail_run env run lease (Some ERROR_CONTEXT_STAGE_UNSUPPORTED)) (\<lambda>r. retR (r, []))) in
      case def_context_provider d of
        None \<Rightarrow> unsupported
      | Some provider \<Rightarrow>
          if transform_type (stage_identity stage) \<noteq> PROVIDE then unsupported
          else
          bindR (maybe_cancel env run lease) (\<lambda>c. or_cancelled c
            (thenR (assert_step_dispatch env run lease)
            (bindR (enforce_policy env run d lease GATE_CONTEXT
                     [text_field ''input'' (run_input run)] no_gate_args) (\<lambda>run1.
             if run_status_of run1 \<noteq> RUNNING then retR (run1, [])
             else bindR (new_id env) (\<lambda>aid.
             thenR (publish (step_update run STEP_STARTED sid aid STEP_CONTEXT))
             (thenR (write_step env run lease sid STEP_CONTEXT STEP_RUNNING None)
             (thenR (write_attempt env run lease (attempt_of_step run sid aid STEP_RUNNING))
             (bindR (tryR (provide_context env run d lease provider stage boundary sid aid)) (\<lambda>r.
              case r of
                Inl e \<Rightarrow> context_failed env run lease sid aid e
              | Inr (Stop stopped) \<Rightarrow> retR (stopped, [])
              | Inr (Go (items, payload)) \<Rightarrow>
                  thenR (checkpoint_context env run lease sid aid payload)
                    (retR (run, items))))))))))
            (\<lambda>r. retR (r, []))))"

fun run_stages ::
  "runner_env \<Rightarrow> run_record \<Rightarrow> agent_definition \<Rightarrow> run_lease \<Rightarrow> context_stage list \<Rightarrow> run_record runner" where
  "run_stages env run d lease [] = retR run"
| "run_stages env run d lease (stage # rest) =
     bindR (checkpoints_of env run) (\<lambda>cps.
     if stage_checkpoint env cps stage 0 \<noteq> None
        \<or> (stage_id (stage_identity stage) = LEGACY_PROVIDER_STAGE_ID
           \<and> list_ex (\<lambda>c. cp_step_type c = STEP_CONTEXT
                \<and> re_parse_stage env (cp_output c) = None) cps)
     then run_stages env run d lease rest
     else bindR (run_context_stage env run d lease stage 0) (\<lambda>(run1, _).
       if run_status_of run1 \<noteq> RUNNING then retR run1
       else run_stages env run1 d lease rest))"

definition run_input_context_stages ::
  "runner_env \<Rightarrow> run_record \<Rightarrow> agent_definition \<Rightarrow> run_lease \<Rightarrow> run_record runner" where
  "run_input_context_stages env run d lease =
     run_stages env run d lease
       (if plan_is_empty (frozen_plan run) \<and> def_context_provider d \<noteq> None
        then [legacy_provider_stage] else stages_for_scope (frozen_plan run) RUN_INPUT)"

section \<open>Compression\<close>

definition frame_items ::
  "runner_env \<Rightarrow> nat \<Rightarrow> nat \<Rightarrow> step_checkpoint list \<Rightarrow> exn + context_item list" where
  "frame_items env tool_boundary model_boundary cps =
     aggregate_frame_items (re_parse_stage env) (re_load_items env) tool_boundary model_boundary
       (map cp_output (filter (\<lambda>c. cp_step_type c = STEP_CONTEXT) cps))"

definition compression_base_items :: "runner_env \<Rightarrow> step_checkpoint list \<Rightarrow> exn + context_item list" where
  "compression_base_items env cps = frame_items env 0 0 cps"

definition compression_checkpoint :: "step_checkpoint list \<Rightarrow> ident \<Rightarrow> step_checkpoint option" where
  "compression_checkpoint cps sid =
     find (\<lambda>c. cp_step_type c = STEP_MODEL \<and> cp_step_id c = sid) cps"

definition content_or_empty :: "model_response \<Rightarrow> pystr" where
  "content_or_empty r = (case resp_content r of None \<Rightarrow> [] | Some t \<Rightarrow> t)"

definition load_compression_result ::
  "runner_env \<Rightarrow> compression_contract \<Rightarrow> step_checkpoint list \<Rightarrow> step_checkpoint
     \<Rightarrow> exn + compression_result" where
  "load_compression_result env contract cps cp =
     bindE (compression_base_items env cps) (\<lambda>base.
     bindE (re_load_response env (cp_output cp)) (\<lambda>response.
     bindE (re_load_compression env (content_or_empty response)) (\<lambda>result.
     bindE (validate_compression_result result contract (filter (allows_item contract) base)) (\<lambda>_.
       Inr result))))"

definition fail_compression_evidence ::
  "runner_env \<Rightarrow> run_record \<Rightarrow> run_lease \<Rightarrow> step_checkpoint \<Rightarrow> run_record runner" where
  "fail_compression_evidence env run lease cp =
     bindR (attempts_of env run) (\<lambda>as.
     let a = find (\<lambda>x. attempt_id x = cp_attempt_id cp) as in
     thenR (record_failed_attempt env run lease (cp_step_id cp)
              (PERMANENT, ERROR_COMPRESSION_CONTRACT_VIOLATION,
               ''compression checkpoint evidence violates the frozen Compression Contract'')
              STEP_MODEL (Some (cp_attempt_id cp))
              (case a of None \<Rightarrow> Some CONTEXT_COMPRESSION | Some x \<Rightarrow> attempt_model_purpose x)
              (case a of None \<Rightarrow> None | Some x \<Rightarrow> attempt_usage x))
     (thenR (record_failed_step env run lease (cp_step_id cp) STEP_MODEL
               (Some ERROR_COMPRESSION_CONTRACT_VIOLATION))
       (fail_run env run lease (Some ERROR_COMPRESSION_CONTRACT_VIOLATION))))"

definition compression_transform ::
  "runner_env \<Rightarrow> compression_contract \<Rightarrow> context_item list \<Rightarrow> model_response \<Rightarrow> exn + model_response" where
  "compression_transform env contract compressible response =
     bindE (parse_compression_output (re_loads env) (resp_content response) contract compressible) (\<lambda>result.
     bindE (re_dump_compression env result) (\<lambda>payload.
       Inr (response\<lparr>resp_content := Some payload\<rparr>)))"

definition compression_task ::
  "runner_env \<Rightarrow> compression_contract \<Rightarrow> context_item list \<Rightarrow> model_task" where
  "compression_task env contract compressible =
     \<lparr>mt_purpose = CONTEXT_COMPRESSION, mt_items = compressible, mt_outcomes = [],
      mt_input_override = Some (compression_task_input (re_dumps env) contract),
      mt_instructions_override = Some (cc_instructions contract), mt_history_override = Some [],
      mt_allow_tools = False, mt_transform = compression_transform env contract compressible\<rparr>"

text \<open>\<open>except CompressionContractViolationError\<close>: only that class is handled.\<close>

definition or_bad_evidence ::
  "exn + 'a \<Rightarrow> 'b runner \<Rightarrow> ('a \<Rightarrow> 'b runner) \<Rightarrow> 'b runner" where
  "or_bad_evidence r bad ok =
     (case r of
        Inl e \<Rightarrow> if e = CompressionContractViolationError then bad else raiseR e
      | Inr x \<Rightarrow> ok x)"

definition run_compression_step ::
  "runner_env \<Rightarrow> run_record \<Rightarrow> agent_definition \<Rightarrow> run_lease \<Rightarrow> ident option \<Rightarrow> bool
     \<Rightarrow> (run_record \<times> compression_result option) runner" where
  "run_compression_step env run d lease step recovery_replay =
     (case run_snapshot run of None \<Rightarrow> retR (run, None) | Some snap \<Rightarrow>
     (case snap_compression_contract snap of None \<Rightarrow> retR (run, None) | Some contract \<Rightarrow>
     let sid = (case step of None \<Rightarrow> compression_step_id contract | Some i \<Rightarrow> i) in
     bindR (checkpoints_of env run) (\<lambda>cps.
     case compression_checkpoint cps sid of
       Some cp \<Rightarrow>
         or_bad_evidence (load_compression_result env contract cps cp)
           (bindR (fail_compression_evidence env run lease cp) (\<lambda>r. retR (r, None)))
           (\<lambda>result. retR (run, Some result))
     | None \<Rightarrow>
         bindR (liftE (compression_base_items env cps)) (\<lambda>base.
         let compressible = filter (allows_item contract) base in
         if compressible = [] then retR (run, None)
         else bindR (run_single_model_step env run d lease
                       (compression_task env contract compressible) (Some sid) recovery_replay)
           (\<lambda>(run1, response).
           case response of
             None \<Rightarrow> retR (run1, None)
           | Some r \<Rightarrow>
               bindR (liftE (re_load_compression env (content_or_empty r))) (\<lambda>result.
                 retR (run1, Some result)))))))"

section \<open>The frame of a Model Step\<close>

text \<open>The stages of one scope at one boundary; answers the checkpoints last read, or the Run
  when it left RUNNING.\<close>

fun run_boundary_stages ::
  "runner_env \<Rightarrow> run_record \<Rightarrow> agent_definition \<Rightarrow> run_lease \<Rightarrow> nat \<Rightarrow> context_stage list
     \<Rightarrow> step_checkpoint list \<Rightarrow> step_checkpoint list step_end runner" where
  "run_boundary_stages env run d lease boundary [] cps = retR (Go cps)"
| "run_boundary_stages env run d lease boundary (stage # rest) cps =
     (if stage_checkpoint env cps stage boundary \<noteq> None
      then run_boundary_stages env run d lease boundary rest cps
      else bindR (run_context_stage env run d lease stage boundary) (\<lambda>(run1, _).
        if run_status_of run1 \<noteq> RUNNING then retR (Stop run1)
        else bindR (checkpoints_of env run) (\<lambda>cps'.
          run_boundary_stages env run d lease boundary rest cps')))"

definition apply_compression_checkpoint ::
  "runner_env \<Rightarrow> run_record \<Rightarrow> run_lease \<Rightarrow> step_checkpoint list \<Rightarrow> context_item list
     \<Rightarrow> (run_record \<times> context_item list) runner" where
  "apply_compression_checkpoint env run lease cps items =
     (case Option.bind (run_snapshot run) snap_compression_contract of
        None \<Rightarrow> retR (run, items)
      | Some contract \<Rightarrow>
     (case compression_checkpoint cps (compression_step_id contract) of
        None \<Rightarrow> retR (run, items)
      | Some cp \<Rightarrow>
          or_bad_evidence
            (bindE (load_compression_result env contract cps cp) (apply_compression items))
            (bindR (fail_compression_evidence env run lease cp) (\<lambda>r. retR (r, [])))
            (\<lambda>items'. retR (run, items'))))"

definition count_steps :: "step_type \<Rightarrow> step_checkpoint list \<Rightarrow> nat" where
  "count_steps ty cps = length (filter (\<lambda>c. cp_step_type c = ty) cps)"

definition prepare_model_step_context ::
  "runner_env \<Rightarrow> run_record \<Rightarrow> agent_definition \<Rightarrow> run_lease
     \<Rightarrow> (run_record \<times> context_item list) runner" where
  "prepare_model_step_context env run d lease =
     (let tool_stages = stages_for_scope (frozen_plan run) TOOL_OUTCOME;
          model_stages = stages_for_scope (frozen_plan run) MODEL_STEP;
          has_context = (case run_snapshot run of None \<Rightarrow> False | Some s \<Rightarrow> snap_has_context_provider s) in
      if tool_stages = [] \<and> model_stages = [] \<and> \<not> has_context then retR (run, [])
      else
      bindR (checkpoints_of env run) (\<lambda>cps.
      let tool_boundary = count_steps STEP_TOOL cps; model_boundary = count_steps STEP_MODEL cps in
      bindR (if 0 < tool_boundary
             then run_boundary_stages env run d lease tool_boundary tool_stages cps
             else retR (Go cps)) (\<lambda>r1.
      case r1 of Stop r \<Rightarrow> retR (r, []) | Go cps1 \<Rightarrow>
      bindR (run_boundary_stages env run d lease model_boundary model_stages cps1) (\<lambda>r2.
      case r2 of Stop r \<Rightarrow> retR (r, []) | Go cps2 \<Rightarrow>
      bindR (liftE (frame_items env tool_boundary model_boundary cps2))
        (apply_compression_checkpoint env run lease cps2)))))"

end
