(* ===== verification/Runner_Loop.thy ===== *)
theory Runner_Loop
  imports Runner_Context
begin

text \<open>
  How a RUNNING Run is driven to its end, \<open>src/src/m_agent/_runner.py\<close>: final output with its
  contract and bounded repair, the model-tool loop, and the reconstruction of the position of
  an interrupted Run from its checkpoints. The model decides when the loop ends, so the loop
  has fuel; running out of it is \<open>Unfinished\<close>, which no \<open>except\<close> clause sees.
\<close>

section \<open>The final output\<close>

definition output_fields :: "pystr option \<Rightarrow> bool \<Rightarrow> (pystr \<times> json) list" where
  "output_fields output repair =
     (ustr ''output'', case output of None \<Rightarrow> JNull | Some t \<Rightarrow> JStr t)
       # (if repair then [true_field ''repair''] else [])"

text \<open>\<open>json.loads(None)\<close> raises \<open>TypeError\<close>, which the validator answers.\<close>

definition validate_final ::
  "runner_env \<Rightarrow> output_contract \<Rightarrow> pystr option \<Rightarrow> exn + (bool \<times> output_error option)" where
  "validate_final env contract output =
     (case output of
        None \<Rightarrow> Inr (False, Some OUTPUT_NOT_VALID_JSON)
      | Some t \<Rightarrow> validate_output (re_loads env) contract t)"

definition output_repair_input ::
  "runner_env \<Rightarrow> output_contract \<Rightarrow> pystr option \<Rightarrow> output_error option \<Rightarrow> pystr" where
  "output_repair_input env contract invalid err =
     re_dumps env (JObj
       [(ustr ''invalid_output'', case invalid of None \<Rightarrow> JNull | Some t \<Rightarrow> JStr t),
        (ustr ''validation_error'', JStr (case err of
           None \<Rightarrow> ustr ERROR_OUTPUT_VALIDATION_FAILED | Some e \<Rightarrow> re_error_text env e)),
        (ustr ''output_contract'', JObj
          [(ustr ''contract_id'', JStr (ustr (oc_contract_id contract))),
           (ustr ''version'', JStr (ustr (oc_version contract))),
           (ustr ''schema'', JObj (oc_schema contract))])])"

definition repair_task ::
  "runner_env \<Rightarrow> output_contract \<Rightarrow> pystr option \<Rightarrow> output_error option \<Rightarrow> model_task" where
  "repair_task env contract candidate err =
     \<lparr>mt_purpose = OUTPUT_REPAIR, mt_items = [], mt_outcomes = [],
      mt_input_override = Some (output_repair_input env contract candidate err),
      mt_instructions_override = None, mt_history_override = None, mt_allow_tools = False,
      mt_transform = Inr\<rparr>"

definition succeed_run ::
  "runner_env \<Rightarrow> run_record \<Rightarrow> run_lease \<Rightarrow> pystr option \<Rightarrow> run_record runner" where
  "succeed_run env run lease output =
     end_with env run lease ((plain_args SUCCEEDED lease)\<lparr>to_output := output\<rparr>)"

text \<open>The \<open>for\<close> loop over the repair attempts that are left.\<close>

fun repair_loop ::
  "runner_env \<Rightarrow> run_record \<Rightarrow> agent_definition \<Rightarrow> run_lease \<Rightarrow> output_contract \<Rightarrow> nat
     \<Rightarrow> pystr option \<Rightarrow> output_error option \<Rightarrow> run_record runner" where
  "repair_loop env run d lease contract 0 candidate err =
     fail_run env run lease (Some ERROR_OUTPUT_VALIDATION_FAILED)"
| "repair_loop env run d lease contract (Suc n) candidate err =
     bindR (run_single_model_step env run d lease (repair_task env contract candidate err) None False)
     (\<lambda>(run1, response).
     case response of
       None \<Rightarrow> retR run1
     | Some r \<Rightarrow>
         bindR (enforce_policy env run1 d lease GATE_FINAL_OUTPUT
                  (output_fields (resp_content r) True) no_gate_args) (\<lambda>run2.
         if run_status_of run2 \<noteq> RUNNING then retR run2
         else bindR (liftE (validate_final env contract (resp_content r))) (\<lambda>(valid, err').
           if valid then succeed_run env run2 lease (resp_content r)
           else repair_loop env run2 d lease contract n (resp_content r) err')))"

definition repair_output ::
  "runner_env \<Rightarrow> run_record \<Rightarrow> agent_definition \<Rightarrow> run_lease \<Rightarrow> pystr option \<Rightarrow> output_error option
     \<Rightarrow> int \<Rightarrow> run_record runner" where
  "repair_output env run d lease invalid err max_repairs =
     (case run_snapshot run of None \<Rightarrow> raiseR AttributeError | Some snap \<Rightarrow>
     (case snap_output_contract snap of None \<Rightarrow> raiseR AssertionError | Some contract \<Rightarrow>
     bindR (attempts_of env run) (\<lambda>as.
     let used = length (filter (\<lambda>a. attempt_model_purpose a = Some OUTPUT_REPAIR) as) in
     repair_loop env run d lease contract (nat (max_repairs - int used)) invalid err)))"

definition fail_strict_output_contract ::
  "runner_env \<Rightarrow> run_record \<Rightarrow> run_lease \<Rightarrow> ident \<Rightarrow> run_record runner" where
  "fail_strict_output_contract env run lease code =
     bindR (checkpoints_of env run) (\<lambda>cps.
     thenR
       (case find (\<lambda>c. cp_step_type c = STEP_MODEL) (rev cps) of
          None \<Rightarrow> retR ()
        | Some cp \<Rightarrow>
            bindR (attempts_of env run) (\<lambda>as.
            let a = find (\<lambda>x. attempt_id x = cp_attempt_id cp) as in
            thenR (record_failed_attempt env run lease (cp_step_id cp)
                     (PERMANENT, code, ''strict output contract violated'') STEP_MODEL
                     (Some (cp_attempt_id cp)) (Option.bind a attempt_model_purpose)
                     (Option.bind a attempt_usage))
              (record_failed_step env run lease (cp_step_id cp) STEP_MODEL (Some code))))
       (fail_run env run lease (Some code)))"

definition finalize_output ::
  "runner_env \<Rightarrow> run_record \<Rightarrow> agent_definition \<Rightarrow> run_lease \<Rightarrow> pystr option \<Rightarrow> bool
     \<Rightarrow> run_record runner" where
  "finalize_output env run d lease output repair =
     bindR (enforce_policy env run d lease GATE_FINAL_OUTPUT (output_fields output repair) no_gate_args)
     (\<lambda>run1.
     if run_status_of run1 \<noteq> RUNNING then retR run1
     else
     case Option.bind (run_snapshot run1) snap_output_contract of
       None \<Rightarrow> succeed_run env run1 lease output
     | Some contract \<Rightarrow>
         bindR (liftE (validate_final env contract output)) (\<lambda>(valid, err).
         if valid then succeed_run env run1 lease output
         else if oc_structured_output contract = JSON_SCHEMA_STRICT
           then fail_strict_output_contract env run1 lease ''MODEL_CONTRACT_VIOLATION''
         else if oc_fallback contract = FALLBACK_REPAIR then
           (case oc_repair contract of
              None \<Rightarrow> raiseR AttributeError
            | Some p \<Rightarrow> repair_output env run1 d lease output err (repair_max_attempts p))
         else fail_run env run1 lease (Some ERROR_OUTPUT_VALIDATION_FAILED)))"

definition resume_output_repair ::
  "runner_env \<Rightarrow> run_record \<Rightarrow> agent_definition \<Rightarrow> run_lease \<Rightarrow> ident \<Rightarrow> step_checkpoint list
     \<Rightarrow> run_record runner" where
  "resume_output_repair env run d lease sid model_cps =
     (case Option.bind (run_snapshot run) snap_output_contract of
        None \<Rightarrow> raiseR RuntimeError
      | Some contract \<Rightarrow>
     if oc_fallback contract \<noteq> FALLBACK_REPAIR \<or> model_cps = [] then raiseR RuntimeError
     else
     bindR (liftE (re_load_response env (cp_output (last model_cps)))) (\<lambda>candidate.
     if resp_tool_calls candidate \<noteq> [] \<or> resp_content candidate = None then raiseR RuntimeError
     else bindR (liftE (validate_final env contract (resp_content candidate))) (\<lambda>(valid, err).
     if valid then raiseR RuntimeError
     else bindR (run_single_model_step env run d lease
                   (repair_task env contract (resp_content candidate) err) (Some sid) True)
       (\<lambda>(run1, response).
       case response of
         None \<Rightarrow> retR run1
       | Some r \<Rightarrow> finalize_output env run1 d lease (Some (content_or_empty r)) True))))"

section \<open>The model-tool loop\<close>

fun run_tool_calls ::
  "runner_env \<Rightarrow> run_record \<Rightarrow> agent_definition \<Rightarrow> run_lease \<Rightarrow> tool_call list \<Rightarrow> tool_outcome list
     \<Rightarrow> (run_record \<times> tool_outcome list) step_end runner" where
  "run_tool_calls env run d lease [] outcomes = retR (Go (run, outcomes))"
| "run_tool_calls env run d lease (call # calls) outcomes =
     bindR (maybe_cancel env run lease) (\<lambda>c. or_cancelled c
       (bindR (run_tool_step env run d lease call None False False) (\<lambda>(run1, outcome).
        case outcome of
          None \<Rightarrow> retR (Stop run1)
        | Some out \<Rightarrow> run_tool_calls env run1 d lease calls (outcomes @ [out])))
       (\<lambda>r. retR (Stop r)))"

fun agent_loop ::
  "nat \<Rightarrow> runner_env \<Rightarrow> run_record \<Rightarrow> agent_definition \<Rightarrow> run_lease \<Rightarrow> tool_outcome list
     \<Rightarrow> ident option \<Rightarrow> bool \<Rightarrow> run_record runner" where
  "agent_loop 0 env run d lease outcomes step replay = reraise Unfinished"
| "agent_loop (Suc fuel) env run d lease outcomes step replay =
     bindR (maybe_cancel env run lease) (\<lambda>c. or_cancelled c
       (bindR (prepare_model_step_context env run d lease) (\<lambda>(run1, items).
        if run_status_of run1 \<noteq> RUNNING then retR run1
        else
        bindR (run_single_model_step env run1 d lease (primary_task items outcomes) step replay)
        (\<lambda>(run2, response).
        case response of
          None \<Rightarrow> retR run2
        | Some r \<Rightarrow>
            bindR (maybe_cancel env run2 lease) (\<lambda>c'. or_cancelled c'
              (if resp_tool_calls r = []
               then finalize_output env run2 d lease (resp_content r) False
               else bindR (run_tool_calls env run2 d lease (resp_tool_calls r) outcomes) (\<lambda>e.
                 case e of
                   Stop stopped \<Rightarrow> retR stopped
                 | Go (run3, outcomes') \<Rightarrow> agent_loop fuel env run3 d lease outcomes' None False))
              retR))))
       retR)"

declare agent_loop.simps [simp del]

definition execute_steps ::
  "nat \<Rightarrow> runner_env \<Rightarrow> run_record \<Rightarrow> agent_definition \<Rightarrow> run_lease \<Rightarrow> run_record runner" where
  "execute_steps fuel env run d lease =
     bindR (maybe_cancel env run lease) (\<lambda>c. or_cancelled c
       (bindR (run_input_context_stages env run d lease) (\<lambda>run1.
        if run_status_of run1 \<noteq> RUNNING then retR run1
        else bindR (run_compression_step env run1 d lease None False) (\<lambda>(run2, _).
          if run_status_of run2 \<noteq> RUNNING then retR run2
          else agent_loop fuel env run2 d lease [] None False)))
       retR)"

section \<open>Recovery of a RUNNING Run\<close>

definition find_last :: "('a \<Rightarrow> bool) \<Rightarrow> 'a list \<Rightarrow> 'a option" where
  "find_last P xs = find P (rev xs)"

text \<open>
  The newest model attempt without a checkpoint that no newer checkpointed attempt of its Step
  supersedes. The list is scanned from its end; \<open>newer\<close> holds what was scanned before.
\<close>

fun unconfirmed_attempt ::
  "ident list \<Rightarrow> ident list \<Rightarrow> step_attempt list \<Rightarrow> step_attempt list \<Rightarrow> step_attempt option" where
  "unconfirmed_attempt step_ids confirmed newer [] = None"
| "unconfirmed_attempt step_ids confirmed newer (a # older) =
     (if attempt_step_id a \<in> set step_ids \<and> attempt_id a \<notin> set confirmed
         \<and> \<not> list_ex (\<lambda>b. attempt_step_id b = attempt_step_id a \<and> attempt_id b \<in> set confirmed) newer
         \<and> (attempt_status a = STEP_RUNNING \<or> attempt_status a = STEP_SUCCEEDED
            \<or> attempt_error_code a = Some ERROR_MODEL_CHECKPOINT_UNCONFIRMED)
      then Some a else unconfirmed_attempt step_ids confirmed (a # newer) older)"

definition model_unconfirmed :: failure where
  "model_unconfirmed = (UNCERTAIN, ERROR_MODEL_CHECKPOINT_UNCONFIRMED,
     ''model attempt reservation has no checkpoint'')"

text \<open>Accounts for the attempt and decides whether its Step is replayed.\<close>

definition settle_model_attempt ::
  "runner_env \<Rightarrow> run_record \<Rightarrow> run_lease \<Rightarrow> step_attempt list \<Rightarrow> step_attempt option
     \<Rightarrow> ident option step_end runner" where
  "settle_model_attempt env run lease atts unconfirmed =
     (case unconfirmed of None \<Rightarrow> retR (Go None) | Some a \<Rightarrow>
      let sid = attempt_step_id a;
          used = length (filter (\<lambda>x. attempt_step_id x = sid) atts) in
      thenR (if attempt_status a \<noteq> STEP_FAILED
             then record_failed_attempt env run lease sid model_unconfirmed STEP_MODEL
                    (Some (attempt_id a)) (attempt_model_purpose a) (attempt_usage a)
             else retR ())
      (if recovery_replay_allowed (retry_policy_of run) (int used) then retR (Go (Some sid))
       else bindR (stop_model_step env run lease sid (Some ERROR_MODEL_CHECKPOINT_UNCONFIRMED))
              (\<lambda>r. retR (Stop r))))"

text \<open>The calls of the last response whose outcome has no checkpoint; an in-flight identity
  belongs to the first of them only.\<close>

fun resume_tool_calls ::
  "runner_env \<Rightarrow> run_record \<Rightarrow> agent_definition \<Rightarrow> run_lease \<Rightarrow> ident list \<Rightarrow> tool_call list
     \<Rightarrow> ident option \<Rightarrow> step_attempt option \<Rightarrow> tool_outcome list
     \<Rightarrow> (run_record \<times> tool_outcome list) step_end runner" where
  "resume_tool_calls env run d lease confirmed [] step att outcomes = retR (Go (run, outcomes))"
| "resume_tool_calls env run d lease confirmed (call # calls) step att outcomes =
     (if call_id call \<in> set confirmed
      then resume_tool_calls env run d lease confirmed calls step att outcomes
      else
      case (frozen_tool_effect run (call_tool_name call), step) of
        (None, Some sid) \<Rightarrow>
          bindR (enter_waiting_preserving_failure env run lease sid None) (\<lambda>r. retR (Stop r))
      | (None, None) \<Rightarrow>
          bindR (fail_missing_frozen_tool_declaration env run lease (call_tool_name call))
            (\<lambda>r. retR (Stop r))
      | (Some effect, _) \<Rightarrow>
          if effect = NON_IDEMPOTENT \<and> step \<noteq> None then
            bindR (enter_waiting_preserving_failure env run lease (the step) att) (\<lambda>r. retR (Stop r))
          else
          thenR (case (step, att) of
                   (Some sid, Some a) \<Rightarrow>
                     thenR (record_failed_attempt env run lease sid effect_unconfirmed STEP_TOOL
                              (Some (attempt_id a)) None None)
                       (record_failed_step env run lease sid STEP_TOOL None)
                 | _ \<Rightarrow> retR ())
          (bindR (run_tool_step env run d lease call step (att \<noteq> None) False) (\<lambda>(run1, outcome).
           case outcome of
             None \<Rightarrow> retR (Stop run1)
           | Some out \<Rightarrow>
               resume_tool_calls env run1 d lease confirmed calls None None (outcomes @ [out]))))"

definition confirmed_outcomes :: "runner_env \<Rightarrow> step_checkpoint list \<Rightarrow> exn + tool_outcome list" where
  "confirmed_outcomes env cps =
     mapE (\<lambda>c. re_load_outcome env (cp_output c)) (filter (\<lambda>c. cp_step_type c = STEP_TOOL) cps)"

definition frozen_compression_step :: "run_record \<Rightarrow> ident option" where
  "frozen_compression_step run =
     map_option compression_step_id (Option.bind (run_snapshot run) snap_compression_contract)"

text \<open>Replay of an unconfirmed model call.\<close>

definition replay_model_step ::
  "nat \<Rightarrow> runner_env \<Rightarrow> run_record \<Rightarrow> agent_definition \<Rightarrow> run_lease \<Rightarrow> step_checkpoint list
     \<Rightarrow> ident \<Rightarrow> step_attempt option \<Rightarrow> run_record runner" where
  "replay_model_step fuel env run d lease cps sid unconfirmed =
     (if Option.bind unconfirmed attempt_model_purpose = Some OUTPUT_REPAIR
      then resume_output_repair env run d lease sid (filter (\<lambda>c. cp_step_type c = STEP_MODEL) cps)
      else if frozen_compression_step run = Some sid then
        bindR (run_compression_step env run d lease (Some sid) True) (\<lambda>(run1, _).
        if run_status_of run1 \<noteq> RUNNING then retR run1
        else bindR (liftE (confirmed_outcomes env cps)) (\<lambda>outcomes.
          agent_loop fuel env run1 d lease outcomes None False))
      else bindR (liftE (confirmed_outcomes env cps)) (\<lambda>outcomes.
        agent_loop fuel env run d lease outcomes (Some sid) True))"

text \<open>Continuation after the last confirmed business model call.\<close>

definition continue_from_checkpoints ::
  "nat \<Rightarrow> runner_env \<Rightarrow> run_record \<Rightarrow> agent_definition \<Rightarrow> run_lease \<Rightarrow> step_checkpoint list
     \<Rightarrow> ident option \<Rightarrow> ident option \<Rightarrow> step_attempt option \<Rightarrow> run_record runner" where
  "continue_from_checkpoints fuel env run d lease cps model_step tool_step tool_att =
     (let business = filter (\<lambda>c. cp_step_type c = STEP_MODEL
                         \<and> frozen_compression_step run \<noteq> Some (cp_step_id c)) cps in
      if business = [] then
        agent_loop fuel env run d lease []
          (case model_step of
             None \<Rightarrow> None
           | Some i \<Rightarrow> if frozen_compression_step run = Some i then None else Some i) False
      else
      bindR (liftE (re_load_response env (cp_output (last business)))) (\<lambda>response.
      if resp_tool_calls response = []
      then finalize_output env run d lease (resp_content response) False
      else bindR (liftE (confirmed_outcomes env cps)) (\<lambda>outcomes.
        bindR (resume_tool_calls env run d lease (map outcome_call_id outcomes)
                 (resp_tool_calls response) tool_step tool_att outcomes) (\<lambda>e.
        case e of
          Stop r \<Rightarrow> retR r
        | Go (run1, outcomes') \<Rightarrow> agent_loop fuel env run1 d lease outcomes' None False))))"

definition resume_stages ::
  "runner_env \<Rightarrow> run_record \<Rightarrow> agent_definition \<Rightarrow> run_lease \<Rightarrow> step_checkpoint list \<Rightarrow> run_record runner" where
  "resume_stages env run d lease cps =
     (if (case run_snapshot run of None \<Rightarrow> False | Some s \<Rightarrow> snap_has_context_provider s) then
        if \<not> list_ex (\<lambda>c. cp_step_type c = STEP_CONTEXT) cps \<and> def_context_provider d = None
        then raiseR RuntimeError
        else run_input_context_stages env run d lease
      else retR run)"

definition resolve_definition :: "runner_env \<Rightarrow> run_record \<Rightarrow> exn + agent_definition" where
  "resolve_definition env run =
     resolve (run_definition_id run) (run_definition_version run) (re_registry env)"

definition resume_running ::
  "nat \<Rightarrow> runner_env \<Rightarrow> run_record \<Rightarrow> run_lease \<Rightarrow> run_record runner" where
  "resume_running fuel env run lease =
     (case resolve_definition env run of
        Inl _ \<Rightarrow> enter_waiting_definition_unavailable env run lease
      | Inr d \<Rightarrow>
     thenR (assert_adapter_contract_matches_snapshot env run d)
     (bindR (checkpoints_of env run) (\<lambda>cps.
     bindR (getR (\<lambda>s. get_steps (run_id run) (rs_store s))) (\<lambda>psteps.
     bindR (attempts_of env run) (\<lambda>atts.
     case find_last (\<lambda>a. attempt_error_code a = Some ERROR_POLICY_OUTCOME_PENDING
                        \<and> attempt_output a \<noteq> None) atts of
       Some pending \<Rightarrow> enter_waiting_policy_outcome env run lease (attempt_step_id pending)
     | None \<Rightarrow>
     let model_steps = filter (\<lambda>x. step_type x = STEP_MODEL) psteps;
         running = (\<lambda>ty. find_last (\<lambda>x. step_type x = ty \<and> step_status x = STEP_RUNNING) psteps);
         tool_step = map_option step_id (running STEP_TOOL);
         tool_att = (case tool_step of
             None \<Rightarrow> None
           | Some sid \<Rightarrow> find_last (\<lambda>a. attempt_step_id a = sid \<and> attempt_status a = STEP_RUNNING) atts);
         confirmed = map cp_attempt_id (filter (\<lambda>c. cp_step_type c = STEP_MODEL) cps);
         unconfirmed = unconfirmed_attempt (map step_id model_steps) confirmed [] (rev atts);
         model_step = (case unconfirmed of
             None \<Rightarrow> map_option step_id (running STEP_MODEL) | Some a \<Rightarrow> Some (attempt_step_id a)) in
     bindR (settle_model_attempt env run lease atts unconfirmed) (\<lambda>settled.
     case settled of Stop r \<Rightarrow> retR r | Go replay \<Rightarrow>
     if model_steps \<noteq> [] \<and> step_status (last model_steps) = STEP_FAILED
        \<and> Some (step_id (last model_steps)) \<noteq> replay
     then fail_run env run lease (step_error_code (last model_steps))
     else
     bindR (resume_stages env run d lease cps) (\<lambda>run1.
     if run_status_of run1 \<noteq> RUNNING then retR run1
     else case replay of
       Some sid \<Rightarrow> replay_model_step fuel env run1 d lease cps sid unconfirmed
     | None \<Rightarrow> continue_from_checkpoints fuel env run1 d lease cps model_step tool_step tool_att)))))))"

end
