(* ===== verification/Runner_Ops.thy ===== *)
theory Runner_Ops
  imports Runner_Loop
begin

text \<open>
  The public entry points of the Runner, \<open>src/src/m_agent/_runner.py\<close>: creation, start, resume,
  cancellation and resolution of Runs. \<open>rs_active\<close> is \<open>_active_advancers\<close>.
\<close>

definition definition_of :: "runner_env \<Rightarrow> run_record \<Rightarrow> agent_definition runner" where
  "definition_of env run = liftE (resolve_definition env run)"

text \<open>Fields not given take the defaults of \<open>RunRecord\<close>.\<close>

definition new_run ::
  "agent_definition \<Rightarrow> definition_snapshot \<Rightarrow> ident \<Rightarrow> pystr \<Rightarrow> conversation_message list \<Rightarrow> timestamp
     \<Rightarrow> run_record" where
  "new_run d snap rid input history utc =
     \<lparr>run_id = rid, run_definition_id = def_id d, run_definition_version = def_version d,
      run_input = input, run_history = history, run_status_of = CREATED, run_snapshot = Some snap,
      run_output = None, run_waiting_reason = None, run_waiting_step_id = None,
      run_error_code = None, run_version = 1, run_lease_owner = None, run_lease_expires_at = None,
      run_created_at = utc, run_updated_at = utc\<rparr>"

definition runner_create_run ::
  "runner_env \<Rightarrow> ident \<Rightarrow> ident \<Rightarrow> pystr \<Rightarrow> ident option \<Rightarrow> conversation_message list
     \<Rightarrow> run_record runner" where
  "runner_create_run env did version input rid history =
     (if (case rid of None \<Rightarrow> False | Some i \<Rightarrow> blank_ident i) then raiseR ValueError
      else
      bindR (liftE (resolve did version (re_registry env))) (\<lambda>d.
      bindR (id_or_new env rid) (\<lambda>i.
      bindR (liftE (frozen_snapshot (re_definitions env) d)) (\<lambda>snap.
        store_op env (\<lambda>now utc. create_run (re_store env) (new_run d snap i input history utc))))))"

definition start_with_lease ::
  "nat \<Rightarrow> runner_env \<Rightarrow> run_record \<Rightarrow> agent_definition \<Rightarrow> run_lease \<Rightarrow> run_record runner" where
  "start_with_lease fuel env run d lease =
     thenR (catchR (assert_adapter_contract_matches_snapshot env run d)
              (\<lambda>e. thenR (release_quietly env (run_id run) lease) (reraise e)))
     (bindR (enforce_policy env run d lease GATE_INPUT [text_field ''input'' (run_input run)]
               no_gate_args) (\<lambda>gated.
      if run_status_of gated \<noteq> CREATED then retR gated
      else bindR (transition env run (plain_args RUNNING lease)) (\<lambda>running.
        thenR (publish_status (run_id run) RUNNING) (execute_steps fuel env running d lease))))"

definition advancing :: "ident \<Rightarrow> 'a runner \<Rightarrow> 'a runner" where
  "advancing rid m = thenR (set_active rid True) (finallyR m (set_active rid False))"

definition start_run :: "nat \<Rightarrow> runner_env \<Rightarrow> ident \<Rightarrow> run_record runner" where
  "start_run fuel env rid =
     bindR (get_existing_run env rid) (\<lambda>run.
     if run_status_of run \<noteq> CREATED then raiseR IllegalRunTransitionError
     else
     bindR (definition_of env run) (\<lambda>d.
     thenR (assert_adapter_contract_matches_snapshot env run d)
     (advancing rid
       (bindR (acquire_run_lease env run) (start_with_lease fuel env run d)))))"

text \<open>\<open>resolve\<close> raises \<open>DefinitionNotFoundError\<close> and nothing else.\<close>

definition resume_run :: "nat \<Rightarrow> runner_env \<Rightarrow> ident \<Rightarrow> run_record runner" where
  "resume_run fuel env rid =
     bindR (get_existing_run env rid) (\<lambda>run.
     if is_terminal (run_status_of run) then raiseR IllegalRunTransitionError
     else if run_status_of run = WAITING then
       if run_waiting_reason run \<noteq> Some REASON_DEFINITION_UNAVAILABLE then retR run
       else (case resolve_definition env run of
         Inl _ \<Rightarrow> retR run
       | Inr d \<Rightarrow>
           thenR (assert_adapter_contract_matches_snapshot env run d)
           (advancing rid
             (bindR (acquire_run_lease env run) (\<lambda>lease.
              bindR (transition env run (plain_args RUNNING lease)) (\<lambda>running.
              thenR (publish_status (run_id run) RUNNING) (resume_running fuel env running lease))))))
     else
       advancing rid
         (thenR (if run_status_of run \<noteq> CREATED
                 then (case resolve_definition env run of
                         Inl _ \<Rightarrow> retR ()
                       | Inr d \<Rightarrow> assert_adapter_contract_matches_snapshot env run d)
                 else retR ())
         (bindR (acquire_run_lease env run) (\<lambda>lease.
            if run_status_of run = CREATED then
              (case resolve_definition env run of
                 Inl _ \<Rightarrow> enter_waiting_definition_unavailable env run lease
               | Inr d \<Rightarrow> start_with_lease fuel env run d lease)
            else resume_running fuel env run lease))))"

definition inspect_run :: "runner_env \<Rightarrow> ident \<Rightarrow> run_inspection runner" where
  "inspect_run env rid =
     bindR (get_existing_run env rid) (\<lambda>run.
     bindR (getR (\<lambda>s. get_steps rid (rs_store s))) (\<lambda>ss.
     bindR (store_get (get_attempts (re_store env) rid)) (\<lambda>as.
     bindR (store_get (get_checkpoints (re_store env) rid)) (\<lambda>cs.
     bindR (getR (\<lambda>s. get_policy_decisions rid (rs_store s))) (\<lambda>ds.
       retR \<lparr>insp_run = run, insp_steps = ss, insp_attempts = as, insp_checkpoints = cs,
             insp_policy_decisions = ds\<rparr>)))))"

section \<open>Resolution of WAITING Runs\<close>

definition require_current :: "run_record \<Rightarrow> run_resolution \<Rightarrow> exn + unit" where
  "require_current run res =
     (if run_status_of run \<noteq> WAITING then Inl IllegalRunTransitionError
      else bindE (require_allowed run (res_action res)) (\<lambda>_.
        if res_waiting_step_id res \<noteq> None \<and> res_waiting_step_id res \<noteq> run_waiting_step_id run
        then Inl ResolutionNotAllowedError else Inr ()))"

definition unresolvable :: "exn + 'a \<Rightarrow> exn + 'a" where
  "unresolvable r = (case r of Inl _ \<Rightarrow> Inl ResolutionNotAllowedError | Inr x \<Rightarrow> Inr x)"

definition confirm_step ::
  "nat \<Rightarrow> runner_env \<Rightarrow> run_record \<Rightarrow> agent_definition \<Rightarrow> run_lease \<Rightarrow> ident \<Rightarrow> tool_call
     \<Rightarrow> tool_outcome list \<Rightarrow> pystr option \<Rightarrow> run_record runner" where
  "confirm_step fuel env run d lease sid call outcomes result =
     (case result of None \<Rightarrow> raiseR AssertionError | Some x \<Rightarrow>
     bindR (liftE (outcome_success (call_id call) (call_tool_name call) x)) (\<lambda>out.
     bindR (enforce_policy env run d lease GATE_TOOL_OUTCOME
              (outcome_fields out @ [true_field ''confirmed_by_application'']) no_gate_args) (\<lambda>run1.
     if run_status_of run1 \<noteq> RUNNING then retR run1
     else thenR (checkpoint_tool_outcome env run1 lease sid out None)
       (agent_loop fuel env run1 d lease (outcomes @ [out]) None False))))"

definition resolve_uncertain_continue ::
  "nat \<Rightarrow> runner_env \<Rightarrow> run_record \<Rightarrow> agent_definition \<Rightarrow> run_lease \<Rightarrow> run_resolution
     \<Rightarrow> run_record runner" where
  "resolve_uncertain_continue fuel env run d lease res =
     bindR (checkpoints_of env run) (\<lambda>cps.
     let model_cps = filter (\<lambda>c. cp_step_type c = STEP_MODEL) cps in
     case run_waiting_step_id run of None \<Rightarrow> raiseR ResolutionNotAllowedError | Some sid \<Rightarrow>
     if model_cps = [] then raiseR ResolutionNotAllowedError
     else
     bindR (liftE (re_load_response env (cp_output (last model_cps)))) (\<lambda>response.
     bindR (liftE (confirmed_outcomes env cps)) (\<lambda>outcomes.
     case find (\<lambda>c. call_id c \<notin> set (map outcome_call_id outcomes)) (resp_tool_calls response) of
       None \<Rightarrow> raiseR ResolutionNotAllowedError
     | Some call \<Rightarrow>
         bindR (transition env run (plain_args RUNNING lease)) (\<lambda>running.
         thenR (publish_status (run_id run) RUNNING)
         (if res_action res = CONFIRM_STEP
          then confirm_step fuel env running d lease sid call outcomes (res_result res)
          else bindR (run_tool_step env running d lease call (Some sid) False True)
            (\<lambda>(run1, outcome).
            case outcome of
              None \<Rightarrow> retR run1
            | Some out \<Rightarrow> agent_loop fuel env run1 d lease (outcomes @ [out]) None False))))))"

text \<open>CONTINUE_RUN first settles a Tool Outcome that a policy holds.\<close>

definition settle_pending_outcome ::
  "runner_env \<Rightarrow> run_record \<Rightarrow> run_record \<Rightarrow> agent_definition \<Rightarrow> run_lease \<Rightarrow> run_record runner" where
  "settle_pending_outcome env run running d lease =
     (if (case run_waiting_reason run of
            None \<Rightarrow> True
          | Some w \<Rightarrow> w = [] \<or> \<not> starts_with (REASON_POLICY_RESOLUTION_REQUIRED @ '':'') w)
      then retR running
      else
      bindR (getR (\<lambda>s. get_policy_decisions (run_id run) (rs_store s))) (\<lambda>ds.
      if ds = [] \<or> pdr_gate (last ds) \<noteq> GATE_TOOL_OUTCOME then retR running
      else
      bindR (pending_tool_outcome env run (run_waiting_step_id run)) (\<lambda>pending.
      case Option.bind pending (\<lambda>a. map_option (Pair a) (attempt_output a)) of
        None \<Rightarrow> raiseR RuntimeError
      | Some (a, payload) \<Rightarrow>
          bindR (liftE (re_load_outcome env payload)) (\<lambda>out.
          bindR (enforce_policy env running d lease GATE_TOOL_OUTCOME
                   (outcome_fields out @ [true_field ''continued_by_application''])
                   (no_gate_args\<lparr>ga_waiting_step_id := run_waiting_step_id run\<rparr>)) (\<lambda>run1.
          if run_status_of run1 \<noteq> RUNNING then retR run1
          else thenR (checkpoint_tool_outcome env run1 lease (attempt_step_id a) out
                        (Some (attempt_id a))) (retR run1))))))"

definition continue_run ::
  "nat \<Rightarrow> runner_env \<Rightarrow> ident \<Rightarrow> run_record \<Rightarrow> run_lease \<Rightarrow> run_record runner" where
  "continue_run fuel env rid run lease =
     bindR (definition_of env run) (\<lambda>d.
     thenR (assert_adapter_contract_matches_snapshot env run d)
     (bindR (transition env run (plain_args RUNNING lease)) (\<lambda>running.
      thenR (publish_status (run_id run) RUNNING)
      (bindR (settle_pending_outcome env run running d lease) (\<lambda>run1.
       if run_status_of run1 \<noteq> RUNNING then retR run1
       else advancing rid
         (bindR (checkpoints_of env run) (\<lambda>cps.
          if cps = [] then
            bindR (enforce_policy env run1 d lease GATE_INPUT [text_field ''input'' (run_input run1)]
                     no_gate_args) (\<lambda>gated.
            if run_status_of gated \<noteq> RUNNING then retR gated
            else execute_steps fuel env gated d lease)
          else resume_running fuel env run1 lease)))))))"

definition resolve_with_lease ::
  "nat \<Rightarrow> runner_env \<Rightarrow> ident \<Rightarrow> run_resolution \<Rightarrow> int \<Rightarrow> run_lease \<Rightarrow> run_record runner" where
  "resolve_with_lease fuel env rid res v lease =
     bindR (get_existing_run env rid) (\<lambda>run.
     thenR (liftE (require_current run res))
     (if run_version run \<noteq> v then raiseR StaleRunVersionError
      else case res_action res of
        FAIL_RUN \<Rightarrow> terminate_run env run lease FAILED
      | CANCEL_RUN \<Rightarrow> terminate_run env run lease CANCELLED
      | CONTINUE_RUN \<Rightarrow> continue_run fuel env rid run lease
      | _ \<Rightarrow>
          bindR (liftE (unresolvable (resolve_definition env run))) (\<lambda>d.
          thenR (assert_adapter_contract_matches_snapshot env run d)
            (advancing rid (resolve_uncertain_continue fuel env run d lease res)))))"

definition resolve_run ::
  "nat \<Rightarrow> runner_env \<Rightarrow> ident \<Rightarrow> run_resolution \<Rightarrow> int \<Rightarrow> run_record runner" where
  "resolve_run fuel env rid res v =
     bindR (get_existing_run env rid) (\<lambda>run.
     thenR (liftE (require_current run res))
     (if res_action res = CONFIRM_STEP \<and> (res_result res = None \<or> res_result res = Some [])
        then raiseR ResolutionNotAllowedError
      else if run_version run \<noteq> v then raiseR StaleRunVersionError
      else
      thenR (if res_action res \<in> {RETRY_STEP, CONFIRM_STEP, CONTINUE_RUN}
             then bindR (liftE (unresolvable (resolve_definition env run)))
                    (assert_adapter_contract_matches_snapshot env run)
             else retR ())
      (bindR (acquire_run_lease env run) (\<lambda>lease.
         catchR (resolve_with_lease fuel env rid res v lease)
           (\<lambda>e. thenR (release_quietly env rid lease) (reraise e))))))"

section \<open>Cancellation\<close>

definition stale_cancellation :: "run_record \<Rightarrow> int option \<Rightarrow> exn + unit" where
  "stale_cancellation run expected =
     (if expected \<noteq> None \<and> Some (run_version run) \<noteq> expected then Inl StaleRunVersionError else Inr ())"

text \<open>\<open>except LeaseNotHeldError\<close> around the acquisition.\<close>

definition try_acquire :: "runner_env \<Rightarrow> run_record \<Rightarrow> run_lease option runner" where
  "try_acquire env run =
     catchR (bindR (acquire_run_lease env run) (\<lambda>l. retR (Some l)))
       (\<lambda>e. if e = Exn LeaseNotHeldError then retR None else reraise e)"

definition note_cancellation :: "runner_env \<Rightarrow> ident \<Rightarrow> run_record \<Rightarrow> int option \<Rightarrow> run_record runner" where
  "note_cancellation env rid run expected =
     thenR (liftE (stale_cancellation run expected))
     (thenR (request_cancel rid) (get_existing_run env rid))"

definition cancel_created ::
  "runner_env \<Rightarrow> ident \<Rightarrow> int option \<Rightarrow> run_lease \<Rightarrow> run_record runner" where
  "cancel_created env rid expected lease =
     bindR (get_existing_run env rid) (\<lambda>run.
     if is_terminal (run_status_of run) then raiseR IllegalRunTransitionError
     else thenR (liftE (stale_cancellation run expected))
       (bindR (transition env run (plain_args CANCELLED lease)) (\<lambda>result.
        thenR (publish_status rid CANCELLED) (retR result))))"

definition cancel_run :: "nat \<Rightarrow> runner_env \<Rightarrow> ident \<Rightarrow> int option \<Rightarrow> run_record runner" where
  "cancel_run fuel env rid expected =
     bindR (get_existing_run env rid) (\<lambda>run.
     if is_terminal (run_status_of run) then raiseR IllegalRunTransitionError
     else if run_status_of run = WAITING then
       resolve_run fuel env rid
         \<lparr>res_action = CANCEL_RUN, res_result = None, res_reason = None, res_waiting_step_id = None\<rparr>
         (case expected of None \<Rightarrow> run_version run | Some v \<Rightarrow> v)
     else
     bindR (getR (\<lambda>s. rid \<in> rs_active s)) (\<lambda>active.
     if active then note_cancellation env rid run expected
     else if run_status_of run = RUNNING then
       thenR (liftE (stale_cancellation run expected)) (raiseR LeaseNotHeldError)
     else
     bindR (try_acquire env run) (\<lambda>l.
     case l of
       None \<Rightarrow> note_cancellation env rid run expected
     | Some lease \<Rightarrow>
         finallyR (cancel_created env rid expected lease) (release_quietly env rid lease))))"

end
