(* ===== verification/Eval_Evidence.thy ===== *)
theory Eval_Evidence
  imports Eval_Data Runner_Ops
begin

text \<open>
  Observations and evidence of the eval companion: \<open>_observation.py\<close>, \<open>_evidence.py\<close> and
  \<open>_observe.py\<close> under \<open>src/src/m_agent/companion/eval\<close>. A file is absent or has a text, or cannot
  be decoded; \<open>json.loads\<close> is a parameter.
\<close>

section \<open>Evidence artifacts\<close>

record evidence_artifact =
  artifact_id :: ident
  art_subject_ref :: ident
  art_schema_name :: ident
  art_schema_version :: ident
  art_adapter_kind :: ident
  art_source :: ident
  art_collected_at :: timestamp
  art_payload :: pystr
  art_digest :: ident

definition verify_artifact :: "eval_digests \<Rightarrow> evidence_artifact \<Rightarrow> exn + evidence_artifact" where
  "verify_artifact d a =
     (if art_digest a \<noteq> evidence_digest d (artifact_id a) (art_subject_ref a) (art_payload a)
      then Inl EvidenceIntegrityError else Inr a)"

definition validate_artifact :: "eval_digests \<Rightarrow> evidence_artifact \<Rightarrow> exn + evidence_artifact" where
  "validate_artifact d a =
     (if artifact_id a = [] \<or> art_schema_name a = [] \<or> art_schema_version a = [] \<or> art_adapter_kind a = []
         \<or> art_source a = [] \<or> length (art_digest a) \<noteq> 64 then Inl ValueError
      else verify_artifact d a)"

text \<open>What the three adapters are constructed with, and the kinds they report.\<close>

record evidence_source =
  src_path :: ident
  src_artifact_id :: ident
  src_schema_name :: ident
  src_schema_version :: ident

type_synonym 'a disk_file = "(exn + 'a) option"

definition artifact_from ::
  "eval_digests \<Rightarrow> evidence_source \<Rightarrow> ident \<Rightarrow> ident \<Rightarrow> ident \<Rightarrow> timestamp \<Rightarrow> pystr \<Rightarrow> ident \<Rightarrow> exn + evidence_artifact" where
  "artifact_from d src kind path subject now payload dig =
     validate_artifact d \<lparr>artifact_id = src_artifact_id src, art_subject_ref = subject,
       art_schema_name = src_schema_name src, art_schema_version = src_schema_version src,
       art_adapter_kind = kind, art_source = path, art_collected_at = now, art_payload = payload, art_digest = dig\<rparr>"

fun journal_lines :: "(pystr \<Rightarrow> json option) \<Rightarrow> ident \<Rightarrow> ident \<Rightarrow> pystr list \<Rightarrow> exn + json list" where
  "journal_lines loads field subject [] = Inr []"
| "journal_lines loads field subject (line # lines) =
     (if blank line then journal_lines loads field subject lines
      else case loads line of
        Some (JObj kvs) \<Rightarrow>
          (case json_get kvs field of
             None \<Rightarrow> Inl EvidenceIntegrityError
           | Some v \<Rightarrow> bindE (journal_lines loads field subject lines) (\<lambda>rest.
               Inr (if v = jstr subject then JObj kvs # rest else rest)))
      | _ \<Rightarrow> Inl EvidenceIntegrityError)"

definition collect_journal ::
  "eval_digests \<Rightarrow> (pystr \<Rightarrow> json option) \<Rightarrow> evidence_source \<Rightarrow> ident \<Rightarrow> timestamp \<Rightarrow> pystr list disk_file \<Rightarrow> ident
     \<Rightarrow> exn + evidence_artifact option" where
  "collect_journal d loads src field now file subject =
     (case file of
        None \<Rightarrow> Inr None
      | Some contents \<Rightarrow>
          bindE contents (\<lambda>lines.
          bindE (journal_lines loads field subject lines) (\<lambda>entries.
            if entries = [] then Inr None
            else let payload = canonical_json d (JArr entries) in
              bindE (artifact_from d src ''APPEND_ONLY_JOURNAL'' (src_path src) subject now payload
                  (evidence_digest d (src_artifact_id src) subject payload)) (\<lambda>a. Inr (Some a)))))"

text \<open>
  \<open>index.get\<close> and \<open>entry.get\<close> raise \<open>AttributeError\<close> when the value is not an object. A digest that is not a
  string equals no computed digest, so whether its file exists or not the same class is raised.
\<close>

definition get_attr :: "json \<Rightarrow> ident \<Rightarrow> exn + json option" where
  "get_attr v k = (case v of JObj kvs \<Rightarrow> Inr (json_get kvs k) | _ \<Rightarrow> Inl AttributeError)"

definition index_entry :: "evidence_source \<Rightarrow> ident \<Rightarrow> json \<Rightarrow> exn + json option option" where
  "index_entry src subject index =
     bindE (get_attr index ''artifacts'') (\<lambda>arts.
     bindE (get_attr (case arts of None \<Rightarrow> JObj [] | Some v \<Rightarrow> v) (src_artifact_id src)) (\<lambda>entry.
       if entry = None \<or> entry = Some JNull then Inr None
       else
         bindE (get_attr (the entry) ''subject_ref'') (\<lambda>ref.
         if ref \<noteq> Some (jstr subject) then Inr None
         else bindE (get_attr (the entry) ''digest'') (\<lambda>dig. Inr (Some dig)))))"

definition snapshot_content ::
  "eval_digests \<Rightarrow> evidence_source \<Rightarrow> (pystr \<Rightarrow> ident) \<Rightarrow> timestamp \<Rightarrow> (pystr \<Rightarrow> pystr disk_file) \<Rightarrow> ident \<Rightarrow> json option
     \<Rightarrow> exn + evidence_artifact option" where
  "snapshot_content d src content_path now contents subject dig =
     (case dig of
        Some (JStr g) \<Rightarrow>
          (case contents g of
             None \<Rightarrow> Inl EvidenceIntegrityError
           | Some c \<Rightarrow> bindE c (\<lambda>payload.
               if ustr (evidence_digest d (src_artifact_id src) subject payload) \<noteq> g then Inl EvidenceIntegrityError
               else bindE (artifact_from d src ''CONTENT_ADDRESSED_SNAPSHOT'' (content_path g) subject now payload
                   (evidence_digest d (src_artifact_id src) subject payload)) (\<lambda>a. Inr (Some a))))
      | _ \<Rightarrow> Inl EvidenceIntegrityError)"

definition collect_snapshot ::
  "eval_digests \<Rightarrow> (pystr \<Rightarrow> json option) \<Rightarrow> evidence_source \<Rightarrow> (pystr \<Rightarrow> ident) \<Rightarrow> timestamp
     \<Rightarrow> pystr disk_file \<Rightarrow> (pystr \<Rightarrow> pystr disk_file) \<Rightarrow> ident \<Rightarrow> exn + evidence_artifact option" where
  "collect_snapshot d loads src content_path now index contents subject =
     (case index of
        None \<Rightarrow> Inr None
      | Some t \<Rightarrow>
          bindE t (\<lambda>txt. case loads txt of
            None \<Rightarrow> Inl EvidenceIntegrityError
          | Some body \<Rightarrow>
              bindE (index_entry src subject body) (\<lambda>entry. case entry of
                None \<Rightarrow> Inr None
              | Some dig \<Rightarrow> snapshot_content d src content_path now contents subject dig)))"

definition collect_sentinel ::
  "eval_digests \<Rightarrow> (pystr \<Rightarrow> json option) \<Rightarrow> evidence_source \<Rightarrow> timestamp \<Rightarrow> pystr disk_file \<Rightarrow> ident
     \<Rightarrow> exn + evidence_artifact option" where
  "collect_sentinel d loads src now file subject =
     (case file of
        None \<Rightarrow> Inr None
      | Some t \<Rightarrow>
          bindE t (\<lambda>payload. case loads payload of
            None \<Rightarrow> Inl EvidenceIntegrityError
          | Some (JObj kvs) \<Rightarrow>
              if json_get kvs ''subject_ref'' \<noteq> Some (jstr subject) then Inr None
              else bindE (artifact_from d src ''SENTINEL'' (src_path src) subject now payload
                  (evidence_digest d (src_artifact_id src) subject payload)) (\<lambda>a. Inr (Some a))
          | Some _ \<Rightarrow> Inr None))"

section \<open>Observations\<close>

datatype eval_mode = MODE_EXECUTE | MODE_OBSERVE
datatype evidence_completeness = EC_COMPLETE | EC_SAMPLED | EC_UNSUPPORTED | EC_UNAVAILABLE | EC_INCONCLUSIVE

fun mode_value :: "eval_mode \<Rightarrow> ident" where
  "mode_value MODE_EXECUTE = ''EXECUTE''"
| "mode_value MODE_OBSERVE = ''OBSERVE''"

fun completeness_value :: "evidence_completeness \<Rightarrow> ident" where
  "completeness_value EC_COMPLETE = ''COMPLETE''"
| "completeness_value EC_SAMPLED = ''SAMPLED''"
| "completeness_value EC_UNSUPPORTED = ''UNSUPPORTED''"
| "completeness_value EC_UNAVAILABLE = ''UNAVAILABLE''"
| "completeness_value EC_INCONCLUSIVE = ''INCONCLUSIVE''"

definition REASON_SUBJECT_TERMINAL :: ident where "REASON_SUBJECT_TERMINAL = ''SUBJECT_TERMINAL''"
definition REASON_SUBJECT_NOT_TERMINAL :: ident where "REASON_SUBJECT_NOT_TERMINAL = ''SUBJECT_NOT_TERMINAL''"
definition REASON_SUBJECT_RUN_MISSING :: ident where "REASON_SUBJECT_RUN_MISSING = ''SUBJECT_RUN_MISSING''"
definition REASON_SAMPLING_APPLIED :: ident where "REASON_SAMPLING_APPLIED = ''SAMPLING_APPLIED''"
definition REASON_MODEL_CAPABILITIES_MISSING :: ident where "REASON_MODEL_CAPABILITIES_MISSING = ''MODEL_CAPABILITIES_MISSING''"
definition REASON_VARIANT_UNRESOLVED :: ident where "REASON_VARIANT_UNRESOLVED = ''VARIANT_UNRESOLVED''"

record sampling_disclosure =
  selection_method :: ident
  sampling_seed :: ident
  included :: int
  candidates :: int

definition validate_sampling :: "sampling_disclosure \<Rightarrow> exn + sampling_disclosure" where
  "validate_sampling s =
     (if selection_method s = [] \<or> sampling_seed s = [] \<or> included s < 0 \<or> candidates s < 0 then Inl ValueError
      else if candidates s < included s then Inl ValueError else Inr s)"

definition is_full_population :: "sampling_disclosure \<Rightarrow> bool" where
  "is_full_population s \<longleftrightarrow> 0 < candidates s \<and> included s = candidates s"

text \<open>\<open>external_evidence\<close> is a tuple of any Python objects.\<close>

datatype external_item = Ext_Artifact evidence_artifact | Ext_Json json | Ext_Object nat

record eval_observation =
  observation_id :: ident
  obs_mode :: eval_mode
  subject_run_id_of :: ident
  obs_definition_id :: ident
  obs_definition_version :: ident
  obs_variant_id :: "ident option"
  completeness :: evidence_completeness
  obs_reason_code :: ident
  collected_at :: timestamp
  obs_execution_id :: "ident option"
  obs_run_status :: "run_status option"
  obs_run_input :: "pystr option"
  obs_run_output :: "pystr option"
  conversation_history :: "conversation_message list option"
  obs_error_code :: "ident option"
  obs_step_types :: "step_type list option"
  obs_usage :: "model_usage option"
  obs_sampling :: "sampling_disclosure option"
  external_evidence :: "external_item list"

definition validate_observation :: "eval_observation \<Rightarrow> exn + eval_observation" where
  "validate_observation x =
     (if observation_id x = [] \<or> obs_reason_code x = [] then Inl ValueError
      else if completeness x = EC_SAMPLED \<and> obs_sampling x = None then Inl ValueError
      else Inr x)"

definition claims_full_population :: "eval_observation \<Rightarrow> bool" where
  "claims_full_population x \<longleftrightarrow> completeness x = EC_COMPLETE"

text \<open>An observation with the fields every constructor call gives; the rest has its default.\<close>

definition bare_observation ::
  "ident \<Rightarrow> eval_mode \<Rightarrow> ident \<Rightarrow> ident option \<Rightarrow> ident option \<Rightarrow> evidence_completeness \<Rightarrow> ident \<Rightarrow> timestamp \<Rightarrow> eval_observation" where
  "bare_observation oid mode rid eid vid c reason now =
     \<lparr>observation_id = oid, obs_mode = mode, subject_run_id_of = rid, obs_definition_id = [], obs_definition_version = [],
      obs_variant_id = vid, completeness = c, obs_reason_code = reason, collected_at = now, obs_execution_id = eid,
      obs_run_status = None, obs_run_input = None, obs_run_output = None, conversation_history = None,
      obs_error_code = None, obs_step_types = None, obs_usage = None, obs_sampling = None, external_evidence = []\<rparr>"

definition total_field :: "usage_field \<Rightarrow> step_attempt list \<Rightarrow> int option" where
  "total_field f as =
     (let vs = List.map_filter (\<lambda>a. Option.bind (attempt_usage a) (\<lambda>u. usage_value u f)) as
      in if vs = [] then None else Some (sum_list vs))"

definition total_usage :: "step_attempt list \<Rightarrow> exn + model_usage option" where
  "total_usage as =
     (if list_all (\<lambda>f. total_field f as = None) USAGE_FIELDS then Inr None
      else bindE (validate_usage
        \<lparr>u_input_tokens = total_field U_Input as, u_output_tokens = total_field U_Output as,
         u_cached_input_tokens = total_field U_Cached_Input as, u_reasoning_tokens = total_field U_Reasoning as,
         u_input_provenance = None, u_output_provenance = None, u_cached_input_provenance = None,
         u_reasoning_provenance = None, u_raw_unit = None, u_normalization_source = None,
         u_provenance = PROVIDER_REPORTED\<rparr>) (\<lambda>u. Inr (Some u)))"

definition observation_from_inspection ::
  "ident \<Rightarrow> eval_mode \<Rightarrow> run_inspection option \<Rightarrow> ident \<Rightarrow> ident option \<Rightarrow> ident option \<Rightarrow> sampling_disclosure option
     \<Rightarrow> timestamp \<Rightarrow> exn + eval_observation" where
  "observation_from_inspection oid mode insp rid eid vid sampling now =
     (case insp of
        None \<Rightarrow> validate_observation
          ((bare_observation oid mode rid eid vid EC_UNAVAILABLE REASON_SUBJECT_RUN_MISSING now)\<lparr>obs_sampling := sampling\<rparr>)
      | Some i \<Rightarrow>
          bindE (total_usage (insp_attempts i)) (\<lambda>usage.
          let run = insp_run i;
              common = (bare_observation oid mode (run_id run) eid vid EC_INCONCLUSIVE REASON_SUBJECT_NOT_TERMINAL now)
                \<lparr>obs_definition_id := run_definition_id run, obs_definition_version := run_definition_version run,
                 obs_run_status := Some (run_status_of run),
                 conversation_history := (if run_history run = [] then None else Some (run_history run)),
                 obs_step_types := Some (map step_type (insp_steps i)), obs_usage := usage, obs_sampling := sampling\<rparr>
          in if \<not> is_terminal (run_status_of run) then validate_observation common
             else validate_observation (common
               \<lparr>completeness := (if sampling = None then EC_COMPLETE else EC_SAMPLED),
                obs_reason_code := (if sampling = None then REASON_SUBJECT_TERMINAL else REASON_SAMPLING_APPLIED),
                obs_run_input := Some (run_input run), obs_run_output := run_output run,
                obs_error_code := run_error_code run\<rparr>)))"

section \<open>Read-only observation\<close>

record observation_selection =
  selection_id :: ident
  selection_version :: ident
  selection_run_ids :: "ident list"
  selection_sampling :: "sampling_disclosure option"

definition validate_selection :: "observation_selection \<Rightarrow> exn + observation_selection" where
  "validate_selection s =
     (if selection_id s = [] \<or> selection_version s = [] \<or> selection_run_ids s = [] then Inl ValueError
      else if list_ex blank_ident (selection_run_ids s) \<or> \<not> distinct (selection_run_ids s) then Inl ValueError
      else Inr s)"

definition observe_id :: "eval_digests \<Rightarrow> ident \<Rightarrow> ident option \<Rightarrow> ident" where
  "observe_id d rid sel =
     digest_of d [ustr ''eval-observation'', ustr ''OBSERVE'',
       (case sel of None \<Rightarrow> ustr ''-'' | Some i \<Rightarrow> if i = [] then ustr ''-'' else ustr i), ustr rid]"

definition inspect_or_none :: "runner_env \<Rightarrow> ident \<Rightarrow> run_inspection option runner" where
  "inspect_or_none env rid =
     catchR (bindR (inspect_run env rid) (\<lambda>i. retR (Some i)))
       (\<lambda>e. if e = Exn RunNotFoundError then retR None else reraise e)"

definition observe_run :: "eval_digests \<Rightarrow> runner_env \<Rightarrow> timestamp \<Rightarrow> ident \<Rightarrow> eval_observation runner" where
  "observe_run d env now rid =
     bindR (inspect_or_none env rid) (\<lambda>i.
       liftE (observation_from_inspection (observe_id d rid None) MODE_OBSERVE i rid None None None now))"

fun observe_runs ::
  "eval_digests \<Rightarrow> runner_env \<Rightarrow> timestamp list \<Rightarrow> ident \<Rightarrow> sampling_disclosure option \<Rightarrow> ident list \<Rightarrow> eval_observation list runner" where
  "observe_runs d env nows sel sampling [] = retR []"
| "observe_runs d env nows sel sampling (rid # rids) =
     bindR (inspect_or_none env rid) (\<lambda>i.
     bindR (liftE (observation_from_inspection (observe_id d rid (Some sel)) MODE_OBSERVE i rid None None sampling (hd nows))) (\<lambda>x.
     bindR (observe_runs d env (tl nows) sel sampling rids) (\<lambda>xs. retR (x # xs))))"

definition observe_selection :: "eval_digests \<Rightarrow> runner_env \<Rightarrow> timestamp list \<Rightarrow> observation_selection \<Rightarrow> eval_observation list runner" where
  "observe_selection d env nows s =
     observe_runs d env nows (selection_id s) (selection_sampling s) (selection_run_ids s)"

section \<open>Laws\<close>

text \<open>Looking at a Run changes nothing, whatever the outcome.\<close>

lemma inspect_run_reads: "snd (inspect_run env rid s) = s"
  by (auto simp: inspect_run_def get_existing_run_def store_get_def runner_simps getR_def liftE_def
      split: prod.splits sum.splits option.splits)

lemma inspect_or_none_reads: "snd (inspect_or_none env rid s) = s"
  using inspect_run_reads [of env rid s]
  by (auto simp: inspect_or_none_def runner_simps split: prod.splits sum.splits)

lemma liftE_reads: "snd (liftE r s) = s"
  by (cases r) (simp_all add: liftE_def runner_simps)

lemma bindR_reads: "snd (m s) = s \<Longrightarrow> (\<And>x. snd (f x s) = s) \<Longrightarrow> snd (bindR m f s) = s"
  by (auto simp: bindR_def split: prod.splits sum.splits)

lemma observe_run_reads: "snd (observe_run d env now rid s) = s"
  unfolding observe_run_def by (intro bindR_reads inspect_or_none_reads liftE_reads)

lemma observe_runs_reads: "snd (observe_runs d env nows sel sampling rids s) = s"
  by (induction rids arbitrary: nows) (auto simp: retR_def intro!: bindR_reads inspect_or_none_reads liftE_reads)

lemma observe_selection_reads: "snd (observe_selection d env nows sel s) = s"
  by (simp add: observe_selection_def observe_runs_reads)

text \<open>What an observation made from an inspection says.\<close>

lemma observation_of_inspection:
  assumes "observation_from_inspection oid mode insp rid eid vid sampling now = Inr x"
  shows "observation_id x = oid" and "obs_mode x = mode" and "obs_execution_id x = eid" and "obs_variant_id x = vid"
    and "completeness x = EC_COMPLETE \<longleftrightarrow> (\<exists>i. insp = Some i \<and> is_terminal (run_status_of (insp_run i))) \<and> sampling = None"
    and "completeness x = EC_SAMPLED \<longleftrightarrow> (\<exists>i. insp = Some i \<and> is_terminal (run_status_of (insp_run i))) \<and> sampling \<noteq> None"
    and "completeness x = EC_UNAVAILABLE \<longleftrightarrow> insp = None"
    and "obs_reason_code x = REASON_SUBJECT_NOT_TERMINAL \<longleftrightarrow>
      (\<exists>i. insp = Some i \<and> \<not> is_terminal (run_status_of (insp_run i)))"
  using assms
  by (auto simp: observation_from_inspection_def validate_observation_def bare_observation_def bindE_eq_Inr Let_def
      REASON_SUBJECT_TERMINAL_def REASON_SUBJECT_NOT_TERMINAL_def REASON_SUBJECT_RUN_MISSING_def REASON_SAMPLING_APPLIED_def
      split: option.splits if_splits)

text \<open>
  Counts are added up over the attempts and a missing count stays missing, but the sum is labelled as
  reported by the provider whatever the provenance of the counts was.
\<close>

lemma total_usage_relabelled:
  assumes "total_usage as = Inr (Some u)" and "usage_value u f = Some n"
  shows "usage_source u f = Some PROVIDER_REPORTED" and "total_field f as = Some n"
  using assms by (cases f; auto simp: total_usage_def validate_usage_def field_provenance_def bindE_eq_Inr split: if_splits)+

text \<open>Every artifact an adapter hands out verifies and belongs to the subject asked for.\<close>

lemma artifact_from_sound:
  assumes "artifact_from d src kind path subject now payload dig = Inr a"
  shows "verify_artifact d a = Inr a \<and> art_subject_ref a = subject \<and> art_payload a = payload \<and> artifact_id a = src_artifact_id src"
  using assms by (auto simp: artifact_from_def validate_artifact_def verify_artifact_def split: if_splits)

definition sound_artifact :: "eval_digests \<Rightarrow> ident \<Rightarrow> evidence_artifact option \<Rightarrow> bool" where
  "sound_artifact d subject r = (case r of None \<Rightarrow> True | Some a \<Rightarrow> verify_artifact d a = Inr a \<and> art_subject_ref a = subject)"

lemma sound_artifact_bind:
  "bindE (artifact_from d src kind path subject now payload dig) (\<lambda>a. Inr (Some a)) = Inr r \<Longrightarrow> sound_artifact d subject r"
  by (auto simp: bindE_eq_Inr sound_artifact_def dest: artifact_from_sound)

lemma sound_artifact_None [simp]: "sound_artifact d subject None"
  by (simp add: sound_artifact_def)

lemma bindE_InrE: "bindE m f = Inr y \<Longrightarrow> (\<And>x. m = Inr x \<Longrightarrow> f x = Inr y \<Longrightarrow> P) \<Longrightarrow> P"
  by (auto simp: bindE_eq_Inr)

lemma journal_sound:
  assumes "collect_journal d loads src field now lines subject = Inr r"
  shows "sound_artifact d subject r"
proof (cases lines)
  case (Some c)
  with assms show ?thesis
    by (auto simp: collect_journal_def Let_def split: if_splits elim!: bindE_InrE [where m = c]
        bindE_InrE [where m = "journal_lines _ _ _ _"] dest: sound_artifact_bind)
qed (use assms in \<open>simp add: collect_journal_def\<close>)

lemma sentinel_sound:
  assumes "collect_sentinel d loads src now marker subject = Inr r"
  shows "sound_artifact d subject r"
proof (cases marker)
  case (Some c)
  with assms show ?thesis
    by (auto simp: collect_sentinel_def elim!: bindE_InrE [where m = c]
        split: option.splits json.splits if_splits dest: sound_artifact_bind)
qed (use assms in \<open>simp add: collect_sentinel_def\<close>)

lemma snapshot_content_sound:
  assumes "snapshot_content d src content_path now contents subject dig = Inr r"
  shows "sound_artifact d subject r"
proof -
  obtain g c where "dig = Some (JStr g)" "contents g = Some c"
    using assms by (auto simp: snapshot_content_def split: option.splits json.splits)
  with assms show ?thesis
    by (auto simp: snapshot_content_def split: if_splits elim!: bindE_InrE [where m = c] dest: sound_artifact_bind)
qed

lemma snapshot_sound:
  assumes "collect_snapshot d loads src content_path now index contents subject = Inr r"
  shows "sound_artifact d subject r"
proof (cases index)
  case (Some c)
  with assms show ?thesis
    by (auto simp: collect_snapshot_def elim!: bindE_InrE [where m = c] bindE_InrE [where m = "index_entry _ _ _"]
        split: option.splits) (rule snapshot_content_sound)
qed (use assms in \<open>simp add: collect_snapshot_def\<close>)

text \<open>An index that is JSON but not an object is not reported as damaged: the lookup itself raises.\<close>

lemma snapshot_index_not_object:
  assumes "loads txt = Some index" and "\<nexists>kvs. index = JObj kvs"
  shows "collect_snapshot d loads src content_path now (Some (Inr txt)) contents subject = Inl AttributeError"
  using assms by (cases index) (simp_all add: collect_snapshot_def index_entry_def get_attr_def)

text \<open>A journal with a damaged line yields nothing for any subject, even when its own lines are intact.\<close>

lemma journal_fails_closed:
  assumes "line \<in> set lines" and "\<not> blank line" and "\<nexists>kvs. loads line = Some (JObj kvs) \<and> json_get kvs field \<noteq> None"
  shows "journal_lines loads field subject lines = Inl EvidenceIntegrityError"
  using assms
proof (induction lines)
  case (Cons l lines)
  then show ?case
    by (cases "l = line") (auto simp: bindE_eq_Inl split: option.splits json.splits)
qed simp

end
