(* ===== verification/Eval_Projection.thy ===== *)
theory Eval_Projection
  imports Eval_Evidence
begin

text \<open>
  What an evaluator may see and what it concludes: \<open>_projection.py\<close> and \<open>_evaluator.py\<close> under
  \<open>src/src/m_agent/companion/eval\<close>. A score is the rational a finite \<open>float\<close> denotes.
\<close>

section \<open>Projections\<close>

datatype evidence_field =
    F_RUN_STATUS | F_RUN_ERROR_CODE | F_RUN_INPUT | F_RUN_OUTPUT | F_CONVERSATION_HISTORY
  | F_STEP_TYPES | F_MODEL_USAGE | F_EXTERNAL_EVIDENCE

definition EVIDENCE_FIELDS :: "evidence_field list" where
  "EVIDENCE_FIELDS = [F_RUN_STATUS, F_RUN_ERROR_CODE, F_RUN_INPUT, F_RUN_OUTPUT, F_CONVERSATION_HISTORY,
     F_STEP_TYPES, F_MODEL_USAGE, F_EXTERNAL_EVIDENCE]"

datatype evidence_value =
    V_Status run_status | V_Code ident | V_Text pystr | V_History "conversation_message list"
  | V_Steps "step_type list" | V_Usage model_usage | V_External "external_item list"

record evidence_requirements =
  req_evaluator :: evaluator_ref
  req_fields :: "evidence_field set"
  external_evidence_ids :: "ident set"

definition validate_evidence_requirements :: "evidence_requirements \<Rightarrow> exn + evidence_requirements" where
  "validate_evidence_requirements r =
     (if req_fields r = {} then Inl ValueError
      else if external_evidence_ids r \<noteq> {} \<and> F_EXTERNAL_EVIDENCE \<notin> req_fields r then Inl ValueError
      else Inr r)"

record projection_policy =
  pp_id :: ident
  pp_version :: ident
  allowed_fields :: "evidence_field set"
  authorized_evidence_ids :: "ident set"

record observation_projection =
  pj_observation_id :: ident
  pj_completeness :: evidence_completeness
  pj_reason_code :: ident
  delivered :: "evidence_field set"
  denied :: "evidence_field set"
  unavailable :: "evidence_field set"
  pj_values :: "evidence_field \<Rightarrow> evidence_value option"
  denied_evidence_ids :: "ident set"
  missing_evidence_ids :: "ident set"

definition projection_get :: "observation_projection \<Rightarrow> evidence_field \<Rightarrow> evidence_value option" where
  "projection_get p f = pj_values p f"

fun field_value :: "eval_observation \<Rightarrow> evidence_field \<Rightarrow> evidence_value option" where
  "field_value x F_RUN_STATUS = map_option V_Status (obs_run_status x)"
| "field_value x F_RUN_ERROR_CODE = map_option V_Code (obs_error_code x)"
| "field_value x F_RUN_INPUT = map_option V_Text (obs_run_input x)"
| "field_value x F_RUN_OUTPUT = map_option V_Text (obs_run_output x)"
| "field_value x F_CONVERSATION_HISTORY = map_option V_History (conversation_history x)"
| "field_value x F_STEP_TYPES = map_option V_Steps (obs_step_types x)"
| "field_value x F_MODEL_USAGE = map_option V_Usage (obs_usage x)"
| "field_value x F_EXTERNAL_EVIDENCE = (if external_evidence x = [] then None else Some (V_External (external_evidence x)))"

definition artifact_ids :: "eval_observation \<Rightarrow> ident set" where
  "artifact_ids x = set (List.map_filter (\<lambda>i. case i of Ext_Artifact a \<Rightarrow> Some (artifact_id a) | _ \<Rightarrow> None) (external_evidence x))"

definition project_observation ::
  "eval_observation \<Rightarrow> evidence_requirements \<Rightarrow> projection_policy \<Rightarrow> observation_projection" where
  "project_observation x r pol =
     (let denied0 = {f \<in> req_fields r. f \<notin> allowed_fields pol};
          unavailable0 = {f \<in> req_fields r. f \<in> allowed_fields pol \<and> field_value x f = None};
          delivered0 = {f \<in> req_fields r. f \<in> allowed_fields pol \<and> field_value x f \<noteq> None};
          ids = (if F_EXTERNAL_EVIDENCE \<in> req_fields r then external_evidence_ids r else {});
          denied_ids = {i \<in> ids. i \<notin> authorized_evidence_ids pol};
          missing_ids = {i \<in> ids. i \<in> authorized_evidence_ids pol \<and> i \<notin> artifact_ids x};
          withdrawn = (F_EXTERNAL_EVIDENCE \<in> delivered0 \<and> (denied_ids \<noteq> {} \<or> missing_ids \<noteq> {}));
          delivered1 = (if withdrawn then delivered0 - {F_EXTERNAL_EVIDENCE} else delivered0)
      in \<lparr>pj_observation_id = observation_id x, pj_completeness = completeness x, pj_reason_code = obs_reason_code x,
          delivered = delivered1, denied = denied0,
          unavailable = (if withdrawn then insert F_EXTERNAL_EVIDENCE unavailable0 else unavailable0),
          pj_values = (\<lambda>f. if f \<in> delivered1 then field_value x f else None),
          denied_evidence_ids = denied_ids, missing_evidence_ids = missing_ids\<rparr>)"

section \<open>Evaluators\<close>

datatype evaluator_outcome = O_PASS | O_FAIL | O_UNSUPPORTED | O_INCONCLUSIVE | O_ERROR
datatype eval_failure_kind = K_NONE | K_SUBJECT | K_EVALUATOR | K_EVIDENCE

definition REASON_EVIDENCE_MISSING :: ident where "REASON_EVIDENCE_MISSING = ''EVIDENCE_MISSING''"
definition REASON_EVIDENCE_UNAUTHORIZED :: ident where "REASON_EVIDENCE_UNAUTHORIZED = ''EVIDENCE_UNAUTHORIZED''"
definition REASON_EVALUATOR_RAISED :: ident where "REASON_EVALUATOR_RAISED = ''EVALUATOR_RAISED''"
definition REASON_SUBJECT_EVIDENCE_UNAVAILABLE :: ident where "REASON_SUBJECT_EVIDENCE_UNAVAILABLE = ''SUBJECT_EVIDENCE_UNAVAILABLE''"
definition REASON_SUBJECT_EVIDENCE_INCONCLUSIVE :: ident where "REASON_SUBJECT_EVIDENCE_INCONCLUSIVE = ''SUBJECT_EVIDENCE_INCONCLUSIVE''"
definition REASON_SUBJECT_OUTPUT_MATCHED :: ident where "REASON_SUBJECT_OUTPUT_MATCHED = ''SUBJECT_OUTPUT_MATCHED''"
definition REASON_SUBJECT_OUTPUT_MISMATCH :: ident where "REASON_SUBJECT_OUTPUT_MISMATCH = ''SUBJECT_OUTPUT_MISMATCH''"
definition REASON_SUBJECT_STATUS_MISMATCH :: ident where "REASON_SUBJECT_STATUS_MISMATCH = ''SUBJECT_STATUS_MISMATCH''"

text \<open>The diagnostic text \<open>detail\<close> of a result is kept; where it prints an exception it is a parameter.\<close>

record evaluator_result =
  er_evaluator :: evaluator_ref
  er_outcome :: evaluator_outcome
  er_failure_kind :: eval_failure_kind
  er_reason_code :: ident
  er_detail :: pystr
  er_score :: "rat option"
  er_hard :: bool
  er_evidence_refs :: "ident list"

record deterministic_evaluator =
  de_identity :: evaluator_ref
  de_hard :: bool
  de_requirements :: evidence_requirements
  de_evaluate :: "observation_projection \<Rightarrow> fault + evaluator_result"

definition verdict :: "evaluator_ref \<Rightarrow> evaluator_outcome \<Rightarrow> eval_failure_kind \<Rightarrow> ident \<Rightarrow> pystr \<Rightarrow> bool \<Rightarrow> evaluator_result" where
  "verdict e out k reason detail hard =
     \<lparr>er_evaluator = e, er_outcome = out, er_failure_kind = k, er_reason_code = reason, er_detail = detail,
      er_score = None, er_hard = hard, er_evidence_refs = []\<rparr>"

definition run_evaluator ::
  "(fault \<Rightarrow> pystr) \<Rightarrow> deterministic_evaluator \<Rightarrow> observation_projection \<Rightarrow> evaluator_result" where
  "run_evaluator show_exc ev p =
     (if pj_completeness p = EC_UNSUPPORTED then
        verdict (de_identity ev) O_UNSUPPORTED K_NONE (pj_reason_code p) [] (de_hard ev)
      else if pj_completeness p = EC_UNAVAILABLE then
        verdict (de_identity ev) O_INCONCLUSIVE K_EVIDENCE REASON_SUBJECT_EVIDENCE_UNAVAILABLE [] (de_hard ev)
      else if pj_completeness p = EC_INCONCLUSIVE then
        verdict (de_identity ev) O_INCONCLUSIVE K_EVIDENCE REASON_SUBJECT_EVIDENCE_INCONCLUSIVE [] (de_hard ev)
      else if denied p \<noteq> {} \<or> denied_evidence_ids p \<noteq> {} then
        verdict (de_identity ev) O_INCONCLUSIVE K_EVIDENCE REASON_EVIDENCE_UNAUTHORIZED
          (ustr ''required evidence is not authorized by the projection policy; evaluation is not a data-access bypass'') (de_hard ev)
      else if unavailable p \<noteq> {} \<or> missing_evidence_ids p \<noteq> {} then
        verdict (de_identity ev) O_INCONCLUSIVE K_EVIDENCE REASON_EVIDENCE_MISSING
          (ustr ''required evidence is unavailable; missing data is not proof that no problem exists'') (de_hard ev)
      else case de_evaluate ev p of
        Inl e \<Rightarrow> verdict (de_identity ev) O_ERROR K_EVALUATOR REASON_EVALUATOR_RAISED (show_exc e) (de_hard ev)
      | Inr r \<Rightarrow> r\<lparr>er_hard := er_hard r \<or> de_hard ev\<rparr>)"

record evaluator_aggregate =
  agg_outcome :: evaluator_outcome
  agg_hard_outcome :: evaluator_outcome
  agg_scores :: "rat list"
  agg_results :: "evaluator_result list"

text \<open>\<open>worst\<close>, the same five branches in \<open>_evaluator.py\<close> and \<open>_report.py\<close>.\<close>

definition worst :: "evaluator_outcome list \<Rightarrow> evaluator_outcome" where
  "worst xs =
     (if O_FAIL \<in> set xs then O_FAIL else if O_ERROR \<in> set xs then O_ERROR
      else if O_INCONCLUSIVE \<in> set xs then O_INCONCLUSIVE else if O_UNSUPPORTED \<in> set xs then O_UNSUPPORTED
      else O_PASS)"

definition aggregate_evaluator_results :: "evaluator_result list \<Rightarrow> evaluator_aggregate" where
  "aggregate_evaluator_results rs =
     \<lparr>agg_outcome = worst (map er_outcome rs), agg_hard_outcome = worst (map er_outcome (filter er_hard rs)),
      agg_scores = List.map_filter er_score rs, agg_results = rs\<rparr>"

section \<open>The two reference evaluators\<close>

text \<open>\<open>repr\<close> of a string, for the detail text, is a parameter.\<close>

definition requires_field :: "evaluator_ref \<Rightarrow> evidence_field \<Rightarrow> evidence_requirements" where
  "requires_field e f = \<lparr>req_evaluator = e, req_fields = {f}, external_evidence_ids = {}\<rparr>"

definition output_matches_evaluator :: "(pystr \<Rightarrow> pystr) \<Rightarrow> evaluator_ref \<Rightarrow> pystr \<Rightarrow> bool \<Rightarrow> deterministic_evaluator" where
  "output_matches_evaluator repr e expected hard =
     \<lparr>de_identity = e, de_hard = hard, de_requirements = requires_field e F_RUN_OUTPUT,
      de_evaluate = (\<lambda>p. let matched = (projection_get p F_RUN_OUTPUT = Some (V_Text expected)) in
        Inr ((verdict e (if matched then O_PASS else O_FAIL) (if matched then K_NONE else K_SUBJECT)
           (if matched then REASON_SUBJECT_OUTPUT_MATCHED else REASON_SUBJECT_OUTPUT_MISMATCH)
           (if matched then [] else ustr ''expected '' @ repr expected) hard)\<lparr>er_evidence_refs := [pj_observation_id p]\<rparr>))\<rparr>"

fun status_value :: "run_status \<Rightarrow> ident" where
  "status_value CREATED = ''CREATED''"
| "status_value RUNNING = ''RUNNING''"
| "status_value WAITING = ''WAITING''"
| "status_value SUCCEEDED = ''SUCCEEDED''"
| "status_value REJECTED = ''REJECTED''"
| "status_value FAILED = ''FAILED''"
| "status_value CANCELLED = ''CANCELLED''"

definition run_status_evaluator :: "(pystr \<Rightarrow> pystr) \<Rightarrow> evaluator_ref \<Rightarrow> ident \<Rightarrow> deterministic_evaluator" where
  "run_status_evaluator repr e expected =
     \<lparr>de_identity = e, de_hard = True, de_requirements = requires_field e F_RUN_STATUS,
      de_evaluate = (\<lambda>p.
        let matched = (case projection_get p F_RUN_STATUS of Some (V_Status st) \<Rightarrow> status_value st = expected | _ \<Rightarrow> False) in
        Inr ((verdict e (if matched then O_PASS else O_FAIL) (if matched then K_NONE else K_SUBJECT)
           (if matched then ''SUBJECT_STATUS_MATCHED'' else REASON_SUBJECT_STATUS_MISMATCH)
           (ustr ''expected '' @ repr (ustr expected)) True)\<lparr>er_evidence_refs := [pj_observation_id p]\<rparr>))\<rparr>"

section \<open>Laws\<close>

text \<open>The severity order behind \<open>worst\<close>: aggregation is the maximum, so it is associative and monotone.\<close>

fun severity :: "evaluator_outcome \<Rightarrow> nat" where
  "severity O_PASS = 0"
| "severity O_UNSUPPORTED = 1"
| "severity O_INCONCLUSIVE = 2"
| "severity O_ERROR = 3"
| "severity O_FAIL = 4"

lemma severity_inj [simp]: "severity a = severity b \<longleftrightarrow> a = b"
  by (cases a; cases b) simp_all

lemma severity_le_worst: "x \<in> set xs \<Longrightarrow> severity x \<le> severity (worst xs)"
  by (cases x rule: evaluator_outcome.exhaust) (simp_all add: worst_def)

lemma worst_mem: "xs \<noteq> [] \<Longrightarrow> worst xs \<in> set xs"
proof -
  assume "xs \<noteq> []"
  then obtain x where x: "x \<in> set xs" by (cases xs) auto
  from x show ?thesis by (cases x rule: evaluator_outcome.exhaust) (simp_all add: worst_def)
qed

lemma worst_severity: "severity (worst xs) = (if xs = [] then 0 else Max (severity ` set xs))"
proof (cases "xs = []")
  case False
  with worst_mem [OF False] severity_le_worst have "Max (severity ` set xs) = severity (worst xs)"
    by (intro Max_eqI) auto
  with False show ?thesis by simp
qed (simp add: worst_def)

lemma worst_append: "worst (xs @ ys) = worst [worst xs, worst ys]"
  by (simp add: worst_def)

lemma worst_concat: "worst (concat xss) = worst (map worst xss)"
proof (induction xss)
  case (Cons xs xss)
  have "worst (concat (xs # xss)) = worst [worst xs, worst (map worst xss)]"
    by (simp only: concat.simps worst_append Cons.IH)
  also have "\<dots> = worst [worst [worst xs], worst (map worst xss)]" by (simp add: worst_def)
  also have "\<dots> = worst ([worst xs] @ map worst xss)" by (simp only: worst_append)
  finally show ?case by simp
qed (simp add: worst_def)

lemma worst_PASS: "worst xs = O_PASS \<longleftrightarrow> (\<forall>x \<in> set xs. x = O_PASS)"
proof
  assume w: "worst xs = O_PASS"
  show "\<forall>x \<in> set xs. x = O_PASS"
  proof
    fix x assume "x \<in> set xs"
    with w show "x = O_PASS" using severity_le_worst [of x xs] by (cases x rule: evaluator_outcome.exhaust) auto
  qed
next
  assume "\<forall>x \<in> set xs. x = O_PASS"
  then show "worst xs = O_PASS" by (auto simp: worst_def)
qed

text \<open>Scores do not take part: a result with another score, reason or text gives the same verdicts.\<close>

lemma aggregate_ignores_scores:
  assumes "map er_outcome rs = map er_outcome rs'" and "map er_hard rs = map er_hard rs'"
  shows "agg_outcome (aggregate_evaluator_results rs) = agg_outcome (aggregate_evaluator_results rs')
     \<and> agg_hard_outcome (aggregate_evaluator_results rs) = agg_hard_outcome (aggregate_evaluator_results rs')"
proof -
  have "map er_outcome (filter er_hard rs) = map er_outcome (filter er_hard rs')"
    using assms
  proof (induction rs arbitrary: rs')
    case (Cons r rs)
    then show ?case by (cases rs') auto
  qed simp
  with assms(1) show ?thesis by (simp add: aggregate_evaluator_results_def)
qed

text \<open>
  The documented rule 4 speaks of hard results only; in the code a soft FAIL already fails the whole
  and a soft UNSUPPORTED makes it UNSUPPORTED.
\<close>

lemma soft_results_decide:
  assumes "r \<in> set rs" and "\<not> er_hard r" and "er_outcome r = O_FAIL"
  shows "agg_outcome (aggregate_evaluator_results rs) = O_FAIL"
  using assms by (force simp: aggregate_evaluator_results_def worst_def)

text \<open>
  The body of an evaluator runs only on complete or sampled evidence of which nothing required was denied
  or missing; otherwise the verdict is never PASS and never blames the subject.
\<close>

definition evidence_in_order :: "observation_projection \<Rightarrow> bool" where
  "evidence_in_order p \<longleftrightarrow> pj_completeness p \<in> {EC_COMPLETE, EC_SAMPLED} \<and> denied p = {} \<and> denied_evidence_ids p = {}
     \<and> unavailable p = {} \<and> missing_evidence_ids p = {}"

lemma run_evaluator_guarded:
  assumes "\<not> evidence_in_order p"
  shows "er_outcome (run_evaluator sh ev p) \<in> {O_UNSUPPORTED, O_INCONCLUSIVE}"
    and "er_failure_kind (run_evaluator sh ev p) \<in> {K_NONE, K_EVIDENCE}"
    and "run_evaluator sh (ev\<lparr>de_evaluate := f\<rparr>) p = run_evaluator sh ev p"
  using assms by (cases "pj_completeness p"; auto simp: run_evaluator_def evidence_in_order_def verdict_def)+

lemma run_evaluator_hard: "de_hard ev \<Longrightarrow> er_hard (run_evaluator sh ev p)"
  by (auto simp: run_evaluator_def verdict_def split: sum.splits)

text \<open>Least privilege: nothing is delivered that is not both required and allowed, and every required field is
  accounted for exactly once.\<close>

lemma projection_partition:
  "delivered (project_observation x r pol) \<union> denied (project_observation x r pol) \<union> unavailable (project_observation x r pol)
     = req_fields r"
  "delivered (project_observation x r pol) \<inter> denied (project_observation x r pol) = {}"
  "delivered (project_observation x r pol) \<inter> unavailable (project_observation x r pol) = {}"
  "denied (project_observation x r pol) \<inter> unavailable (project_observation x r pol) = {}"
  by (auto simp: project_observation_def Let_def)

lemma projection_minimal:
  "projection_get (project_observation x r pol) f \<noteq> None \<longleftrightarrow> f \<in> delivered (project_observation x r pol)"
  "f \<in> delivered (project_observation x r pol) \<Longrightarrow> f \<in> req_fields r \<and> f \<in> allowed_fields pol"
  "projection_get (project_observation x r pol) f = Some v \<Longrightarrow> field_value x f = Some v"
  by (auto simp: project_observation_def projection_get_def Let_def split: if_splits)

text \<open>A projection depends on the observation only through what it delivers and which fields and artifacts exist.\<close>

lemma projection_noninterference:
  assumes "observation_id x = observation_id y" and "completeness x = completeness y" and "obs_reason_code x = obs_reason_code y"
    and "artifact_ids x = artifact_ids y"
    and "\<And>f. f \<in> req_fields r \<Longrightarrow> f \<in> allowed_fields pol \<Longrightarrow> field_value x f = field_value y f"
  shows "project_observation x r pol = project_observation y r pol"
proof -
  have sets: "{f \<in> req_fields r. f \<in> allowed_fields pol \<and> field_value x f = None}
      = {f \<in> req_fields r. f \<in> allowed_fields pol \<and> field_value y f = None}"
    "{f \<in> req_fields r. f \<in> allowed_fields pol \<and> field_value x f \<noteq> None}
      = {f \<in> req_fields r. f \<in> allowed_fields pol \<and> field_value y f \<noteq> None}"
    using assms(5) by auto
  have same: "delivered (project_observation x r pol) = delivered (project_observation y r pol)"
    by (simp only: observation_projection.select_convs project_observation_def Let_def sets assms(4))
  have "pj_values (project_observation x r pol) f = pj_values (project_observation y r pol) f" for f
  proof -
    have "pj_values (project_observation z r pol) f = (if f \<in> delivered (project_observation z r pol) then field_value z f else None)" for z
      by (simp add: project_observation_def Let_def)
    then show ?thesis using same projection_minimal(2) assms(5) by metis
  qed
  then have vals: "pj_values (project_observation x r pol) = pj_values (project_observation y r pol)" by (rule ext)
  show ?thesis
    by (rule observation_projection.equality)
      (rule vals same | simp only: observation_projection.simps project_observation_def Let_def assms(1-4) sets)+
qed

text \<open>
  External evidence is all or nothing: when every artifact the evaluator asked for is authorised and there,
  it is handed every artifact of the observation, those neither required nor authorised included.
\<close>

lemma external_evidence_overshared:
  assumes "F_EXTERNAL_EVIDENCE \<in> req_fields r" and "F_EXTERNAL_EVIDENCE \<in> allowed_fields pol"
    and "external_evidence_ids r \<subseteq> authorized_evidence_ids pol \<inter> artifact_ids x" and "external_evidence x \<noteq> []"
  shows "projection_get (project_observation x r pol) F_EXTERNAL_EVIDENCE = Some (V_External (external_evidence x))"
  using assms by (auto simp: project_observation_def projection_get_def Let_def)

end
