(* ===== verification/Eval_Report.thy ===== *)
theory Eval_Report
  imports Eval_Projection
begin

text \<open>
  Results, reports, baselines and recommendations of the eval companion: the record of
  \<open>_evaluator.py\<close>, \<open>_report.py\<close>, \<open>_baseline.py\<close> and \<open>_recommendation.py\<close>. Scores are finite floats and
  stand for the rationals they denote; addition, division and \<open>sum\<close> on them are the operations of
  \<open>float_arith\<close>, whatever rounding they do. The text of a report that its digest covers is a parameter.
\<close>

section \<open>Results\<close>

record eval_result_record =
  evr_id :: ident
  evr_execution_id :: "ident option"
  evr_observation_id :: ident
  evr_item_id :: ident
  evr_case_id :: ident
  evr_variant_id :: ident
  evr_repetition_index :: nat
  evr_evaluator :: evaluator_ref
  evr_outcome :: evaluator_outcome
  evr_failure_kind :: eval_failure_kind
  evr_reason_code :: ident
  evr_detail :: pystr
  evr_score :: "rat option"
  evr_hard :: bool
  evr_evidence_refs :: "ident list"
  evr_judge_run_id :: "ident option"
  evr_created_at :: timestamp

section \<open>Reports\<close>

record float_arith =
  fl_add :: "rat \<Rightarrow> rat \<Rightarrow> rat"
  fl_div :: "rat \<Rightarrow> rat \<Rightarrow> rat"
  fl_sum :: "rat list \<Rightarrow> rat"

record repetition_outcome =
  rep_index :: nat
  rep_outcome :: evaluator_outcome
  rep_hard_outcome :: "evaluator_outcome option"
  rep_quality_outcome :: "evaluator_outcome option"
  rep_score :: "rat option"

record numeric_summary =
  sample_count :: nat
  sum_minimum :: "rat option"
  sum_maximum :: "rat option"
  sum_median :: "rat option"
  sum_p95 :: "rat option"
  p95_justified :: bool

record case_variant_report =
  cvr_case_id :: ident
  cvr_variant_id :: ident
  cvr_repetitions :: "repetition_outcome list"
  cvr_hard_outcome :: evaluator_outcome
  cvr_quality_outcome :: evaluator_outcome
  cvr_overall_outcome :: evaluator_outcome
  pass_at_k :: bool
  cvr_scores :: "rat list"
  score_summary :: "numeric_summary option"

record report_revision =
  report_id :: ident
  revision :: int
  rpt_execution_id :: "ident option"
  rpt_suite_id :: ident
  rpt_suite_version :: ident
  rpt_suite_digest :: ident
  case_results :: "case_variant_report list"
  rpt_hard_outcome :: evaluator_outcome
  rpt_quality_outcome :: evaluator_outcome
  rpt_overall_outcome :: evaluator_outcome
  rpt_created_at :: timestamp
  content_digest :: ident

record report_env =
  rp_digests :: eval_digests
  rp_floats :: float_arith
  rp_dump :: "report_revision \<Rightarrow> pystr"

definition DEFAULT_MIN_SAMPLES_FOR_PERCENTILE :: int where
  "DEFAULT_MIN_SAMPLES_FOR_PERCENTILE = 20"

definition empty_summary :: numeric_summary where
  "empty_summary = \<lparr>sample_count = 0, sum_minimum = None, sum_maximum = None, sum_median = None, sum_p95 = None,
     p95_justified = False\<rparr>"

text \<open>
  The double nearest to 0.95 times a sample count is the double nearest to the exact product, so that
  \<open>math.ceil(0.95 * count)\<close> is the ceiling of the exact product.
\<close>

definition percentile_rank :: "nat \<Rightarrow> nat" where
  "percentile_rank n = (19 * n + 19) div 20"

definition summarize_samples :: "float_arith \<Rightarrow> int \<Rightarrow> rat list \<Rightarrow> numeric_summary" where
  "summarize_samples fl min_samples samples =
     (if samples = [] then empty_summary
      else let ordered = sort samples; n = length ordered; justified = (min_samples \<le> int n) in
        \<lparr>sample_count = n, sum_minimum = Some (ordered ! 0), sum_maximum = Some (ordered ! (n - 1)),
         sum_median = Some (if n mod 2 = 1 then ordered ! (n div 2)
           else fl_div fl (fl_add fl (ordered ! (n div 2 - 1)) (ordered ! (n div 2))) 2),
         sum_p95 = (if justified then Some (ordered ! (percentile_rank n - 1)) else None),
         p95_justified = justified\<rparr>)"

definition repetition_outcome_of :: "float_arith \<Rightarrow> eval_result_record list \<Rightarrow> nat \<Rightarrow> repetition_outcome" where
  "repetition_outcome_of fl rs i =
     (if rs = [] then \<lparr>rep_index = i, rep_outcome = O_INCONCLUSIVE, rep_hard_outcome = Some O_INCONCLUSIVE,
        rep_quality_outcome = Some O_INCONCLUSIVE, rep_score = None\<rparr>
      else let scores = List.map_filter evr_score rs in
        \<lparr>rep_index = i, rep_outcome = worst (map evr_outcome rs),
         rep_hard_outcome = Some (worst (map evr_outcome (filter evr_hard rs))),
         rep_quality_outcome = Some (worst (map evr_outcome (filter (\<lambda>r. \<not> evr_hard r) rs))),
         rep_score = (if scores = [] then None else Some (fl_div fl (fl_sum fl scores) (of_nat (length scores))))\<rparr>)"

text \<open>\<open>grouped.get(key, {}).get(index, ())\<close>: the results of one repetition in the order given.\<close>

definition results_of :: "eval_result_record list \<Rightarrow> ident \<times> ident \<Rightarrow> nat \<Rightarrow> eval_result_record list" where
  "results_of rs k i = filter (\<lambda>r. (evr_case_id r, evr_variant_id r) = k \<and> evr_repetition_index r = i) rs"

definition case_report ::
  "float_arith \<Rightarrow> int \<Rightarrow> eval_result_record list \<Rightarrow> ident \<times> ident \<Rightarrow> nat \<Rightarrow> case_variant_report" where
  "case_report fl min_samples rs k reps =
     (let ordered = map (\<lambda>i. repetition_outcome_of fl (results_of rs k i) i) [0..<reps];
          samples = List.map_filter rep_score ordered
      in \<lparr>cvr_case_id = fst k, cvr_variant_id = snd k, cvr_repetitions = ordered,
          cvr_hard_outcome = worst (List.map_filter rep_hard_outcome ordered),
          cvr_quality_outcome = worst (List.map_filter rep_quality_outcome ordered),
          cvr_overall_outcome = worst (map rep_outcome ordered),
          pass_at_k = (ordered \<noteq> [] \<and> list_all (\<lambda>x. rep_outcome x = O_PASS) ordered),
          cvr_scores = samples, score_summary = Some (summarize_samples fl min_samples samples)\<rparr>)"

definition build_revision :: "report_env \<Rightarrow> report_revision \<Rightarrow> report_revision" where
  "build_revision env r = r\<lparr>content_digest := sha256_hex (rp_digests env) (rp_dump env r)\<rparr>"

definition item_key :: "eval_suite_item \<Rightarrow> ident \<times> ident" where
  "item_key i = (item_case_id i, evv_id (item_variant i))"

definition build_report_revision ::
  "report_env \<Rightarrow> ident \<Rightarrow> int \<Rightarrow> ident option \<Rightarrow> eval_suite \<Rightarrow> eval_result_record list \<Rightarrow> int \<Rightarrow> timestamp
     \<Rightarrow> exn + report_revision" where
  "build_report_revision env rid rv eid s rs min_samples now =
     bindE (expand (rp_digests env) s) (\<lambda>items.
     bindE (mapE (\<lambda>i. bindE (case_by_id s (item_case_id i)) (\<lambda>c.
              Inr (case_report (rp_floats env) min_samples rs (item_key i) (case_repetitions c))))
            (dedup_by item_key [] items)) (\<lambda>reports.
     let sorted_reports = sort_key (\<lambda>r. (cvr_case_id r, cvr_variant_id r)) reports in
       if rid = [] \<or> rv < 1 then Inl ValueError
       else Inr (build_revision env
         \<lparr>report_id = rid, revision = rv, rpt_execution_id = eid, rpt_suite_id = suite_id s,
          rpt_suite_version = suite_version s, rpt_suite_digest = suite_content_digest (rp_digests env) s,
          case_results = sorted_reports,
          rpt_hard_outcome = worst (map cvr_hard_outcome sorted_reports),
          rpt_quality_outcome = worst (map cvr_quality_outcome sorted_reports),
          rpt_overall_outcome = worst (map cvr_overall_outcome sorted_reports),
          rpt_created_at = now, content_digest = []\<rparr>)))"

section \<open>Baselines and recommendations\<close>

record comparison_policy =
  cp_policy_id :: ident
  cp_policy_version :: ident
  quality_regression :: bool
  pass_at_k_regression :: bool

record eval_baseline =
  baseline_id :: ident
  bl_report_id :: ident
  bl_report_revision :: int
  bl_suite_id :: ident
  bl_suite_version :: ident
  comparison_policy_of :: comparison_policy
  bl_created_at :: timestamp

datatype comparison_verdict = CV_UNCHANGED | CV_CHANGED | CV_NEW | CV_MISSING | CV_INCONCLUSIVE | CV_REGRESSION
datatype comparison_overall = CO_COMPARABLE | CO_INCONCLUSIVE | CO_REGRESSION

record case_comparison =
  cc_case_id :: ident
  cc_variant_id :: ident
  cc_verdict :: comparison_verdict
  cc_baseline_overall :: "evaluator_outcome option"
  cc_current_overall :: "evaluator_outcome option"
  cc_detail :: string

record baseline_comparison =
  bc_baseline_id :: ident
  bc_baseline_report_id :: ident
  bc_baseline_revision :: int
  bc_current_report_id :: ident
  bc_current_revision :: int
  bc_overall :: comparison_overall
  case_comparisons :: "case_comparison list"
  bc_detail :: string

definition NON_COMPARABLE :: "evaluator_outcome list" where
  "NON_COMPARABLE = [O_INCONCLUSIVE, O_ERROR, O_UNSUPPORTED]"

fun comma_separated :: "string list \<Rightarrow> string" where
  "comma_separated [] = []"
| "comma_separated [x] = x"
| "comma_separated (x # y # ys) = x @ '', '' @ comma_separated (y # ys)"

definition regressions ::
  "comparison_policy \<Rightarrow> case_variant_report \<Rightarrow> case_variant_report \<Rightarrow> string list" where
  "regressions pol b c =
     map fst (filter snd
       [(''hard gate'', cvr_hard_outcome b = O_PASS \<and> cvr_hard_outcome c = O_FAIL),
        (''quality gate'', quality_regression pol \<and> cvr_quality_outcome b = O_PASS \<and> cvr_quality_outcome c = O_FAIL),
        (''pass^k'', pass_at_k_regression pol \<and> pass_at_k b \<and> \<not> pass_at_k c)])"

definition classify_case ::
  "comparison_policy \<Rightarrow> case_variant_report \<Rightarrow> case_variant_report \<Rightarrow> comparison_verdict \<times> string" where
  "classify_case pol b c =
     (if regressions pol b c \<noteq> [] then (CV_REGRESSION, ''regression: '' @ comma_separated (regressions pol b c))
      else if cvr_hard_outcome b = cvr_hard_outcome c \<and> cvr_quality_outcome b = cvr_quality_outcome c
           \<and> cvr_overall_outcome b = cvr_overall_outcome c \<and> pass_at_k b = pass_at_k c then (CV_UNCHANGED, [])
      else (CV_CHANGED, ''outcome changed without regression''))"

definition compare_case ::
  "comparison_policy \<Rightarrow> ident \<times> ident \<Rightarrow> case_variant_report option \<Rightarrow> case_variant_report option \<Rightarrow> case_comparison" where
  "compare_case pol k b c =
     \<lparr>cc_case_id = fst k, cc_variant_id = snd k,
      cc_verdict = (case (b, c) of
          (None, _) \<Rightarrow> CV_NEW
        | (Some _, None) \<Rightarrow> CV_MISSING
        | (Some x, Some y) \<Rightarrow>
            if cvr_overall_outcome x \<in> set NON_COMPARABLE \<or> cvr_overall_outcome y \<in> set NON_COMPARABLE then CV_INCONCLUSIVE
            else fst (classify_case pol x y)),
      cc_baseline_overall = map_option cvr_overall_outcome b, cc_current_overall = map_option cvr_overall_outcome c,
      cc_detail = (case (b, c) of
          (None, _) \<Rightarrow> ''case variant absent from the baseline report''
        | (Some _, None) \<Rightarrow> ''case variant absent from the current report''
        | (Some x, Some y) \<Rightarrow>
            if cvr_overall_outcome x \<in> set NON_COMPARABLE \<or> cvr_overall_outcome y \<in> set NON_COMPARABLE
            then ''insufficient evidence on at least one side; missing data is not proof of no regression''
            else snd (classify_case pol x y))\<rparr>"

text \<open>A dict built from the cases of a report: of two cases with one key the later counts.\<close>

definition cases_by_key :: "case_variant_report list \<Rightarrow> ident \<times> ident \<Rightarrow> case_variant_report option" where
  "cases_by_key cs = map_of (rev (map (\<lambda>c. ((cvr_case_id c, cvr_variant_id c), c)) cs))"

definition compared_keys :: "case_variant_report list \<Rightarrow> case_variant_report list \<Rightarrow> (ident \<times> ident) list" where
  "compared_keys bs cs = sort (remdups (map (\<lambda>c. (cvr_case_id c, cvr_variant_id c)) (bs @ cs)))"

definition overall_of :: "comparison_verdict list \<Rightarrow> comparison_overall" where
  "overall_of vs = (if CV_REGRESSION \<in> set vs then CO_REGRESSION
     else if CV_INCONCLUSIVE \<in> set vs then CO_INCONCLUSIVE else CO_COMPARABLE)"

definition compare_report_revisions ::
  "report_revision \<Rightarrow> eval_baseline \<Rightarrow> report_revision \<Rightarrow> exn + baseline_comparison" where
  "compare_report_revisions current baseline breport =
     (let result = (\<lambda>overall cs detail.
            \<lparr>bc_baseline_id = baseline_id baseline, bc_baseline_report_id = bl_report_id baseline,
             bc_baseline_revision = bl_report_revision baseline, bc_current_report_id = report_id current,
             bc_current_revision = revision current, bc_overall = overall, case_comparisons = cs, bc_detail = detail\<rparr>)
      in if report_id breport \<noteq> bl_report_id baseline \<or> revision breport \<noteq> bl_report_revision baseline then Inl ValueError
      else if rpt_suite_id current \<noteq> rpt_suite_id breport then
        Inr (result CO_INCONCLUSIVE [] ''suite ids differ; reports are only comparable within the same suite'')
      else
        let bs = cases_by_key (case_results breport); cs = cases_by_key (case_results current);
            comparisons = map (\<lambda>k. compare_case (comparison_policy_of baseline) k (bs k) (cs k))
              (compared_keys (case_results breport) (case_results current))
        in Inr (result (overall_of (map cc_verdict comparisons)) comparisons []))"

record recommendation_target =
  tgt_kind :: ident
  tgt_id :: ident
  tgt_version :: ident

record model_recommendation =
  recommendation_id :: ident
  mr_version :: ident
  mr_report_id :: ident
  mr_report_revision :: int
  mr_baseline_id :: "ident option"
  mr_target :: recommendation_target
  mr_hard_gate :: evaluator_outcome
  mr_quality_gate :: evaluator_outcome
  mr_overall_outcome :: evaluator_outcome
  mr_confidence :: rat
  mr_evidence_digest :: ident
  mr_created_at :: timestamp
  mr_valid_until :: "timestamp option"

definition validate_recommendation :: "model_recommendation \<Rightarrow> exn + model_recommendation" where
  "validate_recommendation r =
     (if recommendation_id r = [] \<or> mr_version r = [] \<or> mr_report_id r = [] \<or> mr_report_revision r < 1
         \<or> mr_confidence r < 0 \<or> 1 < mr_confidence r \<or> mr_evidence_digest r = []
         \<or> tgt_kind (mr_target r) = [] \<or> tgt_id (mr_target r) = [] \<or> tgt_version (mr_target r) = []
      then Inl ValueError else Inr r)"

section \<open>Statistics\<close>

lemma percentile_rank_bounds:
  assumes "0 < n"
  shows "0 < percentile_rank n" and "percentile_rank n \<le> n" and "19 * n \<le> 20 * percentile_rank n"
  using assms by (simp_all add: percentile_rank_def)

text \<open>Nearest rank: at least 95 percent of the samples are at most the reported value, which is one of them.\<close>

lemma sorted_nth_count:
  assumes "sorted xs" and "k < length xs"
  shows "Suc k \<le> length (filter (\<lambda>x. x \<le> xs ! k) xs)"
proof -
  have "filter (\<lambda>x. x \<le> xs ! k) (take (Suc k) xs) = take (Suc k) xs"
    using assms by (auto simp: filter_id_conv in_set_conv_nth less_Suc_eq_le intro!: sorted_nth_mono)
  then have "Suc k = length (filter (\<lambda>x. x \<le> xs ! k) (take (Suc k) xs))" using assms(2) by simp
  also have "\<dots> \<le> length (filter (\<lambda>x. x \<le> xs ! k) (take (Suc k) xs @ drop (Suc k) xs))"
    unfolding filter_append length_append by (rule le_add1)
  finally show ?thesis by simp
qed

lemma p95_nearest_rank:
  assumes "sum_p95 (summarize_samples fl m xs) = Some p"
  shows "p \<in> set xs" and "19 * length xs \<le> 20 * length (filter (\<lambda>x. x \<le> p) xs)" and "m \<le> int (length xs)"
proof -
  have ne: "xs \<noteq> []" and m: "m \<le> int (length xs)" and p: "p = sort xs ! (percentile_rank (length xs) - 1)"
    using assms by (auto simp: summarize_samples_def empty_summary_def Let_def split: if_splits)
  have n: "0 < length xs" using ne by simp
  note r = percentile_rank_bounds [OF n]
  then have k: "percentile_rank (length xs) - 1 < length (sort xs)" by simp
  then show "p \<in> set xs" using nth_mem [OF k] p by simp
  have "percentile_rank (length xs) \<le> length (filter (\<lambda>x. x \<le> p) (sort xs))"
    using sorted_nth_count [OF sorted_sort k] r(1) p by simp
  also have "length (filter (\<lambda>x. x \<le> p) (sort xs)) = length (filter (\<lambda>x. x \<le> p) xs)"
    by (metis filter_sort length_sort)
  finally show "19 * length xs \<le> 20 * length (filter (\<lambda>x. x \<le> p) xs)" using r(3) by simp
  show "m \<le> int (length xs)" by (rule m)
qed

section \<open>What a report says\<close>

lemma worst_FAIL: "worst xs = O_FAIL \<longleftrightarrow> O_FAIL \<in> set xs"
  by (simp add: worst_def)

lemma map_filter_Some: "(\<And>x. x \<in> set xs \<Longrightarrow> f x = Some (g x)) \<Longrightarrow> List.map_filter f xs = map g xs"
  by (induction xs) (auto simp: List.map_filter_def)

lemma repetition_overall:
  "rep_outcome (repetition_outcome_of fl rs i) = O_PASS \<longleftrightarrow> rs \<noteq> [] \<and> (\<forall>r \<in> set rs. evr_outcome r = O_PASS)"
  "rep_outcome (repetition_outcome_of fl rs i) = O_FAIL \<longleftrightarrow> (\<exists>r \<in> set rs. evr_outcome r = O_FAIL)"
  "rep_hard_outcome (repetition_outcome_of fl rs i) = Some O_FAIL \<longleftrightarrow> (\<exists>r \<in> set rs. evr_hard r \<and> evr_outcome r = O_FAIL)"
  "\<exists>h. rep_hard_outcome (repetition_outcome_of fl rs i) = Some h"
  by (auto simp: repetition_outcome_of_def Let_def worst_PASS worst_FAIL image_iff eq_commute [of O_FAIL])

lemma case_report_overall:
  "cvr_overall_outcome (case_report fl m rs k n) = O_PASS \<longleftrightarrow>
     (\<forall>i < n. results_of rs k i \<noteq> [] \<and> (\<forall>r \<in> set (results_of rs k i). evr_outcome r = O_PASS))"
  by (auto simp: case_report_def Let_def worst_PASS repetition_overall)

lemma case_report_fail:
  "cvr_overall_outcome (case_report fl m rs k n) = O_FAIL \<longleftrightarrow> (\<exists>i < n. \<exists>r \<in> set (results_of rs k i). evr_outcome r = O_FAIL)"
  by (auto simp: case_report_def Let_def worst_FAIL repetition_overall image_iff eq_commute [of O_FAIL])

lemma case_report_hard:
  "cvr_hard_outcome (case_report fl m rs k n) = O_FAIL \<longleftrightarrow>
     (\<exists>i < n. \<exists>r \<in> set (results_of rs k i). evr_hard r \<and> evr_outcome r = O_FAIL)"
proof -
  let ?o = "\<lambda>i. repetition_outcome_of fl (results_of rs k i) i"
  have "List.map_filter rep_hard_outcome (map ?o [0..<n]) = map (\<lambda>x. the (rep_hard_outcome x)) (map ?o [0..<n])"
    using repetition_overall(4) by (intro map_filter_Some) fastforce
  then have "cvr_hard_outcome (case_report fl m rs k n) = O_FAIL \<longleftrightarrow> (\<exists>i < n. the (rep_hard_outcome (?o i)) = O_FAIL)"
    by (auto simp: case_report_def Let_def worst_FAIL image_iff eq_commute [of O_FAIL])
  also have "\<dots> \<longleftrightarrow> (\<exists>i < n. rep_hard_outcome (?o i) = Some O_FAIL)"
    using repetition_overall(4) by (metis option.sel)
  finally show ?thesis by (simp only: repetition_overall)
qed

lemma case_report_pass_at_k: "pass_at_k (case_report fl m rs k n) \<longleftrightarrow> 0 < n \<and> cvr_overall_outcome (case_report fl m rs k n) = O_PASS"
  by (auto simp: case_report_def Let_def worst_PASS list_all_iff)

lemma mapE_set: "mapE f xs = Inr ys \<Longrightarrow> set ys = {y. \<exists>x \<in> set xs. f x = Inr y}"
  by (induction xs arbitrary: ys) (auto simp: bindE_eq_Inr)

lemma report_cases:
  assumes b: "build_report_revision env rid rv eid s rs m now = Inr rpt" and v: "validate_suite s = Inr s"
  shows "set (case_results rpt) = {case_report (rp_floats env) m rs (case_id c, evv_id v) (case_repetitions c) | c v.
     c \<in> set (suite_cases s) \<and> v \<in> set (suite_variants s) \<and> 0 < case_repetitions c}" (is "_ = ?R")
    and "rpt_overall_outcome rpt = worst (map cvr_overall_outcome (case_results rpt))"
    and "rpt_hard_outcome rpt = worst (map cvr_hard_outcome (case_results rpt))"
proof -
  let ?f = "\<lambda>i. bindE (case_by_id s (item_case_id i)) (\<lambda>c.
    Inr (case_report (rp_floats env) m rs (item_key i) (case_repetitions c)))"
  from b obtain items reports where e: "expand (rp_digests env) s = Inr items"
    and r: "mapE ?f (dedup_by item_key [] items) = Inr reports"
    and rpt: "case_results rpt = sort_key (\<lambda>r. (cvr_case_id r, cvr_variant_id r)) reports"
      "rpt_overall_outcome rpt = worst (map cvr_overall_outcome (case_results rpt))"
      "rpt_hard_outcome rpt = worst (map cvr_hard_outcome (case_results rpt))"
    by (auto simp: build_report_revision_def bindE_eq_Inr [of "expand _ _"] bindE_eq_Inr [of "mapE _ _"] Let_def build_revision_def
        split: if_splits)
  have dist: "distinct (map case_id (suite_cases s))" using v by (auto simp: validate_suite_def split: if_splits)
  have val: "?f (suite_item (rp_digests env) s c v i) =
      Inr (case_report (rp_floats env) m rs (case_id c, evv_id v) (case_repetitions c))"
    if "c \<in> set (suite_cases s)" for c v i
    using case_by_id_unique [OF dist that] by (simp add: suite_item_def item_key_def)
  have key: "?f x = ?f y" if "item_key x = item_key y" for x y using that by (simp add: item_key_def)
  have "set reports = {y. \<exists>x \<in> set items. ?f x = Inr y}"
  proof -
    have "\<exists>x' \<in> set (dedup_by item_key [] items). item_key x' = item_key x" if "x \<in> set items" for x
      using dedup_by_keys [of item_key "[]" items] that by (metis Diff_empty image_iff list.set(1))
    then have "(\<exists>x \<in> set (dedup_by item_key [] items). ?f x = Inr y) \<longleftrightarrow> (\<exists>x \<in> set items. ?f x = Inr y)" for y
      using dedup_by_subset [of item_key "[]" items] key by (metis subsetD)
    then show ?thesis by (simp add: mapE_set [OF r])
  qed
  also have "\<dots> = ?R"
  proof (intro set_eqI iffI)
    fix y assume "y \<in> {y. \<exists>x \<in> set items. ?f x = Inr y}"
    then obtain c v i where cv: "c \<in> set (suite_cases s)" "v \<in> set (suite_variants s)" "i < case_repetitions c"
      and "?f (suite_item (rp_digests env) s c v i) = Inr y" by (auto simp only: mem_Collect_eq Bex_def expand_mem [OF e])
    then have "y = case_report (rp_floats env) m rs (case_id c, evv_id v) (case_repetitions c)"
      using val [of c v i] by simp
    moreover have "0 < case_repetitions c" using cv(3) by (cases i) auto
    ultimately show "y \<in> ?R" using cv(1,2) by blast
  next
    fix y assume "y \<in> ?R"
    then obtain c v where cv: "c \<in> set (suite_cases s)" "v \<in> set (suite_variants s)" "0 < case_repetitions c"
      "y = case_report (rp_floats env) m rs (case_id c, evv_id v) (case_repetitions c)" by auto
    then have "suite_item (rp_digests env) s c v 0 \<in> set items" unfolding expand_mem [OF e] by blast
    with cv val [of c v 0] show "y \<in> {y. \<exists>x \<in> set items. ?f x = Inr y}" by blast
  qed
  finally show "set (case_results rpt) = ?R" by (simp add: rpt(1))
qed (use b in \<open>auto simp: build_report_revision_def bindE_eq_Inr [of "expand _ _"] bindE_eq_Inr [of "mapE _ _"] Let_def
    build_revision_def split: if_splits\<close>)

lemma report_outcomes:
  assumes "build_report_revision env rid rv eid s rs m now = Inr rpt" and "validate_suite s = Inr s"
  shows "rpt_overall_outcome rpt = O_PASS \<longleftrightarrow>
      (\<forall>c \<in> set (suite_cases s). \<forall>v \<in> set (suite_variants s). \<forall>i < case_repetitions c.
         results_of rs (case_id c, evv_id v) i \<noteq> []
         \<and> (\<forall>r \<in> set (results_of rs (case_id c, evv_id v) i). evr_outcome r = O_PASS))"
    and "rpt_hard_outcome rpt = O_FAIL \<longleftrightarrow>
      (\<exists>c \<in> set (suite_cases s). \<exists>v \<in> set (suite_variants s). \<exists>i < case_repetitions c.
         \<exists>r \<in> set (results_of rs (case_id c, evv_id v) i). evr_hard r \<and> evr_outcome r = O_FAIL)"
proof -
  let ?r = "\<lambda>c v. case_report (rp_floats env) m rs (case_id c, evv_id v) (case_repetitions c)"
  have all: "(\<forall>x \<in> set (case_results rpt). P x) \<longleftrightarrow>
      (\<forall>c \<in> set (suite_cases s). \<forall>v \<in> set (suite_variants s). 0 < case_repetitions c \<longrightarrow> P (?r c v))" for P
    unfolding report_cases(1) [OF assms] by blast
  have "rpt_overall_outcome rpt = O_PASS \<longleftrightarrow> (\<forall>x \<in> set (case_results rpt). cvr_overall_outcome x = O_PASS)"
    unfolding report_cases(2) [OF assms] worst_PASS by simp
  also have "\<dots> \<longleftrightarrow> (\<forall>c \<in> set (suite_cases s). \<forall>v \<in> set (suite_variants s). \<forall>i < case_repetitions c.
         results_of rs (case_id c, evv_id v) i \<noteq> []
         \<and> (\<forall>r \<in> set (results_of rs (case_id c, evv_id v) i). evr_outcome r = O_PASS))"
    unfolding all case_report_overall by (metis gr0I less_nat_zero_code)
  finally show "rpt_overall_outcome rpt = O_PASS \<longleftrightarrow>
      (\<forall>c \<in> set (suite_cases s). \<forall>v \<in> set (suite_variants s). \<forall>i < case_repetitions c.
         results_of rs (case_id c, evv_id v) i \<noteq> []
         \<and> (\<forall>r \<in> set (results_of rs (case_id c, evv_id v) i). evr_outcome r = O_PASS))" .
  have "rpt_hard_outcome rpt \<noteq> O_FAIL \<longleftrightarrow> (\<forall>x \<in> set (case_results rpt). cvr_hard_outcome x \<noteq> O_FAIL)"
    unfolding report_cases(3) [OF assms] worst_FAIL by force
  also have "\<dots> \<longleftrightarrow> (\<forall>c \<in> set (suite_cases s). \<forall>v \<in> set (suite_variants s). \<forall>i < case_repetitions c.
         \<forall>r \<in> set (results_of rs (case_id c, evv_id v) i). \<not> (evr_hard r \<and> evr_outcome r = O_FAIL))"
    unfolding all case_report_hard by (metis gr0I less_nat_zero_code)
  finally show "rpt_hard_outcome rpt = O_FAIL \<longleftrightarrow>
      (\<exists>c \<in> set (suite_cases s). \<exists>v \<in> set (suite_variants s). \<exists>i < case_repetitions c.
         \<exists>r \<in> set (results_of rs (case_id c, evv_id v) i). evr_hard r \<and> evr_outcome r = O_FAIL)" by blast
qed

section \<open>What a comparison says\<close>

definition comparable_case :: "case_variant_report \<Rightarrow> bool" where
  "comparable_case c \<longleftrightarrow> cvr_overall_outcome c \<notin> set NON_COMPARABLE"

lemma compared_keys_mem:
  "k \<in> set (compared_keys bs cs) \<longleftrightarrow> cases_by_key bs k \<noteq> None \<or> cases_by_key cs k \<noteq> None"
  by (auto simp: compared_keys_def cases_by_key_def map_of_eq_None_iff image_iff)

lemma classify_regression: "fst (classify_case pol b c) = CV_REGRESSION \<longleftrightarrow> regressions pol b c \<noteq> []"
  "fst (classify_case pol b c) \<noteq> CV_INCONCLUSIVE"
  by (simp_all add: classify_case_def)

lemma compare_case_verdict:
  "cc_verdict (compare_case pol k b c) = CV_REGRESSION \<longleftrightarrow>
     (\<exists>x y. b = Some x \<and> c = Some y \<and> comparable_case x \<and> comparable_case y \<and> regressions pol x y \<noteq> [])"
  "cc_verdict (compare_case pol k b c) = CV_INCONCLUSIVE \<longleftrightarrow>
     (\<exists>x y. b = Some x \<and> c = Some y \<and> \<not> (comparable_case x \<and> comparable_case y))"
  by (auto simp: compare_case_def comparable_case_def classify_regression split: option.splits)

lemma overall_of_cases:
  "overall_of vs = CO_REGRESSION \<longleftrightarrow> CV_REGRESSION \<in> set vs"
  "overall_of vs = CO_COMPARABLE \<longleftrightarrow> CV_REGRESSION \<notin> set vs \<and> CV_INCONCLUSIVE \<notin> set vs"
  by (simp_all add: overall_of_def)

lemma comparison_exact:
  assumes c: "compare_report_revisions current baseline breport = Inr cmp" and s: "rpt_suite_id current = rpt_suite_id breport"
  defines "b \<equiv> cases_by_key (case_results breport)" and "n \<equiv> cases_by_key (case_results current)"
  shows "bc_overall cmp = CO_REGRESSION \<longleftrightarrow>
      (\<exists>k x y. b k = Some x \<and> n k = Some y \<and> comparable_case x \<and> comparable_case y
        \<and> regressions (comparison_policy_of baseline) x y \<noteq> [])"
    and "bc_overall cmp = CO_COMPARABLE \<longleftrightarrow>
      (\<forall>k x y. b k = Some x \<longrightarrow> n k = Some y \<longrightarrow> comparable_case x \<and> comparable_case y
        \<and> regressions (comparison_policy_of baseline) x y = [])"
proof -
  let ?ks = "compared_keys (case_results breport) (case_results current)"
  let ?v = "\<lambda>k. cc_verdict (compare_case (comparison_policy_of baseline) k (b k) (n k))"
  have o: "bc_overall cmp = overall_of (map ?v ?ks)"
    using c s by (auto simp: compare_report_revisions_def Let_def b_def n_def comp_def split: if_splits)
  have mem: "k \<in> set ?ks \<longleftrightarrow> b k \<noteq> None \<or> n k \<noteq> None" for k by (simp add: compared_keys_mem b_def n_def)
  have reg: "CV_REGRESSION \<in> set (map ?v ?ks) \<longleftrightarrow>
      (\<exists>k x y. b k = Some x \<and> n k = Some y \<and> comparable_case x \<and> comparable_case y
        \<and> regressions (comparison_policy_of baseline) x y \<noteq> [])"
    unfolding set_map image_iff eq_commute [of CV_REGRESSION] compare_case_verdict Bex_def mem by blast
  have inc: "CV_INCONCLUSIVE \<in> set (map ?v ?ks) \<longleftrightarrow>
      (\<exists>k x y. b k = Some x \<and> n k = Some y \<and> \<not> (comparable_case x \<and> comparable_case y))"
    unfolding set_map image_iff eq_commute [of CV_INCONCLUSIVE] compare_case_verdict Bex_def mem by blast
  show "bc_overall cmp = CO_REGRESSION \<longleftrightarrow>
      (\<exists>k x y. b k = Some x \<and> n k = Some y \<and> comparable_case x \<and> comparable_case y
        \<and> regressions (comparison_policy_of baseline) x y \<noteq> [])"
    unfolding o overall_of_cases reg ..
  show "bc_overall cmp = CO_COMPARABLE \<longleftrightarrow>
      (\<forall>k x y. b k = Some x \<longrightarrow> n k = Some y \<longrightarrow> comparable_case x \<and> comparable_case y
        \<and> regressions (comparison_policy_of baseline) x y = [])"
    unfolding o overall_of_cases reg inc by blast
qed

end
