(* ===== verification/Eval_Store.thy ===== *)
theory Eval_Store
  imports Eval_Report
begin

text \<open>
  The store of eval facts in memory, \<open>src/src/m_agent/companion/eval/_store.py\<close>: six kinds of records that
  are written once. The locale \<open>fact_store\<close> is the contract of such a store; what every client may rely on
  is proved in it.
\<close>

section \<open>Records and views\<close>

record eval_execution =
  execution_id :: ident
  ex_suite_id :: ident
  ex_suite_version :: ident
  ex_suite_digest :: ident
  ex_mode :: ident
  ex_item_ids :: "ident list"
  ex_created_at :: timestamp

record eval_observation_view =
  ov_observation_id :: ident
  ov_mode :: ident
  ov_subject_run_id :: ident
  ov_definition_id :: ident
  ov_definition_version :: ident
  ov_variant_id :: "ident option"
  ov_completeness :: ident
  ov_reason_code :: ident
  ov_execution_id :: "ident option"
  ov_collected_at :: timestamp

record eval_execution_view =
  xv_execution :: eval_execution
  xv_observation_ids :: "ident list"

record eval_case_view =
  cv_case_id :: ident
  cv_variant_id :: ident
  cv_overall_outcome :: evaluator_outcome
  cv_pass_at_k :: bool
  cv_sample_count :: nat

record eval_report_view =
  rv_report_id :: ident
  rv_revision :: int
  rv_suite_id :: ident
  rv_suite_version :: ident
  rv_hard_outcome :: evaluator_outcome
  rv_quality_outcome :: evaluator_outcome
  rv_overall_outcome :: evaluator_outcome
  rv_cases :: "eval_case_view list"
  rv_created_at :: timestamp

definition observation_view_of :: "eval_observation \<Rightarrow> eval_observation_view" where
  "observation_view_of x =
     \<lparr>ov_observation_id = observation_id x, ov_mode = mode_value (obs_mode x), ov_subject_run_id = subject_run_id_of x,
      ov_definition_id = obs_definition_id x, ov_definition_version = obs_definition_version x,
      ov_variant_id = obs_variant_id x, ov_completeness = completeness_value (completeness x),
      ov_reason_code = obs_reason_code x, ov_execution_id = obs_execution_id x, ov_collected_at = collected_at x\<rparr>"

definition report_view_of :: "report_revision \<Rightarrow> eval_report_view" where
  "report_view_of r =
     \<lparr>rv_report_id = report_id r, rv_revision = revision r, rv_suite_id = rpt_suite_id r, rv_suite_version = rpt_suite_version r,
      rv_hard_outcome = rpt_hard_outcome r, rv_quality_outcome = rpt_quality_outcome r,
      rv_overall_outcome = rpt_overall_outcome r,
      rv_cases = map (\<lambda>c. \<lparr>cv_case_id = cvr_case_id c, cv_variant_id = cvr_variant_id c,
          cv_overall_outcome = cvr_overall_outcome c, cv_pass_at_k = pass_at_k c,
          cv_sample_count = (case score_summary c of Some x \<Rightarrow> sample_count x | None \<Rightarrow> length (cvr_scores c))\<rparr>) (case_results r),
      rv_created_at = rpt_created_at r\<rparr>"

section \<open>Equality of stored values\<close>

text \<open>Python's equality: JSON scalars among the external evidence compare as Python numbers do.\<close>

fun same_external :: "external_item \<Rightarrow> external_item \<Rightarrow> bool" where
  "same_external (Ext_Artifact a) (Ext_Artifact b) \<longleftrightarrow> a = b"
| "same_external (Ext_Json v) (Ext_Json w) \<longleftrightarrow> py_eq v w"
| "same_external (Ext_Object i) (Ext_Object j) \<longleftrightarrow> i = j"
| "same_external _ _ \<longleftrightarrow> False"

definition same_observation :: "eval_observation \<Rightarrow> eval_observation \<Rightarrow> bool" where
  "same_observation x y \<longleftrightarrow> x\<lparr>external_evidence := []\<rparr> = y\<lparr>external_evidence := []\<rparr>
     \<and> list_all2 same_external (external_evidence x) (external_evidence y)"

section \<open>The store in memory\<close>

record eval_store =
  es_executions :: "ident \<Rightarrow> eval_execution option"
  es_observations :: "ident \<Rightarrow> eval_observation option"
  es_links :: "ident \<Rightarrow> ident list"
  es_results :: "ident \<Rightarrow> eval_result_record option"
  es_reports :: "((ident \<times> int) \<times> report_revision) list"
  es_baselines :: "ident \<Rightarrow> eval_baseline option"
  es_recommendations :: "ident \<Rightarrow> model_recommendation option"

definition empty_eval_store :: eval_store where
  "empty_eval_store = \<lparr>es_executions = Map.empty, es_observations = Map.empty, es_links = (\<lambda>_. []), es_results = Map.empty,
     es_reports = [], es_baselines = Map.empty, es_recommendations = Map.empty\<rparr>"

definition record_execution :: "eval_execution \<Rightarrow> eval_store \<Rightarrow> (exn + eval_execution) \<times> eval_store" where
  "record_execution x s =
     (case es_executions s (execution_id x) of
        None \<Rightarrow> (Inr x, s\<lparr>es_executions := (es_executions s)(execution_id x \<mapsto> x)\<rparr>)
      | Some old \<Rightarrow> if old \<noteq> x then (Inl EvalRecordConflictError, s) else (Inr old, s))"

definition record_observation :: "eval_observation \<Rightarrow> eval_store \<Rightarrow> (exn + eval_observation) \<times> eval_store" where
  "record_observation x s =
     (case es_observations s (observation_id x) of
        None \<Rightarrow> (Inr x, s\<lparr>es_observations := (es_observations s)(observation_id x \<mapsto> x),
            es_links := (case obs_execution_id x of
                None \<Rightarrow> es_links s
              | Some e \<Rightarrow> (es_links s)(e := es_links s e @ [observation_id x]))\<rparr>)
      | Some old \<Rightarrow> if \<not> same_observation old x then (Inl EvalRecordConflictError, s) else (Inr old, s))"

definition record_evaluator_result :: "eval_result_record \<Rightarrow> eval_store \<Rightarrow> (exn + eval_result_record) \<times> eval_store" where
  "record_evaluator_result x s =
     (case es_results s (evr_id x) of
        None \<Rightarrow> (Inr x, s\<lparr>es_results := (es_results s)(evr_id x \<mapsto> x)\<rparr>)
      | Some old \<Rightarrow> if old \<noteq> x then (Inl EvalRecordConflictError, s) else (Inr old, s))"

definition record_report :: "report_revision \<Rightarrow> eval_store \<Rightarrow> (exn + report_revision) \<times> eval_store" where
  "record_report x s =
     (case map_of (es_reports s) (report_id x, revision x) of
        None \<Rightarrow> (Inr x, s\<lparr>es_reports := es_reports s @ [((report_id x, revision x), x)]\<rparr>)
      | Some old \<Rightarrow> if old \<noteq> x then (Inl EvalRecordConflictError, s) else (Inr old, s))"

definition record_baseline :: "eval_baseline \<Rightarrow> eval_store \<Rightarrow> (exn + eval_baseline) \<times> eval_store" where
  "record_baseline x s =
     (case es_baselines s (baseline_id x) of
        None \<Rightarrow> (Inr x, s\<lparr>es_baselines := (es_baselines s)(baseline_id x \<mapsto> x)\<rparr>)
      | Some old \<Rightarrow> if old \<noteq> x then (Inl EvalRecordConflictError, s) else (Inr old, s))"

definition record_recommendation :: "model_recommendation \<Rightarrow> eval_store \<Rightarrow> (exn + model_recommendation) \<times> eval_store" where
  "record_recommendation x s =
     (case es_recommendations s (recommendation_id x) of
        None \<Rightarrow> (Inr x, s\<lparr>es_recommendations := (es_recommendations s)(recommendation_id x \<mapsto> x)\<rparr>)
      | Some old \<Rightarrow> if old \<noteq> x then (Inl EvalRecordConflictError, s) else (Inr old, s))"

definition get_execution :: "ident \<Rightarrow> eval_store \<Rightarrow> eval_execution option" where
  "get_execution i s = es_executions s i"

definition get_observation :: "ident \<Rightarrow> eval_store \<Rightarrow> eval_observation option" where
  "get_observation i s = es_observations s i"

definition get_evaluator_result :: "ident \<Rightarrow> eval_store \<Rightarrow> eval_result_record option" where
  "get_evaluator_result i s = es_results s i"

definition get_report :: "ident \<Rightarrow> int \<Rightarrow> eval_store \<Rightarrow> report_revision option" where
  "get_report i n s = map_of (es_reports s) (i, n)"

definition get_baseline :: "ident \<Rightarrow> eval_store \<Rightarrow> eval_baseline option" where
  "get_baseline i s = es_baselines s i"

definition get_recommendation :: "ident \<Rightarrow> eval_store \<Rightarrow> model_recommendation option" where
  "get_recommendation i s = es_recommendations s i"

definition latest_report_revision :: "ident \<Rightarrow> eval_store \<Rightarrow> int option" where
  "latest_report_revision i s =
     (let ns = map (\<lambda>e. snd (fst e)) (filter (\<lambda>e. fst (fst e) = i) (es_reports s))
      in if ns = [] then None else Some (Max (set ns)))"

definition observation_view :: "ident \<Rightarrow> eval_store \<Rightarrow> eval_observation_view option" where
  "observation_view i s = map_option observation_view_of (es_observations s i)"

definition execution_view :: "ident \<Rightarrow> eval_store \<Rightarrow> eval_execution_view option" where
  "execution_view i s = map_option (\<lambda>x. \<lparr>xv_execution = x, xv_observation_ids = es_links s i\<rparr>) (es_executions s i)"

definition report_view :: "ident \<Rightarrow> int \<Rightarrow> eval_store \<Rightarrow> eval_report_view option" where
  "report_view i n s = map_option report_view_of (map_of (es_reports s) (i, n))"

section \<open>Facts of any kind\<close>

datatype eval_fact =
    Fact_Execution eval_execution | Fact_Observation eval_observation | Fact_Result eval_result_record
  | Fact_Report report_revision | Fact_Baseline eval_baseline | Fact_Recommendation model_recommendation

datatype fact_key =
    Key_Execution ident | Key_Observation ident | Key_Result ident | Key_Report "ident \<times> int"
  | Key_Baseline ident | Key_Recommendation ident

fun fact_key_of :: "eval_fact \<Rightarrow> fact_key" where
  "fact_key_of (Fact_Execution x) = Key_Execution (execution_id x)"
| "fact_key_of (Fact_Observation x) = Key_Observation (observation_id x)"
| "fact_key_of (Fact_Result x) = Key_Result (evr_id x)"
| "fact_key_of (Fact_Report x) = Key_Report (report_id x, revision x)"
| "fact_key_of (Fact_Baseline x) = Key_Baseline (baseline_id x)"
| "fact_key_of (Fact_Recommendation x) = Key_Recommendation (recommendation_id x)"

fun same_fact :: "eval_fact \<Rightarrow> eval_fact \<Rightarrow> bool" where
  "same_fact (Fact_Observation x) (Fact_Observation y) \<longleftrightarrow> same_observation x y"
| "same_fact f g \<longleftrightarrow> f = g"

definition fact_reply :: "('a \<Rightarrow> eval_fact) \<Rightarrow> (exn + 'a) \<times> 's \<Rightarrow> (exn + eval_fact) \<times> 's" where
  "fact_reply wrap p = (map_sum id wrap (fst p), snd p)"

fun put_fact :: "eval_fact \<Rightarrow> eval_store \<Rightarrow> (exn + eval_fact) \<times> eval_store" where
  "put_fact (Fact_Execution x) s = fact_reply Fact_Execution (record_execution x s)"
| "put_fact (Fact_Observation x) s = fact_reply Fact_Observation (record_observation x s)"
| "put_fact (Fact_Result x) s = fact_reply Fact_Result (record_evaluator_result x s)"
| "put_fact (Fact_Report x) s = fact_reply Fact_Report (record_report x s)"
| "put_fact (Fact_Baseline x) s = fact_reply Fact_Baseline (record_baseline x s)"
| "put_fact (Fact_Recommendation x) s = fact_reply Fact_Recommendation (record_recommendation x s)"

fun get_fact :: "fact_key \<Rightarrow> eval_store \<Rightarrow> eval_fact option" where
  "get_fact (Key_Execution i) s = map_option Fact_Execution (get_execution i s)"
| "get_fact (Key_Observation i) s = map_option Fact_Observation (get_observation i s)"
| "get_fact (Key_Result i) s = map_option Fact_Result (get_evaluator_result i s)"
| "get_fact (Key_Report (i, n)) s = map_option Fact_Report (get_report i n s)"
| "get_fact (Key_Baseline i) s = map_option Fact_Baseline (get_baseline i s)"
| "get_fact (Key_Recommendation i) s = map_option Fact_Recommendation (get_recommendation i s)"

section \<open>The contract of an append-only store\<close>

locale fact_store =
  fixes put :: "'f \<Rightarrow> 's \<Rightarrow> (exn + 'f) \<times> 's" and get :: "'k \<Rightarrow> 's \<Rightarrow> 'f option"
    and key :: "'f \<Rightarrow> 'k" and same :: "'f \<Rightarrow> 'f \<Rightarrow> bool"
  assumes put_new: "get (key f) s = None \<Longrightarrow>
      fst (put f s) = Inr f \<and> get k (snd (put f s)) = (if k = key f then Some f else get k s)"
    and put_known: "get (key f) s = Some g \<Longrightarrow>
      put f s = (if same g f then Inr g else Inl EvalRecordConflictError, s)"
begin

lemma put_keeps: "get k s = Some g \<Longrightarrow> get k (snd (put f s)) = Some g"
  by (cases "get (key f) s") (auto simp: put_new put_known)

text \<open>A fact once stored is what every later reader gets, whatever is written in between.\<close>

lemma immutable: "get k s = Some g \<Longrightarrow> get k (run_all put fs s) = Some g"
  by (induction fs arbitrary: s) (simp_all add: put_keeps)

text \<open>A write that returns has stored its fact, or found the same one; one that raises changed nothing.\<close>

lemma put_result:
  "fst (put f s) = Inr g \<Longrightarrow> get (key f) (snd (put f s)) = Some g \<and> (g = f \<or> same g f)"
  "fst (put f s) = Inl e \<Longrightarrow> e = EvalRecordConflictError \<and> snd (put f s) = s \<and> (\<exists>g. get (key f) s = Some g \<and> \<not> same g f)"
  by (cases "get (key f) s"; auto simp: put_new put_known split: if_splits)+

text \<open>Replaying a write after any others gives the same reply and changes nothing.\<close>

lemma replay:
  assumes "fst (put f s) = Inr g" and "same g f"
  shows "put f (run_all put fs (snd (put f s))) = (Inr g, run_all put fs (snd (put f s)))"
  using put_known [OF immutable [of "key f" "snd (put f s)" g fs]] put_result(1) [OF assms(1)] assms(2) by simp

lemma conflict:
  assumes "get (key f) s = Some g" and "\<not> same g f"
  shows "put f (run_all put fs s) = (Inl EvalRecordConflictError, run_all put fs s)"
  using put_known [OF immutable [OF assms(1), of fs]] assms(2) by simp

end

lemmas record_defs = record_execution_def record_observation_def record_evaluator_result_def record_report_def
  record_baseline_def record_recommendation_def fact_reply_def

lemmas get_defs = get_execution_def get_observation_def get_evaluator_result_def get_report_def get_baseline_def
  get_recommendation_def

interpretation memory_facts: fact_store put_fact get_fact fact_key_of same_fact
proof
  fix f :: eval_fact and s k
  assume new: "get_fact (fact_key_of f) s = None"
  show "fst (put_fact f s) = Inr f \<and> get_fact k (snd (put_fact f s)) = (if k = fact_key_of f then Some f else get_fact k s)"
    using new
    by (cases f; cases k) (auto simp: record_defs get_defs map_add_def split: option.splits if_splits)
next
  fix f :: eval_fact and s g
  assume known: "get_fact (fact_key_of f) s = Some g"
  show "put_fact f s = (if same_fact g f then Inr g else Inl EvalRecordConflictError, s)"
    using known by (cases f) (auto simp: record_defs get_defs)
qed

text \<open>The links of an execution: each of its observations once, in the order of their first writing.\<close>

definition links_ok :: "eval_store \<Rightarrow> bool" where
  "links_ok s \<longleftrightarrow> (\<forall>e i. i \<in> set (es_links s e) \<longleftrightarrow> (\<exists>x. es_observations s i = Some x \<and> obs_execution_id x = Some e \<and> observation_id x = i))
     \<and> (\<forall>e. distinct (es_links s e)) \<and> (\<forall>i x. es_observations s i = Some x \<longrightarrow> observation_id x = i)"

lemma links_ok_empty: "links_ok empty_eval_store"
  by (simp add: links_ok_def empty_eval_store_def)

lemma put_fact_links:
  assumes "links_ok s"
  shows "links_ok (snd (put_fact f s))"
proof (cases f)
  case (Fact_Observation x)
  show ?thesis
  proof (cases "es_observations s (observation_id x)")
    case None
    with assms Fact_Observation show ?thesis
      by (cases "obs_execution_id x") (auto simp: links_ok_def record_defs)
  qed (use assms Fact_Observation in \<open>simp add: record_defs\<close>)
qed (use assms in \<open>auto simp: links_ok_def record_defs split: option.splits\<close>)

lemma run_facts_links: "links_ok s \<Longrightarrow> links_ok (run_all put_fact fs s)"
  by (induction fs arbitrary: s) (simp_all add: put_fact_links)

text \<open>Views carry no payload: observations that differ in input, output, history, usage or evidence look the same.\<close>

lemma observation_view_blind:
  "observation_view_of (x\<lparr>obs_run_input := a, obs_run_output := b, conversation_history := h, obs_usage := u,
     obs_error_code := c, external_evidence := e\<rparr>) = observation_view_of x"
  by (simp add: observation_view_of_def)

end
