(* ===== verification/Session_Store.thy ===== *)
theory Session_Store
  imports Prelude
begin

text \<open>
  The Session Companion's store: the values of \<open>src/src/m_agent/companion/_session.py\<close> and
  the in-memory store of \<open>companion/_in_memory_session_store.py\<close>. Every method body runs
  without suspension, so a call is one step; the times the injected clock returns during a
  call are arguments of the operation. A dictionary key \<open>(SessionScope, session_id)\<close> is the
  pair of the scope's token and the session id.
\<close>

section \<open>Values\<close>

type_synonym session_scope = ident
type_synonym session_key = "session_scope \<times> ident"

record session_run_claim =
  claim_session_id :: ident
  claim_run_id :: ident
  claim_session_version :: int
  claimed_at :: timestamp

record session_turn =
  turn_id :: ident
  turn_session_id :: ident
  turn_run_id :: ident
  turn_definition_id :: ident
  turn_definition_version :: ident
  turn_user_input :: pystr
  turn_assistant_output :: pystr
  turn_created_at :: timestamp

record session_snapshot =
  sn_session_id :: ident
  sn_version :: int
  sn_turns :: "session_turn list"
  sn_next_cursor :: "int option"

record session_record =
  rec_session_id :: ident
  rec_version :: int
  rec_claim :: "session_run_claim option"
  rec_created_at :: timestamp
  rec_updated_at :: timestamp

datatype session_commit_status = NOT_READY | COMMITTED | PENDING | CONFLICT

record session_commit_result =
  commit_status :: session_commit_status
  committed_turn :: "session_turn option"
  commit_version :: int

section \<open>The in-memory store\<close>

record stored_session =
  ss_session_id :: ident
  ss_version :: int
  ss_claim :: "session_run_claim option"
  ss_turns :: "session_turn list"
  ss_created_at :: timestamp
  ss_updated_at :: timestamp

type_synonym session_store_state = "session_key \<Rightarrow> stored_session option"

definition lookup_session :: "session_store_state \<Rightarrow> session_key \<Rightarrow> exn + stored_session" where
  "lookup_session s k = (case s k of None \<Rightarrow> Inl SessionNotFoundError | Some x \<Rightarrow> Inr x)"

definition session_record_of :: "stored_session \<Rightarrow> session_record" where
  "session_record_of x =
     \<lparr>rec_session_id = ss_session_id x, rec_version = ss_version x, rec_claim = ss_claim x,
      rec_created_at = ss_created_at x, rec_updated_at = ss_updated_at x\<rparr>"

definition existing_turn :: "stored_session \<Rightarrow> ident \<Rightarrow> session_turn option" where
  "existing_turn x rid = find (\<lambda>t. turn_run_id t = rid) (ss_turns x)"

definition create_session ::
  "timestamp \<Rightarrow> session_scope \<Rightarrow> ident \<Rightarrow> session_store_state
     \<Rightarrow> (exn + session_record) \<times> session_store_state" where
  "create_session now scope sid s =
     (if blank_ident sid then (Inl ValueError, s)
      else if s (scope, sid) \<noteq> None then (Inl DuplicateSessionError, s)
      else let x = \<lparr>ss_session_id = sid, ss_version = 0, ss_claim = None, ss_turns = [],
                    ss_created_at = now, ss_updated_at = now\<rparr>
           in (Inr (session_record_of x), s((scope, sid) \<mapsto> x)))"

definition get_session :: "session_scope \<Rightarrow> ident \<Rightarrow> session_store_state \<Rightarrow> session_record option" where
  "get_session scope sid s = map_option session_record_of (s (scope, sid))"

definition read_snapshot ::
  "session_scope \<Rightarrow> ident \<Rightarrow> int option \<Rightarrow> int \<Rightarrow> int option \<Rightarrow> session_store_state
     \<Rightarrow> exn + session_snapshot" where
  "read_snapshot scope sid expected_version after limit s =
     (if after < 0 then Inl ValueError
      else if (\<exists>l \<in> set_option limit. l \<le> 0) then Inl ValueError
      else bindE (lookup_session s (scope, sid)) (\<lambda>x.
        if expected_version \<noteq> None \<and> expected_version \<noteq> Some (ss_version x)
          then Inl SessionVersionConflictError
        else let rest = drop (nat after) (ss_turns x);
                 window = (case limit of None \<Rightarrow> rest | Some l \<Rightarrow> take (nat l) rest);
                 next_cursor = after + int (length window)
             in Inr \<lparr>sn_session_id = ss_session_id x, sn_version = ss_version x, sn_turns = window,
                     sn_next_cursor = (if next_cursor < int (length (ss_turns x)) then Some next_cursor else None)\<rparr>))"

definition get_claim :: "session_scope \<Rightarrow> ident \<Rightarrow> session_store_state \<Rightarrow> session_run_claim option" where
  "get_claim scope sid s = Option.bind (s (scope, sid)) ss_claim"

definition claim_run ::
  "timestamp \<Rightarrow> timestamp \<Rightarrow> session_scope \<Rightarrow> ident \<Rightarrow> ident \<Rightarrow> int \<Rightarrow> session_store_state
     \<Rightarrow> (exn + session_run_claim) \<times> session_store_state" where
  "claim_run now now' scope sid rid expected_version s =
     (case lookup_session s (scope, sid) of
        Inl e \<Rightarrow> (Inl e, s)
      | Inr x \<Rightarrow>
          if ss_claim x \<noteq> None then (Inl SessionClaimConflictError, s)
          else if existing_turn x rid \<noteq> None then (Inl SessionClaimConflictError, s)
          else if ss_version x \<noteq> expected_version then (Inl SessionVersionConflictError, s)
          else let c = \<lparr>claim_session_id = ss_session_id x, claim_run_id = rid,
                        claim_session_version = ss_version x, claimed_at = now\<rparr>
               in (Inr c, s((scope, sid) \<mapsto> x\<lparr>ss_claim := Some c, ss_updated_at := now'\<rparr>)))"

definition release_claim ::
  "timestamp \<Rightarrow> session_scope \<Rightarrow> ident \<Rightarrow> ident \<Rightarrow> session_store_state
     \<Rightarrow> (exn + unit) \<times> session_store_state" where
  "release_claim now scope sid rid s =
     (case lookup_session s (scope, sid) of
        Inl e \<Rightarrow> (Inl e, s)
      | Inr x \<Rightarrow>
     (case ss_claim x of
        None \<Rightarrow> (Inr (), s)
      | Some c \<Rightarrow>
          if claim_run_id c \<noteq> rid then (Inl SessionClaimConflictError, s)
          else (Inr (), s((scope, sid) \<mapsto> x\<lparr>ss_claim := None, ss_updated_at := now\<rparr>))))"

definition commit_turn ::
  "timestamp \<Rightarrow> session_scope \<Rightarrow> ident \<Rightarrow> session_turn \<Rightarrow> int \<Rightarrow> session_store_state
     \<Rightarrow> (exn + session_commit_result) \<times> session_store_state" where
  "commit_turn now scope sid t expected_version s =
     (case lookup_session s (scope, sid) of
        Inl e \<Rightarrow> (Inl e, s)
      | Inr x \<Rightarrow>
          let conflict = \<lparr>commit_status = CONFLICT, committed_turn = None, commit_version = ss_version x\<rparr> in
          if turn_session_id t \<noteq> sid then (Inl ValueError, s)
          else (case existing_turn x (turn_run_id t) of
            Some old \<Rightarrow> (Inr \<lparr>commit_status = COMMITTED, committed_turn = Some old, commit_version = ss_version x\<rparr>, s)
          | None \<Rightarrow>
              if map_option claim_run_id (ss_claim x) \<noteq> Some (turn_run_id t) then (Inr conflict, s)
              else if ss_version x \<noteq> expected_version then (Inr conflict, s)
              else (Inr \<lparr>commit_status = COMMITTED, committed_turn = Some t, commit_version = ss_version x + 1\<rparr>,
                    s((scope, sid) \<mapsto> x\<lparr>ss_turns := ss_turns x @ [t], ss_claim := None,
                                        ss_version := ss_version x + 1, ss_updated_at := now\<rparr>))))"

definition find_turn_by_run ::
  "session_scope \<Rightarrow> ident \<Rightarrow> ident \<Rightarrow> session_store_state \<Rightarrow> exn + session_turn option" where
  "find_turn_by_run scope sid rid s =
     bindE (lookup_session s (scope, sid)) (\<lambda>x. Inr (existing_turn x rid))"

lemmas session_op_defs =
  create_session_def claim_run_def release_claim_def commit_turn_def lookup_session_def

section \<open>Calls\<close>

datatype session_cmd =
    CreateSession timestamp session_key
  | ClaimRun timestamp timestamp session_key ident int
  | ReleaseClaim timestamp session_key ident
  | CommitTurn timestamp session_key session_turn int

datatype session_reply =
    RecordReply session_record
  | ClaimReply session_run_claim
  | NoReply
  | CommitReply session_commit_result

definition reply_with :: "('a \<Rightarrow> session_reply) \<Rightarrow> (exn + 'a) \<times> 's \<Rightarrow> (exn + session_reply) \<times> 's" where
  "reply_with f r = (map_sum id f (fst r), snd r)"

fun exec_session :: "session_cmd \<Rightarrow> session_store_state \<Rightarrow> (exn + session_reply) \<times> session_store_state" where
  "exec_session (CreateSession now (scope, sid)) s = reply_with RecordReply (create_session now scope sid s)"
| "exec_session (ClaimRun now now' (scope, sid) rid v) s =
     reply_with ClaimReply (claim_run now now' scope sid rid v s)"
| "exec_session (ReleaseClaim now (scope, sid) rid) s = reply_with (\<lambda>_. NoReply) (release_claim now scope sid rid s)"
| "exec_session (CommitTurn now (scope, sid) t v) s = reply_with CommitReply (commit_turn now scope sid t v s)"

fun cmd_session :: "session_cmd \<Rightarrow> session_key" where
  "cmd_session (CreateSession now k) = k"
| "cmd_session (ClaimRun now now' k rid v) = k"
| "cmd_session (ReleaseClaim now k rid) = k"
| "cmd_session (CommitTurn now k t v) = k"

text \<open>The run on whose behalf a call may end a claim.\<close>

fun ends_claim_of :: "session_cmd \<Rightarrow> (session_key \<times> ident) option" where
  "ends_claim_of (ReleaseClaim now k rid) = Some (k, rid)"
| "ends_claim_of (CommitTurn now k t v) = Some (k, turn_run_id t)"
| "ends_claim_of _ = None"

section \<open>The contract a session runner relies on\<close>

text \<open>
  The client sees a session as its history and its claim. A claim pins the history: only
  the claiming Run can end it, and while it holds, the claiming Run's commit at the claimed
  version is accepted.
\<close>

type_synonym session_view = "session_turn list \<times> session_run_claim option"

locale session_contract =
  fixes exec :: "session_cmd \<Rightarrow> 's \<Rightarrow> (exn + session_reply) \<times> 's"
    and view :: "'s \<Rightarrow> session_key \<Rightarrow> session_view option"
    and inv :: "'s \<Rightarrow> bool"
  assumes keep: "inv s \<Longrightarrow> inv (snd (exec c s))"
    and isolated: "cmd_session c \<noteq> k \<Longrightarrow> view (snd (exec c s)) k = view s k"
    and raised: "exec c s = (Inl e, s') \<Longrightarrow> s' = s"
    and appends: "view s k = Some (ts, co) \<Longrightarrow> \<exists>us co'. view (snd (exec c s)) k = Some (ts @ us, co')"
    and pinned: "view s k = Some (ts, Some cl) \<Longrightarrow> ends_claim_of c \<noteq> Some (k, claim_run_id cl) \<Longrightarrow>
          view (snd (exec c s)) k = Some (ts, Some cl)"
    and once: "inv s \<Longrightarrow> view s k = Some (ts, co) \<Longrightarrow> distinct (map turn_run_id ts)"
    and claimed_version: "inv s \<Longrightarrow> view s k = Some (ts, Some cl) \<Longrightarrow>
          claim_session_version cl = int (length ts) \<and> claim_run_id cl \<notin> turn_run_id ` set ts"
    and claims: "inv s \<Longrightarrow> exec (ClaimRun now now' k rid v) s = (Inr (ClaimReply cl), s') \<Longrightarrow>
          \<exists>ts. view s k = Some (ts, None) \<and> view s' k = Some (ts, Some cl)
            \<and> claim_run_id cl = rid \<and> v = int (length ts)"
    and commits: "inv s \<Longrightarrow> view s k = Some (ts, Some cl) \<Longrightarrow> turn_run_id t = claim_run_id cl \<Longrightarrow>
          turn_session_id t = snd k \<Longrightarrow>
          \<exists>s'. exec (CommitTurn now k t (claim_session_version cl)) s =
              (Inr (CommitReply \<lparr>commit_status = COMMITTED, committed_turn = Some t,
                 commit_version = claim_session_version cl + 1\<rparr>), s')
            \<and> view s' k = Some (ts @ [t], None)"
    and recommits: "inv s \<Longrightarrow> view s k = Some (ts, co) \<Longrightarrow> t \<in> set ts \<Longrightarrow> turn_run_id t' = turn_run_id t \<Longrightarrow>
          turn_session_id t' = snd k \<Longrightarrow>
          exec (CommitTurn now k t' v) s =
            (Inr (CommitReply \<lparr>commit_status = COMMITTED, committed_turn = Some t, commit_version = int (length ts)\<rparr>), s)"
begin

lemma run_all_keeps: "inv s \<Longrightarrow> inv (run_all exec cs s)"
  by (induction cs arbitrary: s) (auto simp: keep)

lemma history_append_only:
  "view s k = Some (ts, cl) \<Longrightarrow> \<exists>us cl'. view (run_all exec cs s) k = Some (ts @ us, cl')"
proof (induction cs arbitrary: s ts cl)
  case (Cons c cs)
  obtain us cl1 where "view (snd (exec c s)) k = Some (ts @ us, cl1)" using appends [OF Cons.prems] by blast
  from Cons.IH [OF this] show ?case by auto
qed simp

lemma claim_pins_history:
  "view s k = Some (ts, Some cl) \<Longrightarrow> \<forall>c \<in> set cs. ends_claim_of c \<noteq> Some (k, claim_run_id cl) \<Longrightarrow>
     view (run_all exec cs s) k = Some (ts, Some cl)"
  by (induction cs arbitrary: s) (auto simp: pinned)

text \<open>From a successful claim to its commit, whatever other callers do in between.\<close>

lemma claim_then_commit:
  assumes "inv s" and "exec (ClaimRun now now' k rid v) s = (Inr (ClaimReply cl), s1)"
    and "\<forall>c \<in> set cs. ends_claim_of c \<noteq> Some (k, rid)"
    and "turn_run_id t = rid" and "turn_session_id t = snd k"
  shows "\<exists>ts s3. view s k = Some (ts, None)
     \<and> exec (CommitTurn now'' k t v) (run_all exec cs s1) =
         (Inr (CommitReply \<lparr>commit_status = COMMITTED, committed_turn = Some t, commit_version = v + 1\<rparr>), s3)
     \<and> view s3 k = Some (ts @ [t], None)"
proof -
  obtain ts where ts: "view s k = Some (ts, None)" "view s1 k = Some (ts, Some cl)"
    and cl: "claim_run_id cl = rid" and v: "v = int (length ts)" using claims [OF assms(1,2)] by blast
  have inv: "inv s1" using keep [OF assms(1), of "ClaimRun now now' k rid v"] assms(2) by simp
  have held: "view (run_all exec cs s1) k = Some (ts, Some cl)"
    by (rule claim_pins_history) (use ts assms(3) cl in auto)
  have "claim_session_version cl = v" using claimed_version [OF run_all_keeps [OF inv] held] v by simp
  then show ?thesis using commits [OF run_all_keeps [OF inv] held, of t now''] ts assms(4,5) cl by auto
qed

end

section \<open>The in-memory store keeps the contract\<close>

definition session_ok :: "session_key \<Rightarrow> stored_session \<Rightarrow> bool" where
  "session_ok k x \<longleftrightarrow>
     ss_session_id x = snd k \<and> ss_version x = int (length (ss_turns x))
     \<and> distinct (map turn_run_id (ss_turns x))
     \<and> (\<forall>t \<in> set (ss_turns x). turn_session_id t = snd k)
     \<and> (\<forall>c. ss_claim x = Some c \<longrightarrow> claim_session_id c = snd k \<and> claim_session_version c = ss_version x
          \<and> claim_run_id c \<notin> turn_run_id ` set (ss_turns x))"

definition sessions_inv :: "session_store_state \<Rightarrow> bool" where
  "sessions_inv s \<longleftrightarrow> (\<forall>k x. s k = Some x \<longrightarrow> session_ok k x)"

definition session_view_of :: "session_store_state \<Rightarrow> session_key \<Rightarrow> session_view option" where
  "session_view_of s k = map_option (\<lambda>x. (ss_turns x, ss_claim x)) (s k)"

lemma existing_turn_none: "existing_turn x rid = None \<longleftrightarrow> rid \<notin> turn_run_id ` set (ss_turns x)"
  by (auto simp: existing_turn_def find_None_iff)

lemma existing_turn_unique:
  assumes "distinct (map turn_run_id (ss_turns x))" and "t \<in> set (ss_turns x)"
  shows "existing_turn x (turn_run_id t) = Some t"
proof -
  obtain t' where t': "existing_turn x (turn_run_id t) = Some t'"
    using assms(2) existing_turn_none [of x "turn_run_id t"] by (cases "existing_turn x (turn_run_id t)") auto
  then have "t' \<in> set (ss_turns x)" "turn_run_id t' = turn_run_id t"
    by (auto simp: existing_turn_def find_Some_iff)
  then have "t' = t" using assms by (auto simp: distinct_map dest: inj_onD)
  with t' show ?thesis by simp
qed

lemma sessions_invI:
  "sessions_inv s \<Longrightarrow> session_ok k x \<Longrightarrow> sessions_inv (s(k \<mapsto> x))"
  by (simp add: sessions_inv_def)

lemma sessions_invD: "sessions_inv s \<Longrightarrow> s k = Some x \<Longrightarrow> session_ok k x"
  by (cases k) (simp add: sessions_inv_def)

lemma exec_session_inv: "sessions_inv s \<Longrightarrow> sessions_inv (snd (exec_session c s))"
proof (cases c)
  case (CreateSession now k)
  assume "sessions_inv s"
  with CreateSession show ?thesis
    by (cases k) (auto simp: session_op_defs reply_with_def Let_def session_ok_def intro!: sessions_invI)
next
  case (ClaimRun now now' k rid v)
  assume "sessions_inv s"
  with ClaimRun show ?thesis
    by (cases k) (auto simp: session_op_defs reply_with_def Let_def existing_turn_none sessions_inv_def
        session_ok_def split: option.splits)
next
  case (ReleaseClaim now k rid)
  assume "sessions_inv s"
  with ReleaseClaim show ?thesis
    by (cases k) (auto simp: session_op_defs reply_with_def sessions_inv_def session_ok_def split: option.splits)
next
  case (CommitTurn now k t v)
  assume "sessions_inv s"
  with CommitTurn show ?thesis
    by (cases k) (auto simp: session_op_defs reply_with_def Let_def existing_turn_none sessions_inv_def
        session_ok_def split: option.splits)
qed

lemmas session_view_defs = session_view_of_def session_op_defs reply_with_def Let_def

interpretation memory_sessions: session_contract exec_session session_view_of sessions_inv
proof
  show "sessions_inv s \<Longrightarrow> sessions_inv (snd (exec_session c s))" for c s by (rule exec_session_inv)
next
  show "cmd_session c \<noteq> k \<Longrightarrow> session_view_of (snd (exec_session c s)) k = session_view_of s k" for c k s
    by (cases c; cases k) (auto simp: session_view_defs split: option.splits sum.splits if_splits)
next
  show "exec_session c s = (Inl e, s') \<Longrightarrow> s' = s" for c s e s'
    by (cases c; cases "cmd_session c") (auto simp: session_view_defs split: option.splits sum.splits if_splits)
next
  show "session_view_of s k = Some (ts, cl) \<Longrightarrow>
      \<exists>us cl'. session_view_of (snd (exec_session c s)) k = Some (ts @ us, cl')" for s k ts cl c
    by (cases c; cases "cmd_session c"; cases k)
      (auto simp: session_view_defs split: option.splits sum.splits if_splits)
next
  show "session_view_of s k = Some (ts, Some cl) \<Longrightarrow> ends_claim_of c \<noteq> Some (k, claim_run_id cl) \<Longrightarrow>
      session_view_of (snd (exec_session c s)) k = Some (ts, Some cl)" for s k ts cl c
    by (cases c; cases "cmd_session c"; cases k)
      (auto simp: session_view_defs split: option.splits sum.splits if_splits)
next
  fix s now now' k rid v cl s'
  assume "sessions_inv s" "exec_session (ClaimRun now now' k rid v) s = (Inr (ClaimReply cl), s')"
  then show "\<exists>ts. session_view_of s k = Some (ts, None) \<and> session_view_of s' k = Some (ts, Some cl)
      \<and> claim_run_id cl = rid \<and> v = int (length ts)"
    by (cases k) (auto simp: session_view_defs sessions_inv_def session_ok_def split: option.splits if_splits)
next
  fix s k ts cl now and t :: session_turn
  assume a: "sessions_inv s" "session_view_of s k = Some (ts, Some cl)" "turn_run_id t = claim_run_id cl"
    "turn_session_id t = snd k"
  then obtain x where x: "s k = Some x" "ts = ss_turns x" "ss_claim x = Some cl" by (auto simp: session_view_of_def)
  then have "existing_turn x (claim_run_id cl) = None" "claim_session_version cl = ss_version x"
    using sessions_invD [OF a(1) x(1)] by (simp_all add: existing_turn_none session_ok_def)
  then show "\<exists>s'. exec_session (CommitTurn now k t (claim_session_version cl)) s =
        (Inr (CommitReply \<lparr>commit_status = COMMITTED, committed_turn = Some t,
           commit_version = claim_session_version cl + 1\<rparr>), s')
      \<and> session_view_of s' k = Some (ts @ [t], None)"
    using a x by (cases k) (simp add: session_view_defs)
next
  fix s k ts cl now v and t t' :: session_turn
  assume a: "sessions_inv s" "session_view_of s k = Some (ts, cl)" "t \<in> set ts" "turn_run_id t' = turn_run_id t"
    "turn_session_id t' = snd k"
  then obtain x where x: "s k = Some x" "ts = ss_turns x" by (auto simp: session_view_of_def)
  then have "existing_turn x (turn_run_id t) = Some t" "ss_version x = int (length ts)"
    using sessions_invD [OF a(1) x(1)] a existing_turn_unique [of x t] by (simp_all add: session_ok_def)
  then show "exec_session (CommitTurn now k t' v) s =
      (Inr (CommitReply \<lparr>commit_status = COMMITTED, committed_turn = Some t, commit_version = int (length ts)\<rparr>), s)"
    using a x by (cases k) (simp add: session_view_defs)
qed (auto simp: session_view_of_def session_ok_def dest!: sessions_invD)

section \<open>Reading a history page by page\<close>

text \<open>
  The loop of a reader that follows \<open>next_cursor\<close> from the start, with one page size, as
  \<open>read_snapshot\<close> is meant to be used; \<open>fuel\<close> bounds the number of pages.
\<close>

fun read_pages ::
  "nat \<Rightarrow> session_scope \<Rightarrow> ident \<Rightarrow> int \<Rightarrow> int \<Rightarrow> session_store_state \<Rightarrow> exn + session_turn list option" where
  "read_pages 0 scope sid after limit s = Inr None"
| "read_pages (Suc fuel) scope sid after limit s =
     bindE (read_snapshot scope sid None after (Some limit) s) (\<lambda>page.
       case sn_next_cursor page of
         None \<Rightarrow> Inr (Some (sn_turns page))
       | Some c \<Rightarrow> bindE (read_pages fuel scope sid c limit s) (\<lambda>rest.
           Inr (map_option (\<lambda>ts. sn_turns page @ ts) rest)))"

lemma read_pages_complete:
  assumes "s (scope, sid) = Some x" and "0 < limit" and "n \<le> length (ss_turns x)"
    and "length (ss_turns x) < n + fuel"
  shows "read_pages fuel scope sid (int n) limit s = Inr (Some (drop n (ss_turns x)))"
  using assms(3,4)
proof (induction fuel arbitrary: n)
  case (Suc fuel)
  let ?window = "take (nat limit) (drop n (ss_turns x))"
  let ?c = "n + length ?window"
  have page: "read_snapshot scope sid None (int n) (Some limit) s =
      Inr \<lparr>sn_session_id = ss_session_id x, sn_version = ss_version x, sn_turns = ?window,
           sn_next_cursor = (if ?c < length (ss_turns x) then Some (int ?c) else None)\<rparr>"
    using assms(1,2) by (auto simp: read_snapshot_def lookup_session_def Let_def)
  show ?case
  proof (cases "?c < length (ss_turns x)")
    case True
    then have c: "?c = n + nat limit" by simp
    have "read_pages fuel scope sid (int ?c) limit s = Inr (Some (drop ?c (ss_turns x)))"
      by (rule Suc.IH) (use Suc.prems True c assms(2) in linarith)+
    then show ?thesis using page True c append_take_drop_id [of "nat limit" "drop n (ss_turns x)"]
      by (simp add: add.commute)
  next
    case False
    then have "?window = drop n (ss_turns x)" using assms(2) by simp
    then show ?thesis using page False by simp
  qed
qed simp

text \<open>A scope isolates: calls on other keys, the same session id under another scope
  included, change nothing of a session, and a session unknown in the scope of the caller
  cannot be told from one that does not exist.\<close>

lemma session_scope_isolated:
  assumes "\<forall>c \<in> set cs. cmd_session c \<noteq> (scope, sid)"
  shows "session_view_of (run_all exec_session cs s) (scope, sid) = session_view_of s (scope, sid)
     \<and> (s (scope, sid) = None \<longrightarrow> get_session scope sid s = None
          \<and> fst (claim_run now now' scope sid rid v s) = Inl SessionNotFoundError
          \<and> fst (commit_turn now scope sid t v s) = Inl SessionNotFoundError
          \<and> fst (release_claim now scope sid rid s) = Inl SessionNotFoundError)"
proof -
  have "session_view_of (run_all exec_session cs s) (scope, sid) = session_view_of s (scope, sid)"
    using assms by (induction cs arbitrary: s) (auto simp: memory_sessions.isolated)
  then show ?thesis by (simp add: get_session_def session_op_defs)
qed

end
