(* ===== verification/Sqlite_Session.thy ===== *)
theory Sqlite_Session
  imports Session_Store
begin

text \<open>
  The persistent session store, \<open>src/src/m_agent/companion/_sqlite_session_store.py\<close>: every
  operation over the three tables, and its agreement with the in-memory store.

  A mutation is one \<open>BEGIN IMMEDIATE\<close> transaction that commits or, on any exception, rolls
  back, so it maps the committed tables to the committed tables. A reading method is several
  statements; \<open>between\<close> is what other connections commit between them. \<open>sessions\<close> and
  \<open>session_claims\<close> are maps from their primary key, \<open>session_turns\<close> the list of its rows.
  The codec is the application's; the JSON text of the two payload strings is \<open>json.dumps\<close> of
  an object and read by \<open>json.loads\<close>, parameters here as in the Run Store.
\<close>

section \<open>Tables\<close>

record session_row =
  sess_version :: int
  sess_created_at :: timestamp
  sess_updated_at :: timestamp

record turn_row =
  tr_scope_token :: session_scope
  tr_session_id :: ident
  tr_turn_index :: int
  tr_turn_id :: ident
  tr_run_id :: ident
  tr_definition_id :: ident
  tr_definition_version :: ident
  tr_created_at :: timestamp
  tr_encoded_payload :: pybytes

record session_tables =
  tab_sessions :: "session_key \<Rightarrow> session_row option"
  tab_claims :: "session_key \<Rightarrow> session_run_claim option"
  tab_turns :: "turn_row list"

record session_env =
  sn_encode :: "pystr \<Rightarrow> exn + pybytes"
  sn_decode :: "pybytes \<Rightarrow> exn + pystr"
  sn_dumps :: "pystr \<times> pystr \<Rightarrow> pystr"
  sn_loads :: "pystr \<Rightarrow> exn + pystr \<times> pystr"

definition empty_session_tables :: session_tables where
  "empty_session_tables = \<lparr>tab_sessions = Map.empty, tab_claims = Map.empty, tab_turns = []\<rparr>"

definition payload_json :: "session_env \<Rightarrow> session_turn \<Rightarrow> pystr" where
  "payload_json env t = sn_dumps env (turn_user_input t, turn_assistant_output t)"

definition turn_from_row :: "session_env \<Rightarrow> turn_row \<Rightarrow> pystr \<Rightarrow> exn + session_turn" where
  "turn_from_row env row payload =
     bindE (sn_loads env payload) (\<lambda>body. Inr
     \<lparr>turn_id = tr_turn_id row, turn_session_id = tr_session_id row, turn_run_id = tr_run_id row,
      turn_definition_id = tr_definition_id row, turn_definition_version = tr_definition_version row,
      turn_user_input = fst body, turn_assistant_output = snd body, turn_created_at = tr_created_at row\<rparr>)"

definition decode_turn :: "session_env \<Rightarrow> turn_row \<Rightarrow> exn + session_turn" where
  "decode_turn env row = bindE (sn_decode env (tr_encoded_payload row)) (turn_from_row env row)"

definition row_key :: "turn_row \<Rightarrow> session_key" where
  "row_key r = (tr_scope_token r, tr_session_id r)"

definition rows_of :: "session_tables \<Rightarrow> session_key \<Rightarrow> turn_row list" where
  "rows_of t k = filter (\<lambda>r. row_key r = k) (tab_turns t)"

definition sql_lookup :: "session_tables \<Rightarrow> session_key \<Rightarrow> exn + session_row" where
  "sql_lookup t k = (case tab_sessions t k of None \<Rightarrow> Inl SessionNotFoundError | Some r \<Rightarrow> Inr r)"

definition turn_row_by_run :: "session_tables \<Rightarrow> session_key \<Rightarrow> ident \<Rightarrow> turn_row option" where
  "turn_row_by_run t k rid = find (\<lambda>r. tr_run_id r = rid) (rows_of t k)"

definition touch :: "timestamp \<Rightarrow> session_key \<Rightarrow> session_tables \<Rightarrow> session_tables" where
  "touch now k t =
     t\<lparr>tab_sessions := (tab_sessions t)(k := map_option (\<lambda>r. r\<lparr>sess_updated_at := now\<rparr>) (tab_sessions t k))\<rparr>"

section \<open>Operations\<close>

definition sql_create_session ::
  "timestamp \<Rightarrow> session_scope \<Rightarrow> ident \<Rightarrow> session_tables \<Rightarrow> (exn + session_record) \<times> session_tables" where
  "sql_create_session now scope sid t =
     (if blank_ident sid then (Inl ValueError, t)
      else if tab_sessions t (scope, sid) \<noteq> None then (Inl DuplicateSessionError, t)
      else (Inr \<lparr>rec_session_id = sid, rec_version = 0, rec_claim = None, rec_created_at = now, rec_updated_at = now\<rparr>,
            t\<lparr>tab_sessions := (tab_sessions t)((scope, sid) \<mapsto>
                \<lparr>sess_version = 0, sess_created_at = now, sess_updated_at = now\<rparr>)\<rparr>))"

definition record_from_row :: "session_key \<Rightarrow> session_row \<Rightarrow> session_run_claim option \<Rightarrow> session_record" where
  "record_from_row k row claim =
     \<lparr>rec_session_id = snd k, rec_version = sess_version row, rec_claim = claim,
      rec_created_at = sess_created_at row, rec_updated_at = sess_updated_at row\<rparr>"

definition sql_get_session ::
  "session_scope \<Rightarrow> ident \<Rightarrow> (session_tables \<Rightarrow> session_tables) \<Rightarrow> session_tables \<Rightarrow> session_record option" where
  "sql_get_session scope sid between t =
     (case tab_sessions t (scope, sid) of
        None \<Rightarrow> None
      | Some row \<Rightarrow> Some (record_from_row (scope, sid) row (tab_claims (between t) (scope, sid))))"

text \<open>\<open>turn_index >= after ORDER BY turn_index LIMIT ?\<close>\<close>

definition window_rows :: "session_tables \<Rightarrow> session_key \<Rightarrow> int \<Rightarrow> int option \<Rightarrow> turn_row list" where
  "window_rows t k after limit =
     (let rest = sort_key tr_turn_index (filter (\<lambda>r. after \<le> tr_turn_index r) (rows_of t k)) in
      case limit of None \<Rightarrow> rest | Some l \<Rightarrow> take (nat l) rest)"

definition sql_read_snapshot ::
  "session_env \<Rightarrow> session_scope \<Rightarrow> ident \<Rightarrow> int option \<Rightarrow> int \<Rightarrow> int option
     \<Rightarrow> (session_tables \<Rightarrow> session_tables) \<Rightarrow> (session_tables \<Rightarrow> session_tables) \<Rightarrow> session_tables
     \<Rightarrow> exn + session_snapshot" where
  "sql_read_snapshot env scope sid expected_version after limit between between' t =
     (if after < 0 then Inl ValueError
      else if (\<exists>l \<in> set_option limit. l \<le> 0) then Inl ValueError
      else bindE (sql_lookup t (scope, sid)) (\<lambda>row.
        if expected_version \<noteq> None \<and> expected_version \<noteq> Some (sess_version row)
          then Inl SessionVersionConflictError
        else let t1 = between t; total = int (length (rows_of t1 (scope, sid))); t2 = between' t1 in
          bindE (mapE (decode_turn env) (window_rows t2 (scope, sid) after limit)) (\<lambda>window.
            let next_cursor = after + int (length window) in
            Inr \<lparr>sn_session_id = sid, sn_version = sess_version row, sn_turns = window,
                 sn_next_cursor = (if next_cursor < total then Some next_cursor else None)\<rparr>)))"

definition sql_get_claim ::
  "session_scope \<Rightarrow> ident \<Rightarrow> (session_tables \<Rightarrow> session_tables) \<Rightarrow> session_tables \<Rightarrow> session_run_claim option" where
  "sql_get_claim scope sid between t =
     (case tab_sessions t (scope, sid) of None \<Rightarrow> None | Some _ \<Rightarrow> tab_claims (between t) (scope, sid))"

definition sql_claim_run ::
  "timestamp \<Rightarrow> timestamp \<Rightarrow> session_scope \<Rightarrow> ident \<Rightarrow> ident \<Rightarrow> int \<Rightarrow> session_tables
     \<Rightarrow> (exn + session_run_claim) \<times> session_tables" where
  "sql_claim_run now now' scope sid rid expected_version t =
     (case sql_lookup t (scope, sid) of
        Inl e \<Rightarrow> (Inl e, t)
      | Inr row \<Rightarrow>
          if tab_claims t (scope, sid) \<noteq> None then (Inl SessionClaimConflictError, t)
          else if turn_row_by_run t (scope, sid) rid \<noteq> None then (Inl SessionClaimConflictError, t)
          else if sess_version row \<noteq> expected_version then (Inl SessionVersionConflictError, t)
          else let c = \<lparr>claim_session_id = sid, claim_run_id = rid,
                        claim_session_version = sess_version row, claimed_at = now\<rparr> in
            (Inr (c\<lparr>claim_session_version := expected_version\<rparr>),
             touch now' (scope, sid) (t\<lparr>tab_claims := (tab_claims t)((scope, sid) \<mapsto> c)\<rparr>)))"

definition sql_release_claim ::
  "timestamp \<Rightarrow> session_scope \<Rightarrow> ident \<Rightarrow> ident \<Rightarrow> session_tables \<Rightarrow> (exn + unit) \<times> session_tables" where
  "sql_release_claim now scope sid rid t =
     (case sql_lookup t (scope, sid) of
        Inl e \<Rightarrow> (Inl e, t)
      | Inr row \<Rightarrow>
     (case tab_claims t (scope, sid) of
        None \<Rightarrow> (Inr (), t)
      | Some c \<Rightarrow>
          if claim_run_id c \<noteq> rid then (Inl SessionClaimConflictError, t)
          else (Inr (), touch now (scope, sid) (t\<lparr>tab_claims := (tab_claims t)((scope, sid) := None)\<rparr>))))"

text \<open>The row a commit inserts, and the two uniqueness constraints it may violate.\<close>

definition new_turn_row :: "session_key \<Rightarrow> int \<Rightarrow> session_turn \<Rightarrow> pybytes \<Rightarrow> turn_row" where
  "new_turn_row k index t encoded =
     \<lparr>tr_scope_token = fst k, tr_session_id = snd k, tr_turn_index = index, tr_turn_id = turn_id t,
      tr_run_id = turn_run_id t, tr_definition_id = turn_definition_id t,
      tr_definition_version = turn_definition_version t, tr_created_at = turn_created_at t,
      tr_encoded_payload = encoded\<rparr>"

definition violates_unique :: "turn_row \<Rightarrow> turn_row list \<Rightarrow> bool" where
  "violates_unique row rows \<longleftrightarrow>
     list_ex (\<lambda>r. row_key r = row_key row \<and> (tr_turn_index r = tr_turn_index row \<or> tr_run_id r = tr_run_id row)) rows"

definition sql_commit_turn ::
  "session_env \<Rightarrow> timestamp \<Rightarrow> session_scope \<Rightarrow> ident \<Rightarrow> session_turn \<Rightarrow> int \<Rightarrow> session_tables
     \<Rightarrow> (exn + session_commit_result) \<times> session_tables" where
  "sql_commit_turn env now scope sid turn expected_version t =
     (if turn_session_id turn \<noteq> sid then (Inl ValueError, t)
      else case sql_lookup t (scope, sid) of
        Inl e \<Rightarrow> (Inl e, t)
      | Inr row \<Rightarrow>
          let conflict = \<lparr>commit_status = CONFLICT, committed_turn = None, commit_version = sess_version row\<rparr> in
          (case turn_row_by_run t (scope, sid) (turn_run_id turn) of
             Some old \<Rightarrow>
               (bindE (decode_turn env old) (\<lambda>x. Inr
                  \<lparr>commit_status = COMMITTED, committed_turn = Some x, commit_version = sess_version row\<rparr>), t)
           | None \<Rightarrow>
               if map_option claim_run_id (tab_claims t (scope, sid)) \<noteq> Some (turn_run_id turn) then (Inr conflict, t)
               else if sess_version row \<noteq> expected_version then (Inr conflict, t)
               else case sn_encode env (payload_json env turn) of
                 Inl e \<Rightarrow> (Inl e, t)
               | Inr encoded \<Rightarrow>
                   let new = new_turn_row (scope, sid) (sess_version row) turn encoded in
                   if violates_unique new (tab_turns t) then (Inl IntegrityError, t)
                   else
                     (Inr \<lparr>commit_status = COMMITTED, committed_turn = Some turn, commit_version = sess_version row + 1\<rparr>,
                      t\<lparr>tab_turns := tab_turns t @ [new],
                        tab_claims := (tab_claims t)((scope, sid) := None),
                        tab_sessions := (tab_sessions t)((scope, sid) \<mapsto>
                          row\<lparr>sess_version := sess_version row + 1, sess_updated_at := now\<rparr>)\<rparr>)))"

definition sql_find_turn_by_run ::
  "session_env \<Rightarrow> session_scope \<Rightarrow> ident \<Rightarrow> ident \<Rightarrow> (session_tables \<Rightarrow> session_tables) \<Rightarrow> session_tables
     \<Rightarrow> exn + session_turn option" where
  "sql_find_turn_by_run env scope sid rid between t =
     bindE (sql_lookup t (scope, sid)) (\<lambda>_.
       case turn_row_by_run (between t) (scope, sid) rid of
         None \<Rightarrow> Inr None
       | Some row \<Rightarrow> bindE (decode_turn env row) (\<lambda>x. Inr (Some x)))"

definition raw_turn_payload_bytes :: "session_scope \<Rightarrow> ident \<Rightarrow> ident \<Rightarrow> session_tables \<Rightarrow> pybytes option" where
  "raw_turn_payload_bytes scope sid rid t = map_option tr_encoded_payload (turn_row_by_run t (scope, sid) rid)"

fun sql_exec_session ::
  "session_env \<Rightarrow> session_cmd \<Rightarrow> session_tables \<Rightarrow> (exn + session_reply) \<times> session_tables" where
  "sql_exec_session env (CreateSession now (scope, sid)) t =
     reply_with RecordReply (sql_create_session now scope sid t)"
| "sql_exec_session env (ClaimRun now now' (scope, sid) rid v) t =
     reply_with ClaimReply (sql_claim_run now now' scope sid rid v t)"
| "sql_exec_session env (ReleaseClaim now (scope, sid) rid) t =
     reply_with (\<lambda>_. NoReply) (sql_release_claim now scope sid rid t)"
| "sql_exec_session env (CommitTurn now (scope, sid) turn v) t =
     reply_with CommitReply (sql_commit_turn env now scope sid turn v t)"

section \<open>Agreement with the in-memory store\<close>

text \<open>
  The rows of a session are numbered from zero and decode to the turns of the record; the
  codec and JSON decode what they encoded.
\<close>

definition session_codec_ok :: "session_env \<Rightarrow> bool" where
  "session_codec_ok env \<longleftrightarrow> (\<forall>p b. sn_encode env p = Inr b \<longrightarrow> sn_decode env b = Inr p)
     \<and> (\<forall>x. sn_loads env (sn_dumps env x) = Inr x)"

definition session_rows_ok :: "session_env \<Rightarrow> turn_row list \<Rightarrow> session_turn list \<Rightarrow> bool" where
  "session_rows_ok env rows turns \<longleftrightarrow> map tr_turn_index rows = map int [0..<length rows]
     \<and> list_all2 (\<lambda>r x. tr_run_id r = turn_run_id x \<and> decode_turn env r = Inr x) rows turns"

definition session_same :: "session_env \<Rightarrow> session_tables \<Rightarrow> session_key \<Rightarrow> stored_session option \<Rightarrow> bool" where
  "session_same env t k so =
     (case (tab_sessions t k, so) of
        (None, None) \<Rightarrow> tab_claims t k = None \<and> rows_of t k = []
      | (Some row, Some x) \<Rightarrow>
          ss_session_id x = snd k \<and> ss_version x = sess_version row \<and> ss_claim x = tab_claims t k
          \<and> ss_created_at x = sess_created_at row \<and> ss_updated_at x = sess_updated_at row
          \<and> ss_version x = int (length (ss_turns x)) \<and> session_rows_ok env (rows_of t k) (ss_turns x)
      | _ \<Rightarrow> False)"

definition sessions_agree :: "session_env \<Rightarrow> session_tables \<Rightarrow> session_store_state \<Rightarrow> bool" where
  "sessions_agree env t s \<longleftrightarrow> (\<forall>k. session_same env t k (s k))"

lemma sessions_agree_empty: "sessions_agree env empty_session_tables Map.empty"
  by (simp add: sessions_agree_def session_same_def empty_session_tables_def rows_of_def)

lemma agree_cases:
  assumes "sessions_agree env t s"
  obtains (absent) "tab_sessions t k = None" "s k = None" "tab_claims t k = None" "rows_of t k = []"
    | (present) row x where "tab_sessions t k = Some row" "s k = Some x" "ss_session_id x = snd k"
        "ss_version x = sess_version row" "ss_claim x = tab_claims t k" "ss_created_at x = sess_created_at row"
        "ss_updated_at x = sess_updated_at row" "sess_version row = int (length (ss_turns x))"
        "session_rows_ok env (rows_of t k) (ss_turns x)"
  using assms [unfolded sessions_agree_def, rule_format, of k]
  by (auto simp: session_same_def split: option.splits)

lemma rows_find:
  assumes "list_all2 (\<lambda>r x. tr_run_id r = turn_run_id x \<and> decode_turn env r = Inr x) rows turns"
  shows "rel_option (\<lambda>r x. tr_run_id r = turn_run_id x \<and> decode_turn env r = Inr x)
     (find (\<lambda>r. tr_run_id r = rid) rows) (find (\<lambda>x. turn_run_id x = rid) turns)"
  using assms by (induction rule: list_all2_induct) auto

lemma turn_by_run_agrees:
  assumes "session_rows_ok env (rows_of t k) (ss_turns x)"
  shows "rel_option (\<lambda>r x. tr_run_id r = turn_run_id x \<and> decode_turn env r = Inr x)
     (turn_row_by_run t k rid) (existing_turn x rid)"
  using assms rows_find by (auto simp: session_rows_ok_def turn_row_by_run_def existing_turn_def)

lemma agreesI:
  assumes "sessions_agree env t s" and "\<And>k'. k' \<noteq> k \<Longrightarrow> tab_sessions t' k' = tab_sessions t k'
      \<and> tab_claims t' k' = tab_claims t k' \<and> rows_of t' k' = rows_of t k'"
    and "session_same env t' k (Some x)"
  shows "sessions_agree env t' (s(k \<mapsto> x))"
proof -
  have "session_same env t' k' (s k')" if "k' \<noteq> k" for k'
  proof -
    have "session_same env t k' (s k')" using assms(1) by (cases k') (simp add: sessions_agree_def)
    then show ?thesis using assms(2) [OF that] by (simp add: session_same_def cong: option.case_cong)
  qed
  with assms(3) show ?thesis by (simp add: sessions_agree_def)
qed

lemma create_session_agrees:
  assumes a: "sessions_agree env t s"
  shows "fst (sql_create_session now scope sid t) = fst (create_session now scope sid s)
     \<and> sessions_agree env (snd (sql_create_session now scope sid t)) (snd (create_session now scope sid s))"
  using a
proof (cases rule: agree_cases [where k = "(scope, sid)"])
  case absent
  have "sessions_agree env (t\<lparr>tab_sessions := (tab_sessions t)((scope, sid) \<mapsto>
        \<lparr>sess_version = 0, sess_created_at = now, sess_updated_at = now\<rparr>)\<rparr>)
      (s((scope, sid) \<mapsto> \<lparr>ss_session_id = sid, ss_version = 0, ss_claim = None, ss_turns = [],
                    ss_created_at = now, ss_updated_at = now\<rparr>))"
    by (rule agreesI [OF a])
      (use absent in \<open>simp_all add: rows_of_def session_same_def session_rows_ok_def\<close>)
  with absent a show ?thesis
    by (simp add: sql_create_session_def create_session_def session_record_of_def Let_def)
next
  case (present row x)
  with a show ?thesis by (simp add: sql_create_session_def create_session_def)
qed

lemma claim_run_agrees:
  assumes a: "sessions_agree env t s"
  shows "fst (sql_claim_run now now' scope sid rid v t) = fst (claim_run now now' scope sid rid v s)
     \<and> sessions_agree env (snd (sql_claim_run now now' scope sid rid v t)) (snd (claim_run now now' scope sid rid v s))"
  using a
proof (cases rule: agree_cases [where k = "(scope, sid)"])
  case absent
  with a show ?thesis by (simp add: sql_claim_run_def claim_run_def sql_lookup_def lookup_session_def)
next
  case (present row x)
  have run: "turn_row_by_run t (scope, sid) rid = None \<longleftrightarrow> existing_turn x rid = None"
    using turn_by_run_agrees [OF present(9), of rid] by (auto simp: option_rel_Some1 option_rel_Some2 split: option.splits)
  let ?c = "\<lparr>claim_session_id = sid, claim_run_id = rid, claim_session_version = sess_version row, claimed_at = now\<rparr>"
  have "sessions_agree env (touch now' (scope, sid) (t\<lparr>tab_claims := (tab_claims t)((scope, sid) \<mapsto> ?c)\<rparr>))
      (s((scope, sid) \<mapsto> x\<lparr>ss_claim := Some ?c, ss_updated_at := now'\<rparr>))"
    by (rule agreesI [OF a]) (use present in \<open>auto simp: touch_def rows_of_def session_same_def\<close>)
  with present a run show ?thesis
    by (auto simp: sql_claim_run_def claim_run_def sql_lookup_def lookup_session_def Let_def)
qed

lemma release_claim_agrees:
  assumes a: "sessions_agree env t s"
  shows "fst (sql_release_claim now scope sid rid t) = fst (release_claim now scope sid rid s)
     \<and> sessions_agree env (snd (sql_release_claim now scope sid rid t)) (snd (release_claim now scope sid rid s))"
  using a
proof (cases rule: agree_cases [where k = "(scope, sid)"])
  case absent
  with a show ?thesis by (simp add: sql_release_claim_def release_claim_def sql_lookup_def lookup_session_def)
next
  case (present row x)
  have "sessions_agree env (touch now (scope, sid) (t\<lparr>tab_claims := (tab_claims t)((scope, sid) := None)\<rparr>))
      (s((scope, sid) \<mapsto> x\<lparr>ss_claim := None, ss_updated_at := now\<rparr>))"
    by (rule agreesI [OF a]) (use present in \<open>auto simp: touch_def rows_of_def session_same_def\<close>)
  with present a show ?thesis
    by (auto simp: sql_release_claim_def release_claim_def sql_lookup_def lookup_session_def split: option.splits)
qed

lemma row_key_new [simp]: "row_key (new_turn_row k n turn b) = k"
  by (simp add: row_key_def new_turn_row_def)

text \<open>A new row never violates a constraint: its index is the number of rows and its Run has none.\<close>

lemma new_row_unique:
  assumes "session_rows_ok env (rows_of t k) (ss_turns x)" and "turn_row_by_run t k (turn_run_id turn) = None"
    and "n = int (length (ss_turns x))"
  shows "\<not> violates_unique (new_turn_row k n turn b) (tab_turns t)"
proof
  assume "violates_unique (new_turn_row k n turn b) (tab_turns t)"
  then obtain r where r: "r \<in> set (rows_of t k)" "tr_turn_index r = n \<or> tr_run_id r = turn_run_id turn"
    by (auto simp: violates_unique_def list_ex_iff rows_of_def new_turn_row_def row_key_def)
  have len: "length (rows_of t k) = length (ss_turns x)"
    using assms(1) by (auto simp: session_rows_ok_def dest: list_all2_lengthD)
  have "tr_turn_index r \<in> set (map int [0..<length (rows_of t k)])"
    using r(1) assms(1) by (metis session_rows_ok_def image_eqI set_map)
  then have "tr_turn_index r < n" using assms(3) len by auto
  moreover have "tr_run_id r \<noteq> turn_run_id turn"
    using r(1) assms(2) by (auto simp: turn_row_by_run_def find_None_iff)
  ultimately show False using r(2) by auto
qed

lemma decode_new_row:
  assumes "session_codec_ok env" and "sn_encode env (payload_json env turn) = Inr b" and "turn_session_id turn = snd k"
  shows "decode_turn env (new_turn_row k n turn b) = Inr turn"
  using assms by (cases turn) (simp add: decode_turn_def turn_from_row_def new_turn_row_def payload_json_def session_codec_ok_def)

lemma rows_ok_snoc:
  assumes "session_rows_ok env rows turns" and "tr_turn_index r = int (length rows)"
    and "tr_run_id r = turn_run_id x" and "decode_turn env r = Inr x"
  shows "session_rows_ok env (rows @ [r]) (turns @ [x])"
  using assms by (auto simp: session_rows_ok_def intro: list_all2_appendI)

text \<open>Both raise on a turn of another session or in an unknown one, in a different order.\<close>

lemma commit_turn_agrees:
  assumes a: "sessions_agree env t s" and codec: "session_codec_ok env"
    and enc: "sn_encode env (payload_json env turn) = Inr b" and sid: "turn_session_id turn = sid"
  shows "fst (sql_commit_turn env now scope sid turn v t) = fst (commit_turn now scope sid turn v s)
     \<and> sessions_agree env (snd (sql_commit_turn env now scope sid turn v t)) (snd (commit_turn now scope sid turn v s))"
  using a
proof (cases rule: agree_cases [where k = "(scope, sid)"])
  case absent
  with a sid show ?thesis by (simp add: sql_commit_turn_def commit_turn_def sql_lookup_def lookup_session_def)
next
  case (present row x)
  note find = turn_by_run_agrees [OF present(9), of "turn_run_id turn"]
  let ?k = "(scope, sid)"
  show ?thesis
  proof (cases "existing_turn x (turn_run_id turn)")
    case (Some old)
    with find obtain r where "turn_row_by_run t ?k (turn_run_id turn) = Some r" "decode_turn env r = Inr old"
      by (auto simp: option_rel_Some2)
    with Some present a sid show ?thesis
      by (simp add: sql_commit_turn_def commit_turn_def sql_lookup_def lookup_session_def Let_def)
  next
    case None
    with find have none: "turn_row_by_run t ?k (turn_run_id turn) = None" by simp
    let ?new = "new_turn_row ?k (sess_version row) turn b"
    have uniq: "\<not> violates_unique ?new (tab_turns t)"
      by (rule new_row_unique [OF present(9) none]) (use present in simp)
    have len: "length (rows_of t ?k) = length (ss_turns x)"
      using present(9) by (auto simp: session_rows_ok_def dest: list_all2_lengthD)
    have rows: "session_rows_ok env (rows_of t ?k @ [?new]) (ss_turns x @ [turn])"
      using decode_new_row [OF codec enc, of ?k] sid present(8) len
      by (intro rows_ok_snoc [OF present(9)]) (simp_all add: new_turn_row_def)
    let ?t = "t\<lparr>tab_turns := tab_turns t @ [?new], tab_claims := (tab_claims t)(?k := None),
        tab_sessions := (tab_sessions t)(?k \<mapsto> row\<lparr>sess_version := sess_version row + 1, sess_updated_at := now\<rparr>)\<rparr>"
    have "sessions_agree env ?t (s(?k \<mapsto> x\<lparr>ss_turns := ss_turns x @ [turn], ss_claim := None,
        ss_version := ss_version x + 1, ss_updated_at := now\<rparr>))"
      using rows present by (intro agreesI [OF a]) (auto simp: rows_of_def session_same_def)
    with None none uniq present a sid enc show ?thesis
      by (auto simp: sql_commit_turn_def commit_turn_def sql_lookup_def lookup_session_def Let_def)
  qed
qed

section \<open>Reading\<close>

lemma filter_from_index:
  assumes "map tr_turn_index rows = map int [m..<m + length rows]"
  shows "filter (\<lambda>r. after \<le> tr_turn_index r) rows = drop (nat (after - int m)) rows"
  using assms
proof (induction rows arbitrary: m)
  case (Cons r rows)
  have r: "tr_turn_index r = int m" "map tr_turn_index rows = map int [Suc m..<Suc m + length rows]"
    using Cons.prems by (simp_all add: upt_rec)
  show ?case
  proof (cases "after \<le> int m")
    case True
    have "\<forall>x \<in> set (r # rows). after \<le> tr_turn_index x"
    proof
      fix x
      assume "x \<in> set (r # rows)"
      then have "tr_turn_index x \<in> set (map tr_turn_index (r # rows))" by auto
      then show "after \<le> tr_turn_index x" unfolding Cons.prems using True by auto
    qed
    with True show ?thesis by (simp add: filter_id_conv)
  next
    case False
    then have "nat (after - int m) = Suc (nat (after - int (Suc m)))" by simp
    with Cons.IH [OF r(2)] r(1) False show ?thesis by simp
  qed
qed simp

lemma window_rows_eq:
  assumes "session_rows_ok env (rows_of t k) turns" and "0 \<le> after"
  shows "window_rows t k after limit =
     (case limit of None \<Rightarrow> drop (nat after) (rows_of t k) | Some l \<Rightarrow> take (nat l) (drop (nat after) (rows_of t k)))"
proof -
  have idx: "map tr_turn_index (rows_of t k) = map int [0..<0 + length (rows_of t k)]"
    using assms(1) by (simp add: session_rows_ok_def)
  then have "sorted (map tr_turn_index (rows_of t k))" by (simp add: sorted_map_same sorted_iff_nth_mono)
  then have "sorted (map tr_turn_index (drop (nat after) (rows_of t k)))"
    by (simp add: drop_map [symmetric] sorted_wrt_drop)
  then have "sort_key tr_turn_index (drop (nat after) (rows_of t k)) = drop (nat after) (rows_of t k)"
    by (rule sort_key_id_if_sorted)
  then show ?thesis
    using filter_from_index [OF idx, of after] assms(2) by (simp add: window_rows_def Let_def split: option.split)
qed

lemma mapE_list_all2: "list_all2 (\<lambda>r x. f r = Inr x) rs xs \<Longrightarrow> mapE f rs = Inr xs"
  by (induction rule: list_all2_induct) simp_all

lemma decode_window:
  assumes "session_rows_ok env rows turns"
  shows "mapE (decode_turn env) (drop n rows) = Inr (drop n turns)"
    and "mapE (decode_turn env) (take m (drop n rows)) = Inr (take m (drop n turns))"
proof -
  have "list_all2 (\<lambda>r x. decode_turn env r = Inr x) rows turns"
    using assms by (auto simp: session_rows_ok_def elim: list_all2_mono)
  then have "list_all2 (\<lambda>r x. decode_turn env r = Inr x) (drop n rows) (drop n turns)"
    by (rule list_all2_dropI)
  moreover from this have "list_all2 (\<lambda>r x. decode_turn env r = Inr x) (take m (drop n rows)) (take m (drop n turns))"
    by (rule list_all2_takeI)
  ultimately show "mapE (decode_turn env) (drop n rows) = Inr (drop n turns)"
    and "mapE (decode_turn env) (take m (drop n rows)) = Inr (take m (drop n turns))"
    by (auto intro: mapE_list_all2)
qed

lemma session_readers_agree:
  assumes a: "sessions_agree env t s"
  shows "sql_get_session scope sid id t = get_session scope sid s"
    and "sql_get_claim scope sid id t = get_claim scope sid s"
    and "sql_find_turn_by_run env scope sid rid id t = find_turn_by_run scope sid rid s"
    and "sql_read_snapshot env scope sid ev after limit id id t = read_snapshot scope sid ev after limit s"
proof -
  show "sql_get_session scope sid id t = get_session scope sid s"
    using a by (cases rule: agree_cases [where k = "(scope, sid)"])
      (simp_all add: sql_get_session_def get_session_def record_from_row_def session_record_of_def)
  show "sql_get_claim scope sid id t = get_claim scope sid s"
    using a by (cases rule: agree_cases [where k = "(scope, sid)"]) (simp_all add: sql_get_claim_def get_claim_def)
  show "sql_find_turn_by_run env scope sid rid id t = find_turn_by_run scope sid rid s"
    using a
  proof (cases rule: agree_cases [where k = "(scope, sid)"])
    case (present row x)
    show ?thesis
      using turn_by_run_agrees [OF present(9), of rid] present
      by (cases "existing_turn x rid"; cases "turn_row_by_run t (scope, sid) rid")
        (auto simp: sql_find_turn_by_run_def find_turn_by_run_def sql_lookup_def lookup_session_def)
  qed (simp add: sql_find_turn_by_run_def find_turn_by_run_def sql_lookup_def lookup_session_def)
  show "sql_read_snapshot env scope sid ev after limit id id t = read_snapshot scope sid ev after limit s"
    using a
  proof (cases rule: agree_cases [where k = "(scope, sid)"])
    case (present row x)
    have len: "length (rows_of t (scope, sid)) = length (ss_turns x)"
      using present(9) by (auto simp: session_rows_ok_def dest: list_all2_lengthD)
    show ?thesis
      using present len
      by (cases limit) (auto simp: sql_read_snapshot_def read_snapshot_def sql_lookup_def lookup_session_def Let_def
          window_rows_eq [OF present(9)] decode_window [OF present(9)])
  qed (simp add: sql_read_snapshot_def read_snapshot_def sql_lookup_def lookup_session_def)
qed

section \<open>Histories\<close>

fun session_encodable :: "session_env \<Rightarrow> session_cmd \<Rightarrow> bool" where
  "session_encodable env (CommitTurn now k turn v) \<longleftrightarrow>
     turn_session_id turn = snd k \<and> (\<exists>b. sn_encode env (payload_json env turn) = Inr b)"
| "session_encodable env _ \<longleftrightarrow> True"

lemma exec_session_agrees:
  assumes "sessions_agree env t s" and "session_codec_ok env" and "session_encodable env c"
  shows "fst (sql_exec_session env c t) = fst (exec_session c s)
     \<and> sessions_agree env (snd (sql_exec_session env c t)) (snd (exec_session c s))"
  using assms create_session_agrees [OF assms(1)] claim_run_agrees [OF assms(1)] release_claim_agrees [OF assms(1)]
    commit_turn_agrees [OF assms(1,2)]
  by (cases c; cases "cmd_session c") (auto simp: reply_with_def)

lemma run_all_agrees:
  "sessions_agree env t s \<Longrightarrow> session_codec_ok env \<Longrightarrow> \<forall>c \<in> set cs. session_encodable env c \<Longrightarrow>
     sessions_agree env (run_all (sql_exec_session env) cs t) (run_all exec_session cs s)"
  by (induction cs arbitrary: t s) (simp_all add: exec_session_agrees)

text \<open>
  A snapshot read by several statements is not a snapshot: a commit of another connection
  between them is in the turns but not in the version.
\<close>

lemma torn_snapshot:
  assumes a: "sessions_agree env t s" and a': "sessions_agree env (between t) s'"
    and x: "s (scope, sid) = Some x" and x': "s' (scope, sid) = Some x'"
  shows "sql_read_snapshot env scope sid None 0 None between id t =
     Inr \<lparr>sn_session_id = sid, sn_version = ss_version x, sn_turns = ss_turns x', sn_next_cursor = None\<rparr>"
proof -
  obtain row where row: "tab_sessions t (scope, sid) = Some row" "sess_version row = ss_version x"
    using a x by (cases rule: agree_cases [where k = "(scope, sid)"]) auto
  have rows: "session_rows_ok env (rows_of (between t) (scope, sid)) (ss_turns x')"
    using a' x' by (cases rule: agree_cases [where k = "(scope, sid)"]) auto
  then have "length (rows_of (between t) (scope, sid)) = length (ss_turns x')"
    by (auto simp: session_rows_ok_def dest: list_all2_lengthD)
  then show ?thesis
    using row decode_window(1) [OF rows, of 0]
    by (simp add: sql_read_snapshot_def sql_lookup_def Let_def window_rows_eq [OF rows])
qed

end
