(* ===== verification/Runner_Logic.thy ===== *)
theory Runner_Logic
  imports Runner_Ops
begin

text \<open>
  A rely/guarantee logic for the coroutines of the Runner. The locale \<open>runner_steps\<close> fixes a
  relation between the state before and after a coroutine that contains the Runner's own guarded
  store calls, its bookkeeping and whatever others do while it is suspended;
  \<open>runner_dispatch\<close> adds external calls, which need evidence recorded in the store before. The
  triple \<open>ok E m Q\<close> says: from a state in which the evidence \<open>E\<close> is recorded, \<open>m\<close> stays in the
  relation and a result satisfies \<open>Q\<close>. One rule per combinator and one lemma per coroutine.
\<close>

named_theorems ok_rule "rules of the logic, applied backwards"
named_theorems ok_tail "the same for a call in tail position, with the result condition weakened"

section \<open>Evidence\<close>

datatype evidence =
    Attempted ident ident
  | Allowed ident policy_gate "(pystr \<times> json) list"

fun holds :: "runner_env \<Rightarrow> run_store \<Rightarrow> evidence \<Rightarrow> bool" where
  "holds env st (Attempted rid aid) \<longleftrightarrow> aid \<in> sa_attempt_id ` set (entries (attempts st) rid)"
| "holds env st (Allowed rid gate payload) \<longleftrightarrow>
     (\<exists>d \<in> set (get_policy_decisions rid st). pdr_gate d = gate \<and> pdr_action d = ALLOW
        \<and> pdr_input_summary d = re_summary env payload)"

text \<open>What must be recorded before a call leaves the process.\<close>

fun evidence_for :: "external_call \<Rightarrow> evidence set" where
  "evidence_for (Model_Call rid sid aid p req) = {Attempted rid aid}"
| "evidence_for (Tool_Call rid sid aid req) =
     {Attempted rid aid, Allowed rid GATE_TOOL_REQUEST
        [text_field ''tool_name'' (ustr (treq_tool_name req)),
         text_field ''call_id'' (ustr (treq_call_id req)),
         text_field ''arguments'' (treq_arguments req), true_field ''final_authorization'']}"
| "evidence_for (Context_Call rid sid aid input) =
     {Attempted rid aid, Allowed rid GATE_CONTEXT
        [text_field ''input'' input, true_field ''final_authorization'']}"

definition evidenced :: "runner_env \<Rightarrow> run_store \<Rightarrow> external_call \<Rightarrow> bool" where
  "evidenced env st call \<longleftrightarrow> (\<forall>e \<in> evidence_for call. holds env st e)"

text \<open>Attempt ids and decisions are never removed, whoever calls the store.\<close>

lemma entries_fun_upd: "entries (m(k \<mapsto> xs)) r = (if r = k then xs else entries m r)"
  by (simp add: entries_def)

lemma and_then_keeps:
  assumes "f (snd r) = x" and "\<And>s. f s = x \<Longrightarrow> f (snd (g s)) = x"
  shows "f (snd (and_then r g)) = x"
  using assms by (cases r) (auto simp: and_then_def split: sum.splits)

lemma transition_frame:
  "attempts (snd (transition_run env now utc rid v args s)) = attempts s"
  "policy_decisions (snd (transition_run env now utc rid v args s)) = policy_decisions s"
  unfolding transition_run_def attempt_op_def Let_def
  by (auto split: sum.splits intro!: and_then_keeps [where f = attempts]
      and_then_keeps [where f = policy_decisions])

lemmas plain_op_defs = acquire_lease_def release_lease_def create_run_def record_step_def
  record_attempt_def reserve_model_attempt_def record_checkpoint_def record_policy_decision_def

lemma attempt_ids_kept:
  "sa_attempt_id ` set (entries (attempts s) rid)
     \<subseteq> sa_attempt_id ` set (entries (attempts (snd (exec_cmd env c s))) rid)"
  by (cases c)
    (auto simp: transition_frame plain_op_defs attempt_op_def Let_def entries_fun_upd keys_upsert
      split: sum.splits option.splits if_splits)

lemma decisions_kept:
  "set (get_policy_decisions rid s) \<subseteq> set (get_policy_decisions rid (snd (exec_cmd env c s)))"
  by (cases c)
    (auto simp: transition_frame get_policy_decisions_def plain_op_defs attempt_op_def Let_def entries_fun_upd
      split: sum.splits option.splits if_splits)

lemma holds_exec: "holds env st e \<Longrightarrow> holds env (snd (exec_cmd senv c st)) e"
proof (cases e)
  case (Attempted r aid)
  then show "holds env st e \<Longrightarrow> ?thesis" using attempt_ids_kept [of st r senv c] by auto
next
  case (Allowed r gate payload)
  then show "holds env st e \<Longrightarrow> ?thesis" using decisions_kept [of r st senv c] by auto
qed

lemma holds_execs: "holds env st e \<Longrightarrow> holds env (exec_cmds senv cs st) e"
  by (induction cs arbitrary: st) (auto intro: holds_exec)

section \<open>Records carry the id they are stored under\<close>

definition ids_ok :: "run_store \<Rightarrow> bool" where
  "ids_ok st \<longleftrightarrow> (\<forall>rid sr. runs st rid = Some sr \<longrightarrow> sr_run_id sr = rid)"

lemma ids_ok_exec:
  assumes "ids_ok st"
  shows "ids_ok (snd (exec_cmd env c st))"
  unfolding ids_ok_def
proof (intro allI impI)
  fix rid sr
  assume new: "runs (snd (exec_cmd env c st)) rid = Some sr"
  show "sr_run_id sr = rid"
  proof (cases "runs st rid")
    case (Some old)
    then have "run_change old sr" using exec_cmd_run_change [OF Some, of env c] new by auto
    then show ?thesis using Some assms run_change_identity by (auto simp: ids_ok_def)
  next
    case None
    show ?thesis
    proof (cases c)
      case (Create run)
      then show ?thesis using new None
        by (auto simp: create_run_def attempt_op_def split_run_def bindE_eq_Inr run_metadata_def
            split: if_splits sum.splits)
    next
      case (Transition now utc r v args)
      then show ?thesis using new None
        by (auto simp: transition_runs guarded_ok split: sum.splits if_splits)
    qed (use new None in \<open>auto simp: plain_op_defs attempt_op_def current_at_ok Let_def
          split: sum.splits option.splits if_splits\<close>)
  qed
qed

lemma ids_ok_execs: "ids_ok st \<Longrightarrow> ids_ok (exec_cmds env cs st)"
  by (induction cs arbitrary: st) (auto intro: ids_ok_exec)

lemma run_to_record_ids:
  "run_to_record sr i out snap h = Inr r \<Longrightarrow> run_id r = sr_run_id sr \<and> run_status_of r = sr_status sr"
  by (cases i) (auto simp: run_to_record_def)

lemma load_run_id: "load_run env s sr rid = Inr r \<Longrightarrow> run_id r = sr_run_id sr \<and> run_status_of r = sr_status sr"
  unfolding load_run_def bindE_eq_Inr by (elim exE conjE) (rule run_to_record_ids)

lemma and_then_answer: "and_then r g = (Inr x, s') \<Longrightarrow> \<exists>s1. g s1 = (Inr x, s')"
  by (auto simp: and_then_def split: prod.splits sum.splits)

lemma transition_answer:
  assumes "transition_run env now utc rid v args s = (Inr r, s')" and "ids_ok s"
  shows "run_id r = rid \<and> run_status_of r = to_status args"
proof -
  obtain cur where g: "guarded now s rid v (to_lease_owner args) = Inr cur"
    using assms(1) by (auto simp: transition_run_def)
  then have "sr_run_id cur = rid" using assms(2) by (auto simp: guarded_ok ids_ok_def)
  moreover have "\<exists>s3. load_run env s3 (transitioned utc args cur) rid = Inr r"
    using assms(1) unfolding transition_run_def g attempt_op_simps attempt_op_Inr Let_def
    by (blast dest: and_then_answer)
  moreover have "sr_run_id (transitioned utc args cur) = sr_run_id cur"
    "sr_status (transitioned utc args cur) = to_status args" by (simp_all add: transitioned_def)
  ultimately show ?thesis using load_run_id by metis
qed

section \<open>Own commands\<close>

definition own_cmd :: "runner_env \<Rightarrow> ident \<Rightarrow> store_cmd \<Rightarrow> bool" where
  "own_cmd env rid c \<longleftrightarrow> cmd_run c = rid
     \<and> (case c of
          Acquire now r owner ttl v \<Rightarrow> owner = re_owner env \<and> now \<in> range (re_now env)
        | Release r owner v \<Rightarrow> owner = re_owner env
        | Create run \<Rightarrow> True
        | _ \<Rightarrow> mutation_owner c = Some (re_owner env))"

abbreviation of_run :: "ident \<Rightarrow> run_record \<Rightarrow> bool" where
  "of_run rid run \<equiv> run_id run = rid"

abbreviation held_by :: "runner_env \<Rightarrow> run_lease \<Rightarrow> bool" where
  "held_by env lease \<equiv> lease_owner lease = re_owner env"

section \<open>The logic\<close>

locale runner_steps =
  fixes env :: runner_env and rid :: ident and R :: "runner_state \<Rightarrow> runner_state \<Rightarrow> bool"
  assumes R_refl: "R s s"
    and R_trans: "R s t \<Longrightarrow> R t u \<Longrightarrow> R s u"
    and R_ids: "R s t \<Longrightarrow> ids_ok (rs_store s) \<Longrightarrow> ids_ok (rs_store t)"
    and R_evidence: "R s t \<Longrightarrow> holds env (rs_store s) e \<Longrightarrow> holds env (rs_store t) e"
    and R_internal: "rs_store t = rs_store s \<Longrightarrow> rs_effects t = rs_effects s \<Longrightarrow> R s t"
    and R_command: "own_cmd env rid c \<Longrightarrow>
      R s (s\<lparr>rs_store := snd (exec_cmd (re_store env) c (rs_store s)), rs_ticks := Suc (rs_ticks s)\<rparr>)"
    and R_others: "R s (snd (suspend env s))"
begin

definition okS :: "runner_state \<Rightarrow> evidence set \<Rightarrow> 'a runner \<Rightarrow> ('a \<Rightarrow> bool) \<Rightarrow> bool" where
  "okS s E m Q \<longleftrightarrow> ids_ok (rs_store s) \<longrightarrow> (\<forall>e \<in> E. holds env (rs_store s) e) \<longrightarrow>
     R s (snd (m s)) \<and> (\<forall>x. fst (m s) = Inr x \<longrightarrow> Q x)"

definition ok :: "evidence set \<Rightarrow> 'a runner \<Rightarrow> ('a \<Rightarrow> bool) \<Rightarrow> bool" where
  "ok E m Q \<longleftrightarrow> (\<forall>s. okS s E m Q)"

lemma okI: "(\<And>s. okS s E m Q) \<Longrightarrow> ok E m Q"
  by (simp add: ok_def)

lemma ok_at: "ok E m Q \<Longrightarrow> okS s E m Q"
  by (simp add: ok_def)

lemma okS_bind:
  assumes "okS s E m Q" and "\<And>x t. m s = (Inr x, t) \<Longrightarrow> Q x \<Longrightarrow> okS t E (f x) S"
  shows "okS s E (bindR m f) S"
proof -
  obtain r t where m: "m s = (r, t)" by (cases "m s")
  show ?thesis
  proof (cases r)
    case (Inl e)
    then show ?thesis using assms(1) m by (simp add: okS_def bindR_def)
  next
    case (Inr x)
    show ?thesis unfolding okS_def
    proof (intro impI)
      assume pre: "ids_ok (rs_store s)" "\<forall>e \<in> E. holds env (rs_store s) e"
      have st: "R s t" "Q x" using assms(1) pre m Inr by (auto simp: okS_def)
      have "okS t E (f x) S" using assms(2) m Inr st(2) by blast
      moreover have "ids_ok (rs_store t)" "\<forall>e \<in> E. holds env (rs_store t) e"
        using R_ids [OF st(1)] R_evidence [OF st(1)] pre by blast+
      ultimately have "R t (snd (f x t))" "\<forall>y. fst (f x t) = Inr y \<longrightarrow> S y" by (auto simp: okS_def)
      then show "R s (snd (bindR m f s)) \<and> (\<forall>y. fst (bindR m f s) = Inr y \<longrightarrow> S y)"
        using R_trans [OF st(1)] m Inr by (simp add: bindR_def)
    qed
  qed
qed

lemma ok_bind [ok_rule]:
  "ok E m Q \<Longrightarrow> (\<And>x. Q x \<Longrightarrow> ok E (f x) S) \<Longrightarrow> ok E (bindR m f) S"
  by (auto simp: ok_def intro: okS_bind)

lemma ok_then [ok_rule]: "ok E m (\<lambda>_. True) \<Longrightarrow> ok E n S \<Longrightarrow> ok E (thenR m n) S"
  unfolding thenR_def by (rule ok_bind)

lemma ok_ret [ok_rule]: "Q x \<Longrightarrow> ok E (retR x) Q"
  by (simp add: ok_def okS_def retR_def R_refl)

lemma ok_raise [ok_rule]: "ok E (raiseR e) Q"
  by (simp add: ok_def okS_def raiseR_def R_refl)

lemma ok_reraise [ok_rule]: "ok E (reraise e) Q"
  by (simp add: ok_def okS_def reraise_def R_refl)

lemma ok_liftE [ok_rule]: "ok E (liftE r) (\<lambda>x. r = Inr x)"
  by (cases r) (auto simp: liftE_def intro: ok_ret ok_raise)

lemma ok_liftE_tail [ok_tail]: "(\<And>x. r = Inr x \<Longrightarrow> Q x) \<Longrightarrow> ok E (liftE r) Q"
  by (cases r) (auto simp: liftE_def intro: ok_ret ok_raise)

lemma ok_get [ok_rule]: "ok E (getR f) (\<lambda>_. True)"
  by (simp add: ok_def okS_def getR_def R_refl)

lemma ok_modify:
  "(\<And>s. rs_store (f s) = rs_store s \<and> rs_effects (f s) = rs_effects s) \<Longrightarrow> ok E (modifyR f) (\<lambda>_. True)"
  by (simp add: ok_def okS_def modifyR_def R_internal)

lemma ok_if [ok_rule]: "(b \<Longrightarrow> ok E m Q) \<Longrightarrow> (\<not> b \<Longrightarrow> ok E n Q) \<Longrightarrow> ok E (if b then m else n) Q"
  by simp

lemma ok_option [ok_rule]:
  "(x = None \<Longrightarrow> ok E m Q) \<Longrightarrow> (\<And>y. x = Some y \<Longrightarrow> ok E (f y) Q) \<Longrightarrow>
     ok E (case x of None \<Rightarrow> m | Some y \<Rightarrow> f y) Q"
  by (cases x) auto

lemma ok_sum [ok_rule]:
  "(\<And>e. x = Inl e \<Longrightarrow> ok E (f e) Q) \<Longrightarrow> (\<And>y. x = Inr y \<Longrightarrow> ok E (g y) Q) \<Longrightarrow>
     ok E (case x of Inl e \<Rightarrow> f e | Inr y \<Rightarrow> g y) Q"
  by (cases x) auto

lemma ok_prod [ok_rule]:
  "(\<And>a b. x = (a, b) \<Longrightarrow> ok E (f a b) Q) \<Longrightarrow> ok E (case x of (a, b) \<Rightarrow> f a b) Q"
  by (cases x) auto

lemma ok_step_end [ok_rule]:
  "(\<And>r. x = Stop r \<Longrightarrow> ok E (f r) Q) \<Longrightarrow> (\<And>y. x = Go y \<Longrightarrow> ok E (g y) Q) \<Longrightarrow>
     ok E (case x of Stop r \<Rightarrow> f r | Go y \<Rightarrow> g y) Q"
  by (cases x) auto

lemma ok_or_cancelled [ok_rule]:
  "(c = None \<Longrightarrow> ok E m Q) \<Longrightarrow> (\<And>r. c = Some r \<Longrightarrow> ok E (stop r) Q) \<Longrightarrow> ok E (or_cancelled c m stop) Q"
  by (cases c) (auto simp: or_cancelled_def)

lemma ok_weaken: "ok E m P \<Longrightarrow> (\<And>x. P x \<Longrightarrow> Q x) \<Longrightarrow> E \<subseteq> E' \<Longrightarrow> ok E' m Q"
  unfolding ok_def okS_def by blast

lemma ok_try [ok_rule]:
  assumes "ok E m Q"
  shows "ok E (tryR m) (\<lambda>r. \<forall>x. r = Inr x \<longrightarrow> Q x)"
  using assms by (auto simp: ok_def okS_def tryR_def split: prod.splits sum.splits)

lemma ok_catch [ok_rule]:
  assumes "ok E m Q" and "\<And>e. ok E (h e) Q"
  shows "ok E (catchR m h) Q"
proof (rule okI)
  fix s
  obtain r t where m: "m s = (r, t)" by (cases "m s")
  show "okS s E (catchR m h) Q"
  proof (cases "\<exists>e. r = Inl e \<and> e \<noteq> Unfinished")
    case False
    then have "catchR m h s = m s" using m by (auto simp: catchR_def split: sum.splits)
    then show ?thesis using assms(1) by (simp add: ok_def okS_def)
  next
    case True
    then obtain e where e: "r = Inl e" "e \<noteq> Unfinished" by blast
    show ?thesis unfolding okS_def
    proof (intro impI)
      assume pre: "ids_ok (rs_store s)" "\<forall>e \<in> E. holds env (rs_store s) e"
      have st: "R s t" using assms(1) pre m by (auto simp: ok_def okS_def)
      moreover have "ids_ok (rs_store t)" "\<forall>e \<in> E. holds env (rs_store t) e"
        using R_ids [OF st(1)] R_evidence [OF st(1)] pre by blast+
      ultimately show "R s (snd (catchR m h s)) \<and> (\<forall>x. fst (catchR m h s) = Inr x \<longrightarrow> Q x)"
        using assms(2) [of e] e m R_trans [OF st] by (simp add: ok_def okS_def catchR_def)
    qed
  qed
qed

lemma ok_finally [ok_rule]:
  assumes "ok E m Q" and "ok E c (\<lambda>_. True)"
  shows "ok E (finallyR m c) Q"
proof (rule okI)
  fix s
  obtain r t where m: "m s = (r, t)" by (cases "m s")
  show "okS s E (finallyR m c) Q" unfolding okS_def
  proof (intro impI)
    assume pre: "ids_ok (rs_store s)" "\<forall>e \<in> E. holds env (rs_store s) e"
    have st: "R s t" "\<forall>x. r = Inr x \<longrightarrow> Q x" using assms(1) pre m by (auto simp: ok_def okS_def)
    moreover have "ids_ok (rs_store t)" "\<forall>e \<in> E. holds env (rs_store t) e"
      using R_ids [OF st(1)] R_evidence [OF st(1)] pre by blast+
    then have "R t (snd (c t))" using assms(2) by (simp add: ok_def okS_def)
    ultimately show "R s (snd (finallyR m c s)) \<and> (\<forall>x. fst (finallyR m c s) = Inr x \<longrightarrow> Q x)"
      using m R_trans [OF st(1)] by (auto simp: finallyR_def split: prod.splits sum.splits)
  qed
qed

end

section \<open>Store calls and bookkeeping\<close>

lemma transition_status:
  "transition_run env now utc rid v args s = (Inr r, s') \<Longrightarrow> run_status_of r = to_status args"
proof -
  assume t: "transition_run env now utc rid v args s = (Inr r, s')"
  then obtain cur where g: "guarded now s rid v (to_lease_owner args) = Inr cur"
    by (auto simp: transition_run_def)
  have "\<exists>s3. load_run env s3 (transitioned utc args cur) rid = Inr r"
    using t unfolding transition_run_def g attempt_op_simps attempt_op_Inr Let_def
    by (blast dest: and_then_answer)
  then show ?thesis using load_run_id by (fastforce simp: transitioned_def)
qed

lemma store_opE:
  assumes "store_op env f s = (Inr x, t)"
  shows "f (re_now env (rs_ticks s)) (re_utc env (rs_ticks s)) (rs_store s) = (Inr x, rs_store t)"
  using assms by (auto simp: store_op_def split: prod.splits sum.splits)

lemma transition_runner_status: "transition env run args s = (Inr r, t) \<Longrightarrow> run_status_of r = to_status args"
  unfolding transition_def by (drule store_opE) (rule transition_status)

lemma end_with_status: "end_with env run lease args s = (Inr r, t) \<Longrightarrow> run_status_of r = to_status args"
  by (auto simp: end_with_def bindR_def thenR_def retR_def split: prod.splits sum.splits
      dest: transition_runner_status)

context runner_steps
begin

lemma okS_known: "holds env (rs_store t) e \<Longrightarrow> okS t (insert e E) m Q \<Longrightarrow> okS t E m Q"
  by (simp add: okS_def)

lemma ok_bind_gain:
  assumes "ok E m Q" and "\<And>s x t. m s = (Inr x, t) \<Longrightarrow> G x \<Longrightarrow> holds env (rs_store t) e"
    and "\<And>x. Q x \<Longrightarrow> G x \<Longrightarrow> ok (insert e E) (f x) S" and "\<And>x. Q x \<Longrightarrow> \<not> G x \<Longrightarrow> ok E (f x) S"
  shows "ok E (bindR m f) S"
proof (rule okI, rule okS_bind)
  fix s show "okS s E m Q" using assms(1) by (simp add: ok_def)
next
  fix s x t assume m: "m s = (Inr x, t)" and q: "Q x"
  show "okS t E (f x) S"
  proof (cases "G x")
    case True
    then show ?thesis using assms(2) [OF m] assms(3) [OF q] ok_at okS_known by blast
  next
    case False
    then show ?thesis using assms(4) [OF q] by (simp add: ok_def)
  qed
qed

lemma ok_store_op:
  assumes "\<And>n st. \<exists>c. own_cmd env rid c
      \<and> snd (f (re_now env n) (re_utc env n) st) = snd (exec_cmd (re_store env) c st)"
    and "\<And>n st x st'. ids_ok st \<Longrightarrow> f (re_now env n) (re_utc env n) st = (Inr x, st') \<Longrightarrow> Q x"
  shows "ok E (store_op env f) Q"
proof (rule okI)
  fix s :: runner_state
  obtain c where c: "own_cmd env rid c"
    "snd (f (re_now env (rs_ticks s)) (re_utc env (rs_ticks s)) (rs_store s))
       = snd (exec_cmd (re_store env) c (rs_store s))" using assms(1) by blast
  have "snd (store_op env f s)
      = s\<lparr>rs_store := snd (exec_cmd (re_store env) c (rs_store s)), rs_ticks := Suc (rs_ticks s)\<rparr>"
    using c(2) by (auto simp: store_op_def split: prod.splits)
  then have "R s (snd (store_op env f s))" using R_command [OF c(1), of s] by simp
  moreover have "Q x" if "ids_ok (rs_store s)" "fst (store_op env f s) = Inr x" for x
  proof -
    have "f (re_now env (rs_ticks s)) (re_utc env (rs_ticks s)) (rs_store s)
        = (Inr x, rs_store (snd (store_op env f s)))"
      using that(2) store_opE [of env f s x "snd (store_op env f s)"] by (simp add: prod_eq_iff)
    then show ?thesis using assms(2) that(1) by blast
  qed
  ultimately show "okS s E (store_op env f) Q" by (simp add: okS_def)
qed

lemma ok_store_check:
  assumes "\<And>now utc st. snd (f now utc st) = st"
  shows "ok E (store_op env f) (\<lambda>_. True)"
proof (rule okI)
  fix s :: runner_state
  have "rs_store (snd (store_op env f s)) = rs_store s \<and> rs_effects (snd (store_op env f s)) = rs_effects s"
    using assms by (auto simp: store_op_def split: prod.splits) (metis snd_conv)
  then show "okS s E (store_op env f) (\<lambda>_. True)" by (simp add: okS_def R_internal)
qed

lemma ok_store_get [ok_rule]: "ok E (store_get f) (\<lambda>x. \<exists>st. ids_ok st \<and> f st = Inr x)"
  by (auto simp: ok_def okS_def store_get_def bindR_def getR_def liftE_def retR_def raiseR_def R_refl
      split: sum.splits)

lemmas ok_store_get_tail [ok_tail] = ok_weaken [OF ok_store_get _ subset_refl]

lemma ok_acquire [ok_rule]:
  assumes "of_run rid run"
  shows "ok E (acquire_run_lease env run) (held_by env)"
  unfolding acquire_run_lease_def
proof (rule ok_store_op)
  fix n st
  show "\<exists>c. own_cmd env rid c \<and> snd (acquire_lease (re_now env n) (run_id run) (re_owner env)
      (re_lease_ttl env) (run_version run) st) = snd (exec_cmd (re_store env) c st)"
    by (rule exI [of _ "Acquire (re_now env n) rid (re_owner env) (re_lease_ttl env) (run_version run)"])
      (simp add: own_cmd_def assms)
qed (auto simp: acquire_lease_def Let_def split: if_splits)

lemma ok_release [ok_rule]:
  assumes "r = rid" and "held_by env lease"
  shows "ok E (release_run_lease env r lease v) (\<lambda>_. True)"
  unfolding release_run_lease_def assms(1)
proof (rule ok_store_op)
  fix n :: nat and st
  show "\<exists>c. own_cmd env rid c \<and> snd (release_lease rid (lease_owner lease) v st)
      = snd (exec_cmd (re_store env) c st)"
    by (rule exI [of _ "Release rid (re_owner env) v"]) (simp add: own_cmd_def assms)
qed simp

lemma ok_transition [ok_rule]:
  assumes "of_run rid run" and "to_lease_owner args = Some (re_owner env)"
  shows "ok E (transition env run args) (\<lambda>r. of_run rid r \<and> run_status_of r = to_status args)"
  unfolding transition_def
proof (rule ok_store_op)
  fix n st
  show "\<exists>c. own_cmd env rid c \<and> snd (transition_run (re_store env) (re_now env n) (re_utc env n)
      (run_id run) (run_version run) args st) = snd (exec_cmd (re_store env) c st)"
    by (rule exI [of _ "Transition (re_now env n) (re_utc env n) rid (run_version run) args"])
      (simp add: own_cmd_def assms)
qed (use assms(1) in \<open>auto dest: transition_answer\<close>)

lemmas ok_transition_tail [ok_tail] = ok_weaken [OF ok_transition _ subset_refl]

lemma ok_write_step [ok_rule]:
  assumes "of_run rid run" and "held_by env lease"
  shows "ok E (write_step env run lease sid ty status code) (\<lambda>_. True)"
  unfolding write_step_def
proof (rule ok_then [OF ok_store_op ok_ret])
  fix n st
  let ?step = "\<lparr>step_id = sid, step_run_id = run_id run, step_type = ty, step_status = status,
        step_error_code = code, step_created_at = re_utc env n\<rparr>"
  show "\<exists>c. own_cmd env rid c \<and> snd (record_step (re_now env n) ?step (run_version run)
      (Some (lease_owner lease)) st) = snd (exec_cmd (re_store env) c st)"
    by (rule exI [of _ "Record_Step (re_now env n) ?step (run_version run) (Some (lease_owner lease))"])
      (simp add: own_cmd_def assms)
qed simp_all

lemma ok_write_attempt [ok_rule]:
  assumes "held_by env lease" and "attempt_run_id a = rid"
  shows "ok E (write_attempt env run lease a) (\<lambda>_. True)"
  unfolding write_attempt_def
proof (rule ok_then [OF ok_store_op ok_ret])
  fix n st
  let ?a = "a\<lparr>attempt_created_at := re_utc env n\<rparr>"
  show "\<exists>c. own_cmd env rid c \<and> snd (record_attempt (re_store env) (re_now env n) ?a (run_version run)
      (Some (lease_owner lease)) st) = snd (exec_cmd (re_store env) c st)"
    by (rule exI [of _ "Record_Attempt (re_now env n) ?a (run_version run) (Some (lease_owner lease))"])
      (simp add: own_cmd_def assms)
qed simp_all

lemma ok_write_checkpoint [ok_rule]:
  assumes "of_run rid run" and "held_by env lease"
  shows "ok E (write_checkpoint env run lease sid aid ty output) (\<lambda>_. True)"
  unfolding write_checkpoint_def
proof (rule ok_then [OF ok_store_op ok_ret])
  fix n st
  let ?c = "\<lparr>cp_run_id = run_id run, cp_step_id = sid, cp_attempt_id = aid, cp_step_type = ty,
        cp_output = output, cp_created_at = re_utc env n\<rparr>"
  show "\<exists>c. own_cmd env rid c \<and> snd (record_checkpoint (re_store env) (re_now env n) ?c (run_version run)
      (Some (lease_owner lease)) st) = snd (exec_cmd (re_store env) c st)"
    by (rule exI [of _ "Record_Checkpoint (re_now env n) ?c (run_version run) (Some (lease_owner lease))"])
      (simp add: own_cmd_def assms)
qed simp_all

lemma ok_write_decision [ok_rule]:
  assumes "of_run rid run" and "held_by env lease"
  shows "ok E (write_decision env run lease gate payload i d) (\<lambda>_. True)"
  unfolding write_decision_def
proof (rule ok_then [OF ok_store_op ok_ret])
  fix n st
  let ?d = "policy_record env run gate payload i d (re_utc env n)"
  show "\<exists>c. own_cmd env rid c \<and> snd (record_policy_decision (re_now env n) ?d (run_version run)
      (Some (lease_owner lease)) st) = snd (exec_cmd (re_store env) c st)"
    by (rule exI [of _ "Record_Policy (re_now env n) ?d (run_version run) (Some (lease_owner lease))"])
      (simp add: own_cmd_def assms policy_record_def)
qed simp_all

lemma ok_reserve [ok_rule]:
  assumes "of_run rid run" and "held_by env lease"
  shows "ok E (reserve_attempt env run lease sid aid p) (\<lambda>_. True)"
proof (cases "run_snapshot run")
  case (Some snap)
  let ?step = "\<lambda>n. \<lparr>step_id = sid, step_run_id = run_id run, step_type = STEP_MODEL,
             step_status = STEP_RUNNING, step_error_code = None, step_created_at = re_utc env n\<rparr>"
  let ?a = "\<lambda>n. (attempt_of_step run sid aid STEP_RUNNING)\<lparr>attempt_model_purpose := Some p,
               attempt_created_at := re_utc env n\<rparr>"
  let ?m = "map_option run_max_attempts (snap_model_execution_budget snap)"
  let ?k = "map_option (\<lambda>b. maximum_for b p) (snap_model_execution_budget snap)"
  show ?thesis unfolding reserve_attempt_def Some option.case
  proof (rule ok_store_op)
    fix n st
    show "\<exists>c. own_cmd env rid c \<and> snd (reserve_model_attempt (re_store env) (re_now env n) (?step n) (?a n)
        ?m ?k (run_version run) (lease_owner lease) st) = snd (exec_cmd (re_store env) c st)"
      by (rule exI [of _ "Reserve (re_now env n) (?step n) (?a n) ?m ?k (run_version run) (lease_owner lease)"])
        (simp add: own_cmd_def assms attempt_of_step_def)
  qed simp
qed (simp add: reserve_attempt_def ok_raise)

end

end
