(* ===== verification/Runner_Rules.thy ===== *)
theory Runner_Rules
  imports Runner_Logic
begin

text \<open>
  The triples of the logic for every coroutine of the Runner: first those that make no external
  call, then, in the locale with external calls, the Steps, the loop, recovery and the entry
  points.
\<close>

section \<open>Coroutines without external calls\<close>

lemma plain_args_owner [simp]: "to_lease_owner (plain_args st lease) = Some (lease_owner lease)"
  "to_status (plain_args st lease) = st"
  by (simp_all add: plain_args_def)

lemma attempt_of_step_run [simp]: "attempt_run_id (attempt_of_step run sid aid st) = run_id run"
  "attempt_id (attempt_of_step run sid aid st) = aid"
  by (simp_all add: attempt_of_step_def)

context runner_steps
begin

lemma ok_attempts_of [ok_rule]: "ok E (attempts_of env run) (\<lambda>_. True)"
  unfolding attempts_of_def by (rule ok_rule | rule ok_tail | (clarsimp; fail))+

lemma ok_checkpoints_of [ok_rule]: "ok E (checkpoints_of env run) (\<lambda>_. True)"
  unfolding checkpoints_of_def by (rule ok_rule | rule ok_tail | (clarsimp; fail))+

lemma ok_new_id [ok_rule]: "ok E (new_id env) (\<lambda>_. True)"
  by (simp add: ok_def okS_def new_id_def R_internal)

lemma ok_id_or_new [ok_rule]: "ok E (id_or_new env x) (\<lambda>_. True)"
  unfolding id_or_new_def by (rule ok_rule | rule ok_tail | (clarsimp; fail))+

lemma ok_suspend [ok_rule]: "ok E (suspend env) (\<lambda>_. True)"
  by (simp add: ok_def okS_def R_others)

lemma ok_publish [ok_rule]: "ok E (publish x) (\<lambda>_. True)"
  unfolding publish_def by (rule ok_modify) simp

lemma ok_publish_status [ok_rule]: "ok E (publish_status r st) (\<lambda>_. True)"
  unfolding publish_status_def by (rule ok_publish)

lemma ok_cancel_requested [ok_rule]: "ok E (cancel_requested r) (\<lambda>_. True)"
  unfolding cancel_requested_def by (rule ok_rule | rule ok_tail | (clarsimp; fail))+

lemma ok_cancel_marks [ok_rule]:
  "ok E (request_cancel r) (\<lambda>_. True)" "ok E (clear_cancel r) (\<lambda>_. True)" "ok E (set_active r b) (\<lambda>_. True)"
  unfolding request_cancel_def clear_cancel_def set_active_def by (rule ok_modify, simp)+

lemma ok_end_with [ok_rule]:
  assumes "of_run rid run" and "held_by env lease" and "to_lease_owner args = Some (re_owner env)"
  shows "ok E (end_with env run lease args) (\<lambda>r. of_run rid r \<and> run_status_of r = to_status args)"
  unfolding end_with_def by (rule ok_rule | rule ok_tail | (clarsimp simp: assms; fail))+

lemmas ok_end_with_tail [ok_tail] = ok_weaken [OF ok_end_with _ subset_refl]

lemma ok_maybe_cancel [ok_rule]:
  assumes "of_run rid run" and "held_by env lease"
  shows "ok E (maybe_cancel env run lease) (\<lambda>c. \<forall>r. c = Some r \<longrightarrow> of_run rid r)"
  unfolding maybe_cancel_def by (rule ok_rule | rule ok_tail | (clarsimp simp: assms; fail))+

lemma ok_assert_dispatch [ok_rule]: "ok E (assert_step_dispatch env run lease) (\<lambda>_. True)"
  unfolding assert_step_dispatch_def by (rule ok_store_check) simp

lemma ok_prepare_dispatch [ok_rule]: "ok E (prepare_dispatch env run lease g) (\<lambda>_. True)"
  unfolding prepare_dispatch_def by (rule ok_store_check) simp

lemma ok_get_existing [ok_rule]: "ok E (get_existing_run env rid) (of_run rid)"
  unfolding get_existing_run_def
proof (rule ok_bind [OF ok_store_get])
  fix x assume "\<exists>st. ids_ok st \<and> get_run (re_store env) rid st = Inr x"
  then have "\<forall>r. x = Some r \<longrightarrow> of_run rid r"
    by (auto simp: get_run_def bindE_eq_Inr ids_ok_def split: option.splits dest!: load_run_id)
  then show "ok E (case x of None \<Rightarrow> raiseR RunNotFoundError | Some run \<Rightarrow> retR run) (of_run rid)"
    by (cases x) (auto intro: ok_ret ok_raise)
qed

lemma ok_release_quietly [ok_rule]:
  "r = rid \<Longrightarrow> held_by env lease \<Longrightarrow> ok E (release_quietly env r lease) (\<lambda>_. True)"
  unfolding release_quietly_def by (rule ok_rule | rule ok_tail | (clarsimp; fail))+

lemma ok_record_failed_attempt [ok_rule]:
  assumes "of_run rid run" and "held_by env lease"
  shows "ok E (record_failed_attempt env run lease sid failure ty aid pur usage) (\<lambda>_. True)"
  unfolding record_failed_attempt_def by (rule ok_rule | rule ok_tail | (clarsimp simp: assms; fail))+

lemma ok_record_failed_step [ok_rule]:
  assumes "of_run rid run" and "held_by env lease"
  shows "ok E (record_failed_step env run lease sid ty code) (\<lambda>_. True)"
  unfolding record_failed_step_def by (rule ok_rule | rule ok_tail | (clarsimp simp: assms; fail))+

lemma ok_sleep [ok_rule]: "ok E (sleep env policy) (\<lambda>_. True)"
  unfolding sleep_def by (rule ok_rule | rule ok_tail | (clarsimp; fail))+

lemma ok_fail_run [ok_rule]:
  assumes "of_run rid run" and "held_by env lease"
  shows "ok E (fail_run env run lease code) (of_run rid)"
  unfolding fail_run_def by (rule ok_tail | (clarsimp simp: assms; fail))+

lemma ok_terminate_run [ok_rule]:
  assumes "of_run rid run" and "held_by env lease"
  shows "ok E (terminate_run env run lease st) (\<lambda>r. of_run rid r \<and> run_status_of r = st)"
  unfolding terminate_run_def by (rule ok_tail | (clarsimp simp: assms; fail))+

lemmas ok_terminate_tail [ok_tail] = ok_weaken [OF ok_terminate_run _ subset_refl]

lemma ok_find_tool [ok_rule]: "ok E (find_tool d name) (\<lambda>_. True)"
  unfolding find_tool_def by (rule ok_rule | rule ok_tail | (clarsimp; fail))+

lemma ok_contract_check [ok_rule]: "ok E (assert_adapter_contract_matches_snapshot env run d) (\<lambda>_. True)"
  unfolding assert_adapter_contract_matches_snapshot_def by (rule ok_rule | rule ok_tail | (clarsimp; fail))+

lemma ok_record_pending [ok_rule]:
  assumes "of_run rid run" and "held_by env lease"
  shows "ok E (record_pending_tool_outcome env run lease sid outcome aid) (\<lambda>_. True)"
  unfolding record_pending_tool_outcome_def by (rule ok_rule | rule ok_tail | (clarsimp simp: assms; fail))+

lemma ok_fail_gated [ok_rule]:
  assumes "of_run rid run" and "held_by env lease"
  shows "ok E (fail_gated_step env run lease ga code message) (\<lambda>_. True)"
  unfolding fail_gated_step_def by (rule ok_rule | rule ok_tail | (clarsimp simp: assms; fail))+

lemma ok_action [ok_rule]:
  "(x = ALLOW \<Longrightarrow> ok E m1 Q) \<Longrightarrow> (x = REJECT \<Longrightarrow> ok E m2 Q) \<Longrightarrow> (x = REQUIRE_RESOLUTION \<Longrightarrow> ok E m3 Q)
     \<Longrightarrow> ok E (case x of ALLOW \<Rightarrow> m1 | REJECT \<Rightarrow> m2 | REQUIRE_RESOLUTION \<Rightarrow> m3) Q"
  by (cases x) auto

lemma ok_enforce_policy [ok_rule]:
  assumes "of_run rid run" and "held_by env lease"
  shows "ok E (enforce_policy env run d lease gate payload ga) (\<lambda>r. of_run rid r \<and> (r = run \<or> run_status_of r \<notin> {RUNNING, CREATED, SUCCEEDED}))"
  unfolding enforce_policy_def Let_def fail_run_def by (rule ok_rule | rule ok_tail | (clarsimp simp: assms; fail))+

lemmas ok_enforce_policy_tail [ok_tail] = ok_weaken [OF ok_enforce_policy _ subset_refl]

lemma ok_checkpoint_outcome [ok_rule]:
  assumes "of_run rid run" and "held_by env lease"
  shows "ok E (checkpoint_tool_outcome env run lease sid outcome aid) (\<lambda>_. True)"
  unfolding checkpoint_tool_outcome_def by (rule ok_rule | rule ok_tail | (clarsimp simp: assms; fail))+

lemma ok_pending_outcome [ok_rule]: "ok E (pending_tool_outcome env run sid) (\<lambda>_. True)"
  unfolding pending_tool_outcome_def by (rule ok_rule | rule ok_tail | (clarsimp; fail))+

lemma ok_waiting [ok_rule]:
  assumes "of_run rid run" and "held_by env lease"
  shows "ok E (enter_waiting_definition_unavailable env run lease) (of_run rid)"
    and "ok E (enter_waiting_policy_outcome env run lease sid) (of_run rid)"
    and "ok E (enter_waiting_uncertain env run lease sid) (of_run rid)"
  unfolding enter_waiting_definition_unavailable_def enter_waiting_policy_outcome_def
    enter_waiting_uncertain_def
  by (rule ok_rule | rule ok_tail | (clarsimp simp: assms; fail))+

lemma ok_waiting_unconfirmed [ok_rule]:
  assumes "of_run rid run" and "held_by env lease"
  shows "ok E (enter_waiting_unconfirmed env run lease sid' aid) (of_run rid)"
  unfolding enter_waiting_unconfirmed_def by (rule ok_rule | rule ok_tail | (clarsimp simp: assms; fail))+

lemma ok_waiting_preserving [ok_rule]:
  assumes "of_run rid run" and "held_by env lease"
  shows "ok E (enter_waiting_preserving_failure env run lease sid inflight) (of_run rid)"
  unfolding enter_waiting_preserving_failure_def Let_def by (rule ok_rule | rule ok_tail | (clarsimp simp: assms; fail))+

lemma ok_fail_missing [ok_rule]:
  assumes "of_run rid run" and "held_by env lease"
  shows "ok E (fail_missing_frozen_tool_declaration env run lease name) (of_run rid)"
  unfolding fail_missing_frozen_tool_declaration_def by (rule ok_rule | rule ok_tail | (clarsimp simp: assms; fail))+

text \<open>Ending a WAITING Run, cancelling and creating.\<close>

lemma ok_end_waiting:
  assumes "res_action res \<in> {FAIL_RUN, CANCEL_RUN}"
  shows "ok E (resolve_run fuel env rid res v)
     (\<lambda>r. of_run rid r \<and> run_status_of r = (if res_action res = FAIL_RUN then FAILED else CANCELLED))"
proof -
  have lease: "ok E (resolve_with_lease fuel env rid res v lease)
     (\<lambda>r. of_run rid r \<and> run_status_of r = (if res_action res = FAIL_RUN then FAILED else CANCELLED))"
    if "held_by env lease" for lease
    using assms unfolding resolve_with_lease_def
    by (elim insertE emptyE; simp only: resolution_action.case)
      (rule ok_rule | rule ok_tail | (clarsimp simp: that; fail))+
  have "\<not> (res_action res = CONFIRM_STEP \<and> (res_result res = None \<or> res_result res = Some []))"
    "res_action res \<notin> {RETRY_STEP, CONFIRM_STEP, CONTINUE_RUN}" using assms by auto
  then show ?thesis
    unfolding resolve_run_def
    by (simp only: if_False) (rule lease ok_rule | rule ok_tail | (clarsimp; fail))+
qed

lemma ok_note_cancellation [ok_rule]:
  "ok E (note_cancellation env rid run expected) (of_run rid)"
  unfolding note_cancellation_def by (rule ok_rule | rule ok_tail | (clarsimp; fail))+

lemma ok_try_acquire [ok_rule]:
  "of_run rid run \<Longrightarrow> ok E (try_acquire env run) (\<lambda>l. \<forall>x. l = Some x \<longrightarrow> held_by env x)"
  unfolding try_acquire_def by (rule ok_rule | rule ok_tail | (clarsimp; fail))+

lemma ok_cancel_created [ok_rule]:
  assumes "held_by env lease"
  shows "ok E (cancel_created env rid expected lease) (of_run rid)"
  unfolding cancel_created_def by (rule ok_rule | rule ok_tail | (clarsimp simp: assms; fail))+

lemma ok_cancel_run: "ok E (cancel_run fuel env rid expected) (of_run rid)"
  unfolding cancel_run_def
  by (rule ok_weaken [OF ok_end_waiting _ subset_refl] ok_rule | rule ok_tail | (clarsimp; fail))+

end

section \<open>What a completed record proves\<close>

lemma record_attempt_id:
  "record_attempt env now a v ow s = (Inr y, s') \<Longrightarrow>
     attempt_id a \<in> sa_attempt_id ` set (entries (attempts s') (attempt_run_id a))"
  by (auto simp: record_attempt_def split_attempt_def bindE_eq_Inr attempt_metadata_def keys_upsert)

lemma record_policy_in:
  "record_policy_decision now d v ow s = (Inr y, s') \<Longrightarrow> d \<in> set (get_policy_decisions (pdr_run_id d) s')"
  by (auto simp: record_policy_decision_def get_policy_decisions_def)

lemma reserve_id:
  "reserve_model_attempt env now st a m1 m2 v owner s = (Inr True, s') \<Longrightarrow>
     attempt_id a \<in> sa_attempt_id ` set (entries (attempts s') (attempt_run_id a))"
  by (auto dest!: reserve_granted simp: attempt_metadata_def)

lemma write_attempt_recorded:
  assumes "write_attempt env run lease a s = (Inr x, t)"
  shows "holds env (rs_store t) (Attempted (attempt_run_id a) (attempt_id a))"
proof -
  obtain u y where w: "store_op env (\<lambda>now utc. record_attempt (re_store env) now
       (a\<lparr>attempt_created_at := utc\<rparr>) (run_version run) (Some (lease_owner lease))) s = (Inr y, u)"
    and t: "t = u"
    using assms by (auto simp: write_attempt_def bindR_def thenR_def retR_def split: prod.splits sum.splits)
  from record_attempt_id [OF store_opE [OF w]] show ?thesis by (simp add: t)
qed

lemma write_decision_recorded:
  assumes "write_decision env run lease gate payload i d s = (Inr x, t)" and "decision_action d = ALLOW"
  shows "holds env (rs_store t) (Allowed (run_id run) gate payload)"
proof -
  obtain u y where w: "store_op env (\<lambda>now utc. record_policy_decision now
       (policy_record env run gate payload i d utc) (run_version run) (Some (lease_owner lease))) s = (Inr y, u)"
    and t: "t = u"
    using assms(1) by (auto simp: write_decision_def bindR_def thenR_def retR_def split: prod.splits sum.splits)
  let ?r = "policy_record env run gate payload i d (re_utc env (rs_ticks s))"
  have "?r \<in> set (get_policy_decisions (run_id run) (rs_store u))"
    using record_policy_in [OF store_opE [OF w]] by (simp add: policy_record_def)
  moreover have "pdr_gate ?r = gate \<and> pdr_action ?r = ALLOW \<and> pdr_input_summary ?r = re_summary env payload"
    by (simp add: policy_record_def assms(2))
  ultimately show ?thesis unfolding t holds.simps by blast
qed

lemma fail_run_status: "fail_run env run lease code s = (Inr r, t) \<Longrightarrow> run_status_of r = FAILED"
  unfolding fail_run_def by (drule end_with_status) simp

lemma bindR_result: "bindR m f s = (Inr y, u) \<longleftrightarrow> (\<exists>x t. m s = (Inr x, t) \<and> f x t = (Inr y, u))"
  by (auto simp: bindR_def split: prod.splits sum.splits)

lemma thenR_result: "thenR m n s = (Inr y, u) \<longleftrightarrow> (\<exists>x t. m s = (Inr x, t) \<and> n t = (Inr y, u))"
  by (simp add: thenR_def bindR_result)

lemma enforce_policy_allowed:
  assumes "enforce_policy env run d lease gate payload ga s = (Inr r, t)" and "run_status_of r = RUNNING"
  shows "holds env (rs_store t) (Allowed (run_id run) gate payload)"
proof (cases "policy_verdict run d gate payload")
  case (Inl e)
  then show ?thesis
    using assms by (auto simp: enforce_policy_def thenR_result Let_def dest!: fail_run_status)
next
  case (Inr v)
  obtain i dcn where v: "v = (i, dcn)" by (cases v)
  show ?thesis
  proof (cases "decision_action dcn")
    case ALLOW
    then have "write_decision env run lease gate payload i dcn s = (Inr (), t)"
      using assms(1) Inr v by (auto simp: enforce_policy_def thenR_result retR_def)
    then show ?thesis using ALLOW by (rule write_decision_recorded)
  qed (use assms Inr v in \<open>auto simp: enforce_policy_def thenR_result dest!: end_with_status\<close>)
qed

lemma reserve_attempt_recorded:
  assumes "reserve_attempt env run lease sid aid p s = (Inr True, t)"
  shows "holds env (rs_store t) (Attempted (run_id run) aid)"
proof (cases "run_snapshot run")
  case (Some snap)
  from reserve_id [OF store_opE [OF assms [unfolded reserve_attempt_def Some option.case]]]
  show ?thesis by (simp add: attempt_of_step_def)
qed (use assms in \<open>simp add: reserve_attempt_def raiseR_def\<close>)

lemma reserve_dispatch_recorded:
  assumes "reserve_dispatch env run d lease sid aid p contract request streams s = (Inr (Go x), t)"
  shows "holds env (rs_store t) (Attempted (run_id run) aid)"
proof -
  obtain u where "reserve_attempt env run lease sid aid p u = (Inr True, t)"
    using assms
    by (auto simp: reserve_dispatch_def thenR_result bindR_result or_cancelled_def retR_def
        split: option.splits if_splits)
  then show ?thesis by (rule reserve_attempt_recorded)
qed

section \<open>Parts of Steps without external calls\<close>

context runner_steps
begin

lemma ok_accept_outcome [ok_rule]:
  assumes "of_run rid run" and "held_by env lease"
  shows "ok E (accept_outcome env run d lease call sid aid reply) (\<lambda>e. \<forall>r. e = Stop r \<longrightarrow> of_run rid r)"
proof (cases reply)
  case (Returned x)
  show ?thesis unfolding accept_outcome_def Returned tool_reply.case
    by (rule ok_rule | rule ok_tail | (clarsimp simp: assms; fail))+
qed

lemma ok_tool_failed [ok_rule]:
  assumes "of_run rid run" and "held_by env lease"
  shows "ok E (tool_failed env run lease sid aid effect policy count e)
     (\<lambda>x. \<forall>r out. x = Some (r, out) \<longrightarrow> of_run rid r)"
  unfolding tool_failed_def by (rule ok_rule | rule ok_tail | (clarsimp simp: assms; fail))+

lemma ok_stop_model_step [ok_rule]:
  assumes "of_run rid run" and "held_by env lease"
  shows "ok E (stop_model_step env run lease sid code) (of_run rid)"
  unfolding stop_model_step_def by (rule ok_rule | rule ok_tail | (clarsimp simp: assms; fail))+

lemma ok_reserve_dispatch [ok_rule]:
  assumes "of_run rid run" and "held_by env lease"
  shows "ok E (reserve_dispatch env run d lease sid aid p contract request streams)
     (\<lambda>e. \<forall>r. e = Stop r \<longrightarrow> of_run rid r)"
  unfolding reserve_dispatch_def by (rule ok_rule | rule ok_tail | (clarsimp simp: assms; fail))+

lemma ok_close_cancelled [ok_rule]:
  assumes "of_run rid run" and "held_by env lease"
  shows "ok E (close_cancelled_dispatch env run lease sid aid p message) (\<lambda>c. \<forall>r. c = Some r \<longrightarrow> of_run rid r)"
  unfolding close_cancelled_dispatch_def by (rule ok_rule | rule ok_tail | (clarsimp simp: assms; fail))+

lemma ok_liftF [ok_rule]: "ok E (liftF r) (\<lambda>_. True)"
  unfolding liftF_def by (rule ok_rule | (clarsimp; fail))+

lemma ok_accept_response [ok_rule]:
  "ok E (accept_response env run d a contract request streams t reply) (\<lambda>_. True)"
  unfolding accept_response_def by (rule ok_rule | rule ok_tail | (clarsimp; fail))+

lemma ok_model_failed [ok_rule]:
  assumes "of_run rid run" and "held_by env lease"
  shows "ok E (model_failed env run lease sid aid p policy count reserved usage e)
     (\<lambda>x. \<forall>r out. x = Some (r, out) \<longrightarrow> of_run rid r)"
  unfolding model_failed_def Let_def by (rule ok_rule | rule ok_tail | (clarsimp simp: assms; fail))+

lemma ok_checkpoint_response [ok_rule]:
  assumes "of_run rid run" and "held_by env lease"
  shows "ok E (checkpoint_response env run lease sid aid p response) (\<lambda>_. True)"
  unfolding checkpoint_response_def by (rule ok_rule | rule ok_tail | (clarsimp simp: assms; fail))+

lemma ok_context_failed [ok_rule]:
  assumes "of_run rid run" and "held_by env lease"
  shows "ok E (context_failed env run lease sid aid e) (\<lambda>x. of_run rid (fst x))"
  unfolding context_failed_def by (rule ok_rule | rule ok_tail | (clarsimp simp: assms; fail))+

lemma ok_checkpoint_context [ok_rule]:
  assumes "of_run rid run" and "held_by env lease"
  shows "ok E (checkpoint_context env run lease sid aid payload) (\<lambda>_. True)"
  unfolding checkpoint_context_def by (rule ok_rule | rule ok_tail | (clarsimp simp: assms; fail))+

lemma ok_fail_compression [ok_rule]:
  assumes "of_run rid run" and "held_by env lease"
  shows "ok E (fail_compression_evidence env run lease cp) (of_run rid)"
  unfolding fail_compression_evidence_def Let_def by (rule ok_rule | rule ok_tail | (clarsimp simp: assms; fail))+

lemma ok_bad_evidence [ok_rule]:
  "ok E bad Q \<Longrightarrow> (\<And>x. r = Inr x \<Longrightarrow> ok E (g x) Q) \<Longrightarrow> ok E (or_bad_evidence r bad g) Q"
  unfolding or_bad_evidence_def by (rule ok_rule | assumption | (clarsimp; fail))+

lemma ok_succeed_run [ok_rule]:
  assumes "of_run rid run" and "held_by env lease"
  shows "ok E (succeed_run env run lease output) (of_run rid)"
  unfolding succeed_run_def by (rule ok_rule | rule ok_tail | (clarsimp simp: assms; fail))+

lemma ok_fail_strict [ok_rule]:
  assumes "of_run rid run" and "held_by env lease"
  shows "ok E (fail_strict_output_contract env run lease code) (of_run rid)"
  unfolding fail_strict_output_contract_def Let_def by (rule ok_rule | rule ok_tail | (clarsimp simp: assms; fail))+

lemma ok_advancing [ok_rule]: "ok E m Q \<Longrightarrow> ok E (advancing r m) Q"
  unfolding advancing_def by (rule ok_rule | assumption)+

lemma ok_definition_of [ok_rule]: "ok E (definition_of env run) (\<lambda>_. True)"
  unfolding definition_of_def by (rule ok_tail) simp

lemma ok_stream_event:
  assumes "\<And>c. x = S_Delta c \<Longrightarrow> ok E (f c) Q" and "\<And>r. x = S_Response r \<Longrightarrow> ok E (g r) Q"
    and "x = S_Other \<Longrightarrow> ok E m Q" and "\<And>e. x = S_Raise e \<Longrightarrow> ok E (h e) Q"
  shows "ok E (case x of S_Delta c \<Rightarrow> f c | S_Response r \<Rightarrow> g r | S_Other \<Rightarrow> m | S_Raise e \<Rightarrow> h e) Q"
  using assms by (cases x) auto

lemma ok_consume_stream [ok_rule]:
  "ok E (consume_stream env run sid aid evs response) (\<lambda>_. True)"
proof (induction evs arbitrary: response)
  case Nil
  show ?case unfolding consume_stream.simps by (rule ok_rule | rule ok_tail | (clarsimp; fail))+
next
  case (Cons ev evs)
  show ?case unfolding consume_stream.simps
    by (rule Cons.IH ok_stream_event ok_rule | rule ok_tail | (clarsimp; fail))+
qed

end

section \<open>External calls\<close>

locale runner_dispatch = runner_steps +
  assumes R_effect: "evidenced env (rs_store s) call \<Longrightarrow> R s (s\<lparr>rs_effects := rs_effects s @ [call]\<rparr>)"
begin

lemma ok_effect:
  "evidence_for call \<subseteq> E \<Longrightarrow> ok E (modifyR (\<lambda>s. s\<lparr>rs_effects := rs_effects s @ [call]\<rparr>)) (\<lambda>_. True)"
  unfolding ok_def okS_def modifyR_def by (simp, blast intro: R_effect [unfolded evidenced_def])

lemma ok_external [ok_rule]:
  "evidence_for call \<subseteq> E \<Longrightarrow> ok E (external env call answer) (\<lambda>_. True)"
  unfolding external_def by (rule ok_effect ok_rule | (clarsimp; fail))+

lemma ok_then_attempt:
  assumes "held_by env lease" and "attempt_run_id a = rid"
    and "ok (insert (Attempted rid (attempt_id a)) E) n S"
  shows "ok E (thenR (write_attempt env run lease a) n) S"
  unfolding thenR_def
  by (rule ok_bind_gain [where G = "\<lambda>_. True", OF ok_write_attempt [OF assms(1,2)] _ assms(3)])
    (use assms(2) write_attempt_recorded in auto)

lemma ok_bind_enforce:
  assumes "of_run rid run" and "held_by env lease"
    and "\<And>r. r = run \<Longrightarrow> run_status_of r = RUNNING \<Longrightarrow> ok (insert (Allowed rid gate payload) E) (f r) S"
    and "\<And>r. of_run rid r \<Longrightarrow> run_status_of r \<noteq> RUNNING \<Longrightarrow> ok E (f r) S"
  shows "ok E (bindR (enforce_policy env run d lease gate payload ga) f) S"
  by (rule ok_bind_gain [where G = "\<lambda>r. run_status_of r = RUNNING", OF ok_enforce_policy [OF assms(1,2)]])
    (use assms enforce_policy_allowed in auto)

section \<open>Steps\<close>

lemma ok_dispatch_tool [ok_rule]:
  assumes "of_run rid run" and "held_by env lease" and "Attempted rid aid \<in> E"
  shows "ok E (dispatch_tool env run d lease call sid aid effect) (\<lambda>e. \<forall>r. e = Stop r \<longrightarrow> of_run rid r)"
  unfolding dispatch_tool_def Let_def
  by (rule ok_bind_enforce ok_rule | (clarsimp simp: assms call_fields_def; fail))+

lemma ok_tool_attempt [ok_rule]:
  assumes "of_run rid run" and "held_by env lease"
  shows "ok E (tool_attempt env run d lease call sid effect policy count)
     (\<lambda>x. \<forall>r out. x = Some (r, out) \<longrightarrow> of_run rid r)"
  unfolding tool_attempt_def
  by (rule ok_then_attempt ok_rule | rule ok_tail | (clarsimp simp: assms; fail))+

text \<open>A loop whose body says \<open>continue\<close> only while its counter is below a bound.\<close>

lemma ok_retry:
  assumes loop: "\<And>n s. loop n s = bindR (body (n + 1)) (\<lambda>r t. case r of Some x \<Rightarrow> retR x t | None \<Rightarrow> loop (n + 1) t) s"
    and body: "\<And>n. ok E (body n) (\<lambda>x. \<forall>y. x = Some y \<longrightarrow> Q y)"
    and bound: "\<And>n s t. body n s = (Inr None, t) \<Longrightarrow> n < (m :: int)"
  shows "ok E (loop n) Q"
proof (rule okI)
  fix s show "okS s E (loop n) Q"
  proof (induction "nat (m - n)" arbitrary: n s rule: less_induct)
    case less
    have "okS s E (bindR (body (n + 1)) (\<lambda>r t. case r of Some x \<Rightarrow> retR x t | None \<Rightarrow> loop (n + 1) t)) Q"
    proof (rule okS_bind [OF ok_at [OF body]])
      fix r t assume r: "body (n + 1) s = (Inr r, t)" "\<forall>y. r = Some y \<longrightarrow> Q y"
      show "okS t E (\<lambda>t. case r of Some x \<Rightarrow> retR x t | None \<Rightarrow> loop (n + 1) t) Q"
      proof (cases r)
        case None
        then have "n + 1 < m" using bound r(1) by blast
        then show ?thesis using less [of "n + 1" t] None by simp
      next
        case (Some x)
        then show ?thesis using r(2) ok_at [OF ok_ret [of Q x E], of t] by simp
      qed
    qed
    then show ?case by (simp add: okS_def loop [symmetric])
  qed
qed

lemma ok_tool_loop [ok_rule]:
  assumes "of_run rid run" and "held_by env lease"
  shows "ok E (tool_loop env run d lease call sid effect policy count) (\<lambda>x. of_run rid (fst x))"
proof (rule ok_retry [where loop = "tool_loop env run d lease call sid effect policy"
      and body = "tool_attempt env run d lease call sid effect policy"
      and m = "case policy of None \<Rightarrow> 0 | Some p \<Rightarrow> max_attempts p"])
  fix n
  show "ok E (tool_attempt env run d lease call sid effect policy n) (\<lambda>x. \<forall>y. x = Some y \<longrightarrow> of_run rid (fst y))"
    by (rule ok_weaken [OF ok_tool_attempt [OF assms]]) auto
qed (auto intro: tool_loop.simps dest: tool_attempt_continue)

lemma ok_run_tool_step [ok_rule]:
  assumes "of_run rid run" and "held_by env lease"
  shows "ok E (run_tool_step env run d lease call step replay explicit) (\<lambda>x. of_run rid (fst x))"
  unfolding run_tool_step_def Let_def by (rule ok_rule | rule ok_tail | (clarsimp simp: assms; fail))+

lemma ok_stream_model [ok_rule]:
  "of_run rid run \<Longrightarrow> Attempted rid aid \<in> E \<Longrightarrow> ok E (stream_model env a request run sid aid p) (\<lambda>_. True)"
  unfolding stream_model_def by (rule ok_effect ok_rule | rule ok_tail | (clarsimp; fail))+

lemma ok_invoke_model [ok_rule]:
  assumes "of_run rid run" and "held_by env lease" and "Attempted rid aid \<in> E"
  shows "ok E (invoke_model env run lease a sid aid p request streams)
     (\<lambda>e. \<forall>r. e = Stop r \<longrightarrow> of_run rid r)"
  unfolding invoke_model_def by (rule ok_rule | rule ok_tail | (clarsimp simp: assms; fail))+

lemma ok_call_model [ok_rule]:
  assumes "of_run rid run" and "held_by env lease" and "Attempted rid aid \<in> E"
  shows "ok E (call_model env run d lease a sid aid p contract request streams)
     (\<lambda>e. \<forall>r. e = Stop r \<longrightarrow> of_run rid r)"
  unfolding call_model_def by (rule ok_rule | rule ok_tail | (clarsimp simp: assms; fail))+

lemma ok_bind_reserve:
  assumes "of_run rid run" and "held_by env lease"
    and "\<And>e. ok E (f (Inl e)) S" and "\<And>r. of_run rid r \<Longrightarrow> ok E (f (Inr (Stop r))) S"
    and "ok (insert (Attempted rid aid) E) (f (Inr (Go ()))) S"
  shows "ok E (bindR (tryR (reserve_dispatch env run d lease sid aid p contract request streams)) f) S"
proof (rule ok_bind_gain [where G = "\<lambda>r. r = Inr (Go ())" and e = "Attempted rid aid"])
  show "ok E (tryR (reserve_dispatch env run d lease sid aid p contract request streams))
      (\<lambda>r. \<forall>x. r = Inr x \<longrightarrow> (\<forall>r'. x = Stop r' \<longrightarrow> of_run rid r'))"
    by (rule ok_try [OF ok_reserve_dispatch [OF assms(1,2)]])
next
  fix s r t
  assume "tryR (reserve_dispatch env run d lease sid aid p contract request streams) s = (Inr r, t)"
    and "r = Inr (Go ())"
  then have "reserve_dispatch env run d lease sid aid p contract request streams s = (Inr (Go ()), t)"
    by (auto simp: tryR_def split: prod.splits sum.splits if_splits)
  then show "holds env (rs_store t) (Attempted rid aid)"
    using reserve_dispatch_recorded assms(1) by metis
next
  fix r :: "fault + unit step_end"
  assume "\<forall>x. r = Inr x \<longrightarrow> (\<forall>r'. x = Stop r' \<longrightarrow> of_run rid r')" and "r \<noteq> Inr (Go ())"
  then consider e where "r = Inl e" | r' where "r = Inr (Stop r')" "of_run rid r'"
    by (metis (full_types) old.unit.exhaust step_end.exhaust sum.exhaust)
  then show "ok E (f r) S" using assms(3,4) by cases auto
qed (use assms(5) in simp)

lemma ok_dispatch_reserved [ok_rule]:
  assumes "of_run rid run" and "held_by env lease" and "Attempted rid aid \<in> E"
  shows "ok E (dispatch_reserved env run d lease a sid aid contract request streams t policy count)
     (\<lambda>x. \<forall>r out. x = Some (r, out) \<longrightarrow> of_run rid r)"
  unfolding dispatch_reserved_def by (rule ok_rule | rule ok_tail | (clarsimp simp: assms; fail))+

lemma ok_dispatch_model [ok_rule]:
  assumes "of_run rid run" and "held_by env lease"
  shows "ok E (dispatch_model env run d lease a sid aid contract request streams t policy count)
     (\<lambda>x. \<forall>r out. x = Some (r, out) \<longrightarrow> of_run rid r)"
  unfolding dispatch_model_def
proof (rule ok_bind_reserve [OF assms], simp_all only: sum.case step_end.case)
qed (rule ok_rule | (simp add: assms; fail))+

lemma ok_model_attempt [ok_rule]:
  assumes "of_run rid run" and "held_by env lease"
  shows "ok E (model_attempt env run d lease a b snap t sid policy count)
     (\<lambda>x. \<forall>r out. x = Some (r, out) \<longrightarrow> of_run rid r)"
  unfolding model_attempt_def Let_def by (rule ok_rule | rule ok_tail | (clarsimp simp: assms; fail))+

lemma ok_model_loop [ok_rule]:
  assumes "of_run rid run" and "held_by env lease"
  shows "ok E (model_loop env run d lease a b snap t sid policy count) (\<lambda>x. of_run rid (fst x))"
proof (rule ok_retry [where loop = "model_loop env run d lease a b snap t sid policy"
      and body = "model_attempt env run d lease a b snap t sid policy"
      and m = "case policy of None \<Rightarrow> 0 | Some p \<Rightarrow> max_attempts p"])
  fix n
  show "ok E (model_attempt env run d lease a b snap t sid policy n) (\<lambda>x. \<forall>y. x = Some y \<longrightarrow> of_run rid (fst y))"
    by (rule ok_weaken [OF ok_model_attempt [OF assms]]) auto
qed (auto intro: model_loop.simps dest: model_attempt_continue)

lemma ok_single_model_step [ok_rule]:
  assumes "of_run rid run" and "held_by env lease"
  shows "ok E (run_single_model_step env run d lease t step replay) (\<lambda>x. of_run rid (fst x))"
  unfolding run_single_model_step_def Let_def by (rule ok_rule | rule ok_tail | (clarsimp simp: assms; fail))+

section \<open>Context and compression\<close>

lemma ok_provide_context [ok_rule]:
  assumes "of_run rid run" and "held_by env lease" and "Attempted rid aid \<in> E"
  shows "ok E (provide_context env run d lease provider stage boundary sid aid)
     (\<lambda>e. \<forall>r. e = Stop r \<longrightarrow> of_run rid r)"
  unfolding provide_context_def
  by (rule ok_bind_enforce ok_rule | rule ok_tail | (clarsimp simp: assms; fail))+

lemma ok_run_context_stage [ok_rule]:
  assumes "of_run rid run" and "held_by env lease"
  shows "ok E (run_context_stage env run d lease stage boundary) (\<lambda>x. of_run rid (fst x))"
  unfolding run_context_stage_def Let_def
  by (rule ok_then_attempt ok_rule | rule ok_tail | (clarsimp simp: assms; fail))+

lemma ok_run_stages [ok_rule]:
  "of_run rid run \<Longrightarrow> held_by env lease \<Longrightarrow> ok E (run_stages env run d lease stages) (of_run rid)"
proof (induction stages arbitrary: run)
  case (Cons stage stages)
  show ?case unfolding run_stages.simps
    by (rule Cons.IH ok_rule | rule ok_tail | (clarsimp simp: Cons.prems; fail))+
qed (simp add: ok_ret)

lemma ok_input_stages [ok_rule]:
  "of_run rid run \<Longrightarrow> held_by env lease \<Longrightarrow> ok E (run_input_context_stages env run d lease) (of_run rid)"
  unfolding run_input_context_stages_def by (rule ok_run_stages)

lemma ok_compression_step [ok_rule]:
  assumes "of_run rid run" and "held_by env lease"
  shows "ok E (run_compression_step env run d lease step replay) (\<lambda>x. of_run rid (fst x))"
  unfolding run_compression_step_def Let_def by (rule ok_rule | rule ok_tail | (clarsimp simp: assms; fail))+

lemma ok_boundary_stages [ok_rule]:
  assumes "of_run rid run" and "held_by env lease"
  shows "ok E (run_boundary_stages env run d lease boundary stages cps) (\<lambda>e. \<forall>r. e = Stop r \<longrightarrow> of_run rid r)"
proof (induction stages arbitrary: cps)
  case (Cons stage stages)
  show ?case unfolding run_boundary_stages.simps
    by (rule Cons.IH ok_rule | rule ok_tail | (clarsimp simp: assms; fail))+
qed (simp add: ok_ret)

lemma ok_apply_compression [ok_rule]:
  assumes "of_run rid run" and "held_by env lease"
  shows "ok E (apply_compression_checkpoint env run lease cps items) (\<lambda>x. of_run rid (fst x))"
  unfolding apply_compression_checkpoint_def by (rule ok_rule | rule ok_tail | (clarsimp simp: assms; fail))+

lemma ok_prepare_context [ok_rule]:
  assumes "of_run rid run" and "held_by env lease"
  shows "ok E (prepare_model_step_context env run d lease) (\<lambda>x. of_run rid (fst x))"
  unfolding prepare_model_step_context_def Let_def by (rule ok_rule | rule ok_tail | (clarsimp simp: assms; fail))+

section \<open>Output, loop and recovery\<close>

lemma ok_repair_loop [ok_rule]:
  "of_run rid run \<Longrightarrow> held_by env lease \<Longrightarrow> ok E (repair_loop env run d lease contract n candidate err) (of_run rid)"
proof (induction n arbitrary: run candidate err)
  case 0
  then show ?case by (simp add: ok_fail_run)
next
  case (Suc n)
  show ?case unfolding repair_loop.simps
    by (rule Suc.IH ok_rule | rule ok_tail | (clarsimp simp: Suc.prems; fail))+
qed

lemma ok_repair_output [ok_rule]:
  assumes "of_run rid run" and "held_by env lease"
  shows "ok E (repair_output env run d lease invalid err n) (of_run rid)"
  unfolding repair_output_def Let_def by (rule ok_rule | rule ok_tail | (clarsimp simp: assms; fail))+

lemma ok_finalize_output [ok_rule]:
  assumes "of_run rid run" and "held_by env lease"
  shows "ok E (finalize_output env run d lease output repair) (of_run rid)"
  unfolding finalize_output_def by (rule ok_rule | rule ok_tail | (clarsimp simp: assms; fail))+

lemma ok_resume_repair [ok_rule]:
  assumes "of_run rid run" and "held_by env lease"
  shows "ok E (resume_output_repair env run d lease sid cps) (of_run rid)"
  unfolding resume_output_repair_def by (rule ok_rule | rule ok_tail | (clarsimp simp: assms; fail))+

lemma ok_run_tool_calls [ok_rule]:
  "of_run rid run \<Longrightarrow> held_by env lease \<Longrightarrow> ok E (run_tool_calls env run d lease calls outcomes)
     (\<lambda>e. (\<forall>r. e = Stop r \<longrightarrow> of_run rid r) \<and> (\<forall>r os. e = Go (r, os) \<longrightarrow> of_run rid r))"
proof (induction calls arbitrary: run outcomes)
  case (Cons call calls)
  show ?case unfolding run_tool_calls.simps
    by (rule Cons.IH ok_rule | rule ok_tail | (clarsimp simp: Cons.prems; fail))+
qed (simp add: ok_ret)

lemma ok_agent_loop [ok_rule]:
  "of_run rid run \<Longrightarrow> held_by env lease \<Longrightarrow> ok E (agent_loop fuel env run d lease outcomes step replay) (of_run rid)"
proof (induction fuel arbitrary: run outcomes step replay)
  case 0
  show ?case unfolding agent_loop.simps by (rule ok_reraise)
next
  case (Suc fuel)
  show ?case unfolding agent_loop.simps
    by (rule Suc.IH ok_rule | rule ok_tail | (clarsimp simp: Suc.prems; fail))+
qed

lemma ok_execute_steps [ok_rule]:
  assumes "of_run rid run" and "held_by env lease"
  shows "ok E (execute_steps fuel env run d lease) (of_run rid)"
  unfolding execute_steps_def by (rule ok_rule | rule ok_tail | (clarsimp simp: assms; fail))+

lemma ok_settle_attempt [ok_rule]:
  assumes "of_run rid run" and "held_by env lease"
  shows "ok E (settle_model_attempt env run lease as unconfirmed) (\<lambda>e. \<forall>r. e = Stop r \<longrightarrow> of_run rid r)"
  unfolding settle_model_attempt_def Let_def by (rule ok_rule | rule ok_tail | (clarsimp simp: assms; fail))+

lemma ok_resume_tool_calls [ok_rule]:
  "of_run rid run \<Longrightarrow> held_by env lease \<Longrightarrow> ok E (resume_tool_calls env run d lease confirmed calls step att outcomes)
     (\<lambda>e. (\<forall>r. e = Stop r \<longrightarrow> of_run rid r) \<and> (\<forall>r os. e = Go (r, os) \<longrightarrow> of_run rid r))"
proof (induction calls arbitrary: run step att outcomes)
  case (Cons call calls)
  show ?case unfolding resume_tool_calls.simps
    by (rule Cons.IH ok_rule | rule ok_tail | (clarsimp simp: Cons.prems; fail))+
qed (simp add: ok_ret)

lemma ok_replay_model_step [ok_rule]:
  assumes "of_run rid run" and "held_by env lease"
  shows "ok E (replay_model_step fuel env run d lease cps sid unconfirmed) (of_run rid)"
  unfolding replay_model_step_def by (rule ok_rule | rule ok_tail | (clarsimp simp: assms; fail))+

lemma ok_continue_from [ok_rule]:
  assumes "of_run rid run" and "held_by env lease"
  shows "ok E (continue_from_checkpoints fuel env run d lease cps model_step tool_step tool_att) (of_run rid)"
  unfolding continue_from_checkpoints_def Let_def by (rule ok_rule | rule ok_tail | (clarsimp simp: assms; fail))+

lemma ok_resume_stages [ok_rule]:
  assumes "of_run rid run" and "held_by env lease"
  shows "ok E (resume_stages env run d lease cps) (of_run rid)"
  unfolding resume_stages_def by (rule ok_rule | rule ok_tail | (clarsimp simp: assms; fail))+

lemma ok_resume_running [ok_rule]:
  assumes "of_run rid run" and "held_by env lease"
  shows "ok E (resume_running fuel env run lease) (of_run rid)"
  unfolding resume_running_def Let_def by (rule ok_rule | rule ok_tail | (clarsimp simp: assms; fail))+

section \<open>Entry points\<close>

lemma ok_start_with_lease [ok_rule]:
  assumes "of_run rid run" and "held_by env lease"
  shows "ok E (start_with_lease fuel env run d lease) (of_run rid)"
  unfolding start_with_lease_def by (rule ok_rule | rule ok_tail | (clarsimp simp: assms; fail))+

lemma ok_start_run: "ok E (start_run fuel env rid) (of_run rid)"
  unfolding start_run_def by (rule ok_rule | rule ok_tail | (clarsimp; fail))+

lemma ok_resume_run: "ok E (resume_run fuel env rid) (of_run rid)"
  unfolding resume_run_def by (rule ok_rule | rule ok_tail | (clarsimp; fail))+

lemma ok_confirm_step [ok_rule]:
  assumes "of_run rid run" and "held_by env lease"
  shows "ok E (confirm_step fuel env run d lease sid call outcomes result) (of_run rid)"
  unfolding confirm_step_def by (rule ok_rule | rule ok_tail | (clarsimp simp: assms; fail))+

lemma ok_resolve_uncertain [ok_rule]:
  assumes "of_run rid run" and "held_by env lease"
  shows "ok E (resolve_uncertain_continue fuel env run d lease res) (of_run rid)"
  unfolding resolve_uncertain_continue_def Let_def by (rule ok_rule | rule ok_tail | (clarsimp simp: assms; fail))+

lemma ok_settle_pending [ok_rule]:
  assumes "of_run rid running" and "held_by env lease"
  shows "ok E (settle_pending_outcome env run running d lease) (of_run rid)"
  unfolding settle_pending_outcome_def by (rule ok_rule | rule ok_tail | (clarsimp simp: assms; fail))+

lemma ok_continue_run [ok_rule]:
  assumes "of_run rid run" and "held_by env lease"
  shows "ok E (continue_run fuel env r run lease) (of_run rid)"
  unfolding continue_run_def by (rule ok_rule | rule ok_tail | (clarsimp simp: assms; fail))+

lemma ok_resolution [ok_rule]:
  "ok E m1 Q \<Longrightarrow> ok E m2 Q \<Longrightarrow> ok E m3 Q \<Longrightarrow> ok E m4 Q \<Longrightarrow> ok E m5 Q \<Longrightarrow>
     ok E (case x of RETRY_STEP \<Rightarrow> m1 | CONFIRM_STEP \<Rightarrow> m2 | FAIL_RUN \<Rightarrow> m3 | CANCEL_RUN \<Rightarrow> m4
       | CONTINUE_RUN \<Rightarrow> m5) Q"
  by (cases x) auto

lemma ok_resolve_with_lease [ok_rule]:
  "held_by env lease \<Longrightarrow> ok E (resolve_with_lease fuel env rid res v lease) (of_run rid)"
  unfolding resolve_with_lease_def by (rule ok_rule | rule ok_tail | (clarsimp; fail))+

lemma ok_resolve_run [ok_rule]: "ok E (resolve_run fuel env rid res v) (of_run rid)"
  unfolding resolve_run_def by (rule ok_rule | rule ok_tail | (clarsimp; fail))+

end

end
