(* ===== verification/Runner_Laws.thy ===== *)
theory Runner_Laws
  imports Runner_Rules
begin

text \<open>
  What the entry points of a Runner guarantee: the store sees only calls of the protocol, every
  external call is backed by recorded evidence, cancellation makes no external call. The logic
  is interpreted twice, on the relation of a driving Runner and on the one without external
  calls.
\<close>

section \<open>The two relations\<close>

definition protocol_cmd :: "runner_env \<Rightarrow> ident \<Rightarrow> store_cmd \<Rightarrow> bool" where
  "protocol_cmd env rid c \<longleftrightarrow> own_cmd env rid c \<or> (\<exists>n. c \<in> set (fst (re_others env n)))"

definition store_evolves :: "runner_env \<Rightarrow> ident \<Rightarrow> run_store \<Rightarrow> run_store \<Rightarrow> bool" where
  "store_evolves env rid st st' \<longleftrightarrow>
     (\<exists>cs. list_all (protocol_cmd env rid) cs \<and> st' = exec_cmds (re_store env) cs st)"

definition drives :: "runner_env \<Rightarrow> ident \<Rightarrow> runner_state \<Rightarrow> runner_state \<Rightarrow> bool" where
  "drives env rid s t \<longleftrightarrow> store_evolves env rid (rs_store s) (rs_store t)
     \<and> (\<exists>calls. rs_effects t = rs_effects s @ calls \<and> list_all (evidenced env (rs_store t)) calls)"

definition quiet :: "runner_env \<Rightarrow> ident \<Rightarrow> runner_state \<Rightarrow> runner_state \<Rightarrow> bool" where
  "quiet env rid s t \<longleftrightarrow> store_evolves env rid (rs_store s) (rs_store t) \<and> rs_effects t = rs_effects s"

lemma store_evolves_refl: "store_evolves env rid st st"
  unfolding store_evolves_def by (rule exI [of _ "[]"]) simp

lemma store_evolves_trans:
  assumes "store_evolves env rid s t" and "store_evolves env rid t u"
  shows "store_evolves env rid s u"
proof -
  obtain cs ds where "list_all (protocol_cmd env rid) cs" "t = exec_cmds (re_store env) cs s"
    "list_all (protocol_cmd env rid) ds" "u = exec_cmds (re_store env) ds t"
    using assms by (auto simp: store_evolves_def)
  then show ?thesis unfolding store_evolves_def
    by (intro exI [of _ "cs @ ds"]) (simp add: exec_cmds_append)
qed

lemma store_evolves_cmd:
  "own_cmd env rid c \<Longrightarrow> store_evolves env rid st (snd (exec_cmd (re_store env) c st))"
  unfolding store_evolves_def by (rule exI [of _ "[c]"]) (simp add: protocol_cmd_def)

lemma store_evolves_others:
  "store_evolves env rid (rs_store s) (rs_store (snd (suspend env s)))"
  unfolding store_evolves_def suspend_def
  by (rule exI [of _ "fst (re_others env (rs_calls s))"])
    (auto simp: list_all_iff protocol_cmd_def split: prod.splits)

lemma store_evolves_kept:
  "store_evolves env rid st st' \<Longrightarrow> ids_ok st \<Longrightarrow> ids_ok st'"
  "store_evolves env rid st st' \<Longrightarrow> holds env st e \<Longrightarrow> holds env st' e"
  by (auto simp: store_evolves_def intro: ids_ok_execs holds_execs)

lemma suspend_effects [simp]: "rs_effects (snd (suspend env s)) = rs_effects s"
  by (simp add: suspend_def split: prod.splits)

lemma evidenced_kept:
  "store_evolves env rid st st' \<Longrightarrow> evidenced env st call \<Longrightarrow> evidenced env st' call"
  by (auto simp: evidenced_def intro: store_evolves_kept(2))

interpretation quietly: runner_steps env rid "quiet env rid" for env rid
proof
  show "quiet env rid s u" if "quiet env rid s t" "quiet env rid t u" for s t u
    using that store_evolves_trans by (auto simp: quiet_def)
qed (auto simp: quiet_def store_evolves_refl store_evolves_cmd store_evolves_others
      intro: store_evolves_kept)

interpretation driving: runner_dispatch env rid "drives env rid" for env rid
proof
  show "drives env rid s u" if st: "drives env rid s t" and tu: "drives env rid t u" for s t u
  proof -
    obtain c1 c2 where c: "rs_effects t = rs_effects s @ c1" "list_all (evidenced env (rs_store t)) c1"
      "rs_effects u = rs_effects t @ c2" "list_all (evidenced env (rs_store u)) c2"
      using st tu by (auto simp: drives_def)
    have "list_all (evidenced env (rs_store u)) c1"
      using c(2) tu by (auto simp: drives_def list_all_iff intro: evidenced_kept)
    then show ?thesis using c st tu store_evolves_trans
      by (auto simp: drives_def intro!: exI [of _ "c1 @ c2"])
  qed
qed (auto simp: drives_def store_evolves_refl store_evolves_cmd store_evolves_others
      intro: store_evolves_kept)

section \<open>Entry points\<close>

datatype runner_op =
    Create_Run ident ident pystr ident "conversation_message list"
  | Start_Run ident
  | Resume_Run ident
  | Cancel_Run ident "int option"
  | Resolve_Run ident run_resolution int

fun op_run :: "runner_op \<Rightarrow> ident" where
  "op_run (Create_Run did version input rid history) = rid"
| "op_run (Start_Run rid) = rid"
| "op_run (Resume_Run rid) = rid"
| "op_run (Cancel_Run rid expected) = rid"
| "op_run (Resolve_Run rid res v) = rid"

fun exec_op :: "nat \<Rightarrow> runner_env \<Rightarrow> runner_op \<Rightarrow> run_record runner" where
  "exec_op fuel env (Create_Run did version input rid history) =
     runner_create_run env did version input (Some rid) history"
| "exec_op fuel env (Start_Run rid) = start_run fuel env rid"
| "exec_op fuel env (Resume_Run rid) = resume_run fuel env rid"
| "exec_op fuel env (Cancel_Run rid expected) = cancel_run fuel env rid expected"
| "exec_op fuel env (Resolve_Run rid res v) = resolve_run fuel env rid res v"

lemma bindR_ret [simp]: "bindR (retR x) f = f x"
  by (rule ext) (simp add: bindR_def retR_def)

context runner_steps
begin

lemma ok_create_run: "ok E (runner_create_run env did version input (Some rid) history) (\<lambda>_. True)"
proof -
  have store: "ok E (store_op env (\<lambda>now utc. create_run (re_store env) (new_run d snap rid input history utc)))
      (\<lambda>_. True)" for d snap
  proof (rule ok_store_op)
    fix n st
    show "\<exists>c. own_cmd env rid c \<and> snd (create_run (re_store env) (new_run d snap rid input history (re_utc env n)) st)
        = snd (exec_cmd (re_store env) c st)"
      by (rule exI [of _ "Create (new_run d snap rid input history (re_utc env n))"])
        (simp add: own_cmd_def new_run_def)
  qed simp
  show ?thesis unfolding runner_create_run_def id_or_new_def option.case bindR_ret
    by (rule store ok_rule | (clarsimp; fail))+
qed

end

lemma exec_op_drives:
  assumes "ids_ok (rs_store s)"
  shows "drives env (op_run op) s (snd (exec_op fuel env op s))"
proof -
  have "driving.ok env (op_run op) {} (exec_op fuel env op) (\<lambda>_. True)"
  proof (cases op)
    case (Create_Run did version input rid history)
    then show ?thesis by (simp add: driving.ok_create_run)
  next
    case (Start_Run rid)
    then show ?thesis by (simp add: driving.ok_weaken [OF driving.ok_start_run])
  next
    case (Resume_Run rid)
    then show ?thesis by (simp add: driving.ok_weaken [OF driving.ok_resume_run])
  next
    case (Cancel_Run rid expected)
    then show ?thesis by (simp add: driving.ok_weaken [OF driving.ok_cancel_run])
  next
    case (Resolve_Run rid res v)
    then show ?thesis by (simp add: driving.ok_weaken [OF driving.ok_resolve_run])
  qed
  then show ?thesis using assms by (simp add: driving.ok_def driving.okS_def)
qed

text \<open>Runs nobody names stay as they are.\<close>

lemma evolves_isolated:
  assumes "store_evolves env rid st st'" and "r \<noteq> rid" and "\<forall>n. \<forall>c \<in> set (fst (re_others env n)). cmd_run c \<noteq> r"
  shows "run_view st' r = run_view st r"
proof -
  obtain cs where cs: "list_all (protocol_cmd env rid) cs" "st' = exec_cmds (re_store env) cs st"
    using assms(1) by (auto simp: store_evolves_def)
  have "\<forall>c \<in> set cs. cmd_run c \<noteq> r"
    using cs(1) assms(2,3) by (auto simp: list_all_iff protocol_cmd_def own_cmd_def)
  then show ?thesis unfolding cs(2) by (rule exec_cmds_isolated)
qed

section \<open>Cancellation\<close>

lemma finallyR_result: "finallyR m c s = (Inr x, u) \<Longrightarrow> \<exists>t. m s = (Inr x, t)"
  by (auto simp: finallyR_def split: prod.splits sum.splits)

lemma catchR_result:
  "catchR m h s = (Inr x, u) \<Longrightarrow> m s = (Inr x, u) \<or> (\<exists>e t. m s = (Inl e, t) \<and> h e t = (Inr x, u))"
  by (auto simp: catchR_def split: prod.splits sum.splits if_splits)

lemma note_cancellation_noted:
  "note_cancellation env rid run expected s = (Inr r, t) \<Longrightarrow> rid \<in> rs_cancel t"
  by (auto simp: note_cancellation_def thenR_result request_cancel_def modifyR_def get_existing_run_def
      bindR_result store_get_def getR_def liftE_def retR_def raiseR_def split: sum.splits option.splits)

lemma resolve_cancel_status:
  assumes "resolve_run fuel env rid res v s = (Inr r, t)" and "res_action res = CANCEL_RUN"
    and "ids_ok (rs_store s)"
  shows "run_status_of r = CANCELLED"
proof -
  have "quietly.okS env rid s {} (resolve_run fuel env rid res v)
     (\<lambda>r. run_id r = rid \<and> run_status_of r = CANCELLED)"
    using quietly.ok_end_waiting [of res env rid "{}" fuel v] assms(2) by (simp add: quietly.ok_def)
  then show ?thesis using assms(1,3) by (simp add: quietly.okS_def)
qed

lemma cancel_created_status:
  "cancel_created env rid expected lease s = (Inr r, t) \<Longrightarrow> run_status_of r = CANCELLED"
  by (auto simp: cancel_created_def bindR_result thenR_result retR_def raiseR_def split: if_splits
      dest!: transition_runner_status)

lemma cancel_run_outcome:
  assumes "cancel_run fuel env rid expected s = (Inr r, t)" and "ids_ok (rs_store s)"
  shows "run_status_of r = CANCELLED \<or> rid \<in> rs_cancel t"
proof -
  obtain run u where run: "get_existing_run env rid s = (Inr run, u)"
    using assms(1) by (auto simp: cancel_run_def bindR_result)
  have u: "u = s"
    using run by (auto simp: get_existing_run_def bindR_result store_get_def getR_def liftE_def
        retR_def raiseR_def split: sum.splits option.splits)
  show ?thesis
    using assms run u
    by (auto simp: cancel_run_def bindR_result thenR_result raiseR_def getR_def split: if_splits option.splits
        dest: note_cancellation_noted resolve_cancel_status
        dest!: finallyR_result cancel_created_status)
qed

lemma cancel_run_quiet:
  assumes "ids_ok (rs_store s)"
  shows "rs_effects (snd (cancel_run fuel env rid expected s)) = rs_effects s"
  using quietly.ok_cancel_run [of env rid "{}" fuel expected] assms
  by (auto simp: quietly.ok_def quietly.okS_def quiet_def)

end
