(* ===== verification/Session_Runner.thy ===== *)
theory Session_Runner
  imports Sqlite_Session Runner_Laws
begin

text \<open>
  The session runner, \<open>src/src/m_agent/companion/_session_runner.py\<close>: one message of a session
  becomes one Run. The core Runner is that of \<open>Runner_Ops\<close>, the session store any
  implementation of the \<open>SessionStore\<close> protocol, given as the record of its operations. Every
  call of the store is an await: before the \<open>n\<close>-th one other clients may have used the store
  (\<open>sru_others n\<close>). The clock and \<open>uuid4\<close> are functions of the number of the call.
\<close>

section \<open>Ports and state\<close>

record 's session_port =
  port_exec :: "session_cmd \<Rightarrow> 's \<Rightarrow> (exn + session_reply) \<times> 's"
  port_read_snapshot :: "session_scope \<Rightarrow> ident \<Rightarrow> 's \<Rightarrow> exn + session_snapshot"
  port_get_session :: "session_scope \<Rightarrow> ident \<Rightarrow> 's \<Rightarrow> exn + session_record option"
  port_claim_run :: "timestamp \<Rightarrow> timestamp \<Rightarrow> session_scope \<Rightarrow> ident \<Rightarrow> ident \<Rightarrow> int \<Rightarrow> 's \<Rightarrow> (exn + session_run_claim) \<times> 's"
  port_release_claim :: "timestamp \<Rightarrow> session_scope \<Rightarrow> ident \<Rightarrow> ident \<Rightarrow> 's \<Rightarrow> (exn + unit) \<times> 's"
  port_commit_turn :: "timestamp \<Rightarrow> session_scope \<Rightarrow> ident \<Rightarrow> session_turn \<Rightarrow> int \<Rightarrow> 's \<Rightarrow> (exn + session_commit_result) \<times> 's"
  port_find_turn :: "session_scope \<Rightarrow> ident \<Rightarrow> ident \<Rightarrow> 's \<Rightarrow> exn + session_turn option"

definition memory_port :: "session_store_state session_port" where
  "memory_port = \<lparr>port_exec = exec_session,
     port_read_snapshot = (\<lambda>scope sid. read_snapshot scope sid None 0 None),
     port_get_session = (\<lambda>scope sid s. Inr (get_session scope sid s)),
     port_claim_run = claim_run, port_release_claim = release_claim, port_commit_turn = commit_turn,
     port_find_turn = find_turn_by_run\<rparr>"

definition sqlite_port :: "session_env \<Rightarrow> session_tables session_port" where
  "sqlite_port env = \<lparr>port_exec = sql_exec_session env,
     port_read_snapshot = (\<lambda>scope sid. sql_read_snapshot env scope sid None 0 None id id),
     port_get_session = (\<lambda>scope sid t. Inr (sql_get_session scope sid id t)),
     port_claim_run = sql_claim_run, port_release_claim = sql_release_claim,
     port_commit_turn = sql_commit_turn env,
     port_find_turn = (\<lambda>scope sid rid. sql_find_turn_by_run env scope sid rid id)\<rparr>"

record 's session_runner =
  sru_core :: runner_env
  sru_port :: "'s session_port"
  sru_clock :: "nat \<Rightarrow> timestamp \<times> timestamp"
  sru_new_id :: "nat \<Rightarrow> ident"
  sru_others :: "nat \<Rightarrow> session_cmd list"

record 's session_world =
  w_sessions :: 's
  w_core :: runner_state
  w_calls :: nat

record session_run_result =
  sres_run :: run_record
  sres_claim :: session_run_claim
  sres_status :: session_commit_status
  sres_turn :: "session_turn option"

section \<open>Sequencing\<close>

type_synonym ('w, 'a) action = "'w \<Rightarrow> (fault + 'a) \<times> 'w"
type_synonym ('s, 'a) session_action = "('s session_world, 'a) action"

definition retW :: "'a \<Rightarrow> ('w, 'a) action" where
  "retW x w = (Inr x, w)"

definition raiseW :: "fault \<Rightarrow> ('w, 'a) action" where
  "raiseW e w = (Inl e, w)"

definition bindW :: "('w, 'a) action \<Rightarrow> ('a \<Rightarrow> ('w, 'b) action) \<Rightarrow> ('w, 'b) action" where
  "bindW m f w = (case m w of (Inl e, w') \<Rightarrow> (Inl e, w') | (Inr x, w') \<Rightarrow> f x w')"

text \<open>\<open>except BaseException\<close>; a Run followed for too few rounds is not an exception.\<close>

definition catchW :: "('w, 'a) action \<Rightarrow> (fault \<Rightarrow> ('w, 'a) action) \<Rightarrow> ('w, 'a) action" where
  "catchW m h w =
     (case m w of
        (Inl e, w') \<Rightarrow> if e = Unfinished then (Inl e, w') else h e w'
      | (Inr x, w') \<Rightarrow> (Inr x, w'))"

definition with_core :: "'a runner \<Rightarrow> ('s, 'a) session_action" where
  "with_core m w = (case m (w_core w) of (r, c) \<Rightarrow> (r, w\<lparr>w_core := c\<rparr>))"

definition with_store :: "'s session_runner \<Rightarrow> (nat \<Rightarrow> 's \<Rightarrow> (exn + 'a) \<times> 's) \<Rightarrow> ('s, 'a) session_action" where
  "with_store sru f w =
     (case f (w_calls w) (run_all (port_exec (sru_port sru)) (sru_others sru (w_calls w)) (w_sessions w)) of
        (r, s) \<Rightarrow> (map_sum Exn id r, w\<lparr>w_sessions := s, w_calls := Suc (w_calls w)\<rparr>))"

definition stampW :: "(nat \<Rightarrow> 'a) \<Rightarrow> ('s, 'a) session_action" where
  "stampW f w = (Inr (f (w_calls w)), w)"

section \<open>The runner\<close>

definition is_session_error :: "exn \<Rightarrow> bool" where
  "is_session_error e \<longleftrightarrow>
     e \<in> {SessionNotFoundError, DuplicateSessionError, SessionClaimConflictError, SessionVersionConflictError}"

fun session_error_fault :: "fault \<Rightarrow> bool" where
  "session_error_fault (Exn x) = is_session_error x"
| "session_error_fault _ = False"

definition to_conversation_history :: "session_turn list \<Rightarrow> conversation_message list" where
  "to_conversation_history turns =
     concat (map (\<lambda>t. [\<lparr>role = USER, msg_content = turn_user_input t\<rparr>,
                      \<lparr>role = ASSISTANT, msg_content = turn_assistant_output t\<rparr>]) turns)"

definition snapshotW :: "'s session_runner \<Rightarrow> session_scope \<Rightarrow> ident \<Rightarrow> ('s, session_snapshot) session_action" where
  "snapshotW sru scope sid = with_store sru (\<lambda>n s. (port_read_snapshot (sru_port sru) scope sid s, s))"

definition sessionW :: "'s session_runner \<Rightarrow> session_scope \<Rightarrow> ident \<Rightarrow> ('s, session_record option) session_action" where
  "sessionW sru scope sid = with_store sru (\<lambda>n s. (port_get_session (sru_port sru) scope sid s, s))"

definition claimW ::
  "'s session_runner \<Rightarrow> session_scope \<Rightarrow> ident \<Rightarrow> ident \<Rightarrow> int \<Rightarrow> ('s, session_run_claim) session_action" where
  "claimW sru scope sid rid v =
     with_store sru (\<lambda>n. port_claim_run (sru_port sru) (fst (sru_clock sru n)) (snd (sru_clock sru n)) scope sid rid v)"

definition releaseW :: "'s session_runner \<Rightarrow> session_scope \<Rightarrow> ident \<Rightarrow> ident \<Rightarrow> ('s, unit) session_action" where
  "releaseW sru scope sid rid =
     with_store sru (\<lambda>n. port_release_claim (sru_port sru) (fst (sru_clock sru n)) scope sid rid)"

definition commitW ::
  "'s session_runner \<Rightarrow> session_scope \<Rightarrow> ident \<Rightarrow> session_turn \<Rightarrow> int \<Rightarrow> ('s, session_commit_result) session_action" where
  "commitW sru scope sid turn v =
     with_store sru (\<lambda>n. port_commit_turn (sru_port sru) (fst (sru_clock sru n)) scope sid turn v)"

definition turn_of_run :: "ident \<Rightarrow> ident \<Rightarrow> run_record \<Rightarrow> timestamp \<Rightarrow> session_turn" where
  "turn_of_run tid sid run now =
     \<lparr>turn_id = tid, turn_session_id = sid, turn_run_id = run_id run,
      turn_definition_id = run_definition_id run, turn_definition_version = run_definition_version run,
      turn_user_input = run_input run,
      turn_assistant_output = (case run_output run of None \<Rightarrow> [] | Some t \<Rightarrow> t),
      turn_created_at = now\<rparr>"

definition session_result ::
  "run_record \<Rightarrow> session_run_claim \<Rightarrow> session_commit_status \<Rightarrow> session_turn option \<Rightarrow> session_run_result" where
  "session_result run claim status turn =
     \<lparr>sres_run = run, sres_claim = claim, sres_status = status, sres_turn = turn\<rparr>"

definition commit_successful_run ::
  "'s session_runner \<Rightarrow> session_scope \<Rightarrow> ident \<Rightarrow> run_record \<Rightarrow> session_run_claim
     \<Rightarrow> ('s, session_run_result) session_action" where
  "commit_successful_run sru scope sid run claim =
     bindW (stampW (\<lambda>n. turn_of_run (sru_new_id sru n) sid run (fst (sru_clock sru n)))) (\<lambda>turn.
       catchW (bindW (commitW sru scope sid turn (claim_session_version claim)) (\<lambda>res.
           if commit_status res = COMMITTED then retW (session_result run claim COMMITTED (committed_turn res))
           else retW (session_result run claim CONFLICT None)))
         (\<lambda>e. retW (session_result run claim PENDING None)))"

definition complete_session ::
  "'s session_runner \<Rightarrow> session_scope \<Rightarrow> ident \<Rightarrow> run_record \<Rightarrow> session_run_claim
     \<Rightarrow> ('s, session_run_result) session_action" where
  "complete_session sru scope sid run claim =
     (if run_status_of run = SUCCEEDED then commit_successful_run sru scope sid run claim
      else if is_terminal (run_status_of run) then
        bindW (releaseW sru scope sid (run_id run)) (\<lambda>_. retW (session_result run claim NOT_READY None))
      else retW (session_result run claim NOT_READY None))"

definition submit ::
  "nat \<Rightarrow> 's session_runner \<Rightarrow> session_scope \<Rightarrow> ident \<Rightarrow> ident \<Rightarrow> ident \<Rightarrow> pystr
     \<Rightarrow> ('s, session_run_result) session_action" where
  "submit fuel sru scope sid did version input =
     bindW (snapshotW sru scope sid) (\<lambda>snapshot.
     bindW (stampW (sru_new_id sru)) (\<lambda>rid.
     bindW (claimW sru scope sid rid (sn_version snapshot)) (\<lambda>claim.
     bindW (catchW (with_core (runner_create_run (sru_core sru) did version input (Some rid)
                      (to_conversation_history (sn_turns snapshot))))
              (\<lambda>e. bindW (catchW (releaseW sru scope sid rid)
                      (\<lambda>e'. if session_error_fault e' then retW () else raiseW e'))
                    (\<lambda>_. raiseW e))) (\<lambda>_.
     bindW (with_core (start_run fuel (sru_core sru) rid)) (\<lambda>run.
       complete_session sru scope sid run claim)))))"

definition resume_session ::
  "nat \<Rightarrow> 's session_runner \<Rightarrow> session_scope \<Rightarrow> ident \<Rightarrow> ('s, session_run_result) session_action" where
  "resume_session fuel sru scope sid =
     bindW (sessionW sru scope sid) (\<lambda>rec.
       case rec of
         None \<Rightarrow> raiseW (Exn SessionNotFoundError)
       | Some rec \<Rightarrow>
     (case rec_claim rec of
        None \<Rightarrow> raiseW (Exn SessionClaimConflictError)
      | Some claim \<Rightarrow>
     bindW (catchW (with_core (get_existing_run (sru_core sru) (claim_run_id claim)))
              (\<lambda>e. if e = Exn RunNotFoundError
                   then bindW (releaseW sru scope sid (claim_run_id claim)) (\<lambda>_. raiseW e)
                   else raiseW e)) (\<lambda>run.
     bindW (if is_terminal (run_status_of run) then retW run
            else with_core (resume_run fuel (sru_core sru) (claim_run_id claim))) (\<lambda>run'.
       complete_session sru scope sid run' claim))))"

definition query_commit_status ::
  "'s session_runner \<Rightarrow> session_scope \<Rightarrow> ident \<Rightarrow> ident \<Rightarrow> ('s, session_commit_status) session_action" where
  "query_commit_status sru scope sid rid =
     bindW (sessionW sru scope sid) (\<lambda>rec.
       case rec of
         None \<Rightarrow> raiseW (Exn SessionNotFoundError)
       | Some rec \<Rightarrow>
     bindW (with_store sru (\<lambda>n s. (port_find_turn (sru_port sru) scope sid rid s, s))) (\<lambda>turn.
       if turn \<noteq> None then retW COMMITTED
       else bindW (with_core (get_existing_run (sru_core sru) rid)) (\<lambda>run.
         if run_status_of run \<noteq> SUCCEEDED then retW NOT_READY
         else case rec_claim rec of
           None \<Rightarrow> retW CONFLICT
         | Some claim \<Rightarrow>
             if claim_run_id claim \<noteq> rid then retW CONFLICT
             else if rec_version rec \<noteq> claim_session_version claim then retW CONFLICT
             else retW PENDING)))"

section \<open>What a submission does to its session\<close>

lemma bindW_result:
  "bindW m f w = (Inr x, w') \<longleftrightarrow> (\<exists>y v. m w = (Inr y, v) \<and> f y v = (Inr x, w'))"
  by (auto simp: bindW_def split: prod.splits sum.splits)

lemma raiseW_result [simp]: "raiseW e w \<noteq> (Inr x, w')"
  by (simp add: raiseW_def)

lemma catchW_result:
  "catchW m h w = (Inr x, w') \<longleftrightarrow> m w = (Inr x, w') \<or> (\<exists>e v. m w = (Inl e, v) \<and> e \<noteq> Unfinished \<and> h e v = (Inr x, w'))"
  by (auto simp: catchW_def split: prod.splits sum.splits)

lemma with_core_frame:
  "with_core m w = (r, w') \<Longrightarrow> w_sessions w' = w_sessions w \<and> w_calls w' = w_calls w \<and> m (w_core w) = (r, w_core w')"
  by (auto simp: with_core_def split: prod.splits)

lemma stampW_result: "stampW f w = (Inr x, w') \<longleftrightarrow> x = f (w_calls w) \<and> w' = w"
  by (auto simp: stampW_def)

lemma with_store_result:
  "with_store sru f w = (Inr x, w') \<longleftrightarrow>
     (\<exists>s. f (w_calls w) (run_all (port_exec (sru_port sru)) (sru_others sru (w_calls w)) (w_sessions w)) = (Inr x, s)
        \<and> w' = w\<lparr>w_sessions := s, w_calls := Suc (w_calls w)\<rparr>)"
  by (auto simp: with_store_def split: prod.splits) (case_tac x1; simp)+

lemma memory_port_simps [simp]:
  "port_exec memory_port = exec_session" "port_claim_run memory_port = claim_run"
  "port_release_claim memory_port = release_claim" "port_commit_turn memory_port = commit_turn"
  "port_read_snapshot memory_port scope sid s' = read_snapshot scope sid None 0 None s'"
  by (simp_all add: memory_port_def)

text \<open>The session as the clients see it, once the calls of others before the next call are done.\<close>

definition arriving :: "session_store_state session_runner \<Rightarrow> session_store_state session_world \<Rightarrow> session_store_state" where
  "arriving sru w = run_all exec_session (sru_others sru (w_calls w)) (w_sessions w)"

definition respects_claim :: "session_store_state session_runner \<Rightarrow> session_key \<Rightarrow> ident \<Rightarrow> bool" where
  "respects_claim sru k rid \<longleftrightarrow> (\<forall>n. \<forall>c \<in> set (sru_others sru n). ends_claim_of c \<noteq> Some (k, rid))"

lemma arriving_inv: "sessions_inv (w_sessions w) \<Longrightarrow> sessions_inv (arriving sru w)"
  by (simp add: arriving_def memory_sessions.run_all_keeps)

lemma arriving_held:
  "respects_claim sru k (claim_run_id cl) \<Longrightarrow> session_view_of (w_sessions w) k = Some (ts, Some cl) \<Longrightarrow>
     session_view_of (arriving sru w) k = Some (ts, Some cl)"
  unfolding arriving_def respects_claim_def by (rule memory_sessions.claim_pins_history) auto

lemma snapshot_read:
  assumes "sru_port sru = memory_port" and "sessions_inv (w_sessions w)"
    and "snapshotW sru scope sid w = (Inr sn, w')"
  shows "\<exists>co. session_view_of (w_sessions w') (scope, sid) = Some (sn_turns sn, co)"
    and "sn_version sn = int (length (sn_turns sn))" and "sessions_inv (w_sessions w')"
    and "w_core w' = w_core w" and "w_sessions w' = arriving sru w"
proof -
  have w': "w' = w\<lparr>w_sessions := arriving sru w, w_calls := Suc (w_calls w)\<rparr>"
    and sn: "read_snapshot scope sid None 0 None (arriving sru w) = Inr sn"
    using assms(1,3) by (auto simp: snapshotW_def with_store_result arriving_def)
  obtain x where x: "arriving sru w (scope, sid) = Some x" "sn_turns sn = ss_turns x" "sn_version sn = ss_version x"
    using sn by (auto simp: read_snapshot_def lookup_session_def bindE_eq_Inr Let_def split: option.splits)
  have "session_ok (scope, sid) x" using arriving_inv [OF assms(2)] x(1) by (rule sessions_invD)
  then show "sn_version sn = int (length (sn_turns sn))" using x by (simp add: session_ok_def)
  show "\<exists>co. session_view_of (w_sessions w') (scope, sid) = Some (sn_turns sn, co)"
    using x by (simp add: w' session_view_of_def)
  show "sessions_inv (w_sessions w')" "w_core w' = w_core w" "w_sessions w' = arriving sru w"
    using arriving_inv [OF assms(2)] by (simp_all add: w')
qed

lemma claim_made:
  assumes "sru_port sru = memory_port" and "sessions_inv (w_sessions w)"
    and "claimW sru scope sid rid v w = (Inr cl, w')"
  shows "\<exists>ts. session_view_of (arriving sru w) (scope, sid) = Some (ts, None)
       \<and> session_view_of (w_sessions w') (scope, sid) = Some (ts, Some cl) \<and> v = int (length ts)"
    and "claim_run_id cl = rid" and "sessions_inv (w_sessions w')" and "w_core w' = w_core w"
proof -
  obtain s' where c: "claim_run (fst (sru_clock sru (w_calls w))) (snd (sru_clock sru (w_calls w))) scope sid rid v
        (arriving sru w) = (Inr cl, s')"
    and w': "w' = w\<lparr>w_sessions := s', w_calls := Suc (w_calls w)\<rparr>"
    using assms(1,3) by (auto simp: claimW_def with_store_result arriving_def)
  let ?c = "ClaimRun (fst (sru_clock sru (w_calls w))) (snd (sru_clock sru (w_calls w))) (scope, sid) rid v"
  have e: "exec_session ?c (arriving sru w) = (Inr (ClaimReply cl), s')" using c by (simp add: reply_with_def)
  from memory_sessions.claims [OF arriving_inv [OF assms(2)] e]
  show "\<exists>ts. session_view_of (arriving sru w) (scope, sid) = Some (ts, None)
       \<and> session_view_of (w_sessions w') (scope, sid) = Some (ts, Some cl) \<and> v = int (length ts)"
    and "claim_run_id cl = rid" by (auto simp: w')
  show "sessions_inv (w_sessions w')"
    using exec_session_inv [OF arriving_inv [OF assms(2), of sru], of ?c] e by (simp add: w')
  show "w_core w' = w_core w" by (simp add: w')
qed

lemma commit_made:
  assumes "sru_port sru = memory_port" and "sessions_inv (w_sessions w)" and "respects_claim sru (scope, sid) (run_id run)"
    and "session_view_of (w_sessions w) (scope, sid) = Some (ts, Some cl)" and "claim_run_id cl = run_id run"
    and "commit_successful_run sru scope sid run cl w = (Inr res, w')"
  shows "\<exists>turn. res = session_result run cl COMMITTED (Some turn)
     \<and> turn = turn_of_run (turn_id turn) sid run (turn_created_at turn)
     \<and> session_view_of (w_sessions w') (scope, sid) = Some (ts @ [turn], None)"
proof -
  let ?n = "w_calls w"
  let ?turn = "turn_of_run (sru_new_id sru ?n) sid run (fst (sru_clock sru ?n))"
  have held: "session_view_of (arriving sru w) (scope, sid) = Some (ts, Some cl)"
    using arriving_held assms(3-5) by metis
  obtain s' where s': "exec_session (CommitTurn (fst (sru_clock sru ?n)) (scope, sid) ?turn (claim_session_version cl)) (arriving sru w)
        = (Inr (CommitReply \<lparr>commit_status = COMMITTED, committed_turn = Some ?turn,
             commit_version = claim_session_version cl + 1\<rparr>), s')"
      "session_view_of s' (scope, sid) = Some (ts @ [?turn], None)"
    using memory_sessions.commits [OF arriving_inv [OF assms(2)] held, of ?turn] assms(5)
    by (auto simp: turn_of_run_def)
  then have "commit_turn (fst (sru_clock sru ?n)) scope sid ?turn (claim_session_version cl) (arriving sru w)
        = (Inr \<lparr>commit_status = COMMITTED, committed_turn = Some ?turn, commit_version = claim_session_version cl + 1\<rparr>, s')"
    by (cases "commit_turn (fst (sru_clock sru ?n)) scope sid ?turn (claim_session_version cl) (arriving sru w)")
      (auto simp: reply_with_def map_sum_def split: sum.splits)
  then have "commit_successful_run sru scope sid run cl w =
      (Inr (session_result run cl COMMITTED (Some ?turn)), w\<lparr>w_sessions := s', w_calls := Suc ?n\<rparr>)"
    using assms(1) by (simp add: commit_successful_run_def commitW_def with_store_def bindW_def stampW_def catchW_def
        retW_def arriving_def)
  with assms(6) s'(2) show ?thesis by (auto simp: turn_of_run_def)
qed

lemma release_made:
  assumes "sru_port sru = memory_port" and "respects_claim sru (scope, sid) rid"
    and "session_view_of (w_sessions w) (scope, sid) = Some (ts, Some cl)" and "claim_run_id cl = rid"
    and "releaseW sru scope sid rid w = (Inr u, w')"
  shows "session_view_of (w_sessions w') (scope, sid) = Some (ts, None)"
proof -
  have held: "session_view_of (arriving sru w) (scope, sid) = Some (ts, Some cl)"
    using arriving_held assms(2-4) by metis
  then obtain x where x: "arriving sru w (scope, sid) = Some x" "ss_turns x = ts" "ss_claim x = Some cl"
    by (auto simp: session_view_of_def)
  have "release_claim (fst (sru_clock sru (w_calls w))) scope sid rid (arriving sru w) = (Inr u, w_sessions w')"
    using assms(1,5) by (auto simp: releaseW_def with_store_result arriving_def)
  with x assms(4) have "w_sessions w' = (arriving sru w)((scope, sid) \<mapsto>
      x\<lparr>ss_claim := None, ss_updated_at := fst (sru_clock sru (w_calls w))\<rparr>)"
    by (auto simp: release_claim_def lookup_session_def)
  with x show ?thesis by (simp add: session_view_of_def)
qed

text \<open>
  A submission that returns: the turns it froze are those of the snapshot, and the session
  ends with exactly one more turn, unclaimed; unchanged and unclaimed; or unchanged and
  claimed by the Run, according to the status of the Run.
\<close>

lemma start_run_of:
  assumes "start_run fuel env rid s = (Inr run, t)" and "ids_ok (rs_store s)"
  shows "run_id run = rid"
  using driving.ok_start_run [of env rid "{}" fuel] assms by (auto simp: driving.ok_def driving.okS_def)

lemma create_keeps_ids:
  assumes "runner_create_run env did version input (Some rid) h s = (r, t)" and "ids_ok (rs_store s)"
  shows "ids_ok (rs_store t)"
  using exec_op_drives [OF assms(2), of env "Create_Run did version input rid h"] assms
  by (auto simp: drives_def intro: store_evolves_kept)

lemma submit_outcome:
  assumes port: "sru_port sru = memory_port" and inv: "sessions_inv (w_sessions w)"
    and ids: "ids_ok (rs_store (w_core w))"
    and sub: "submit fuel sru scope sid did version input w = (Inr res, w')"
    and resp: "respects_claim sru (scope, sid) (run_id (sres_run res))"
  shows "\<exists>ts co. session_view_of (arriving sru w) (scope, sid) = Some (ts, co)
     \<and> (if run_status_of (sres_run res) = SUCCEEDED
        then sres_status res = COMMITTED \<and> (\<exists>turn. sres_turn res = Some turn
          \<and> turn = turn_of_run (turn_id turn) sid (sres_run res) (turn_created_at turn)
          \<and> session_view_of (w_sessions w') (scope, sid) = Some (ts @ [turn], None))
        else sres_status res = NOT_READY \<and> session_view_of (w_sessions w') (scope, sid) =
          Some (ts, if is_terminal (run_status_of (sres_run res)) then None else Some (sres_claim res)))"
proof -
  let ?k = "(scope, sid)"
  obtain sn w1 where sn: "snapshotW sru scope sid w = (Inr sn, w1)"
    and "bindW (stampW (sru_new_id sru)) (\<lambda>rid. bindW (claimW sru scope sid rid (sn_version sn)) (\<lambda>claim.
     bindW (catchW (with_core (runner_create_run (sru_core sru) did version input (Some rid)
                      (to_conversation_history (sn_turns sn))))
              (\<lambda>e. bindW (catchW (releaseW sru scope sid rid)
                      (\<lambda>e'. if session_error_fault e' then retW () else raiseW e'))
                    (\<lambda>_. raiseW e))) (\<lambda>_.
     bindW (with_core (start_run fuel (sru_core sru) rid)) (\<lambda>run. complete_session sru scope sid run claim)))) w1 = (Inr res, w')"
    using sub by (auto simp: submit_def bindW_result)
  then obtain rid cl w2 where cl: "claimW sru scope sid rid (sn_version sn) w1 = (Inr cl, w2)"
    and rest: "bindW (catchW (with_core (runner_create_run (sru_core sru) did version input (Some rid)
                      (to_conversation_history (sn_turns sn))))
              (\<lambda>e. bindW (catchW (releaseW sru scope sid rid)
                      (\<lambda>e'. if session_error_fault e' then retW () else raiseW e'))
                    (\<lambda>_. raiseW e))) (\<lambda>_.
     bindW (with_core (start_run fuel (sru_core sru) rid)) (\<lambda>run. complete_session sru scope sid run cl)) w2 = (Inr res, w')"
    by (auto simp: bindW_result stampW_result)
  from rest obtain r0 w3 run w4 where
      cr: "with_core (runner_create_run (sru_core sru) did version input (Some rid)
             (to_conversation_history (sn_turns sn))) w2 = (Inr r0, w3)"
    and st: "with_core (start_run fuel (sru_core sru) rid) w3 = (Inr run, w4)"
    and co: "complete_session sru scope sid run cl w4 = (Inr res, w')"
    by (auto simp: bindW_result catchW_result)
  note snap = snapshot_read [OF port inv sn]
  note claim = claim_made [OF port snap(3) cl]
  obtain ts where ts: "session_view_of (arriving sru w1) ?k = Some (ts, None)"
    "session_view_of (w_sessions w2) ?k = Some (ts, Some cl)" "sn_version sn = int (length ts)"
    using claim(1) by blast
  obtain c0 where c0: "session_view_of (w_sessions w1) ?k = Some (sn_turns sn, c0)" using snap(1) by blast
  have "\<exists>us. ts = sn_turns sn @ us"
    using memory_sessions.history_append_only [OF c0, of "sru_others sru (w_calls w1)"] ts(1)
    by (auto simp: arriving_def)
  with ts(3) snap(2) have same: "ts = sn_turns sn" by auto
  note f3 = with_core_frame [OF cr] and f4 = with_core_frame [OF st]
  have "ids_ok (rs_store (w_core w3))"
    using create_keeps_ids [of _ _ _ _ rid _ "w_core w2" _ "w_core w3"] f3 ids claim(4) snap(4) by metis
  then have rid: "run_id run = rid" using start_run_of f4 by blast
  have w4: "session_view_of (w_sessions w4) ?k = Some (ts, Some cl)" "sessions_inv (w_sessions w4)"
    using f3 f4 ts(2) claim(3) by simp_all
  have view: "session_view_of (arriving sru w) ?k = Some (ts, c0)" using c0 snap(5) same by simp
  have run: "sres_run res = run"
    using co by (auto simp: complete_session_def commit_successful_run_def bindW_result catchW_result retW_def session_result_def
        split: if_splits)
  show ?thesis
  proof (cases "run_status_of run = SUCCEEDED")
    case True
    then have "commit_successful_run sru scope sid run cl w4 = (Inr res, w')" using co by (simp add: complete_session_def)
    from commit_made [OF port w4(2) _ w4(1) _ this] resp run rid claim(2)
    obtain turn where t: "res = session_result run cl COMMITTED (Some turn)"
      "turn = turn_of_run (turn_id turn) sid run (turn_created_at turn)"
      "session_view_of (w_sessions w') ?k = Some (ts @ [turn], None)" by auto
    then have "sres_status res = COMMITTED" "sres_turn res = Some turn" by (simp_all add: session_result_def)
    with t(2,3) True view run show ?thesis by auto
  next
    case False
    show ?thesis
    proof (cases "is_terminal (run_status_of run)")
      case True
      with False co obtain u where "releaseW sru scope sid rid w4 = (Inr u, w')" "res = session_result run cl NOT_READY None"
        by (auto simp: complete_session_def bindW_result retW_def rid)
      with release_made [OF port _ w4(1) claim(2)] resp run rid False True view
      show ?thesis by (auto simp: session_result_def)
    next
      case live: False
      with False co have "res = session_result run cl NOT_READY None" "w' = w4" by (auto simp: complete_session_def retW_def)
      with False live w4 run view show ?thesis by (auto simp: session_result_def)
    qed
  qed
qed

text \<open>
  Completing a successful Run never raises, whatever the session store does, and does not
  touch the core: a failing commit is reported as PENDING.
\<close>

lemma with_store_core: "with_store sru f w = (r, w') \<Longrightarrow> w_core w' = w_core w \<and> r \<noteq> Inl Unfinished"
  by (auto simp: with_store_def map_sum_def split: prod.splits sum.splits)

lemma complete_successful:
  assumes "run_status_of run = SUCCEEDED"
  shows "\<exists>res w'. complete_session sru scope sid run cl w = (Inr res, w') \<and> w_core w' = w_core w \<and> sres_run res = run
     \<and> sres_status res \<noteq> NOT_READY"
proof -
  let ?turn = "turn_of_run (sru_new_id sru (w_calls w)) sid run (fst (sru_clock sru (w_calls w)))"
  obtain r v where c: "commitW sru scope sid ?turn (claim_session_version cl) w = (r, v)"
    by (cases "commitW sru scope sid ?turn (claim_session_version cl) w")
  have "w_core v = w_core w" "r \<noteq> Inl Unfinished"
    using with_store_core [OF c [unfolded commitW_def]] by simp_all
  then show ?thesis
    using assms c by (cases r) (auto simp: complete_session_def commit_successful_run_def bindW_def stampW_def catchW_def retW_def
        session_result_def)
qed

text \<open>A Run that could not be created leaves its session unclaimed with the history it had.\<close>

lemma submit_not_created:
  assumes port: "sru_port sru = memory_port" and inv: "sessions_inv (w_sessions w)"
    and sn: "snapshotW sru scope sid w = (Inr sn, w1)"
    and cl: "claimW sru scope sid (sru_new_id sru (w_calls w1)) (sn_version sn) w1 = (Inr cl, w2)"
    and cr: "runner_create_run (sru_core sru) did version input (Some (sru_new_id sru (w_calls w1)))
        (to_conversation_history (sn_turns sn)) (w_core w2) = (Inl e, c)" and e: "e \<noteq> Unfinished"
    and resp: "respects_claim sru (scope, sid) (sru_new_id sru (w_calls w1))"
  shows "\<exists>w' ts. submit fuel sru scope sid did version input w = (Inl e, w')
     \<and> session_view_of (w_sessions w2) (scope, sid) = Some (ts, Some cl)
     \<and> session_view_of (w_sessions w') (scope, sid) = Some (ts, None)"
proof -
  let ?rid = "sru_new_id sru (w_calls w1)" and ?k = "(scope, sid)"
  note claim = claim_made [OF port snapshot_read(3) [OF port inv sn] cl]
  obtain ts where ts: "session_view_of (w_sessions w2) ?k = Some (ts, Some cl)" using claim(1) by blast
  let ?w3 = "w2\<lparr>w_core := c\<rparr>"
  have held: "session_view_of (arriving sru ?w3) ?k = Some (ts, Some cl)"
    using ts claim(2) resp by (intro arriving_held) simp_all
  then obtain x where x: "arriving sru ?w3 ?k = Some x" "ss_claim x = Some cl" by (auto simp: session_view_of_def)
  obtain w4 where rel: "releaseW sru scope sid ?rid ?w3 = (Inr (), w4)"
    using x claim(2) port by (auto simp: releaseW_def with_store_def arriving_def release_claim_def lookup_session_def)
  have "session_view_of (w_sessions w4) ?k = Some (ts, None)"
    using release_made [OF port _ _ claim(2) rel] ts resp by simp
  moreover have "submit fuel sru scope sid did version input w = (Inl e, w4)"
    using sn cl cr e rel
    by (simp add: submit_def bindW_def stampW_def catchW_def with_core_def raiseW_def)
  ultimately show ?thesis using ts by blast
qed

end
