(* ===== verification/Eval_Execute.thy ===== *)
theory Eval_Execute
  imports Eval_Store Session_Runner
begin

text \<open>
  The controlled execution of eval items, \<open>src/src/m_agent/companion/eval/_execute.py\<close>. The subject Runs
  live in a Run Store of their own (\<open>ew_subject\<close>, driven by the Runner of \<open>Runner_Ops\<close>); an isolated
  session store is optional and is any implementation of the \<open>SessionStore\<close> protocol. Every call of
  the session store or of the eval store is an await, before which other clients may have used that store;
  clocks and \<open>uuid4\<close> are functions of the number of such calls.
\<close>

section \<open>Ports and state\<close>

record 's eval_sessions =
  evs_port :: "'s session_port"
  evs_get_claim :: "session_scope \<Rightarrow> ident \<Rightarrow> 's \<Rightarrow> exn + session_run_claim option"
  evs_create :: "timestamp \<Rightarrow> session_scope \<Rightarrow> ident \<Rightarrow> 's \<Rightarrow> (exn + session_record) \<times> 's"
  evs_clock :: "nat \<Rightarrow> timestamp \<times> timestamp"
  evs_others :: "nat \<Rightarrow> session_cmd list"

record judge_binding =
  jb_judge :: evaluator_ref
  jb_definition_id :: ident
  jb_definition_version :: ident
  jb_requirements :: evidence_requirements

text \<open>
  What executor, judge and engine are constructed with, and the library functions they call:
  \<open>model_dump\<close> of a projection, \<open>json.loads\<close>, \<open>float\<close> of a JSON number (\<open>OverflowError\<close> when an
  integer is too large), and the texts of exceptions that end up in diagnostics.
\<close>

record 's eval_env =
  ee_digests :: eval_digests
  ee_subject :: runner_env
  ee_judge :: "runner_env option"
  ee_sessions :: "'s eval_sessions option"
  ee_evaluators :: "ident \<Rightarrow> deterministic_evaluator option"
  ee_bindings :: "ident \<Rightarrow> judge_binding option"
  ee_policy :: projection_policy
  ee_tool_deterministic :: "tool \<Rightarrow> bool"
  ee_clock :: "nat \<Rightarrow> timestamp"
  ee_utc :: "nat \<Rightarrow> timestamp"
  ee_new_id :: "nat \<Rightarrow> ident"
  ee_others :: "nat \<Rightarrow> eval_fact list"
  ee_dump_projection :: "observation_projection \<Rightarrow> fault + json"
  ee_loads :: "pystr \<Rightarrow> json option"
  ee_float :: "json \<Rightarrow> exn + rat"
  ee_verdict_error :: "pystr \<Rightarrow> pystr"
  ee_show_exc :: "fault \<Rightarrow> pystr"

record 's eval_world =
  ew_subject :: runner_state
  ew_judge :: runner_state
  ew_sessions :: 's
  ew_store :: eval_store
  ew_calls :: nat

type_synonym ('s, 'a) eval_action = "('s eval_world, 'a) action"

definition liftW :: "exn + 'a \<Rightarrow> ('w, 'a) action" where
  "liftW r w = (map_sum Exn id r, w)"

definition with_subject :: "'a runner \<Rightarrow> ('s, 'a) eval_action" where
  "with_subject m w = (case m (ew_subject w) of (r, c) \<Rightarrow> (r, w\<lparr>ew_subject := c\<rparr>))"

definition with_facts :: "'s eval_env \<Rightarrow> (eval_store \<Rightarrow> (exn + 'a) \<times> eval_store) \<Rightarrow> ('s, 'a) eval_action" where
  "with_facts env f w =
     (case f (run_all put_fact (ee_others env (ew_calls w)) (ew_store w)) of
        (r, s) \<Rightarrow> (map_sum Exn id r, w\<lparr>ew_store := s, ew_calls := Suc (ew_calls w)\<rparr>))"

definition with_eval_sessions ::
  "'s eval_sessions \<Rightarrow> (nat \<Rightarrow> 's \<Rightarrow> (exn + 'a) \<times> 's) \<Rightarrow> ('s, 'a) eval_action" where
  "with_eval_sessions ses f w =
     (case f (ew_calls w) (run_all (port_exec (evs_port ses)) (evs_others ses (ew_calls w)) (ew_sessions w)) of
        (r, s) \<Rightarrow> (map_sum Exn id r, w\<lparr>ew_sessions := s, ew_calls := Suc (ew_calls w)\<rparr>))"

definition stampE :: "(nat \<Rightarrow> 'a) \<Rightarrow> ('s, 'a) eval_action" where
  "stampE f w = (Inr (f (ew_calls w)), w)"

section \<open>Identities\<close>

definition subject_run_id :: "eval_digests \<Rightarrow> ident \<Rightarrow> eval_suite_item \<Rightarrow> ident" where
  "subject_run_id d eid item =
     ''eval-run-'' @ take 32 (digest_of d [ustr ''eval-subject-run'', ustr eid, ustr (item_id item)])"

definition eval_session_scope :: "ident \<Rightarrow> session_scope" where
  "eval_session_scope eid = ''eval-execution:'' @ eid"

definition eval_session_id :: "eval_suite_item \<Rightarrow> ident" where
  "eval_session_id item = ''eval-item:'' @ item_id item"

definition execute_observation_id :: "eval_digests \<Rightarrow> ident \<Rightarrow> eval_suite_item \<Rightarrow> ident" where
  "execute_observation_id d eid item =
     digest_of d [ustr ''eval-observation'', ustr (mode_value MODE_EXECUTE), ustr eid, ustr (item_id item)]"

section \<open>The fixture boundary\<close>

definition definition_adapters :: "agent_definition \<Rightarrow> model_adapter list" where
  "definition_adapters d = def_model_adapter d # map snd (def_model_adapters d)"

definition enforce_fixture_boundary :: "(tool \<Rightarrow> bool) \<Rightarrow> eval_case \<Rightarrow> agent_definition \<Rightarrow> exn + unit" where
  "enforce_fixture_boundary deterministic c d =
     (if list_ex (\<lambda>a. \<not> ma_deterministic a) (definition_adapters d) then Inl EvalFixtureBoundaryError
      else if list_ex (\<lambda>t. tool_name t \<notin> set (declared_external_effects (fixture_bundle_of c))
                 \<and> (\<not> deterministic t \<or> tool_effect_of t \<noteq> READ_ONLY)) (def_tools d) then Inl EvalFixtureBoundaryError
      else Inr ())"

definition capabilities_supported :: "agent_definition \<Rightarrow> model_capabilities \<Rightarrow> bool" where
  "capabilities_supported d required = supports (ma_capabilities (def_model_adapter d)) required"

section \<open>The isolated session\<close>

type_synonym claim_binding = "session_scope \<times> ident \<times> int"

definition eval_claim_session ::
  "'s eval_env \<Rightarrow> ident \<Rightarrow> eval_suite_item \<Rightarrow> ident \<Rightarrow> ('s, claim_binding option) eval_action" where
  "eval_claim_session env eid item rid =
     (case ee_sessions env of
        None \<Rightarrow> retW None
      | Some ses \<Rightarrow>
     (let scope = eval_session_scope eid; sid = eval_session_id item in
     bindW (with_eval_sessions ses (\<lambda>n s. (evs_get_claim ses scope sid s, s))) (\<lambda>existing.
     if (case existing of None \<Rightarrow> False | Some cl \<Rightarrow> claim_run_id cl = rid)
     then retW (Some (scope, sid, claim_session_version (the existing)))
     else
     bindW (with_eval_sessions ses (\<lambda>n s. (port_get_session (evs_port ses) scope sid s, s))) (\<lambda>found.
     bindW (case found of
              Some rec \<Rightarrow> retW rec
            | None \<Rightarrow> with_eval_sessions ses (\<lambda>n. evs_create ses (fst (evs_clock ses n)) scope sid)) (\<lambda>rec.
     bindW (with_eval_sessions ses (\<lambda>n s. (port_find_turn (evs_port ses) scope sid rid s, s))) (\<lambda>committed.
     if committed \<noteq> None then retW (Some (scope, sid, rec_version rec))
     else
     bindW (with_eval_sessions ses (\<lambda>n. port_claim_run (evs_port ses) (fst (evs_clock ses n)) (snd (evs_clock ses n))
              scope sid rid (rec_version rec))) (\<lambda>cl.
       retW (Some (scope, sid, claim_session_version cl)))))))))"

definition eval_release :: "'s eval_sessions \<Rightarrow> session_scope \<Rightarrow> ident \<Rightarrow> ident \<Rightarrow> ('s, unit) eval_action" where
  "eval_release ses scope sid rid =
     catchW (with_eval_sessions ses (\<lambda>n. port_release_claim (evs_port ses) (fst (evs_clock ses n)) scope sid rid)) (\<lambda>e. retW ())"

definition eval_complete_session ::
  "'s eval_env \<Rightarrow> ident \<Rightarrow> eval_suite_item \<Rightarrow> run_record \<Rightarrow> claim_binding option \<Rightarrow> ('s, unit) eval_action" where
  "eval_complete_session env eid item run binding =
     (case (binding, ee_sessions env) of
        (Some (scope, sid, version), Some ses) \<Rightarrow>
          if run_status_of run = SUCCEEDED then
            bindW (stampE (\<lambda>n. turn_of_run (digest_of (ee_digests env) [ustr ''eval-turn'', ustr eid, ustr (item_id item)])
                sid run (ee_clock env n))) (\<lambda>turn.
              catchW (bindW (with_eval_sessions ses (\<lambda>n. port_commit_turn (evs_port ses) (fst (evs_clock ses n)) scope sid turn version))
                  (\<lambda>_. retW ()))
                (\<lambda>e. retW ()))
          else if is_terminal (run_status_of run) then eval_release ses scope sid (run_id run)
          else retW ()
      | _ \<Rightarrow> retW ())"

section \<open>Items and suites\<close>

definition drive_subject_run ::
  "nat \<Rightarrow> runner_env \<Rightarrow> agent_definition \<Rightarrow> eval_case \<Rightarrow> ident \<Rightarrow> run_record runner" where
  "drive_subject_run fuel renv d c rid =
     bindR (catchR (bindR (get_existing_run renv rid) (\<lambda>run. retR (Some run)))
        (\<lambda>e. if e = Exn RunNotFoundError then retR None else reraise e)) (\<lambda>found.
     case found of
       None \<Rightarrow>
         thenR (runner_create_run renv (def_id d) (def_version d) (case_input c) (Some rid) (case_history c))
           (start_run fuel renv rid)
     | Some run \<Rightarrow> if \<not> is_terminal (run_status_of run) then resume_run fuel renv rid else retR run)"

definition execute_item ::
  "nat \<Rightarrow> 's eval_env \<Rightarrow> eval_suite \<Rightarrow> eval_suite_item \<Rightarrow> ident \<Rightarrow> ('s, eval_observation) eval_action" where
  "execute_item fuel env suite item eid =
     bindW (liftW (case_by_id suite (item_case_id item))) (\<lambda>c.
     let v = item_variant item;
         oid = execute_observation_id (ee_digests env) eid item;
         rid = subject_run_id (ee_digests env) eid item;
         without_run = (\<lambda>compl reason. bindW (stampE (ee_utc env)) (\<lambda>now.
            liftW (validate_observation (bare_observation oid MODE_EXECUTE rid (Some eid) (Some (evv_id v)) compl reason now))))
     in case resolve (evv_definition_id v) (evv_definition_version v) (re_registry (ee_subject env)) of
       Inl _ \<Rightarrow> without_run EC_UNAVAILABLE REASON_VARIANT_UNRESOLVED
     | Inr d \<Rightarrow>
     bindW (liftW (enforce_fixture_boundary (ee_tool_deterministic env) c d)) (\<lambda>_.
     if (case case_required_capabilities c of None \<Rightarrow> False | Some req \<Rightarrow> \<not> capabilities_supported d req)
     then without_run EC_UNSUPPORTED REASON_MODEL_CAPABILITIES_MISSING
     else
     bindW (eval_claim_session env eid item rid) (\<lambda>binding.
     bindW (catchW (with_subject (drive_subject_run fuel (ee_subject env) d c rid))
        (\<lambda>e. bindW (case (binding, ee_sessions env) of
                      (Some (scope, sid, _), Some ses) \<Rightarrow> eval_release ses scope sid rid
                    | _ \<Rightarrow> retW ())
               (\<lambda>_. raiseW e))) (\<lambda>run.
     bindW (eval_complete_session env eid item run binding) (\<lambda>_.
     bindW (with_subject (inspect_run (ee_subject env) rid)) (\<lambda>insp.
     bindW (stampE (ee_utc env)) (\<lambda>now.
       liftW (observation_from_inspection oid MODE_EXECUTE (Some insp) rid (Some eid) (Some (evv_id v)) None now))))))))"

definition validate_execution :: "eval_execution \<Rightarrow> exn + eval_execution" where
  "validate_execution x =
     (if execution_id x = [] \<or> ex_suite_id x = [] \<or> ex_suite_version x = [] \<or> ex_suite_digest x = [] \<or> ex_mode x = []
         \<or> ex_item_ids x = [] then Inl ValueError else Inr x)"

definition execution_record :: "eval_digests \<Rightarrow> eval_suite \<Rightarrow> ident \<Rightarrow> eval_suite_item list \<Rightarrow> timestamp \<Rightarrow> exn + eval_execution" where
  "execution_record d suite eid items now =
     validate_execution
       \<lparr>execution_id = eid, ex_suite_id = suite_id suite, ex_suite_version = suite_version suite,
        ex_suite_digest = suite_content_digest d suite, ex_mode = mode_value MODE_EXECUTE,
        ex_item_ids = map item_id items, ex_created_at = now\<rparr>"

primrec execute_items ::
  "nat \<Rightarrow> 's eval_env \<Rightarrow> bool \<Rightarrow> eval_suite \<Rightarrow> ident \<Rightarrow> eval_suite_item list \<Rightarrow> ('s, eval_observation list) eval_action" where
  "execute_items fuel env stored suite eid [] = retW []"
| "execute_items fuel env stored suite eid (item # items) =
     bindW (execute_item fuel env suite item eid) (\<lambda>x.
     bindW (if stored then with_facts env (record_observation x) else retW x) (\<lambda>_.
     bindW (execute_items fuel env stored suite eid items) (\<lambda>xs. retW (x # xs))))"

text \<open>\<open>store\<close> is optional: \<open>stored\<close> says whether one was given.\<close>

definition execute_suite ::
  "nat \<Rightarrow> 's eval_env \<Rightarrow> bool \<Rightarrow> eval_suite \<Rightarrow> ('s, eval_execution \<times> eval_observation list) eval_action" where
  "execute_suite fuel env stored suite =
     bindW (liftW (expand (ee_digests env) suite)) (\<lambda>items.
     bindW (stampE (\<lambda>n. execution_record (ee_digests env) suite (''eval-exec-'' @ ee_new_id env n) items (ee_utc env n))) (\<lambda>made.
     bindW (liftW made) (\<lambda>x.
     bindW (if stored then with_facts env (record_execution x) else retW x) (\<lambda>_.
     bindW (execute_items fuel env stored suite (execution_id x) items) (\<lambda>xs. retW (x, xs))))))"

section \<open>Facts are only added\<close>

definition grows :: "eval_store \<Rightarrow> eval_store \<Rightarrow> bool" where
  "grows s s' \<longleftrightarrow> (\<forall>k g. get_fact k s = Some g \<longrightarrow> get_fact k s' = Some g)"

lemma grows_refl [simp]: "grows s s"
  by (simp add: grows_def)

lemma grows_trans [trans]: "grows s t \<Longrightarrow> grows t u \<Longrightarrow> grows s u"
  by (simp add: grows_def)

lemma growsD: "grows s s' \<Longrightarrow> get_fact k s = Some g \<Longrightarrow> get_fact k s' = Some g"
  by (simp add: grows_def)

lemma grows_others [simp]: "grows s (run_all put_fact fs s)"
  by (simp add: grows_def memory_facts.immutable)

lemma grows_put: "grows s (snd (put_fact f s))"
  by (simp add: grows_def memory_facts.put_keeps)

lemma grows_record [simp]:
  "grows s (snd (record_execution x s))" "grows s (snd (record_observation y s))" "grows s (snd (record_evaluator_result z s))"
  using grows_put [of s "Fact_Execution x"] grows_put [of s "Fact_Observation y"] grows_put [of s "Fact_Result z"]
  by (simp_all add: fact_reply_def)

definition keeps_facts :: "('s, 'a) eval_action \<Rightarrow> bool" where
  "keeps_facts m \<longleftrightarrow> (\<forall>w. grows (ew_store w) (ew_store (snd (m w))))"

named_theorems keeps

lemma keeps_factsD: "keeps_facts m \<Longrightarrow> m w = (r, w') \<Longrightarrow> grows (ew_store w) (ew_store w')"
  by (metis keeps_facts_def snd_conv)

lemma keeps_bindW [keeps]: "keeps_facts m \<Longrightarrow> (\<And>x. keeps_facts (f x)) \<Longrightarrow> keeps_facts (bindW m f)"
  unfolding keeps_facts_def bindW_def
  by (auto split: prod.splits sum.splits) (metis grows_trans snd_conv)+

lemma keeps_catchW [keeps]: "keeps_facts m \<Longrightarrow> (\<And>e. keeps_facts (h e)) \<Longrightarrow> keeps_facts (catchW m h)"
  unfolding keeps_facts_def catchW_def
  by (auto split: prod.splits sum.splits) (metis grows_trans snd_conv)+

lemma keeps_simple [keeps]:
  "keeps_facts (retW x)" "keeps_facts (raiseW e)" "keeps_facts (liftW r)" "keeps_facts (stampE f)"
  by (simp_all add: keeps_facts_def retW_def raiseW_def liftW_def stampE_def)

lemma keeps_foreign [keeps]: "keeps_facts (with_subject m)" "keeps_facts (with_eval_sessions ses f)"
  by (simp_all add: keeps_facts_def with_subject_def with_eval_sessions_def split: prod.splits)

lemma keeps_with_facts [keeps]:
  fixes env :: "'s eval_env"
  assumes "\<And>s. grows s (snd (f s))"
  shows "keeps_facts (with_facts env f)"
  unfolding keeps_facts_def
proof
  fix w :: "'s eval_world"
  let ?s = "run_all put_fact (ee_others env (ew_calls w)) (ew_store w)"
  have "grows (ew_store w) ?s" by simp
  also have "grows ?s (snd (f ?s))" by (rule assms)
  finally show "grows (ew_store w) (ew_store (snd (with_facts env f w)))"
    by (auto simp: with_facts_def split: prod.splits)
qed

lemma keeps_if [keeps]: "keeps_facts a \<Longrightarrow> keeps_facts b \<Longrightarrow> keeps_facts (if P then a else b)"
  by simp

lemma keeps_option [keeps]: "keeps_facts a \<Longrightarrow> (\<And>x. keeps_facts (f x)) \<Longrightarrow> keeps_facts (case r of None \<Rightarrow> a | Some x \<Rightarrow> f x)"
  by (cases r) simp_all

lemma keeps_sum [keeps]: "(\<And>e. keeps_facts (f e)) \<Longrightarrow> (\<And>x. keeps_facts (g x)) \<Longrightarrow> keeps_facts (case r of Inl e \<Rightarrow> f e | Inr x \<Rightarrow> g x)"
  by (cases r) simp_all

lemma keeps_prod [keeps]: "(\<And>a b. keeps_facts (f a b)) \<Longrightarrow> keeps_facts (case p of (a, b) \<Rightarrow> f a b)"
  by (cases p) simp

lemma keeps_claim [keeps]: "keeps_facts (eval_claim_session env eid item rid)"
  unfolding eval_claim_session_def Let_def by (intro keeps)

lemma keeps_release [keeps]: "keeps_facts (eval_release ses scope sid rid)"
  unfolding eval_release_def by (intro keeps)

lemma keeps_complete [keeps]: "keeps_facts (eval_complete_session env eid item run b)"
  unfolding eval_complete_session_def by (intro keeps)

lemma keeps_execute_item [keeps]: "keeps_facts (execute_item fuel env suite item eid)"
  unfolding execute_item_def Let_def by (intro keeps)

section \<open>What one item does\<close>

lemma liftW_result: "liftW r w = (Inr x, w') \<longleftrightarrow> r = Inr x \<and> w' = w"
  by (cases r) (auto simp: liftW_def)

lemma liftW_fails: "liftW r w = (Inl e, w') \<longleftrightarrow> (\<exists>x. r = Inl x \<and> e = Exn x) \<and> w' = w"
  by (cases r) (auto simp: liftW_def)

lemma stampE_result: "stampE f w = (r, w') \<longleftrightarrow> r = Inr (f (ew_calls w)) \<and> w' = w"
  by (auto simp: stampE_def)

lemma retW_result: "retW x w = (r, w') \<longleftrightarrow> r = Inr x \<and> w' = w"
  by (auto simp: retW_def)

lemma validate_observation_id: "validate_observation x = Inr y \<Longrightarrow> y = x"
  by (simp add: validate_observation_def split: if_splits)

text \<open>An item's observation carries the identity under which the engine looks it up.\<close>

definition returns_only :: "('w, 'a) action \<Rightarrow> ('a \<Rightarrow> bool) \<Rightarrow> bool" where
  "returns_only m P \<longleftrightarrow> (\<forall>w x w'. m w = (Inr x, w') \<longrightarrow> P x)"

lemma returns_onlyD: "returns_only m P \<Longrightarrow> m w = (Inr x, w') \<Longrightarrow> P x"
  by (auto simp: returns_only_def)

lemma returns_bindW: "(\<And>x. returns_only (f x) P) \<Longrightarrow> returns_only (bindW m f) P"
  by (auto simp: returns_only_def bindW_result)

lemma returns_liftW: "(\<And>x. r = Inr x \<Longrightarrow> P x) \<Longrightarrow> returns_only (liftW r) P"
  by (simp add: returns_only_def liftW_result)

lemma returns_if: "returns_only a P \<Longrightarrow> returns_only b P \<Longrightarrow> returns_only (if c then a else b) P"
  by simp

lemma returns_option: "returns_only a P \<Longrightarrow> (\<And>x. returns_only (f x) P) \<Longrightarrow> returns_only (case r of None \<Rightarrow> a | Some x \<Rightarrow> f x) P"
  by (cases r) simp_all

lemma returns_sum:
  "(\<And>e. returns_only (f e) P) \<Longrightarrow> (\<And>x. returns_only (g x) P) \<Longrightarrow> returns_only (case r of Inl e \<Rightarrow> f e | Inr x \<Rightarrow> g x) P"
  by (cases r) simp_all

lemma returns_raiseW: "returns_only (raiseW e) P"
  by (simp add: returns_only_def)

lemmas returns = returns_bindW returns_liftW returns_if returns_option returns_sum returns_raiseW

lemma execute_item_returns:
  "returns_only (execute_item fuel env suite item eid) (\<lambda>x. observation_id x = execute_observation_id (ee_digests env) eid item
     \<and> obs_mode x = MODE_EXECUTE \<and> obs_execution_id x = Some eid)"
  unfolding execute_item_def Let_def
  by (intro returns)
    (auto simp: bare_observation_def dest!: validate_observation_id dest: observation_of_inspection)

lemmas execute_item_identity = execute_item_returns [THEN returns_onlyD]

text \<open>Outside the fixture boundary nothing happens at all: no Run, no claim, no fact.\<close>

lemma outside_boundary:
  assumes "case_by_id suite (item_case_id item) = Inr c"
    and "resolve (evv_definition_id (item_variant item)) (evv_definition_version (item_variant item)) (re_registry (ee_subject env)) = Inr d"
    and "isl (enforce_fixture_boundary (ee_tool_deterministic env) c d)"
  shows "execute_item fuel env suite item eid w = (Inl (Exn EvalFixtureBoundaryError), w)"
  using assms
  by (auto simp: execute_item_def bindW_def liftW_def Let_def enforce_fixture_boundary_def isl_def split: if_splits)

text \<open>The static gates: no Run is created or advanced, and no claim is made.\<close>

definition never_runs :: "runner_env \<Rightarrow> eval_case \<Rightarrow> eval_variant \<Rightarrow> bool" where
  "never_runs renv c v \<longleftrightarrow>
     (case resolve (evv_definition_id v) (evv_definition_version v) (re_registry renv) of
        Inl _ \<Rightarrow> True
      | Inr d \<Rightarrow> (\<exists>req. case_required_capabilities c = Some req \<and> \<not> capabilities_supported d req))"

lemma gated_item:
  assumes "case_by_id suite (item_case_id item) = Inr c" and "never_runs (ee_subject env) c (item_variant item)"
    and "execute_item fuel env suite item eid w = (r, w')"
  shows "w' = w" and "r = Inr x \<Longrightarrow> completeness x \<in> {EC_UNAVAILABLE, EC_UNSUPPORTED} \<and> obs_run_status x = None"
  using assms
  by (auto simp: execute_item_def never_runs_def bindW_def liftW_def stampE_def Let_def bare_observation_def
      enforce_fixture_boundary_def validate_observation_def split: sum.splits if_splits option.splits)

text \<open>A finished subject Run is returned as it is; its Runner does nothing.\<close>

lemma finished_run_not_repeated:
  assumes "get_run (re_store renv) rid (rs_store s) = Inr (Some run)" and "is_terminal (run_status_of run)"
  shows "drive_subject_run fuel renv d c rid s = (Inr run, s)"
  using assms by (simp add: drive_subject_run_def get_existing_run_def store_get_def runner_simps)

end
