(* ===== verification/Eval_Engine.thy ===== *)
theory Eval_Engine
  imports Eval_Execute
begin

text \<open>
  Judges and the engine that runs and resumes a suite: \<open>_judge.py\<close> and \<open>_engine.py\<close> under
  \<open>src/src/m_agent/companion/eval\<close>. Judge Runs live in a Run Store of their own (\<open>ew_judge\<close>); the facts
  of an execution are looked up before they are produced.
\<close>

section \<open>Judges\<close>

definition REASON_JUDGE_VERDICT_INVALID :: ident where "REASON_JUDGE_VERDICT_INVALID = ''JUDGE_VERDICT_INVALID''"
definition REASON_JUDGE_VERDICT_RENDERED :: ident where "REASON_JUDGE_VERDICT_RENDERED = ''JUDGE_VERDICT_RENDERED''"
definition REASON_JUDGE_RUN_FAILED :: ident where "REASON_JUDGE_RUN_FAILED = ''JUDGE_RUN_FAILED''"

definition validate_judge_binding :: "judge_binding \<Rightarrow> exn + judge_binding" where
  "validate_judge_binding b =
     (if jb_definition_id b = [] \<or> jb_definition_version b = [] then Inl ValueError else Inr b)"

fun is_json_number :: "json \<Rightarrow> bool" where
  "is_json_number (JBool _) \<longleftrightarrow> True"
| "is_json_number (JInt _) \<longleftrightarrow> True"
| "is_json_number (JFloat _) \<longleftrightarrow> True"
| "is_json_number _ \<longleftrightarrow> False"

text \<open>Verdict, score and rationale, or None where the \<open>try\<close> block raises.\<close>

definition verdict_fields :: "json option \<Rightarrow> (bool \<times> json option \<times> pystr) option" where
  "verdict_fields payload =
     (case payload of
        Some (JObj kvs) \<Rightarrow>
          (case json_get kvs ''verdict'' of
             None \<Rightarrow> None
           | Some v \<Rightarrow>
               (let score = (case json_get kvs ''score'' of Some JNull \<Rightarrow> None | r \<Rightarrow> r) in
                if v \<noteq> jstr ''PASS'' \<and> v \<noteq> jstr ''FAIL'' then None
                else if (case score of None \<Rightarrow> False | Some n \<Rightarrow> \<not> is_json_number n) then None
                else case json_get kvs ''rationale'' of
                  None \<Rightarrow> Some (v = jstr ''PASS'', score, [])
                | Some (JStr t) \<Rightarrow> Some (v = jstr ''PASS'', score, t)
                | _ \<Rightarrow> None))
      | _ \<Rightarrow> None)"

definition parse_judge_verdict :: "'s eval_env \<Rightarrow> pystr \<Rightarrow> evaluator_ref \<Rightarrow> exn + evaluator_result" where
  "parse_judge_verdict env txt judge =
     (case verdict_fields (ee_loads env txt) of
        None \<Rightarrow> Inr (verdict judge O_ERROR K_EVALUATOR REASON_JUDGE_VERDICT_INVALID (ee_verdict_error env txt) False)
      | Some (passed, score, rationale) \<Rightarrow>
          bindE (case score of None \<Rightarrow> Inr None | Some n \<Rightarrow> bindE (ee_float env n) (\<lambda>x. Inr (Some x))) (\<lambda>sc.
            Inr ((verdict judge (if passed then O_PASS else O_FAIL) (if passed then K_NONE else K_SUBJECT)
              REASON_JUDGE_VERDICT_RENDERED rationale False)\<lparr>er_score := sc\<rparr>)))"

definition judge_run_id :: "eval_digests \<Rightarrow> ident \<Rightarrow> ident \<Rightarrow> evaluator_ref \<Rightarrow> ident" where
  "judge_run_id d eid iid judge =
     ''eval-judge-'' @ take 32 (digest_of d [ustr ''eval-judge-run'', ustr eid, ustr iid,
        ustr (evaluator_id judge), ustr (evaluator_version judge)])"

definition judge_result_id :: "eval_digests \<Rightarrow> ident \<Rightarrow> ident \<Rightarrow> evaluator_ref \<Rightarrow> ident" where
  "judge_result_id d eid iid judge =
     digest_of d [ustr ''eval-judge-result'', ustr eid, ustr iid, ustr (evaluator_id judge), ustr (evaluator_version judge)]"

definition validate_result_record :: "eval_result_record \<Rightarrow> exn + eval_result_record" where
  "validate_result_record r =
     (if evr_id r = [] \<or> evr_observation_id r = [] \<or> evr_reason_code r = [] then Inl ValueError else Inr r)"

text \<open>The record of one result of an item: the fields every caller fills in from the item.\<close>

definition result_record ::
  "ident \<Rightarrow> ident \<Rightarrow> ident \<Rightarrow> eval_suite_item \<Rightarrow> evaluator_result \<Rightarrow> bool \<Rightarrow> ident list \<Rightarrow> ident option \<Rightarrow> timestamp
     \<Rightarrow> eval_result_record" where
  "result_record i eid oid item r hard refs jrun now =
     \<lparr>evr_id = i, evr_execution_id = Some eid, evr_observation_id = oid, evr_item_id = item_id item,
      evr_case_id = item_case_id item, evr_variant_id = evv_id (item_variant item),
      evr_repetition_index = repetition_index item, evr_evaluator = er_evaluator r, evr_outcome = er_outcome r,
      evr_failure_kind = er_failure_kind r, evr_reason_code = er_reason_code r, evr_detail = er_detail r,
      evr_score = er_score r, evr_hard = hard, evr_evidence_refs = refs, evr_judge_run_id = jrun, evr_created_at = now\<rparr>"

definition enforce_judge_definition :: "agent_definition \<Rightarrow> exn + unit" where
  "enforce_judge_definition d =
     (if def_tools d \<noteq> [] then Inl EvalFixtureBoundaryError
      else if list_ex (\<lambda>a. \<not> ma_deterministic a) (definition_adapters d) then Inl EvalFixtureBoundaryError
      else Inr ())"

definition drive_judge_run :: "nat \<Rightarrow> runner_env \<Rightarrow> agent_definition \<Rightarrow> pystr \<Rightarrow> ident \<Rightarrow> run_record runner" where
  "drive_judge_run fuel renv d input rid =
     bindR (catchR (bindR (get_existing_run renv rid) (\<lambda>run. retR (Some run)))
        (\<lambda>e. if e = Exn RunNotFoundError then retR None else reraise e)) (\<lambda>found.
     case found of
       None \<Rightarrow> thenR (runner_create_run renv (def_id d) (def_version d) input (Some rid) []) (start_run fuel renv rid)
     | Some run \<Rightarrow>
         if run_input run \<noteq> input then raiseR EvalError
         else if \<not> is_terminal (run_status_of run) then resume_run fuel renv rid else retR run)"

definition with_judge :: "'a runner \<Rightarrow> ('s, 'a) eval_action" where
  "with_judge m w = (case m (ew_judge w) of (r, c) \<Rightarrow> (r, w\<lparr>ew_judge := c\<rparr>))"

text \<open>\<open>_failure_record\<close>: a judge Run that did not succeed is a failure of the evaluator.\<close>

definition judge_failure :: "evaluator_ref \<Rightarrow> run_status \<Rightarrow> evaluator_result" where
  "judge_failure judge st =
     verdict judge O_ERROR K_EVALUATOR REASON_JUDGE_RUN_FAILED (ustr (''judge run ended in '' @ status_value st)) False"

definition run_judge ::
  "nat \<Rightarrow> 's eval_env \<Rightarrow> runner_env \<Rightarrow> judge_binding \<Rightarrow> observation_projection \<Rightarrow> ident \<Rightarrow> eval_suite_item
     \<Rightarrow> ('s, eval_result_record) eval_action" where
  "run_judge fuel env jenv b p eid item =
     (let d = ee_digests env; rid = judge_run_id d eid (item_id item) (jb_judge b) in
     bindW (liftW (resolve (jb_definition_id b) (jb_definition_version b) (re_registry jenv))) (\<lambda>def.
     bindW (liftW (enforce_judge_definition def)) (\<lambda>_.
     case ee_dump_projection env p of
       Inl e \<Rightarrow> raiseW e
     | Inr dump \<Rightarrow>
     bindW (with_judge (drive_judge_run fuel jenv def (canonical_json d dump) rid)) (\<lambda>run.
     bindW (liftW (if run_status_of run \<noteq> SUCCEEDED then Inr (judge_failure (jb_judge b) (run_status_of run))
                   else case run_output run of
                     None \<Rightarrow> Inr (judge_failure (jb_judge b) (run_status_of run))
                   | Some txt \<Rightarrow> parse_judge_verdict env txt (jb_judge b))) (\<lambda>r.
     bindW (stampE (ee_utc env)) (\<lambda>now.
       liftW (validate_result_record
         (result_record (judge_result_id d eid (item_id item) (jb_judge b)) eid (pj_observation_id p) item r False
            [pj_observation_id p] (Some rid) now))))))))"

section \<open>The engine\<close>

text \<open>\<open>__init__\<close>: the Run Stores are objects; a judge that shares the subject's store is refused.\<close>

definition make_engine :: "nat \<Rightarrow> nat option \<Rightarrow> 's eval_env \<Rightarrow> exn + 's eval_env" where
  "make_engine subject_store judge_store env =
     (if judge_store = Some subject_store then Inl EvalError else Inr env)"

definition binding_for :: "'s eval_env \<Rightarrow> evaluator_ref \<Rightarrow> exn + judge_binding option" where
  "binding_for env ref =
     (case ee_bindings env (evaluator_id ref) of
        None \<Rightarrow> Inr None
      | Some b \<Rightarrow> if jb_judge b \<noteq> ref then Inl EvalError else Inr (Some b))"

definition execution_identity :: "eval_digests \<Rightarrow> eval_suite \<Rightarrow> eval_mode \<Rightarrow> ident" where
  "execution_identity d suite mode =
     ''eval-exec-'' @ take 32 (digest_of d [ustr ''eval-execution'', ustr (suite_id suite), ustr (suite_version suite),
        ustr (suite_content_digest d suite), ustr (mode_value mode)])"

definition result_identity :: "eval_digests \<Rightarrow> ident \<Rightarrow> eval_suite_item \<Rightarrow> evaluator_ref \<Rightarrow> ident" where
  "result_identity d eid item ref =
     digest_of d [ustr ''eval-evaluator-result'', ustr eid, ustr (item_id item), ustr (evaluator_id ref), ustr (evaluator_version ref)]"

definition verify_execution_identity :: "eval_digests \<Rightarrow> eval_execution \<Rightarrow> eval_suite \<Rightarrow> exn + unit" where
  "verify_execution_identity d existing suite =
     (if ex_suite_id existing \<noteq> suite_id suite \<or> ex_suite_digest existing \<noteq> suite_content_digest d suite
         \<or> ex_mode existing \<noteq> mode_value MODE_EXECUTE then Inl EvalError else Inr ())"

definition look_up :: "'s eval_env \<Rightarrow> (eval_store \<Rightarrow> 'a option) \<Rightarrow> ('s, 'a option) eval_action" where
  "look_up env f = with_facts env (\<lambda>s. (Inr (f s), s))"

definition ensure_observation ::
  "nat \<Rightarrow> 's eval_env \<Rightarrow> eval_suite \<Rightarrow> eval_suite_item \<Rightarrow> ident \<Rightarrow> ('s, eval_observation) eval_action" where
  "ensure_observation fuel env suite item eid =
     bindW (look_up env (get_observation (execute_observation_id (ee_digests env) eid item))) (\<lambda>existing.
     case existing of
       Some x \<Rightarrow> retW x
     | None \<Rightarrow>
         bindW (execute_item fuel env suite item eid) (\<lambda>x.
         if obs_reason_code x = REASON_SUBJECT_NOT_TERMINAL then raiseW (Exn EvalError)
         else with_facts env (record_observation x)))"

definition execute_evaluator ::
  "nat \<Rightarrow> 's eval_env \<Rightarrow> eval_suite_item \<Rightarrow> ident \<Rightarrow> eval_observation \<Rightarrow> evaluator_ref \<Rightarrow> ('s, eval_result_record) eval_action" where
  "execute_evaluator fuel env item eid x ref =
     bindW (liftW (binding_for env ref)) (\<lambda>binding.
     case binding of
       Some b \<Rightarrow>
         (case ee_judge env of
            None \<Rightarrow> raiseW (Exn EvalError)
          | Some jenv \<Rightarrow>
              run_judge fuel env jenv b (project_observation x (jb_requirements b) (ee_policy env)) eid item)
     | None \<Rightarrow>
         (case ee_evaluators env (evaluator_id ref) of
            None \<Rightarrow> raiseW (Exn EvalError)
          | Some ev \<Rightarrow>
              if evaluator_version (de_identity ev) \<noteq> evaluator_version ref then raiseW (Exn EvalError)
              else
                let r = run_evaluator (ee_show_exc env) ev (project_observation x (de_requirements ev) (ee_policy env)) in
                bindW (stampE (ee_utc env)) (\<lambda>now.
                  liftW (validate_result_record
                    (result_record (result_identity (ee_digests env) eid item ref) eid (observation_id x) item r (er_hard r)
                       (er_evidence_refs r) None now)))))"

definition result_key :: "eval_digests \<Rightarrow> ident \<Rightarrow> eval_suite_item \<Rightarrow> evaluator_ref \<Rightarrow> judge_binding option \<Rightarrow> ident" where
  "result_key d eid item ref binding =
     (case binding of
        Some b \<Rightarrow> judge_result_id d eid (item_id item) (jb_judge b)
      | None \<Rightarrow> result_identity d eid item ref)"

definition ensure_result ::
  "nat \<Rightarrow> 's eval_env \<Rightarrow> eval_suite_item \<Rightarrow> ident \<Rightarrow> eval_observation \<Rightarrow> evaluator_ref \<Rightarrow> ('s, eval_result_record) eval_action" where
  "ensure_result fuel env item eid x ref =
     bindW (liftW (binding_for env ref)) (\<lambda>binding.
     bindW (look_up env (get_evaluator_result (result_key (ee_digests env) eid item ref binding))) (\<lambda>existing.
     case existing of
       Some r \<Rightarrow> retW r
     | None \<Rightarrow>
         bindW (execute_evaluator fuel env item eid x ref) (\<lambda>r. with_facts env (record_evaluator_result r))))"

primrec ensure_results ::
  "nat \<Rightarrow> 's eval_env \<Rightarrow> eval_suite_item \<Rightarrow> ident \<Rightarrow> eval_observation \<Rightarrow> evaluator_ref list
     \<Rightarrow> ('s, eval_result_record list) eval_action" where
  "ensure_results fuel env item eid x [] = retW []"
| "ensure_results fuel env item eid x (ref # refs) =
     bindW (ensure_result fuel env item eid x ref) (\<lambda>r.
     bindW (ensure_results fuel env item eid x refs) (\<lambda>rs. retW (r # rs)))"

primrec run_items ::
  "nat \<Rightarrow> 's eval_env \<Rightarrow> eval_suite \<Rightarrow> ident \<Rightarrow> eval_suite_item list
     \<Rightarrow> ('s, eval_observation list \<times> eval_result_record list) eval_action" where
  "run_items fuel env suite eid [] = retW ([], [])"
| "run_items fuel env suite eid (item # items) =
     bindW (ensure_observation fuel env suite item eid) (\<lambda>x.
     bindW (liftW (case_by_id suite (item_case_id item))) (\<lambda>c.
     bindW (ensure_results fuel env item eid x (case_evaluators c)) (\<lambda>rs.
     bindW (run_items fuel env suite eid items) (\<lambda>rest.
       retW (x # fst rest, rs @ snd rest)))))"

record suite_run_result =
  srr_execution :: eval_execution
  srr_observations :: "eval_observation list"
  srr_results :: "eval_result_record list"

definition resolved_execution_id :: "eval_digests \<Rightarrow> eval_suite \<Rightarrow> ident option \<Rightarrow> ident" where
  "resolved_execution_id d suite eid =
     (case eid of
        None \<Rightarrow> execution_identity d suite MODE_EXECUTE
      | Some i \<Rightarrow> if i = [] then execution_identity d suite MODE_EXECUTE else i)"

definition run_suite ::
  "nat \<Rightarrow> 's eval_env \<Rightarrow> eval_suite \<Rightarrow> ident option \<Rightarrow> ('s, suite_run_result) eval_action" where
  "run_suite fuel env suite given =
     (let d = ee_digests env; eid = resolved_execution_id d suite given in
     bindW (liftW (expand d suite)) (\<lambda>items.
     bindW (stampE (\<lambda>n. execution_record d suite eid items (ee_utc env n))) (\<lambda>made.
     bindW (liftW made) (\<lambda>fresh.
     bindW (look_up env (get_execution eid)) (\<lambda>existing.
     bindW (case existing of
              Some x \<Rightarrow> bindW (liftW (verify_execution_identity d x suite)) (\<lambda>_. retW x)
            | None \<Rightarrow> bindW (with_facts env (record_execution fresh)) (\<lambda>_. retW fresh)) (\<lambda>execution.
     bindW (run_items fuel env suite eid items) (\<lambda>r.
       retW \<lparr>srr_execution = execution, srr_observations = fst r, srr_results = snd r\<rparr>)))))))"

definition resume_execution ::
  "nat \<Rightarrow> 's eval_env \<Rightarrow> eval_suite \<Rightarrow> ident \<Rightarrow> ('s, suite_run_result) eval_action" where
  "resume_execution fuel env suite eid =
     bindW (look_up env (get_execution eid)) (\<lambda>existing.
     if existing = None then raiseW (Exn EvalError) else run_suite fuel env suite (Some eid))"

section \<open>Facts are only added\<close>

lemma keeps_with_judge [keeps]: "keeps_facts (with_judge m)"
  by (simp add: keeps_facts_def with_judge_def split: prod.splits)

lemma keeps_look_up [keeps]: "keeps_facts (look_up env f)"
  unfolding look_up_def by (intro keeps) simp

lemma keeps_record [keeps]:
  "keeps_facts (with_facts env (record_execution x))" "keeps_facts (with_facts env (record_observation y))"
  "keeps_facts (with_facts env (record_evaluator_result z))"
  by (intro keeps; simp)+

lemma keeps_ensure_observation [keeps]: "keeps_facts (ensure_observation fuel env suite item eid)"
  unfolding ensure_observation_def by (intro keeps)

lemma keeps_run_judge [keeps]: "keeps_facts (run_judge fuel env jenv b p eid item)"
  unfolding run_judge_def Let_def by (intro keeps)

lemma keeps_execute_evaluator [keeps]: "keeps_facts (execute_evaluator fuel env item eid x ref)"
  unfolding execute_evaluator_def Let_def by (intro keeps)

lemma keeps_ensure_result [keeps]: "keeps_facts (ensure_result fuel env item eid x ref)"
  unfolding ensure_result_def by (intro keeps)

lemma keeps_ensure_results [keeps]: "keeps_facts (ensure_results fuel env item eid x refs)"
  by (induction refs) (simp_all, (intro keeps | assumption)+)

lemma keeps_run_items [keeps]: "keeps_facts (run_items fuel env suite eid items)"
  by (induction items) (simp_all, (intro keeps | assumption)+)

lemma keeps_run_suite [keeps]: "keeps_facts (run_suite fuel env suite given)"
  unfolding run_suite_def Let_def by (intro keeps)

section \<open>What is returned is what is stored\<close>

lemma look_up_result:
  "look_up env f w = (Inr r, w') \<longleftrightarrow>
     r = f (run_all put_fact (ee_others env (ew_calls w)) (ew_store w))
     \<and> w' = w\<lparr>ew_store := run_all put_fact (ee_others env (ew_calls w)) (ew_store w), ew_calls := Suc (ew_calls w)\<rparr>"
  by (auto simp: look_up_def with_facts_def)

lemma with_facts_result:
  assumes "with_facts env f w = (Inr r, w')"
  shows "f (run_all put_fact (ee_others env (ew_calls w)) (ew_store w)) = (Inr r, ew_store w')"
  using assms by (auto simp: with_facts_def map_sum_def split: prod.splits sum.splits)

lemma record_stores:
  "record_execution x s = (Inr a, s') \<Longrightarrow> get_execution (execution_id x) s' = Some a \<and> a = x"
  "record_observation y s = (Inr b, s') \<Longrightarrow> get_observation (observation_id y) s' = Some b"
  "record_evaluator_result z s = (Inr c, s') \<Longrightarrow> get_evaluator_result (evr_id z) s' = Some c"
  by (auto simp: record_execution_def record_observation_def record_evaluator_result_def get_defs split: option.splits if_splits)

lemma validate_result_id: "validate_result_record x = Inr y \<Longrightarrow> y = x"
  by (simp add: validate_result_record_def split: if_splits)

lemma result_record_id [simp]: "evr_id (result_record i eid oid item r hard refs jrun now) = i"
  by (simp add: result_record_def)

lemma run_judge_returns:
  "returns_only (run_judge fuel env jenv b p eid item) (\<lambda>r. evr_id r = judge_result_id (ee_digests env) eid (item_id item) (jb_judge b)
     \<and> \<not> evr_hard r)"
  unfolding run_judge_def Let_def
  by (intro returns) (auto simp: result_record_def dest!: validate_result_id)

lemma execute_evaluator_identity:
  assumes "execute_evaluator fuel env item eid x ref w = (Inr r, w')" and "binding_for env ref = Inr b"
  shows "evr_id r = result_key (ee_digests env) eid item ref b"
proof (cases b)
  case None
  have "returns_only (execute_evaluator fuel env item eid x ref) (\<lambda>r. evr_id r = result_identity (ee_digests env) eid item ref)"
    using assms(2) unfolding execute_evaluator_def Let_def None
    by (auto simp: returns_only_def bindW_result liftW_result stampE_result split: option.splits if_splits dest!: validate_result_id)
  with assms(1) None show ?thesis by (auto simp: result_key_def dest: returns_onlyD)
next
  case (Some j)
  with assms show ?thesis
    by (auto simp: execute_evaluator_def bindW_result liftW_result result_key_def split: option.splits
        dest: run_judge_returns [THEN returns_onlyD])
qed

lemma ensure_observation_stored:
  assumes "ensure_observation fuel env suite item eid w = (Inr x, w')"
  shows "get_observation (execute_observation_id (ee_digests env) eid item) (ew_store w') = Some x"
  using assms
  by (auto simp: ensure_observation_def bindW_result look_up_result retW_result split: option.splits if_splits
      dest!: with_facts_result record_stores(2) dest: execute_item_identity)

lemma ensure_result_stored:
  assumes "ensure_result fuel env item eid x ref w = (Inr r, w')" and "binding_for env ref = Inr b"
  shows "get_evaluator_result (result_key (ee_digests env) eid item ref b) (ew_store w') = Some r"
  using assms
  by (auto simp: ensure_result_def bindW_result liftW_result look_up_result retW_result split: option.splits
      dest!: with_facts_result record_stores(3) dest: execute_evaluator_identity)

section \<open>A suite that is run again\<close>

definition stored_result :: "'s eval_env \<Rightarrow> ident \<Rightarrow> eval_store \<Rightarrow> eval_suite_item \<Rightarrow> evaluator_ref \<Rightarrow> eval_result_record \<Rightarrow> bool" where
  "stored_result env eid s item ref r \<longleftrightarrow>
     (\<exists>b. binding_for env ref = Inr b \<and> get_evaluator_result (result_key (ee_digests env) eid item ref b) s = Some r)"

primrec stored_items ::
  "'s eval_env \<Rightarrow> eval_suite \<Rightarrow> ident \<Rightarrow> eval_store \<Rightarrow> eval_suite_item list \<Rightarrow> eval_observation list \<Rightarrow> eval_result_record list \<Rightarrow> bool" where
  "stored_items env suite eid s [] xs rs \<longleftrightarrow> xs = [] \<and> rs = []"
| "stored_items env suite eid s (item # items) xs rs \<longleftrightarrow>
     (\<exists>x xs' c rs1 rs2. xs = x # xs' \<and> rs = rs1 @ rs2
        \<and> get_observation (execute_observation_id (ee_digests env) eid item) s = Some x
        \<and> case_by_id suite (item_case_id item) = Inr c \<and> list_all2 (stored_result env eid s item) (case_evaluators c) rs1
        \<and> stored_items env suite eid s items xs' rs2)"

lemma grows_get:
  "grows s s' \<Longrightarrow> get_observation i s = Some x \<Longrightarrow> get_observation i s' = Some x"
  "grows s s' \<Longrightarrow> get_evaluator_result i s = Some r \<Longrightarrow> get_evaluator_result i s' = Some r"
  "grows s s' \<Longrightarrow> get_execution i s = Some e \<Longrightarrow> get_execution i s' = Some e"
  using growsD [of s s' "Key_Observation i" "Fact_Observation x"] growsD [of s s' "Key_Result i" "Fact_Result r"]
    growsD [of s s' "Key_Execution i" "Fact_Execution e"] by auto

lemma stored_result_grows: "grows s s' \<Longrightarrow> stored_result env eid s item ref r \<Longrightarrow> stored_result env eid s' item ref r"
  by (auto simp: stored_result_def grows_get)

lemma stored_results_grow:
  "grows s s' \<Longrightarrow> list_all2 (stored_result env eid s item) refs rs \<Longrightarrow> list_all2 (stored_result env eid s' item) refs rs"
  by (erule list_all2_mono) (rule stored_result_grows)

lemma stored_items_grow: "grows s s' \<Longrightarrow> stored_items env suite eid s items xs rs \<Longrightarrow> stored_items env suite eid s' items xs rs"
  by (induction items arbitrary: xs rs) (auto intro: grows_get stored_results_grow, blast intro: grows_get stored_results_grow)

lemma ensure_results_stored:
  "ensure_results fuel env item eid x refs w = (Inr rs, w') \<Longrightarrow> list_all2 (stored_result env eid (ew_store w') item) refs rs"
proof (induction refs arbitrary: w rs)
  case (Cons ref refs)
  from Cons.prems obtain r v rs' where r: "ensure_result fuel env item eid x ref w = (Inr r, v)"
    and rest: "ensure_results fuel env item eid x refs v = (Inr rs', w')" and rs: "rs = r # rs'"
    by (auto simp: bindW_result retW_result)
  obtain b where b: "binding_for env ref = Inr b" using r by (auto simp: ensure_result_def bindW_result liftW_result)
  have "stored_result env eid (ew_store v) item ref r"
    using ensure_result_stored [OF r b] b by (auto simp: stored_result_def)
  moreover have "grows (ew_store v) (ew_store w')" using keeps_ensure_results rest by (rule keeps_factsD)
  ultimately show ?case using Cons.IH [OF rest] rs by (simp add: stored_result_grows)
qed (simp add: retW_result)

lemma run_items_stored:
  "run_items fuel env suite eid items w = (Inr r, w') \<Longrightarrow> stored_items env suite eid (ew_store w') items (fst r) (snd r)"
proof (induction items arbitrary: w r)
  case (Cons item items)
  from Cons.prems obtain x v c rs v' rest where
      x: "ensure_observation fuel env suite item eid w = (Inr x, v)" and c: "case_by_id suite (item_case_id item) = Inr c"
    and rs: "ensure_results fuel env item eid x (case_evaluators c) v = (Inr rs, v')"
    and rest: "run_items fuel env suite eid items v' = (Inr rest, w')" and r: "r = (x # fst rest, rs @ snd rest)"
    by (auto simp: bindW_result retW_result liftW_result)
  have g': "grows (ew_store v') (ew_store w')" using keeps_run_items rest by (rule keeps_factsD)
  have "grows (ew_store v) (ew_store v')" using keeps_ensure_results rs by (rule keeps_factsD)
  then have g: "grows (ew_store v) (ew_store w')" using g' by (rule grows_trans)
  have "get_observation (execute_observation_id (ee_digests env) eid item) (ew_store w') = Some x"
    using g ensure_observation_stored [OF x] by (rule grows_get)
  moreover have "list_all2 (stored_result env eid (ew_store w') item) (case_evaluators c) rs"
    using g' ensure_results_stored [OF rs] by (rule stored_results_grow)
  ultimately show ?case using Cons.IH [OF rest] c r by auto
qed (auto simp: retW_result)

text \<open>
  A later run may use another engine: other Runners, evaluators, policy and clocks, as long as digests
  and judge bindings, which name the facts, are the same.
\<close>

definition same_names :: "'s eval_env \<Rightarrow> 's eval_env \<Rightarrow> bool" where
  "same_names env env' \<longleftrightarrow> ee_digests env' = ee_digests env \<and> ee_bindings env' = ee_bindings env"

text \<open>Only the facts others wrote and the count of calls differ: no Run, no judge Run and no session was touched.\<close>

definition untouched :: "'s eval_world \<Rightarrow> 's eval_world \<Rightarrow> bool" where
  "untouched w w' \<longleftrightarrow> ew_subject w' = ew_subject w \<and> ew_judge w' = ew_judge w \<and> ew_sessions w' = ew_sessions w
     \<and> grows (ew_store w) (ew_store w')"

lemma untouched_trans: "untouched u v \<Longrightarrow> untouched v w \<Longrightarrow> untouched u w"
  by (auto simp: untouched_def intro: grows_trans)

lemma look_up_known:
  obtains w' where "look_up env f w = (Inr (f (ew_store w')), w')" and "untouched w w'"
  by (rule that [of "w\<lparr>ew_store := run_all put_fact (ee_others env (ew_calls w)) (ew_store w), ew_calls := Suc (ew_calls w)\<rparr>"])
    (simp_all add: look_up_def with_facts_def untouched_def)

lemma binding_for_same: "same_names env env' \<Longrightarrow> binding_for env' ref = binding_for env ref"
  by (simp add: same_names_def binding_for_def)

lemma ensure_result_again:
  assumes "same_names env env'" and "stored_result env eid (ew_store w) item ref r"
  shows "\<exists>w'. ensure_result fuel env' item eid x ref w = (Inr r, w') \<and> untouched w w'"
proof -
  obtain b where b: "binding_for env' ref = Inr b"
    and g: "get_evaluator_result (result_key (ee_digests env') eid item ref b) (ew_store w) = Some r"
    using assms binding_for_same [OF assms(1)] by (auto simp: stored_result_def same_names_def)
  obtain w' where w': "look_up env' (get_evaluator_result (result_key (ee_digests env') eid item ref b)) w
      = (Inr (get_evaluator_result (result_key (ee_digests env') eid item ref b) (ew_store w')), w')" "untouched w w'"
    by (rule look_up_known)
  have "get_evaluator_result (result_key (ee_digests env') eid item ref b) (ew_store w') = Some r"
    using w'(2) g by (auto simp: untouched_def intro: grows_get)
  with w' b show ?thesis by (auto simp: ensure_result_def bindW_def liftW_def retW_def)
qed

lemma ensure_results_again:
  assumes "same_names env env'"
  shows "list_all2 (stored_result env eid (ew_store w) item) refs rs \<Longrightarrow>
     \<exists>w'. ensure_results fuel env' item eid x refs w = (Inr rs, w') \<and> untouched w w'"
proof (induction refs arbitrary: w rs)
  case (Cons ref refs)
  then obtain r rs' where rs: "rs = r # rs'" and r: "stored_result env eid (ew_store w) item ref r"
    and rest: "list_all2 (stored_result env eid (ew_store w) item) refs rs'" by (auto simp: list_all2_Cons1)
  obtain v where v: "ensure_result fuel env' item eid x ref w = (Inr r, v)" "untouched w v"
    using ensure_result_again [OF assms r] by blast
  have "list_all2 (stored_result env eid (ew_store v) item) refs rs'"
    using v(2) rest by (auto simp: untouched_def intro: stored_results_grow)
  then obtain w' where "ensure_results fuel env' item eid x refs v = (Inr rs', w')" "untouched v w'"
    using Cons.IH by blast
  with v rs show ?case by (auto simp: bindW_def retW_def intro: untouched_trans)
qed (auto simp: retW_def untouched_def)

lemma ensure_observation_again:
  assumes "same_names env env'" and "get_observation (execute_observation_id (ee_digests env) eid item) (ew_store w) = Some x"
  shows "\<exists>w'. ensure_observation fuel env' suite item eid w = (Inr x, w') \<and> untouched w w'"
proof -
  let ?get = "get_observation (execute_observation_id (ee_digests env') eid item)"
  obtain w' where w': "look_up env' ?get w = (Inr (?get (ew_store w')), w')" "untouched w w'"
    by (rule look_up_known)
  have "?get (ew_store w') = Some x"
    using w'(2) assms by (auto simp: untouched_def same_names_def intro: grows_get)
  with w' show ?thesis by (auto simp: ensure_observation_def bindW_def retW_def)
qed

lemma run_items_again:
  assumes "same_names env env'"
  shows "stored_items env suite eid (ew_store w) items xs rs \<Longrightarrow>
     \<exists>w'. run_items fuel env' suite eid items w = (Inr (xs, rs), w') \<and> untouched w w'"
proof (induction items arbitrary: w xs rs)
  case (Cons item items)
  then obtain x xs' c rs1 rs2 where split: "xs = x # xs'" "rs = rs1 @ rs2"
    and x: "get_observation (execute_observation_id (ee_digests env) eid item) (ew_store w) = Some x"
    and c: "case_by_id suite (item_case_id item) = Inr c"
    and rs1: "list_all2 (stored_result env eid (ew_store w) item) (case_evaluators c) rs1"
    and rest: "stored_items env suite eid (ew_store w) items xs' rs2" by auto
  obtain v where v: "ensure_observation fuel env' suite item eid w = (Inr x, v)" "untouched w v"
    using ensure_observation_again [OF assms x] by blast
  have "list_all2 (stored_result env eid (ew_store v) item) (case_evaluators c) rs1"
    using v(2) rs1 by (auto simp: untouched_def intro: stored_results_grow)
  then obtain v' where v': "ensure_results fuel env' item eid x (case_evaluators c) v = (Inr rs1, v')" "untouched v v'"
    using ensure_results_again [OF assms] by blast
  have "grows (ew_store w) (ew_store v')" using v(2) v'(2) by (auto simp: untouched_def intro: grows_trans)
  then obtain w' where w': "run_items fuel env' suite eid items v' = (Inr (xs', rs2), w')" "untouched v' w'"
    using Cons.IH [OF stored_items_grow [OF _ rest]] by blast
  have "untouched w w'" using v(2) v'(2) w'(2) untouched_trans by blast
  with v v' w' c split show ?case by (auto simp: bindW_def retW_def liftW_def)
qed (auto simp: retW_def untouched_def)

text \<open>What a successful run leaves behind.\<close>

definition suite_stored :: "'s eval_env \<Rightarrow> eval_suite \<Rightarrow> ident \<Rightarrow> eval_store \<Rightarrow> suite_run_result \<Rightarrow> bool" where
  "suite_stored env suite eid s res \<longleftrightarrow>
     get_execution eid s = Some (srr_execution res) \<and> verify_execution_identity (ee_digests env) (srr_execution res) suite = Inr ()
     \<and> (\<exists>items now x. expand (ee_digests env) suite = Inr items \<and> execution_record (ee_digests env) suite eid items now = Inr x
          \<and> stored_items env suite eid s items (srr_observations res) (srr_results res))"

lemma execution_record_fields:
  assumes "execution_record d suite eid items now = Inr x"
  shows "execution_id x = eid" and "verify_execution_identity d x suite = Inr ()"
    and "\<exists>y. execution_record d suite eid items now' = Inr y"
  using assms by (auto simp: execution_record_def validate_execution_def verify_execution_identity_def split: if_splits)

lemma run_suite_stored:
  assumes "run_suite fuel env suite given w = (Inr res, w')"
  shows "suite_stored env suite (resolved_execution_id (ee_digests env) suite given) (ew_store w') res"
proof -
  let ?d = "ee_digests env" and ?eid = "resolved_execution_id (ee_digests env) suite given"
  obtain items fresh existing v ex v' r where items: "expand ?d suite = Inr items"
    and fresh: "execution_record ?d suite ?eid items (ee_utc env (ew_calls w)) = Inr fresh"
    and look: "look_up env (get_execution ?eid) w = (Inr existing, v)"
    and ex: "(case existing of
              Some x \<Rightarrow> bindW (liftW (verify_execution_identity ?d x suite)) (\<lambda>_. retW x)
            | None \<Rightarrow> bindW (with_facts env (record_execution fresh)) (\<lambda>_. retW fresh)) v = (Inr ex, v')"
    and r: "run_items fuel env suite ?eid items v' = (Inr r, w')"
    and res: "res = \<lparr>srr_execution = ex, srr_observations = fst r, srr_results = snd r\<rparr>"
    using assms by (auto simp: run_suite_def Let_def bindW_result liftW_result stampE_result retW_result)
  have "get_execution ?eid (ew_store v') = Some ex \<and> verify_execution_identity ?d ex suite = Inr ()"
  proof (cases existing)
    case None
    with ex fresh show ?thesis
      by (auto simp: bindW_result retW_result execution_record_fields dest!: with_facts_result record_stores(1))
  next
    case (Some x)
    with ex look show ?thesis by (auto simp: bindW_result retW_result liftW_result look_up_result)
  qed
  moreover have "grows (ew_store v') (ew_store w')" using keeps_run_items r by (rule keeps_factsD)
  ultimately show ?thesis
    using run_items_stored [OF r] items fresh res by (auto simp: suite_stored_def intro: grows_get)
qed

lemma run_suite_again:
  assumes "suite_stored env suite (resolved_execution_id (ee_digests env) suite given) (ew_store w) res" and "same_names env env'"
  shows "\<exists>w'. run_suite fuel env' suite given w = (Inr res, w') \<and> untouched w w'"
proof -
  let ?d = "ee_digests env" and ?eid = "resolved_execution_id (ee_digests env) suite given"
  have d: "ee_digests env' = ?d" using assms(2) by (simp add: same_names_def)
  obtain items now x where items: "expand ?d suite = Inr items" and x: "execution_record ?d suite ?eid items now = Inr x"
    and st: "stored_items env suite ?eid (ew_store w) items (srr_observations res) (srr_results res)"
    and ex: "get_execution ?eid (ew_store w) = Some (srr_execution res)"
      "verify_execution_identity ?d (srr_execution res) suite = Inr ()"
    using assms(1) by (auto simp: suite_stored_def)
  obtain y where y: "execution_record ?d suite ?eid items (ee_utc env' (ew_calls w)) = Inr y"
    using execution_record_fields(3) [OF x] by blast
  obtain v where v: "look_up env' (get_execution ?eid) w = (Inr (get_execution ?eid (ew_store v)), v)" "untouched w v"
    by (rule look_up_known)
  have known: "get_execution ?eid (ew_store v) = Some (srr_execution res)"
    using v(2) ex(1) by (auto simp: untouched_def intro: grows_get)
  have "stored_items env suite ?eid (ew_store v) items (srr_observations res) (srr_results res)"
    using v(2) st by (auto simp: untouched_def intro: stored_items_grow)
  then obtain w' where w': "run_items fuel env' suite ?eid items v = (Inr (srr_observations res, srr_results res), w')" "untouched v w'"
    using run_items_again [OF assms(2)] by blast
  have "run_suite fuel env' suite given w = (Inr res, w')"
    using items y v(1) known ex(2) w'(1) d by (simp add: run_suite_def Let_def bindW_def liftW_def stampE_def retW_def)
  with untouched_trans [OF v(2) w'(2)] show ?thesis by blast
qed

text \<open>
  Once a run of a suite has returned, running it again returns the same result and touches no Run,
  whatever facts were written in between.
\<close>

lemma rerun_idempotent:
  assumes "run_suite fuel env suite given w = (Inr res, w')" and "same_names env env'" and "grows (ew_store w') (ew_store v)"
  shows "\<exists>v'. run_suite fuel' env' suite given v = (Inr res, v') \<and> untouched v v'"
proof -
  have "suite_stored env suite (resolved_execution_id (ee_digests env) suite given) (ew_store v) res"
    using run_suite_stored [OF assms(1)] assms(3) by (auto simp: suite_stored_def intro: grows_get stored_items_grow)
  then show ?thesis using assms(2) by (rule run_suite_again)
qed

text \<open>Facts saved before a run, by an earlier attempt that was interrupted, are what the run returns.\<close>

lemma stored_items_nth:
  "stored_items env suite eid s items xs rs \<Longrightarrow> length xs = length items \<and>
     (\<forall>i < length items. get_observation (execute_observation_id (ee_digests env) eid (items ! i)) s = Some (xs ! i))"
  by (induction items arbitrary: xs rs) (auto simp: nth_Cons split: nat.splits)

lemma saved_observations_reused:
  assumes "run_suite fuel env suite given w = (Inr res, w')" and "expand (ee_digests env) suite = Inr items" and "i < length items"
    and "get_observation (execute_observation_id (ee_digests env) (resolved_execution_id (ee_digests env) suite given) (items ! i))
        (ew_store w) = Some x"
  shows "srr_observations res ! i = x"
proof -
  have "grows (ew_store w) (ew_store w')" using keeps_run_suite assms(1) by (rule keeps_factsD)
  from grows_get(1) [OF this assms(4)] show ?thesis
    using run_suite_stored [OF assms(1)] assms(2,3) by (auto simp: suite_stored_def dest: stored_items_nth)
qed

text \<open>The execution of another suite is never continued, and an unknown one is never started by a resume.\<close>

lemma foreign_execution_refused:
  assumes "expand (ee_digests env) suite = Inr items" and "given \<noteq> []"
    and "execution_record (ee_digests env) suite given items (ee_utc env (ew_calls w)) = Inr fresh"
    and "get_execution given (ew_store w) = Some x" and "isl (verify_execution_identity (ee_digests env) x suite)"
  shows "\<exists>w'. run_suite fuel env suite (Some given) w = (Inl (Exn EvalError), w') \<and> untouched w w'"
proof -
  obtain v where v: "look_up env (get_execution given) w = (Inr (get_execution given (ew_store v)), v)" "untouched w v"
    by (rule look_up_known)
  have known: "get_execution given (ew_store v) = Some x"
    using v(2) assms(4) by (auto simp: untouched_def intro: grows_get)
  have e: "verify_execution_identity (ee_digests env) x suite = Inl EvalError"
    using assms(5) by (auto simp: verify_execution_identity_def isl_def split: if_splits)
  have "run_suite fuel env suite (Some given) w = (Inl (Exn EvalError), v)"
    using assms(1-3) v(1) known e
    by (simp add: run_suite_def resolved_execution_id_def Let_def bindW_def liftW_def stampE_def)
  with v(2) show ?thesis by blast
qed

section \<open>Judges\<close>

text \<open>Output that is not a well-formed verdict is an error of the evaluator, never a pass.\<close>

lemma verdict_fields_pass:
  assumes "verdict_fields payload = Some (True, rest)"
  shows "\<exists>kvs. payload = Some (JObj kvs) \<and> json_get kvs ''verdict'' = Some (jstr ''PASS'')"
proof -
  obtain kvs v where "payload = Some (JObj kvs)" and "json_get kvs ''verdict'' = Some v"
    using assms by (auto simp: verdict_fields_def split: option.splits json.splits)
  moreover from this have "v = jstr ''PASS''"
    using assms unfolding verdict_fields_def
    by (simp only: option.case json.case Let_def split: if_splits option.splits json.splits) simp_all
  ultimately show ?thesis by blast
qed

lemma judge_pass_only_if_said:
  assumes "parse_judge_verdict env txt judge = Inr r" and "er_outcome r = O_PASS"
  shows "\<exists>kvs. ee_loads env txt = Some (JObj kvs) \<and> json_get kvs ''verdict'' = Some (jstr ''PASS'')"
proof -
  obtain rest where "verdict_fields (ee_loads env txt) = Some (True, rest)"
    using assms by (auto simp: parse_judge_verdict_def verdict_def bindE_eq_Inr split: option.splits if_splits)
  then show ?thesis by (rule verdict_fields_pass)
qed

lemma judge_never_hard: "parse_judge_verdict env txt judge = Inr r \<Longrightarrow> \<not> er_hard r"
  by (auto simp: parse_judge_verdict_def verdict_def bindE_eq_Inr split: option.splits)

text \<open>The conversion of the score stands outside the \<open>try\<close> block: a number no float can hold raises.\<close>

lemma judge_verdict_cases:
  "case parse_judge_verdict env txt judge of
     Inr r \<Rightarrow> \<not> er_hard r
       \<and> (er_outcome r = O_PASS \<longrightarrow>
           (\<exists>kvs. ee_loads env txt = Some (JObj kvs) \<and> json_get kvs ''verdict'' = Some (jstr ''PASS'')))
       \<and> (verdict_fields (ee_loads env txt) = None \<longrightarrow> er_outcome r = O_ERROR \<and> er_failure_kind r = K_EVALUATOR)
   | Inl e \<Rightarrow> \<exists>passed n rationale. verdict_fields (ee_loads env txt) = Some (passed, Some n, rationale) \<and> ee_float env n = Inl e"
proof (cases "parse_judge_verdict env txt judge")
  case (Inl e)
  then show ?thesis by (auto simp: parse_judge_verdict_def bindE_eq_Inl split: option.splits)
next
  case (Inr r)
  have "er_outcome r = O_ERROR \<and> er_failure_kind r = K_EVALUATOR" if "verdict_fields (ee_loads env txt) = None"
    using Inr that by (auto simp: parse_judge_verdict_def verdict_def)
  with Inr judge_never_hard [OF Inr] judge_pass_only_if_said [OF Inr] show ?thesis by auto
qed

end
