(* ===== verification/Sqlite_Eval.thy ===== *)
theory Sqlite_Eval
  imports Eval_Store
begin

text \<open>
  The store of eval facts in SQLite, \<open>src/src/m_agent/companion/eval/_sqlite_store.py\<close>. A writing method is
  one transaction that begins with \<open>BEGIN IMMEDIATE\<close> and is rolled back when it raises, so it maps the
  committed tables to the committed tables. A table is a map from its primary key to the payload
  text; the links of an execution are its rows with their sequence numbers, reports the list of their rows.
  The texts Pydantic and \<open>json\<close> give for a record, and the records they read, are parameters.
\<close>

section \<open>Tables\<close>

record eval_codec =
  ec_dump_execution :: "eval_execution \<Rightarrow> pystr"
  ec_load_execution :: "pystr \<Rightarrow> exn + eval_execution"
  ec_dump_artifact :: "evidence_artifact \<Rightarrow> json"
  ec_load_artifact :: "json \<Rightarrow> exn + evidence_artifact"
  ec_dump_observation :: "eval_observation \<Rightarrow> json list \<Rightarrow> pystr"
  ec_load_observation :: "pystr \<Rightarrow> exn + eval_observation \<times> json list"
  ec_dump_result :: "eval_result_record \<Rightarrow> pystr"
  ec_load_result :: "pystr \<Rightarrow> exn + eval_result_record"
  ec_dump_report :: "report_revision \<Rightarrow> pystr"
  ec_load_report :: "pystr \<Rightarrow> exn + report_revision"
  ec_dump_baseline :: "eval_baseline \<Rightarrow> pystr"
  ec_load_baseline :: "pystr \<Rightarrow> exn + eval_baseline"
  ec_dump_recommendation :: "model_recommendation \<Rightarrow> pystr"
  ec_load_recommendation :: "pystr \<Rightarrow> exn + model_recommendation"

record eval_tables =
  et_executions :: "ident \<Rightarrow> pystr option"
  et_observations :: "ident \<Rightarrow> (ident option \<times> pystr) option"
  et_links :: "ident \<Rightarrow> (int \<times> ident) list"
  et_results :: "ident \<Rightarrow> pystr option"
  et_reports :: "((ident \<times> int) \<times> pystr) list"
  et_baselines :: "ident \<Rightarrow> pystr option"
  et_recommendations :: "ident \<Rightarrow> pystr option"

definition empty_eval_tables :: eval_tables where
  "empty_eval_tables = \<lparr>et_executions = Map.empty, et_observations = Map.empty, et_links = (\<lambda>_. []), et_results = Map.empty,
     et_reports = [], et_baselines = Map.empty, et_recommendations = Map.empty\<rparr>"

section \<open>Encoding of observations\<close>

fun is_json_scalar :: "json \<Rightarrow> bool" where
  "is_json_scalar (JArr _) = False"
| "is_json_scalar (JObj _) = False"
| "is_json_scalar _ = True"

fun encode_external :: "eval_codec \<Rightarrow> external_item \<Rightarrow> exn + json" where
  "encode_external ec (Ext_Artifact a) =
     Inr (JObj [(ustr ''kind'', jstr ''evidence_artifact''), (ustr ''data'', ec_dump_artifact ec a)])"
| "encode_external ec (Ext_Json v) =
     (if is_json_scalar v then Inr (JObj [(ustr ''kind'', jstr ''json''), (ustr ''data'', v)]) else Inl EvalError)"
| "encode_external ec (Ext_Object _) = Inl EvalError"

definition decode_external :: "eval_codec \<Rightarrow> json \<Rightarrow> exn + external_item" where
  "decode_external ec item =
     (case item of
        JObj kvs \<Rightarrow>
          if json_get kvs ''kind'' = Some (jstr ''evidence_artifact'') then
            (case json_get kvs ''data'' of
               None \<Rightarrow> Inl KeyError
             | Some v \<Rightarrow> bindE (ec_load_artifact ec v) (\<lambda>a. Inr (Ext_Artifact a)))
          else if json_get kvs ''kind'' = Some (jstr ''json'') then
            Inr (Ext_Json (case json_get kvs ''data'' of None \<Rightarrow> JNull | Some v \<Rightarrow> v))
          else Inl EvalError
      | _ \<Rightarrow> Inl EvalError)"

definition observation_payload :: "eval_codec \<Rightarrow> eval_observation \<Rightarrow> exn + pystr" where
  "observation_payload ec x =
     bindE (mapE (encode_external ec) (external_evidence x)) (\<lambda>js.
       Inr (ec_dump_observation ec (x\<lparr>external_evidence := []\<rparr>) js))"

definition observation_from_payload :: "eval_codec \<Rightarrow> pystr \<Rightarrow> exn + eval_observation" where
  "observation_from_payload ec p =
     bindE (ec_load_observation ec p) (\<lambda>(x, js).
     bindE (mapE (decode_external ec) js) (\<lambda>items.
       validate_observation (x\<lparr>external_evidence := items\<rparr>)))"

section \<open>Operations\<close>

text \<open>\<open>_append\<close> with the comparison its callers make: \<open>existing\<close> is the payload found under the key.\<close>

definition append_payload ::
  "(pystr \<Rightarrow> exn + 'a) \<Rightarrow> 'a \<Rightarrow> pystr option \<Rightarrow> eval_tables \<Rightarrow> eval_tables \<Rightarrow> (exn + 'a) \<times> eval_tables" where
  "append_payload load x existing inserted t =
     (case existing of
        None \<Rightarrow> (Inr x, inserted)
      | Some p \<Rightarrow> (bindE (load p) (\<lambda>stored. if stored \<noteq> x then Inl EvalRecordConflictError else Inr stored), t))"

definition sql_record_execution :: "eval_codec \<Rightarrow> eval_execution \<Rightarrow> eval_tables \<Rightarrow> (exn + eval_execution) \<times> eval_tables" where
  "sql_record_execution ec x t =
     append_payload (ec_load_execution ec) x (et_executions t (execution_id x))
       (t\<lparr>et_executions := (et_executions t)(execution_id x \<mapsto> ec_dump_execution ec x)\<rparr>) t"

definition link_observation :: "ident \<Rightarrow> ident \<Rightarrow> eval_tables \<Rightarrow> eval_tables" where
  "link_observation e i t =
     (if i \<in> set (map snd (et_links t e)) then t
      else t\<lparr>et_links := (et_links t)(e := et_links t e @
        [(if et_links t e = [] then 0 else Max (set (map fst (et_links t e))) + 1, i)])\<rparr>)"

definition sql_record_observation ::
  "eval_codec \<Rightarrow> eval_observation \<Rightarrow> eval_tables \<Rightarrow> (exn + eval_observation) \<times> eval_tables" where
  "sql_record_observation ec x t =
     (case observation_payload ec x of
        Inl e \<Rightarrow> (Inl e, t)
      | Inr payload \<Rightarrow>
          let link = (\<lambda>t. case obs_execution_id x of None \<Rightarrow> t | Some e \<Rightarrow> link_observation e (observation_id x) t) in
          (case et_observations t (observation_id x) of
             None \<Rightarrow> (Inr x, link (t\<lparr>et_observations := (et_observations t)
                 (observation_id x \<mapsto> (obs_execution_id x, payload))\<rparr>))
           | Some row \<Rightarrow>
               (case observation_from_payload ec (snd row) of
                  Inl e \<Rightarrow> (Inl e, t)
                | Inr stored \<Rightarrow>
                    if \<not> same_observation stored x then (Inl EvalRecordConflictError, t)
                    else (Inr stored, link t))))"

definition sql_record_evaluator_result ::
  "eval_codec \<Rightarrow> eval_result_record \<Rightarrow> eval_tables \<Rightarrow> (exn + eval_result_record) \<times> eval_tables" where
  "sql_record_evaluator_result ec x t =
     append_payload (ec_load_result ec) x (et_results t (evr_id x))
       (t\<lparr>et_results := (et_results t)(evr_id x \<mapsto> ec_dump_result ec x)\<rparr>) t"

definition sql_record_report :: "eval_codec \<Rightarrow> report_revision \<Rightarrow> eval_tables \<Rightarrow> (exn + report_revision) \<times> eval_tables" where
  "sql_record_report ec x t =
     append_payload (ec_load_report ec) x (map_of (et_reports t) (report_id x, revision x))
       (t\<lparr>et_reports := et_reports t @ [((report_id x, revision x), ec_dump_report ec x)]\<rparr>) t"

definition sql_record_baseline :: "eval_codec \<Rightarrow> eval_baseline \<Rightarrow> eval_tables \<Rightarrow> (exn + eval_baseline) \<times> eval_tables" where
  "sql_record_baseline ec x t =
     append_payload (ec_load_baseline ec) x (et_baselines t (baseline_id x))
       (t\<lparr>et_baselines := (et_baselines t)(baseline_id x \<mapsto> ec_dump_baseline ec x)\<rparr>) t"

definition sql_record_recommendation ::
  "eval_codec \<Rightarrow> model_recommendation \<Rightarrow> eval_tables \<Rightarrow> (exn + model_recommendation) \<times> eval_tables" where
  "sql_record_recommendation ec x t =
     append_payload (ec_load_recommendation ec) x (et_recommendations t (recommendation_id x))
       (t\<lparr>et_recommendations := (et_recommendations t)(recommendation_id x \<mapsto> ec_dump_recommendation ec x)\<rparr>) t"

definition load_row :: "(pystr \<Rightarrow> exn + 'a) \<Rightarrow> pystr option \<Rightarrow> exn + 'a option" where
  "load_row load p = (case p of None \<Rightarrow> Inr None | Some p \<Rightarrow> bindE (load p) (\<lambda>x. Inr (Some x)))"

definition sql_get_execution :: "eval_codec \<Rightarrow> ident \<Rightarrow> eval_tables \<Rightarrow> exn + eval_execution option" where
  "sql_get_execution ec i t = load_row (ec_load_execution ec) (et_executions t i)"

definition sql_get_observation :: "eval_codec \<Rightarrow> ident \<Rightarrow> eval_tables \<Rightarrow> exn + eval_observation option" where
  "sql_get_observation ec i t = load_row (observation_from_payload ec) (map_option snd (et_observations t i))"

definition sql_get_evaluator_result :: "eval_codec \<Rightarrow> ident \<Rightarrow> eval_tables \<Rightarrow> exn + eval_result_record option" where
  "sql_get_evaluator_result ec i t = load_row (ec_load_result ec) (et_results t i)"

definition sql_get_report :: "eval_codec \<Rightarrow> ident \<Rightarrow> int \<Rightarrow> eval_tables \<Rightarrow> exn + report_revision option" where
  "sql_get_report ec i n t = load_row (ec_load_report ec) (map_of (et_reports t) (i, n))"

definition sql_get_baseline :: "eval_codec \<Rightarrow> ident \<Rightarrow> eval_tables \<Rightarrow> exn + eval_baseline option" where
  "sql_get_baseline ec i t = load_row (ec_load_baseline ec) (et_baselines t i)"

definition sql_get_recommendation :: "eval_codec \<Rightarrow> ident \<Rightarrow> eval_tables \<Rightarrow> exn + model_recommendation option" where
  "sql_get_recommendation ec i t = load_row (ec_load_recommendation ec) (et_recommendations t i)"

definition sql_latest_report_revision :: "ident \<Rightarrow> eval_tables \<Rightarrow> int option" where
  "sql_latest_report_revision i t =
     (let ns = map (\<lambda>e. snd (fst e)) (filter (\<lambda>e. fst (fst e) = i) (et_reports t))
      in if ns = [] then None else Some (Max (set ns)))"

definition sql_observation_view :: "eval_codec \<Rightarrow> ident \<Rightarrow> eval_tables \<Rightarrow> exn + eval_observation_view option" where
  "sql_observation_view ec i t = bindE (sql_get_observation ec i t) (\<lambda>x. Inr (map_option observation_view_of x))"

text \<open>Two statements: \<open>between\<close> is what other connections commit between them.\<close>

definition sql_execution_view ::
  "eval_codec \<Rightarrow> (eval_tables \<Rightarrow> eval_tables) \<Rightarrow> ident \<Rightarrow> eval_tables \<Rightarrow> exn + eval_execution_view option" where
  "sql_execution_view ec between i t =
     bindE (sql_get_execution ec i t) (\<lambda>x. Inr (map_option (\<lambda>x.
       \<lparr>xv_execution = x, xv_observation_ids = map snd (sort_key fst (et_links (between t) i))\<rparr>) x))"

definition sql_report_view :: "eval_codec \<Rightarrow> ident \<Rightarrow> int \<Rightarrow> eval_tables \<Rightarrow> exn + eval_report_view option" where
  "sql_report_view ec i n t = bindE (sql_get_report ec i n t) (\<lambda>x. Inr (map_option report_view_of x))"

fun sql_put_fact :: "eval_codec \<Rightarrow> eval_fact \<Rightarrow> eval_tables \<Rightarrow> (exn + eval_fact) \<times> eval_tables" where
  "sql_put_fact ec (Fact_Execution x) t = fact_reply Fact_Execution (sql_record_execution ec x t)"
| "sql_put_fact ec (Fact_Observation x) t = fact_reply Fact_Observation (sql_record_observation ec x t)"
| "sql_put_fact ec (Fact_Result x) t = fact_reply Fact_Result (sql_record_evaluator_result ec x t)"
| "sql_put_fact ec (Fact_Report x) t = fact_reply Fact_Report (sql_record_report ec x t)"
| "sql_put_fact ec (Fact_Baseline x) t = fact_reply Fact_Baseline (sql_record_baseline ec x t)"
| "sql_put_fact ec (Fact_Recommendation x) t = fact_reply Fact_Recommendation (sql_record_recommendation ec x t)"

fun sql_get_fact :: "eval_codec \<Rightarrow> fact_key \<Rightarrow> eval_tables \<Rightarrow> exn + eval_fact option" where
  "sql_get_fact ec (Key_Execution i) t = map_sum id (map_option Fact_Execution) (sql_get_execution ec i t)"
| "sql_get_fact ec (Key_Observation i) t = map_sum id (map_option Fact_Observation) (sql_get_observation ec i t)"
| "sql_get_fact ec (Key_Result i) t = map_sum id (map_option Fact_Result) (sql_get_evaluator_result ec i t)"
| "sql_get_fact ec (Key_Report (i, n)) t = map_sum id (map_option Fact_Report) (sql_get_report ec i n t)"
| "sql_get_fact ec (Key_Baseline i) t = map_sum id (map_option Fact_Baseline) (sql_get_baseline ec i t)"
| "sql_get_fact ec (Key_Recommendation i) t = map_sum id (map_option Fact_Recommendation) (sql_get_recommendation ec i t)"

section \<open>Refinement\<close>

text \<open>
  What the store can keep: evidence that is an artifact or a JSON scalar, in an observation its
  validator accepts. The codec reads back what it wrote for such records.
\<close>

fun persistable :: "external_item \<Rightarrow> bool" where
  "persistable (Ext_Artifact _) = True"
| "persistable (Ext_Json v) = is_json_scalar v"
| "persistable (Ext_Object _) = False"

fun storable :: "eval_codec \<Rightarrow> eval_fact \<Rightarrow> bool" where
  "storable ec (Fact_Observation x) \<longleftrightarrow> list_all persistable (external_evidence x) \<and> validate_observation x = Inr x
     \<and> (\<forall>a. Ext_Artifact a \<in> set (external_evidence x) \<longrightarrow> ec_load_artifact ec (ec_dump_artifact ec a) = Inr a)
     \<and> (\<forall>js. ec_load_observation ec (ec_dump_observation ec (x\<lparr>external_evidence := []\<rparr>) js) = Inr (x\<lparr>external_evidence := []\<rparr>, js))"
| "storable ec _ \<longleftrightarrow> True"

definition eval_codec_ok :: "eval_codec \<Rightarrow> bool" where
  "eval_codec_ok ec \<longleftrightarrow>
     (\<forall>x. ec_load_execution ec (ec_dump_execution ec x) = Inr x) \<and> (\<forall>x. ec_load_result ec (ec_dump_result ec x) = Inr x)
     \<and> (\<forall>x. ec_load_report ec (ec_dump_report ec x) = Inr x) \<and> (\<forall>x. ec_load_baseline ec (ec_dump_baseline ec x) = Inr x)
     \<and> (\<forall>x. ec_load_recommendation ec (ec_dump_recommendation ec x) = Inr x)"

text \<open>The tables that hold a store: the representation is a function of what is stored.\<close>

definition payload_of :: "eval_codec \<Rightarrow> eval_observation \<Rightarrow> pystr" where
  "payload_of ec x = projr (observation_payload ec x)"

definition numbered :: "'a list \<Rightarrow> (int \<times> 'a) list" where
  "numbered xs = zip (map int [0..<length xs]) xs"

definition eval_tables_of :: "eval_codec \<Rightarrow> eval_store \<Rightarrow> eval_tables" where
  "eval_tables_of ec s =
     \<lparr>et_executions = (\<lambda>i. map_option (ec_dump_execution ec) (es_executions s i)),
      et_observations = (\<lambda>i. map_option (\<lambda>x. (obs_execution_id x, payload_of ec x)) (es_observations s i)),
      et_links = (\<lambda>e. numbered (es_links s e)),
      et_results = (\<lambda>i. map_option (ec_dump_result ec) (es_results s i)),
      et_reports = map (\<lambda>(k, r). (k, ec_dump_report ec r)) (es_reports s),
      et_baselines = (\<lambda>i. map_option (ec_dump_baseline ec) (es_baselines s i)),
      et_recommendations = (\<lambda>i. map_option (ec_dump_recommendation ec) (es_recommendations s i))\<rparr>"

definition store_storable :: "eval_codec \<Rightarrow> eval_store \<Rightarrow> bool" where
  "store_storable ec s \<longleftrightarrow> (\<forall>i x. es_observations s i = Some x \<longrightarrow> storable ec (Fact_Observation x))"

lemma external_round_trip:
  assumes "persistable i" and "\<And>a. i = Ext_Artifact a \<Longrightarrow> ec_load_artifact ec (ec_dump_artifact ec a) = Inr a"
  obtains j where "encode_external ec i = Inr j" and "decode_external ec j = Inr i"
proof (cases i)
  case (Ext_Artifact a)
  with assms(2) have "decode_external ec (projr (encode_external ec i)) = Inr i"
    by (simp add: decode_external_def json_get_def jstr_def)
  with Ext_Artifact show ?thesis by (intro that) simp_all
next
  case (Ext_Json v)
  with assms(1) have "decode_external ec (projr (encode_external ec i)) = Inr i"
    by (simp add: decode_external_def json_get_def jstr_def)
  with Ext_Json assms(1) show ?thesis by (intro that) simp_all
qed (use assms in simp)

lemma externals_round_trip:
  assumes "list_all persistable is"
    and "\<And>a. Ext_Artifact a \<in> set is \<Longrightarrow> ec_load_artifact ec (ec_dump_artifact ec a) = Inr a"
  shows "\<exists>js. mapE (encode_external ec) is = Inr js \<and> mapE (decode_external ec) js = Inr is"
  using assms
proof (induction "is")
  case (Cons i "is")
  then obtain js where js: "mapE (encode_external ec) is = Inr js" "mapE (decode_external ec) js = Inr is" by auto
  obtain j where "encode_external ec i = Inr j" "decode_external ec j = Inr i"
    using external_round_trip [of i ec] Cons.prems by auto
  with js show ?case by (intro exI [of _ "j # js"]) simp
qed simp

lemma observation_round_trip:
  assumes "storable ec (Fact_Observation x)"
  shows "observation_payload ec x = Inr (payload_of ec x)" and "observation_from_payload ec (payload_of ec x) = Inr x"
proof -
  obtain js where js: "mapE (encode_external ec) (external_evidence x) = Inr js"
    "mapE (decode_external ec) js = Inr (external_evidence x)"
    using externals_round_trip [of "external_evidence x" ec] assms by auto
  then show p: "observation_payload ec x = Inr (payload_of ec x)"
    by (simp add: payload_of_def observation_payload_def)
  show "observation_from_payload ec (payload_of ec x) = Inr x"
    using js assms by (simp add: payload_of_def observation_payload_def observation_from_payload_def)
qed

lemma numbered_simps [simp]:
  "map snd (numbered xs) = xs" "map fst (numbered xs) = map int [0..<length xs]"
  "numbered [] = []" "numbered [x] = [(0, x)]" "numbered xs = [] \<longleftrightarrow> xs = []"
  "numbered (xs @ [x]) = numbered xs @ [(int (length xs), x)]"
  by (auto simp: numbered_def)

lemma numbered_max: "xs \<noteq> [] \<Longrightarrow> Max (set (map fst (numbered xs))) + 1 = int (length xs)"
proof -
  assume ne: "xs \<noteq> []"
  have "Max (int ` {0..<length xs}) = int (length xs - 1)" using ne by (intro Max_eqI) auto
  moreover have "0 < length xs" using ne by simp
  ultimately show ?thesis by simp
qed

lemma link_tables_of:
  "link_observation e i (eval_tables_of ec s) =
     (if i \<in> set (es_links s e) then eval_tables_of ec s
      else eval_tables_of ec (s\<lparr>es_links := (es_links s)(e := es_links s e @ [i])\<rparr>))"
proof -
  have "et_links (eval_tables_of ec s) = (\<lambda>e. numbered (es_links s e))" by (simp add: eval_tables_of_def)
  then have "link_observation e i (eval_tables_of ec s) = (if i \<in> set (es_links s e) then eval_tables_of ec s
      else (eval_tables_of ec s)\<lparr>et_links := (\<lambda>e. numbered (es_links s e))(e := numbered (es_links s e @ [i]))\<rparr>)"
    using numbered_max [of "es_links s e"] by (cases "es_links s e = []") (auto simp: link_observation_def)
  also have "(eval_tables_of ec s)\<lparr>et_links := (\<lambda>e. numbered (es_links s e))(e := numbered (es_links s e @ [i]))\<rparr>
      = eval_tables_of ec (s\<lparr>es_links := (es_links s)(e := es_links s e @ [i])\<rparr>)"
    by (auto simp: eval_tables_of_def fun_eq_iff)
  finally show ?thesis .
qed

lemma map_of_dumped: "map_of (map (\<lambda>(k, r). (k, f r)) xs) k = map_option f (map_of xs k)"
  by (induction xs) auto

lemma sql_put_refines:
  assumes "eval_codec_ok ec" and "store_storable ec s" and "links_ok s" and "storable ec f"
  shows "sql_put_fact ec f (eval_tables_of ec s) = (fst (put_fact f s), eval_tables_of ec (snd (put_fact f s)))"
proof (cases f)
  case (Fact_Observation x)
  note rt = observation_round_trip [of ec x]
  show ?thesis
  proof (cases "es_observations s (observation_id x)")
    case None
    then have new: "observation_id x \<notin> set (es_links s e)" for e using assms(3) by (auto simp: links_ok_def)
    let ?s = "s\<lparr>es_observations := (es_observations s)(observation_id x \<mapsto> x)\<rparr>"
    have upd: "(eval_tables_of ec s)\<lparr>et_observations := (et_observations (eval_tables_of ec s))
        (observation_id x \<mapsto> (obs_execution_id x, payload_of ec x))\<rparr> = eval_tables_of ec ?s"
      by (auto simp: eval_tables_of_def fun_eq_iff)
    have "sql_record_observation ec x (eval_tables_of ec s) = (Inr x, case obs_execution_id x of
        None \<Rightarrow> eval_tables_of ec ?s | Some e \<Rightarrow> link_observation e (observation_id x) (eval_tables_of ec ?s))"
      unfolding upd [symmetric] using None Fact_Observation assms(4) rt(1)
      by (simp add: sql_record_observation_def Let_def) (simp add: eval_tables_of_def)
    then show ?thesis using None new Fact_Observation
      by (cases "obs_execution_id x") (simp_all add: record_observation_def fact_reply_def link_tables_of)
  next
    case (Some old)
    have old: "observation_from_payload ec (payload_of ec old) = Inr old"
      using observation_round_trip(2) assms(2) Some by (auto simp: store_storable_def simp del: storable.simps)
    have linked: "observation_id x \<in> set (es_links s e)" if "same_observation old x" "obs_execution_id x = Some e" for e
    proof -
      have "obs_execution_id old = obs_execution_id x"
        using that(1) unfolding same_observation_def
        by (metis (no_types, lifting) eval_observation.select_convs(10) eval_observation.surjective
            eval_observation.update_convs(19))
      with that(2) Some assms(3) show ?thesis by (auto simp: links_ok_def)
    qed
    have row: "et_observations (eval_tables_of ec s) (observation_id x) = Some (obs_execution_id old, payload_of ec old)"
      using Some by (simp add: eval_tables_of_def)
    show ?thesis
      using Some Fact_Observation assms(4) rt old row linked
      by (cases "obs_execution_id x")
        (auto simp: sql_record_observation_def record_observation_def fact_reply_def Let_def link_tables_of simp del: storable.simps)
  qed
next
  case (Fact_Execution x)
  then show ?thesis using assms(1)
    by (cases "es_executions s (execution_id x)")
      (auto simp: sql_record_execution_def append_payload_def record_defs eval_tables_of_def eval_codec_ok_def fun_eq_iff)
next
  case (Fact_Result x)
  then show ?thesis using assms(1)
    by (cases "es_results s (evr_id x)")
      (auto simp: sql_record_evaluator_result_def append_payload_def record_defs eval_tables_of_def eval_codec_ok_def fun_eq_iff)
next
  case (Fact_Report x)
  then show ?thesis using assms(1)
    by (cases "map_of (es_reports s) (report_id x, revision x)")
      (auto simp: sql_record_report_def append_payload_def record_defs eval_tables_of_def eval_codec_ok_def map_of_dumped)
next
  case (Fact_Baseline x)
  then show ?thesis using assms(1)
    by (cases "es_baselines s (baseline_id x)")
      (auto simp: sql_record_baseline_def append_payload_def record_defs eval_tables_of_def eval_codec_ok_def fun_eq_iff)
next
  case (Fact_Recommendation x)
  then show ?thesis using assms(1)
    by (cases "es_recommendations s (recommendation_id x)")
      (auto simp: sql_record_recommendation_def append_payload_def record_defs eval_tables_of_def eval_codec_ok_def fun_eq_iff)
qed

lemma eval_tables_of_empty: "eval_tables_of ec empty_eval_store = empty_eval_tables"
  by (simp add: eval_tables_of_def empty_eval_store_def empty_eval_tables_def)

lemma store_storable_empty: "store_storable ec empty_eval_store"
  by (simp add: store_storable_def empty_eval_store_def)

lemma put_storable: "store_storable ec s \<Longrightarrow> storable ec f \<Longrightarrow> store_storable ec (snd (put_fact f s))"
  by (cases f) (auto simp: store_storable_def record_defs simp del: storable.simps split: option.splits if_splits)

lemma sql_run_refines:
  assumes "eval_codec_ok ec" and "store_storable ec s" and "links_ok s" and "\<forall>f \<in> set fs. storable ec f"
  shows "run_all (sql_put_fact ec) fs (eval_tables_of ec s) = eval_tables_of ec (run_all put_fact fs s)"
    and "store_storable ec (run_all put_fact fs s)"
  using assms(2-4)
proof (induction fs arbitrary: s)
  case (Cons f fs)
  {
    case 1
    then show ?case
      using Cons.IH(1) [OF put_storable put_fact_links] sql_put_refines [OF assms(1)] by (simp del: storable.simps)
  next
    case 2
    then show ?case
      using Cons.IH(2) [OF put_storable put_fact_links] by (simp del: storable.simps)
  }
qed simp_all

lemma sort_numbered: "sort_key fst (numbered xs) = numbered xs"
  by (rule sort_key_id_if_sorted) (simp add: sorted_map sorted_wrt_map strict_sorted_imp_sorted)

lemma load_row_dumped:
  "(\<And>x. v = Some x \<Longrightarrow> load (dump x) = Inr x) \<Longrightarrow> load_row load (map_option dump v) = Inr v"
  by (cases v) (simp_all add: load_row_def)

lemma sql_readers_refine:
  assumes "eval_codec_ok ec" and "store_storable ec s"
  shows "sql_get_fact ec k (eval_tables_of ec s) = Inr (get_fact k s)"
    and "sql_latest_report_revision i (eval_tables_of ec s) = latest_report_revision i s"
    and "sql_observation_view ec i (eval_tables_of ec s) = Inr (observation_view i s)"
    and "sql_execution_view ec id i (eval_tables_of ec s) = Inr (execution_view i s)"
    and "sql_report_view ec i n (eval_tables_of ec s) = Inr (report_view i n s)"
proof -
  have obs: "sql_get_observation ec j (eval_tables_of ec s) = Inr (get_observation j s)" for j
  proof -
    have "observation_from_payload ec (payload_of ec x) = Inr x" if "es_observations s j = Some x" for x
      using observation_round_trip(2) assms(2) that by (auto simp: store_storable_def simp del: storable.simps)
    then show ?thesis
      by (cases "es_observations s j") (simp_all add: sql_get_observation_def get_defs eval_tables_of_def load_row_def)
  qed
  have exec: "sql_get_execution ec j (eval_tables_of ec s) = Inr (get_execution j s)" for j
    using assms(1) by (simp add: sql_get_execution_def get_defs eval_tables_of_def load_row_dumped eval_codec_ok_def)
  have rpt: "sql_get_report ec j m (eval_tables_of ec s) = Inr (get_report j m s)" for j m
    using assms(1) by (simp add: sql_get_report_def get_defs eval_tables_of_def map_of_dumped load_row_dumped eval_codec_ok_def)
  have others: "sql_get_evaluator_result ec j (eval_tables_of ec s) = Inr (get_evaluator_result j s)"
    "sql_get_baseline ec j (eval_tables_of ec s) = Inr (get_baseline j s)"
    "sql_get_recommendation ec j (eval_tables_of ec s) = Inr (get_recommendation j s)" for j
    using assms(1) by (simp_all add: sql_get_evaluator_result_def sql_get_baseline_def sql_get_recommendation_def get_defs
        eval_tables_of_def load_row_dumped eval_codec_ok_def)
  show "sql_get_fact ec k (eval_tables_of ec s) = Inr (get_fact k s)"
    by (cases k) (auto simp: obs exec rpt others)
  show "sql_latest_report_revision i (eval_tables_of ec s) = latest_report_revision i s"
    by (simp add: sql_latest_report_revision_def latest_report_revision_def eval_tables_of_def filter_map comp_def case_prod_unfold)
  show "sql_observation_view ec i (eval_tables_of ec s) = Inr (observation_view i s)"
    by (simp add: sql_observation_view_def obs observation_view_def get_defs)
  show "sql_execution_view ec id i (eval_tables_of ec s) = Inr (execution_view i s)"
    by (simp add: sql_execution_view_def exec execution_view_def get_defs) (simp add: eval_tables_of_def sort_numbered)
  show "sql_report_view ec i n (eval_tables_of ec s) = Inr (report_view i n s)"
    by (simp add: sql_report_view_def rpt report_view_def get_defs)
qed

text \<open>An observation with evidence of any other type is kept in memory and refused by SQLite.\<close>

lemma unpersistable_refused:
  assumes "\<not> list_all persistable (external_evidence x)"
  shows "sql_record_observation ec x t = (Inl EvalError, t)"
proof -
  have "mapE (encode_external ec) is = Inl EvalError" if "\<not> list_all persistable is" for "is"
    using that
  proof (induction "is")
    case (Cons i "is")
    then show ?case by (cases i) (auto simp: bindE_eq_Inl)
  qed simp
  with assms show ?thesis by (simp add: sql_record_observation_def observation_payload_def)
qed

end
