(* ===== verification/Session_Ports.thy ===== *)
theory Session_Ports
  imports Session_Runner
begin

text \<open>
  The session runner does not see which session store it uses. The locale \<open>port_simulation\<close> is
  what two implementations of the \<open>SessionStore\<close> protocol have to agree on; in it every
  entry point of the runner gives the same result over both. It is interpreted on the SQLite
  store and the store in memory.
\<close>

section \<open>Related actions\<close>

definition worlds_agree :: "('s \<Rightarrow> 't \<Rightarrow> bool) \<Rightarrow> 's session_world \<Rightarrow> 't session_world \<Rightarrow> bool" where
  "worlds_agree rel w v \<longleftrightarrow> rel (w_sessions w) (w_sessions v) \<and> w_core w = w_core v \<and> w_calls w = w_calls v"

definition same_action ::
  "('s \<Rightarrow> 't \<Rightarrow> bool) \<Rightarrow> ('s, 'a) session_action \<Rightarrow> ('t, 'a) session_action \<Rightarrow> bool" where
  "same_action rel m n \<longleftrightarrow>
     (\<forall>w v. worlds_agree rel w v \<longrightarrow> fst (m w) = fst (n v) \<and> worlds_agree rel (snd (m w)) (snd (n v)))"

lemma same_bind:
  assumes "same_action rel m n" and "\<And>x. same_action rel (f x) (g x)"
  shows "same_action rel (bindW m f) (bindW n g)"
  unfolding same_action_def
proof (intro allI impI)
  fix w v assume "worlds_agree rel w v"
  with assms(1) have "fst (m w) = fst (n v)" "worlds_agree rel (snd (m w)) (snd (n v))"
    by (simp_all add: same_action_def)
  with assms(2) show "fst (bindW m f w) = fst (bindW n g v) \<and> worlds_agree rel (snd (bindW m f w)) (snd (bindW n g v))"
    by (cases "m w"; cases "n v"; cases "fst (m w)") (auto simp: bindW_def same_action_def)
qed

lemma same_catch:
  assumes "same_action rel m n" and "\<And>e. same_action rel (h e) (k e)"
  shows "same_action rel (catchW m h) (catchW n k)"
  unfolding same_action_def
proof (intro allI impI)
  fix w v assume "worlds_agree rel w v"
  with assms(1) have "fst (m w) = fst (n v)" "worlds_agree rel (snd (m w)) (snd (n v))"
    by (simp_all add: same_action_def)
  with assms(2) show "fst (catchW m h w) = fst (catchW n k v) \<and> worlds_agree rel (snd (catchW m h w)) (snd (catchW n k v))"
    by (cases "m w"; cases "n v"; cases "fst (m w)") (auto simp: catchW_def same_action_def)
qed

lemma same_pure: "same_action rel (retW x) (retW x)" "same_action rel (raiseW e) (raiseW e)"
  "same_action rel (stampW f) (stampW f)" "same_action rel (with_core c) (with_core c)"
  by (auto simp: same_action_def worlds_agree_def retW_def raiseW_def stampW_def with_core_def split: prod.splits)

lemma same_stamp:
  assumes "\<And>n. same_action rel (f (x n)) (g (x n))"
  shows "same_action rel (bindW (stampW x) f) (bindW (stampW x) g)"
  using assms by (auto simp: same_action_def bindW_def stampW_def worlds_agree_def)

section \<open>Two implementations of the protocol\<close>

text \<open>A turn is committed to the session it names.\<close>

fun addressed :: "session_cmd \<Rightarrow> bool" where
  "addressed (CommitTurn now k turn v) \<longleftrightarrow> turn_session_id turn = snd k"
| "addressed _ \<longleftrightarrow> True"

definition same_runner :: "'s session_runner \<Rightarrow> 't session_runner \<Rightarrow> bool" where
  "same_runner a b \<longleftrightarrow> sru_core a = sru_core b \<and> sru_clock a = sru_clock b \<and> sru_new_id a = sru_new_id b
     \<and> sru_others a = sru_others b \<and> (\<forall>n. list_all addressed (sru_others a n))"

locale port_simulation =
  fixes rel :: "'s \<Rightarrow> 't \<Rightarrow> bool" and p :: "'s session_port" and q :: "'t session_port"
  assumes snapshots: "rel t s \<Longrightarrow> port_read_snapshot p scope sid t = port_read_snapshot q scope sid s"
    and sessions: "rel t s \<Longrightarrow> port_get_session p scope sid t = port_get_session q scope sid s"
    and turns: "rel t s \<Longrightarrow> port_find_turn p scope sid rid t = port_find_turn q scope sid rid s"
    and claims: "rel t s \<Longrightarrow> fst (port_claim_run p now now' scope sid rid v t) = fst (port_claim_run q now now' scope sid rid v s)
      \<and> rel (snd (port_claim_run p now now' scope sid rid v t)) (snd (port_claim_run q now now' scope sid rid v s))"
    and releases: "rel t s \<Longrightarrow> fst (port_release_claim p now scope sid rid t) = fst (port_release_claim q now scope sid rid s)
      \<and> rel (snd (port_release_claim p now scope sid rid t)) (snd (port_release_claim q now scope sid rid s))"
    and commits: "rel t s \<Longrightarrow> turn_session_id turn = sid \<Longrightarrow>
      fst (port_commit_turn p now scope sid turn v t) = fst (port_commit_turn q now scope sid turn v s)
      \<and> rel (snd (port_commit_turn p now scope sid turn v t)) (snd (port_commit_turn q now scope sid turn v s))"
    and commands: "rel t s \<Longrightarrow> addressed c \<Longrightarrow> rel (snd (port_exec p c t)) (snd (port_exec q c s))"
begin

lemma run_all_rel:
  "rel t s \<Longrightarrow> list_all addressed cs \<Longrightarrow> rel (run_all (port_exec p) cs t) (run_all (port_exec q) cs s)"
  by (induction cs arbitrary: t s) (simp_all add: commands)

lemma same_store:
  assumes "same_runner a b" and "sru_port a = p" and "sru_port b = q"
    and "\<And>n t s. rel t s \<Longrightarrow> fst (f n t) = fst (g n s) \<and> rel (snd (f n t)) (snd (g n s))"
  shows "same_action rel (with_store a f) (with_store b g)"
  unfolding same_action_def
proof (intro allI impI)
  fix w v assume wv: "worlds_agree rel w v"
  let ?t = "run_all (port_exec p) (sru_others a (w_calls w)) (w_sessions w)"
  let ?s = "run_all (port_exec q) (sru_others a (w_calls w)) (w_sessions v)"
  have "rel ?t ?s" using wv assms(1) by (intro run_all_rel) (auto simp: worlds_agree_def same_runner_def)
  from assms(4) [OF this, of "w_calls w"]
  have "fst (f (w_calls w) ?t) = fst (g (w_calls w) ?s)" "rel (snd (f (w_calls w) ?t)) (snd (g (w_calls w) ?s))" by simp_all
  then show "fst (with_store a f w) = fst (with_store b g v)
      \<and> worlds_agree rel (snd (with_store a f w)) (snd (with_store b g v))"
    using wv assms(1-3)
    by (cases "f (w_calls w) ?t"; cases "g (w_calls w) ?s") (auto simp: with_store_def worlds_agree_def same_runner_def split: prod.splits)
qed

lemma same_calls:
  assumes "same_runner a b" and "sru_port a = p" and "sru_port b = q"
  shows "same_action rel (snapshotW a scope sid) (snapshotW b scope sid)"
    and "same_action rel (sessionW a scope sid) (sessionW b scope sid)"
    and "same_action rel (claimW a scope sid rid v) (claimW b scope sid rid v)"
    and "same_action rel (releaseW a scope sid rid) (releaseW b scope sid rid)"
    and "turn_session_id turn = sid \<Longrightarrow> same_action rel (commitW a scope sid turn v) (commitW b scope sid turn v)"
    and "same_action rel (with_store a (\<lambda>n s. (port_find_turn (sru_port a) scope sid rid s, s)))
       (with_store b (\<lambda>n s. (port_find_turn (sru_port b) scope sid rid s, s)))"
proof -
  have "sru_clock a = sru_clock b" using assms(1) by (simp add: same_runner_def)
  note facts = this assms(2,3) snapshots sessions turns claims releases commits
  note store = same_store [OF assms]
  show "same_action rel (snapshotW a scope sid) (snapshotW b scope sid)"
    unfolding snapshotW_def by (rule store) (simp add: facts)
  show "same_action rel (sessionW a scope sid) (sessionW b scope sid)"
    unfolding sessionW_def by (rule store) (simp add: facts)
  show "same_action rel (claimW a scope sid rid v) (claimW b scope sid rid v)"
    unfolding claimW_def by (rule store) (simp add: facts)
  show "same_action rel (releaseW a scope sid rid) (releaseW b scope sid rid)"
    unfolding releaseW_def by (rule store) (simp add: facts)
  show "same_action rel (commitW a scope sid turn v) (commitW b scope sid turn v)" if "turn_session_id turn = sid"
    unfolding commitW_def by (rule store) (simp add: facts that)
  show "same_action rel (with_store a (\<lambda>n s. (port_find_turn (sru_port a) scope sid rid s, s)))
      (with_store b (\<lambda>n s. (port_find_turn (sru_port b) scope sid rid s, s)))"
    by (rule store) (simp add: facts)
qed

lemma same_complete:
  assumes "same_runner a b" and "sru_port a = p" and "sru_port b = q"
  shows "same_action rel (complete_session a scope sid run cl) (complete_session b scope sid run cl)"
proof -
  have eqs: "sru_new_id a = sru_new_id b" "sru_clock a = sru_clock b" using assms(1) by (simp_all add: same_runner_def)
  have "same_action rel (commit_successful_run a scope sid run cl) (commit_successful_run b scope sid run cl)"
    unfolding commit_successful_run_def eqs
    by (intro same_stamp same_catch same_bind same_calls assms same_pure) (auto simp: turn_of_run_def intro: same_pure)
  then show ?thesis
    by (auto simp: complete_session_def intro!: same_bind same_pure same_calls assms)
qed

lemma same_submit:
  assumes "same_runner a b" and "sru_port a = p" and "sru_port b = q"
  shows "same_action rel (submit fuel a scope sid did version input) (submit fuel b scope sid did version input)"
proof -
  have "sru_new_id a = sru_new_id b" "sru_core a = sru_core b" using assms(1) by (simp_all add: same_runner_def)
  then show ?thesis
    by (auto simp: submit_def intro!: same_bind same_catch same_pure same_calls same_complete assms)
qed

lemma same_resume:
  assumes "same_runner a b" and "sru_port a = p" and "sru_port b = q"
  shows "same_action rel (resume_session fuel a scope sid) (resume_session fuel b scope sid)"
proof -
  have "sru_core a = sru_core b" using assms(1) by (simp add: same_runner_def)
  then show ?thesis
    by (auto simp: resume_session_def split: option.splits
        intro!: same_bind same_catch same_pure same_calls same_complete assms)
qed

lemma same_query:
  assumes "same_runner a b" and "sru_port a = p" and "sru_port b = q"
  shows "same_action rel (query_commit_status a scope sid rid) (query_commit_status b scope sid rid)"
proof -
  have "sru_core a = sru_core b" using assms(1) by (simp add: same_runner_def)
  then show ?thesis
    by (auto simp: query_commit_status_def split: option.splits
        intro!: same_bind same_pure same_calls assms)
qed

end

section \<open>SQLite and memory\<close>

definition session_stores_related :: "session_env \<Rightarrow> session_tables \<Rightarrow> session_store_state \<Rightarrow> bool" where
  "session_stores_related env t s \<longleftrightarrow>
     sessions_agree env t s \<and> session_codec_ok env \<and> (\<forall>x. \<exists>b. sn_encode env x = Inr b)"

lemma sql_commands_related:
  assumes "session_stores_related env t s" and "addressed c"
  shows "session_stores_related env (snd (sql_exec_session env c t)) (snd (exec_session c s))"
proof -
  have "session_encodable env c" using assms by (cases c) (auto simp: session_stores_related_def)
  with assms(1) show ?thesis using exec_session_agrees by (simp add: session_stores_related_def)
qed

lemma sql_ports_related:
  assumes "session_stores_related env t s"
  shows "port_read_snapshot (sqlite_port env) scope sid t = port_read_snapshot memory_port scope sid s"
    and "port_get_session (sqlite_port env) scope sid t = port_get_session memory_port scope sid s"
    and "port_find_turn (sqlite_port env) scope sid rid t = port_find_turn memory_port scope sid rid s"
    and "fst (port_claim_run (sqlite_port env) now now' scope sid rid v t) = fst (port_claim_run memory_port now now' scope sid rid v s)
      \<and> session_stores_related env (snd (port_claim_run (sqlite_port env) now now' scope sid rid v t))
        (snd (port_claim_run memory_port now now' scope sid rid v s))"
    and "fst (port_release_claim (sqlite_port env) now scope sid rid t) = fst (port_release_claim memory_port now scope sid rid s)
      \<and> session_stores_related env (snd (port_release_claim (sqlite_port env) now scope sid rid t))
        (snd (port_release_claim memory_port now scope sid rid s))"
    and "turn_session_id turn = sid \<Longrightarrow>
      fst (port_commit_turn (sqlite_port env) now scope sid turn v t) = fst (port_commit_turn memory_port now scope sid turn v s)
      \<and> session_stores_related env (snd (port_commit_turn (sqlite_port env) now scope sid turn v t))
        (snd (port_commit_turn memory_port now scope sid turn v s))"
proof -
  from assms have a: "sessions_agree env t s" "session_codec_ok env" and "\<forall>x. \<exists>b. sn_encode env x = Inr b"
    by (simp_all add: session_stores_related_def)
  then obtain b where b: "sn_encode env (payload_json env turn) = Inr b" by blast
  note agree = session_readers_agree [OF a(1)] claim_run_agrees [OF a(1)] release_claim_agrees [OF a(1)]
    commit_turn_agrees [OF a b]
  note rel = assms [unfolded session_stores_related_def, THEN conjunct2]
  show "port_read_snapshot (sqlite_port env) scope sid t = port_read_snapshot memory_port scope sid s"
    "port_get_session (sqlite_port env) scope sid t = port_get_session memory_port scope sid s"
    "port_find_turn (sqlite_port env) scope sid rid t = port_find_turn memory_port scope sid rid s"
    "fst (port_claim_run (sqlite_port env) now now' scope sid rid v t) = fst (port_claim_run memory_port now now' scope sid rid v s)
      \<and> session_stores_related env (snd (port_claim_run (sqlite_port env) now now' scope sid rid v t))
        (snd (port_claim_run memory_port now now' scope sid rid v s))"
    "fst (port_release_claim (sqlite_port env) now scope sid rid t) = fst (port_release_claim memory_port now scope sid rid s)
      \<and> session_stores_related env (snd (port_release_claim (sqlite_port env) now scope sid rid t))
        (snd (port_release_claim memory_port now scope sid rid s))"
    "turn_session_id turn = sid \<Longrightarrow>
      fst (port_commit_turn (sqlite_port env) now scope sid turn v t) = fst (port_commit_turn memory_port now scope sid turn v s)
      \<and> session_stores_related env (snd (port_commit_turn (sqlite_port env) now scope sid turn v t))
        (snd (port_commit_turn memory_port now scope sid turn v s))"
    using agree rel by (simp_all add: sqlite_port_def memory_port_def session_stores_related_def)
qed

interpretation sqlite_memory: port_simulation "session_stores_related env" "sqlite_port env" memory_port for env
proof unfold_locales
  show "session_stores_related env (snd (port_exec (sqlite_port env) c t)) (snd (port_exec memory_port c s))"
    if "session_stores_related env t s" "addressed c" for t s c
    using sql_commands_related [OF that] by (simp add: sqlite_port_def memory_port_def)
qed (fact sql_ports_related)+

end
