(* ===== verification/Routing_Data.thy ===== *)
theory Routing_Data
  imports Run_Data Complex_Main
begin

text \<open>
  Values of the Routing Companion, \<open>src/src/m_agent/companion/routing\<close>: policies
  (\<open>_policy.py\<close>), the model catalog (\<open>_catalog.py\<close>), evidence snapshots with their
  validity classification (\<open>_evidence.py\<close>) and the evidence-based cost estimate
  (\<open>_cost.py\<close>). The canonical SHA-256 digests over Pydantic dumps are the fields of
  \<open>routing_digests\<close>. A \<open>Decimal\<close> is a rational; a \<open>float\<close> score is the rational its
  shortest decimal representation denotes.
\<close>

section \<open>Policies\<close>

record routing_policy_identity =
  rp_policy_id :: ident
  rp_version :: ident

record deployment_constraints =
  allowed_providers :: "ident list option"
  allowed_regions :: "ident list option"
  allowed_endpoint_classes :: "ident list option"
  allowed_retention_evidence_versions :: "ident list option"

datatype objective_dimension = COST | LATENCY | QUALITY | STABILITY
datatype objective_direction = MINIMIZE | MAXIMIZE
datatype missing_value_policy = ORDER_LAST | ORDER_FIRST

record routing_objective =
  dimension :: objective_dimension
  direction :: objective_direction
  missing_value :: missing_value_policy

record operational_limits_gate =
  min_available_rpm :: "int option"
  min_available_tpm :: "int option"
  min_available_concurrency :: "int option"
  min_remaining_period_quota :: "rat option"

record worst_case_cost_cap =
  cap_currency :: ident
  max_run_cost :: rat

record hard_routing_gates =
  max_input_price_per_mtok :: "rat option"
  min_quality_score :: "rat option"
  min_stability_score :: "rat option"
  require_availability :: bool
  gate_operational_limits :: "operational_limits_gate option"
  gate_worst_case_cost_cap :: "worst_case_cost_cap option"

record soft_routing_preferences =
  track_availability :: bool
  track_operational_limits :: bool

record recommendation_publication =
  pub_recommendation_id :: ident
  pub_recommendation_version :: ident
  pub_report_id :: ident
  pub_report_revision :: int
  pub_evidence_digest :: string
  pub_target_variant_id :: ident
  pub_target_variant_version :: ident
  pub_hard_gate_passed :: bool
  pub_quality_gate_passed :: bool
  pub_confidence :: rat
  pub_valid_until :: timestamp

record routing_policy =
  rpol_identity :: routing_policy_identity
  rpol_model_requirements :: model_requirements
  rpol_deployment :: deployment_constraints
  rpol_hard_gates :: hard_routing_gates
  rpol_objectives :: "routing_objective list"
  rpol_soft_preferences :: soft_routing_preferences
  rpol_allowed_variants :: "(ident \<times> ident) list option"
  rpol_published_from :: "recommendation_publication option"

section \<open>Catalog\<close>

record deployment_attributes =
  provider :: "ident option"
  region :: "ident option"
  endpoint_class :: "ident option"
  retention_evidence_version :: "ident option"

record agent_variant =
  variant_id :: ident
  variant_version :: ident
  variant_definition_id :: ident
  variant_definition_version :: ident
  variant_bindings :: model_binding_set
  variant_execution_budget :: model_execution_budget
  policy_identities :: "routing_policy_identity list"

definition validate_policy_identities :: "agent_variant \<Rightarrow> exn + agent_variant" where
  "validate_policy_identities v =
     (if policy_identities v = [] then Inl ValueError
      else if \<not> distinct (map (\<lambda>i. (rp_policy_id i, rp_version i)) (policy_identities v))
        then Inl ValueError else Inr v)"

definition primary_contract :: "agent_variant \<Rightarrow> exn + model_contract" where
  "primary_contract v = bindE (for_purpose (variant_bindings v) PRIMARY) (\<lambda>b. Inr (binding_contract b))"

definition variant_identity :: "agent_variant \<Rightarrow> ident \<times> ident" where
  "variant_identity v = (variant_id v, variant_version v)"

record catalog_entry =
  entry_variant :: agent_variant
  entry_deployment :: deployment_attributes

record model_catalog =
  catalog_id :: ident
  catalog_version :: ident
  catalog_entries :: "catalog_entry list"

definition entry_identity :: "catalog_entry \<Rightarrow> ident \<times> ident" where
  "entry_identity e = variant_identity (entry_variant e)"

definition canonical_entries :: "model_catalog \<Rightarrow> catalog_entry list" where
  "canonical_entries c = dedup_by entry_identity [] (sort_key entry_identity (catalog_entries c))"

section \<open>Evidence\<close>

datatype snapshot_status =
  VALID | STALE | NOT_EFFECTIVE | SUBJECT_MISMATCH | FINGERPRINT_DRIFT | INTEGRITY_FAILURE

record model_evidence_snapshot =
  me_variant_id :: ident
  me_variant_version :: ident
  quality_score :: rat
  stability_score :: rat
  latency_ms_p50 :: "rat option"
  me_version :: ident
  me_collected_at :: timestamp
  me_valid_until :: timestamp

record pricing_snapshot =
  pr_variant_id :: ident
  pr_variant_version :: ident
  pr_currency :: ident
  input_price_per_mtok :: rat
  output_price_per_mtok :: "rat option"
  pr_version :: ident
  pr_effective_at :: timestamp
  pr_valid_until :: timestamp
  pr_contract_fingerprint :: "string option"
  pr_integrity_digest :: "string option"

record availability_snapshot =
  av_variant_id :: ident
  av_variant_version :: ident
  available :: bool
  av_version :: ident
  av_sampled_at :: timestamp
  av_valid_until :: timestamp
  av_contract_fingerprint :: "string option"
  av_integrity_digest :: "string option"

record operational_limits_snapshot =
  ol_variant_id :: ident
  ol_variant_version :: ident
  available_rpm :: "int option"
  available_tpm :: "int option"
  available_concurrency :: "int option"
  remaining_period_quota :: "rat option"
  ol_version :: ident
  ol_collected_at :: timestamp
  ol_valid_until :: timestamp
  ol_contract_fingerprint :: "string option"
  ol_integrity_digest :: "string option"

record retention_evidence_snapshot =
  re_variant_id :: ident
  re_variant_version :: ident
  verified_retention_evidence_version :: ident
  re_version :: ident
  re_collected_at :: timestamp
  re_valid_until :: timestamp

record routing_evidence =
  ev_model_evidence :: "model_evidence_snapshot list"
  ev_pricing :: "pricing_snapshot list"
  ev_availability :: "availability_snapshot list"
  ev_retention :: "retention_evidence_snapshot list"
  ev_operational_limits :: "operational_limits_snapshot list"

definition no_evidence :: routing_evidence where
  "no_evidence = \<lparr>ev_model_evidence = [], ev_pricing = [], ev_availability = [],
     ev_retention = [], ev_operational_limits = []\<rparr>"

record routing_digests =
  dg_variant :: "agent_variant \<Rightarrow> string"
  dg_policy :: "routing_policy \<Rightarrow> string"
  dg_catalog :: "model_catalog \<Rightarrow> string"
  dg_evidence :: "routing_evidence \<Rightarrow> string"
  dg_pricing :: "pricing_snapshot \<Rightarrow> string"
  dg_availability :: "availability_snapshot \<Rightarrow> string"
  dg_limits :: "operational_limits_snapshot \<Rightarrow> string"
  dg_decision :: "string \<Rightarrow> string \<Rightarrow> string \<Rightarrow> string \<Rightarrow> string"

text \<open>
  \<open>snapshot_integrity_digest\<close> excludes the digest field itself; the digest functions are
  applied to the snapshot with that field cleared.
\<close>

definition pricing_integrity :: "routing_digests \<Rightarrow> pricing_snapshot \<Rightarrow> string" where
  "pricing_integrity d p = dg_pricing d (p\<lparr>pr_integrity_digest := None\<rparr>)"

definition availability_integrity :: "routing_digests \<Rightarrow> availability_snapshot \<Rightarrow> string" where
  "availability_integrity d a = dg_availability d (a\<lparr>av_integrity_digest := None\<rparr>)"

definition limits_integrity :: "routing_digests \<Rightarrow> operational_limits_snapshot \<Rightarrow> string" where
  "limits_integrity d l = dg_limits d (l\<lparr>ol_integrity_digest := None\<rparr>)"

definition with_integrity :: "routing_digests \<Rightarrow> pricing_snapshot \<Rightarrow> pricing_snapshot" where
  "with_integrity d p = p\<lparr>pr_integrity_digest := Some (pricing_integrity d p)\<rparr>"

text \<open>\<open>_verify_declared_integrity\<close> and \<open>_evaluate_snapshot\<close>, over the fields the three
  sealed snapshot kinds share.\<close>

definition verify_declared_integrity :: "string option \<Rightarrow> string \<Rightarrow> 'a \<Rightarrow> exn + 'a" where
  "verify_declared_integrity declared expected snapshot =
     (if declared \<noteq> None \<and> declared \<noteq> Some expected then Inl ValueError else Inr snapshot)"

definition evaluate_snapshot ::
  "ident \<times> ident \<Rightarrow> string option \<Rightarrow> string option \<Rightarrow> string \<Rightarrow> timestamp \<Rightarrow> agent_variant
     \<Rightarrow> timestamp \<Rightarrow> timestamp option \<Rightarrow> exn + snapshot_status" where
  "evaluate_snapshot subject contract_fp declared expected valid_until variant as_of effective_at =
     (if subject \<noteq> variant_identity variant then Inr SUBJECT_MISMATCH
      else bindE (primary_contract variant) (\<lambda>contract.
        Inr (if contract_fp \<noteq> None \<and> fingerprint contract \<noteq> None \<and> contract_fp \<noteq> fingerprint contract
               then FINGERPRINT_DRIFT
             else if declared \<noteq> Some expected then INTEGRITY_FAILURE
             else if (\<exists>t \<in> set_option effective_at. as_of < t) then NOT_EFFECTIVE
             else if valid_until < as_of then STALE
             else VALID)))"

definition evaluate_pricing_snapshot ::
  "routing_digests \<Rightarrow> pricing_snapshot \<Rightarrow> agent_variant \<Rightarrow> timestamp \<Rightarrow> exn + snapshot_status" where
  "evaluate_pricing_snapshot d p v as_of =
     evaluate_snapshot (pr_variant_id p, pr_variant_version p) (pr_contract_fingerprint p)
       (pr_integrity_digest p) (pricing_integrity d p) (pr_valid_until p) v as_of
       (Some (pr_effective_at p))"

definition evaluate_availability_snapshot ::
  "routing_digests \<Rightarrow> availability_snapshot \<Rightarrow> agent_variant \<Rightarrow> timestamp \<Rightarrow> exn + snapshot_status" where
  "evaluate_availability_snapshot d a v as_of =
     evaluate_snapshot (av_variant_id a, av_variant_version a) (av_contract_fingerprint a)
       (av_integrity_digest a) (availability_integrity d a) (av_valid_until a) v as_of None"

definition evaluate_operational_limits_snapshot ::
  "routing_digests \<Rightarrow> operational_limits_snapshot \<Rightarrow> agent_variant \<Rightarrow> timestamp
     \<Rightarrow> exn + snapshot_status" where
  "evaluate_operational_limits_snapshot d l v as_of =
     evaluate_snapshot (ol_variant_id l, ol_variant_version l) (ol_contract_fingerprint l)
       (ol_integrity_digest l) (limits_integrity d l) (ol_valid_until l) v as_of None"

text \<open>\<open>max(matching, key=key)\<close> returns the first maximal element.\<close>

fun max_by :: "('a \<Rightarrow> 'k :: linorder) \<Rightarrow> 'a \<Rightarrow> 'a list \<Rightarrow> 'a" where
  "max_by key best [] = best"
| "max_by key best (x # xs) = max_by key (if key best < key x then x else best) xs"

definition latest ::
  "('a \<Rightarrow> ident \<times> ident) \<Rightarrow> ('a \<Rightarrow> 'k :: linorder) \<Rightarrow> 'a list \<Rightarrow> ident \<times> ident \<Rightarrow> 'a option" where
  "latest subject key snapshots i =
     (case filter (\<lambda>s. subject s = i) snapshots of [] \<Rightarrow> None | x # xs \<Rightarrow> Some (max_by key x xs))"

definition latest_model_evidence ::
  "routing_evidence \<Rightarrow> agent_variant \<Rightarrow> model_evidence_snapshot option" where
  "latest_model_evidence e v = latest (\<lambda>s. (me_variant_id s, me_variant_version s))
     (\<lambda>s. (me_collected_at s, me_version s)) (ev_model_evidence e) (variant_identity v)"

definition latest_pricing :: "routing_evidence \<Rightarrow> agent_variant \<Rightarrow> pricing_snapshot option" where
  "latest_pricing e v = latest (\<lambda>s. (pr_variant_id s, pr_variant_version s))
     (\<lambda>s. (pr_effective_at s, pr_version s)) (ev_pricing e) (variant_identity v)"

definition latest_availability ::
  "routing_evidence \<Rightarrow> agent_variant \<Rightarrow> availability_snapshot option" where
  "latest_availability e v = latest (\<lambda>s. (av_variant_id s, av_variant_version s))
     (\<lambda>s. (av_sampled_at s, av_version s)) (ev_availability e) (variant_identity v)"

definition latest_retention ::
  "routing_evidence \<Rightarrow> agent_variant \<Rightarrow> retention_evidence_snapshot option" where
  "latest_retention e v = latest (\<lambda>s. (re_variant_id s, re_variant_version s))
     (\<lambda>s. (re_collected_at s, re_version s)) (ev_retention e) (variant_identity v)"

definition latest_operational_limits ::
  "routing_evidence \<Rightarrow> agent_variant \<Rightarrow> operational_limits_snapshot option" where
  "latest_operational_limits e v = latest (\<lambda>s. (ol_variant_id s, ol_variant_version s))
     (\<lambda>s. (ol_collected_at s, ol_version s)) (ev_operational_limits e) (variant_identity v)"

section \<open>Decimal arithmetic and the cost estimate\<close>

text \<open>
  Python's default decimal context: 28 significant digits, ROUND_HALF_EVEN. \<open>quotient_of\<close>
  gives numerator and denominator; the difference of their decimal lengths locates the
  leading digit up to one position.
\<close>

definition round_half_even :: "rat \<Rightarrow> int" where
  "round_half_even y =
     (let f = floor y; r = y - of_int f in
      if r < 1 / 2 then f else if 1 / 2 < r then f + 1 else if even f then f else f + 1)"

definition pow10 :: "int \<Rightarrow> rat" where
  "pow10 k = (if 0 \<le> k then 10 ^ nat k else 1 / 10 ^ nat (- k))"

definition leading_exponent :: "rat \<Rightarrow> int" where
  "leading_exponent x =
     (case quotient_of \<bar>x\<bar> of
        (n, d) \<Rightarrow> let e = int (length (dec (nat n))) - int (length (dec (nat d))) in
                   if pow10 e \<le> \<bar>x\<bar> then e else e - 1)"

definition decimal_round :: "rat \<Rightarrow> rat" where
  "decimal_round x =
     (if x = 0 then 0
      else let k = 27 - leading_exponent x in of_int (round_half_even (x * pow10 k)) / pow10 k)"

definition dec_add :: "rat \<Rightarrow> rat \<Rightarrow> rat" where "dec_add x y = decimal_round (x + y)"
definition dec_mul :: "rat \<Rightarrow> rat \<Rightarrow> rat" where "dec_mul x y = decimal_round (x * y)"
definition dec_div :: "rat \<Rightarrow> rat \<Rightarrow> rat" where "dec_div x y = decimal_round (x / y)"

datatype cost_formula = WORST_CASE_TOKEN_BUDGET | REPORTED_USAGE

datatype cost_gap =
    PRICING_MISSING | PRICING_STALE | PRICING_FINGERPRINT_DRIFT | PRICING_INTEGRITY_FAILURE
  | CURRENCY_MISMATCH | OUTPUT_PRICE_MISSING | INPUT_SIZE_UNAVAILABLE | USAGE_UNAVAILABLE
  | USAGE_PROVENANCE_MISMATCH

record run_cost_policy =
  rc_policy_id :: ident
  rc_version :: ident
  rc_currency :: ident
  rc_formula :: cost_formula
  rc_usage_provenance :: usage_provenance

definition validate_cost_policy :: "run_cost_policy \<Rightarrow> exn + run_cost_policy" where
  "validate_cost_policy p =
     (if rc_formula p = REPORTED_USAGE \<and> rc_usage_provenance p = UNAVAILABLE
      then Inl ValueError else Inr p)"

record usage_observation =
  obs_input_tokens :: int
  obs_output_tokens :: int
  obs_provenance :: usage_provenance

record run_cost_estimate =
  est_policy_id :: ident
  est_policy_version :: ident
  est_currency :: ident
  worst_case_upper_bound :: bool
  upper_bound :: "rat option"
  lower_bound :: "rat option"
  evidence_gaps :: "cost_gap list"
  pricing_snapshot_version :: "ident option"
  est_contract_fingerprint :: "string option"

text \<open>The price evidence part: gaps, and the prices when the snapshot is valid.\<close>

definition pricing_readings ::
  "routing_digests \<Rightarrow> run_cost_policy \<Rightarrow> agent_variant \<Rightarrow> pricing_snapshot option \<Rightarrow> timestamp
     \<Rightarrow> exn + (cost_gap list \<times> rat option \<times> rat option)" where
  "pricing_readings d policy v pricing as_of =
     (case pricing of
        None \<Rightarrow> Inr ([PRICING_MISSING], None, None)
      | Some p \<Rightarrow>
          bindE (evaluate_pricing_snapshot d p v as_of) (\<lambda>status. Inr (
            case status of
              STALE \<Rightarrow> ([PRICING_STALE], None, None)
            | NOT_EFFECTIVE \<Rightarrow> ([PRICING_STALE], None, None)
            | SUBJECT_MISMATCH \<Rightarrow> ([PRICING_MISSING], None, None)
            | FINGERPRINT_DRIFT \<Rightarrow> ([PRICING_FINGERPRINT_DRIFT], None, None)
            | INTEGRITY_FAILURE \<Rightarrow> ([PRICING_INTEGRITY_FAILURE], None, None)
            | VALID \<Rightarrow>
                ((if pr_currency p \<noteq> rc_currency policy then [CURRENCY_MISMATCH] else [])
                 @ (if output_price_per_mtok p = None then [OUTPUT_PRICE_MISSING] else []),
                 Some (input_price_per_mtok p), output_price_per_mtok p))))"

definition mtok :: "int \<Rightarrow> rat" where
  "mtok n = dec_div (of_int n) 1000000"

definition token_cost :: "int \<Rightarrow> rat \<Rightarrow> int \<Rightarrow> rat \<Rightarrow> rat" where
  "token_cost n price m price' = dec_add (dec_mul (mtok n) price) (dec_mul (mtok m) price')"

definition estimate_run_cost ::
  "routing_digests \<Rightarrow> run_cost_policy \<Rightarrow> agent_variant \<Rightarrow> routing_evidence \<Rightarrow> timestamp
     \<Rightarrow> int option \<Rightarrow> usage_observation option \<Rightarrow> exn + run_cost_estimate" where
  "estimate_run_cost d policy v evidence as_of sized_input usage =
     (let pricing = latest_pricing evidence v in
      bindE (pricing_readings d policy v pricing as_of) (\<lambda>(gaps, input_price, output_price).
      let finish = (\<lambda>gaps worst_case upper lower.
            \<lparr>est_policy_id = rc_policy_id policy, est_policy_version = rc_version policy,
             est_currency = rc_currency policy, worst_case_upper_bound = worst_case,
             upper_bound = upper, lower_bound = lower, evidence_gaps = gaps,
             pricing_snapshot_version = map_option pr_version pricing,
             est_contract_fingerprint = Option.bind pricing pr_contract_fingerprint\<rparr>)
      in case (input_price, output_price) of
           (Some ip, Some op) \<Rightarrow>
             if gaps \<noteq> [] then Inr (finish gaps True None None)
             else if rc_formula policy = REPORTED_USAGE then
               (case usage of
                  None \<Rightarrow> Inr (finish [USAGE_UNAVAILABLE] False None None)
                | Some obs \<Rightarrow>
                    if obs_provenance obs \<noteq> rc_usage_provenance policy
                      then Inr (finish [USAGE_PROVENANCE_MISMATCH] False None None)
                    else let spend = token_cost (obs_input_tokens obs) ip (obs_output_tokens obs) op
                         in Inr (finish [] False (Some spend) (Some spend)))
             else bindE (primary_contract v) (\<lambda>contract.
               let reserved = max_output_tokens (limits contract);
                   (input_tokens, gaps') = (case sized_input of
                       None \<Rightarrow> (context_window_tokens (limits contract), [INPUT_SIZE_UNAVAILABLE])
                     | Some n \<Rightarrow> (n, []));
                   attempts = run_max_attempts (variant_execution_budget v);
                   per_attempt = token_cost (input_tokens + reserved) ip reserved op
               in Inr (finish gaps' True (Some (dec_mul per_attempt (of_int attempts))) None))
         | _ \<Rightarrow> Inr (finish gaps True None None)))"

section \<open>Catalog order and latest snapshots\<close>

lemma canonical_entries_set: "set (canonical_entries c) \<subseteq> set (catalog_entries c)"
  using dedup_by_subset [of entry_identity "[]" "sort_key entry_identity (catalog_entries c)"]
  by (simp add: canonical_entries_def)

lemma canonical_entries_distinct: "distinct (map entry_identity (canonical_entries c))"
  by (simp add: canonical_entries_def dedup_by_distinct)

lemma canonical_entries_identities:
  "entry_identity ` set (canonical_entries c) = entry_identity ` set (catalog_entries c)"
  by (simp add: canonical_entries_def dedup_by_keys)

lemma canonical_entries_sorted: "sorted (map entry_identity (canonical_entries c))"
  unfolding canonical_entries_def by (rule dedup_by_subseq_sorted) simp

lemma max_by_mem: "max_by key b xs \<in> set (b # xs)"
proof (induction xs arbitrary: b)
  case (Cons x xs)
  then show ?case using Cons.IH [of "if key b < key x then x else b"] by (auto split: if_splits)
qed simp

lemma max_by_max: "x \<in> set (b # xs) \<Longrightarrow> key x \<le> key (max_by key b xs)"
proof (induction xs arbitrary: b x)
  case (Cons y ys)
  let ?b = "if key b < key y then y else b"
  have "key b \<le> key ?b" "key y \<le> key ?b" by auto
  moreover have "key ?b \<le> key (max_by key ?b ys)" using Cons.IH [of ?b ?b] by simp
  moreover have "x \<in> set ys \<Longrightarrow> key x \<le> key (max_by key ?b ys)" using Cons.IH [of x ?b] by simp
  ultimately show ?case using Cons.prems by (auto intro: order_trans)
qed simp

lemma latest_some:
  assumes "latest subject key xs i = Some x"
  shows "x \<in> set xs" and "subject x = i" and "\<And>y. y \<in> set xs \<Longrightarrow> subject y = i \<Longrightarrow> key y \<le> key x"
proof -
  obtain z zs where zs: "filter (\<lambda>s. subject s = i) xs = z # zs" and x: "x = max_by key z zs"
    using assms by (auto simp: latest_def split: list.splits)
  have "x \<in> set (filter (\<lambda>s. subject s = i) xs)" using max_by_mem [of key z zs] x zs by simp
  then show "x \<in> set xs" and "subject x = i" by simp_all
  show "key y \<le> key x" if "y \<in> set xs" and "subject y = i" for y
  proof -
    have "y \<in> set (z # zs)" using that zs [symmetric] by simp
    then show ?thesis unfolding x by (rule max_by_max)
  qed
qed

lemma latest_none: "latest subject key xs i = None \<longleftrightarrow> (\<forall>x \<in> set xs. subject x \<noteq> i)"
proof -
  have "latest subject key xs i = None \<longleftrightarrow> filter (\<lambda>s. subject s = i) xs = []"
    by (simp add: latest_def split: list.splits)
  then show ?thesis by (simp add: filter_empty_conv)
qed

text \<open>A sealed snapshot that is valid was not altered after sealing, and is in force.\<close>

lemma evaluate_pricing_valid:
  "evaluate_pricing_snapshot d p v as_of = Inr VALID \<Longrightarrow>
     pr_integrity_digest p = Some (pricing_integrity d p) \<and> pr_effective_at p \<le> as_of
     \<and> as_of \<le> pr_valid_until p \<and> (pr_variant_id p, pr_variant_version p) = variant_identity v"
  by (auto simp: evaluate_pricing_snapshot_def evaluate_snapshot_def bindE_eq_Inr split: if_splits)

lemma with_integrity_verifies:
  "verify_declared_integrity (pr_integrity_digest (with_integrity d p))
     (pricing_integrity d (with_integrity d p)) (with_integrity d p) = Inr (with_integrity d p)"
  by (simp add: with_integrity_def pricing_integrity_def verify_declared_integrity_def)

text \<open>No price evidence, no figure: any gap in the price evidence suppresses both bounds.\<close>

lemma estimate_no_figure_on_gap:
  assumes "estimate_run_cost d policy v e as_of sized usage = Inr est"
    and "upper_bound est \<noteq> None"
  shows "\<exists>p. latest_pricing e v = Some p \<and> evaluate_pricing_snapshot d p v as_of = Inr VALID
     \<and> pr_currency p = rc_currency policy \<and> output_price_per_mtok p \<noteq> None
     \<and> set (evidence_gaps est) \<subseteq> {INPUT_SIZE_UNAVAILABLE}"
proof (cases "latest_pricing e v")
  case None
  then show ?thesis using assms
    by (auto simp: estimate_run_cost_def pricing_readings_def)
next
  case (Some p)
  obtain st where st: "evaluate_pricing_snapshot d p v as_of = Inr st"
    using assms(1) Some
    by (cases "evaluate_pricing_snapshot d p v as_of")
      (simp_all add: estimate_run_cost_def pricing_readings_def Let_def)
  show ?thesis
    using assms Some st
    by (cases st; cases "output_price_per_mtok p"; cases "pr_currency p = rc_currency policy")
      (auto simp: estimate_run_cost_def pricing_readings_def bindE_eq_Inr Let_def
        split: if_splits option.splits prod.splits)
qed

text \<open>A run cost estimate states a figure only on a valid price snapshot in the policy's
  currency with both prices; every gap in the price evidence suppresses it.\<close>

lemma cost_figure_needs_price:
  assumes "estimate_run_cost d policy v e as_of sized usage = Inr est" and "upper_bound est \<noteq> None"
  shows "\<exists>p. latest_pricing e v = Some p \<and> evaluate_pricing_snapshot d p v as_of = Inr VALID
     \<and> pr_integrity_digest p = Some (pricing_integrity d p) \<and> pr_effective_at p \<le> as_of \<and> as_of \<le> pr_valid_until p
     \<and> pr_currency p = rc_currency policy \<and> output_price_per_mtok p \<noteq> None
     \<and> set (evidence_gaps est) \<subseteq> {INPUT_SIZE_UNAVAILABLE}"
  using estimate_no_figure_on_gap [OF assms] evaluate_pricing_valid by blast

end
