(* ===== verification/Router.thy ===== *)
theory Router
  imports Routing_Data
begin

text \<open>
  The deterministic model router, \<open>src/src/m_agent/companion/routing/_router.py\<close>: the
  whole of \<open>ModelRouter.select\<close> with its filter stages, hard gates, readings, ordering,
  warnings and references, and the binding of a decision to a Run. The dictionaries and
  lists that the code mutates in place (references, evaluations, warnings) are threaded.
  Reason and warning codes are constructors named after the constants of the module.
\<close>

section \<open>Outcomes and traces\<close>

datatype routing_outcome =
    SELECTED | NO_COMPATIBLE_VARIANT | POLICY_UNSATISFIED | EVIDENCE_UNAVAILABLE
  | CATALOG_CONFLICT | INVALID_POLICY

datatype reason_code =
    REASON_SELECTED | REASON_NO_COMPATIBLE_VARIANT | REASON_POLICY_UNSATISFIED
  | REASON_MODEL_EVIDENCE_MISSING | REASON_MODEL_EVIDENCE_STALE
  | REASON_PRICING_SNAPSHOT_MISSING | REASON_PRICING_SNAPSHOT_STALE
  | REASON_PRICING_SNAPSHOT_NOT_EFFECTIVE
  | REASON_AVAILABILITY_SNAPSHOT_MISSING | REASON_AVAILABILITY_SNAPSHOT_STALE
  | REASON_RETENTION_EVIDENCE_MISSING | REASON_RETENTION_EVIDENCE_STALE
  | REASON_DUPLICATE_VARIANT_IDENTITY | REASON_CONTRACT_FINGERPRINT_CONFLICT
  | REASON_AMBIGUOUS_OBJECTIVES | REASON_EMPTY_CANDIDATE_SCOPE
  | REASON_NOT_REGISTERED_FOR_POLICY | REASON_NOT_IN_CANDIDATE_SCOPE
  | REASON_PROVIDER_UNKNOWN | REASON_PROVIDER_NOT_ALLOWED
  | REASON_REGION_UNKNOWN | REASON_REGION_NOT_ALLOWED
  | REASON_ENDPOINT_CLASS_UNKNOWN | REASON_ENDPOINT_CLASS_NOT_ALLOWED
  | REASON_RETENTION_EVIDENCE_UNKNOWN | REASON_RETENTION_EVIDENCE_VERSION_NOT_ALLOWED
  | REASON_RETENTION_EVIDENCE_VERSION_MISMATCH
  | REASON_HARD_PRICE_GATE_FAILED | REASON_HARD_QUALITY_GATE_FAILED
  | REASON_HARD_STABILITY_GATE_FAILED | REASON_HARD_AVAILABILITY_GATE_FAILED
  | REASON_HARD_OPERATIONAL_LIMIT_GATE_FAILED | REASON_HARD_COST_GATE_FAILED
  | REASON_OUTRANKED
  | REASON_PRICING_SNAPSHOT_FINGERPRINT_DRIFT | REASON_PRICING_SNAPSHOT_INTEGRITY_FAILURE
  | REASON_AVAILABILITY_SNAPSHOT_FINGERPRINT_DRIFT
  | REASON_AVAILABILITY_SNAPSHOT_INTEGRITY_FAILURE
  | REASON_OPERATIONAL_LIMITS_SNAPSHOT_MISSING | REASON_OPERATIONAL_LIMITS_SNAPSHOT_STALE
  | REASON_OPERATIONAL_LIMITS_SNAPSHOT_FINGERPRINT_DRIFT
  | REASON_OPERATIONAL_LIMITS_SNAPSHOT_INTEGRITY_FAILURE
  | REASON_OPERATIONAL_LIMITS_UNKNOWN | REASON_HARD_COST_EVIDENCE_INCOMPLETE
  | REASON_COST_CURRENCY_MISMATCH
  | Requirement requirement_reason

datatype warning_code =
    WARNING_SOFT_EVIDENCE_MISSING | WARNING_SOFT_EVIDENCE_STALE | WARNING_STALE_AVAILABILITY
  | WARNING_ENDPOINT_UNAVAILABLE | WARNING_AVAILABILITY_SNAPSHOT_MISSING
  | WARNING_AVAILABILITY_FINGERPRINT_DRIFT | WARNING_AVAILABILITY_INTEGRITY_FAILURE
  | WARNING_PRICING_FINGERPRINT_DRIFT | WARNING_PRICING_INTEGRITY_FAILURE
  | WARNING_STALE_OPERATIONAL_LIMITS | WARNING_OPERATIONAL_LIMITS_SNAPSHOT_MISSING

datatype evidence_kind =
    EVIDENCE_MODEL_EVIDENCE | EVIDENCE_PRICING | EVIDENCE_AVAILABILITY | EVIDENCE_RETENTION
  | EVIDENCE_OPERATIONAL_LIMITS

datatype evaluation_stage =
  POLICY_SCOPE | MODEL_REQUIREMENTS | DEPLOYMENT_CONSTRAINTS | HARD_GATES | ORDERING

record objective_value_record =
  ov_dimension :: objective_dimension
  ov_value :: "rat option"
  ov_missing :: bool

record candidate_evaluation =
  ce_variant_id :: ident
  ce_variant_version :: ident
  ce_stage :: evaluation_stage
  ce_passed :: bool
  ce_reason_code :: reason_code
  ce_rank :: "nat option"
  ce_objective_values :: "objective_value_record list"

record routing_warning =
  rw_code :: warning_code
  rw_variant_id :: ident
  rw_variant_version :: ident
  rw_dimension :: "objective_dimension option"

record evidence_reference =
  er_kind :: evidence_kind
  er_variant_id :: ident
  er_variant_version :: ident
  er_snapshot_version :: ident
  er_valid_until :: timestamp

record routing_decision =
  decision_id :: string
  rd_outcome :: routing_outcome
  selected_variant :: agent_variant
  selected_contract_fingerprint :: string
  rd_policy_identity :: routing_policy_identity
  rd_policy_digest :: string
  rd_catalog_id :: ident
  rd_catalog_version :: ident
  rd_catalog_digest :: string
  rd_evidence_digest :: string
  rd_evidence_references :: "evidence_reference list"
  rd_candidate_evaluations :: "candidate_evaluation list"
  tie_break_applied :: bool

record routing_result =
  rr_outcome :: routing_outcome
  rr_reason_code :: reason_code
  rr_decision :: "routing_decision option"
  rr_candidate_evaluations :: "candidate_evaluation list"
  rr_warnings :: "routing_warning list"

type_synonym references = "ident \<times> ident \<Rightarrow> evidence_reference list"

definition record_reference ::
  "references \<Rightarrow> agent_variant \<Rightarrow> evidence_kind \<Rightarrow> ident \<Rightarrow> timestamp \<Rightarrow> references" where
  "record_reference refs v kind version until =
     refs(variant_identity v := refs (variant_identity v) @
       [\<lparr>er_kind = kind, er_variant_id = variant_id v, er_variant_version = variant_version v,
         er_snapshot_version = version, er_valid_until = until\<rparr>])"

definition dedupe_references :: "evidence_reference list \<Rightarrow> evidence_reference list" where
  "dedupe_references refs =
     dedup_by (\<lambda>r. (er_kind r, er_variant_id r, er_snapshot_version r)) [] refs"

definition filtered :: "agent_variant \<Rightarrow> evaluation_stage \<Rightarrow> reason_code \<Rightarrow> candidate_evaluation" where
  "filtered v stage code =
     \<lparr>ce_variant_id = variant_id v, ce_variant_version = variant_version v, ce_stage = stage,
      ce_passed = False, ce_reason_code = code, ce_rank = None, ce_objective_values = []\<rparr>"

section \<open>Structure checks\<close>

definition EVIDENCE_ABORT_CODES :: "reason_code list" where
  "EVIDENCE_ABORT_CODES =
     [REASON_MODEL_EVIDENCE_MISSING, REASON_MODEL_EVIDENCE_STALE,
      REASON_PRICING_SNAPSHOT_MISSING, REASON_PRICING_SNAPSHOT_STALE,
      REASON_PRICING_SNAPSHOT_NOT_EFFECTIVE,
      REASON_AVAILABILITY_SNAPSHOT_MISSING, REASON_AVAILABILITY_SNAPSHOT_STALE,
      REASON_RETENTION_EVIDENCE_MISSING, REASON_RETENTION_EVIDENCE_STALE,
      REASON_PRICING_SNAPSHOT_FINGERPRINT_DRIFT, REASON_PRICING_SNAPSHOT_INTEGRITY_FAILURE,
      REASON_AVAILABILITY_SNAPSHOT_FINGERPRINT_DRIFT,
      REASON_AVAILABILITY_SNAPSHOT_INTEGRITY_FAILURE,
      REASON_OPERATIONAL_LIMITS_SNAPSHOT_MISSING, REASON_OPERATIONAL_LIMITS_SNAPSHOT_STALE,
      REASON_OPERATIONAL_LIMITS_SNAPSHOT_FINGERPRINT_DRIFT,
      REASON_OPERATIONAL_LIMITS_SNAPSHOT_INTEGRITY_FAILURE,
      REASON_OPERATIONAL_LIMITS_UNKNOWN, REASON_HARD_COST_EVIDENCE_INCOMPLETE,
      REASON_COST_CURRENCY_MISMATCH]"

definition policy_structure_error :: "routing_policy \<Rightarrow> reason_code option" where
  "policy_structure_error p =
     (if \<not> distinct (map dimension (rpol_objectives p)) then Some REASON_AMBIGUOUS_OBJECTIVES
      else if rpol_allowed_variants p = Some [] then Some REASON_EMPTY_CANDIDATE_SCOPE
      else None)"

text \<open>A dict filled in a loop that stops when a key gets two different values.\<close>

fun conflicting :: "('k \<Rightarrow> 'v option) \<Rightarrow> ('k \<times> 'v) list \<Rightarrow> bool" where
  "conflicting seen [] = False"
| "conflicting seen ((k, v) # kvs) =
     (if seen k \<noteq> None \<and> seen k \<noteq> Some v then True else conflicting (seen(k \<mapsto> v)) kvs)"

fun fingerprint_conflict ::
  "(ident \<times> ident \<Rightarrow> string option) \<Rightarrow> model_contract list \<Rightarrow> bool" where
  "fingerprint_conflict seen [] = False"
| "fingerprint_conflict seen (c # cs) =
     (case fingerprint c of
        None \<Rightarrow> True
      | Some f \<Rightarrow>
          let key = (contract_id c, contract_version c) in
          if seen key \<noteq> None \<and> seen key \<noteq> Some f then True
          else fingerprint_conflict (seen(key \<mapsto> f)) cs)"

definition catalog_conflict :: "routing_digests \<Rightarrow> model_catalog \<Rightarrow> reason_code option" where
  "catalog_conflict d c =
     (if conflicting Map.empty
           (map (\<lambda>e. (entry_identity e, dg_variant d (entry_variant e))) (catalog_entries c))
        then Some REASON_DUPLICATE_VARIANT_IDENTITY
      else if fingerprint_conflict Map.empty
           (concat (map (\<lambda>e. map binding_contract (variant_bindings (entry_variant e)))
                        (catalog_entries c)))
        then Some REASON_CONTRACT_FINGERPRINT_CONFLICT
      else None)"

section \<open>Compatibility\<close>

definition scope_failure :: "routing_policy \<Rightarrow> agent_variant \<Rightarrow> reason_code option" where
  "scope_failure p v =
     (if rpol_identity p \<notin> set (policy_identities v) then Some REASON_NOT_REGISTERED_FOR_POLICY
      else if (\<exists>allowed \<in> set_option (rpol_allowed_variants p). variant_identity v \<notin> set allowed)
        then Some REASON_NOT_IN_CANDIDATE_SCOPE
      else None)"

fun bindings_failure :: "model_binding_set \<Rightarrow> model_purpose list \<Rightarrow> exn + reason_code option" where
  "bindings_failure bs [] = Inr None"
| "bindings_failure bs (p # ps) =
     bindE (for_purpose bs p) (\<lambda>b.
     bindE (match_requirements (binding_requirements b) (binding_contract b)) (\<lambda>m.
       if \<not> compatible m then Inr (Some (Requirement (match_reason m)))
       else bindings_failure bs ps))"

definition requirements_failure :: "routing_policy \<Rightarrow> agent_variant \<Rightarrow> exn + reason_code option" where
  "requirements_failure p v =
     bindE (primary_contract v) (\<lambda>c.
     bindE (match_requirements (rpol_model_requirements p) c) (\<lambda>m.
       Inr (if compatible m then None else Some (Requirement (match_reason m)))))"

fun attribute_failure ::
  "(ident option \<times> ident list option \<times> reason_code \<times> reason_code) list \<Rightarrow> reason_code option" where
  "attribute_failure [] = None"
| "attribute_failure ((value, allowed, unknown_code, not_allowed_code) # rest) =
     (case allowed of
        None \<Rightarrow> attribute_failure rest
      | Some ok \<Rightarrow>
          (case value of
             None \<Rightarrow> Some unknown_code
           | Some v \<Rightarrow> if v \<notin> set ok then Some not_allowed_code else attribute_failure rest))"

definition deployment_failure :: "routing_policy \<Rightarrow> deployment_attributes \<Rightarrow> reason_code option" where
  "deployment_failure p a =
     (let c = rpol_deployment p in attribute_failure
        [(provider a, allowed_providers c, REASON_PROVIDER_UNKNOWN, REASON_PROVIDER_NOT_ALLOWED),
         (region a, allowed_regions c, REASON_REGION_UNKNOWN, REASON_REGION_NOT_ALLOWED),
         (endpoint_class a, allowed_endpoint_classes c, REASON_ENDPOINT_CLASS_UNKNOWN,
            REASON_ENDPOINT_CLASS_NOT_ALLOWED)])"

definition retention_failure ::
  "routing_policy \<Rightarrow> catalog_entry \<Rightarrow> routing_evidence \<Rightarrow> timestamp \<Rightarrow> references
     \<Rightarrow> reason_code option \<times> references" where
  "retention_failure p e evidence as_of refs =
     (let v = entry_variant e; a = entry_deployment e in
      case allowed_retention_evidence_versions (rpol_deployment p) of
        None \<Rightarrow> (None, refs)
      | Some allowed \<Rightarrow>
     (case retention_evidence_version a of
        None \<Rightarrow> (Some REASON_RETENTION_EVIDENCE_UNKNOWN, refs)
      | Some declared \<Rightarrow>
     (case latest_retention evidence v of
        None \<Rightarrow> (Some REASON_RETENTION_EVIDENCE_MISSING, refs)
      | Some r \<Rightarrow>
          if re_valid_until r < as_of then (Some REASON_RETENTION_EVIDENCE_STALE, refs)
          else let refs' = record_reference refs v EVIDENCE_RETENTION (re_version r) (re_valid_until r) in
            if declared \<notin> set allowed then (Some REASON_RETENTION_EVIDENCE_VERSION_NOT_ALLOWED, refs')
            else if verified_retention_evidence_version r \<noteq> declared
              then (Some REASON_RETENTION_EVIDENCE_VERSION_MISMATCH, refs')
            else (None, refs'))))"

definition compatibility_failure ::
  "catalog_entry \<Rightarrow> routing_policy \<Rightarrow> routing_evidence \<Rightarrow> timestamp \<Rightarrow> references
     \<Rightarrow> candidate_evaluation list
     \<Rightarrow> exn + (reason_code option \<times> references \<times> candidate_evaluation list)" where
  "compatibility_failure e p evidence as_of refs evals =
     (let v = entry_variant e;
          fail = (\<lambda>stage code refs'. Inr (Some code, refs', evals @ [filtered v stage code])) in
      case scope_failure p v of
        Some code \<Rightarrow> fail POLICY_SCOPE code refs
      | None \<Rightarrow>
     bindE (bindings_failure (variant_bindings v) MODEL_PURPOSES) (\<lambda>b.
     case b of
        Some code \<Rightarrow> fail MODEL_REQUIREMENTS code refs
      | None \<Rightarrow>
     bindE (requirements_failure p v) (\<lambda>r.
     case r of
        Some code \<Rightarrow> fail MODEL_REQUIREMENTS code refs
      | None \<Rightarrow>
     (case deployment_failure p (entry_deployment e) of
        Some code \<Rightarrow> fail DEPLOYMENT_CONSTRAINTS code refs
      | None \<Rightarrow>
     (case retention_failure p e evidence as_of refs of
        (Some code, refs') \<Rightarrow> fail DEPLOYMENT_CONSTRAINTS code refs'
      | (None, refs') \<Rightarrow> Inr (None, refs', evals))))))"

section \<open>Hard gates\<close>

text \<open>A gate returns \<open>(failure, abort)\<close>, at most one of them set, and the references.\<close>

type_synonym gate_result = "(reason_code option \<times> reason_code option) \<times> references"

definition then_gate ::
  "exn + gate_result \<Rightarrow> (references \<Rightarrow> exn + gate_result) \<Rightarrow> exn + gate_result" where
  "then_gate r next_gate =
     bindE r (\<lambda>(verdict, refs).
       if verdict \<noteq> (None, None) then Inr (verdict, refs) else next_gate refs)"

definition price_gate ::
  "routing_digests \<Rightarrow> agent_variant \<Rightarrow> hard_routing_gates \<Rightarrow> routing_evidence \<Rightarrow> timestamp
     \<Rightarrow> references \<Rightarrow> exn + gate_result" where
  "price_gate d v gates evidence as_of refs =
     (case max_input_price_per_mtok gates of
        None \<Rightarrow> Inr ((None, None), refs)
      | Some cap \<Rightarrow>
     (case latest_pricing evidence v of
        None \<Rightarrow> Inr ((None, Some REASON_PRICING_SNAPSHOT_MISSING), refs)
      | Some pr \<Rightarrow>
          bindE (evaluate_pricing_snapshot d pr v as_of) (\<lambda>status. Inr (
            case status of
              STALE \<Rightarrow> ((None, Some REASON_PRICING_SNAPSHOT_STALE), refs)
            | NOT_EFFECTIVE \<Rightarrow> ((None, Some REASON_PRICING_SNAPSHOT_NOT_EFFECTIVE), refs)
            | SUBJECT_MISMATCH \<Rightarrow> ((None, Some REASON_PRICING_SNAPSHOT_MISSING), refs)
            | FINGERPRINT_DRIFT \<Rightarrow> ((None, Some REASON_PRICING_SNAPSHOT_FINGERPRINT_DRIFT), refs)
            | INTEGRITY_FAILURE \<Rightarrow> ((None, Some REASON_PRICING_SNAPSHOT_INTEGRITY_FAILURE), refs)
            | VALID \<Rightarrow>
                (if cap < input_price_per_mtok pr then (Some REASON_HARD_PRICE_GATE_FAILED, None)
                 else (None, None),
                 record_reference refs v EVIDENCE_PRICING (pr_version pr) (pr_valid_until pr))))))"

definition score_gate ::
  "agent_variant \<Rightarrow> hard_routing_gates \<Rightarrow> routing_evidence \<Rightarrow> timestamp \<Rightarrow> references
     \<Rightarrow> gate_result" where
  "score_gate v gates evidence as_of refs =
     (if min_quality_score gates = None \<and> min_stability_score gates = None
        then ((None, None), refs)
      else case latest_model_evidence evidence v of
        None \<Rightarrow> ((None, Some REASON_MODEL_EVIDENCE_MISSING), refs)
      | Some m \<Rightarrow>
          if me_valid_until m < as_of then ((None, Some REASON_MODEL_EVIDENCE_STALE), refs)
          else
            (if (\<exists>q \<in> set_option (min_quality_score gates). quality_score m < q)
               then (Some REASON_HARD_QUALITY_GATE_FAILED, None)
             else if (\<exists>q \<in> set_option (min_stability_score gates). stability_score m < q)
               then (Some REASON_HARD_STABILITY_GATE_FAILED, None)
             else (None, None),
             record_reference refs v EVIDENCE_MODEL_EVIDENCE (me_version m) (me_valid_until m)))"

definition availability_gate ::
  "routing_digests \<Rightarrow> agent_variant \<Rightarrow> hard_routing_gates \<Rightarrow> routing_evidence \<Rightarrow> timestamp
     \<Rightarrow> references \<Rightarrow> exn + gate_result" where
  "availability_gate d v gates evidence as_of refs =
     (if \<not> require_availability gates then Inr ((None, None), refs)
      else case latest_availability evidence v of
        None \<Rightarrow> Inr ((None, Some REASON_AVAILABILITY_SNAPSHOT_MISSING), refs)
      | Some a \<Rightarrow>
          bindE (evaluate_availability_snapshot d a v as_of) (\<lambda>status. Inr (
            case status of
              STALE \<Rightarrow> ((None, Some REASON_AVAILABILITY_SNAPSHOT_STALE), refs)
            | SUBJECT_MISMATCH \<Rightarrow> ((None, Some REASON_AVAILABILITY_SNAPSHOT_MISSING), refs)
            | NOT_EFFECTIVE \<Rightarrow> ((None, Some REASON_AVAILABILITY_SNAPSHOT_MISSING), refs)
            | FINGERPRINT_DRIFT \<Rightarrow> ((None, Some REASON_AVAILABILITY_SNAPSHOT_FINGERPRINT_DRIFT), refs)
            | INTEGRITY_FAILURE \<Rightarrow> ((None, Some REASON_AVAILABILITY_SNAPSHOT_INTEGRITY_FAILURE), refs)
            | VALID \<Rightarrow>
                (if \<not> available a then (Some REASON_HARD_AVAILABILITY_GATE_FAILED, None)
                 else (None, None),
                 record_reference refs v EVIDENCE_AVAILABILITY (av_version a) (av_valid_until a)))))"

text \<open>The loop over \<open>(minimum, observed)\<close> pairs; integers are compared as rationals.\<close>

fun limits_verdict ::
  "(rat option \<times> rat option) list \<Rightarrow> reason_code option \<times> reason_code option" where
  "limits_verdict [] = (None, None)"
| "limits_verdict ((minimum, observed) # rest) =
     (case minimum of
        None \<Rightarrow> limits_verdict rest
      | Some m \<Rightarrow>
          (case observed of
             None \<Rightarrow> (None, Some REASON_OPERATIONAL_LIMITS_UNKNOWN)
           | Some x \<Rightarrow> if x < m then (Some REASON_HARD_OPERATIONAL_LIMIT_GATE_FAILED, None)
                       else limits_verdict rest))"

definition limit_pairs ::
  "operational_limits_gate \<Rightarrow> operational_limits_snapshot \<Rightarrow> (rat option \<times> rat option) list" where
  "limit_pairs g s =
     [(map_option of_int (min_available_rpm g), map_option of_int (available_rpm s)),
      (map_option of_int (min_available_tpm g), map_option of_int (available_tpm s)),
      (map_option of_int (min_available_concurrency g), map_option of_int (available_concurrency s)),
      (min_remaining_period_quota g, remaining_period_quota s)]"

definition operational_limits_gate_failure ::
  "routing_digests \<Rightarrow> agent_variant \<Rightarrow> operational_limits_gate \<Rightarrow> routing_evidence \<Rightarrow> timestamp
     \<Rightarrow> references \<Rightarrow> exn + gate_result" where
  "operational_limits_gate_failure d v gate evidence as_of refs =
     (case latest_operational_limits evidence v of
        None \<Rightarrow> Inr ((None, Some REASON_OPERATIONAL_LIMITS_SNAPSHOT_MISSING), refs)
      | Some s \<Rightarrow>
          bindE (evaluate_operational_limits_snapshot d s v as_of) (\<lambda>status. Inr (
            case status of
              STALE \<Rightarrow> ((None, Some REASON_OPERATIONAL_LIMITS_SNAPSHOT_STALE), refs)
            | SUBJECT_MISMATCH \<Rightarrow> ((None, Some REASON_OPERATIONAL_LIMITS_SNAPSHOT_MISSING), refs)
            | NOT_EFFECTIVE \<Rightarrow> ((None, Some REASON_OPERATIONAL_LIMITS_SNAPSHOT_MISSING), refs)
            | FINGERPRINT_DRIFT \<Rightarrow>
                ((None, Some REASON_OPERATIONAL_LIMITS_SNAPSHOT_FINGERPRINT_DRIFT), refs)
            | INTEGRITY_FAILURE \<Rightarrow>
                ((None, Some REASON_OPERATIONAL_LIMITS_SNAPSHOT_INTEGRITY_FAILURE), refs)
            | VALID \<Rightarrow>
                (limits_verdict (limit_pairs gate s),
                 record_reference refs v EVIDENCE_OPERATIONAL_LIMITS (ol_version s)
                   (ol_valid_until s)))))"

definition gap_abort_code :: "cost_gap list \<Rightarrow> reason_code" where
  "gap_abort_code gaps =
     (if CURRENCY_MISMATCH \<in> set gaps then REASON_COST_CURRENCY_MISMATCH
      else if OUTPUT_PRICE_MISSING \<in> set gaps then REASON_HARD_COST_EVIDENCE_INCOMPLETE
      else if PRICING_FINGERPRINT_DRIFT \<in> set gaps then REASON_PRICING_SNAPSHOT_FINGERPRINT_DRIFT
      else if PRICING_INTEGRITY_FAILURE \<in> set gaps then REASON_PRICING_SNAPSHOT_INTEGRITY_FAILURE
      else if PRICING_STALE \<in> set gaps then REASON_PRICING_SNAPSHOT_STALE
      else if PRICING_MISSING \<in> set gaps then REASON_PRICING_SNAPSHOT_MISSING
      else REASON_HARD_COST_EVIDENCE_INCOMPLETE)"

definition worst_case_cost_gate_failure ::
  "routing_digests \<Rightarrow> agent_variant \<Rightarrow> worst_case_cost_cap \<Rightarrow> routing_evidence \<Rightarrow> timestamp
     \<Rightarrow> references \<Rightarrow> exn + gate_result" where
  "worst_case_cost_gate_failure d v cap evidence as_of refs =
     bindE (validate_cost_policy
        \<lparr>rc_policy_id = ''worst-case-cost-cap'', rc_version = ''1'', rc_currency = cap_currency cap,
         rc_formula = WORST_CASE_TOKEN_BUDGET, rc_usage_provenance = RUNTIME_SIZED\<rparr>) (\<lambda>policy.
     bindE (estimate_run_cost d policy v evidence as_of None None) (\<lambda>est. Inr (
       case upper_bound est of
         None \<Rightarrow> ((None, Some (gap_abort_code (evidence_gaps est))), refs)
       | Some bound \<Rightarrow>
           if max_run_cost cap < bound then ((Some REASON_HARD_COST_GATE_FAILED, None), refs)
           else ((None, None),
                 case latest_pricing evidence v of
                   None \<Rightarrow> refs
                 | Some pr \<Rightarrow>
                     record_reference refs v EVIDENCE_PRICING (pr_version pr) (pr_valid_until pr)))))"

definition hard_gate_failure ::
  "routing_digests \<Rightarrow> agent_variant \<Rightarrow> routing_policy \<Rightarrow> routing_evidence \<Rightarrow> timestamp
     \<Rightarrow> references \<Rightarrow> exn + gate_result" where
  "hard_gate_failure d v p evidence as_of refs =
     (let gates = rpol_hard_gates p in
      then_gate (then_gate (then_gate (then_gate
        (price_gate d v gates evidence as_of refs)
        (\<lambda>refs. Inr (score_gate v gates evidence as_of refs)))
        (availability_gate d v gates evidence as_of))
        (\<lambda>refs. case gate_operational_limits gates of
           None \<Rightarrow> Inr ((None, None), refs)
         | Some g \<Rightarrow> operational_limits_gate_failure d v g evidence as_of refs))
        (\<lambda>refs. case gate_worst_case_cost_cap gates of
           None \<Rightarrow> Inr ((None, None), refs)
         | Some cap \<Rightarrow> worst_case_cost_gate_failure d v cap evidence as_of refs))"

section \<open>Readings, warnings and ordering\<close>

definition add_warning ::
  "agent_variant \<Rightarrow> warning_code \<Rightarrow> objective_dimension option \<Rightarrow> routing_warning list
     \<Rightarrow> routing_warning list" where
  "add_warning v code dm ws =
     (let w = \<lparr>rw_code = code, rw_variant_id = variant_id v, rw_variant_version = variant_version v,
               rw_dimension = dm\<rparr>
      in if w \<in> set ws then ws else ws @ [w])"

type_synonym reading_state = "references \<times> routing_warning list"

definition objective_value ::
  "routing_digests \<Rightarrow> agent_variant \<Rightarrow> objective_dimension \<Rightarrow> routing_evidence \<Rightarrow> timestamp
     \<Rightarrow> reading_state \<Rightarrow> exn + (rat option \<times> reading_state)" where
  "objective_value d v dm evidence as_of st =
     (let (refs, ws) = st;
          missing = (\<lambda>code. (None, refs, add_warning v code (Some dm) ws)) in
      if dm = COST then
        (case latest_pricing evidence v of
           None \<Rightarrow> Inr (missing WARNING_SOFT_EVIDENCE_MISSING)
         | Some pr \<Rightarrow>
             bindE (evaluate_pricing_snapshot d pr v as_of) (\<lambda>status. Inr (
               case status of
                 STALE \<Rightarrow> missing WARNING_SOFT_EVIDENCE_STALE
               | FINGERPRINT_DRIFT \<Rightarrow> missing WARNING_PRICING_FINGERPRINT_DRIFT
               | INTEGRITY_FAILURE \<Rightarrow> missing WARNING_PRICING_INTEGRITY_FAILURE
               | VALID \<Rightarrow> (Some (input_price_per_mtok pr),
                   record_reference refs v EVIDENCE_PRICING (pr_version pr) (pr_valid_until pr), ws)
               | _ \<Rightarrow> missing WARNING_SOFT_EVIDENCE_MISSING)))
      else
        Inr (case latest_model_evidence evidence v of
           None \<Rightarrow> missing WARNING_SOFT_EVIDENCE_MISSING
         | Some m \<Rightarrow>
             if me_valid_until m < as_of then missing WARNING_SOFT_EVIDENCE_STALE
             else
               let refs' = record_reference refs v EVIDENCE_MODEL_EVIDENCE (me_version m) (me_valid_until m) in
               case dm of
                 QUALITY \<Rightarrow> (Some (quality_score m), refs', ws)
               | STABILITY \<Rightarrow> (Some (stability_score m), refs', ws)
               | _ \<Rightarrow>
                   (case latency_ms_p50 m of
                      None \<Rightarrow> (None, refs', add_warning v WARNING_SOFT_EVIDENCE_MISSING (Some dm) ws)
                    | Some l \<Rightarrow> (Some l, refs', ws))))"

type_synonym reading = "(objective_dimension \<times> rat option) list"

fun variant_readings ::
  "routing_digests \<Rightarrow> agent_variant \<Rightarrow> routing_evidence \<Rightarrow> timestamp \<Rightarrow> routing_objective list
     \<Rightarrow> reading_state \<Rightarrow> exn + (reading \<times> reading_state)" where
  "variant_readings d v evidence as_of [] st = Inr ([], st)"
| "variant_readings d v evidence as_of (ob # obs) st =
     bindE (objective_value d v (dimension ob) evidence as_of st) (\<lambda>(value, st').
     bindE (variant_readings d v evidence as_of obs st') (\<lambda>(rest, st'').
       Inr ((dimension ob, value) # rest, st'')))"

fun all_readings ::
  "routing_digests \<Rightarrow> routing_policy \<Rightarrow> routing_evidence \<Rightarrow> timestamp \<Rightarrow> catalog_entry list
     \<Rightarrow> reading_state \<Rightarrow> exn + (((ident \<times> ident) \<times> reading) list \<times> reading_state)" where
  "all_readings d p evidence as_of [] st = Inr ([], st)"
| "all_readings d p evidence as_of (e # es) st =
     bindE (variant_readings d (entry_variant e) evidence as_of (rpol_objectives p) st) (\<lambda>(r, st').
     bindE (all_readings d p evidence as_of es st') (\<lambda>(rest, st'').
       Inr ((entry_identity e, r) # rest, st'')))"

definition soft_availability ::
  "routing_digests \<Rightarrow> agent_variant \<Rightarrow> routing_evidence \<Rightarrow> timestamp \<Rightarrow> reading_state
     \<Rightarrow> exn + reading_state" where
  "soft_availability d v evidence as_of st =
     (let (refs, ws) = st; warn = (\<lambda>code. (refs, add_warning v code None ws)) in
      case latest_availability evidence v of
        None \<Rightarrow> Inr (warn WARNING_AVAILABILITY_SNAPSHOT_MISSING)
      | Some a \<Rightarrow>
          bindE (evaluate_availability_snapshot d a v as_of) (\<lambda>status. Inr (
            case status of
              STALE \<Rightarrow> warn WARNING_STALE_AVAILABILITY
            | FINGERPRINT_DRIFT \<Rightarrow> warn WARNING_AVAILABILITY_FINGERPRINT_DRIFT
            | INTEGRITY_FAILURE \<Rightarrow> warn WARNING_AVAILABILITY_INTEGRITY_FAILURE
            | VALID \<Rightarrow>
                if \<not> available a then warn WARNING_ENDPOINT_UNAVAILABLE
                else (record_reference refs v EVIDENCE_AVAILABILITY (av_version a) (av_valid_until a), ws)
            | _ \<Rightarrow> warn WARNING_AVAILABILITY_SNAPSHOT_MISSING)))"

definition soft_operational_limits ::
  "routing_digests \<Rightarrow> agent_variant \<Rightarrow> routing_evidence \<Rightarrow> timestamp \<Rightarrow> reading_state
     \<Rightarrow> exn + reading_state" where
  "soft_operational_limits d v evidence as_of st =
     (let (refs, ws) = st; warn = (\<lambda>code. (refs, add_warning v code None ws)) in
      case latest_operational_limits evidence v of
        None \<Rightarrow> Inr (warn WARNING_OPERATIONAL_LIMITS_SNAPSHOT_MISSING)
      | Some s \<Rightarrow>
          bindE (evaluate_operational_limits_snapshot d s v as_of) (\<lambda>status. Inr (
            case status of
              STALE \<Rightarrow> warn WARNING_STALE_OPERATIONAL_LIMITS
            | VALID \<Rightarrow> (record_reference refs v EVIDENCE_OPERATIONAL_LIMITS (ol_version s)
                (ol_valid_until s), ws)
            | _ \<Rightarrow> warn WARNING_OPERATIONAL_LIMITS_SNAPSHOT_MISSING)))"

fun emit_soft_preference_warnings ::
  "routing_digests \<Rightarrow> routing_policy \<Rightarrow> catalog_entry list \<Rightarrow> routing_evidence \<Rightarrow> timestamp
     \<Rightarrow> reading_state \<Rightarrow> exn + reading_state" where
  "emit_soft_preference_warnings d p [] evidence as_of st = Inr st"
| "emit_soft_preference_warnings d p (e # es) evidence as_of st =
     (let v = entry_variant e; prefs = rpol_soft_preferences p in
      bindE (if track_availability prefs then soft_availability d v evidence as_of st
             else Inr st) (\<lambda>st'.
      bindE (if track_operational_limits prefs then soft_operational_limits d v evidence as_of st'
             else Inr st') (\<lambda>st''.
        emit_soft_preference_warnings d p es evidence as_of st'')))"

definition compare_objective :: "rat option \<Rightarrow> rat option \<Rightarrow> routing_objective \<Rightarrow> int" where
  "compare_objective left right ob =
     (case (left, right) of
        (None, None) \<Rightarrow> 0
      | (None, Some _) \<Rightarrow> if missing_value ob = ORDER_LAST then 1 else -1
      | (Some _, None) \<Rightarrow> if missing_value ob = ORDER_LAST then -1 else 1
      | (Some l, Some r) \<Rightarrow>
          if l = r then 0
          else if direction ob = MINIMIZE then (if l < r then -1 else 1)
          else (if l < r then 1 else -1))"

definition reading_get :: "reading \<Rightarrow> objective_dimension \<Rightarrow> rat option" where
  "reading_get r dm = (case map_of r dm of None \<Rightarrow> None | Some v \<Rightarrow> v)"

fun compare_objectives :: "routing_objective list \<Rightarrow> reading \<Rightarrow> reading \<Rightarrow> int" where
  "compare_objectives [] l r = 0"
| "compare_objectives (ob # obs) l r =
     (let c = compare_objective (reading_get l (dimension ob)) (reading_get r (dimension ob)) ob
      in if c \<noteq> 0 then c else compare_objectives obs l r)"

definition readings_of :: "((ident \<times> ident) \<times> reading) list \<Rightarrow> ident \<times> ident \<Rightarrow> reading" where
  "readings_of rs i = (case map_of rs i of None \<Rightarrow> [] | Some r \<Rightarrow> r)"

definition compare_identity :: "ident \<times> ident \<Rightarrow> ident \<times> ident \<Rightarrow> int" where
  "compare_identity a b = (if a < b then -1 else if b < a then 1 else 0)"

definition ordering_comparator ::
  "routing_objective list \<Rightarrow> ((ident \<times> ident) \<times> reading) list \<Rightarrow> catalog_entry \<Rightarrow> catalog_entry \<Rightarrow> int" where
  "ordering_comparator obs rs l r =
     (let c = compare_objectives obs (readings_of rs (entry_identity l)) (readings_of rs (entry_identity r))
      in if c \<noteq> 0 then c else compare_identity (entry_identity l) (entry_identity r))"

definition tie_break_decided ::
  "catalog_entry list \<Rightarrow> ((ident \<times> ident) \<times> reading) list \<Rightarrow> bool" where
  "tie_break_decided ranked rs =
     (case ranked of
        a # b # _ \<Rightarrow>
          list_all (\<lambda>(dm, value). reading_get (readings_of rs (entry_identity b)) dm = value)
            (readings_of rs (entry_identity a))
      | _ \<Rightarrow> False)"

section \<open>Selection\<close>

text \<open>The two filter loops; a reason code in the first component ends the selection.\<close>

fun compatible_loop ::
  "routing_policy \<Rightarrow> routing_evidence \<Rightarrow> timestamp \<Rightarrow> catalog_entry list \<Rightarrow> references
     \<Rightarrow> candidate_evaluation list
     \<Rightarrow> exn + (reason_code option \<times> catalog_entry list \<times> references \<times> candidate_evaluation list)" where
  "compatible_loop p evidence as_of [] refs evals = Inr (None, [], refs, evals)"
| "compatible_loop p evidence as_of (e # es) refs evals =
     bindE (compatibility_failure e p evidence as_of refs evals) (\<lambda>(code, refs', evals').
     case code of
       Some c \<Rightarrow>
         if c \<in> set EVIDENCE_ABORT_CODES then Inr (Some c, [], refs', evals')
         else compatible_loop p evidence as_of es refs' evals'
     | None \<Rightarrow>
         bindE (compatible_loop p evidence as_of es refs' evals') (\<lambda>(abort, rest, refs'', evals'').
           Inr (abort, e # rest, refs'', evals'')))"

fun gate_loop ::
  "routing_digests \<Rightarrow> routing_policy \<Rightarrow> routing_evidence \<Rightarrow> timestamp \<Rightarrow> catalog_entry list
     \<Rightarrow> references \<Rightarrow> candidate_evaluation list
     \<Rightarrow> exn + (reason_code option \<times> catalog_entry list \<times> references \<times> candidate_evaluation list)" where
  "gate_loop d p evidence as_of [] refs evals = Inr (None, [], refs, evals)"
| "gate_loop d p evidence as_of (e # es) refs evals =
     bindE (hard_gate_failure d (entry_variant e) p evidence as_of refs) (\<lambda>((failure, abort), refs').
     case abort of
       Some c \<Rightarrow> Inr (Some c, [], refs', evals @ [filtered (entry_variant e) HARD_GATES c])
     | None \<Rightarrow>
     (case failure of
        Some c \<Rightarrow>
          gate_loop d p evidence as_of es refs' (evals @ [filtered (entry_variant e) HARD_GATES c])
      | None \<Rightarrow>
          bindE (gate_loop d p evidence as_of es refs' evals) (\<lambda>(abort', rest, refs'', evals').
            Inr (abort', e # rest, refs'', evals'))))"

definition ordered_evaluation ::
  "((ident \<times> ident) \<times> reading) list \<Rightarrow> nat \<times> catalog_entry \<Rightarrow> candidate_evaluation" where
  "ordered_evaluation rs re =
     (case re of (rank, e) \<Rightarrow>
       \<lparr>ce_variant_id = variant_id (entry_variant e),
        ce_variant_version = variant_version (entry_variant e),
        ce_stage = ORDERING, ce_passed = True,
        ce_reason_code = (if rank = 1 then REASON_SELECTED else REASON_OUTRANKED),
        ce_rank = Some rank,
        ce_objective_values =
          map (\<lambda>(dm, value). \<lparr>ov_dimension = dm, ov_value = value, ov_missing = (value = None)\<rparr>)
            (readings_of rs (entry_identity e))\<rparr>)"

definition unresolved ::
  "routing_outcome \<Rightarrow> reason_code \<Rightarrow> candidate_evaluation list \<Rightarrow> routing_result" where
  "unresolved outcome code evals =
     \<lparr>rr_outcome = outcome, rr_reason_code = code, rr_decision = None,
      rr_candidate_evaluations = evals, rr_warnings = []\<rparr>"

definition decide ::
  "routing_digests \<Rightarrow> model_catalog \<Rightarrow> routing_policy \<Rightarrow> routing_evidence
     \<Rightarrow> catalog_entry list \<Rightarrow> ((ident \<times> ident) \<times> reading) list \<Rightarrow> references
     \<Rightarrow> routing_warning list \<Rightarrow> candidate_evaluation list \<Rightarrow> exn + routing_result" where
  "decide d catalog p evidence survivors rs refs ws evals =
     (let ranked = sort_cmp (ordering_comparator (rpol_objectives p) rs) survivors;
          selected = entry_variant (hd ranked);
          evals' = evals @ map (ordered_evaluation rs) (enumerate 1 ranked)
      in bindE (primary_contract selected) (\<lambda>contract.
         case fingerprint contract of
           None \<Rightarrow> Inl RoutingError
         | Some fp \<Rightarrow> Inr
             \<lparr>rr_outcome = SELECTED, rr_reason_code = REASON_SELECTED,
              rr_decision = Some
                \<lparr>decision_id = dg_decision d (dg_variant d selected) (dg_policy d p)
                   (dg_catalog d catalog) (dg_evidence d evidence),
                 rd_outcome = SELECTED, selected_variant = selected,
                 selected_contract_fingerprint = fp,
                 rd_policy_identity = rpol_identity p, rd_policy_digest = dg_policy d p,
                 rd_catalog_id = catalog_id catalog, rd_catalog_version = catalog_version catalog,
                 rd_catalog_digest = dg_catalog d catalog,
                 rd_evidence_digest = dg_evidence d evidence,
                 rd_evidence_references = dedupe_references (refs (variant_identity selected)),
                 rd_candidate_evaluations = evals',
                 tie_break_applied = tie_break_decided ranked rs\<rparr>,
              rr_candidate_evaluations = evals', rr_warnings = ws\<rparr>))"

definition select ::
  "routing_digests \<Rightarrow> model_catalog \<Rightarrow> routing_policy \<Rightarrow> routing_evidence option \<Rightarrow> timestamp
     \<Rightarrow> exn + routing_result" where
  "select d catalog p evidence_opt as_of =
     (let evidence = (case evidence_opt of None \<Rightarrow> no_evidence | Some e \<Rightarrow> e) in
      case policy_structure_error p of
        Some code \<Rightarrow> Inr (unresolved INVALID_POLICY code [])
      | None \<Rightarrow>
     (case catalog_conflict d catalog of
        Some code \<Rightarrow> Inr (unresolved CATALOG_CONFLICT code [])
      | None \<Rightarrow>
     bindE (compatible_loop p evidence as_of (canonical_entries catalog) (\<lambda>_. []) [])
       (\<lambda>(abort, compat, refs, evals).
     case abort of
       Some code \<Rightarrow> Inr (unresolved EVIDENCE_UNAVAILABLE code evals)
     | None \<Rightarrow>
     if compat = [] then Inr (unresolved NO_COMPATIBLE_VARIANT REASON_NO_COMPATIBLE_VARIANT evals)
     else bindE (gate_loop d p evidence as_of compat refs evals)
       (\<lambda>(abort', survivors, refs', evals').
     case abort' of
       Some code \<Rightarrow> Inr (unresolved EVIDENCE_UNAVAILABLE code evals')
     | None \<Rightarrow>
     if survivors = [] then Inr (unresolved POLICY_UNSATISFIED REASON_POLICY_UNSATISFIED evals')
     else bindE (all_readings d p evidence as_of survivors (refs', []))
       (\<lambda>(rs, st).
     bindE (emit_soft_preference_warnings d p survivors evidence as_of st) (\<lambda>(refs'', ws).
       decide d catalog p evidence survivors rs refs'' ws evals'))))))"

section \<open>Binding a decision to a Run\<close>

record routing_decision_binding =
  bind_decision_id :: string
  bind_run_id :: ident
  bind_definition_id :: ident
  bind_definition_version :: ident
  bind_variant_id :: ident
  bind_variant_version :: ident
  bind_contract_fingerprint :: string

definition bind_decision_to_run ::
  "routing_decision \<Rightarrow> run_record \<Rightarrow> exn + routing_decision_binding" where
  "bind_decision_to_run decision run =
     (let v = selected_variant decision in
      if run_definition_id run \<noteq> variant_definition_id v
         \<or> run_definition_version run \<noteq> variant_definition_version v then Inl RoutingBindingError
      else case run_snapshot run of
        None \<Rightarrow> Inl RoutingBindingError
      | Some snap \<Rightarrow>
     (case snap_model_bindings snap of
        None \<Rightarrow> Inl RoutingBindingError
      | Some bs \<Rightarrow>
          bindE (for_purpose bs PRIMARY) (\<lambda>b.
            if fingerprint (binding_contract b) \<noteq> Some (selected_contract_fingerprint decision)
              then Inl RoutingBindingError
            else Inr \<lparr>bind_decision_id = decision_id decision, bind_run_id = run_id run,
                 bind_definition_id = run_definition_id run,
                 bind_definition_version = run_definition_version run,
                 bind_variant_id = variant_id v, bind_variant_version = variant_version v,
                 bind_contract_fingerprint = selected_contract_fingerprint decision\<rparr>)))"

end
