(* ===== verification/Router_Laws.thy ===== *)
theory Router_Laws
  imports Router
begin

text \<open>
  What the router guarantees: its ordering is a total order on candidates, its filters
  compute a declarative notion of admissibility, and the selected variant is the least
  admissible one.
\<close>

section \<open>The ordering\<close>

lemma compare_objective_comparator: "comparator_on (\<lambda>l r. compare_objective l r ob) UNIV"
  by unfold_locales
    (auto simp: compare_objective_def split: option.splits if_splits)

lemma compare_objectives_comparator: "comparator_on (compare_objectives obs) UNIV"
proof (induction obs)
  case Nil
  show ?case by unfold_locales simp_all
next
  case (Cons ob obs)
  let ?get = "\<lambda>r. reading_get r (dimension ob)"
  have "comparator_on (\<lambda>l r. compare_objective (?get l) (?get r) ob) UNIV"
    by (rule comparator_image [OF compare_objective_comparator])
  from comparator_lex [OF this Cons.IH] show ?case by (simp add: Let_def)
qed

lemma compare_identity_comparator: "comparator_on compare_identity UNIV"
  by unfold_locales (auto simp: compare_identity_def split: if_splits)

interpretation router_order: comparator_on "ordering_comparator obs rs" UNIV
proof -
  have "comparator_on (\<lambda>l r. compare_objectives obs (readings_of rs (entry_identity l))
      (readings_of rs (entry_identity r))) UNIV"
    by (rule comparator_image [OF compare_objectives_comparator])
  moreover have "comparator_on (\<lambda>l r. compare_identity (entry_identity l) (entry_identity r)) UNIV"
    by (rule comparator_image [OF compare_identity_comparator])
  ultimately have "comparator_on (\<lambda>l r.
      if compare_objectives obs (readings_of rs (entry_identity l)) (readings_of rs (entry_identity r)) \<noteq> 0
      then compare_objectives obs (readings_of rs (entry_identity l)) (readings_of rs (entry_identity r))
      else compare_identity (entry_identity l) (entry_identity r)) UNIV"
    by (rule comparator_lex)
  then show "comparator_on (ordering_comparator obs rs) UNIV"
    by (simp add: ordering_comparator_def [abs_def] Let_def)
qed

text \<open>Ties are between entries of the same variant identity only: the order is total.\<close>

lemma ordering_zero:
  "ordering_comparator obs rs l r = 0 \<Longrightarrow> entry_identity l = entry_identity r"
  by (auto simp: ordering_comparator_def Let_def compare_identity_def split: if_splits)

section \<open>Admissibility\<close>

definition retention_ok :: "routing_policy \<Rightarrow> routing_evidence \<Rightarrow> timestamp \<Rightarrow> catalog_entry \<Rightarrow> bool" where
  "retention_ok p evidence as_of e \<longleftrightarrow>
     (\<forall>allowed. allowed_retention_evidence_versions (rpol_deployment p) = Some allowed \<longrightarrow>
       (\<exists>declared r. retention_evidence_version (entry_deployment e) = Some declared
          \<and> latest_retention evidence (entry_variant e) = Some r \<and> as_of \<le> re_valid_until r
          \<and> declared \<in> set allowed \<and> verified_retention_evidence_version r = declared))"

definition attribute_ok :: "ident option \<Rightarrow> ident list option \<Rightarrow> bool" where
  "attribute_ok value allowed \<longleftrightarrow> (\<forall>ok. allowed = Some ok \<longrightarrow> (\<exists>v. value = Some v \<and> v \<in> set ok))"

definition compat_ok :: "routing_policy \<Rightarrow> routing_evidence \<Rightarrow> timestamp \<Rightarrow> catalog_entry \<Rightarrow> bool" where
  "compat_ok p evidence as_of e \<longleftrightarrow>
     (let v = entry_variant e; a = entry_deployment e; c = rpol_deployment p in
      rpol_identity p \<in> set (policy_identities v)
      \<and> (\<forall>allowed. rpol_allowed_variants p = Some allowed \<longrightarrow> variant_identity v \<in> set allowed)
      \<and> bindings_failure (variant_bindings v) MODEL_PURPOSES = Inr None
      \<and> requirements_failure p v = Inr None
      \<and> attribute_ok (provider a) (allowed_providers c)
      \<and> attribute_ok (region a) (allowed_regions c)
      \<and> attribute_ok (endpoint_class a) (allowed_endpoint_classes c)
      \<and> retention_ok p evidence as_of e)"

lemma deployment_failure_none:
  "deployment_failure p a = None \<longleftrightarrow>
     attribute_ok (provider a) (allowed_providers (rpol_deployment p))
     \<and> attribute_ok (region a) (allowed_regions (rpol_deployment p))
     \<and> attribute_ok (endpoint_class a) (allowed_endpoint_classes (rpol_deployment p))"
  by (auto simp: deployment_failure_def attribute_ok_def Let_def split: option.splits if_splits)

lemma retention_failure_none:
  "fst (retention_failure p e evidence as_of refs) = None \<longleftrightarrow> retention_ok p evidence as_of e"
  by (auto simp: retention_failure_def retention_ok_def Let_def not_less split: option.splits)

lemma scope_failure_none:
  "scope_failure p v = None \<longleftrightarrow> rpol_identity p \<in> set (policy_identities v)
     \<and> (\<forall>allowed. rpol_allowed_variants p = Some allowed \<longrightarrow> variant_identity v \<in> set allowed)"
  by (auto simp: scope_failure_def)

lemma compatibility_failure_result:
  assumes "compatibility_failure e p evidence as_of refs evals = Inr (code, refs', evals')"
  shows "code = None \<longleftrightarrow> compat_ok p evidence as_of e"
proof (cases "scope_failure p (entry_variant e)")
  case (Some c)
  then have "code = Some c" using assms by (simp add: compatibility_failure_def Let_def)
  moreover have "\<not> compat_ok p evidence as_of e"
    using Some scope_failure_none [of p "entry_variant e"] by (auto simp: compat_ok_def Let_def)
  ultimately show ?thesis by simp
next
  case scope: None
  obtain b where b: "bindings_failure (variant_bindings (entry_variant e)) MODEL_PURPOSES = Inr b"
    using assms scope
    by (cases "bindings_failure (variant_bindings (entry_variant e)) MODEL_PURPOSES")
      (simp_all add: compatibility_failure_def Let_def)
  show ?thesis
  proof (cases b)
    case (Some c)
    then show ?thesis using assms scope b by (auto simp: compatibility_failure_def compat_ok_def Let_def)
  next
    case None
    obtain r where r: "requirements_failure p (entry_variant e) = Inr r"
      using assms scope b None
      by (cases "requirements_failure p (entry_variant e)") (simp_all add: compatibility_failure_def Let_def)
    have ok: "compat_ok p evidence as_of e \<longleftrightarrow> r = None
        \<and> deployment_failure p (entry_deployment e) = None \<and> retention_ok p evidence as_of e"
      using scope scope_failure_none [of p "entry_variant e"] b None r
        deployment_failure_none [of p "entry_deployment e"]
      by (auto simp: compat_ok_def Let_def)
    show ?thesis
      using assms scope b None r retention_failure_none [of p e evidence as_of refs]
      by (auto simp: ok compatibility_failure_def Let_def split: option.splits prod.splits)
  qed
qed

lemma compatible_loop_result:
  assumes "compatible_loop p evidence as_of es refs evals = Inr (None, cs, refs', evals')"
  shows "cs = filter (compat_ok p evidence as_of) es"
  using assms
proof (induction es arbitrary: cs refs evals)
  case (Cons e es)
  obtain code refs1 evals1 where c: "compatibility_failure e p evidence as_of refs evals = Inr (code, refs1, evals1)"
    using Cons.prems by (cases "compatibility_failure e p evidence as_of refs evals") auto
  show ?case
  proof (cases code)
    case None
    then obtain rest where "compatible_loop p evidence as_of es refs1 evals1 = Inr (None, rest, refs', evals')"
      "cs = e # rest" using Cons.prems c by (auto simp: bindE_eq_Inr)
    then show ?thesis using Cons.IH compatibility_failure_result [OF c] None by auto
  next
    case (Some x)
    then have "compatible_loop p evidence as_of es refs1 evals1 = Inr (None, cs, refs', evals')"
      using Cons.prems c by (auto split: if_splits)
    then show ?thesis using Cons.IH compatibility_failure_result [OF c] Some by auto
  qed
qed simp

section \<open>Hard gates\<close>

definition price_ok where
  "price_ok d p evidence as_of v \<longleftrightarrow>
     (\<forall>cap. max_input_price_per_mtok (rpol_hard_gates p) = Some cap \<longrightarrow>
       (\<exists>pr. latest_pricing evidence v = Some pr \<and> evaluate_pricing_snapshot d pr v as_of = Inr VALID
          \<and> input_price_per_mtok pr \<le> cap))"

definition scores_ok where
  "scores_ok p evidence as_of v \<longleftrightarrow>
     (min_quality_score (rpol_hard_gates p) = None \<and> min_stability_score (rpol_hard_gates p) = None)
     \<or> (\<exists>m. latest_model_evidence evidence v = Some m \<and> as_of \<le> me_valid_until m
          \<and> (\<forall>q. min_quality_score (rpol_hard_gates p) = Some q \<longrightarrow> q \<le> quality_score m)
          \<and> (\<forall>q. min_stability_score (rpol_hard_gates p) = Some q \<longrightarrow> q \<le> stability_score m))"

definition availability_ok where
  "availability_ok d p evidence as_of v \<longleftrightarrow>
     (require_availability (rpol_hard_gates p) \<longrightarrow>
       (\<exists>a. latest_availability evidence v = Some a
          \<and> evaluate_availability_snapshot d a v as_of = Inr VALID \<and> available a))"

definition limits_met :: "(rat option \<times> rat option) list \<Rightarrow> bool" where
  "limits_met ps \<longleftrightarrow> (\<forall>(minimum, observed) \<in> set ps.
     \<forall>m. minimum = Some m \<longrightarrow> (\<exists>x. observed = Some x \<and> m \<le> x))"

definition limits_ok where
  "limits_ok d p evidence as_of v \<longleftrightarrow>
     (\<forall>g. gate_operational_limits (rpol_hard_gates p) = Some g \<longrightarrow>
       (\<exists>s. latest_operational_limits evidence v = Some s
          \<and> evaluate_operational_limits_snapshot d s v as_of = Inr VALID
          \<and> limits_met (limit_pairs g s)))"

definition cap_policy :: "worst_case_cost_cap \<Rightarrow> run_cost_policy" where
  "cap_policy cap = \<lparr>rc_policy_id = ''worst-case-cost-cap'', rc_version = ''1'',
     rc_currency = cap_currency cap, rc_formula = WORST_CASE_TOKEN_BUDGET,
     rc_usage_provenance = RUNTIME_SIZED\<rparr>"

definition cost_ok where
  "cost_ok d p evidence as_of v \<longleftrightarrow>
     (\<forall>cap. gate_worst_case_cost_cap (rpol_hard_gates p) = Some cap \<longrightarrow>
       (\<exists>est bound. estimate_run_cost d (cap_policy cap) v evidence as_of None None = Inr est
          \<and> upper_bound est = Some bound \<and> bound \<le> max_run_cost cap))"

definition gates_ok where
  "gates_ok d p evidence as_of v \<longleftrightarrow>
     price_ok d p evidence as_of v \<and> scores_ok p evidence as_of v \<and> availability_ok d p evidence as_of v
     \<and> limits_ok d p evidence as_of v \<and> cost_ok d p evidence as_of v"

lemma then_gate_result:
  assumes "then_gate r g = Inr (verdict, refs)"
  obtains "r = Inr (verdict, refs)" and "verdict \<noteq> (None, None)"
  | refs' where "r = Inr ((None, None), refs')" and "g refs' = Inr (verdict, refs)"
  using assms by (auto simp: then_gate_def bindE_eq_Inr split: if_splits)

text \<open>Splits a case over the six snapshot statuses, without an unreachable remainder.\<close>

lemma status_cases [elim!]:
  "st \<noteq> VALID \<Longrightarrow> st \<noteq> STALE \<Longrightarrow> st \<noteq> NOT_EFFECTIVE \<Longrightarrow> st \<noteq> SUBJECT_MISMATCH \<Longrightarrow>
     st \<noteq> FINGERPRINT_DRIFT \<Longrightarrow> st \<noteq> INTEGRITY_FAILURE \<Longrightarrow> P"
  by (cases st) simp_all

lemma price_gate_result:
  "price_gate d v (rpol_hard_gates p) evidence as_of refs = Inr (verdict, refs') \<Longrightarrow>
     verdict = (None, None) \<longleftrightarrow> price_ok d p evidence as_of v"
  by (auto simp: price_gate_def price_ok_def bindE_eq_Inr not_less
      split: option.splits snapshot_status.splits if_splits)

lemma score_gate_result:
  "score_gate v (rpol_hard_gates p) evidence as_of refs = (verdict, refs') \<Longrightarrow>
     verdict = (None, None) \<longleftrightarrow> scores_ok p evidence as_of v"
  by (auto simp: score_gate_def scores_ok_def not_less not_le split: option.splits if_splits)

lemma availability_gate_result:
  "availability_gate d v (rpol_hard_gates p) evidence as_of refs = Inr (verdict, refs') \<Longrightarrow>
     verdict = (None, None) \<longleftrightarrow> availability_ok d p evidence as_of v"
  by (auto simp: availability_gate_def availability_ok_def bindE_eq_Inr
      split: option.splits snapshot_status.splits if_splits)

lemma limits_verdict_none:
  "limits_verdict ps = (None, None) \<longleftrightarrow> limits_met ps"
  unfolding limits_met_def
  by (induction ps rule: limits_verdict.induct) (auto simp: not_less split: option.splits)

lemma limits_gate_result:
  assumes "(case gate_operational_limits (rpol_hard_gates p) of
       None \<Rightarrow> Inr ((None, None), refs)
     | Some g \<Rightarrow> operational_limits_gate_failure d v g evidence as_of refs) = Inr (verdict, refs')"
  shows "verdict = (None, None) \<longleftrightarrow> limits_ok d p evidence as_of v"
  using assms
  by (auto simp: operational_limits_gate_failure_def limits_ok_def bindE_eq_Inr limits_verdict_none
      split: option.splits snapshot_status.splits)

lemma cost_gate_result:
  assumes "(case gate_worst_case_cost_cap (rpol_hard_gates p) of
       None \<Rightarrow> Inr ((None, None), refs)
     | Some cap \<Rightarrow> worst_case_cost_gate_failure d v cap evidence as_of refs) = Inr (verdict, refs')"
  shows "verdict = (None, None) \<longleftrightarrow> cost_ok d p evidence as_of v"
  using assms
  by (auto simp: worst_case_cost_gate_failure_def cost_ok_def cap_policy_def validate_cost_policy_def
      bindE_eq_Inr not_less split: option.splits if_splits)

lemma hard_gate_result:
  assumes "hard_gate_failure d v p evidence as_of refs = Inr (verdict, refs')"
  shows "verdict = (None, None) \<longleftrightarrow> gates_ok d p evidence as_of v"
  using assms unfolding hard_gate_failure_def Let_def gates_ok_def
  by (elim then_gate_result)
    (auto dest!: price_gate_result score_gate_result availability_gate_result limits_gate_result
      cost_gate_result)

lemma gate_loop_result:
  assumes "gate_loop d p evidence as_of es refs evals = Inr (None, cs, refs', evals')"
  shows "cs = filter (\<lambda>e. gates_ok d p evidence as_of (entry_variant e)) es"
  using assms
proof (induction es arbitrary: cs refs evals)
  case (Cons e es)
  obtain failure abort refs1 where c: "hard_gate_failure d (entry_variant e) p evidence as_of refs
      = Inr ((failure, abort), refs1)"
    using Cons.prems by (cases "hard_gate_failure d (entry_variant e) p evidence as_of refs") auto
  have abort: "abort = None" using Cons.prems c by (cases abort) auto
  show ?case
  proof (cases failure)
    case None
    then obtain rest where "gate_loop d p evidence as_of es refs1 evals = Inr (None, rest, refs', evals')"
      "cs = e # rest" using Cons.prems c abort by (auto simp: bindE_eq_Inr)
    then show ?thesis using Cons.IH hard_gate_result [OF c] None abort by auto
  next
    case (Some x)
    then have "gate_loop d p evidence as_of es refs1
        (evals @ [filtered (entry_variant e) HARD_GATES x]) = Inr (None, cs, refs', evals')"
      using Cons.prems c abort by simp
    then show ?thesis using Cons.IH hard_gate_result [OF c] Some by auto
  qed
qed simp

section \<open>Readings\<close>

text \<open>The value of a candidate on a dimension, without the bookkeeping.\<close>

definition reading_value ::
  "routing_digests \<Rightarrow> routing_evidence \<Rightarrow> timestamp \<Rightarrow> agent_variant \<Rightarrow> objective_dimension \<Rightarrow> rat option" where
  "reading_value d evidence as_of v dm =
     (case dm of
        COST \<Rightarrow>
          (case latest_pricing evidence v of
             None \<Rightarrow> None
           | Some pr \<Rightarrow> if evaluate_pricing_snapshot d pr v as_of = Inr VALID
                        then Some (input_price_per_mtok pr) else None)
      | _ \<Rightarrow>
          (case latest_model_evidence evidence v of
             None \<Rightarrow> None
           | Some m \<Rightarrow>
               if me_valid_until m < as_of then None
               else (case dm of QUALITY \<Rightarrow> Some (quality_score m)
                     | STABILITY \<Rightarrow> Some (stability_score m) | _ \<Rightarrow> latency_ms_p50 m)))"

lemma objective_value_reading:
  "objective_value d v dm evidence as_of st = Inr (value, st') \<Longrightarrow>
     value = reading_value d evidence as_of v dm"
  by (cases dm) (auto simp: objective_value_def reading_value_def bindE_eq_Inr Let_def
      split: prod.splits option.splits snapshot_status.splits if_splits)

lemma variant_readings_map:
  "variant_readings d v evidence as_of obs st = Inr (r, st') \<Longrightarrow>
     r = map (\<lambda>ob. (dimension ob, reading_value d evidence as_of v (dimension ob))) obs"
  by (induction obs arbitrary: st r) (auto simp: bindE_eq_Inr dest: objective_value_reading)

definition policy_readings ::
  "routing_digests \<Rightarrow> routing_policy \<Rightarrow> routing_evidence \<Rightarrow> timestamp \<Rightarrow> catalog_entry \<Rightarrow> reading" where
  "policy_readings d p evidence as_of e =
     map (\<lambda>ob. (dimension ob, reading_value d evidence as_of (entry_variant e) (dimension ob)))
       (rpol_objectives p)"

lemma all_readings_map:
  "all_readings d p evidence as_of es st = Inr (rs, st') \<Longrightarrow>
     rs = map (\<lambda>e. (entry_identity e, policy_readings d p evidence as_of e)) es"
  by (induction es arbitrary: st rs)
    (auto simp: bindE_eq_Inr policy_readings_def dest!: variant_readings_map)

lemma readings_of_all:
  assumes "distinct (map entry_identity es)" and "e \<in> set es"
  shows "readings_of (map (\<lambda>e. (entry_identity e, policy_readings d p evidence as_of e)) es)
           (entry_identity e) = policy_readings d p evidence as_of e"
proof -
  have "map_of (map (\<lambda>e. (entry_identity e, policy_readings d p evidence as_of e)) es) (entry_identity e)
      = Some (policy_readings d p evidence as_of e)"
    by (rule map_of_is_SomeI) (use assms in \<open>auto simp: comp_def\<close>)
  then show ?thesis by (simp add: readings_of_def)
qed

text \<open>The preference of a policy: objectives in order, then the stable identity.\<close>

definition preferred ::
  "routing_digests \<Rightarrow> routing_policy \<Rightarrow> routing_evidence \<Rightarrow> timestamp \<Rightarrow> catalog_entry \<Rightarrow> catalog_entry \<Rightarrow> int" where
  "preferred d p evidence as_of l r =
     (let c = compare_objectives (rpol_objectives p) (policy_readings d p evidence as_of l)
                (policy_readings d p evidence as_of r)
      in if c \<noteq> 0 then c else compare_identity (entry_identity l) (entry_identity r))"

section \<open>Selection\<close>

definition admissible ::
  "routing_digests \<Rightarrow> model_catalog \<Rightarrow> routing_policy \<Rightarrow> routing_evidence \<Rightarrow> timestamp \<Rightarrow> catalog_entry list" where
  "admissible d catalog p evidence as_of =
     filter (\<lambda>e. compat_ok p evidence as_of e \<and> gates_ok d p evidence as_of (entry_variant e))
       (canonical_entries catalog)"

lemma filter_conj: "filter P (filter Q xs) = filter (\<lambda>x. Q x \<and> P x) xs"
  by (induction xs) auto

text \<open>The stages a selection went through.\<close>

lemma select_loopsE:
  assumes "select d catalog p (Some evidence) as_of = Inr r" and "rr_outcome r = SELECTED"
  obtains compat refs1 evals1 survivors refs2 evals2 where
    "policy_structure_error p = None" and "catalog_conflict d catalog = None"
    and "compatible_loop p evidence as_of (canonical_entries catalog) (\<lambda>_. []) [] = Inr (None, compat, refs1, evals1)"
    and "compat \<noteq> []"
    and "gate_loop d p evidence as_of compat refs1 evals1 = Inr (None, survivors, refs2, evals2)"
    and "survivors \<noteq> []"
proof -
  have str: "policy_structure_error p = None" and cat: "catalog_conflict d catalog = None"
    using assms by (auto simp: select_def unresolved_def split: option.splits)
  let ?loop = "compatible_loop p evidence as_of (canonical_entries catalog) (\<lambda>_. []) []"
  obtain abort compat refs1 evals1 where c: "?loop = Inr (abort, compat, refs1, evals1)"
    using assms(1) str cat by (cases ?loop) (auto simp: select_def)
  have "abort = None" using assms str cat c by (cases abort) (auto simp: select_def unresolved_def)
  note c = c [unfolded this]
  have ne: "compat \<noteq> []" using assms str cat c by (auto simp: select_def unresolved_def)
  let ?gates = "gate_loop d p evidence as_of compat refs1 evals1"
  obtain abort' survivors refs2 evals2 where g: "?gates = Inr (abort', survivors, refs2, evals2)"
    using assms(1) str cat c ne by (cases ?gates) (auto simp: select_def)
  have "abort' = None" using assms str cat c ne g by (cases abort') (auto simp: select_def unresolved_def)
  note g = g [unfolded this]
  have "survivors \<noteq> []" using assms str cat c ne g by (auto simp: select_def unresolved_def)
  with str cat c ne g show thesis by (rule that)
qed

lemma select_selectedE:
  assumes "select d catalog p (Some evidence) as_of = Inr r" and "rr_outcome r = SELECTED"
  obtains refs ws evals rs where
    "admissible d catalog p evidence as_of \<noteq> []"
    and "rs = map (\<lambda>e. (entry_identity e, policy_readings d p evidence as_of e))
           (admissible d catalog p evidence as_of)"
    and "decide d catalog p evidence (admissible d catalog p evidence as_of) rs refs ws evals = Inr r"
proof -
  obtain compat refs1 evals1 survivors refs2 evals2 where str: "policy_structure_error p = None"
    and cat: "catalog_conflict d catalog = None"
    and c: "compatible_loop p evidence as_of (canonical_entries catalog) (\<lambda>_. []) [] = Inr (None, compat, refs1, evals1)"
    and ne: "compat \<noteq> []"
    and g: "gate_loop d p evidence as_of compat refs1 evals1 = Inr (None, survivors, refs2, evals2)"
    and ne': "survivors \<noteq> []" by (rule select_loopsE [OF assms])
  have surv: "survivors = admissible d catalog p evidence as_of"
    using compatible_loop_result [OF c] gate_loop_result [OF g] by (simp add: admissible_def filter_conj)
  obtain rs st refs3 ws where r: "all_readings d p evidence as_of survivors (refs2, []) = Inr (rs, st)"
    and e: "emit_soft_preference_warnings d p survivors evidence as_of st = Inr (refs3, ws)"
    and dec: "decide d catalog p evidence survivors rs refs3 ws evals2 = Inr r"
    using assms(1) str cat c ne g ne' by (auto simp: select_def bindE_eq_Inr)
  show thesis by (rule that) (use ne' all_readings_map [OF r] dec surv in auto)
qed

lemma admissible_distinct: "distinct (map entry_identity (admissible d catalog p evidence as_of))"
  unfolding admissible_def by (rule distinct_map_filter [OF canonical_entries_distinct])

lemma selected_is_least:
  assumes "select d catalog p (Some evidence) as_of = Inr r" and "rr_decision r = Some rd"
    and "rr_outcome r = SELECTED"
  shows "\<exists>e \<in> set (admissible d catalog p evidence as_of). selected_variant rd = entry_variant e
     \<and> (\<forall>e' \<in> set (admissible d catalog p evidence as_of). preferred d p evidence as_of e e' \<le> 0)"
proof -
  let ?A = "admissible d catalog p evidence as_of"
  obtain refs ws evals rs where ne: "?A \<noteq> []"
    and rs: "rs = map (\<lambda>e. (entry_identity e, policy_readings d p evidence as_of e)) ?A"
    and dec: "decide d catalog p evidence ?A rs refs ws evals = Inr r"
    by (rule select_selectedE [OF assms(1,3)])
  let ?c = "ordering_comparator (rpol_objectives p) rs"
  let ?e = "hd (sort_cmp ?c ?A)"
  have mem: "?e \<in> set ?A"
    using ne hd_in_set [of "sort_cmp ?c ?A"] by simp
  have "selected_variant rd = entry_variant ?e"
    using dec assms(2) by (auto simp: decide_def Let_def bindE_eq_Inr split: option.splits)
  moreover have "preferred d p evidence as_of ?e e' \<le> 0" if "e' \<in> set ?A" for e'
  proof -
    have "?c ?e e' \<le> 0" by (rule router_order.sort_cmp_hd_least) (use ne that in auto)
    then show ?thesis
      using readings_of_all [OF admissible_distinct mem] readings_of_all [OF admissible_distinct that]
      by (simp add: preferred_def ordering_comparator_def rs)
  qed
  ultimately show ?thesis using mem by blast
qed

section \<open>Decisions\<close>

text \<open>Only a selection carries a decision, and a selection always carries one.\<close>

lemma select_decision_iff:
  assumes "select d catalog p evidence as_of = Inr r"
  shows "rr_decision r \<noteq> None \<longleftrightarrow> rr_outcome r = SELECTED"
  using assms
  by (auto simp: select_def decide_def unresolved_def bindE_eq_Inr Let_def
      split: option.splits if_splits prod.splits)

lemma select_decision_fields:
  assumes "select d catalog p (Some evidence) as_of = Inr r" and "rr_decision r = Some rd"
  shows "decision_id rd = dg_decision d (dg_variant d (selected_variant rd)) (dg_policy d p)
           (dg_catalog d catalog) (dg_evidence d evidence)"
    and "rd_evidence_digest rd = dg_evidence d evidence"
proof -
  have "rr_outcome r = SELECTED" using select_decision_iff [OF assms(1)] assms(2) by simp
  then obtain refs ws evals rs where
    "decide d catalog p evidence (admissible d catalog p evidence as_of) rs refs ws evals = Inr r"
    by (rule select_selectedE [OF assms(1)])
  then show "decision_id rd = dg_decision d (dg_variant d (selected_variant rd)) (dg_policy d p)
           (dg_catalog d catalog) (dg_evidence d evidence)"
    and "rd_evidence_digest rd = dg_evidence d evidence"
    using assms(2) by (auto simp: decide_def Let_def bindE_eq_Inr split: option.splits)
qed

lemma preferred_zero:
  assumes "preferred d p evidence as_of e e' = 0"
  shows "entry_identity e = entry_identity e'"
  using assms
  by (auto simp: preferred_def compare_identity_def Let_def split: if_splits)

text \<open>The price gate is asked of every compatible candidate before any is selected.\<close>

definition priced where
  "priced d evidence as_of v \<longleftrightarrow>
     (\<exists>pr. latest_pricing evidence v = Some pr \<and> evaluate_pricing_snapshot d pr v as_of = Inr VALID)"

lemma hard_gate_priced:
  assumes "hard_gate_failure d v p evidence as_of refs = Inr ((failure, None), refs')"
    and "max_input_price_per_mtok (rpol_hard_gates p) = Some cap"
  shows "priced d evidence as_of v"
proof -
  obtain verdict refs1 where "price_gate d v (rpol_hard_gates p) evidence as_of refs = Inr (verdict, refs1)"
    and "snd verdict = None"
    using assms(1) unfolding hard_gate_failure_def Let_def by (elim then_gate_result) auto
  then show ?thesis using assms(2)
    by (auto simp: price_gate_def priced_def bindE_eq_Inr split: option.splits snapshot_status.splits)
qed

lemma gate_loop_priced:
  assumes "gate_loop d p evidence as_of es refs evals = Inr (None, cs, refs', evals')"
    and "max_input_price_per_mtok (rpol_hard_gates p) = Some cap" and "e \<in> set es"
  shows "priced d evidence as_of (entry_variant e)"
  using assms(1,3)
proof (induction es arbitrary: cs refs evals)
  case (Cons x es)
  obtain failure abort refs1 where c: "hard_gate_failure d (entry_variant x) p evidence as_of refs
      = Inr ((failure, abort), refs1)"
    using Cons.prems by (cases "hard_gate_failure d (entry_variant x) p evidence as_of refs") auto
  have "abort = None" using Cons.prems c by (cases abort) auto
  note c = c [unfolded this]
  show ?case
  proof (cases "e = x")
    case True
    then show ?thesis using hard_gate_priced [OF c assms(2)] by simp
  next
    case False
    then show ?thesis using Cons c by (cases failure) (auto simp: bindE_eq_Inr)
  qed
qed simp

lemma select_all_priced:
  assumes "select d catalog p (Some evidence) as_of = Inr r" and "rr_decision r \<noteq> None"
    and "max_input_price_per_mtok (rpol_hard_gates p) = Some cap"
    and "e \<in> set (canonical_entries catalog)" and "compat_ok p evidence as_of e"
  shows "priced d evidence as_of (entry_variant e)"
proof -
  have sel: "rr_outcome r = SELECTED" using select_decision_iff [OF assms(1)] assms(2) by simp
  obtain compat refs evals survivors refs' evals'
    where c: "compatible_loop p evidence as_of (canonical_entries catalog) (\<lambda>_. []) [] = Inr (None, compat, refs, evals)"
      and g: "gate_loop d p evidence as_of compat refs evals = Inr (None, survivors, refs', evals')"
    by (rule select_loopsE [OF assms(1) sel])
  show ?thesis by (rule gate_loop_priced [OF g assms(3)]) (use compatible_loop_result [OF c] assms(4,5) in simp)
qed

end
