(* ===== verification/Routing_Flow.thy ===== *)
theory Routing_Flow
  imports Router_Laws Run_Policy
begin

text \<open>
  What surrounds a selection in \<open>src/src/m_agent/companion/routing\<close>: pre-Run fallback over a
  frozen policy sequence and replacement Runs (\<open>_fallback.py\<close>) and the explicit publication
  of a recommendation (\<open>_publish.py\<close>).
\<close>

section \<open>Fallback before a Run exists\<close>

record fallback_sequence =
  fs_policies :: "routing_policy list"
  fs_max_attempts :: int

definition validate_sequence :: "fallback_sequence \<Rightarrow> exn + fallback_sequence" where
  "validate_sequence s =
     (if fs_max_attempts s < 1 then Inl ValueError
      else if fs_policies s = [] then Inl ValueError
      else if fs_max_attempts s < int (length (fs_policies s)) then Inl ValueError
      else if \<not> distinct (map (\<lambda>p. (rp_policy_id (rpol_identity p), rp_version (rpol_identity p)))
                 (fs_policies s)) then Inl ValueError
      else Inr s)"

record fallback_attempt =
  fa_attempt_index :: nat
  fa_policy_identity :: routing_policy_identity
  fa_outcome :: routing_outcome
  fa_reason_code :: reason_code
  fa_decision_id :: "string option"

datatype fallback_code = FALLBACK_SELECTED | FALLBACK_EXHAUSTED

record pre_run_fallback_result =
  fb_attempts :: "fallback_attempt list"
  fb_outcome :: routing_outcome
  fb_reason_code :: fallback_code
  fb_selected :: "routing_result option"
  fb_exhausted :: bool

text \<open>The router is an argument of the function in the source (\<open>router\<close>, by default
  \<open>ModelRouter()\<close>); it is the function from a policy to its result here.\<close>

definition attempt_of :: "nat \<Rightarrow> routing_policy \<Rightarrow> routing_result \<Rightarrow> fallback_attempt" where
  "attempt_of index p r =
     \<lparr>fa_attempt_index = index, fa_policy_identity = rpol_identity p, fa_outcome = rr_outcome r,
      fa_reason_code = rr_reason_code r, fa_decision_id = map_option decision_id (rr_decision r)\<rparr>"

fun fallback_loop ::
  "(routing_policy \<Rightarrow> exn + routing_result) \<Rightarrow> nat \<Rightarrow> routing_policy list
     \<Rightarrow> exn + (fallback_attempt list \<times> routing_result option)" where
  "fallback_loop router index [] = Inr ([], None)"
| "fallback_loop router index (p # ps) =
     bindE (router p) (\<lambda>r.
       if rr_outcome r = SELECTED then Inr ([attempt_of index p r], Some r)
       else bindE (fallback_loop router (Suc index) ps) (\<lambda>(rest, selected).
         Inr (attempt_of index p r # rest, selected)))"

definition execute_pre_run_fallback ::
  "routing_digests \<Rightarrow> model_catalog \<Rightarrow> fallback_sequence \<Rightarrow> routing_evidence option \<Rightarrow> timestamp
     \<Rightarrow> exn + pre_run_fallback_result" where
  "execute_pre_run_fallback d catalog s evidence as_of =
     bindE (fallback_loop (\<lambda>p. select d catalog p evidence as_of) 1 (fs_policies s))
       (\<lambda>(attempts, selected).
       case selected of
         Some r \<Rightarrow> Inr \<lparr>fb_attempts = attempts, fb_outcome = rr_outcome r,
                     fb_reason_code = FALLBACK_SELECTED, fb_selected = Some r, fb_exhausted = False\<rparr>
       | None \<Rightarrow>
           if attempts = [] then Inl IndexError
           else Inr \<lparr>fb_attempts = attempts, fb_outcome = fa_outcome (last attempts),
                  fb_reason_code = FALLBACK_EXHAUSTED, fb_selected = None, fb_exhausted = True\<rparr>)"

text \<open>
  The reference behaviour: the results of the policies tried are those of a prefix of the
  sequence; only the last of them can be SELECTED.
\<close>

lemma fallback_loop_prefix:
  assumes "fallback_loop router i ps = Inr (as, sel)"
  shows "length as \<le> length ps"
    and "k < length as \<Longrightarrow> \<exists>r. router (ps ! k) = Inr r \<and> as ! k = attempt_of (i + k) (ps ! k) r
           \<and> (rr_outcome r = SELECTED \<longrightarrow> Suc k = length as \<and> sel = Some r)"
    and "sel = None \<Longrightarrow> length as = length ps"
    and "sel = Some r \<Longrightarrow> as \<noteq> [] \<and> router (ps ! (length as - 1)) = Inr r \<and> rr_outcome r = SELECTED"
  using assms
proof (induction ps arbitrary: i as sel k)
  case (Cons p ps)
  {
    case 1
    then show ?case using Cons.IH(1) by (auto simp: bindE_eq_Inr split: if_splits)
  next
    case 2
    obtain r0 where r0: "router p = Inr r0" using 2(2) by (auto simp: bindE_eq_Inr)
    show ?case
    proof (cases "rr_outcome r0 = SELECTED")
      case True
      then show ?thesis using 2 r0 by auto
    next
      case False
      then obtain rest where rest: "fallback_loop router (Suc i) ps = Inr (rest, sel)"
        and as: "as = attempt_of i p r0 # rest" using 2(2) r0 by (auto simp: bindE_eq_Inr)
      show ?thesis
      proof (cases k)
        case 0
        then show ?thesis using as r0 False by auto
      next
        case (Suc j)
        then have "j < length rest" using 2(1) as by simp
        then show ?thesis using Cons.IH(2) [OF _ rest, of j] Suc as by auto
      qed
    qed
  next
    case 3
    then show ?case using Cons.IH(3) by (auto simp: bindE_eq_Inr split: if_splits)
  next
    case 4
    then show ?case using Cons.IH(4)
      by (auto simp: bindE_eq_Inr nth_Cons split: if_splits nat.splits) fastforce+
  }
qed auto

section \<open>Replacement Runs\<close>

record replacement_run_record =
  rep_predecessor_run_id :: ident
  rep_successor_run_id :: ident
  rep_reason_code :: ident
  rep_predecessor_variant_id :: ident
  rep_predecessor_variant_version :: ident
  rep_predecessor_decision_id :: string
  rep_successor_variant_id :: ident
  rep_successor_variant_version :: ident
  rep_successor_decision_id :: string

text \<open>\<open>_REASON_CODE.fullmatch\<close> for \<open>[A-Z][A-Z0-9_]*\<close>; the other fields have minimum length 1.\<close>

fun is_routing_reason_code :: "string \<Rightarrow> bool" where
  "is_routing_reason_code [] = False"
| "is_routing_reason_code (c # cs) \<longleftrightarrow>
     is_upper c \<and> list_all (\<lambda>x. is_upper x \<or> is_digit x \<or> x = CHR ''_'') cs"

definition validate_replacement :: "replacement_run_record \<Rightarrow> exn + replacement_run_record" where
  "validate_replacement r =
     (if [] \<in> set [rep_predecessor_run_id r, rep_successor_run_id r, rep_predecessor_variant_id r,
            rep_predecessor_variant_version r, rep_predecessor_decision_id r,
            rep_successor_variant_id r, rep_successor_variant_version r, rep_successor_decision_id r]
        then Inl ValueError
      else if \<not> is_routing_reason_code (rep_reason_code r) then Inl ValueError
      else Inr r)"

definition register_replacement_run ::
  "run_record \<Rightarrow> run_record \<Rightarrow> routing_decision_binding \<Rightarrow> routing_decision_binding \<Rightarrow> ident
     \<Rightarrow> exn + replacement_run_record" where
  "register_replacement_run predecessor successor pb sb reason =
     (if bind_run_id pb \<noteq> run_id predecessor then Inl RoutingReplacementError
      else if bind_run_id sb \<noteq> run_id successor then Inl RoutingReplacementError
      else if run_id successor = run_id predecessor then Inl RoutingReplacementError
      else if \<not> is_terminal (run_status_of predecessor) then Inl RoutingReplacementError
      else if bind_decision_id sb = bind_decision_id pb then Inl RoutingReplacementError
      else validate_replacement
        \<lparr>rep_predecessor_run_id = run_id predecessor, rep_successor_run_id = run_id successor,
         rep_reason_code = reason,
         rep_predecessor_variant_id = bind_variant_id pb,
         rep_predecessor_variant_version = bind_variant_version pb,
         rep_predecessor_decision_id = bind_decision_id pb,
         rep_successor_variant_id = bind_variant_id sb,
         rep_successor_variant_version = bind_variant_version sb,
         rep_successor_decision_id = bind_decision_id sb\<rparr>)"

section \<open>Publication of a recommendation\<close>

definition publish_recommendation_as_policy ::
  "recommendation_publication \<Rightarrow> routing_policy \<Rightarrow> ident \<Rightarrow> timestamp \<Rightarrow> exn + routing_policy" where
  "publish_recommendation_as_policy publication base_policy new_version as_of =
     (if \<not> pub_hard_gate_passed publication then Inl PublicationError
      else if \<not> pub_quality_gate_passed publication then Inl PublicationError
      else if pub_valid_until publication < as_of then Inl PublicationError
      else if new_version = rp_version (rpol_identity base_policy) then Inl PublicationError
      else if new_version = [] then Inl ValueError
      else Inr
        \<lparr>rpol_identity = \<lparr>rp_policy_id = rp_policy_id (rpol_identity base_policy),
           rp_version = new_version\<rparr>,
         rpol_model_requirements = rpol_model_requirements base_policy,
         rpol_deployment = rpol_deployment base_policy,
         rpol_hard_gates = rpol_hard_gates base_policy,
         rpol_objectives = rpol_objectives base_policy,
         rpol_soft_preferences = rpol_soft_preferences base_policy,
         rpol_allowed_variants =
           Some [(pub_target_variant_id publication, pub_target_variant_version publication)],
         rpol_published_from = Some publication\<rparr>)"

definition register_variant_for_policy ::
  "agent_variant \<Rightarrow> routing_policy_identity \<Rightarrow> ident \<Rightarrow> exn + agent_variant" where
  "register_variant_for_policy v i new_version =
     (if new_version = variant_version v then Inl PublicationError
      else if i \<in> set (policy_identities v) then Inl PublicationError
      else if new_version = [] then Inl ValueError
      else validate_policy_identities
        (v\<lparr>variant_version := new_version, policy_identities := policy_identities v @ [i]\<rparr>))"

text \<open>The checks of a candidate that publication does not touch.\<close>

lemma published_policy_fields:
  assumes "publish_recommendation_as_policy publication base v as_of = Inr p"
  shows "rp_version (rpol_identity p) \<noteq> rp_version (rpol_identity base)"
    and "rp_policy_id (rpol_identity p) = rp_policy_id (rpol_identity base)"
    and "rpol_hard_gates p = rpol_hard_gates base"
    and "rpol_deployment p = rpol_deployment base"
    and "rpol_model_requirements p = rpol_model_requirements base"
    and "rpol_allowed_variants p =
           Some [(pub_target_variant_id publication, pub_target_variant_version publication)]"
    and "pub_hard_gate_passed publication \<and> pub_quality_gate_passed publication
           \<and> as_of \<le> pub_valid_until publication"
  using assms by (auto simp: publish_recommendation_as_policy_def split: if_splits)

lemma registered_variant_fields:
  assumes "register_variant_for_policy v i new_version = Inr w"
  shows "w = v\<lparr>variant_version := new_version, policy_identities := policy_identities v @ [i]\<rparr>"
    and "variant_version v \<noteq> new_version" and "i \<notin> set (policy_identities v)"
  using assms
  by (auto simp: register_variant_for_policy_def validate_policy_identities_def split: if_splits)

text \<open>Fallback tries the policies in order and stops at the first selection: the attempts
  are those of a prefix, none before the last was SELECTED, and it is exhausted exactly
  when all policies were tried and none selected.\<close>

lemma fallback_takes_first:
  assumes "execute_pre_run_fallback d catalog s evidence as_of = Inr res"
  shows "length (fb_attempts res) \<le> length (fs_policies s)
     \<and> (\<forall>k < length (fb_attempts res). \<exists>r. select d catalog (fs_policies s ! k) evidence as_of = Inr r
          \<and> fb_attempts res ! k = attempt_of (Suc k) (fs_policies s ! k) r
          \<and> (rr_outcome r = SELECTED \<longleftrightarrow> fb_selected res = Some r \<and> Suc k = length (fb_attempts res)))
     \<and> (fb_exhausted res \<longleftrightarrow> fb_selected res = None)
     \<and> (fb_exhausted res \<longrightarrow> length (fb_attempts res) = length (fs_policies s))"
proof -
  let ?router = "\<lambda>p. select d catalog p evidence as_of"
  obtain sel where loop: "fallback_loop ?router 1 (fs_policies s) = Inr (fb_attempts res, sel)"
    and sel: "fb_selected res = sel" "fb_exhausted res \<longleftrightarrow> sel = None"
    using assms by (auto simp: execute_pre_run_fallback_def bindE_eq_Inr split: option.splits if_splits)
  have "\<exists>r. ?router (fs_policies s ! k) = Inr r \<and> fb_attempts res ! k = attempt_of (Suc k) (fs_policies s ! k) r
      \<and> (rr_outcome r = SELECTED \<longleftrightarrow> sel = Some r \<and> Suc k = length (fb_attempts res))"
    if "k < length (fb_attempts res)" for k
    using fallback_loop_prefix(2) [OF loop that] fallback_loop_prefix(4) [OF loop] by (auto simp: that)
  then show ?thesis using fallback_loop_prefix(1,3) [OF loop] sel by simp
qed

text \<open>A replacement relates a terminal Run to a different Run routed by a different
  decision; nothing else is recorded as a replacement.\<close>

lemma replacement_is_new_run:
  assumes "register_replacement_run pre suc pb sb reason = Inr rep"
  shows "is_terminal (run_status_of pre) \<and> run_id suc \<noteq> run_id pre
     \<and> bind_run_id pb = run_id pre \<and> bind_run_id sb = run_id suc \<and> bind_decision_id sb \<noteq> bind_decision_id pb
     \<and> rep_predecessor_run_id rep = run_id pre \<and> rep_successor_run_id rep = run_id suc
     \<and> rep_reason_code rep = reason \<and> is_routing_reason_code reason"
  using assms by (auto simp: register_replacement_run_def validate_replacement_def split: if_splits)

text \<open>Under a published policy the router can only select the recommended Variant.\<close>

lemma published_selection:
  assumes "publish_recommendation_as_policy publication base v now = Inr p"
    and "select d catalog p (Some evidence) as_of = Inr r" and "rr_decision r = Some rd"
  shows "pub_hard_gate_passed publication \<and> pub_quality_gate_passed publication \<and> now \<le> pub_valid_until publication
     \<and> rp_version (rpol_identity p) \<noteq> rp_version (rpol_identity base) \<and> rpol_hard_gates p = rpol_hard_gates base
     \<and> variant_identity (selected_variant rd) =
         (pub_target_variant_id publication, pub_target_variant_version publication)"
proof -
  note fields = published_policy_fields [OF assms(1)]
  have "rr_outcome r = SELECTED" using select_decision_iff [OF assms(2)] assms(3) by simp
  from selected_is_least [OF assms(2,3) this] show ?thesis
    using fields by (auto simp: admissible_def compat_ok_def Let_def)
qed

end
