(* ===== verification/Routing_Store.thy ===== *)
theory Routing_Store
  imports Router
begin

text \<open>
  The two stores of immutable routing decisions, \<open>companion/routing/_store.py\<close>: the
  in-memory store and the SQLite store, as operations that return the state they leave on
  both paths, and the contract they share as the locale \<open>decision_store\<close>. The canonical JSON
  text of a value (\<open>json.dumps(x.model_dump(mode="json"), sort_keys=True)\<close>) and its
  \<open>model_validate(json.loads(\<dots>))\<close> belong to Pydantic: they are the fields of
  \<open>routing_payloads\<close>, with the text type left open.
\<close>

record 't routing_payloads =
  pl_decision :: "routing_decision \<Rightarrow> 't"
  pl_evidence :: "routing_evidence \<Rightarrow> 't"
  pl_binding :: "routing_decision_binding \<Rightarrow> 't"
  pl_parse_decision :: "'t \<Rightarrow> exn + routing_decision"
  pl_parse_evidence :: "'t \<Rightarrow> exn + routing_evidence"
  pl_parse_binding :: "'t \<Rightarrow> exn + routing_decision_binding"

text \<open>Pydantic's documented round trip, on the values the store was given.\<close>

definition payloads_ok :: "'t routing_payloads \<Rightarrow> bool" where
  "payloads_ok pl \<longleftrightarrow>
     (\<forall>x. pl_parse_decision pl (pl_decision pl x) = Inr x)
     \<and> (\<forall>x. pl_parse_evidence pl (pl_evidence pl x) = Inr x)
     \<and> (\<forall>x. pl_parse_binding pl (pl_binding pl x) = Inr x)"

lemma payloads_ok_inj:
  assumes "payloads_ok pl"
  shows "pl_decision pl x = pl_decision pl x' \<longleftrightarrow> x = x'"
    and "pl_evidence pl e = pl_evidence pl e' \<longleftrightarrow> e = e'"
    and "pl_binding pl b = pl_binding pl b' \<longleftrightarrow> b = b'"
  using assms by (metis payloads_ok_def sum.inject(2))+

record stored_routing_decision =
  sd_decision :: routing_decision
  sd_evidence :: routing_evidence
  sd_run_bindings :: "routing_decision_binding list"

definition verify_pair :: "routing_digests \<Rightarrow> routing_decision \<Rightarrow> routing_evidence \<Rightarrow> exn + unit" where
  "verify_pair d decision evidence =
     (if rd_evidence_digest decision \<noteq> dg_evidence d evidence then Inl RoutingStoreError else Inr ())"

section \<open>The in-memory store\<close>

record memory_routing_store =
  mr_records :: "string \<Rightarrow> stored_routing_decision option"
  mr_order :: "string list"

definition memory_init :: memory_routing_store where
  "memory_init = \<lparr>mr_records = Map.empty, mr_order = []\<rparr>"

definition memory_save_decision ::
  "routing_digests \<Rightarrow> 't routing_payloads \<Rightarrow> routing_decision \<Rightarrow> routing_evidence
     \<Rightarrow> memory_routing_store \<Rightarrow> (exn + unit) \<times> memory_routing_store" where
  "memory_save_decision d pl decision evidence s =
     (case verify_pair d decision evidence of
        Inl e \<Rightarrow> (Inl e, s)
      | Inr _ \<Rightarrow>
     (case mr_records s (decision_id decision) of
        Some existing \<Rightarrow>
          if pl_decision pl (sd_decision existing) \<noteq> pl_decision pl decision
             \<or> pl_evidence pl (sd_evidence existing) \<noteq> pl_evidence pl evidence
          then (Inl RoutingDecisionConflictError, s) else (Inr (), s)
      | None \<Rightarrow> (Inr (), s\<lparr>mr_records := (mr_records s)(decision_id decision \<mapsto>
            \<lparr>sd_decision = decision, sd_evidence = evidence, sd_run_bindings = []\<rparr>),
          mr_order := mr_order s @ [decision_id decision]\<rparr>)))"

definition memory_load_decision ::
  "string \<Rightarrow> memory_routing_store \<Rightarrow> exn + stored_routing_decision option" where
  "memory_load_decision i s = Inr (mr_records s i)"

definition memory_attach_run_binding ::
  "string \<Rightarrow> routing_decision_binding \<Rightarrow> memory_routing_store \<Rightarrow> (exn + unit) \<times> memory_routing_store" where
  "memory_attach_run_binding i binding s =
     (case mr_records s i of
        None \<Rightarrow> (Inl RoutingStoreError, s)
      | Some r \<Rightarrow>
          if bind_decision_id binding \<noteq> i then (Inl RoutingStoreError, s)
          else if binding \<in> set (sd_run_bindings r) then (Inr (), s)
          else (Inr (), s\<lparr>mr_records := (mr_records s)(i \<mapsto>
            \<lparr>sd_decision = sd_decision r, sd_evidence = sd_evidence r,
             sd_run_bindings = sd_run_bindings r @ [binding]\<rparr>)\<rparr>))"

definition memory_decision_ids :: "memory_routing_store \<Rightarrow> string list" where
  "memory_decision_ids s = mr_order s"

section \<open>The SQLite store\<close>

text \<open>
  The rows of the two tables in rowid order. Each mutation is one immediate transaction: an
  exception rolls it back, so the tables are those before the call.
\<close>

record 't sqlite_routing_store =
  sq_decisions :: "(string \<times> 't \<times> 't) list"
  sq_bindings :: "((string \<times> ident) \<times> 't) list"

definition sqlite_init :: "'t sqlite_routing_store" where
  "sqlite_init = \<lparr>sq_decisions = [], sq_bindings = []\<rparr>"

definition sqlite_save_decision ::
  "routing_digests \<Rightarrow> 't routing_payloads \<Rightarrow> routing_decision \<Rightarrow> routing_evidence
     \<Rightarrow> 't sqlite_routing_store \<Rightarrow> (exn + unit) \<times> 't sqlite_routing_store" where
  "sqlite_save_decision d pl decision evidence s =
     (case verify_pair d decision evidence of
        Inl e \<Rightarrow> (Inl e, s)
      | Inr _ \<Rightarrow>
     (case map_of (sq_decisions s) (decision_id decision) of
        Some (dj, ej) \<Rightarrow>
          if dj \<noteq> pl_decision pl decision \<or> ej \<noteq> pl_evidence pl evidence
          then (Inl RoutingDecisionConflictError, s) else (Inr (), s)
      | None \<Rightarrow> (Inr (), s\<lparr>sq_decisions := sq_decisions s @
          [(decision_id decision, pl_decision pl decision, pl_evidence pl evidence)]\<rparr>)))"

definition binding_rows :: "string \<Rightarrow> 't sqlite_routing_store \<Rightarrow> ((string \<times> ident) \<times> 't) list" where
  "binding_rows i s = filter (\<lambda>row. fst (fst row) = i) (sq_bindings s)"

definition sqlite_load_decision ::
  "'t routing_payloads \<Rightarrow> string \<Rightarrow> 't sqlite_routing_store \<Rightarrow> exn + stored_routing_decision option" where
  "sqlite_load_decision pl i s =
     (case map_of (sq_decisions s) i of
        None \<Rightarrow> Inr None
      | Some (dj, ej) \<Rightarrow>
          bindE (pl_parse_decision pl dj) (\<lambda>decision.
          bindE (pl_parse_evidence pl ej) (\<lambda>evidence.
          bindE (mapE (\<lambda>row. pl_parse_binding pl (snd row))
                   (sort_key (\<lambda>row. snd (fst row)) (binding_rows i s))) (\<lambda>bindings.
          Inr (Some \<lparr>sd_decision = decision, sd_evidence = evidence, sd_run_bindings = bindings\<rparr>)))))"

definition sqlite_attach_run_binding ::
  "'t routing_payloads \<Rightarrow> string \<Rightarrow> routing_decision_binding \<Rightarrow> 't sqlite_routing_store
     \<Rightarrow> (exn + unit) \<times> 't sqlite_routing_store" where
  "sqlite_attach_run_binding pl i binding s =
     (if bind_decision_id binding \<noteq> i then (Inl RoutingStoreError, s)
      else case map_of (sq_decisions s) i of
        None \<Rightarrow> (Inl RoutingStoreError, s)
      | Some _ \<Rightarrow>
     (case map_of (sq_bindings s) (i, bind_run_id binding) of
        None \<Rightarrow> (Inr (), s\<lparr>sq_bindings := sq_bindings s @
            [((i, bind_run_id binding), pl_binding pl binding)]\<rparr>)
      | Some bj \<Rightarrow>
          if bj \<noteq> pl_binding pl binding then (Inl RoutingDecisionConflictError, s) else (Inr (), s)))"

definition sqlite_decision_ids :: "'t sqlite_routing_store \<Rightarrow> string list" where
  "sqlite_decision_ids s = map fst (sq_decisions s)"

section \<open>The shared contract\<close>

text \<open>
  A store is an append-only map from decision ids to facts. The client reads only what
  \<open>load\<close> returns, for the states in which the store's invariant holds.
\<close>

datatype decision_cmd =
    SaveDecision routing_decision routing_evidence
  | AttachBinding string routing_decision_binding

locale decision_store =
  fixes exec :: "decision_cmd \<Rightarrow> 's \<Rightarrow> (exn + unit) \<times> 's"
    and load :: "string \<Rightarrow> 's \<Rightarrow> exn + stored_routing_decision option"
    and ids :: "'s \<Rightarrow> string list"
    and inv :: "'s \<Rightarrow> bool"
    and paired :: "routing_decision \<Rightarrow> routing_evidence \<Rightarrow> bool"
  assumes exec_inv: "inv s \<Longrightarrow> inv (snd (exec c s))"
    and load_total: "inv s \<Longrightarrow> \<exists>r. load i s = Inr r"
    and ids_loaded: "inv s \<Longrightarrow> i \<in> set (ids s) \<longleftrightarrow> load i s \<noteq> Inr None"
    and failed: "exec c s = (Inl e, s') \<Longrightarrow> s' = s"
    and save_fresh: "inv s \<Longrightarrow> load (decision_id x) s = Inr None \<Longrightarrow> paired x ev \<Longrightarrow>
          fst (exec (SaveDecision x ev) s) = Inr ()
          \<and> load (decision_id x) (snd (exec (SaveDecision x ev) s)) =
              Inr (Some \<lparr>sd_decision = x, sd_evidence = ev, sd_run_bindings = []\<rparr>)
          \<and> ids (snd (exec (SaveDecision x ev) s)) = ids s @ [decision_id x]"
    and save_known: "inv s \<Longrightarrow> load (decision_id x) s = Inr (Some r) \<Longrightarrow> paired x ev \<Longrightarrow>
          exec (SaveDecision x ev) s =
            (if sd_decision r = x \<and> sd_evidence r = ev then Inr () else Inl RoutingDecisionConflictError, s)"
    and save_unpaired: "\<not> paired x ev \<Longrightarrow> exec (SaveDecision x ev) s = (Inl RoutingStoreError, s)"
    and save_frame: "inv s \<Longrightarrow> j \<noteq> decision_id x \<Longrightarrow> load j (snd (exec (SaveDecision x ev) s)) = load j s"
    and attach_rejected: "inv s \<Longrightarrow> load i s = Inr None \<or> bind_decision_id b \<noteq> i \<Longrightarrow>
          exec (AttachBinding i b) s = (Inl RoutingStoreError, s)"
    and attach_known: "inv s \<Longrightarrow> load i s = Inr (Some r) \<Longrightarrow> exec (AttachBinding i b) s = (Inr (), s') \<Longrightarrow>
          \<exists>bs. load i s' = Inr (Some (r\<lparr>sd_run_bindings := bs\<rparr>))
            \<and> set bs = insert b (set (sd_run_bindings r))"
    and attach_frame: "inv s \<Longrightarrow> j \<noteq> i \<Longrightarrow> load j (snd (exec (AttachBinding i b) s)) = load j s"
    and attach_ids: "ids (snd (exec (AttachBinding i b) s)) = ids s"
begin

lemma run_all_inv: "inv s \<Longrightarrow> inv (run_all exec cs s)"
  by (induction cs arbitrary: s) (auto simp: exec_inv)

lemma step_keeps_fact:
  assumes "inv s" and "load i s = Inr (Some r)"
  shows "\<exists>bs. load i (snd (exec c s)) = Inr (Some (r\<lparr>sd_run_bindings := bs\<rparr>))
           \<and> set (sd_run_bindings r) \<subseteq> set bs"
proof (cases c)
  case (SaveDecision x ev)
  have same: "r\<lparr>sd_run_bindings := sd_run_bindings r\<rparr> = r" by simp
  have "load i (snd (exec c s)) = Inr (Some r)"
  proof (cases "decision_id x = i \<and> paired x ev")
    case True
    then show ?thesis using save_known [OF assms(1), of x r ev] assms(2) SaveDecision by auto
  next
    case False
    then show ?thesis using save_unpaired [of x ev s] save_frame [OF assms(1), of i x ev] assms(2) SaveDecision
      by auto
  qed
  then show ?thesis using same by (metis order_refl)
next
  case (AttachBinding j b)
  obtain res s' where e: "exec c s = (res, s')" by (cases "exec c s")
  have same: "r\<lparr>sd_run_bindings := sd_run_bindings r\<rparr> = r" by simp
  show ?thesis
  proof (cases res)
    case (Inl x)
    then show ?thesis using failed e assms(2) same by (metis order_refl snd_conv)
  next
    case (Inr u)
    show ?thesis
    proof (cases "i = j")
      case True
      then have "exec (AttachBinding i b) s = (Inr (), s')" using e AttachBinding Inr by simp
      from attach_known [OF assms this] show ?thesis using e by auto
    next
      case False
      then have "load i (snd (exec c s)) = Inr (Some r)"
        using attach_frame [OF assms(1), of i j b] AttachBinding assms(2) by simp
      then show ?thesis using same by (metis order_refl)
    qed
  qed
qed

lemma facts_are_immutable:
  assumes "inv s" and "load i s = Inr (Some r)"
  shows "\<exists>bs. load i (run_all exec cs s) = Inr (Some (r\<lparr>sd_run_bindings := bs\<rparr>))
           \<and> set (sd_run_bindings r) \<subseteq> set bs"
  using assms
proof (induction cs arbitrary: s r)
  case Nil
  have "r\<lparr>sd_run_bindings := sd_run_bindings r\<rparr> = r" by simp
  with Nil show ?case by (metis run_all.simps(1) order_refl)
next
  case (Cons c cs)
  obtain bs where "load i (snd (exec c s)) = Inr (Some (r\<lparr>sd_run_bindings := bs\<rparr>))"
    and sub: "set (sd_run_bindings r) \<subseteq> set bs" using step_keeps_fact [OF Cons.prems] by blast
  from Cons.IH [OF exec_inv [OF Cons.prems(1)] this(1)] sub show ?case by auto
qed

lemma save_then_load:
  assumes "inv s" and "paired x ev" and "load (decision_id x) s = Inr None"
  shows "\<exists>bs. load (decision_id x) (run_all exec (SaveDecision x ev # cs) s) =
           Inr (Some \<lparr>sd_decision = x, sd_evidence = ev, sd_run_bindings = bs\<rparr>)"
  using facts_are_immutable [OF exec_inv [OF assms(1)]] save_fresh [OF assms(1,3,2)] by fastforce

end

section \<open>Both stores keep the contract\<close>

definition paired :: "routing_digests \<Rightarrow> routing_decision \<Rightarrow> routing_evidence \<Rightarrow> bool" where
  "paired d x ev \<longleftrightarrow> rd_evidence_digest x = dg_evidence d ev"

fun memory_exec ::
  "routing_digests \<Rightarrow> 't routing_payloads \<Rightarrow> decision_cmd \<Rightarrow> memory_routing_store
     \<Rightarrow> (exn + unit) \<times> memory_routing_store" where
  "memory_exec d pl (SaveDecision x ev) s = memory_save_decision d pl x ev s"
| "memory_exec d pl (AttachBinding i b) s = memory_attach_run_binding i b s"

fun sqlite_exec ::
  "routing_digests \<Rightarrow> 't routing_payloads \<Rightarrow> decision_cmd \<Rightarrow> 't sqlite_routing_store
     \<Rightarrow> (exn + unit) \<times> 't sqlite_routing_store" where
  "sqlite_exec d pl (SaveDecision x ev) s = sqlite_save_decision d pl x ev s"
| "sqlite_exec d pl (AttachBinding i b) s = sqlite_attach_run_binding pl i b s"

definition memory_routing_inv :: "'t routing_payloads \<Rightarrow> memory_routing_store \<Rightarrow> bool" where
  "memory_routing_inv pl s \<longleftrightarrow> payloads_ok pl \<and> set (mr_order s) = dom (mr_records s)"

lemmas memory_routing_defs =
  memory_save_decision_def memory_attach_run_binding_def memory_load_decision_def
  memory_decision_ids_def verify_pair_def paired_def

interpretation memory_decisions: decision_store
  "memory_exec d pl" memory_load_decision memory_decision_ids "memory_routing_inv pl" "paired d"
proof
  fix s c assume "memory_routing_inv pl s"
  then show "memory_routing_inv pl (snd (memory_exec d pl c s))"
    by (cases c) (auto simp: memory_routing_defs memory_routing_inv_def split: option.splits if_splits sum.splits)
next
  fix c s e s' assume "memory_exec d pl c s = (Inl e, s')"
  then show "s' = s"
    by (cases c) (auto simp: memory_routing_defs split: option.splits if_splits sum.splits)
next
  fix s x r ev
  assume "memory_routing_inv pl s" "memory_load_decision (decision_id x) s = Inr (Some r)" "paired d x ev"
  then show "memory_exec d pl (SaveDecision x ev) s =
      (if sd_decision r = x \<and> sd_evidence r = ev then Inr () else Inl RoutingDecisionConflictError, s)"
    by (auto simp: memory_routing_defs memory_routing_inv_def payloads_ok_inj)
next
  fix s i r b s'
  assume "memory_load_decision i s = Inr (Some r)" "memory_exec d pl (AttachBinding i b) s = (Inr (), s')"
  then show "\<exists>bs. memory_load_decision i s' = Inr (Some (r\<lparr>sd_run_bindings := bs\<rparr>))
      \<and> set bs = insert b (set (sd_run_bindings r))"
    by (cases r; cases "b \<in> set (sd_run_bindings r)")
      (auto simp: memory_routing_defs split: if_splits intro: exI [of _ "sd_run_bindings r"])
qed (auto simp: memory_routing_defs memory_routing_inv_def dom_def split: option.splits)

definition sqlite_routing_inv :: "'t routing_payloads \<Rightarrow> 't sqlite_routing_store \<Rightarrow> bool" where
  "sqlite_routing_inv pl s \<longleftrightarrow> payloads_ok pl
     \<and> (\<forall>(i, dj, ej) \<in> set (sq_decisions s). \<exists>x ev. dj = pl_decision pl x \<and> ej = pl_evidence pl ev)
     \<and> (\<forall>((i, rid), bj) \<in> set (sq_bindings s). \<exists>b. bj = pl_binding pl b \<and> bind_run_id b = rid)
     \<and> (\<forall>((i, rid), bj) \<in> set (sq_bindings s). map_of (sq_decisions s) i \<noteq> None)"

text \<open>What a load decodes, when every row was written by the store.\<close>

definition loaded_bindings :: "'t routing_payloads \<Rightarrow> string \<Rightarrow> 't sqlite_routing_store \<Rightarrow> routing_decision_binding list" where
  "loaded_bindings pl i s =
     map (\<lambda>row. projr (pl_parse_binding pl (snd row))) (sort_key (\<lambda>row. snd (fst row)) (binding_rows i s))"

lemma sqlite_load_eq:
  assumes "sqlite_routing_inv pl s"
  shows "sqlite_load_decision pl i s =
     Inr (map_option (\<lambda>(dj, ej). \<lparr>sd_decision = projr (pl_parse_decision pl dj),
       sd_evidence = projr (pl_parse_evidence pl ej), sd_run_bindings = loaded_bindings pl i s\<rparr>)
       (map_of (sq_decisions s) i))"
proof (cases "map_of (sq_decisions s) i")
  case None
  then show ?thesis by (simp add: sqlite_load_decision_def)
next
  case (Some a)
  then have "(i, a) \<in> set (sq_decisions s)" by (rule map_of_SomeD)
  then obtain x ev where a: "a = (pl_decision pl x, pl_evidence pl ev)"
    using assms by (cases a) (fastforce simp: sqlite_routing_inv_def)
  have "mapE (\<lambda>row. pl_parse_binding pl (snd row)) (sort_key (\<lambda>row. snd (fst row)) (binding_rows i s))
      = Inr (loaded_bindings pl i s)"
    unfolding loaded_bindings_def
    by (rule mapE_all_ok)
      (use assms in \<open>fastforce simp: binding_rows_def sqlite_routing_inv_def payloads_ok_def\<close>)
  then show ?thesis using assms Some a
    by (simp add: sqlite_load_decision_def sqlite_routing_inv_def payloads_ok_def)
qed

lemma binding_rows_append:
  "binding_rows j (s\<lparr>sq_bindings := sq_bindings s @ [((i, rid), bj)]\<rparr>) =
     (if j = i then binding_rows j s @ [((i, rid), bj)] else binding_rows j s)"
  by (simp add: binding_rows_def)

lemma set_loaded_bindings_append:
  "set (loaded_bindings pl j (s\<lparr>sq_bindings := sq_bindings s @ [((i, rid), bj)]\<rparr>)) =
     (if j = i then insert (projr (pl_parse_binding pl bj)) (set (loaded_bindings pl j s))
      else set (loaded_bindings pl j s))"
  by (auto simp: loaded_bindings_def binding_rows_append)

lemma loaded_bindings_frame:
  "j \<noteq> i \<Longrightarrow> loaded_bindings pl j (s\<lparr>sq_bindings := sq_bindings s @ [((i, rid), bj)]\<rparr>) = loaded_bindings pl j s"
  "loaded_bindings pl j (s\<lparr>sq_decisions := xs\<rparr>) = loaded_bindings pl j s"
  by (simp_all add: loaded_bindings_def binding_rows_append) (simp add: binding_rows_def)

lemma stored_binding_loaded:
  assumes "payloads_ok pl" and "((i, rid), pl_binding pl b) \<in> set (sq_bindings s)"
  shows "b \<in> set (loaded_bindings pl i s)"
proof -
  have "((i, rid), pl_binding pl b) \<in> set (sort_key (\<lambda>row. snd (fst row)) (binding_rows i s))"
    using assms(2) by (simp add: binding_rows_def)
  then have "projr (pl_parse_binding pl (pl_binding pl b)) \<in> set (loaded_bindings pl i s)"
    unfolding loaded_bindings_def by force
  then show ?thesis using assms(1) by (simp add: payloads_ok_def)
qed

lemma no_bindings_without_decision:
  assumes "sqlite_routing_inv pl s" and "map_of (sq_decisions s) i = None"
  shows "loaded_bindings pl i s = []"
proof -
  have "binding_rows i s = []"
    using assms by (fastforce simp: binding_rows_def filter_empty_conv sqlite_routing_inv_def)
  then show ?thesis by (simp add: loaded_bindings_def)
qed

lemmas sqlite_routing_defs =
  sqlite_save_decision_def sqlite_attach_run_binding_def sqlite_decision_ids_def verify_pair_def paired_def

lemma sqlite_exec_inv: "sqlite_routing_inv pl s \<Longrightarrow> sqlite_routing_inv pl (snd (sqlite_exec d pl c s))"
  by (cases c)
    (auto simp: sqlite_routing_defs sqlite_routing_inv_def map_add_def split: option.splits if_splits sum.splits)

lemma sqlite_save_fresh:
  assumes inv: "sqlite_routing_inv pl s" and new: "sqlite_load_decision pl (decision_id x) s = Inr None"
    and pair: "paired d x ev"
  shows "fst (sqlite_exec d pl (SaveDecision x ev) s) = Inr ()"
    and "sqlite_load_decision pl (decision_id x) (snd (sqlite_exec d pl (SaveDecision x ev) s)) =
          Inr (Some \<lparr>sd_decision = x, sd_evidence = ev, sd_run_bindings = []\<rparr>)"
    and "sqlite_decision_ids (snd (sqlite_exec d pl (SaveDecision x ev) s)) = sqlite_decision_ids s @ [decision_id x]"
proof -
  have none: "map_of (sq_decisions s) (decision_id x) = None" using new by (simp add: sqlite_load_eq [OF inv])
  then show "fst (sqlite_exec d pl (SaveDecision x ev) s) = Inr ()"
    and "sqlite_decision_ids (snd (sqlite_exec d pl (SaveDecision x ev) s)) = sqlite_decision_ids s @ [decision_id x]"
    using pair by (simp_all add: sqlite_routing_defs)
  show "sqlite_load_decision pl (decision_id x) (snd (sqlite_exec d pl (SaveDecision x ev) s)) =
          Inr (Some \<lparr>sd_decision = x, sd_evidence = ev, sd_run_bindings = []\<rparr>)"
    using none pair inv no_bindings_without_decision [OF inv none]
      sqlite_load_eq [OF sqlite_exec_inv [OF inv], of "decision_id x" d "SaveDecision x ev"]
    by (simp add: sqlite_routing_defs loaded_bindings_frame map_add_def sqlite_routing_inv_def payloads_ok_def)
qed

lemma sqlite_save_known:
  assumes inv: "sqlite_routing_inv pl s" and known: "sqlite_load_decision pl (decision_id x) s = Inr (Some r)"
    and pair: "paired d x ev"
  shows "sqlite_exec d pl (SaveDecision x ev) s =
      (if sd_decision r = x \<and> sd_evidence r = ev then Inr () else Inl RoutingDecisionConflictError, s)"
proof -
  obtain a where a: "map_of (sq_decisions s) (decision_id x) = Some a"
    using known by (auto simp: sqlite_load_eq [OF inv])
  obtain y ev' where row: "a = (pl_decision pl y, pl_evidence pl ev')"
    using inv map_of_SomeD [OF a] by (cases a) (fastforce simp: sqlite_routing_inv_def)
  have ok: "payloads_ok pl" using inv by (simp add: sqlite_routing_inv_def)
  have "sd_decision r = y" "sd_evidence r = ev'"
    using known a row ok by (auto simp: sqlite_load_eq [OF inv] payloads_ok_def)
  then show ?thesis using a row pair payloads_ok_inj [OF ok] by (simp add: sqlite_routing_defs)
qed

lemma sqlite_attach_known:
  assumes inv: "sqlite_routing_inv pl s" and known: "sqlite_load_decision pl i s = Inr (Some r)"
    and ok: "sqlite_exec d pl (AttachBinding i b) s = (Inr (), s')"
  shows "sqlite_load_decision pl i s' = Inr (Some (r\<lparr>sd_run_bindings := loaded_bindings pl i s'\<rparr>))"
    and "set (loaded_bindings pl i s') = insert b (set (sd_run_bindings r))"
proof -
  have pok: "payloads_ok pl" using inv by (simp add: sqlite_routing_inv_def)
  have inv': "sqlite_routing_inv pl s'" using sqlite_exec_inv [OF inv, of d "AttachBinding i b"] ok by simp
  have bs: "sd_run_bindings r = loaded_bindings pl i s" using known by (auto simp: sqlite_load_eq [OF inv])
  have same: "sq_decisions s' = sq_decisions s"
    using ok by (auto simp: sqlite_routing_defs split: option.splits if_splits)
  then show "sqlite_load_decision pl i s' = Inr (Some (r\<lparr>sd_run_bindings := loaded_bindings pl i s'\<rparr>))"
    using known by (auto simp: sqlite_load_eq [OF inv] sqlite_load_eq [OF inv'])
  show "set (loaded_bindings pl i s') = insert b (set (sd_run_bindings r))"
  proof (cases "map_of (sq_bindings s) (i, bind_run_id b)")
    case None
    then show ?thesis using ok pok bs
      by (auto simp: sqlite_routing_defs set_loaded_bindings_append payloads_ok_def split: option.splits if_splits)
  next
    case (Some bj)
    then have "bj = pl_binding pl b" and "s' = s"
      using ok by (auto simp: sqlite_routing_defs split: option.splits if_splits)
    then show ?thesis
      using stored_binding_loaded [OF pok, of i "bind_run_id b" b s] map_of_SomeD [OF Some] bs by auto
  qed
qed

lemma sqlite_frame:
  assumes inv: "sqlite_routing_inv pl s"
  shows "j \<noteq> decision_id x \<Longrightarrow>
      sqlite_load_decision pl j (snd (sqlite_exec d pl (SaveDecision x ev) s)) = sqlite_load_decision pl j s"
    and "j \<noteq> i \<Longrightarrow>
      sqlite_load_decision pl j (snd (sqlite_exec d pl (AttachBinding i b) s)) = sqlite_load_decision pl j s"
  using sqlite_load_eq [OF inv, of j] sqlite_load_eq [OF sqlite_exec_inv [OF inv], of j d "SaveDecision x ev"]
    sqlite_load_eq [OF sqlite_exec_inv [OF inv], of j d "AttachBinding i b"]
  by (auto simp: sqlite_routing_defs loaded_bindings_frame map_add_def split: option.splits if_splits sum.splits)

interpretation sqlite_decisions: decision_store
  "sqlite_exec d pl" "sqlite_load_decision pl" sqlite_decision_ids "sqlite_routing_inv pl" "paired d"
proof
  fix s i assume inv: "sqlite_routing_inv pl s"
  show "\<exists>r. sqlite_load_decision pl i s = Inr r" by (simp add: sqlite_load_eq [OF inv])
  show "i \<in> set (sqlite_decision_ids s) \<longleftrightarrow> sqlite_load_decision pl i s \<noteq> Inr None"
    by (simp add: sqlite_load_eq [OF inv] sqlite_decision_ids_def map_of_eq_None_iff)
next
  fix c s e s' assume "sqlite_exec d pl c s = (Inl e, s')"
  then show "s' = s"
    by (cases c) (auto simp: sqlite_routing_defs split: option.splits if_splits sum.splits)
next
  fix s i and b :: routing_decision_binding
  assume "sqlite_routing_inv pl s" and "sqlite_load_decision pl i s = Inr None \<or> bind_decision_id b \<noteq> i"
  then show "sqlite_exec d pl (AttachBinding i b) s = (Inl RoutingStoreError, s)"
    by (auto simp: sqlite_routing_defs sqlite_load_eq)
next
  show "\<not> paired d x ev \<Longrightarrow> sqlite_exec d pl (SaveDecision x ev) s = (Inl RoutingStoreError, s)" for x ev s
    by (simp add: sqlite_routing_defs)
  show "sqlite_decision_ids (snd (sqlite_exec d pl (AttachBinding i b) s)) = sqlite_decision_ids s" for i b s
    by (simp add: sqlite_routing_defs split: option.splits)
qed (use sqlite_attach_known in \<open>simp_all add: sqlite_exec_inv sqlite_save_fresh sqlite_save_known sqlite_frame
  del: sqlite_exec.simps, blast+\<close>)

section \<open>The two stores behave alike\<close>

text \<open>
  The in-memory store accepts several bindings of one Run to a decision, the SQLite store
  only one. On sequences that bind a Run to a decision in one way only, the stores answer
  alike and hold the same facts; only the order of the loaded bindings differs.
\<close>

definition same_facts ::
  "'t routing_payloads \<Rightarrow> memory_routing_store \<Rightarrow> 't sqlite_routing_store \<Rightarrow> bool" where
  "same_facts pl m q \<longleftrightarrow>
     mr_order m = sqlite_decision_ids q
     \<and> (\<forall>i. map_of (sq_decisions q) i =
          map_option (\<lambda>r. (pl_decision pl (sd_decision r), pl_evidence pl (sd_evidence r))) (mr_records m i))
     \<and> (\<forall>i. binding_rows i q =
          (case mr_records m i of None \<Rightarrow> []
           | Some r \<Rightarrow> map (\<lambda>b. ((i, bind_run_id b), pl_binding pl b)) (sd_run_bindings r)))"

definition rebinds :: "memory_routing_store \<Rightarrow> decision_cmd \<Rightarrow> bool" where
  "rebinds m c \<longleftrightarrow> (\<exists>i b r b'. c = AttachBinding i b \<and> mr_records m i = Some r \<and> b' \<in> set (sd_run_bindings r)
     \<and> bind_run_id b' = bind_run_id b \<and> b' \<noteq> b)"

lemma map_of_binding_rows: "map_of (sq_bindings q) (i, rid) = map_of (binding_rows i q) (i, rid)"
proof -
  have "map_of xs (i, rid) = map_of (filter (\<lambda>row. fst (fst row) = i) xs) (i, rid)"
    for xs :: "((string \<times> ident) \<times> 'a) list"
    by (induction xs) auto
  then show ?thesis by (simp add: binding_rows_def)
qed

lemma find_unique:
  "(\<And>y. y \<in> set xs \<Longrightarrow> f y = f x \<Longrightarrow> y = x) \<Longrightarrow>
     find (\<lambda>y. f y = f x) xs = (if x \<in> set xs then Some x else None)"
  by (induction xs) auto

lemma binding_rows_decisions [simp]: "binding_rows i (s\<lparr>sq_decisions := xs\<rparr>) = binding_rows i s"
  by (simp add: binding_rows_def)

lemma map_of_snoc: "map_of xs k = None \<Longrightarrow> [k \<mapsto> v] ++ map_of xs = (map_of xs)(k \<mapsto> v)"
  by (auto simp: map_add_def fun_eq_iff split: option.splits)

lemma sort_key_map: "sort_key f (map g xs) = map g (sort_key (f \<circ> g) xs)"
proof -
  have "insort_key f (g x) (map g ys) = map g (insort_key (f \<circ> g) x ys)" for x ys
    by (induction ys) auto
  then show ?thesis by (induction xs) simp_all
qed

lemma map_of_bound_runs:
  "map_of (map (\<lambda>b. ((i, bind_run_id b), f b)) bs) (i, rid) =
     map_option f (find (\<lambda>b. bind_run_id b = rid) bs)"
  by (induction bs) auto

lemma same_facts_save:
  assumes ok: "payloads_ok pl" and same: "same_facts pl m q"
  shows "fst (memory_exec d pl (SaveDecision x ev) m) = fst (sqlite_exec d pl (SaveDecision x ev) q)"
    and "same_facts pl (snd (memory_exec d pl (SaveDecision x ev) m)) (snd (sqlite_exec d pl (SaveDecision x ev) q))"
proof -
  have row: "map_of (sq_decisions q) (decision_id x) = map_option
      (\<lambda>r. (pl_decision pl (sd_decision r), pl_evidence pl (sd_evidence r))) (mr_records m (decision_id x))"
    using same by (simp add: same_facts_def)
  show "fst (memory_exec d pl (SaveDecision x ev) m) = fst (sqlite_exec d pl (SaveDecision x ev) q)"
    using row by (auto simp: memory_save_decision_def sqlite_save_decision_def split: option.splits sum.splits)
  show "same_facts pl (snd (memory_exec d pl (SaveDecision x ev) m)) (snd (sqlite_exec d pl (SaveDecision x ev) q))"
  proof (cases "verify_pair d x ev = Inr () \<and> mr_records m (decision_id x) = None")
    case True
    then have "binding_rows (decision_id x) q = []" using same by (simp add: same_facts_def)
    then show ?thesis using True row same
      by (simp add: memory_save_decision_def sqlite_save_decision_def same_facts_def sqlite_decision_ids_def map_of_snoc)
  next
    case False
    then have "snd (memory_exec d pl (SaveDecision x ev) m) = m" "snd (sqlite_exec d pl (SaveDecision x ev) q) = q"
      using row by (auto simp: memory_save_decision_def sqlite_save_decision_def split: sum.splits option.splits)
    then show ?thesis using same by simp
  qed
qed

lemma same_facts_attach:
  assumes ok: "payloads_ok pl" and same: "same_facts pl m q" and once: "\<not> rebinds m (AttachBinding i b)"
  shows "fst (memory_exec d pl (AttachBinding i b) m) = fst (sqlite_exec d pl (AttachBinding i b) q)"
    and "same_facts pl (snd (memory_exec d pl (AttachBinding i b) m)) (snd (sqlite_exec d pl (AttachBinding i b) q))"
proof -
  have row: "map_of (sq_decisions q) i = map_option
      (\<lambda>r. (pl_decision pl (sd_decision r), pl_evidence pl (sd_evidence r))) (mr_records m i)"
    using same by (simp add: same_facts_def)
  have bound: "map_of (sq_bindings q) (i, bind_run_id b) =
      (if b \<in> set (sd_run_bindings r) then Some (pl_binding pl b) else None)"
    if "mr_records m i = Some r" for r
  proof -
    have "binding_rows i q = map (\<lambda>b. ((i, bind_run_id b), pl_binding pl b)) (sd_run_bindings r)"
      using same that by (simp add: same_facts_def)
    then have find: "map_of (sq_bindings q) (i, bind_run_id b) =
        map_option (pl_binding pl) (find (\<lambda>b'. bind_run_id b' = bind_run_id b) (sd_run_bindings r))"
      by (simp add: map_of_binding_rows map_of_bound_runs)
    have "b' = b" if "b' \<in> set (sd_run_bindings r)" "bind_run_id b' = bind_run_id b" for b'
      using once that \<open>mr_records m i = Some r\<close> by (auto simp: rebinds_def)
    then have "find (\<lambda>b'. bind_run_id b' = bind_run_id b) (sd_run_bindings r) =
        (if b \<in> set (sd_run_bindings r) then Some b else None)"
      by (rule find_unique)
    then show ?thesis unfolding find by simp
  qed
  show "fst (memory_exec d pl (AttachBinding i b) m) = fst (sqlite_exec d pl (AttachBinding i b) q)"
    using row bound
    by (auto simp: memory_attach_run_binding_def sqlite_attach_run_binding_def split: option.splits)
  show "same_facts pl (snd (memory_exec d pl (AttachBinding i b) m)) (snd (sqlite_exec d pl (AttachBinding i b) q))"
  proof (cases "\<exists>r. mr_records m i = Some r \<and> bind_decision_id b = i \<and> b \<notin> set (sd_run_bindings r)")
    case True
    then obtain r where r: "mr_records m i = Some r" "bind_decision_id b = i" "b \<notin> set (sd_run_bindings r)" by blast
    then show ?thesis using row bound [OF r(1)] same
      by (simp add: memory_attach_run_binding_def sqlite_attach_run_binding_def same_facts_def
        sqlite_decision_ids_def binding_rows_append)
  next
    case False
    then have "snd (memory_exec d pl (AttachBinding i b) m) = m" "snd (sqlite_exec d pl (AttachBinding i b) q) = q"
      using row bound by (auto simp: memory_attach_run_binding_def sqlite_attach_run_binding_def split: option.splits)
    then show ?thesis using same by simp
  qed
qed

lemma same_facts_step:
  assumes "payloads_ok pl" and "same_facts pl m q" and "\<not> rebinds m c"
  shows "fst (memory_exec d pl c m) = fst (sqlite_exec d pl c q)"
    and "same_facts pl (snd (memory_exec d pl c m)) (snd (sqlite_exec d pl c q))"
proof -
  show "fst (memory_exec d pl c m) = fst (sqlite_exec d pl c q)"
    using same_facts_save(1) [OF assms(1,2)] same_facts_attach(1) [OF assms(1,2)] assms(3) by (cases c) blast+
  show "same_facts pl (snd (memory_exec d pl c m)) (snd (sqlite_exec d pl c q))"
    using same_facts_save(2) [OF assms(1,2)] same_facts_attach(2) [OF assms(1,2)] assms(3) by (cases c) blast+
qed

lemma same_facts_init: "same_facts pl memory_init sqlite_init"
  by (simp add: same_facts_def memory_init_def sqlite_init_def sqlite_decision_ids_def binding_rows_def)

text \<open>What related stores return for a decision.\<close>

lemma same_facts_load:
  assumes "payloads_ok pl" and "same_facts pl m q"
  shows "sqlite_load_decision pl i q =
     Inr (map_option (\<lambda>r. r\<lparr>sd_run_bindings := sort_key bind_run_id (sd_run_bindings r)\<rparr>) (mr_records m i))"
proof (cases "mr_records m i")
  case None
  then show ?thesis using assms(2) by (simp add: sqlite_load_decision_def same_facts_def)
next
  case (Some r)
  have row: "map_of (sq_decisions q) i = Some (pl_decision pl (sd_decision r), pl_evidence pl (sd_evidence r))"
    and rows: "binding_rows i q = map (\<lambda>b. ((i, bind_run_id b), pl_binding pl b)) (sd_run_bindings r)"
    using assms(2) Some by (simp_all add: same_facts_def)
  have sorted: "sort_key (\<lambda>row. snd (fst row)) (map (\<lambda>b. ((i, bind_run_id b), pl_binding pl b)) bs) =
      map (\<lambda>b. ((i, bind_run_id b), pl_binding pl b)) (sort_key bind_run_id bs)" for bs
    using sort_key_map [of "\<lambda>row. snd (fst row)" "\<lambda>b. ((i, bind_run_id b), pl_binding pl b)" bs]
    by (simp add: comp_def)
  have parse: "mapE (\<lambda>row. pl_parse_binding pl (snd row))
      (map (\<lambda>b. ((i, bind_run_id b), pl_binding pl b)) bs) = Inr bs" for bs
    using assms(1) by (induction bs) (simp_all add: payloads_ok_def)
  show ?thesis using Some row rows sorted parse assms(1)
    by (simp add: sqlite_load_decision_def payloads_ok_def)
qed

text \<open>Binding a Run twice with different contents: accepted in memory, a conflict in SQLite.\<close>

lemma second_binding_diverges:
  assumes "payloads_ok pl" and "same_facts pl m q" and "mr_records m i = Some r"
    and "b' \<in> set (sd_run_bindings r)" and "bind_run_id b' = bind_run_id b"
    and "b \<notin> set (sd_run_bindings r)" and "bind_decision_id b = i"
  shows "fst (memory_attach_run_binding i b m) = Inr ()
     \<and> fst (sqlite_attach_run_binding pl i b q) = Inl RoutingDecisionConflictError"
proof -
  have rows: "binding_rows i q = map (\<lambda>b. ((i, bind_run_id b), pl_binding pl b)) (sd_run_bindings r)"
    and known: "map_of (sq_decisions q) i \<noteq> None"
    using assms(2,3) by (simp_all add: same_facts_def)
  obtain b0 where b0: "find (\<lambda>x. bind_run_id x = bind_run_id b) (sd_run_bindings r) = Some b0"
    using assms(4,5) by (cases "find (\<lambda>x. bind_run_id x = bind_run_id b) (sd_run_bindings r)") (auto simp: find_None_iff)
  then have "b0 \<in> set (sd_run_bindings r)" by (auto simp: find_Some_iff)
  then have "pl_binding pl b0 \<noteq> pl_binding pl b" using assms(1,6) by (auto simp: payloads_ok_inj)
  then show ?thesis using b0 rows known assms(3,6,7)
    by (auto simp: memory_attach_run_binding_def sqlite_attach_run_binding_def map_of_binding_rows map_of_bound_runs)
qed

end
