(* ===== verification/Examples.thy ===== *)
theory Examples
  imports Lease_Protocol Routing_Flow Routing_Store Session_Store
begin

text \<open>
  Concrete values at which the properties are exercised: a store environment with the
  plaintext codec, a Run, a store in which a worker holds its lease, and a small catalog
  with a policy and evidence.
\<close>

section \<open>A model contract and a definition\<close>

definition demo_contract :: model_contract where
  "demo_contract =
     \<lparr>contract_id = ''c'', contract_version = ''1'', revision_stability = PINNED,
      model_identity = ''m'', contract_capabilities = no_capabilities,
      limits = \<lparr>context_window_tokens = 100, max_output_tokens = 20\<rparr>,
      input_sizer_id = ''exact-1'', serialization_id = ''s'',
      usage_guarantees = \<lparr>g_input_tokens = OPTIONAL, g_output_tokens = OPTIONAL,
        g_cached_input_tokens = OPTIONAL, g_reasoning_tokens = OPTIONAL\<rparr>,
      fingerprint = Some ''fp'', configuration_fingerprint = None\<rparr>"

definition demo_requirements :: model_requirements where
  "demo_requirements =
     \<lparr>req_capabilities = no_capabilities, min_context_window_tokens = 1, min_output_tokens = 1\<rparr>"

definition demo_binding :: "model_purpose \<Rightarrow> model_binding" where
  "demo_binding p =
     \<lparr>purpose = p, binding_contract = demo_contract, binding_requirements = demo_requirements,
      adapter_configuration_fingerprint = None,
      source_purpose = (if p = PRIMARY then None else Some PRIMARY)\<rparr>"

definition demo_bindings :: model_binding_set where
  "demo_bindings = map demo_binding MODEL_PURPOSES"

definition demo_snapshot :: definition_snapshot where
  "demo_snapshot =
     \<lparr>snap_definition_id = ''d'', snap_version = ''1'', snap_instructions = ustr ''be brief'',
      snap_model_bindings = Some demo_bindings, snap_required_capabilities = None,
      snap_adapter_capabilities = None, snap_adapter_contract_fingerprint = ''fp'',
      snap_model_execution_budget = None, snap_has_context_provider = False,
      snap_tool_declarations = [], snap_retry_policy = None,
      snap_policy_identity = identity AllowAllRunPolicy, snap_output_contract = None,
      snap_context_plan = \<lparr>plan_stages = [], plan_version = ''1''\<rparr>,
      snap_compression_contract = None\<rparr>"

section \<open>A run store\<close>

text \<open>A snapshot is dumped as its instructions: the example stores only \<open>demo_snapshot\<close>.\<close>

definition demo_env :: store_env where
  "demo_env =
     \<lparr>env_encode = plaintext_encode, env_decode = plaintext_decode,
      env_dump_snapshot = snap_instructions,
      env_load_snapshot = (\<lambda>t. Inr (demo_snapshot\<lparr>snap_instructions := t\<rparr>)),
      env_dump_history = (\<lambda>_. []), env_load_history = (\<lambda>_. Inr [])\<rparr>"

definition demo_run :: "ident \<Rightarrow> run_record" where
  "demo_run rid =
     \<lparr>run_id = rid, run_definition_id = ''d'', run_definition_version = ''1'',
      run_input = ustr ''hello'', run_history = [], run_status_of = CREATED,
      run_snapshot = Some demo_snapshot, run_output = None, run_waiting_reason = None,
      run_waiting_step_id = None, run_error_code = None, run_version = 0,
      run_lease_owner = None, run_lease_expires_at = None, run_created_at = 0, run_updated_at = 0\<rparr>"

definition demo_move :: "run_status \<Rightarrow> ident option \<Rightarrow> transition_args" where
  "demo_move st ow =
     \<lparr>to_status = st, to_snapshot = None, to_output = None, to_waiting_reason = None,
      to_waiting_step_id = None, to_error_code = None, to_lease_owner = ow\<rparr>"

definition demo_cmds :: "store_cmd list" where
  "demo_cmds = [Create (demo_run ''r1''), Acquire 0 ''r1'' ''A'' 10 0]"

definition demo_store :: run_store where
  "demo_store = exec_cmds demo_env demo_cmds empty_store"

lemma demo_codec: "codec_ok demo_env"
  by (simp add: codec_ok_def demo_env_def plaintext.payload_codec_axioms)

lemma demo_env_simps [simp]:
  "env_encode demo_env = plaintext_encode" "env_decode demo_env = plaintext_decode"
  "env_dump_snapshot demo_env = snap_instructions"
  by (simp_all add: demo_env_def)

lemma demo_run_simps [simp]:
  "run_id (demo_run r) = r" "run_history (demo_run r) = []" "run_input (demo_run r) = ustr ''hello''"
  "run_output (demo_run r) = None" "run_snapshot (demo_run r) = Some demo_snapshot"
  by (simp_all add: demo_run_def)

lemma demo_snapshot_ok: "snapshot_ok demo_env (Some demo_snapshot)" "history_ok demo_env []"
  by (simp_all add: snapshot_ok_def history_ok_def) (simp add: demo_env_def)

lemma demo_cmds_ok: "list_all (cmd_ok demo_env) demo_cmds"
  by (simp add: demo_cmds_def demo_snapshot_ok)

lemma demo_payloads:
  obtains ps where "run_payloads demo_env (demo_run r) = Inr ps"
  by (simp add: run_payloads_def encode_field_def encode_optional_def append_entries_def plaintext_encode_def
      utf8_char_def demo_snapshot_def ustr_def)

lemma demo_created:
  obtains s where "create_run demo_env (demo_run r) empty_store = (Inr (demo_run r), s)"
    and "runs s = [r \<mapsto> run_metadata (demo_run r)]"
proof -
  obtain ps where "run_payloads demo_env (demo_run r) = Inr ps" by (rule demo_payloads)
  from create_run_ok [OF demo_codec _ _ _ this, of empty_store] that show thesis
    by (simp add: demo_snapshot_ok empty_store_def)
qed

lemma demo_runs:
  "runs demo_store = [''r1'' \<mapsto>
     (run_metadata (demo_run ''r1''))\<lparr>sr_lease_owner := Some ''A'', sr_lease_expires_at := Some 10\<rparr>]"
proof -
  obtain s where s: "create_run demo_env (demo_run ''r1'') empty_store = (Inr (demo_run ''r1''), s)"
    and r: "runs s = [''r1'' \<mapsto> run_metadata (demo_run ''r1'')]" by (rule demo_created)
  have "sr_version (run_metadata (demo_run ''r1'')) = 0"
    "sr_lease_owner (run_metadata (demo_run ''r1'')) = None"
    by (simp_all add: run_metadata_def demo_run_def)
  then show ?thesis using s r
    by (simp add: demo_store_def demo_cmds_def acquire_lease_def current_at_def)
qed

lemma demo_reachable: "reachable demo_env demo_store"
  unfolding demo_store_def by (rule reachable_cmds [OF demo_cmds_ok reach_empty])

lemma demo_inv: "store_inv demo_env demo_store"
  by (rule reachable_inv [OF demo_reachable demo_codec])

lemma demo_lease: "stored_lease demo_store ''r1'' = Some (''A'', 10)"
  by (simp add: stored_lease_eq demo_runs)

lemma demo_guarded:
  "now < 10 \<Longrightarrow> guarded now demo_store ''r1'' 0 (Some ''A'') = Inr
     ((run_metadata (demo_run ''r1''))\<lparr>sr_lease_owner := Some ''A'', sr_lease_expires_at := Some 10\<rparr>)"
  by (simp add: guarded_ok check_lease_ok demo_runs) (simp add: run_metadata_def demo_run_def)

lemma demo_stored:
  "runs demo_store ''r1'' = Some
     ((run_metadata (demo_run ''r1''))\<lparr>sr_lease_owner := Some ''A'', sr_lease_expires_at := Some 10\<rparr>)"
  by (simp add: demo_runs)

lemma demo_metadata [simp]:
  "sr_status (run_metadata (demo_run r)) = CREATED" "sr_version (run_metadata (demo_run r)) = 0"
  by (simp_all add: run_metadata_def demo_run_def)

lemma demo_move_simps [simp]:
  "to_status (demo_move st ow) = st" "to_lease_owner (demo_move st ow) = ow"
  "to_snapshot (demo_move st ow) = None" "to_output (demo_move st ow) = None"
  by (simp_all add: demo_move_def)

lemma demo_started:
  "\<exists>s1. exec_cmd demo_env (Transition 5 5 ''r1'' 0 (demo_move RUNNING (Some ''A''))) demo_store = (None, s1)"
proof -
  have "transition_args_ok demo_env (demo_move RUNNING (Some ''A''))"
    by (simp add: transition_args_ok_def snapshot_ok_def encodable_def)
  from transition_result [OF demo_inv demo_codec this, of 5 "''r1''" 0 _ 5] demo_guarded [of 5]
  show ?thesis by fastforce
qed

definition demo_step :: "ident \<Rightarrow> step_record" where
  "demo_step sid = \<lparr>step_id = sid, step_run_id = ''r1'', step_type = STEP_MODEL,
     step_status = STEP_RUNNING, step_error_code = None, step_created_at = 0\<rparr>"

definition demo_attempt :: "ident \<Rightarrow> step_attempt" where
  "demo_attempt aid = \<lparr>attempt_id = aid, attempt_step_id = ''s1'', attempt_run_id = ''r1'',
     attempt_status = STEP_RUNNING, attempt_output = None, attempt_error = None,
     attempt_classification = None, attempt_error_code = None, attempt_model_purpose = Some PRIMARY,
     attempt_usage = None, attempt_created_at = 0\<rparr>"

lemma demo_store_attempts: "entries (attempts demo_store) ''r1'' = []"
  by (simp add: demo_store_def demo_cmds_def create_run_def empty_store_def acquire_lease_def attempt_op_def
      entries_def current_at_def Let_def split: sum.splits prod.splits option.splits)

lemma demo_reserved:
  "\<exists>s'. reserve_model_attempt demo_env 5 (demo_step ''s1'') (demo_attempt ''a1'') (Some 1) None 0 ''A'' demo_store
     = (Inr True, s')"
  using demo_guarded [of 5]
  by (simp add: reserve_model_attempt_def demo_step_def demo_attempt_def demo_store_attempts model_attempts_def
      split_attempt_bare Let_def)

section \<open>Bindings, schemas and a frame\<close>

lemma demo_bindings_valid: "validate_complete_bindings demo_bindings = Inr demo_bindings"
  by (simp add: validate_complete_bindings_def demo_bindings_def MODEL_PURPOSES_def demo_binding_def for_purpose_def)

definition demo_output_contract :: output_contract where
  "demo_output_contract = \<lparr>oc_contract_id = ''o'', oc_version = ''1'',
     oc_schema = [(ustr ''type'', JStr (ustr ''integer''))], oc_structured_output = JSON_OBJECT,
     oc_fallback = FALLBACK_NONE, oc_repair = None\<rparr>"

lemma demo_schema_wf: "wf_schema (oc_schema demo_output_contract)"
  by (subst wf_schema.simps) (simp add: demo_output_contract_def json_get_def ustr_def)

definition demo_frame :: context_frame where
  "demo_frame = \<lparr>frame_instructions = replicate 400 65, frame_run_input = [], frame_history = [],
     frame_context_items = [], frame_tool_outcomes = [], frame_tools = [],
     frame_structured_output = STRUCTURED_OUTPUT_NONE, frame_usage_reporting = USAGE_REPORTING_NONE\<rparr>"

section \<open>Routing\<close>

text \<open>Digests that name their argument; the sealed snapshots below carry the digest \<open>i\<close>.\<close>

definition demo_digests :: routing_digests where
  "demo_digests =
     \<lparr>dg_variant = (\<lambda>v. variant_id v @ ''/'' @ variant_version v), dg_policy = (\<lambda>p. rp_version (rpol_identity p)),
      dg_catalog = catalog_id, dg_evidence = (\<lambda>e. dec (length (ev_pricing e))),
      dg_pricing = (\<lambda>_. ''i''), dg_availability = (\<lambda>_. ''i''), dg_limits = (\<lambda>_. ''i''),
      dg_decision = (\<lambda>v p c e. v @ ''|'' @ p @ ''|'' @ c @ ''|'' @ e)\<rparr>"

definition demo_identity :: routing_policy_identity where
  "demo_identity = \<lparr>rp_policy_id = ''p'', rp_version = ''1''\<rparr>"

definition demo_variant :: "ident \<Rightarrow> agent_variant" where
  "demo_variant i =
     \<lparr>variant_id = i, variant_version = ''1'', variant_definition_id = ''d'',
      variant_definition_version = ''1'', variant_bindings = demo_bindings,
      variant_execution_budget = \<lparr>run_max_attempts = 2, primary_max_attempts = 2,
        context_compression_max_attempts = 0, output_repair_max_attempts = 0\<rparr>,
      policy_identities = [demo_identity]\<rparr>"

definition demo_entry :: "ident \<Rightarrow> catalog_entry" where
  "demo_entry i = \<lparr>entry_variant = demo_variant i,
     entry_deployment = \<lparr>provider = None, region = None, endpoint_class = None,
       retention_evidence_version = None\<rparr>\<rparr>"

definition demo_catalog :: "ident list \<Rightarrow> model_catalog" where
  "demo_catalog is = \<lparr>catalog_id = ''cat'', catalog_version = ''1'', catalog_entries = map demo_entry is\<rparr>"

definition demo_policy :: "rat option \<Rightarrow> routing_policy" where
  "demo_policy cap =
     \<lparr>rpol_identity = demo_identity, rpol_model_requirements = demo_requirements,
      rpol_deployment = \<lparr>allowed_providers = None, allowed_regions = None, allowed_endpoint_classes = None,
        allowed_retention_evidence_versions = None\<rparr>,
      rpol_hard_gates = \<lparr>max_input_price_per_mtok = cap, min_quality_score = None,
        min_stability_score = None, require_availability = False, gate_operational_limits = None,
        gate_worst_case_cost_cap = None\<rparr>,
      rpol_objectives = [\<lparr>dimension = COST, direction = MINIMIZE, missing_value = ORDER_LAST\<rparr>],
      rpol_soft_preferences = \<lparr>track_availability = False, track_operational_limits = False\<rparr>,
      rpol_allowed_variants = None, rpol_published_from = None\<rparr>"

definition demo_price :: "ident \<Rightarrow> rat \<Rightarrow> pricing_snapshot" where
  "demo_price i x =
     \<lparr>pr_variant_id = i, pr_variant_version = ''1'', pr_currency = ''USD'', input_price_per_mtok = x,
      output_price_per_mtok = Some x, pr_version = ''1'', pr_effective_at = 0, pr_valid_until = 10,
      pr_contract_fingerprint = None, pr_integrity_digest = Some ''i''\<rparr>"

definition demo_evidence :: "(ident \<times> rat) list \<Rightarrow> routing_evidence" where
  "demo_evidence ps = no_evidence\<lparr>ev_pricing := map (\<lambda>(i, x). demo_price i x) ps\<rparr>"

text \<open>Evaluated selections.\<close>

fun answer :: "('a \<Rightarrow> 'b) \<Rightarrow> exn + 'a \<Rightarrow> 'b option" where
  "answer f (Inl e) = None"
| "answer f (Inr x) = Some (f x)"

lemma answerE:
  assumes "answer f m = Some y"
  obtains x where "m = Inr x" and "f x = y"
  using assms by (cases m) auto

lemma demo_selected:
  obtains r rd where "select demo_digests (demo_catalog [''x'', ''y'']) (demo_policy (Some 5))
      (Some (demo_evidence [(''x'', 3), (''y'', 2)])) 1 = Inr r"
    and "rr_decision r = Some rd" and "variant_id (selected_variant rd) = ''y''"
proof -
  have "answer (\<lambda>r. map_option (\<lambda>rd. variant_id (selected_variant rd)) (rr_decision r))
      (select demo_digests (demo_catalog [''x'', ''y'']) (demo_policy (Some 5))
        (Some (demo_evidence [(''x'', 3), (''y'', 2)])) 1) = Some (Some ''y'')"
    by code_simp
  then show thesis by (rule answerE) (auto intro: that)
qed

lemma demo_unpriced:
  obtains r where "select demo_digests (demo_catalog [''x'', ''y'']) (demo_policy (Some 5))
      (Some (demo_evidence [(''x'', 3)])) 1 = Inr r"
proof -
  have "answer (\<lambda>r. ()) (select demo_digests (demo_catalog [''x'', ''y'']) (demo_policy (Some 5))
      (Some (demo_evidence [(''x'', 3)])) 1) = Some ()"
    by code_simp
  then show thesis by (rule answerE) (rule that)
qed

lemma demo_gap:
  "max_input_price_per_mtok (rpol_hard_gates (demo_policy (Some 5))) = Some 5"
  "demo_entry ''y'' \<in> set (canonical_entries (demo_catalog [''x'', ''y'']))"
  "compat_ok (demo_policy (Some 5)) (demo_evidence [(''x'', 3)]) 1 (demo_entry ''y'')"
  "\<not> priced demo_digests (demo_evidence [(''x'', 3)]) 1 (entry_variant (demo_entry ''y''))"
proof -
  show "max_input_price_per_mtok (rpol_hard_gates (demo_policy (Some 5))) = Some 5" by (simp add: demo_policy_def)
  show "demo_entry ''y'' \<in> set (canonical_entries (demo_catalog [''x'', ''y'']))" by code_simp
  have "bindings_failure demo_bindings MODEL_PURPOSES = Inr None"
    "requirements_failure (demo_policy (Some 5)) (demo_variant ''y'') = Inr None" by code_simp+
  then show "compat_ok (demo_policy (Some 5)) (demo_evidence [(''x'', 3)]) 1 (demo_entry ''y'')"
    by (simp add: compat_ok_def demo_entry_def retention_ok_def attribute_ok_def Let_def)
      (simp add: demo_policy_def demo_variant_def attribute_ok_def)
  have "latest_pricing (demo_evidence [(''x'', 3)]) (demo_variant ''y'') = None" by code_simp
  then show "\<not> priced demo_digests (demo_evidence [(''x'', 3)]) 1 (entry_variant (demo_entry ''y''))"
    by (simp add: priced_def demo_entry_def)
qed

lemma demo_two_times:
  obtains r1 r2 rd1 rd2 where "select demo_digests (demo_catalog [''x'']) (demo_policy None)
      (Some (demo_evidence [(''x'', 3)])) 1 = Inr r1" and "rr_decision r1 = Some rd1"
    and "select demo_digests (demo_catalog [''x'']) (demo_policy None) (Some (demo_evidence [(''x'', 3)])) 20 = Inr r2"
    and "rr_decision r2 = Some rd2" and "selected_variant rd1 = selected_variant rd2"
    and "rd_candidate_evaluations rd1 \<noteq> rd_candidate_evaluations rd2"
proof -
  let ?sel = "\<lambda>t. select demo_digests (demo_catalog [''x'']) (demo_policy None) (Some (demo_evidence [(''x'', 3)])) t"
  let ?obs = "\<lambda>r. map_option (\<lambda>rd. (selected_variant rd,
      map (map ov_missing \<circ> ce_objective_values) (rd_candidate_evaluations rd))) (rr_decision r)"
  have "answer ?obs (?sel 1) = Some (Some (demo_variant ''x'', [[False]]))" by code_simp
  then obtain r1 where r1: "?sel 1 = Inr r1" "?obs r1 = Some (demo_variant ''x'', [[False]])" by (rule answerE)
  have "answer ?obs (?sel 20) = Some (Some (demo_variant ''x'', [[True]]))" by code_simp
  then obtain r2 where r2: "?sel 20 = Inr r2" "?obs r2 = Some (demo_variant ''x'', [[True]])" by (rule answerE)
  show thesis using r1 r2 by (auto intro!: that)
qed

definition demo_run_binding :: "ident \<Rightarrow> string \<Rightarrow> routing_decision_binding" where
  "demo_run_binding rid did =
     \<lparr>bind_decision_id = did, bind_run_id = rid, bind_definition_id = ''d'', bind_definition_version = ''1'',
      bind_variant_id = ''x'', bind_variant_version = ''1'', bind_contract_fingerprint = ''fp''\<rparr>"

definition demo_decision :: routing_decision where
  "demo_decision =
     \<lparr>decision_id = ''d1'', rd_outcome = SELECTED, selected_variant = demo_variant ''x'',
      selected_contract_fingerprint = ''fp'', rd_policy_identity = demo_identity, rd_policy_digest = ''1'',
      rd_catalog_id = ''cat'', rd_catalog_version = ''1'', rd_catalog_digest = ''cat'',
      rd_evidence_digest = dg_evidence demo_digests no_evidence, rd_evidence_references = [],
      rd_candidate_evaluations = [], tie_break_applied = False\<rparr>"

text \<open>A payload text is the value itself, tagged by its kind.\<close>

type_synonym demo_payload = "routing_decision + routing_evidence + routing_decision_binding"

definition demo_payloads_id :: "demo_payload routing_payloads" where
  "demo_payloads_id =
     \<lparr>pl_decision = Inl, pl_evidence = Inr \<circ> Inl, pl_binding = Inr \<circ> Inr,
      pl_parse_decision = case_sum Inr (\<lambda>_. Inl ValueError),
      pl_parse_evidence = case_sum (\<lambda>_. Inl ValueError) (case_sum Inr (\<lambda>_. Inl ValueError)),
      pl_parse_binding = case_sum (\<lambda>_. Inl ValueError) (case_sum (\<lambda>_. Inl ValueError) Inr)\<rparr>"

lemma demo_payloads_ok: "payloads_ok demo_payloads_id"
  by (simp add: payloads_ok_def demo_payloads_id_def)

lemma demo_paired: "paired demo_digests demo_decision no_evidence"
  by (simp add: paired_def demo_decision_def)

section \<open>Sessions\<close>

definition demo_sessions :: session_store_state where
  "demo_sessions = snd (create_session 0 ''t'' ''s'' Map.empty)"

definition demo_turn :: "ident \<Rightarrow> session_turn" where
  "demo_turn rid = \<lparr>turn_id = rid, turn_session_id = ''s'', turn_run_id = rid, turn_definition_id = ''d'',
     turn_definition_version = ''1'', turn_user_input = [], turn_assistant_output = [], turn_created_at = 0\<rparr>"

lemma demo_session:
  "demo_sessions (''t'', ''s'') = Some \<lparr>ss_session_id = ''s'', ss_version = 0, ss_claim = None, ss_turns = [],
     ss_created_at = 0, ss_updated_at = 0\<rparr>"
  by (simp add: demo_sessions_def create_session_def blank_ident_def blank_def is_space_def Let_def)

lemma demo_sessions_inv: "sessions_inv demo_sessions"
proof -
  have "sessions_inv Map.empty" by (simp add: sessions_inv_def)
  from exec_session_inv [OF this, of "CreateSession 0 (''t'', ''s'')"] show ?thesis
    by (simp add: demo_sessions_def reply_with_def)
qed

lemma demo_claimed:
  obtains cl s1 where "exec_session (ClaimRun 1 1 (''t'', ''s'') ''r1'' 0) demo_sessions = (Inr (ClaimReply cl), s1)"
  by (simp add: reply_with_def claim_run_def lookup_session_def demo_session existing_turn_def Let_def)

end
