(* ===== verification/Runner_Effects.thy ===== *)
theory Runner_Effects
  imports Runner_Laws
begin

text \<open>
  How often a Step reaches the outside world: the number of dispatches is bounded by the frozen
  retry policy, and a NON_IDEMPOTENT tool whose effect is in doubt is called once and then waits
  for the application.
\<close>

section \<open>At most so many calls\<close>

definition costs :: "nat \<Rightarrow> 'a runner \<Rightarrow> bool" where
  "costs n m \<longleftrightarrow> (\<forall>s. ids_ok (rs_store s) \<longrightarrow> ids_ok (rs_store (snd (m s)))
     \<and> length (rs_effects (snd (m s))) \<le> length (rs_effects s) + n)"

lemma costsD:
  assumes "costs n m" and "ids_ok (rs_store s)"
  shows "ids_ok (rs_store (snd (m s)))" and "length (rs_effects (snd (m s))) \<le> length (rs_effects s) + n"
  using assms by (auto simp: costs_def)

lemma quiet_costs: "quietly.ok env rid {} m Q \<Longrightarrow> costs n m"
  by (auto simp: costs_def quietly.ok_def quietly.okS_def quiet_def dest: store_evolves_kept)

lemma costs_bind_quiet:
  assumes "quietly.ok env rid {} m Q" and "\<And>x. Q x \<Longrightarrow> costs n (f x)"
  shows "costs n (bindR m f)"
  unfolding costs_def
proof (intro allI impI)
  fix s :: runner_state assume s: "ids_ok (rs_store s)"
  obtain r t where m: "m s = (r, t)" by (cases "m s")
  have t: "ids_ok (rs_store t)" "rs_effects t = rs_effects s" "\<forall>x. r = Inr x \<longrightarrow> Q x"
    using assms(1) s m store_evolves_kept(1) [of env rid "rs_store s" "rs_store t"]
    by (auto simp: quietly.ok_def quietly.okS_def quiet_def dest!: spec [of _ s])
  show "ids_ok (rs_store (snd (bindR m f s)))
      \<and> length (rs_effects (snd (bindR m f s))) \<le> length (rs_effects s) + n"
  proof (cases r)
    case (Inr x)
    then have "costs n (f x)" using assms(2) t(3) by blast
    from costsD [OF this t(1)] show ?thesis using t(2) Inr m by (simp add: bindR_def)
  qed (use t m in \<open>simp add: bindR_def\<close>)
qed

lemma costs_bind_last:
  assumes "costs n m" and "\<And>x. costs 0 (f x)"
  shows "costs n (bindR m f)"
  unfolding costs_def
proof (intro allI impI)
  fix s :: runner_state assume s: "ids_ok (rs_store s)"
  obtain r t where m: "m s = (r, t)" by (cases "m s")
  have t: "ids_ok (rs_store t)" "length (rs_effects t) \<le> length (rs_effects s) + n"
    using assms(1) s m by (auto simp: costs_def)
  show "ids_ok (rs_store (snd (bindR m f s)))
      \<and> length (rs_effects (snd (bindR m f s))) \<le> length (rs_effects s) + n"
  proof (cases r)
    case (Inr x)
    then have "snd (bindR m f s) = snd (f x t)" using m by (simp add: bindR_def)
    with costsD [OF assms(2) t(1), of x] t(2) show ?thesis by simp
  qed (use t m in \<open>simp add: bindR_def\<close>)
qed

lemma costs_then_quiet: "quietly.ok env rid {} m (\<lambda>_. True) \<Longrightarrow> costs n k \<Longrightarrow> costs n (thenR m k)"
  unfolding thenR_def by (rule costs_bind_quiet)

lemma costs_if: "(b \<Longrightarrow> costs n m) \<Longrightarrow> (\<not> b \<Longrightarrow> costs n k) \<Longrightarrow> costs n (if b then m else k)"
  by simp

lemma costs_or_cancelled:
  "costs n m \<Longrightarrow> (\<And>r. costs n (stop r)) \<Longrightarrow> costs n (or_cancelled c m stop)"
  by (cases c) (simp_all add: or_cancelled_def)

lemma costs_cases:
  "(\<And>e. x = Inl e \<Longrightarrow> costs n (f e)) \<Longrightarrow> (\<And>y. x = Inr y \<Longrightarrow> costs n (g y)) \<Longrightarrow> costs n (case_sum f g x)"
  "(z = None \<Longrightarrow> costs n m) \<Longrightarrow> (\<And>y. z = Some y \<Longrightarrow> costs n (h y)) \<Longrightarrow> costs n (case z of None \<Rightarrow> m | Some y \<Rightarrow> h y)"
  "(\<And>r. w = Stop r \<Longrightarrow> costs n (k r)) \<Longrightarrow> (\<And>y. w = Go y \<Longrightarrow> costs n (l y)) \<Longrightarrow> costs n (case w of Stop r \<Rightarrow> k r | Go y \<Rightarrow> l y)"
  by (simp_all split: sum.splits option.splits step_end.splits)

lemma snd_tryR: "snd (tryR m s) = snd (m s)"
  by (cases "m s"; cases "fst (m s)") (simp_all add: tryR_def)

lemma costs_try: "costs n m \<Longrightarrow> costs n (tryR m)"
  by (simp add: costs_def snd_tryR)

lemma costs_ret: "costs n (retR y)" and costs_reraise: "costs n (reraise e)"
    and costs_raise: "costs n (raiseR x)"
  by (simp_all add: costs_def retR_def reraise_def raiseR_def)

lemma costs_effect:
  assumes "\<And>n. costs 0 (f n)"
  shows "costs 1 (bindR (getR rs_calls) (\<lambda>n.
     thenR (modifyR (\<lambda>s. s\<lparr>rs_effects := rs_effects s @ [call]\<rparr>)) (f n)))"
  unfolding costs_def
proof (intro allI impI)
  fix s :: runner_state assume s: "ids_ok (rs_store s)"
  let ?u = "s\<lparr>rs_effects := rs_effects s @ [call]\<rparr>" and ?m = "bindR (getR rs_calls) (\<lambda>n.
     thenR (modifyR (\<lambda>s. s\<lparr>rs_effects := rs_effects s @ [call]\<rparr>)) (f n))"
  have "ids_ok (rs_store (snd (f (rs_calls s) ?u)))
      \<and> length (rs_effects (snd (f (rs_calls s) ?u))) \<le> length (rs_effects ?u) + 0"
    using costsD [OF assms, of ?u "rs_calls s"] s by simp
  then show "ids_ok (rs_store (snd (?m s))) \<and> length (rs_effects (snd (?m s))) \<le> length (rs_effects s) + 1"
    by (simp add: bindR_def getR_def thenR_def modifyR_def)
qed

lemma costs_external: "costs 1 (external env call answer)"
  unfolding external_def
  by (rule costs_effect, rule quiet_costs [where Q = "\<lambda>_. True" and env = env])
    (rule ok_rule | (clarsimp; fail))+

lemma costs_retry:
  assumes loop: "\<And>n s. loop n s = bindR (body (n + 1)) (\<lambda>r t. case r of Some x \<Rightarrow> retR x t | None \<Rightarrow> loop (n + 1) t) s"
    and body: "\<And>n. costs 1 (body n)"
    and bound: "\<And>n s t. body n s = (Inr None, t) \<Longrightarrow> n < (m :: int)"
  shows "costs (nat (max 1 (m - n))) (loop n)"
proof (induction "nat (m - n)" arbitrary: n rule: less_induct)
  case less
  show ?case unfolding costs_def
  proof (intro allI impI)
    fix s :: runner_state assume s: "ids_ok (rs_store s)"
    obtain r t where b: "body (n + 1) s = (r, t)" by (cases "body (n + 1) s")
    have t: "ids_ok (rs_store t)" "length (rs_effects t) \<le> length (rs_effects s) + 1"
      using body [of "n + 1"] s b by (auto simp: costs_def)
    show "ids_ok (rs_store (snd (loop n s)))
        \<and> length (rs_effects (snd (loop n s))) \<le> length (rs_effects s) + nat (max 1 (m - n))"
    proof (cases "r = Inr None")
      case True
      then have lt: "n + 1 < m" using bound b by blast
      have "costs (nat (max 1 (m - (n + 1)))) (loop (n + 1))" by (rule less) (use lt in simp)
      moreover have "loop n s = loop (n + 1) t" using loop [of n s] b True by (simp add: bindR_def)
      ultimately have "ids_ok (rs_store (snd (loop n s)))"
        "length (rs_effects (snd (loop n s))) \<le> length (rs_effects t) + nat (max 1 (m - (n + 1)))"
        using t(1) by (simp_all add: costs_def)
      moreover have "1 + nat (max 1 (m - (n + 1))) \<le> nat (max 1 (m - n))" using lt by simp
      ultimately show ?thesis using t(2) by simp
    next
      case False
      then have "snd (loop n s) = t"
        using loop [of n s] b by (auto simp: bindR_def retR_def split: sum.splits option.splits)
      then show ?thesis using t by (simp add: nat_le_iff le_trans)
    qed
  qed
qed

section \<open>Tool and model Steps\<close>

lemma tool_dispatch_costs:
  assumes "run_id run = rid" and "held_by env lease"
  shows "costs 1 (dispatch_tool env run d lease call sid aid effect)"
proof -
  have last: "costs 1 (bindR (external env c ans) (accept_outcome env r d lease call sid aid))"
    if "run_id r = rid" for c ans r
    by (rule costs_bind_last [OF costs_external quiet_costs [OF quietly.ok_accept_outcome [OF that assms(2)]]])
  show ?thesis unfolding dispatch_tool_def Let_def
    by (rule last costs_bind_quiet [where rid = rid] costs_then_quiet [where rid = rid] costs_if
        costs_or_cancelled ok_rule costs_ret costs_reraise | (clarsimp simp: assms; fail))+
qed

lemma tool_attempt_costs:
  assumes "run_id run = rid" and "held_by env lease"
  shows "costs 1 (tool_attempt env run d lease call sid effect policy count)"
proof -
  have rest: "costs 1 (bindR (tryR (dispatch_tool env run d lease call sid aid effect)) (\<lambda>r.
         case r of
           Inl e \<Rightarrow> tool_failed env run lease sid aid effect policy count e
         | Inr (Stop stopped) \<Rightarrow> retR (Some (stopped, None))
         | Inr (Go outcome) \<Rightarrow>
             thenR (checkpoint_tool_outcome env run lease sid outcome (Some aid))
               (retR (Some (run, Some outcome)))))" for aid
  proof (rule costs_bind_last [OF costs_try [OF tool_dispatch_costs [OF assms]]])
    fix r show "costs 0 (case r of
           Inl e \<Rightarrow> tool_failed env run lease sid aid effect policy count e
         | Inr (Stop stopped) \<Rightarrow> retR (Some (stopped, None))
         | Inr (Go outcome) \<Rightarrow>
             thenR (checkpoint_tool_outcome env run lease sid outcome (Some aid))
               (retR (Some (run, Some outcome))))"
      by (rule quiet_costs [where rid = rid and Q = "\<lambda>_. True"])
        (rule quietly.ok_weaken [OF quietly.ok_tool_failed _ subset_refl] ok_rule | (clarsimp simp: assms; fail))+
  qed
  show ?thesis unfolding tool_attempt_def
    by (rule rest costs_bind_quiet [where rid = rid] costs_then_quiet [where rid = rid] costs_if
        costs_or_cancelled ok_rule costs_ret | (clarsimp simp: assms; fail))+
qed


definition attempt_limit :: "retry_policy option \<Rightarrow> int" where
  "attempt_limit policy = (case policy of None \<Rightarrow> 1 | Some p \<Rightarrow> max 1 (max_attempts p))"

lemma costs_mono: "costs n m \<Longrightarrow> n \<le> k \<Longrightarrow> costs k m"
  by (force simp: costs_def)

lemma limit_le: "0 \<le> n \<Longrightarrow>
    nat (max 1 ((case policy of None \<Rightarrow> 0 | Some p \<Rightarrow> max_attempts p) - n)) \<le> nat (attempt_limit policy)"
  by (intro nat_mono) (auto simp: attempt_limit_def split: option.splits)

lemma tool_loop_costs:
  assumes "of_run rid run" and "held_by env lease" and "0 \<le> n"
  shows "costs (nat (attempt_limit policy)) (tool_loop env run d lease call sid effect policy n)"
proof (rule costs_mono [OF _ limit_le [OF assms(3)]], rule costs_retry)
  show "costs 1 (tool_attempt env run d lease call sid effect policy n)" for n
    by (rule tool_attempt_costs [OF assms(1,2)])
qed (auto intro: tool_loop.simps dest: tool_attempt_continue)

lemma tool_step_costs:
  assumes "of_run rid run" and "held_by env lease"
  shows "costs (nat (attempt_limit (retry_policy_of run))) (run_tool_step env run d lease call step replay explicit)"
proof -
  have give_up: "costs n (thenR (record_failed_step env run lease sid STEP_TOOL None)
      (bindR (fail_run env run lease None) (\<lambda>r. retR (r, None :: tool_outcome option))))" for n sid
    by (rule quiet_costs [where rid = rid and Q = "\<lambda>_. True"])
      (rule ok_rule | (clarsimp simp: assms; fail))+
  show ?thesis unfolding run_tool_step_def Let_def
    by (rule give_up tool_loop_costs [OF assms] costs_bind_quiet [where rid = rid]
        costs_then_quiet [where rid = rid] costs_if ok_rule | (clarsimp simp: assms; fail))+
qed

lemma costs_stream: "costs 1 (stream_model env a request run sid aid p)"
  unfolding stream_model_def
  by (rule costs_effect, rule quiet_costs [OF quietly.ok_consume_stream])

lemma invoke_model_costs:
  assumes "of_run rid run" and "held_by env lease"
  shows "costs 1 (invoke_model env run lease a sid aid p request streams)"
  unfolding invoke_model_def
  by (rule costs_if costs_bind_last costs_stream costs_external
      quiet_costs [where rid = rid and env = env and Q = "\<lambda>_. True"] ok_rule quietly.ok_weaken [OF quietly.ok_close_cancelled _ subset_refl]
      | (clarsimp simp: assms; fail))+


lemma call_model_costs:
  assumes "of_run rid run" and "held_by env lease"
  shows "costs 1 (call_model env run d lease a sid aid p contract request streams)"
proof -
  have rest: "costs 1 (bindR (invoke_model env run lease a sid aid p request streams) (\<lambda>r.
          case r of Stop stopped \<Rightarrow> retR (Stop stopped)
          | Go reply \<Rightarrow> thenR (assert_adapter_contract_matches_snapshot env run d) (retR (Go reply))))"
    by (rule costs_bind_last [OF invoke_model_costs [OF assms]],
        rule quiet_costs [where rid = rid and env = env and Q = "\<lambda>_. True"])
      (rule ok_rule | (clarsimp simp: assms; fail))+
  show ?thesis unfolding call_model_def
    by (rule rest costs_bind_quiet [where rid = rid] costs_then_quiet [where rid = rid]
        costs_or_cancelled ok_rule costs_ret | (clarsimp simp: assms; fail))+
qed

lemma model_attempt_costs:
  assumes "of_run rid run" and "held_by env lease"
  shows "costs 1 (model_attempt env run d lease a b snap t sid policy count)"
proof -
  have reserved: "costs 1 (dispatch_reserved env run d lease a sid aid contract request streams t policy count)"
    for aid contract request streams
    unfolding dispatch_reserved_def
    by (rule costs_bind_last [OF costs_try [OF call_model_costs [OF assms]]],
        rule quiet_costs [where rid = rid and env = env and Q = "\<lambda>_. True"])
      (rule quietly.ok_weaken [OF quietly.ok_model_failed _ subset_refl] ok_rule
        | (clarsimp simp: assms; fail))+
  have failed: "costs n (model_failed env run lease sid aid p policy count r usage e)" for n aid p r usage e
    by (rule quiet_costs [OF quietly.ok_model_failed [OF assms]])
  have stop: "costs n (bindR (stop_model_step env run lease sid code)
      (\<lambda>r. retR (Some (r, None :: model_response option))))" for n code
    by (rule quiet_costs [where rid = rid and env = env and Q = "\<lambda>_. True"])
      (rule ok_rule | (clarsimp simp: assms; fail))+
  show ?thesis unfolding model_attempt_def dispatch_model_def Let_def
    by (rule reserved failed stop costs_bind_quiet [where rid = rid] costs_then_quiet [where rid = rid]
        costs_if costs_or_cancelled ok_rule costs_ret costs_raise costs_cases | (clarsimp simp: assms; fail))+
qed


lemma model_loop_costs:
  assumes "of_run rid run" and "held_by env lease" and "0 \<le> n"
  shows "costs (nat (attempt_limit policy)) (model_loop env run d lease a b snap t sid policy n)"
proof (rule costs_mono [OF _ limit_le [OF assms(3)]], rule costs_retry)
  show "costs 1 (model_attempt env run d lease a b snap t sid policy n)" for n
    by (rule model_attempt_costs [OF assms(1,2)])
qed (auto intro: model_loop.simps dest: model_attempt_continue)

lemma model_step_costs:
  assumes "of_run rid run" and "held_by env lease"
  shows "costs (nat (attempt_limit (retry_policy_of run))) (run_single_model_step env run d lease t step replay)"
proof (cases "run_snapshot run")
  case (Some snap)
  have stop: "costs n (bindR (stop_model_step env run lease sid code)
      (\<lambda>r. retR (r, None :: model_response option)))" for n sid code
    by (rule quiet_costs [where rid = rid and env = env and Q = "\<lambda>_. True"])
      (rule ok_rule | (clarsimp simp: assms; fail))+
  have "retry_policy_of run = snap_retry_policy snap" by (simp add: retry_policy_of_def Some)
  then show ?thesis unfolding run_single_model_step_def Let_def Some option.case
    by (simp only:) (rule stop model_loop_costs [OF assms] costs_bind_quiet [where rid = rid] costs_then_quiet [where rid = rid]
        costs_if ok_rule | (clarsimp simp: assms; fail))+
qed (simp add: run_single_model_step_def costs_raise)

section \<open>Effects in doubt\<close>

text \<open>
  Either no call was made, or one call was made and the result satisfies \<open>P\<close>.
\<close>

definition once :: "(fault + 'a \<Rightarrow> bool) \<Rightarrow> 'a runner \<Rightarrow> bool" where
  "once P m \<longleftrightarrow> (\<forall>s. ids_ok (rs_store s) \<longrightarrow> ids_ok (rs_store (snd (m s)))
     \<and> (rs_effects (snd (m s)) = rs_effects s
        \<or> length (rs_effects (snd (m s))) = Suc (length (rs_effects s)) \<and> P (fst (m s))))"

lemma onceD:
  assumes "once P m" and "ids_ok (rs_store s)"
  shows "ids_ok (rs_store (snd (m s)))" and "rs_effects (snd (m s)) = rs_effects s
     \<or> length (rs_effects (snd (m s))) = Suc (length (rs_effects s)) \<and> P (fst (m s))"
  using assms by (auto simp: once_def)

lemma quiet_once: "quietly.ok env rid {} m Q \<Longrightarrow> once P m"
  by (auto simp: once_def quietly.ok_def quietly.okS_def quiet_def dest: store_evolves_kept)

lemma once_bind_quiet:
  assumes "quietly.ok env rid {} m Q" and "\<And>x. Q x \<Longrightarrow> once P (f x)"
  shows "once P (bindR m f)"
  unfolding once_def
proof (intro allI impI)
  fix s :: runner_state assume s: "ids_ok (rs_store s)"
  obtain r t where m: "m s = (r, t)" by (cases "m s")
  have t: "ids_ok (rs_store t)" "rs_effects t = rs_effects s" "\<forall>x. r = Inr x \<longrightarrow> Q x"
    using assms(1) s m store_evolves_kept(1) [of env rid "rs_store s" "rs_store t"]
    by (auto simp: quietly.ok_def quietly.okS_def quiet_def dest!: spec [of _ s])
  show "ids_ok (rs_store (snd (bindR m f s)))
      \<and> (rs_effects (snd (bindR m f s)) = rs_effects s
        \<or> length (rs_effects (snd (bindR m f s))) = Suc (length (rs_effects s)) \<and> P (fst (bindR m f s)))"
  proof (cases r)
    case (Inr x)
    then have "once P (f x)" using assms(2) t(3) by blast
    from onceD [OF this t(1)] show ?thesis using t(2) Inr m by (simp add: bindR_def)
  qed (use t m in \<open>simp add: bindR_def\<close>)
qed

lemma once_bind_last:
  assumes "once P m" and "\<And>x. quietly.ok env rid {} (f x) Q"
    and "\<And>e. P (Inl e) \<Longrightarrow> P' (Inl e)" and "\<And>x s. P (Inr x) \<Longrightarrow> P' (fst (f x s))"
  shows "once P' (bindR m f)"
  unfolding once_def
proof (intro allI impI)
  fix s :: runner_state assume s: "ids_ok (rs_store s)"
  obtain r t where m: "m s = (r, t)" by (cases "m s")
  have t: "ids_ok (rs_store t)" "rs_effects t = rs_effects s
      \<or> length (rs_effects t) = Suc (length (rs_effects s)) \<and> P r"
    using assms(1) s m by (auto simp: once_def dest!: spec [of _ s])
  show "ids_ok (rs_store (snd (bindR m f s)))
      \<and> (rs_effects (snd (bindR m f s)) = rs_effects s
        \<or> length (rs_effects (snd (bindR m f s))) = Suc (length (rs_effects s)) \<and> P' (fst (bindR m f s)))"
  proof (cases r)
    case (Inr x)
    have "quiet env rid t (snd (f x t))"
      using assms(2) t(1) by (simp add: quietly.ok_def quietly.okS_def)
    then have "ids_ok (rs_store (snd (f x t)))" "rs_effects (snd (f x t)) = rs_effects t"
      using t(1) by (auto simp: quiet_def dest: store_evolves_kept)
    then show ?thesis using t(2) assms(4) [of x t] Inr m by (auto simp: bindR_def)
  qed (use t m assms(3) in \<open>auto simp: bindR_def\<close>)
qed


lemma once_try: "once P m \<Longrightarrow> once (\<lambda>r. case r of Inl e \<Rightarrow> True | Inr x \<Rightarrow> P x) (tryR m)"
  unfolding once_def snd_tryR by (auto simp: tryR_def split: prod.split sum.split)

lemma once_if: "(b \<Longrightarrow> once P m) \<Longrightarrow> (\<not> b \<Longrightarrow> once P k) \<Longrightarrow> once P (if b then m else k)"
  by simp

lemma once_or_cancelled:
  "once P m \<Longrightarrow> (\<And>r. once P (stop r)) \<Longrightarrow> once P (or_cancelled c m stop)"
  by (cases c) (simp_all add: or_cancelled_def)

lemma once_ret: "once P (retR y)" and once_reraise: "once P (reraise e)"
  by (simp_all add: once_def retR_def reraise_def)

lemma once_then_quiet: "quietly.ok env rid {} m (\<lambda>_. True) \<Longrightarrow> once P k \<Longrightarrow> once P (thenR m k)"
  unfolding thenR_def by (rule once_bind_quiet)

lemma once_external:
  assumes "\<And>n. P (answer n)"
  shows "once P (external env call answer)"
  unfolding once_def external_def
  by (auto simp: bindR_def getR_def thenR_def modifyR_def suspend_def reraise_def retR_def ids_ok_execs
      split: prod.splits sum.splits intro: assms) (metis assms)+

text \<open>The same of one round of a loop, which must not go on after a call.\<close>

definition ends_with :: "(fault + 'a \<Rightarrow> bool) \<Rightarrow> fault + 'a option \<Rightarrow> bool" where
  "ends_with P r \<longleftrightarrow> (case r of Inl e \<Rightarrow> P (Inl e) | Inr None \<Rightarrow> False | Inr (Some x) \<Rightarrow> P (Inr x))"

lemma once_retry:
  assumes loop: "\<And>n s. loop n s = bindR (body (n + 1)) (\<lambda>r t. case r of Some x \<Rightarrow> retR x t | None \<Rightarrow> loop (n + 1) t) s"
    and body: "\<And>n. once (ends_with P) (body n)"
    and bound: "\<And>n s t. body n s = (Inr None, t) \<Longrightarrow> n < (m :: int)"
  shows "once P (loop n)"
proof (induction "nat (m - n)" arbitrary: n rule: less_induct)
  case less
  show ?case unfolding once_def
  proof (intro allI impI)
    fix s :: runner_state assume s: "ids_ok (rs_store s)"
    obtain r t where b: "body (n + 1) s = (r, t)" by (cases "body (n + 1) s")
    note t = onceD [OF body [of "n + 1"] s, unfolded b fst_conv snd_conv]
    show "ids_ok (rs_store (snd (loop n s))) \<and> (rs_effects (snd (loop n s)) = rs_effects s
        \<or> length (rs_effects (snd (loop n s))) = Suc (length (rs_effects s)) \<and> P (fst (loop n s)))"
    proof (cases "r = Inr None")
      case True
      then have lt: "n + 1 < m" using bound b by blast
      have "once P (loop (n + 1))" by (rule less) (use lt in simp)
      moreover have "loop n s = loop (n + 1) t" using loop [of n s] b True by (simp add: bindR_def)
      moreover have "rs_effects t = rs_effects s" using t(2) True by (simp add: ends_with_def)
      ultimately show ?thesis using onceD [of P "loop (n + 1)" t] t(1) by simp
    next
      case False
      then have "loop n s = (case r of Inl e \<Rightarrow> (Inl e, t) | Inr x \<Rightarrow> (Inr (the x), t))"
        using loop [of n s] b by (auto simp: bindR_def retR_def split: sum.splits option.splits)
      then show ?thesis using t False by (auto simp: ends_with_def split: sum.splits option.splits)
    qed
  qed
qed

section \<open>The uncertain call\<close>

definition waits_on :: "ident \<Rightarrow> run_record \<Rightarrow> bool" where
  "waits_on sid w \<longleftrightarrow> run_status_of w = WAITING \<and> run_waiting_step_id w = Some sid
     \<and> run_waiting_reason w = Some REASON_UNCERTAIN_NON_IDEMPOTENT"

lemma run_to_record_waiting:
  "run_to_record sr i out snap h = Inr r \<Longrightarrow>
     run_waiting_reason r = sr_waiting_reason sr \<and> run_waiting_step_id r = sr_waiting_step_id sr"
  by (cases i) (auto simp: run_to_record_def)

lemma load_run_waiting: "load_run env s sr rid = Inr r \<Longrightarrow>
     run_waiting_reason r = sr_waiting_reason sr \<and> run_waiting_step_id r = sr_waiting_step_id sr"
  unfolding load_run_def bindE_eq_Inr by (elim exE conjE) (rule run_to_record_waiting)

lemma transition_waiting:
  assumes "transition_run env now utc rid v args s = (Inr r, s')" and "to_status args = WAITING"
  shows "run_waiting_reason r = to_waiting_reason args \<and> run_waiting_step_id r = to_waiting_step_id args"
proof -
  obtain cur where g: "guarded now s rid v (to_lease_owner args) = Inr cur"
    using assms(1) by (auto simp: transition_run_def)
  have "\<exists>s3. load_run env s3 (transitioned utc args cur) rid = Inr r"
    using assms(1) unfolding transition_run_def g attempt_op_simps attempt_op_Inr Let_def
    by (blast dest: and_then_answer)
  then show ?thesis using load_run_waiting assms(2) by (fastforce simp: transitioned_def)
qed

lemma enter_waiting_uncertain_result:
  assumes "enter_waiting_uncertain env run lease sid s = (Inr w, t)"
  shows "waits_on sid w"
proof -
  obtain u where w: "transition env run ((plain_args WAITING lease)
              \<lparr>to_waiting_reason := Some REASON_UNCERTAIN_NON_IDEMPOTENT,
               to_waiting_step_id := Some sid\<rparr>) s = (Inr w, u)"
    using assms by (auto simp: enter_waiting_uncertain_def bindR_result thenR_result retR_def)
  from transition_runner_status [OF w] transition_waiting [OF store_opE [OF w [unfolded transition_def]]]
  show ?thesis by (simp add: waits_on_def plain_args_def)
qed


definition always_uncertain :: "agent_definition \<Rightarrow> ident \<Rightarrow> bool" where
  "always_uncertain d name \<longleftrightarrow> (\<forall>tool \<in> set (def_tools d). tool_name tool = name \<longrightarrow>
     (\<forall>n req. \<exists>e. tool_invoke tool n req = Inl e \<and> fst (classify_fault e) = UNCERTAIN))"

definition uncertain_fault :: "fault + 'a \<Rightarrow> bool" where
  "uncertain_fault r \<longleftrightarrow> (\<exists>e. r = Inl e \<and> fst (classify_fault e) = UNCERTAIN)"

definition in_doubt :: "fault + run_record \<times> tool_outcome option \<Rightarrow> bool" where
  "in_doubt r \<longleftrightarrow> (\<forall>w out. r = Inr (w, out) \<longrightarrow> out = None \<and> (\<exists>sid. waits_on sid w))"

lemma tool_failed_uncertain:
  assumes "fst (classify_fault e) = UNCERTAIN"
  shows "ends_with in_doubt (fst (tool_failed env run lease sid aid (Some NON_IDEMPOTENT) policy count e s))"
proof -
  obtain code message where c: "classify_fault e = (UNCERTAIN, code, message)"
    using assms by (cases "classify_fault e") simp
  show ?thesis
    by (auto simp: tool_failed_def c bindR_def thenR_def retR_def in_doubt_def ends_with_def
        split: prod.splits sum.splits option.splits dest: enter_waiting_uncertain_result)
qed

lemma dispatch_tool_uncertain:
  assumes "of_run rid run" and "held_by env lease" and "always_uncertain d (call_tool_name call)"
  shows "once uncertain_fault (dispatch_tool env run d lease call sid aid effect)"
proof (cases "find (\<lambda>t. tool_name t = call_tool_name call) (def_tools d)")
  case None
  then show ?thesis by (simp add: dispatch_tool_def find_tool_def once_def bindR_def raiseR_def)
next
  case (Some tool)
  then have "tool \<in> set (def_tools d)" "tool_name tool = call_tool_name call"
    by (auto simp: find_Some_iff)
  then have call: "uncertain_fault (tool_invoke tool n req)" for n req
    using assms(3) by (auto simp: always_uncertain_def uncertain_fault_def)
  have last: "once uncertain_fault (bindR (external env c (\<lambda>n. tool_invoke tool n req))
      (accept_outcome env r d lease call sid aid))" if "run_id r = rid" for c req r
    by (rule once_bind_last [OF once_external [where P = uncertain_fault, OF call]
          quietly.ok_accept_outcome [OF that assms(2)]])
      (simp_all add: uncertain_fault_def)
  show ?thesis unfolding dispatch_tool_def find_tool_def Some option.case bindR_ret Let_def
    by (rule last once_bind_quiet [where rid = rid] once_then_quiet [where rid = rid] once_if
        once_or_cancelled ok_rule once_ret once_reraise | (clarsimp simp: assms; fail))+
qed

lemma tool_attempt_uncertain:
  assumes "of_run rid run" and "held_by env lease" and "always_uncertain d (call_tool_name call)"
  shows "once (ends_with in_doubt) (tool_attempt env run d lease call sid (Some NON_IDEMPOTENT) policy count)"
proof -
  let ?f = "\<lambda>aid r. case r of
           Inl e \<Rightarrow> tool_failed env run lease sid aid (Some NON_IDEMPOTENT) policy count e
         | Inr (Stop stopped) \<Rightarrow> retR (Some (stopped, None))
         | Inr (Go outcome) \<Rightarrow>
             thenR (checkpoint_tool_outcome env run lease sid outcome (Some aid))
               (retR (Some (run, Some outcome)))"
  have rest: "once (ends_with in_doubt) (bindR (tryR (dispatch_tool env run d lease call sid aid (Some NON_IDEMPOTENT))) (?f aid))" for aid
  proof (rule once_bind_last [OF once_try [OF dispatch_tool_uncertain [OF assms]]])
    fix r show "quietly.ok env rid {} (?f aid r) (\<lambda>_. True)"
      by (rule quietly.ok_weaken [OF quietly.ok_tool_failed _ subset_refl] ok_rule | (clarsimp simp: assms; fail))+
  next
    fix x s
    assume "case Inr x :: fault + fault + tool_outcome step_end of Inl e \<Rightarrow> True | Inr x \<Rightarrow> uncertain_fault x"
    then obtain e where "x = Inl e" "fst (classify_fault e) = UNCERTAIN" by (auto simp: uncertain_fault_def)
    then show "ends_with in_doubt (fst (?f aid x s))" by (simp add: tool_failed_uncertain)
  qed (simp add: ends_with_def in_doubt_def)
  show ?thesis unfolding tool_attempt_def
    by (rule rest once_bind_quiet [where rid = rid] once_then_quiet [where rid = rid] once_if
        once_or_cancelled ok_rule once_ret | (clarsimp simp: assms; fail))+
qed

lemma tool_step_uncertain:
  assumes "of_run rid run" and "held_by env lease" and "always_uncertain d (call_tool_name call)"
    and "frozen_tool_effect run (call_tool_name call) = Some NON_IDEMPOTENT"
  shows "once in_doubt (run_tool_step env run d lease call step replay explicit)"
proof -
  have give_up: "once P (thenR (record_failed_step env run lease sid STEP_TOOL None)
      (bindR (fail_run env run lease None) (\<lambda>r. retR (r, None :: tool_outcome option))))" for P sid
    by (rule quiet_once [where rid = rid and env = env and Q = "\<lambda>_. True"])
      (rule ok_rule | (clarsimp simp: assms; fail))+
  have loop: "once in_doubt (tool_loop env run d lease call sid (Some NON_IDEMPOTENT) policy n)" for sid policy n
  proof (rule once_retry [where m = "case policy of None \<Rightarrow> 0 | Some p \<Rightarrow> max_attempts p"])
    show "once (ends_with in_doubt) (tool_attempt env run d lease call sid (Some NON_IDEMPOTENT) policy n)" for n
      by (rule tool_attempt_uncertain [OF assms(1-3)])
  qed (auto intro: tool_loop.simps dest: tool_attempt_continue)
  show ?thesis unfolding run_tool_step_def Let_def assms(4)
    by (rule give_up loop once_bind_quiet [where rid = rid]
        once_then_quiet [where rid = rid] once_if ok_rule | (clarsimp simp: assms; fail))+
qed

end
