(* ===== verification/Runner_Output.thy ===== *)
theory Runner_Output
  imports Runner_Effects
begin

text \<open>
  What a driven Run returns. The logic here is about results only: \<open>gives m Q\<close> says that every
  value \<open>m\<close> returns satisfies \<open>Q\<close>. It shows that a Run ends SUCCEEDED only with an output that
  its frozen contract accepts, and that an interrupted call of a NON_IDEMPOTENT tool is not
  repeated by recovery.
\<close>

named_theorems gives_rule

definition gives :: "'a runner \<Rightarrow> ('a \<Rightarrow> bool) \<Rightarrow> bool" where
  "gives m Q \<longleftrightarrow> (\<forall>s x t. m s = (Inr x, t) \<longrightarrow> Q x)"

lemma gives_top [gives_rule]: "gives m (\<lambda>_. True)"
  by (simp add: gives_def)

lemma gives_weaken: "gives m P \<Longrightarrow> (\<And>x. P x \<Longrightarrow> Q x) \<Longrightarrow> gives m Q"
  by (auto simp: gives_def)

lemma gives_bind [gives_rule]:
  "gives m P \<Longrightarrow> (\<And>x. P x \<Longrightarrow> gives (f x) Q) \<Longrightarrow> gives (bindR m f) Q"
  by (fastforce simp: gives_def bindR_result)

lemma gives_then [gives_rule]: "gives k Q \<Longrightarrow> gives (thenR m k) Q"
  by (fastforce simp: gives_def thenR_result)

lemma gives_ret [gives_rule]: "Q x \<Longrightarrow> gives (retR x) Q"
  and gives_raise [gives_rule]: "gives (raiseR e) Q"
  and gives_reraise [gives_rule]: "gives (reraise e') Q"
  by (simp_all add: gives_def retR_def raiseR_def reraise_def)

lemma gives_if [gives_rule]:
  "(b \<Longrightarrow> gives m Q) \<Longrightarrow> (\<not> b \<Longrightarrow> gives k Q) \<Longrightarrow> gives (if b then m else k) Q"
  by simp

lemma gives_or_cancelled [gives_rule]:
  "(c = None \<Longrightarrow> gives m Q) \<Longrightarrow> (\<And>r. c = Some r \<Longrightarrow> gives (stop r) Q) \<Longrightarrow> gives (or_cancelled c m stop) Q"
  by (cases c) (simp_all add: or_cancelled_def)

lemma gives_cases [gives_rule]:
  "(\<And>e. x = Inl e \<Longrightarrow> gives (f e) Q) \<Longrightarrow> (\<And>y. x = Inr y \<Longrightarrow> gives (g y) Q) \<Longrightarrow> gives (case_sum f g x) Q"
  "(z = None \<Longrightarrow> gives m Q) \<Longrightarrow> (\<And>y. z = Some y \<Longrightarrow> gives (h y) Q) \<Longrightarrow>
     gives (case z of None \<Rightarrow> m | Some y \<Rightarrow> h y) Q"
  "(\<And>r. w = Stop r \<Longrightarrow> gives (k r) Q) \<Longrightarrow> (\<And>y. w = Go y \<Longrightarrow> gives (l y) Q) \<Longrightarrow>
     gives (case w of Stop r \<Rightarrow> k r | Go y \<Rightarrow> l y) Q"
  "(\<And>a b. p = (a, b) \<Longrightarrow> gives (i a b) Q) \<Longrightarrow> gives (case p of (a, b) \<Rightarrow> i a b) Q"
  by (simp_all split: sum.splits option.splits step_end.splits prod.splits)

lemma gives_try [gives_rule]: "gives m P \<Longrightarrow> gives (tryR m) (\<lambda>x. \<forall>y. x = Inr y \<longrightarrow> P y)"
  by (auto simp: gives_def tryR_def split: prod.splits sum.splits if_splits)

section \<open>Runs that ended or wait\<close>

definition ended :: "run_record \<Rightarrow> bool" where
  "ended r \<longleftrightarrow> run_status_of r \<notin> {CREATED, RUNNING, SUCCEEDED}"

lemma gives_transition: "gives (transition env run args) (\<lambda>r. run_status_of r = to_status args)"
  by (auto simp: gives_def dest: transition_runner_status)

lemma gives_end_with [gives_rule]: "gives (end_with env run lease args) (\<lambda>r. run_status_of r = to_status args)"
  by (auto simp: gives_def dest: end_with_status)

lemma gives_fail_run [gives_rule]: "gives (fail_run env run lease code) ended"
  by (auto simp: gives_def ended_def dest: fail_run_status)

lemma gives_maybe_cancel [gives_rule]: "gives (maybe_cancel env run lease) (\<lambda>c. \<forall>r. c = Some r \<longrightarrow> ended r)"
  unfolding maybe_cancel_def ended_def
  by (rule gives_transition gives_rule | (clarsimp; fail))+

lemma gives_enforce [gives_rule]:
  "gives (enforce_policy env run d lease gate payload ga) (\<lambda>r. r = run \<or> ended r)"
  unfolding gives_def
proof (intro allI impI)
  fix s r t assume r: "enforce_policy env run d lease gate payload ga s = (Inr r, t)"
  show "r = run \<or> ended r"
  proof (cases "policy_verdict run d gate payload")
    case (Inl e)
    then show ?thesis
      using r by (auto simp: enforce_policy_def thenR_result Let_def ended_def dest!: fail_run_status)
  next
    case (Inr v)
    then show ?thesis using r
      by (auto simp: enforce_policy_def thenR_result retR_def ended_def split: prod.splits policy_action.splits
          dest!: end_with_status)
  qed
qed


section \<open>Steps\<close>

text \<open>A Step gives back the Run it was given together with its result, or a Run that ended.\<close>

abbreviation step_result :: "run_record \<Rightarrow> run_record \<times> 'a option \<Rightarrow> bool" where
  "step_result run x \<equiv> (snd x \<noteq> None \<longrightarrow> fst x = run) \<and> (snd x = None \<longrightarrow> ended (fst x))"

lemma gives_asked [gives_rule]:
  "gives (if asked then thenR m (maybe_cancel env run lease) else retR None) (\<lambda>c. \<forall>r. c = Some r \<longrightarrow> ended r)"
  by (rule gives_rule | (clarsimp; fail))+

lemma gives_stop_model [gives_rule]: "gives (stop_model_step env run lease sid code) ended"
  unfolding stop_model_step_def by (rule gives_rule | (clarsimp; fail))+

lemma gives_waiting [gives_rule]:
  "gives (enter_waiting_uncertain env run lease sid) ended"
  "gives (enter_waiting_policy_outcome env run lease sid) ended"
  "gives (enter_waiting_definition_unavailable env run lease) ended"
  unfolding enter_waiting_uncertain_def enter_waiting_policy_outcome_def
    enter_waiting_definition_unavailable_def
  by (rule gives_transition gives_weaken [OF gives_end_with] gives_rule | (clarsimp simp: ended_def plain_args_def; fail))+

lemma gives_waiting_unconfirmed [gives_rule]: "gives (enter_waiting_unconfirmed env run lease sid' aid) ended"
  unfolding enter_waiting_unconfirmed_def by (rule gives_rule | (clarsimp; fail))+

lemma gives_waiting_preserving [gives_rule]:
  "gives (enter_waiting_preserving_failure env run lease sid inflight) ended"
  unfolding enter_waiting_preserving_failure_def Let_def by (rule gives_rule | (clarsimp; fail))+

lemma gives_missing_declaration [gives_rule]:
  "gives (fail_missing_frozen_tool_declaration env run lease name) ended"
  unfolding fail_missing_frozen_tool_declaration_def by (rule gives_rule | (clarsimp; fail))+

lemma gives_accept_outcome [gives_rule]:
  "run_status_of run = RUNNING \<Longrightarrow>
     gives (accept_outcome env run d lease call sid aid reply) (\<lambda>e. \<forall>r. e = Stop r \<longrightarrow> ended r)"
  by (cases reply) (simp only: accept_outcome_def tool_reply.case, (rule gives_rule | (clarsimp; fail))+)

lemma gives_dispatch_tool [gives_rule]:
  "run_status_of run = RUNNING \<Longrightarrow>
     gives (dispatch_tool env run d lease call sid aid effect) (\<lambda>e. \<forall>r. e = Stop r \<longrightarrow> ended r)"
  unfolding dispatch_tool_def Let_def by (rule gives_rule | (clarsimp; fail))+

lemma gives_tool_failed [gives_rule]:
  "gives (tool_failed env run lease sid aid effect policy count e) (\<lambda>x. \<forall>y. x = Some y \<longrightarrow> step_result run y)"
  unfolding tool_failed_def by (rule gives_rule | (clarsimp; fail))+

lemma gives_tool_attempt [gives_rule]:
  "run_status_of run = RUNNING \<Longrightarrow> gives (tool_attempt env run d lease call sid effect policy count)
     (\<lambda>x. \<forall>y. x = Some y \<longrightarrow> step_result run y)"
  unfolding tool_attempt_def by (rule gives_rule | (clarsimp; fail))+


lemma gives_retry:
  assumes loop: "\<And>n s. loop n s = bindR (body (n + 1)) (\<lambda>r t. case r of Some x \<Rightarrow> retR x t | None \<Rightarrow> loop (n + 1) t) s"
    and body: "\<And>n. gives (body n) (\<lambda>x. \<forall>y. x = Some y \<longrightarrow> Q y)"
    and bound: "\<And>n s t. body n s = (Inr None, t) \<Longrightarrow> n < (m :: int)"
  shows "gives (loop n) Q"
proof (induction "nat (m - n)" arbitrary: n rule: less_induct)
  case less
  show ?case unfolding gives_def
  proof (intro allI impI)
    fix s x t assume "loop n s = (Inr x, t)"
    then obtain r u where b: "body (n + 1) s = (Inr r, u)"
      and r: "(case r of Some x \<Rightarrow> retR x u | None \<Rightarrow> loop (n + 1) u) = (Inr x, t)"
      unfolding loop [of n s] bindR_result by blast
    show "Q x"
    proof (cases r)
      case None
      then have "gives (loop (n + 1)) Q" using less [of "n + 1"] bound [of "n + 1"] b by force
      moreover have "loop (n + 1) u = (Inr x, t)" using r None by simp
      ultimately show ?thesis unfolding gives_def by blast
    qed (use body [of "n + 1"] b r in \<open>auto simp: gives_def retR_def\<close>)
  qed
qed

lemma gives_tool_loop [gives_rule]:
  assumes "run_status_of run = RUNNING"
  shows "gives (tool_loop env run d lease call sid effect policy n) (step_result run)"
  by (rule gives_retry [where m = "case policy of None \<Rightarrow> 0 | Some p \<Rightarrow> max_attempts p"],
      rule tool_loop.simps, rule gives_tool_attempt [OF assms]) (auto dest: tool_attempt_continue)

lemma gives_tool_step [gives_rule]:
  "run_status_of run = RUNNING \<Longrightarrow>
     gives (run_tool_step env run d lease call step replay explicit) (step_result run)"
  unfolding run_tool_step_def Let_def by (rule gives_rule | (clarsimp; fail))+

lemma gives_model_failed [gives_rule]:
  "gives (model_failed env run lease sid aid p policy count reserved usage e)
     (\<lambda>x. \<forall>y. x = Some y \<longrightarrow> step_result run y)"
  unfolding model_failed_def Let_def by (rule gives_rule | (clarsimp; fail))+

lemma gives_close_cancelled [gives_rule]:
  "gives (close_cancelled_dispatch env run lease sid aid p message) (\<lambda>c. \<forall>r. c = Some r \<longrightarrow> ended r)"
  unfolding close_cancelled_dispatch_def by (rule gives_rule | (clarsimp; fail))+

lemma gives_reserve_dispatch [gives_rule]:
  "gives (reserve_dispatch env run d lease sid aid p contract request streams) (\<lambda>e. \<forall>r. e = Stop r \<longrightarrow> ended r)"
  unfolding reserve_dispatch_def by (rule gives_rule | (clarsimp; fail))+

lemma gives_invoke_model [gives_rule]:
  "gives (invoke_model env run lease a sid aid p request streams) (\<lambda>e. \<forall>r. e = Stop r \<longrightarrow> ended r)"
  unfolding invoke_model_def by (rule gives_rule | (clarsimp; fail))+

lemma gives_closed [gives_rule]:
  "gives (if asked then close_cancelled_dispatch env run lease sid aid p message else retR None)
     (\<lambda>c. \<forall>r. c = Some r \<longrightarrow> ended r)"
  by (rule gives_rule | (clarsimp; fail))+

lemma gives_call_model [gives_rule]:
  "gives (call_model env run d lease a sid aid p contract request streams) (\<lambda>e. \<forall>r. e = Stop r \<longrightarrow> ended r)"
  unfolding call_model_def by (rule gives_rule | (clarsimp; fail))+

lemma gives_dispatch_reserved [gives_rule]:
  "gives (dispatch_reserved env run d lease a sid aid contract request streams t policy count)
     (\<lambda>x. \<forall>y. x = Some y \<longrightarrow> step_result run y)"
  unfolding dispatch_reserved_def by (rule gives_rule | (clarsimp; fail))+

lemma gives_model_attempt [gives_rule]:
  "gives (model_attempt env run d lease a b snap t sid policy count) (\<lambda>x. \<forall>y. x = Some y \<longrightarrow> step_result run y)"
  unfolding model_attempt_def dispatch_model_def Let_def by (rule gives_rule | (clarsimp; fail))+

lemma gives_model_loop [gives_rule]:
  "gives (model_loop env run d lease a b snap t sid policy n) (step_result run)"
  by (rule gives_retry [where m = "case policy of None \<Rightarrow> 0 | Some p \<Rightarrow> max_attempts p"],
      rule model_loop.simps, rule gives_model_attempt) (auto dest: model_attempt_continue)

lemma gives_model_step [gives_rule]:
  "gives (run_single_model_step env run d lease t step replay) (step_result run)"
  unfolding run_single_model_step_def Let_def by (rule gives_rule | (clarsimp; fail))+

section \<open>Context and compression\<close>

abbreviation same_or_ended :: "run_record \<Rightarrow> run_record \<Rightarrow> bool" where
  "same_or_ended run r \<equiv> r = run \<or> ended r"

lemma gives_context_failed [gives_rule]:
  "gives (context_failed env run lease sid aid e) (\<lambda>x. ended (fst x))"
  unfolding context_failed_def by (rule gives_rule | (clarsimp simp: ended_def plain_args_def; fail))+

lemma gives_provide_context [gives_rule]:
  "run_status_of run = RUNNING \<Longrightarrow>
     gives (provide_context env run d lease provider stage boundary sid aid) (\<lambda>e. \<forall>r. e = Stop r \<longrightarrow> ended r)"
  unfolding provide_context_def by (rule gives_rule | (clarsimp; fail))+

lemmas gives_context_failed_tail = gives_weaken [OF gives_context_failed]

lemma gives_context_stage [gives_rule]:
  "run_status_of run = RUNNING \<Longrightarrow>
     gives (run_context_stage env run d lease stage boundary) (\<lambda>x. same_or_ended run (fst x))"
  unfolding run_context_stage_def Let_def
  by (rule gives_context_failed_tail gives_rule | (clarsimp; fail))+

lemma gives_stages [gives_rule]:
  "run_status_of run = RUNNING \<Longrightarrow> gives (run_stages env run d lease stages) (same_or_ended run)"
proof (induction stages)
  case (Cons stage stages)
  have rest: "gives (run_stages env r d lease stages) (same_or_ended run)"
    if "same_or_ended run r" and "run_status_of r = RUNNING" for r
    using that Cons.IH [OF Cons.prems] by (auto simp: ended_def)
  show ?case unfolding run_stages.simps
    by (rule rest gives_rule | (clarsimp simp: Cons.prems; fail))+
qed (simp add: gives_ret)


lemma gives_compression_evidence [gives_rule]: "gives (fail_compression_evidence env run lease cp) ended"
  unfolding fail_compression_evidence_def Let_def by (rule gives_rule | (clarsimp; fail))+

lemma gives_or_bad_evidence [gives_rule]:
  "gives bad Q \<Longrightarrow> (\<And>x. r = Inr x \<Longrightarrow> gives (ok x) Q) \<Longrightarrow> gives (or_bad_evidence r bad ok) Q"
  by (simp add: or_bad_evidence_def gives_raise split: sum.splits)

lemma gives_compression_step [gives_rule]:
  "gives (run_compression_step env run d lease step replay) (\<lambda>x. same_or_ended run (fst x))"
  unfolding run_compression_step_def Let_def by (rule gives_rule | (clarsimp; fail))+

lemma gives_boundary_stages [gives_rule]:
  "run_status_of run = RUNNING \<Longrightarrow>
     gives (run_boundary_stages env run d lease boundary stages cps) (\<lambda>e. \<forall>r. e = Stop r \<longrightarrow> ended r)"
proof (induction stages arbitrary: cps)
  case (Cons stage stages)
  show ?case unfolding run_boundary_stages.simps
    by (rule Cons.IH gives_rule | (clarsimp simp: Cons.prems ended_def; fail))+
qed (simp add: gives_ret)

lemma gives_boundary_if [gives_rule]:
  "run_status_of run = RUNNING \<Longrightarrow>
     gives (if b then run_boundary_stages env run d lease boundary stages cps else retR (Go cps))
       (\<lambda>e. \<forall>r. e = Stop r \<longrightarrow> ended r)"
  by (rule gives_rule | (clarsimp; fail))+

lemma gives_apply_compression [gives_rule]:
  "gives (apply_compression_checkpoint env run lease cps items) (\<lambda>x. same_or_ended run (fst x))"
  unfolding apply_compression_checkpoint_def by (rule gives_rule | (clarsimp; fail))+

lemma gives_prepare_context [gives_rule]:
  "run_status_of run = RUNNING \<Longrightarrow>
     gives (prepare_model_step_context env run d lease) (\<lambda>x. same_or_ended run (fst x))"
  unfolding prepare_model_step_context_def Let_def by (rule gives_rule | (clarsimp; fail))+

section \<open>Successful Runs\<close>

definition accepted :: "runner_env \<Rightarrow> run_record \<Rightarrow> run_record \<Rightarrow> bool" where
  "accepted env run r \<longleftrightarrow> (run_status_of r = SUCCEEDED \<longrightarrow>
     (\<forall>contract. Option.bind (run_snapshot run) snap_output_contract = Some contract \<longrightarrow>
       (\<exists>t err. run_output r = Some t \<and> validate_output (re_loads env) contract t = Inr (True, err))))"

lemma ended_accepted [simp]: "ended r \<Longrightarrow> accepted env run r"
  by (simp add: ended_def accepted_def)

lemma running_accepted [simp]: "run_status_of r = RUNNING \<Longrightarrow> accepted env run r"
  by (simp add: accepted_def)

lemmas ended_tails = gives_fail_run [THEN gives_weaken] gives_stop_model [THEN gives_weaken]
  gives_waiting [THEN gives_weaken]

lemma run_to_record_output: "run_to_record sr i out snap h = Inr r \<Longrightarrow> run_output r = out"
  by (cases i) (auto simp: run_to_record_def)

lemma transition_output:
  assumes "transition_run env now utc rid v args s = (Inr r, s')" and "to_output args = Some txt"
    and "to_snapshot args = None" and "codec_ok env"
  shows "run_output r = Some txt"
proof -
  obtain cur s3 b where l: "load_run env s3 cur rid = Inr r"
    and b: "env_encode env txt = Inr b" "payloads s3 (rid, FIELD_RUN_OUTPUT) = Some b"
    using assms(1-3)
    by (auto simp: transition_run_def attempt_op_def and_then_def write_optional_def Let_def
        split: sum.splits prod.splits if_splits)
  from l obtain out where "read_payload env s3 rid FIELD_RUN_OUTPUT = Inr out" "run_output r = out"
    unfolding load_run_def bindE_eq_Inr by (elim exE conjE) (auto dest: run_to_record_output)
  then show ?thesis
    using b codec_decode [OF assms(4) b(1)] by (auto simp: read_payload_def split: option.splits)
qed

lemma succeed_run_output:
  assumes "codec_ok (re_store env)"
  shows "gives (succeed_run env run lease (Some txt)) (\<lambda>r. run_output r = Some txt)"
  unfolding gives_def
proof (intro allI impI)
  fix s r t assume "succeed_run env run lease (Some txt) s = (Inr r, t)"
  then obtain u where "transition env run ((plain_args SUCCEEDED lease)\<lparr>to_output := Some txt\<rparr>) s = (Inr r, u)"
    by (auto simp: succeed_run_def end_with_def bindR_result thenR_result retR_def)
  from transition_output [OF store_opE [OF this [unfolded transition_def]]] assms
  show "run_output r = Some txt" by (simp add: plain_args_def)
qed


lemma gives_liftE: "gives (liftE r) (\<lambda>x. r = Inr x)"
  by (cases r) (auto simp: gives_def liftE_def retR_def raiseR_def)

lemma gives_succeed:
  assumes "codec_ok (re_store env)"
    and "\<And>contract. Option.bind (run_snapshot run) snap_output_contract = Some contract \<Longrightarrow>
       \<exists>err. validate_final env contract out = Inr (True, err)"
  shows "gives (succeed_run env run lease out) (accepted env run)"
proof (cases out)
  case None
  then have "Option.bind (run_snapshot run) snap_output_contract = None"
    using assms(2) by (cases "Option.bind (run_snapshot run) snap_output_contract") (auto simp: validate_final_def)
  then show ?thesis by (auto simp: accepted_def gives_def)
next
  case (Some x)
  then show ?thesis using succeed_run_output [OF assms(1), of run lease x] assms(2)
    by (auto simp: accepted_def gives_def validate_final_def)
qed

text \<open>A Run that a Step gave back is the Run the Step was given.\<close>

lemma gives_same:
  assumes "gives (m run) Q" and "same_or_ended run r" and "run_status_of r = RUNNING"
  shows "gives (m r) Q"
  using assms by (auto simp: ended_def)

lemma gives_repair_loop:
  assumes codec: "codec_ok (re_store env)" and running: "run_status_of run = RUNNING"
    and contract: "Option.bind (run_snapshot run) snap_output_contract = Some contract"
  shows "gives (repair_loop env run d lease contract n candidate err) (accepted env run)"
proof (induction n arbitrary: candidate err)
  case 0
  show ?case unfolding repair_loop.simps by (rule gives_weaken [OF gives_fail_run]) simp
next
  case (Suc n)
  have valid: "gives (bindR (liftE (validate_final env contract (resp_content r))) (\<lambda>(valid, err').
           if valid then succeed_run env run2 lease (resp_content r)
           else repair_loop env run2 d lease contract n (resp_content r) err')) (accepted env run)"
    if "same_or_ended run run2" and "run_status_of run2 = RUNNING" for r run2
    using that contract running
    by (intro gives_bind [OF gives_liftE] gives_cases gives_if gives_same [where m = "\<lambda>x. repair_loop env x d lease contract n _ _", OF Suc.IH]
        gives_same [where m = "\<lambda>x. succeed_run env x lease _", OF gives_succeed [OF codec]]) auto
  show ?case unfolding repair_loop.simps
    by (rule valid gives_rule | (auto simp: running; fail))+
qed


lemma gives_repair_output:
  assumes "codec_ok (re_store env)" and "run_status_of run = RUNNING"
  shows "gives (repair_output env run d lease invalid err n) (accepted env run)"
  unfolding repair_output_def Let_def
  by (rule gives_repair_loop [OF assms] gives_rule | (clarsimp; fail))+

lemma gives_strict_failure: "gives (fail_strict_output_contract env run lease code) (accepted env r)"
  unfolding fail_strict_output_contract_def
  by (rule gives_weaken [OF gives_fail_run] gives_rule | (clarsimp; fail))+

lemma gives_finalize:
  assumes codec: "codec_ok (re_store env)" and running: "run_status_of run = RUNNING"
  shows "gives (finalize_output env run d lease out repair) (accepted env run)"
proof -
  let ?rest = "\<lambda>run1. case Option.bind (run_snapshot run1) snap_output_contract of
       None \<Rightarrow> succeed_run env run1 lease out
     | Some contract \<Rightarrow>
         bindR (liftE (validate_final env contract out)) (\<lambda>(valid, err).
         if valid then succeed_run env run1 lease out
         else if oc_structured_output contract = JSON_SCHEMA_STRICT
           then fail_strict_output_contract env run1 lease ''MODEL_CONTRACT_VIOLATION''
         else if oc_fallback contract = FALLBACK_REPAIR then
           (case oc_repair contract of
              None \<Rightarrow> raiseR AttributeError
            | Some p \<Rightarrow> repair_output env run1 d lease out err (repair_max_attempts p))
         else fail_run env run1 lease (Some ERROR_OUTPUT_VALIDATION_FAILED))"
  have rest: "gives (?rest run) (accepted env run)"
    by (rule gives_liftE gives_strict_failure gives_weaken [OF gives_fail_run]
        gives_repair_output [OF assms] gives_succeed [OF codec] gives_rule | (clarsimp; fail))+
  show ?thesis unfolding finalize_output_def
    by (rule gives_bind [OF gives_enforce], rule gives_if)
      (auto intro: gives_ret gives_same [where m = ?rest, OF rest] simp: running)
qed

lemma gives_resume_repair:
  assumes codec: "codec_ok (re_store env)" and running: "run_status_of run = RUNNING"
  shows "gives (resume_output_repair env run d lease sid cps) (accepted env run)"
proof -
  have rest: "gives (finalize_output env r d lease out repair) (accepted env run)" if "r = run" for r out repair
    using gives_finalize [OF assms] that by simp
  show ?thesis unfolding resume_output_repair_def
    by (rule rest gives_rule | (auto; fail))+
qed

section \<open>The driven Run\<close>

lemma gives_tool_calls [gives_rule]:
  "run_status_of run = RUNNING \<Longrightarrow> gives (run_tool_calls env run d lease calls outcomes)
     (\<lambda>e. (\<forall>r. e = Stop r \<longrightarrow> ended r) \<and> (\<forall>r os. e = Go (r, os) \<longrightarrow> r = run))"
proof (induction calls arbitrary: outcomes)
  case (Cons call calls)
  have rest: "gives (run_tool_calls env r d lease calls os)
     (\<lambda>e. (\<forall>r. e = Stop r \<longrightarrow> ended r) \<and> (\<forall>r os. e = Go (r, os) \<longrightarrow> r = run))" if "r = run" for r os
    using that Cons by simp
  show ?case unfolding run_tool_calls.simps
    by (rule rest gives_rule | (clarsimp simp: Cons.prems; fail))+
qed (simp add: gives_ret)

lemma gives_resume_tool_calls [gives_rule]:
  "run_status_of run = RUNNING \<Longrightarrow> gives (resume_tool_calls env run d lease confirmed calls step att outcomes)
     (\<lambda>e. (\<forall>r. e = Stop r \<longrightarrow> ended r) \<and> (\<forall>r os. e = Go (r, os) \<longrightarrow> r = run))"
proof (induction calls arbitrary: step att outcomes)
  case (Cons call calls)
  have rest: "gives (resume_tool_calls env r d lease confirmed calls st a os)
     (\<lambda>e. (\<forall>r. e = Stop r \<longrightarrow> ended r) \<and> (\<forall>r os. e = Go (r, os) \<longrightarrow> r = run))" if "r = run" for r st a os
    using that Cons by simp
  show ?case unfolding resume_tool_calls.simps
    by (rule rest gives_rule | (clarsimp simp: Cons.prems; fail))+
qed (simp add: gives_ret)

lemma gives_agent_loop:
  assumes codec: "codec_ok (re_store env)" and running: "run_status_of run = RUNNING"
  shows "gives (agent_loop fuel env run d lease outcomes step replay) (accepted env run)"
proof (induction fuel arbitrary: outcomes step replay)
  case 0
  show ?case unfolding agent_loop.simps by (rule gives_reraise)
next
  case (Suc fuel)
  have last: "gives (finalize_output env r d lease out repair) (accepted env run)" if "r = run" for r out repair
    using gives_finalize [OF assms] that by simp
  have again: "gives (agent_loop fuel env r d lease os st rep) (accepted env run)" if "r = run" for r os st rep
    using Suc that by simp
  show ?case unfolding agent_loop.simps
    by (rule last again gives_rule | (auto simp: running ended_def accepted_def; fail))+
qed

lemma gives_execute_steps:
  assumes codec: "codec_ok (re_store env)" and running: "run_status_of run = RUNNING"
  shows "gives (execute_steps fuel env run d lease) (accepted env run)"
proof -
  have again: "gives (agent_loop fuel env r d lease os st rep) (accepted env run)" if "r = run" for r os st rep
    using gives_agent_loop [OF assms] that by simp
  show ?thesis unfolding execute_steps_def run_input_context_stages_def
    by (rule again gives_rule | (auto simp: running ended_def accepted_def; fail))+
qed


lemma gives_settle_attempt [gives_rule]:
  "gives (settle_model_attempt env run lease atts unconfirmed) (\<lambda>e. \<forall>r. e = Stop r \<longrightarrow> ended r)"
  unfolding settle_model_attempt_def Let_def by (rule gives_rule | (clarsimp; fail))+

lemma gives_resume_stages [gives_rule]:
  "run_status_of run = RUNNING \<Longrightarrow> gives (resume_stages env run d lease cps) (same_or_ended run)"
  unfolding resume_stages_def run_input_context_stages_def by (rule gives_rule | (clarsimp; fail))+

lemma gives_replay_model:
  assumes codec: "codec_ok (re_store env)" and running: "run_status_of run = RUNNING"
  shows "gives (replay_model_step fuel env run d lease cps sid unconfirmed) (accepted env run)"
proof -
  have again: "gives (agent_loop fuel env r d lease os st rep) (accepted env run)" if "r = run" for r os st rep
    using gives_agent_loop [OF assms] that by simp
  show ?thesis unfolding replay_model_step_def
    by (rule again gives_resume_repair [OF assms] gives_rule | (auto simp: running ended_def accepted_def; fail))+
qed

lemma gives_continue_from:
  assumes codec: "codec_ok (re_store env)" and running: "run_status_of run = RUNNING"
  shows "gives (continue_from_checkpoints fuel env run d lease cps model_step tool_step tool_att) (accepted env run)"
proof -
  have again: "gives (agent_loop fuel env r d lease os st rep) (accepted env run)" if "r = run" for r os st rep
    using gives_agent_loop [OF assms] that by simp
  show ?thesis unfolding continue_from_checkpoints_def Let_def
    by (rule again gives_finalize [OF assms] gives_rule | (auto simp: running ended_def accepted_def; fail))+
qed

lemma gives_resume_running:
  assumes codec: "codec_ok (re_store env)" and running: "run_status_of run = RUNNING"
  shows "gives (resume_running fuel env run lease) (accepted env run)"
proof -
  have replay: "gives (replay_model_step fuel env r d lease cps sid u) (accepted env run)"
    and continue: "gives (continue_from_checkpoints fuel env r d lease cps m ts ta) (accepted env run)"
    if "same_or_ended run r" and "run_status_of r = RUNNING" for r d cps sid u m ts ta
    using that gives_replay_model [OF assms] gives_continue_from [OF assms] by (auto simp: ended_def)
  show ?thesis unfolding resume_running_def Let_def
    by (rule replay continue ended_tails gives_rule | (auto simp: running; fail))+
qed

lemma accepted_output:
  assumes "gives m (accepted env run)" and "m s = (Inr r, t)" and "run_status_of r = SUCCEEDED"
    and "Option.bind (run_snapshot run) snap_output_contract = Some contract"
  shows "\<exists>x err. run_output r = Some x \<and> validate_output (re_loads env) contract x = Inr (True, err)"
proof -
  have "accepted env run r" using assms(1,2) unfolding gives_def by blast
  then show ?thesis using assms(3,4) by (simp add: accepted_def)
qed

section \<open>Recovery of an interrupted call\<close>

lemma enter_waiting_preserving_result:
  "enter_waiting_preserving_failure env run lease sid inflight s = (Inr w, t) \<Longrightarrow> waits_on sid w"
  by (auto simp: enter_waiting_preserving_failure_def enter_waiting_unconfirmed_def id_or_new_def Let_def
      bindR_result thenR_result split: if_splits dest: enter_waiting_uncertain_result)

definition next_call :: "ident list \<Rightarrow> tool_call list \<Rightarrow> tool_call option" where
  "next_call confirmed calls = find (\<lambda>c. call_id c \<notin> set confirmed) calls"

lemma resume_tool_calls_in_doubt:
  assumes "next_call confirmed calls = Some call"
    and "frozen_tool_effect run (call_tool_name call) = Some NON_IDEMPOTENT"
  shows "resume_tool_calls env run d lease confirmed calls (Some sid) att outcomes =
     bindR (enter_waiting_preserving_failure env run lease sid att) (\<lambda>r. retR (Stop r))"
  using assms by (induction calls) (auto simp: next_call_def split: if_splits)

lemma resume_in_doubt_waits:
  assumes "next_call confirmed calls = Some call"
    and "frozen_tool_effect run (call_tool_name call) = Some NON_IDEMPOTENT"
    and "ids_ok (rs_store s)" and "held_by env lease"
    and "resume_tool_calls env run d lease confirmed calls (Some sid) att outcomes s = (r, t)"
  shows "rs_effects t = rs_effects s \<and> (\<forall>e. r = Inr e \<longrightarrow> (\<exists>w. e = Stop w \<and> waits_on sid w))"
proof -
  have "quietly.ok env (run_id run) {} (resume_tool_calls env run d lease confirmed calls (Some sid) att outcomes) (\<lambda>_. True)"
    unfolding resume_tool_calls_in_doubt [OF assms(1,2)]
    by (rule ok_rule | (clarsimp simp: assms(4); fail))+
  then have "rs_effects t = rs_effects s"
    using assms(3,5) by (auto simp: quietly.ok_def quietly.okS_def quiet_def dest!: spec [of _ s])
  moreover have "\<exists>w. e = Stop w \<and> waits_on sid w" if "r = Inr e" for e
    using assms(5) that unfolding resume_tool_calls_in_doubt [OF assms(1,2)] bindR_result
    by (auto simp: retR_def bindR_result dest: enter_waiting_preserving_result)
  ultimately show ?thesis by blast
qed

end
