(* ===== verification/Runner_Fuel.thy ===== *)
theory Runner_Fuel
  imports Runner_Output
begin

text \<open>
  The fuel of \<open>agent_loop\<close>. \<open>total m\<close> says that \<open>m\<close> never runs out of it; every coroutine below
  the loop is total when the calls to adapters, tools and providers return. The loop itself runs
  out of fuel \<open>n\<close> only after \<open>n\<close> calls to the model.
\<close>

named_theorems total_rule

definition total :: "'a runner \<Rightarrow> bool" where
  "total m \<longleftrightarrow> (\<forall>s. fst (m s) \<noteq> Inl Unfinished \<and> length (rs_effects s) \<le> length (rs_effects (snd (m s))))"

lemma totalD:
  "total m \<Longrightarrow> m s = (r, t) \<Longrightarrow> r \<noteq> Inl Unfinished \<and> length (rs_effects s) \<le> length (rs_effects t)"
  unfolding total_def by (metis fst_conv snd_conv)

lemma totalI:
  "(\<And>s r t. m s = (r, t) \<Longrightarrow> r \<noteq> Inl Unfinished \<and> length (rs_effects s) \<le> length (rs_effects t)) \<Longrightarrow> total m"
  unfolding total_def by (metis prod.collapse)

lemma total_bind [total_rule]: "total m \<Longrightarrow> (\<And>x. total (f x)) \<Longrightarrow> total (bindR m f)"
  by (rule totalI) (fastforce simp: bindR_def split: prod.splits sum.splits dest: totalD)

lemma total_then [total_rule]: "total m \<Longrightarrow> total k \<Longrightarrow> total (thenR m k)"
  unfolding thenR_def by (rule total_bind)

lemma total_ret [total_rule]: "total (retR x)"
  and total_raise [total_rule]: "total (raiseR e)"
  and total_reraise: "e' \<noteq> Unfinished \<Longrightarrow> total (reraise e')"
  and total_get [total_rule]: "total (getR g)"
  and total_modify: "(\<And>s. length (rs_effects s) \<le> length (rs_effects (h s))) \<Longrightarrow> total (modifyR h)"
  by (simp_all add: total_def retR_def raiseR_def reraise_def getR_def modifyR_def)

lemma total_if [total_rule]: "(b \<Longrightarrow> total m) \<Longrightarrow> (\<not> b \<Longrightarrow> total k) \<Longrightarrow> total (if b then m else k)"
  by simp

lemma total_or_cancelled [total_rule]: "total m \<Longrightarrow> (\<And>r. total (stop r)) \<Longrightarrow> total (or_cancelled c m stop)"
  by (cases c) (simp_all add: or_cancelled_def)

lemma total_cases [total_rule]:
  "(\<And>e. x = Inl e \<Longrightarrow> total (f e)) \<Longrightarrow> (\<And>y. x = Inr y \<Longrightarrow> total (g y)) \<Longrightarrow> total (case_sum f g x)"
  "(z = None \<Longrightarrow> total m) \<Longrightarrow> (\<And>y. z = Some y \<Longrightarrow> total (h y)) \<Longrightarrow> total (case z of None \<Rightarrow> m | Some y \<Rightarrow> h y)"
  "(\<And>r. w = Stop r \<Longrightarrow> total (k r)) \<Longrightarrow> (\<And>y. w = Go y \<Longrightarrow> total (l y)) \<Longrightarrow>
     total (case w of Stop r \<Rightarrow> k r | Go y \<Rightarrow> l y)"
  "(\<And>a b. p = (a, b) \<Longrightarrow> total (i a b)) \<Longrightarrow> total (case p of (a, b) \<Rightarrow> i a b)"
  "total m1 \<Longrightarrow> total m2 \<Longrightarrow> total m3 \<Longrightarrow>
     total (case act of ALLOW \<Rightarrow> m1 | REJECT \<Rightarrow> m2 | REQUIRE_RESOLUTION \<Rightarrow> m3)"
  by (simp_all split: sum.splits option.splits step_end.splits prod.splits policy_action.splits)

lemma total_liftE [total_rule]: "total (liftE r)"
  unfolding liftE_def by (rule total_rule)+

lemma total_bind_lift: "(\<And>x. r = Inr x \<Longrightarrow> total (f x)) \<Longrightarrow> total (bindR (liftE r) f)"
  by (cases r) (simp_all add: liftE_def total_def bindR_def retR_def raiseR_def)

lemma total_try [total_rule]: "total m \<Longrightarrow> total (tryR m)"
  by (rule totalI) (auto simp: tryR_def split: prod.splits sum.splits if_splits dest: totalD)

lemma total_catch: "total m \<Longrightarrow> (\<And>e. e \<noteq> Unfinished \<Longrightarrow> total (h e)) \<Longrightarrow> total (catchR m h)"
  by (rule totalI) (fastforce simp: catchR_def split: prod.splits sum.splits if_splits dest: totalD)

lemma total_store_op [total_rule]: "total (store_op env f)"
  by (auto simp: total_def store_op_def split: prod.splits sum.splits)

lemma total_suspend [total_rule]: "total (suspend env)"
  by (simp add: total_def suspend_def split: prod.splits)

lemma total_external: "(\<And>n. answer n \<noteq> Inl Unfinished) \<Longrightarrow> total (external env call answer)"
  unfolding external_def
  by (rule total_rule | rule total_reraise total_modify | (simp; fail) | (metis; fail))+


section \<open>The coroutines of a Step\<close>

text \<open>The calls of a definition return.\<close>

definition adapter_total :: "model_adapter \<Rightarrow> bool" where
  "adapter_total a \<longleftrightarrow> (\<forall>n r. ma_generate a n r \<noteq> Inl Unfinished \<and> S_Raise Unfinished \<notin> set (ma_stream a n r))
     \<and> (\<forall>r x. ma_validate_response a r x \<noteq> Inl Unfinished)"

definition def_total :: "agent_definition \<Rightarrow> bool" where
  "def_total d \<longleftrightarrow> adapter_total (def_model_adapter d)
     \<and> (\<forall>a \<in> snd ` set (def_model_adapters d). adapter_total a)
     \<and> (\<forall>tool \<in> set (def_tools d). \<forall>n r. tool_invoke tool n r \<noteq> Inl Unfinished)
     \<and> (\<forall>p. def_context_provider d = Some p \<longrightarrow> (\<forall>n x. provide p n x \<noteq> Inl Unfinished))"

lemma total_store_calls [total_rule]:
  "total (store_get f)" "total (attempts_of env run)" "total (checkpoints_of env run)"
  "total (transition env run args)" "total (acquire_run_lease env run)"
  "total (release_run_lease env rid lease v)" "total (write_step env run lease sid ty st code)"
  "total (write_attempt env run lease a)" "total (write_checkpoint env run lease sid aid ty payload)"
  "total (assert_step_dispatch env run lease)" "total (prepare_dispatch env run lease guard)"
  "total (write_decision env run lease gate pairs i dcn)" "total (reserve_attempt env run lease sid aid p)"
  unfolding store_get_def attempts_of_def checkpoints_of_def transition_def acquire_run_lease_def
    release_run_lease_def write_step_def write_attempt_def write_checkpoint_def
    assert_step_dispatch_def prepare_dispatch_def write_decision_def reserve_attempt_def
  by (rule total_rule)+

lemma total_local [total_rule]:
  "total (new_id env)" "total (publish x)" "total (cancel_requested rid)" "total (request_cancel rid)"
  "total (clear_cancel rid)" "total (set_active rid b)" "total (sleep env policy)"
  "total (assert_adapter_contract_matches_snapshot env run d)"
  unfolding publish_def cancel_requested_def request_cancel_def clear_cancel_def set_active_def
    sleep_def assert_adapter_contract_matches_snapshot_def
  by (simp add: total_def new_id_def) (rule total_rule | rule total_modify, simp)+

lemma total_publish_status [total_rule]: "total (publish_status rid st)"
  unfolding publish_status_def by (rule total_rule)+

lemma total_id_or_new [total_rule]: "total (id_or_new env i)"
  unfolding id_or_new_def by (rule total_rule)+

lemma total_end_with [total_rule]: "total (end_with env run lease args)" "total (maybe_cancel env run lease)"
  unfolding end_with_def maybe_cancel_def by (rule total_rule)+

lemma total_failures [total_rule]:
  "total (record_failed_attempt env run lease sid failure ty aid pur usage)"
  "total (record_failed_step env run lease sid ty code)"
  "total (fail_run env run lease code)" "total (terminate_run env run lease st)"
  unfolding record_failed_attempt_def record_failed_step_def fail_run_def terminate_run_def
  by (rule total_rule)+

lemma total_stop_model [total_rule]: "total (stop_model_step env run lease sid code)"
  unfolding stop_model_step_def by (rule total_rule)+

lemma total_pending [total_rule]:
  "total (record_pending_tool_outcome env run lease sid outcome aid)"
  "total (fail_gated_step env run lease ga code message)"
  "total (checkpoint_tool_outcome env run lease sid outcome aid)"
  "total (pending_tool_outcome env run sid')"
  unfolding record_pending_tool_outcome_def fail_gated_step_def checkpoint_tool_outcome_def
    pending_tool_outcome_def
  by (rule total_rule)+

lemma total_enforce [total_rule]: "total (enforce_policy env run d lease gate payload ga)"
  unfolding enforce_policy_def Let_def by (rule total_rule)+

lemma total_waiting [total_rule]:
  "total (enter_waiting_definition_unavailable env run lease)"
  "total (enter_waiting_policy_outcome env run lease sid)"
  "total (enter_waiting_uncertain env run lease sid)"
  "total (fail_missing_frozen_tool_declaration env run lease name)"
  unfolding enter_waiting_definition_unavailable_def enter_waiting_policy_outcome_def
    enter_waiting_uncertain_def fail_missing_frozen_tool_declaration_def
  by (rule total_rule)+

lemma total_preserving [total_rule]:
  "total (enter_waiting_preserving_failure env run lease sid inflight)"
  unfolding enter_waiting_preserving_failure_def enter_waiting_unconfirmed_def Let_def
  by (rule total_rule)+

lemma total_retry:
  assumes loop: "\<And>n s. loop n s = bindR (body (n + 1)) (\<lambda>r t. case r of Some x \<Rightarrow> retR x t | None \<Rightarrow> loop (n + 1) t) s"
    and body: "\<And>n. total (body n)"
    and bound: "\<And>n s t. body n s = (Inr None, t) \<Longrightarrow> n < (m :: int)"
  shows "total (loop n)"
proof (induction "nat (m - n)" arbitrary: n rule: less_induct)
  case less
  show ?case unfolding total_def
  proof (intro allI)
    fix s
    obtain r t where b: "body (n + 1) s = (r, t)" by (cases "body (n + 1) s")
    note r = totalD [OF body b]
    show "fst (loop n s) \<noteq> Inl Unfinished \<and> length (rs_effects s) \<le> length (rs_effects (snd (loop n s)))"
    proof (cases "r = Inr None")
      case True
      then have "total (loop (n + 1))" using less [of "n + 1"] bound [of "n + 1"] b by force
      moreover have "loop n s = loop (n + 1) t" using loop [of n s] b True by (simp add: bindR_def)
      ultimately show ?thesis using r totalD [of "loop (n + 1)" t] by (cases "loop (n + 1) t") fastforce
    next
      case False
      then show ?thesis using loop [of n s] b r by (auto simp: bindR_def retR_def split: sum.splits option.splits)
    qed
  qed
qed

lemma total_tool_step [total_rule]:
  assumes "def_total d"
  shows "total (run_tool_step env run d lease call step replay explicit)"
proof -
  have accept: "total (accept_outcome env r d lease call sid aid reply)" for r sid aid reply
    by (cases reply) (simp only: accept_outcome_def tool_reply.case, (rule total_rule)+)
  have dispatch: "total (dispatch_tool env run d lease call sid aid effect)" for sid aid effect
  proof (cases "find (\<lambda>t. tool_name t = call_tool_name call) (def_tools d)")
    case None
    then show ?thesis by (simp add: dispatch_tool_def find_tool_def total_def bindR_def raiseR_def)
  next
    case (Some tool)
    then have returns: "tool_invoke tool n r \<noteq> Inl Unfinished" for n r
      using assms by (auto simp: find_Some_iff def_total_def)
    show ?thesis unfolding dispatch_tool_def find_tool_def Some option.case bindR_ret Let_def
      by (rule total_rule accept total_external [OF returns] | (simp add: total_reraise undeclared_tool_def; fail))+
  qed
  have failed: "total (tool_failed env run lease sid aid effect policy count e)" for sid aid effect policy count e
    unfolding tool_failed_def by (rule total_rule)+
  have attempt: "total (tool_attempt env run d lease call sid effect policy count)" for sid effect policy count
    unfolding tool_attempt_def by (rule total_rule dispatch failed)+
  have loop: "total (tool_loop env run d lease call sid effect policy n)" for sid effect policy n
    by (rule total_retry [where m = "case policy of None \<Rightarrow> 0 | Some p \<Rightarrow> max_attempts p"],
        rule tool_loop.simps, rule attempt) (auto dest: tool_attempt_continue)
  show ?thesis unfolding run_tool_step_def Let_def by (rule total_rule loop)+
qed


lemma total_consume_stream:
  "S_Raise Unfinished \<notin> set evs \<Longrightarrow> total (consume_stream env run sid aid evs r)"
proof (induction evs arbitrary: r)
  case (Cons ev evs)
  then show ?case unfolding consume_stream.simps
    by (cases ev; simp only: stream_event.case) (rule total_rule | (auto simp: total_reraise; fail))+
qed (simp, (rule total_rule)+)

lemma total_close_cancelled [total_rule]:
  "total (close_cancelled_dispatch env run lease sid aid p message)"
  unfolding close_cancelled_dispatch_def by (rule total_rule)+

lemma total_stream_model [total_rule]:
  "adapter_total a \<Longrightarrow> total (stream_model env a request run sid aid p)"
  unfolding stream_model_def
  by (intro total_rule total_consume_stream total_modify) (auto simp: adapter_total_def)

lemma total_invoke_model [total_rule]:
  "adapter_total a \<Longrightarrow> total (invoke_model env run lease a sid aid p request streams)"
  unfolding invoke_model_def by (intro total_rule total_external) (auto simp: adapter_total_def)

lemma total_call_model [total_rule]:
  "adapter_total a \<Longrightarrow> total (call_model env run d lease a sid aid p contract request streams)"
  unfolding call_model_def by (rule total_rule | assumption)+

lemma total_accept_response [total_rule]:
  "adapter_total a \<Longrightarrow> total (accept_response env run d a contract request streams t reply)"
  unfolding accept_response_def liftF_def by (intro total_rule total_reraise) (auto simp: adapter_total_def)

lemma total_model_failed [total_rule]:
  "total (model_failed env run lease sid aid p policy count reserved usage e)"
  unfolding model_failed_def Let_def by (rule total_rule)+

lemma total_model_parts [total_rule]:
  "total (checkpoint_response env run lease sid aid p response)"
  "total (reserve_dispatch env run d lease sid aid p contract request streams)"
  unfolding checkpoint_response_def reserve_dispatch_def by (rule total_rule)+

lemma total_model_attempt [total_rule]:
  "adapter_total a \<Longrightarrow> total (model_attempt env run d lease a b snap t sid policy count)"
  unfolding model_attempt_def dispatch_model_def dispatch_reserved_def Let_def
  by (rule total_rule | assumption)+

lemma total_model_loop:
  assumes "adapter_total a"
  shows "total (model_loop env run d lease a b snap t sid policy n)"
  by (rule total_retry [where m = "case policy of None \<Rightarrow> 0 | Some p \<Rightarrow> max_attempts p"],
      rule model_loop.simps, rule total_model_attempt [OF assms]) (auto dest: model_attempt_continue)

lemma adapter_for_total: "def_total d \<Longrightarrow> model_adapter_for d p = Inr a \<Longrightarrow> adapter_total a"
  by (auto simp: model_adapter_for_def bindE_eq_Inr def_total_def split: if_splits option.splits
      dest!: map_of_SomeD)

lemma total_model_step [total_rule]:
  "def_total d \<Longrightarrow> total (run_single_model_step env run d lease t step replay)"
  unfolding run_single_model_step_def Let_def
  by (rule total_bind_lift total_rule total_model_loop [OF adapter_for_total] | assumption)+

lemma total_context_stage [total_rule]:
  assumes "def_total d"
  shows "total (run_context_stage env run d lease stage boundary)"
proof -
  have provide: "total (provide_context env run d lease p stage boundary sid aid)"
    if "def_context_provider d = Some p" for p sid aid
    using that assms unfolding provide_context_def
    by (intro total_rule total_external) (auto simp: def_total_def)
  show ?thesis unfolding run_context_stage_def context_failed_def checkpoint_context_def Let_def
    by (rule total_rule provide | assumption)+
qed

lemma total_stages [total_rule]: "def_total d \<Longrightarrow> total (run_stages env run d lease stages)"
proof (induction stages arbitrary: run)
  case (Cons stage stages)
  show ?case unfolding run_stages.simps
    by (rule Cons.IH [OF Cons.prems] total_rule | rule Cons.prems)+
qed (simp add: total_ret)

lemma total_or_bad_evidence [total_rule]:
  "total bad \<Longrightarrow> (\<And>x. total (ok x)) \<Longrightarrow> total (or_bad_evidence r bad ok)"
  by (simp add: or_bad_evidence_def total_raise split: sum.splits)

lemma total_compression [total_rule]:
  "total (fail_compression_evidence env run lease cp)"
  "def_total d \<Longrightarrow> total (run_compression_step env run d lease step replay)"
  "total (apply_compression_checkpoint env run lease cps items)"
  unfolding run_compression_step_def apply_compression_checkpoint_def fail_compression_evidence_def Let_def
  by (rule total_rule | assumption)+

lemma total_boundary_stages [total_rule]:
  "def_total d \<Longrightarrow> total (run_boundary_stages env run d lease boundary stages cps)"
proof (induction stages arbitrary: cps)
  case (Cons stage stages)
  show ?case unfolding run_boundary_stages.simps
    by (rule Cons.IH [OF Cons.prems] total_rule | rule Cons.prems)+
qed (simp add: total_ret)

lemma total_prepare_context [total_rule]: "def_total d \<Longrightarrow> total (prepare_model_step_context env run d lease)"
  unfolding prepare_model_step_context_def Let_def by (rule total_rule | assumption)+

lemma total_repair_loop [total_rule]:
  "def_total d \<Longrightarrow> total (repair_loop env run d lease contract n candidate err)"
proof (induction n arbitrary: run candidate err)
  case (Suc n)
  show ?case unfolding repair_loop.simps succeed_run_def
    by (rule Suc.IH [OF Suc.prems] total_rule | rule Suc.prems)+
qed (simp add: total_failures)

lemma total_finalize [total_rule]: "def_total d \<Longrightarrow> total (finalize_output env run d lease out repair)"
  unfolding finalize_output_def repair_output_def fail_strict_output_contract_def succeed_run_def Let_def
  by (rule total_rule | assumption)+

lemma total_resume_repair [total_rule]: "def_total d \<Longrightarrow> total (resume_output_repair env run d lease sid cps)"
  unfolding resume_output_repair_def by (rule total_rule | assumption)+

lemma total_tool_calls [total_rule]: "def_total d \<Longrightarrow> total (run_tool_calls env run d lease calls outcomes)"
proof (induction calls arbitrary: run outcomes)
  case (Cons call calls)
  show ?case unfolding run_tool_calls.simps
    by (rule Cons.IH [OF Cons.prems] total_rule | rule Cons.prems)+
qed (simp add: total_ret)

lemma total_resume_tool_calls [total_rule]:
  "def_total d \<Longrightarrow> total (resume_tool_calls env run d lease confirmed calls step att outcomes)"
proof (induction calls arbitrary: run step att outcomes)
  case (Cons call calls)
  show ?case unfolding resume_tool_calls.simps
    by (rule Cons.IH [OF Cons.prems] total_rule | rule Cons.prems)+
qed (simp add: total_ret)

section \<open>Model Steps make calls\<close>

text \<open>Whenever \<open>m\<close> returns a value in \<open>P\<close>, it has made a call.\<close>

definition calls_when :: "('a \<Rightarrow> bool) \<Rightarrow> 'a runner \<Rightarrow> bool" where
  "calls_when P m \<longleftrightarrow> (\<forall>s x t. m s = (Inr x, t) \<longrightarrow> P x \<longrightarrow> length (rs_effects s) < length (rs_effects t))"

lemma calls_bind_first:
  assumes "calls_when Q m" and "\<And>x. total (f x)" and "\<And>x. \<not> Q x \<Longrightarrow> gives (f x) (\<lambda>y. \<not> P y)"
  shows "calls_when P (bindR m f)"
  unfolding calls_when_def
proof (intro allI impI)
  fix s y t assume b: "bindR m f s = (Inr y, t)" and y: "P y"
  then obtain x u where m: "m s = (Inr x, u)" and f: "f x u = (Inr y, t)" by (auto simp: bindR_result)
  have "Q x" using assms(3) [of x] f y by (auto simp: gives_def)
  then have "length (rs_effects s) < length (rs_effects u)" using assms(1) m by (auto simp: calls_when_def)
  then show "length (rs_effects s) < length (rs_effects t)" using totalD [OF assms(2) f] by simp
qed

lemma calls_bind_next:
  assumes "total m" and "\<And>x. calls_when P (f x)"
  shows "calls_when P (bindR m f)"
  unfolding calls_when_def
proof (intro allI impI)
  fix s y t assume b: "bindR m f s = (Inr y, t)" and y: "P y"
  then obtain x u where m: "m s = (Inr x, u)" and f: "f x u = (Inr y, t)" by (auto simp: bindR_result)
  have "length (rs_effects u) < length (rs_effects t)" using assms(2) [of x] f y by (auto simp: calls_when_def)
  then show "length (rs_effects s) < length (rs_effects t)" using totalD [OF assms(1) m] by simp
qed

lemma calls_not: "gives m (\<lambda>x. \<not> P x) \<Longrightarrow> calls_when P m"
  by (auto simp: gives_def calls_when_def)

lemma calls_then: "total m \<Longrightarrow> calls_when P k \<Longrightarrow> calls_when P (thenR m k)"
  unfolding thenR_def by (rule calls_bind_next)

lemma calls_if: "(b \<Longrightarrow> calls_when P m) \<Longrightarrow> (\<not> b \<Longrightarrow> calls_when P k) \<Longrightarrow> calls_when P (if b then m else k)"
  by simp

lemma calls_or_cancelled:
  "calls_when P m \<Longrightarrow> (\<And>r. calls_when P (stop r)) \<Longrightarrow> calls_when P (or_cancelled c m stop)"
  by (cases c) (simp_all add: or_cancelled_def)

lemma calls_external: "calls_when P (external env call answer)"
  by (auto simp: calls_when_def external_def bindR_def getR_def thenR_def modifyR_def suspend_def reraise_def retR_def
      split: prod.splits sum.splits)


abbreviation responded :: "(run_record \<times> model_response option) option \<Rightarrow> bool" where
  "responded x \<equiv> \<exists>r resp. x = Some (r, Some resp)"

lemma gives_no_response [simplified, gives_rule]:
  "gives (model_failed env run lease sid aid p policy count reserved usage e) (\<lambda>x. \<not> responded x)"
  unfolding model_failed_def Let_def by (rule gives_rule | (clarsimp; fail))+

lemma calls_invoke_model:
  assumes "adapter_total a"
  shows "calls_when P (invoke_model env run lease a sid aid p request streams)"
proof -
  have stream: "calls_when (\<lambda>_. True) (stream_model env a request run sid aid p)"
    unfolding calls_when_def stream_model_def
  proof (intro allI impI)
    fix s x t
    assume "bindR (getR rs_calls) (\<lambda>n. thenR (modifyR (\<lambda>s. s\<lparr>rs_effects := rs_effects s @
        [Model_Call (run_id run) sid aid p request]\<rparr>))
       (consume_stream env run sid aid (ma_stream a n request) None)) s = (Inr x, t)"
    then have c: "consume_stream env run sid aid (ma_stream a (rs_calls s) request) None
        (s\<lparr>rs_effects := rs_effects s @ [Model_Call (run_id run) sid aid p request]\<rparr>) = (Inr x, t)"
      by (simp add: bindR_def getR_def thenR_def modifyR_def)
    have "S_Raise Unfinished \<notin> set (ma_stream a (rs_calls s) request)"
      using assms by (simp add: adapter_total_def)
    from totalD [OF total_consume_stream [OF this] c]
    show "length (rs_effects s) < length (rs_effects t)" by simp
  qed
  show ?thesis unfolding invoke_model_def
    by (rule calls_if calls_bind_first [OF stream] calls_bind_first [OF calls_external [where P = "\<lambda>_. True"]]
        total_rule | (simp; fail))+
qed

lemma calls_call_model:
  assumes "adapter_total a"
  shows "calls_when (\<lambda>e. \<exists>y. e = Go y) (call_model env run d lease a sid aid p contract request streams)"
  unfolding call_model_def
  by (rule calls_bind_first [OF calls_invoke_model [OF assms, where P = "\<lambda>_. True"]] calls_bind_next calls_then calls_or_cancelled
      total_rule calls_not gives_rule | (simp add: assms; fail))+


lemma calls_dispatch_reserved:
  assumes "adapter_total a"
  shows "calls_when responded (dispatch_reserved env run d lease a sid aid contract request streams t policy count)"
  unfolding dispatch_reserved_def
proof (rule calls_bind_first [where Q = "\<lambda>x. \<exists>y. x = Inr (Go y)"])
  show "calls_when (\<lambda>x. \<exists>y. x = Inr (Go y))
     (tryR (call_model env run d lease a sid aid (mt_purpose t) contract request streams))"
    using calls_call_model [OF assms]
    by (fastforce simp: calls_when_def tryR_def split: prod.splits sum.splits if_splits)
next
  fix x :: "fault + model_reply step_end"
  assume "\<not> (\<exists>y. x = Inr (Go y))"
  then show "gives (case x of
         Inl e \<Rightarrow> model_failed env run lease sid aid (mt_purpose t) policy count True None e
       | Inr (Stop r) \<Rightarrow> retR (Some (r, None))
       | Inr (Go reply) \<Rightarrow>
      bindR (tryR (accept_response env run d a contract request streams t reply))
      (\<lambda>r2. case r2 of
         Inl e \<Rightarrow> model_failed env run lease sid aid (mt_purpose t) policy count True
                    (observed_usage reply) e
       | Inr response \<Rightarrow>
           thenR (checkpoint_response env run lease sid aid (mt_purpose t) response)
             (retR (Some (run, Some response))))) (\<lambda>y. \<not> responded y)"
    by (cases x) (use gives_no_response in \<open>auto simp: gives_ret split: step_end.splits\<close>)
qed (rule total_rule | rule assms)+

lemma calls_cases:
  "(\<And>e. x = Inl e \<Longrightarrow> calls_when P (f e)) \<Longrightarrow> (\<And>y. x = Inr y \<Longrightarrow> calls_when P (g y)) \<Longrightarrow> calls_when P (case_sum f g x)"
  "(z = None \<Longrightarrow> calls_when P m) \<Longrightarrow> (\<And>y. z = Some y \<Longrightarrow> calls_when P (h y)) \<Longrightarrow>
     calls_when P (case z of None \<Rightarrow> m | Some y \<Rightarrow> h y)"
  "(\<And>r. w = Stop r \<Longrightarrow> calls_when P (k r)) \<Longrightarrow> (\<And>y. w = Go y \<Longrightarrow> calls_when P (l y)) \<Longrightarrow>
     calls_when P (case w of Stop r \<Rightarrow> k r | Go y \<Rightarrow> l y)"
  by (simp_all split: sum.splits option.splits step_end.splits)

lemma calls_model_attempt:
  assumes "adapter_total a"
  shows "calls_when responded (model_attempt env run d lease a b snap t sid policy count)"
proof -
  have stop: "calls_when responded (bindR (stop_model_step env run lease sid code) (\<lambda>r. retR (Some (r, None))))" for code
    by (rule calls_not gives_rule | (simp; fail))+
  have failed: "calls_when responded (model_failed env run lease sid aid p policy count r u e)" for aid p r u e
    by (rule calls_not) (simp add: gives_no_response)
  have none: "calls_when responded (retR (Some (r, None)))" "calls_when responded (raiseR e)" for r e
    by (rule calls_not gives_rule | (simp; fail))+
  show ?thesis unfolding model_attempt_def dispatch_model_def Let_def
    by (rule stop failed none calls_dispatch_reserved [OF assms] calls_bind_next calls_then calls_or_cancelled
        calls_if calls_cases total_rule | (simp; fail))+
qed

lemma calls_retry:
  assumes loop: "\<And>n s. loop n s = bindR (body (n + 1)) (\<lambda>r t. case r of Some x \<Rightarrow> retR x t | None \<Rightarrow> loop (n + 1) t) s"
    and body: "\<And>n. calls_when (\<lambda>x. \<exists>y. x = Some y \<and> P y) (body n)" and "\<And>n. total (body n)"
    and bound: "\<And>n s t. body n s = (Inr None, t) \<Longrightarrow> n < (m :: int)"
  shows "calls_when P (loop n)"
proof (induction "nat (m - n)" arbitrary: n rule: less_induct)
  case less
  show ?case unfolding calls_when_def
  proof (intro allI impI)
    fix s x t assume "loop n s = (Inr x, t)" and x: "P x"
    then obtain r u where b: "body (n + 1) s = (Inr r, u)"
      and r: "(case r of Some x \<Rightarrow> retR x u | None \<Rightarrow> loop (n + 1) u) = (Inr x, t)"
      unfolding loop [of n s] bindR_result by blast
    show "length (rs_effects s) < length (rs_effects t)"
    proof (cases r)
      case None
      then have "calls_when P (loop (n + 1))" using less [of "n + 1"] bound [of "n + 1"] b by force
      moreover have "loop (n + 1) u = (Inr x, t)" using r None by simp
      ultimately have "length (rs_effects u) < length (rs_effects t)" using x unfolding calls_when_def by blast
      then show ?thesis using totalD [OF assms(3) b] by simp
    next
      case (Some y)
      then show ?thesis using body [of "n + 1"] b r x by (auto simp: calls_when_def retR_def)
    qed
  qed
qed

lemma calls_model_step:
  assumes "def_total d"
  shows "calls_when (\<lambda>x. snd x \<noteq> None) (run_single_model_step env run d lease t step replay)"
proof -
  have loop: "calls_when (\<lambda>x. snd x \<noteq> None) (model_loop env run d lease a b snap t sid policy n)"
    if "adapter_total a" for a b snap sid policy n
  proof (rule calls_retry [where m = "case policy of None \<Rightarrow> 0 | Some p \<Rightarrow> max_attempts p"])
    show "calls_when (\<lambda>x. \<exists>y. x = Some y \<and> snd y \<noteq> None) (model_attempt env run d lease a b snap t sid policy n)" for n
      using calls_model_attempt [OF that] by (auto simp: calls_when_def)
  qed (auto intro: model_loop.simps total_model_attempt [OF that] dest: model_attempt_continue)
  have stop: "calls_when (\<lambda>x. snd x \<noteq> None) (bindR (stop_model_step env run lease sid code) (\<lambda>r. retR (r, None :: model_response option)))" for sid code
    by (rule calls_not gives_rule | (simp; fail))+
  have raise: "calls_when P (raiseR e)" for P e by (simp add: calls_when_def raiseR_def)
  have lift: "calls_when P (bindR (liftE r) f)" if "\<And>x. r = Inr x \<Longrightarrow> calls_when P (f x)" for P r f
    using that by (cases r) (auto simp: calls_when_def liftE_def bindR_def retR_def raiseR_def)
  show ?thesis unfolding run_single_model_step_def Let_def
    by (rule raise stop lift loop [OF adapter_for_total [OF assms]] calls_bind_next calls_then calls_if calls_cases
        total_rule | assumption)+
qed


section \<open>Fuel\<close>

text \<open>Running out of fuel takes at least \<open>n\<close> calls.\<close>

definition lasts :: "nat \<Rightarrow> 'a runner \<Rightarrow> bool" where
  "lasts n m \<longleftrightarrow> (\<forall>s t. m s = (Inl Unfinished, t) \<longrightarrow> length (rs_effects s) + n \<le> length (rs_effects t))"

named_theorems lasts_rule

lemma lasts_total: "total m \<Longrightarrow> lasts n m"
  by (auto simp: lasts_def dest: totalD)

lemma lasts_bind [lasts_rule]:
  assumes "total m" and "\<And>x. lasts n (f x)"
  shows "lasts n (bindR m f)"
  unfolding lasts_def
proof (intro allI impI)
  fix s t assume b: "bindR m f s = (Inl Unfinished, t)"
  obtain r u where m: "m s = (r, u)" by (cases "m s")
  with b totalD [OF assms(1) m] obtain x where f: "f x u = (Inl Unfinished, t)"
    by (auto simp: bindR_def split: sum.splits)
  have "length (rs_effects u) + n \<le> length (rs_effects t)" using assms(2) [of x] f by (auto simp: lasts_def)
  then show "length (rs_effects s) + n \<le> length (rs_effects t)" using totalD [OF assms(1) m] by simp
qed

lemma lasts_bind_call:
  assumes "total m" and "calls_when P m" and "\<And>x. P x \<Longrightarrow> lasts n (f x)" and "\<And>x. \<not> P x \<Longrightarrow> total (f x)"
  shows "lasts (Suc n) (bindR m f)"
  unfolding lasts_def
proof (intro allI impI)
  fix s t assume b: "bindR m f s = (Inl Unfinished, t)"
  obtain r u where m: "m s = (r, u)" by (cases "m s")
  with b totalD [OF assms(1) m] obtain x where r: "r = Inr x" and f: "f x u = (Inl Unfinished, t)"
    by (auto simp: bindR_def split: sum.splits)
  have "P x" using totalD [OF assms(4) f] by blast
  then have "length (rs_effects s) < length (rs_effects u)" "length (rs_effects u) + n \<le> length (rs_effects t)"
    using assms(2) m r assms(3) [of x] f by (auto simp: calls_when_def lasts_def)
  then show "length (rs_effects s) + Suc n \<le> length (rs_effects t)" by simp
qed

lemma lasts_then [lasts_rule]: "total m \<Longrightarrow> lasts n k \<Longrightarrow> lasts n (thenR m k)"
  unfolding thenR_def by (rule lasts_bind)

lemma lasts_if [lasts_rule]: "(b \<Longrightarrow> lasts n m) \<Longrightarrow> (\<not> b \<Longrightarrow> lasts n k) \<Longrightarrow> lasts n (if b then m else k)"
  by simp

lemma lasts_or_cancelled [lasts_rule]:
  "lasts n m \<Longrightarrow> (\<And>r. lasts n (stop r)) \<Longrightarrow> lasts n (or_cancelled c m stop)"
  by (cases c) (simp_all add: or_cancelled_def)

lemma lasts_cases [lasts_rule]:
  "(\<And>e. x = Inl e \<Longrightarrow> lasts n (f e)) \<Longrightarrow> (\<And>y. x = Inr y \<Longrightarrow> lasts n (g y)) \<Longrightarrow> lasts n (case_sum f g x)"
  "(z = None \<Longrightarrow> lasts n m) \<Longrightarrow> (\<And>y. z = Some y \<Longrightarrow> lasts n (h y)) \<Longrightarrow> lasts n (case z of None \<Rightarrow> m | Some y \<Rightarrow> h y)"
  "(\<And>r. w = Stop r \<Longrightarrow> lasts n (k r)) \<Longrightarrow> (\<And>y. w = Go y \<Longrightarrow> lasts n (l y)) \<Longrightarrow>
     lasts n (case w of Stop r \<Rightarrow> k r | Go y \<Rightarrow> l y)"
  "(\<And>a b. p = (a, b) \<Longrightarrow> lasts n (i a b)) \<Longrightarrow> lasts n (case p of (a, b) \<Rightarrow> i a b)"
  by (simp_all split: sum.splits option.splits step_end.splits prod.splits)

lemma lasts_mono: "lasts n m \<Longrightarrow> k \<le> n \<Longrightarrow> lasts k m"
  by (force simp: lasts_def)

lemma lasts_agent_loop:
  assumes "def_total d"
  shows "lasts fuel (agent_loop fuel env run d lease outcomes step replay)"
proof (induction fuel arbitrary: run outcomes step replay)
  case 0
  show ?case by (simp add: agent_loop.simps lasts_def reraise_def)
next
  case (Suc fuel)
  show ?case unfolding agent_loop.simps
    by (rule lasts_bind_call [OF _ calls_model_step [OF assms]] lasts_rule lasts_total [OF total_ret]
        lasts_total [OF total_finalize] total_rule Suc.IH | rule assms
        | (clarsimp simp: total_ret split: prod.splits option.splits; fail))+
qed


section \<open>Entry points\<close>

definition env_total :: "runner_env \<Rightarrow> bool" where
  "env_total env \<longleftrightarrow> (\<forall>run d. resolve_definition env run = Inr d \<longrightarrow> def_total d)"

lemma env_totalD: "env_total env \<Longrightarrow> resolve_definition env run = Inr d \<Longrightarrow> def_total d"
  by (auto simp: env_total_def)

lemma lasts_ret [lasts_rule]: "lasts n (retR x)"
  and lasts_raise [lasts_rule]: "lasts n (raiseR e)"
  by (simp_all add: lasts_total total_ret total_raise)

lemma lasts_bind_lift: "(\<And>x. r = Inr x \<Longrightarrow> lasts n (f x)) \<Longrightarrow> lasts n (bindR (liftE r) f)"
  by (cases r) (simp_all add: liftE_def lasts_def bindR_def retR_def raiseR_def)

lemma lasts_finally [lasts_rule]:
  assumes "lasts n m" and "total c"
  shows "lasts n (finallyR m c)"
  unfolding lasts_def
proof (intro allI impI)
  fix s t assume f: "finallyR m c s = (Inl Unfinished, t)"
  obtain r u where m: "m s = (r, u)" by (cases "m s")
  obtain r' t' where c: "c u = (r', t')" by (cases "c u")
  have "m s = (Inl Unfinished, u)" "t = t'"
    using f m c totalD [OF assms(2) c] by (auto simp: finallyR_def split: sum.splits)
  then show "length (rs_effects s) + n \<le> length (rs_effects t)"
    using assms(1) totalD [OF assms(2) c] by (force simp: lasts_def)
qed

lemma lasts_catch:
  "lasts n m \<Longrightarrow> (\<And>e. e \<noteq> Unfinished \<Longrightarrow> total (h e)) \<Longrightarrow> lasts n (catchR m h)"
  by (auto simp: lasts_def catchR_def split: prod.splits sum.splits if_splits dest: totalD)

lemma total_finally [total_rule]: "total m \<Longrightarrow> total c \<Longrightarrow> total (finallyR m c)"
  by (rule totalI) (fastforce simp: finallyR_def split: prod.splits sum.splits dest: totalD)

lemma total_release_quietly [total_rule]: "total (release_quietly env rid lease)"
  unfolding release_quietly_def
  by (rule total_catch total_rule | simp add: total_reraise)+

lemma total_run_reads [total_rule]:
  "total (get_existing_run env rid)" "total (definition_of env run)" "total (try_acquire env run)"
  unfolding get_existing_run_def definition_of_def try_acquire_def
  by (rule total_catch total_rule | simp add: total_reraise)+

lemma total_settle_attempt [total_rule]: "total (settle_model_attempt env run lease atts unconfirmed)"
  unfolding settle_model_attempt_def Let_def by (rule total_rule)+

lemma total_resume_stages [total_rule]: "def_total d \<Longrightarrow> total (resume_stages env run d lease cps)"
  unfolding resume_stages_def run_input_context_stages_def by (rule total_rule | assumption)+

lemma lasts_execute_steps:
  "def_total d \<Longrightarrow> lasts fuel (execute_steps fuel env run d lease)"
  unfolding execute_steps_def run_input_context_stages_def
  by (rule lasts_agent_loop lasts_rule total_rule | assumption)+

lemma lasts_resume_running:
  assumes "env_total env"
  shows "lasts fuel (resume_running fuel env run lease)"
proof -
  have replay: "lasts fuel (replay_model_step fuel env r d lease cps sid u)" if "def_total d" for r d cps sid u
    unfolding replay_model_step_def
    by (rule lasts_total [OF total_resume_repair] lasts_agent_loop lasts_rule total_rule that)+
  have continue: "lasts fuel (continue_from_checkpoints fuel env r d lease cps m ts ta)" if "def_total d" for r d cps m ts ta
    unfolding continue_from_checkpoints_def Let_def
    by (rule lasts_total [OF total_finalize] lasts_agent_loop lasts_rule total_rule that)+
  show ?thesis unfolding resume_running_def Let_def
    by (rule replay continue lasts_total [OF total_waiting(1)] lasts_total [OF total_waiting(2)]
        lasts_total [OF total_failures(3)] lasts_rule total_rule env_totalD [OF assms] | assumption)+
qed

lemma lasts_start_with_lease:
  assumes "def_total d"
  shows "lasts fuel (start_with_lease fuel env run d lease)"
  unfolding start_with_lease_def
  by (rule lasts_execute_steps [OF assms] lasts_rule total_catch total_rule | simp add: total_reraise)+

lemma lasts_advancing [lasts_rule]: "lasts n m \<Longrightarrow> lasts n (advancing rid m)"
  unfolding advancing_def by (rule lasts_rule total_rule | assumption)+

lemma lasts_resolve:
  assumes "env_total env"
  shows "lasts fuel (resolve_run fuel env rid res v)"
proof -
  have confirm: "lasts fuel (confirm_step fuel env r d lease sid call outcomes result)" if "def_total d"
    for r d lease sid call outcomes result
    unfolding confirm_step_def by (rule lasts_agent_loop lasts_rule total_rule that)+
  have uncertain: "lasts fuel (resolve_uncertain_continue fuel env r d lease res)" if "def_total d" for r d lease
    unfolding resolve_uncertain_continue_def Let_def
    by (rule confirm lasts_agent_loop lasts_rule total_rule that)+
  have pending: "total (settle_pending_outcome env r r' d lease)" for r r' d lease
    unfolding settle_pending_outcome_def by (rule total_rule)+
  have continue: "lasts fuel (continue_run fuel env rid r lease)" for r lease
    unfolding continue_run_def definition_of_def
    by (rule lasts_bind_lift lasts_execute_steps lasts_resume_running [OF assms] pending lasts_rule total_rule env_totalD [OF assms]
        | assumption)+
  have lease: "lasts fuel (resolve_with_lease fuel env rid res v lease)" for lease
    unfolding resolve_with_lease_def unresolvable_def
    by (cases "res_action res"; simp only: resolution_action.case)
      (rule lasts_bind_lift continue uncertain lasts_total [OF total_failures(4)] lasts_rule total_rule env_totalD [OF assms]
        | assumption | (simp split: sum.splits; fail))+
  show ?thesis unfolding resolve_run_def
    by (rule lasts_catch lease lasts_rule total_rule | simp add: total_reraise)+
qed


lemma lasts_cancel:
  assumes "env_total env"
  shows "lasts fuel (cancel_run fuel env rid expected)"
proof -
  have note_total: "total (note_cancellation env rid r expected)" for r
    unfolding note_cancellation_def by (rule total_rule)+
  have created: "total (cancel_created env rid expected lease)" for lease
    unfolding cancel_created_def by (rule total_rule)+
  show ?thesis unfolding cancel_run_def
    by (rule lasts_resolve [OF assms] lasts_total [OF note_total] lasts_finally lasts_total [OF created]
        lasts_rule total_rule)+
qed

lemma lasts_exec_op:
  assumes "env_total env"
  shows "lasts fuel (exec_op fuel env op)"
proof (cases op)
  case (Create_Run did version input rid history)
  have "total (runner_create_run env did version input (Some rid) history)"
    unfolding runner_create_run_def by (rule total_rule)+
  then show ?thesis by (simp add: Create_Run lasts_total)
next
  case (Start_Run rid)
  show ?thesis unfolding Start_Run exec_op.simps start_run_def definition_of_def
    by (rule lasts_bind_lift lasts_start_with_lease lasts_rule total_rule env_totalD [OF assms] | assumption)+
next
  case (Resume_Run rid)
  show ?thesis unfolding Resume_Run exec_op.simps resume_run_def
    by (rule lasts_start_with_lease lasts_resume_running [OF assms] lasts_total [OF total_waiting(1)]
        lasts_rule total_rule env_totalD [OF assms] | assumption)+
next
  case (Cancel_Run rid expected)
  then show ?thesis by (simp add: lasts_cancel [OF assms])
next
  case (Resolve_Run rid res v)
  then show ?thesis by (simp add: lasts_resolve [OF assms])
qed

text \<open>An operation that makes fewer than \<open>fuel\<close> calls returns, or raises what the program raises.\<close>

lemma exec_op_finishes:
  assumes "env_total env" and "exec_op fuel env op s = (r, t)"
    and "length (rs_effects t) < length (rs_effects s) + fuel"
  shows "r \<noteq> Inl Unfinished"
proof
  assume "r = Inl Unfinished"
  then have "length (rs_effects s) + fuel \<le> length (rs_effects t)"
    using assms(2) lasts_exec_op [OF assms(1), of fuel op] unfolding lasts_def by blast
  then show False using assms(3) by simp
qed

section \<open>More fuel changes nothing\<close>

definition extends :: "'a runner \<Rightarrow> 'a runner \<Rightarrow> bool" where
  "extends m m' \<longleftrightarrow> (\<forall>s. fst (m s) \<noteq> Inl Unfinished \<longrightarrow> m' s = m s)"

named_theorems ext_rule

lemma ext_refl: "extends m m"
  by (simp add: extends_def)

lemma ext_bind [ext_rule]: "extends m m' \<Longrightarrow> (\<And>x. extends (f x) (f' x)) \<Longrightarrow> extends (bindR m f) (bindR m' f')"
  unfolding extends_def by (auto simp: bindR_def split: prod.splits sum.splits)

lemma ext_then [ext_rule]: "extends k k' \<Longrightarrow> extends (thenR m k) (thenR m k')"
  unfolding thenR_def by (rule ext_bind [OF ext_refl])

lemma ext_if [ext_rule]: "extends m m' \<Longrightarrow> extends k k' \<Longrightarrow> extends (if b then m else k) (if b then m' else k')"
  by simp

lemma ext_or_cancelled [ext_rule]: "extends m m' \<Longrightarrow> extends (or_cancelled c m stop) (or_cancelled c m' stop)"
  by (cases c) (simp_all add: or_cancelled_def ext_refl)

lemma ext_cases [ext_rule]:
  "(\<And>e. extends (f e) (f' e)) \<Longrightarrow> (\<And>y. extends (g y) (g' y)) \<Longrightarrow> extends (case_sum f g x) (case_sum f' g' x)"
  "extends m m' \<Longrightarrow> (\<And>y. extends (h y) (h' y)) \<Longrightarrow>
     extends (case z of None \<Rightarrow> m | Some y \<Rightarrow> h y) (case z of None \<Rightarrow> m' | Some y \<Rightarrow> h' y)"
  "(\<And>r. extends (k r) (k' r)) \<Longrightarrow> (\<And>y. extends (l y) (l' y)) \<Longrightarrow>
     extends (case w of Stop r \<Rightarrow> k r | Go y \<Rightarrow> l y) (case w of Stop r \<Rightarrow> k' r | Go y \<Rightarrow> l' y)"
  "(\<And>a b. extends (i a b) (i' a b)) \<Longrightarrow> extends (case p of (a, b) \<Rightarrow> i a b) (case p of (a, b) \<Rightarrow> i' a b)"
  by (simp_all split: sum.splits option.splits step_end.splits prod.splits)

lemma ext_catch [ext_rule]: "extends m m' \<Longrightarrow> extends (catchR m h) (catchR m' h)"
  unfolding extends_def by (auto simp: catchR_def split: prod.splits sum.splits if_splits)

lemma ext_finally:
  assumes "extends m m'" and "\<And>s. \<exists>t. c s = (Inr (), t)"
  shows "extends (finallyR m c) (finallyR m' c)"
  unfolding extends_def
proof (intro allI impI)
  fix s assume f: "fst (finallyR m c s) \<noteq> Inl Unfinished"
  obtain r u where m: "m s = (r, u)" by (cases "m s")
  obtain t where "c u = (Inr (), t)" using assms(2) by blast
  then have "r \<noteq> Inl Unfinished" using f m by (auto simp: finallyR_def)
  then have "m' s = m s" using assms(1) m by (simp add: extends_def)
  then show "finallyR m' c s = finallyR m c s" by (simp add: finallyR_def)
qed

lemma ext_agent_loop: "extends (agent_loop fuel env run d lease outcomes step replay)
    (agent_loop (fuel + k) env run d lease outcomes step replay)"
proof (induction fuel arbitrary: run outcomes step replay)
  case 0
  show ?case by (simp add: agent_loop.simps extends_def reraise_def)
next
  case (Suc fuel)
  show ?case unfolding agent_loop.simps add_Suc
    by (rule Suc.IH ext_refl ext_rule)+
qed


lemma ext_advancing [ext_rule]: "extends m m' \<Longrightarrow> extends (advancing rid m) (advancing rid m')"
  unfolding advancing_def by (intro ext_then ext_finally) (auto simp: set_active_def modifyR_def)

lemmas ext_loop_rule = ext_agent_loop ext_refl ext_rule

lemma ext_execute_steps: "extends (execute_steps fuel env run d lease) (execute_steps (fuel + k) env run d lease)"
  unfolding execute_steps_def by (rule ext_loop_rule)+

lemma ext_resume_running: "extends (resume_running fuel env run lease) (resume_running (fuel + k) env run lease)"
  unfolding resume_running_def replay_model_step_def continue_from_checkpoints_def Let_def
  by (rule ext_loop_rule)+

lemma ext_start_with_lease:
  "extends (start_with_lease fuel env run d lease) (start_with_lease (fuel + k) env run d lease)"
  unfolding start_with_lease_def by (rule ext_execute_steps ext_loop_rule)+

lemma ext_resolve_run: "extends (resolve_run fuel env rid res v) (resolve_run (fuel + k) env rid res v)"
proof -
  have continue: "extends (continue_run fuel env rid run lease) (continue_run (fuel + k) env rid run lease)" for run lease
    unfolding continue_run_def by (rule ext_execute_steps ext_resume_running ext_loop_rule)+
  have uncertain: "extends (resolve_uncertain_continue fuel env run d lease res)
      (resolve_uncertain_continue (fuel + k) env run d lease res)" for run d lease
    unfolding resolve_uncertain_continue_def confirm_step_def Let_def by (rule ext_loop_rule)+
  have lease: "extends (resolve_with_lease fuel env rid res v lease) (resolve_with_lease (fuel + k) env rid res v lease)" for lease
    unfolding resolve_with_lease_def
    by (cases "res_action res"; simp only: resolution_action.case) (rule continue uncertain ext_loop_rule)+
  show ?thesis unfolding resolve_run_def by (rule lease ext_loop_rule)+
qed

lemma ext_exec_op: "extends (exec_op fuel env op) (exec_op (fuel + k) env op)"
proof (cases op)
  case (Start_Run rid)
  show ?thesis unfolding Start_Run exec_op.simps start_run_def by (rule ext_start_with_lease ext_loop_rule)+
next
  case (Resume_Run rid)
  show ?thesis unfolding Resume_Run exec_op.simps resume_run_def
    by (rule ext_start_with_lease ext_resume_running ext_loop_rule)+
next
  case (Cancel_Run rid expected)
  show ?thesis unfolding Cancel_Run exec_op.simps cancel_run_def by (rule ext_resolve_run ext_loop_rule)+
next
  case (Resolve_Run rid res v)
  then show ?thesis by (simp add: ext_resolve_run)
qed (simp add: ext_refl)

lemma exec_op_fuel:
  assumes "env_total env" and "exec_op fuel env op s = (r, t)"
    and "length (rs_effects t) < length (rs_effects s) + fuel" and "fuel \<le> fuel'"
  shows "exec_op fuel' env op s = (r, t) \<and> r \<noteq> Inl Unfinished"
  using exec_op_finishes [OF assms(1-3)] ext_exec_op [of fuel env op "fuel' - fuel"] assms(2,4)
  by (auto simp: extends_def)

end
