(* ===== verification/Runner_Examples.thy ===== *)
theory Runner_Examples
  imports Examples Runner_Fuel
begin

text \<open>
  A concrete Runner: an agent whose model asks for one payment and answers when it sees the
  outcome, a payment tool that times out and one that succeeds, and a store in which the Runner
  holds the lease of a RUNNING Run. The outside world of the example is silent: \<open>re_others\<close> has
  no commands.
\<close>

section \<open>The agent\<close>

definition demo_tools_caps :: model_capabilities where
  "demo_tools_caps = of_combination
     \<lparr>comb_streaming = STREAMING_NONE, comb_tool_calling = NATIVE,
      comb_structured_output = STRUCTURED_OUTPUT_NONE, comb_usage_reporting = USAGE_REPORTING_NONE\<rparr> []"

definition demo_tool_contract :: model_contract where
  "demo_tool_contract = demo_contract\<lparr>contract_capabilities := demo_tools_caps,
     limits := \<lparr>context_window_tokens = 1000, max_output_tokens = 20\<rparr>\<rparr>"

definition demo_response :: "pystr option \<Rightarrow> tool_call list \<Rightarrow> model_response" where
  "demo_response content calls = \<lparr>resp_content = content, resp_tool_calls = calls, resp_usage = None,
     resp_actual_revision = None\<rparr>"

definition demo_call :: tool_call where
  "demo_call = \<lparr>call_id = ''c1'', call_tool_name = ''pay'', arguments = ustr ''{}''\<rparr>"

definition demo_adapter :: model_adapter where
  "demo_adapter =
     \<lparr>ma_object = 0, ma_type_identity = ''demo'', ma_capabilities = demo_tools_caps,
      ma_deterministic = True, ma_overrides_contract = True, ma_model_contract = Inr demo_tool_contract,
      ma_configuration_fingerprint = ''fp'', ma_assert_output_schema = (\<lambda>_ _. Inr ()),
      ma_generate = (\<lambda>n r. Inr (Reply (Some (if request_tool_outcomes r = []
         then demo_response None [demo_call] else demo_response (Some (ustr ''done'')) [])))),
      ma_stream = (\<lambda>_ _. []), ma_validate_response = (\<lambda>_ x. Inr x)\<rparr>"

definition demo_tool :: "(nat \<Rightarrow> tool_request \<Rightarrow> fault + tool_reply) \<Rightarrow> tool" where
  "demo_tool f = \<lparr>tool_name = ''pay'', tool_description = ustr ''pays'', tool_effect_of = NON_IDEMPOTENT,
     tool_parameters = [], tool_invoke = f\<rparr>"

definition demo_agent :: "(nat \<Rightarrow> tool_request \<Rightarrow> fault + tool_reply) \<Rightarrow> agent_definition" where
  "demo_agent f =
     \<lparr>def_id = ''d'', def_version = ''1'', def_instructions = ustr ''be brief'',
      def_model_requirements = demo_requirements, def_required_capabilities = no_capabilities,
      def_model_bindings = map (\<lambda>p. (demo_binding p)\<lparr>binding_contract := demo_tool_contract\<rparr>) MODEL_PURPOSES,
      def_model_execution_budget = None, def_model_adapter = demo_adapter, def_model_adapters = [],
      def_context_provider = None, def_tools = [demo_tool f], def_retry_policy = Some \<lparr>max_attempts = 3, retry_delay = 0\<rparr>,
      def_run_policy = AllowAllRunPolicy, def_output_contract = None,
      def_context_plan = \<lparr>plan_stages = [], plan_version = ''1''\<rparr>, def_compression_contract = None\<rparr>"

section \<open>The tool\<close>

definition uncertain_pay :: "nat \<Rightarrow> tool_request \<Rightarrow> fault + tool_reply" where
  "uncertain_pay n r = Inl (Foreign (StepFailure UNCERTAIN ''timeout'' ''no answer''))"

definition paid :: "nat \<Rightarrow> tool_request \<Rightarrow> fault + tool_reply" where
  "paid n r = Inr (Returned (Some \<lparr>outcome_status = OUTCOME_SUCCESS, outcome_call_id = treq_call_id r,
     outcome_tool_name = treq_tool_name r, outcome_result = Some (ustr ''ok''), outcome_code = None, outcome_message = None\<rparr>))"

section \<open>The Runner\<close>

definition demo_definition_env :: definition_env where
  "demo_definition_env = \<lparr>de_fingerprint = (\<lambda>_. ''fp''), de_legacy_id = (\<lambda>_. ''id'')\<rparr>"

definition demo_frozen :: "agent_definition \<Rightarrow> definition_snapshot" where
  "demo_frozen d = demo_snapshot\<lparr>snap_model_bindings := None, snap_adapter_capabilities := Some demo_tools_caps,
     snap_retry_policy := def_retry_policy d,
     snap_tool_declarations := [\<lparr>decl_name = ''pay'', decl_effect = NON_IDEMPOTENT\<rparr>]\<rparr>"

definition demo_runner :: "agent_definition \<Rightarrow> runner_env" where
  "demo_runner d =
     \<lparr>re_store = demo_env\<lparr>env_load_snapshot := (\<lambda>t. Inr ((demo_frozen d)\<lparr>snap_instructions := t\<rparr>))\<rparr>,
      re_definitions = demo_definition_env,
      re_registry = empty_registry\<lparr>reg_definitions := [(''d'', ''1'') \<mapsto> d]\<rparr>,
      re_owner = ''A'', re_lease_ttl = 10, re_now = (\<lambda>_. 0), re_utc = (\<lambda>_. 0),
      re_new_id = (\<lambda>n. CHR ''i'' # replicate n CHR ''x''), re_others = (\<lambda>_. ([], [])),
      re_summary = (\<lambda>_. ''summary''), re_loads = (\<lambda>_. Some (JObj [])), re_loads_strict = (\<lambda>_. Some (JObj [])),
      re_dump_outcome = (\<lambda>_. Inr []), re_load_outcome = (\<lambda>_. Inl ValueError),
      re_dump_response = (\<lambda>_. Inr []), re_load_response = (\<lambda>_. Inl ValueError),
      re_dump_items = (\<lambda>_. Inr []), re_load_items = (\<lambda>_. Inr []),
      re_dump_stage = (\<lambda>_. Inr []), re_parse_stage = (\<lambda>_. None),
      re_dump_compression = (\<lambda>_. Inr []), re_load_compression = (\<lambda>_. Inl ValueError),
      re_dump_tool = (\<lambda>_. []), re_dumps = (\<lambda>_. []), re_error_text = (\<lambda>_. [])\<rparr>"

definition demo_begin :: runner_state where
  "demo_begin = \<lparr>rs_store = empty_store, rs_ticks = 0, rs_ids = 0, rs_calls = 0, rs_cancel = {}, rs_active = {},
     rs_updates = [], rs_effects = []\<rparr>"

definition demo_running :: "agent_definition \<Rightarrow> run_record" where
  "demo_running d = (demo_run ''r1'')\<lparr>run_status_of := RUNNING, run_snapshot := Some (demo_frozen d)\<rparr>"

definition demo_held :: "agent_definition \<Rightarrow> runner_state" where
  "demo_held d = demo_begin\<lparr>rs_store := exec_cmds (re_store (demo_runner d))
     [Create (demo_running d), Acquire 0 ''r1'' ''A'' 10 0] empty_store\<rparr>"

definition demo_held_lease :: run_lease where
  "demo_held_lease = \<lparr>lease_run_id = ''r1'', lease_owner = ''A'', lease_expires_at = 10\<rparr>"

definition demo_contracted :: run_record where
  "demo_contracted = (demo_running (demo_agent paid))\<lparr>run_snapshot :=
     Some ((demo_frozen (demo_agent paid))\<lparr>snap_output_contract := Some demo_output_contract\<rparr>)\<rparr>"

section \<open>Hypotheses of the properties\<close>

lemma demo_contracted_simps: "run_status_of demo_contracted = RUNNING"
  "Option.bind (run_snapshot demo_contracted) snap_output_contract = Some demo_output_contract"
  by (simp_all add: demo_contracted_def demo_running_def)

lemma ids_ok_empty: "ids_ok empty_store"
  by (simp add: ids_ok_def empty_store_def)

lemma demo_begin_ids: "ids_ok (rs_store demo_begin)"
  by (simp add: demo_begin_def ids_ok_empty)

lemma demo_held_ids: "ids_ok (rs_store (demo_held d))"
  unfolding demo_held_def by (simp add: ids_ok_execs [OF ids_ok_empty] del: exec_cmds.simps)

lemma demo_runner_simps [simp]: "re_owner (demo_runner d) = ''A''"
  "lease_owner demo_held_lease = ''A''"
  by (simp_all add: demo_runner_def demo_held_lease_def)

lemma demo_uncertain: "always_uncertain (demo_agent uncertain_pay) ''pay''"
  by (simp add: always_uncertain_def demo_agent_def demo_tool_def uncertain_pay_def)

lemma demo_pay_effect: "frozen_tool_effect (demo_running d) ''pay'' = Some NON_IDEMPOTENT"
  by (simp add: frozen_tool_effect_def demo_running_def demo_frozen_def)

lemma demo_total: "env_total (demo_runner (demo_agent paid))"
  by (auto simp: env_total_def resolve_definition_def resolve_def demo_runner_def empty_registry_def
      def_total_def adapter_total_def demo_agent_def demo_adapter_def demo_tool_def paid_def
      split: if_splits option.splits)


section \<open>A Run that is resumed and succeeds\<close>

text \<open>The codec keeps texts as they are; every text parses as the number one, which the
  contract asks for. The last model response is on record and needs no tool.\<close>

definition demo_plain_env :: store_env where
  "demo_plain_env =
     \<lparr>env_encode = Inr, env_decode = Inr, env_dump_snapshot = (\<lambda>_. []),
      env_load_snapshot = (\<lambda>_. Inr (demo_frozen (demo_agent paid))),
      env_dump_history = (\<lambda>_. []), env_load_history = (\<lambda>_. Inr [])\<rparr>"

definition demo_resumer :: runner_env where
  "demo_resumer = (demo_runner (demo_agent paid))\<lparr>re_store := demo_plain_env,
     re_loads := (\<lambda>_. Some (JInt 1)), re_load_response := (\<lambda>_. Inr (demo_response (Some [1]) []))\<rparr>"

definition demo_interrupted :: runner_state where
  "demo_interrupted = demo_begin\<lparr>rs_store := empty_store\<lparr>
     runs := [''r1'' \<mapsto> (run_metadata demo_contracted)
       \<lparr>sr_lease_owner := Some ''A'', sr_lease_expires_at := Some 10\<rparr>],
     payloads := [(''r1'', FIELD_RUN_INPUT) \<mapsto> [], (''r1'', FIELD_RUN_SNAPSHOT) \<mapsto> [],
       (''r1'', checkpoint_output_field ''s'') \<mapsto> []],
     checkpoints := [''r1'' \<mapsto> [\<lparr>sc_run_id = ''r1'', sc_step_id = ''s'', sc_attempt_id = ''a'',
       sc_step_type = STEP_MODEL, sc_created_at = 0\<rparr>]]\<rparr>\<rparr>"

lemma demo_plain_codec: "codec_ok (re_store demo_resumer)"
  by (simp add: codec_ok_def demo_resumer_def demo_plain_env_def payload_codec_def)

end
