(* ===== verification/Session_Examples.thy ===== *)
theory Session_Examples
  imports Session_Ports Runner_Examples
begin

text \<open>
  A concrete session runner over each of the two session stores: an agent whose policy rejects every
  input, in a session that has no turn yet.
\<close>

definition deny_policy :: run_policy where
  "deny_policy = AllowAllRunPolicy\<lparr>evaluate := (\<lambda>_. Inr (allow_decision\<lparr>decision_action := REJECT\<rparr>))\<rparr>"

definition demo_session_runner :: "session_store_state session_runner" where
  "demo_session_runner = \<lparr>sru_core = demo_runner ((demo_agent paid)\<lparr>def_run_policy := deny_policy\<rparr>),
     sru_port = memory_port, sru_clock = (\<lambda>_. (0, 0)), sru_new_id = (\<lambda>n. CHR ''q'' # replicate n CHR ''x''),
     sru_others = (\<lambda>_. [])\<rparr>"

definition demo_world :: "session_store_state session_world" where
  "demo_world = \<lparr>w_sessions = demo_sessions, w_core = demo_begin, w_calls = 0\<rparr>"

lemma demo_session_runner_quiet: "respects_claim demo_session_runner k rid"
  "sru_port demo_session_runner = memory_port"
  by (simp_all add: respects_claim_def demo_session_runner_def)

lemma demo_world_ok: "sessions_inv (w_sessions demo_world)" "ids_ok (rs_store (w_core demo_world))"
  by (simp_all add: demo_world_def demo_sessions_inv demo_begin_ids)

text \<open>The same session in an SQLite file; the two payload strings are framed by a length.\<close>

definition demo_session_env :: session_env where
  "demo_session_env = \<lparr>sn_encode = Inr, sn_decode = Inr, sn_dumps = (\<lambda>(u, a). length u # u @ a),
     sn_loads = (\<lambda>p. case p of [] \<Rightarrow> Inl ValueError | n # xs \<Rightarrow> Inr (take n xs, drop n xs))\<rparr>"

definition demo_sqlite_runner :: "session_tables session_runner" where
  "demo_sqlite_runner = \<lparr>sru_core = sru_core demo_session_runner, sru_port = sqlite_port demo_session_env,
     sru_clock = sru_clock demo_session_runner, sru_new_id = sru_new_id demo_session_runner,
     sru_others = sru_others demo_session_runner\<rparr>"

definition demo_sqlite_world :: "session_tables session_world" where
  "demo_sqlite_world = \<lparr>w_sessions = snd (sql_create_session 0 ''t'' ''s'' empty_session_tables), w_core = demo_begin, w_calls = 0\<rparr>"

lemma demo_sqlite_runner_port: "sru_port demo_sqlite_runner = sqlite_port demo_session_env"
  by (simp add: demo_sqlite_runner_def)

lemma demo_same_runner: "same_runner demo_sqlite_runner demo_session_runner"
  by (simp add: same_runner_def demo_sqlite_runner_def demo_session_runner_def)

lemma demo_worlds: "worlds_agree (session_stores_related demo_session_env) demo_sqlite_world demo_world"
  using create_session_agrees [OF sessions_agree_empty [of demo_session_env], of 0 "''t''" "''s''"]
  by (auto simp: worlds_agree_def session_stores_related_def demo_sqlite_world_def demo_world_def demo_sessions_def
      session_codec_ok_def demo_session_env_def)

end
