(* ===== verification/Eval_Examples.thy ===== *)
theory Eval_Examples
  imports Eval_Engine Sqlite_Eval Session_Examples "HOL-Library.Countable"
begin

text \<open>
  A concrete eval: a suite of one case whose subject is an agent that rejects every input, an evaluator that
  expects the Run to end REJECTED, an isolated session store and an engine; its reports, and a codec for
  the SQLite store that numbers the records of each type.
\<close>

section \<open>A suite\<close>

definition demo_eval_digests :: eval_digests where
  "demo_eval_digests = \<lparr>sha256_hex = (\<lambda>p. dec (length p)), canonical_json = (\<lambda>_. [123, 125]), dump_case = (\<lambda>_. JNull)\<rparr>"

definition demo_status_ref :: evaluator_ref where
  "demo_status_ref = \<lparr>evaluator_id = ''status'', evaluator_version = ''1''\<rparr>"

definition demo_eval_variant :: eval_variant where
  "demo_eval_variant = \<lparr>evv_id = ''v'', evv_definition_id = ''d'', evv_definition_version = ''1''\<rparr>"

definition demo_case :: "ident list \<Rightarrow> eval_case" where
  "demo_case effects =
     \<lparr>case_id = ''c'', case_input = ustr ''hi'', case_history = [], case_variant = demo_eval_variant,
      fixture_bundle_of = \<lparr>bundle_id = ''b'', bundle_facts = [], declared_external_effects = effects,
        expected_evidence_ids = [], bundle_digest = ''''\<rparr>,
      execution_protocol_of = \<lparr>proto_deterministic = True, repetitions = 1, proto_seed = None\<rparr>,
      case_evaluators = [demo_status_ref], case_tags = [], case_required_capabilities = None\<rparr>"

definition demo_suite :: "ident list \<Rightarrow> eval_suite" where
  "demo_suite effects = \<lparr>suite_id = ''s'', suite_version = ''1'', suite_cases = [demo_case effects], suite_variants = [demo_eval_variant]\<rparr>"

section \<open>An engine\<close>

definition demo_eval_sessions :: "session_store_state eval_sessions" where
  "demo_eval_sessions = \<lparr>evs_port = memory_port, evs_get_claim = (\<lambda>scope sid s. Inr (get_claim scope sid s)),
     evs_create = create_session, evs_clock = (\<lambda>_. (0, 0)), evs_others = (\<lambda>_. [])\<rparr>"

definition demo_eval_env :: "session_store_state eval_env" where
  "demo_eval_env =
     \<lparr>ee_digests = demo_eval_digests,
      ee_subject = demo_runner ((demo_agent paid)\<lparr>def_run_policy := deny_policy\<rparr>), ee_judge = None,
      ee_sessions = Some demo_eval_sessions,
      ee_evaluators = [''status'' \<mapsto> run_status_evaluator (\<lambda>t. t) demo_status_ref ''REJECTED''],
      ee_bindings = Map.empty,
      ee_policy = \<lparr>pp_id = ''p'', pp_version = ''1'', allowed_fields = {F_RUN_STATUS}, authorized_evidence_ids = {}\<rparr>,
      ee_tool_deterministic = (\<lambda>_. False), ee_clock = (\<lambda>_. 0), ee_utc = int, ee_new_id = (\<lambda>_. ''u''), ee_others = (\<lambda>_. []),
      ee_dump_projection = (\<lambda>_. Inr JNull), ee_loads = (\<lambda>_. None), ee_float = (\<lambda>_. Inr 0), ee_verdict_error = (\<lambda>t. t),
      ee_show_exc = (\<lambda>_. [])\<rparr>"

definition demo_eval_world :: "session_store_state eval_world" where
  "demo_eval_world = \<lparr>ew_subject = demo_begin, ew_judge = demo_begin, ew_sessions = Map.empty, ew_store = empty_eval_store, ew_calls = 0\<rparr>"

text \<open>
  Three evaluations at once, for they share most of the code: a Run that is resumed and succeeds, a submission
  whose Run is rejected, and the suite, whose subject Run is rejected as its evaluator expects.
\<close>

lemma demo_evaluations:
  "(case resume_running 1 demo_resumer demo_contracted demo_held_lease demo_interrupted of
      (Inr r, _) \<Rightarrow> run_status_of r = SUCCEEDED | _ \<Rightarrow> False)
    \<and> (case submit 1 demo_session_runner ''t'' ''s'' ''d'' ''1'' (ustr ''hi'') demo_world of
      (Inr res, _) \<Rightarrow> run_status_of (sres_run res) = REJECTED | _ \<Rightarrow> False)
    \<and> (case run_suite 1 demo_eval_env (demo_suite [''pay'']) None demo_eval_world of
      (Inr res, _) \<Rightarrow> map evr_outcome (srr_results res) = [O_PASS] | _ \<Rightarrow> False)"
  by code_simp

lemma demo_resumed:
  obtains r t where "resume_running 1 demo_resumer demo_contracted demo_held_lease demo_interrupted = (Inr r, t)"
    and "run_status_of r = SUCCEEDED"
  using demo_evaluations [THEN conjunct1] that by (auto split: prod.splits sum.splits)

lemma demo_submitted:
  obtains res w' where "submit 1 demo_session_runner ''t'' ''s'' ''d'' ''1'' (ustr ''hi'') demo_world = (Inr res, w')"
    and "run_status_of (sres_run res) = REJECTED"
  using demo_evaluations [THEN conjunct2, THEN conjunct1] that by (auto split: prod.splits sum.splits)

lemma demo_suite_runs:
  obtains res w' where "run_suite 1 demo_eval_env (demo_suite [''pay'']) None demo_eval_world = (Inr res, w')"
    and "map evr_outcome (srr_results res) = [O_PASS]"
  using demo_evaluations [THEN conjunct2, THEN conjunct2] that by (auto split: prod.splits sum.splits)

lemma demo_outside_boundary:
  "case_by_id (demo_suite []) ''c'' = Inr (demo_case [])"
  "resolve ''d'' ''1'' (re_registry (ee_subject demo_eval_env)) = Inr ((demo_agent paid)\<lparr>def_run_policy := deny_policy\<rparr>)"
  "isl (enforce_fixture_boundary (ee_tool_deterministic demo_eval_env) (demo_case []) ((demo_agent paid)\<lparr>def_run_policy := deny_policy\<rparr>))"
  by (simp_all add: case_by_id_def demo_suite_def demo_case_def demo_eval_env_def demo_runner_def resolve_def
      enforce_fixture_boundary_def definition_adapters_def demo_agent_def demo_adapter_def demo_tool_def)

lemma demo_suite_valid: "validate_suite (demo_suite effects) = Inr (demo_suite effects)"
  by (simp add: validate_suite_def demo_suite_def)

section \<open>Reports\<close>

definition demo_report_env :: report_env where
  "demo_report_env = \<lparr>rp_digests = demo_eval_digests,
     rp_floats = \<lparr>fl_add = (+), fl_div = (/), fl_sum = sum_list\<rparr>, rp_dump = (\<lambda>_. [])\<rparr>"

definition demo_eval_result :: "evaluator_outcome \<Rightarrow> eval_result_record" where
  "demo_eval_result out = \<lparr>evr_id = ''r'', evr_execution_id = None, evr_observation_id = ''o'', evr_item_id = ''i'', evr_case_id = ''c'',
     evr_variant_id = ''v'', evr_repetition_index = 0, evr_evaluator = demo_status_ref, evr_outcome = out,
     evr_failure_kind = K_NONE, evr_reason_code = ''x'', evr_detail = [], evr_score = None, evr_hard = True,
     evr_evidence_refs = [], evr_judge_run_id = None, evr_created_at = 0\<rparr>"

definition demo_report :: "evaluator_outcome \<Rightarrow> exn + report_revision" where
  "demo_report out = build_report_revision demo_report_env ''rep'' 1 None (demo_suite []) [demo_eval_result out] 20 0"

lemma demo_report_built: "demo_report out = Inr (projr (demo_report out))"
  by (simp add: demo_report_def build_report_revision_def expand_def expand_case_def demo_suite_def demo_case_def
      case_repetitions_def case_by_id_def suite_item_def bindE_def Let_def)

definition demo_baseline :: eval_baseline where
  "demo_baseline = \<lparr>baseline_id = ''base'', bl_report_id = ''rep'', bl_report_revision = 1, bl_suite_id = ''s'', bl_suite_version = ''1'',
     comparison_policy_of = \<lparr>cp_policy_id = ''p'', cp_policy_version = ''1'', quality_regression = True, pass_at_k_regression = True\<rparr>,
     bl_created_at = 0\<rparr>"

lemma demo_compared:
  "\<exists>cmp. compare_report_revisions (projr (demo_report O_FAIL)) demo_baseline (projr (demo_report O_PASS)) = Inr cmp"
  by (simp add: compare_report_revisions_def demo_baseline_def demo_report_def build_report_revision_def expand_def expand_case_def
      demo_suite_def demo_case_def case_repetitions_def case_by_id_def suite_item_def bindE_def Let_def build_revision_def)

lemma demo_regressed:
  "rpt_suite_id (projr (demo_report O_FAIL)) = rpt_suite_id (projr (demo_report O_PASS))"
  "\<exists>k x y. cases_by_key (case_results (projr (demo_report O_PASS))) k = Some x
     \<and> cases_by_key (case_results (projr (demo_report O_FAIL))) k = Some y
     \<and> comparable_case x \<and> comparable_case y \<and> regressions (comparison_policy_of demo_baseline) x y \<noteq> []"
proof -
  have c: "case_results (projr (demo_report out)) = [case_report (rp_floats demo_report_env) 20 [demo_eval_result out] (''c'', ''v'') 1]"
    "rpt_suite_id (projr (demo_report out)) = ''s''" for out
    by (simp_all add: demo_report_def build_report_revision_def expand_def expand_case_def demo_suite_def demo_case_def demo_eval_variant_def
        case_repetitions_def case_by_id_def suite_item_def item_key_def bindE_def Let_def build_revision_def)
  then show "rpt_suite_id (projr (demo_report O_FAIL)) = rpt_suite_id (projr (demo_report O_PASS))" by simp
  have k: "cases_by_key (case_results (projr (demo_report out))) (''c'', ''v'') =
      Some (case_report (rp_floats demo_report_env) 20 [demo_eval_result out] (''c'', ''v'') 1)" for out
    by (simp add: c cases_by_key_def case_report_def Let_def)
  show "\<exists>k x y. cases_by_key (case_results (projr (demo_report O_PASS))) k = Some x
     \<and> cases_by_key (case_results (projr (demo_report O_FAIL))) k = Some y
     \<and> comparable_case x \<and> comparable_case y \<and> regressions (comparison_policy_of demo_baseline) x y \<noteq> []"
    by (intro exI conjI, rule k, rule k)
      (simp_all add: comparable_case_def NON_COMPARABLE_def regressions_def case_report_def results_of_def demo_eval_result_def
        repetition_outcome_of_def worst_def Let_def List.map_filter_def demo_baseline_def)
qed

section \<open>A codec\<close>

instance pyfloat :: countable
  by countable_datatype

instance json :: countable
  by countable_datatype

instance evaluator_outcome :: countable
  by countable_datatype

instance eval_failure_kind :: countable
  by countable_datatype

instance evaluator_ref_ext :: (countable) countable
  by (rule countable_classI [of "\<lambda>x. to_nat (evaluator_id x, evaluator_version x, evaluator_ref.more x)"])
    (auto intro: evaluator_ref.equality)

instance eval_execution_ext :: (countable) countable
  by (rule countable_classI [of "\<lambda>x. to_nat (execution_id x, ex_suite_id x, ex_suite_version x, ex_suite_digest x, ex_mode x,
      ex_item_ids x, ex_created_at x, eval_execution.more x)"]) (auto intro: eval_execution.equality)

instance eval_result_record_ext :: (countable) countable
  by (rule countable_classI [of "\<lambda>x. to_nat ((evr_id x, evr_execution_id x, evr_observation_id x, evr_item_id x, evr_case_id x,
      evr_variant_id x, evr_repetition_index x), (evr_evaluator x, evr_outcome x, evr_failure_kind x, evr_reason_code x,
      evr_detail x, evr_score x), (evr_hard x, evr_evidence_refs x, evr_judge_run_id x, evr_created_at x),
      eval_result_record.more x)"]) (auto intro: eval_result_record.equality)

instance repetition_outcome_ext :: (countable) countable
  by (rule countable_classI [of "\<lambda>x. to_nat (rep_index x, rep_outcome x, rep_hard_outcome x, rep_quality_outcome x, rep_score x,
      repetition_outcome.more x)"]) (auto intro: repetition_outcome.equality)

instance numeric_summary_ext :: (countable) countable
  by (rule countable_classI [of "\<lambda>x. to_nat (sample_count x, sum_minimum x, sum_maximum x, sum_median x, sum_p95 x, p95_justified x,
      numeric_summary.more x)"]) (auto intro: numeric_summary.equality)

instance case_variant_report_ext :: (countable) countable
  by (rule countable_classI [of "\<lambda>x. to_nat (cvr_case_id x, cvr_variant_id x, cvr_repetitions x, cvr_hard_outcome x,
      cvr_quality_outcome x, cvr_overall_outcome x, pass_at_k x, cvr_scores x, score_summary x, case_variant_report.more x)"])
    (auto intro: case_variant_report.equality)

instance report_revision_ext :: (countable) countable
  by (rule countable_classI [of "\<lambda>x. to_nat ((report_id x, revision x, rpt_execution_id x, rpt_suite_id x, rpt_suite_version x,
      rpt_suite_digest x), (case_results x, rpt_hard_outcome x, rpt_quality_outcome x, rpt_overall_outcome x, rpt_created_at x,
      content_digest x), report_revision.more x)"]) (auto intro: report_revision.equality)

instance comparison_policy_ext :: (countable) countable
  by (rule countable_classI [of "\<lambda>x. to_nat (cp_policy_id x, cp_policy_version x, quality_regression x, pass_at_k_regression x,
      comparison_policy.more x)"]) (auto intro: comparison_policy.equality)

instance eval_baseline_ext :: (countable) countable
  by (rule countable_classI [of "\<lambda>x. to_nat (baseline_id x, bl_report_id x, bl_report_revision x, bl_suite_id x, bl_suite_version x,
      comparison_policy_of x, bl_created_at x, eval_baseline.more x)"]) (auto intro: eval_baseline.equality)

instance recommendation_target_ext :: (countable) countable
  by (rule countable_classI [of "\<lambda>x. to_nat (tgt_kind x, tgt_id x, tgt_version x, recommendation_target.more x)"])
    (auto intro: recommendation_target.equality)

instance model_recommendation_ext :: (countable) countable
  by (rule countable_classI [of "\<lambda>x. to_nat ((recommendation_id x, mr_version x, mr_report_id x, mr_report_revision x, mr_baseline_id x,
      mr_target x), (mr_hard_gate x, mr_quality_gate x, mr_overall_outcome x, mr_confidence x, mr_evidence_digest x,
      mr_created_at x, mr_valid_until x), model_recommendation.more x)"]) (auto intro: model_recommendation.equality)

definition number_text :: "'a :: countable \<Rightarrow> pystr" where
  "number_text x = [to_nat x]"

definition read_number :: "pystr \<Rightarrow> exn + 'a :: countable" where
  "read_number t = Inr (from_nat (hd t))"

lemma read_number_text [simp]: "read_number (number_text x) = Inr x"
  by (simp add: read_number_def number_text_def)

definition demo_eval_observation :: eval_observation where
  "demo_eval_observation = (bare_observation ''o'' MODE_OBSERVE ''r'' None None EC_COMPLETE ''x'' 0)\<lparr>external_evidence := [Ext_Json (JInt 1)]\<rparr>"

definition demo_eval_codec :: eval_codec where
  "demo_eval_codec =
     \<lparr>ec_dump_execution = number_text, ec_load_execution = read_number,
      ec_dump_artifact = (\<lambda>_. JNull), ec_load_artifact = (\<lambda>_. Inl ValueError),
      ec_dump_observation = (\<lambda>_ js. number_text js),
      ec_load_observation = (\<lambda>t. bindE (read_number t) (\<lambda>js. Inr (demo_eval_observation\<lparr>external_evidence := []\<rparr>, js))),
      ec_dump_result = number_text, ec_load_result = read_number, ec_dump_report = number_text, ec_load_report = read_number,
      ec_dump_baseline = number_text, ec_load_baseline = read_number,
      ec_dump_recommendation = number_text, ec_load_recommendation = read_number\<rparr>"

lemma demo_eval_codec_ok: "eval_codec_ok demo_eval_codec"
  by (simp add: eval_codec_ok_def demo_eval_codec_def)

lemma demo_observation_storable: "storable demo_eval_codec (Fact_Observation demo_eval_observation)"
  by (simp add: demo_eval_codec_def demo_eval_observation_def bare_observation_def validate_observation_def)

end
