(* ===== verification/Provider_Schema.thy ===== *)
theory Provider_Schema
  imports Output_Contract
begin

text \<open>
  The strict JSON Schema check of the live adapters, first half of \<open>src/src/m_agent/provider/_base.py\<close>. The
  matcher calls itself along \<open>$ref\<close> as well as into the schema, so it has fuel: the depth of calls the
  interpreter still allows, beyond which it raises \<open>RecursionError\<close>. Regular expressions, \<open>json.dumps\<close>
  and the division behind \<open>multipleOf\<close> are parameters.
\<close>

section \<open>Tests that may raise\<close>

definition andE :: "exn + bool \<Rightarrow> exn + bool \<Rightarrow> exn + bool" where
  "andE a b = bindE a (\<lambda>x. if x then b else Inr False)"

definition notE' :: "exn + bool \<Rightarrow> exn + bool" where
  "notE' a = bindE a (\<lambda>x. Inr (\<not> x))"

fun allE' :: "('a \<Rightarrow> exn + bool) \<Rightarrow> 'a list \<Rightarrow> exn + bool" where
  "allE' f [] = Inr True"
| "allE' f (x # xs) = andE (f x) (allE' f xs)"

fun anyE :: "('a \<Rightarrow> exn + bool) \<Rightarrow> 'a list \<Rightarrow> exn + bool" where
  "anyE f [] = Inr False"
| "anyE f (x # xs) = bindE (f x) (\<lambda>b. if b then Inr True else anyE f xs)"

text \<open>\<open>sum\<close> of the truth values of all tests.\<close>

fun countE :: "('a \<Rightarrow> exn + bool) \<Rightarrow> 'a list \<Rightarrow> exn + nat" where
  "countE f [] = Inr 0"
| "countE f (x # xs) = bindE (f x) (\<lambda>b. bindE (countE f xs) (\<lambda>n. Inr (if b then Suc n else n)))"

section \<open>Keywords and references\<close>

record schema_env =
  sv_search :: "pystr \<Rightarrow> pystr \<Rightarrow> bool option"
  sv_dumps :: "json \<Rightarrow> pystr"
  sv_multiple :: "json \<Rightarrow> json \<Rightarrow> exn + bool"
  sv_not_implemented :: "exn + bool"

definition JSON_SCHEMA_ANNOTATIONS :: "ident list" where
  "JSON_SCHEMA_ANNOTATIONS = [''$id'', ''$schema'', ''default'', ''deprecated'', ''description'', ''examples'', ''readOnly'',
     ''title'', ''writeOnly'']"

definition JSON_SCHEMA_KEYWORDS :: "ident list" where
  "JSON_SCHEMA_KEYWORDS = JSON_SCHEMA_ANNOTATIONS @
     [''$defs'', ''$ref'', ''additionalProperties'', ''allOf'', ''anyOf'', ''const'', ''else'', ''enum'', ''exclusiveMaximum'',
      ''exclusiveMinimum'', ''if'', ''items'', ''maxItems'', ''maxLength'', ''maxProperties'', ''maximum'', ''minItems'',
      ''minLength'', ''minProperties'', ''minimum'', ''multipleOf'', ''not'', ''oneOf'', ''pattern'', ''prefixItems'',
      ''properties'', ''required'', ''then'', ''type'', ''uniqueItems'']"

text \<open>\<open>schema.get(k)\<close>, where a stored \<open>null\<close> counts as missing.\<close>

definition json_given :: "(pystr \<times> json) list \<Rightarrow> ident \<Rightarrow> json option" where
  "json_given kvs k = (case json_get kvs k of Some JNull \<Rightarrow> None | r \<Rightarrow> r)"

definition json_equal :: "json \<Rightarrow> json \<Rightarrow> bool" where
  "json_equal a b \<longleftrightarrow> is_boolean a = is_boolean b \<and> py_eq a b"

fun split_on :: "'a \<Rightarrow> 'a list \<Rightarrow> 'a list list" where
  "split_on c [] = [[]]"
| "split_on c (x # xs) = (if x = c then [] # split_on c xs
     else case split_on c xs of [] \<Rightarrow> [[x]] | p # ps \<Rightarrow> (x # p) # ps)"

fun replace_pair :: "'a \<Rightarrow> 'a \<Rightarrow> 'a \<Rightarrow> 'a list \<Rightarrow> 'a list" where
  "replace_pair a b c (x # y # xs) = (if x = a \<and> y = b then c # replace_pair a b c xs else x # replace_pair a b c (y # xs))"
| "replace_pair a b c xs = xs"

definition unescape_pointer :: "pystr \<Rightarrow> pystr" where
  "unescape_pointer part = replace_pair 126 48 126 (replace_pair 126 49 47 part)"

fun follow_pointer :: "json \<Rightarrow> pystr list \<Rightarrow> json" where
  "follow_pointer v [] = v"
| "follow_pointer v (part # parts) =
     (case v of
        JObj kvs \<Rightarrow> follow_pointer (case map_of kvs (unescape_pointer part) of None \<Rightarrow> JBool False | Some w \<Rightarrow> w) parts
      | _ \<Rightarrow> JBool False)"

definition resolve_schema_ref :: "json \<Rightarrow> json \<Rightarrow> json" where
  "resolve_schema_ref whole reference =
     (case reference of
        JStr r \<Rightarrow> if take 2 r = ustr ''#/'' then follow_pointer whole (split_on 47 (drop 2 r)) else JBool False
      | _ \<Rightarrow> JBool False)"

section \<open>Numbers, sizes and types\<close>

fun as_float :: "json \<Rightarrow> pyfloat" where
  "as_float (JInt i) = Fin (of_int i)"
| "as_float (JFloat f) = f"
| "as_float _ = NaN"

fun fl_less :: "pyfloat \<Rightarrow> pyfloat \<Rightarrow> bool" where
  "fl_less (Fin a) (Fin b) \<longleftrightarrow> a < b"
| "fl_less (Fin a) Pos_Inf \<longleftrightarrow> True"
| "fl_less Neg_Inf (Fin b) \<longleftrightarrow> True"
| "fl_less Neg_Inf Pos_Inf \<longleftrightarrow> True"
| "fl_less _ _ \<longleftrightarrow> False"

definition fl_leq :: "pyfloat \<Rightarrow> pyfloat \<Rightarrow> bool" where
  "fl_leq a b \<longleftrightarrow> fl_less a b \<or> (a = b \<and> a \<noteq> NaN)"

text \<open>
  \<open>value.__ge__(bound)\<close> and its like: on an \<open>int\<close> and a \<open>float\<close> bound the method answers \<open>NotImplemented\<close>,
  whose truth value is \<open>True\<close> up to Python 3.13 and an exception later.
\<close>

definition int_method :: "schema_env \<Rightarrow> (pyfloat \<Rightarrow> pyfloat \<Rightarrow> bool) \<Rightarrow> json \<Rightarrow> json \<Rightarrow> exn + bool" where
  "int_method env cmp v bound =
     (case (v, bound) of
        (JInt _, JFloat _) \<Rightarrow> sv_not_implemented env
      | _ \<Rightarrow> Inr (cmp (as_float v) (as_float bound)))"

definition bound_check ::
  "schema_env \<Rightarrow> (pystr \<times> json) list \<Rightarrow> json \<Rightarrow> ident \<times> (pyfloat \<Rightarrow> pyfloat \<Rightarrow> bool) \<Rightarrow> exn + bool" where
  "bound_check env kvs v kc =
     (case json_given kvs (fst kc) of
        None \<Rightarrow> Inr True
      | Some b \<Rightarrow> if \<not> is_number b then Inr False else int_method env (snd kc) v b)"

definition NUMBER_BOUNDS :: "(ident \<times> (pyfloat \<Rightarrow> pyfloat \<Rightarrow> bool)) list" where
  "NUMBER_BOUNDS = [(''minimum'', \<lambda>v b. fl_leq b v), (''maximum'', fl_leq),
     (''exclusiveMinimum'', \<lambda>v b. fl_less b v), (''exclusiveMaximum'', fl_less)]"

definition matches_number :: "schema_env \<Rightarrow> (pystr \<times> json) list \<Rightarrow> json \<Rightarrow> exn + bool" where
  "matches_number env kvs v =
     andE (allE' (bound_check env kvs v) NUMBER_BOUNDS)
       (case json_given kvs ''multipleOf'' of
          None \<Rightarrow> Inr True
        | Some m \<Rightarrow> if is_number m \<and> fl_less (Fin 0) (as_float m) then sv_multiple env v m else Inr False)"

fun int_value :: "json \<Rightarrow> int option" where
  "int_value (JInt i) = Some i"
| "int_value (JBool b) = Some (if b then 1 else 0)"
| "int_value _ = None"

definition in_range :: "nat \<Rightarrow> (pystr \<times> json) list \<Rightarrow> ident \<Rightarrow> ident \<Rightarrow> bool" where
  "in_range n kvs lo hi \<longleftrightarrow>
     (case json_given kvs lo of None \<Rightarrow> True | Some l \<Rightarrow> (case int_value l of None \<Rightarrow> False | Some i \<Rightarrow> i \<le> int n))
     \<and> (case json_given kvs hi of None \<Rightarrow> True | Some u \<Rightarrow> (case int_value u of None \<Rightarrow> False | Some i \<Rightarrow> int n \<le> i))"

definition matches_json_type :: "json \<Rightarrow> json \<Rightarrow> exn + bool" where
  "matches_json_type v declared =
     (if \<not> hashable declared then Inl TypeError
      else case declared of
        JStr t \<Rightarrow> Inr (case type_ok t of None \<Rightarrow> False | Some test \<Rightarrow> test v)
      | _ \<Rightarrow> Inr False)"

section \<open>The matcher\<close>

text \<open>One group of keywords per definition, in the order of the source; \<open>rec\<close> is the recursive call.\<close>

definition ref_check :: "(json \<Rightarrow> json \<Rightarrow> exn + bool) \<Rightarrow> json \<Rightarrow> (pystr \<times> json) list \<Rightarrow> json \<Rightarrow> exn + bool" where
  "ref_check rec whole kvs v =
     (case json_given kvs ''$ref'' of None \<Rightarrow> Inr True | Some r \<Rightarrow> rec v (resolve_schema_ref whole r))"

definition branch_check ::
  "(json \<Rightarrow> json \<Rightarrow> exn + bool) \<Rightarrow> (pystr \<times> json) list \<Rightarrow> json \<Rightarrow> ident \<times> (nat \<Rightarrow> nat \<Rightarrow> bool) \<Rightarrow> exn + bool" where
  "branch_check rec kvs v kc =
     (case json_given kvs (fst kc) of
        None \<Rightarrow> Inr True
      | Some (JArr bs) \<Rightarrow> bindE (countE (rec v) bs) (\<lambda>n. Inr (snd kc n (length bs)))
      | Some _ \<Rightarrow> Inr False)"

definition BRANCH_KEYWORDS :: "(ident \<times> (nat \<Rightarrow> nat \<Rightarrow> bool)) list" where
  "BRANCH_KEYWORDS = [(''allOf'', \<lambda>n k. n = k), (''anyOf'', \<lambda>n k. n \<noteq> 0), (''oneOf'', \<lambda>n k. n = 1)]"

definition not_check :: "(json \<Rightarrow> json \<Rightarrow> exn + bool) \<Rightarrow> (pystr \<times> json) list \<Rightarrow> json \<Rightarrow> exn + bool" where
  "not_check rec kvs v = (case json_get kvs ''not'' of None \<Rightarrow> Inr True | Some s \<Rightarrow> notE' (rec v s))"

definition if_check :: "(json \<Rightarrow> json \<Rightarrow> exn + bool) \<Rightarrow> (pystr \<times> json) list \<Rightarrow> json \<Rightarrow> exn + bool" where
  "if_check rec kvs v =
     (case json_given kvs ''if'' of
        None \<Rightarrow> Inr True
      | Some c \<Rightarrow> bindE (rec v c) (\<lambda>b.
          case json_given kvs (if b then ''then'' else ''else'') of None \<Rightarrow> Inr True | Some s \<Rightarrow> rec v s))"

definition value_check :: "(pystr \<times> json) list \<Rightarrow> json \<Rightarrow> bool" where
  "value_check kvs v \<longleftrightarrow>
     (case json_get kvs ''const'' of None \<Rightarrow> True | Some c \<Rightarrow> json_equal v c)
     \<and> (case json_get kvs ''enum'' of None \<Rightarrow> True | Some (JArr es) \<Rightarrow> list_ex (json_equal v) es | Some _ \<Rightarrow> False)"

definition type_check :: "(pystr \<times> json) list \<Rightarrow> json \<Rightarrow> exn + bool" where
  "type_check kvs v =
     (case json_given kvs ''type'' of
        None \<Rightarrow> Inr True
      | Some (JStr t) \<Rightarrow> anyE (matches_json_type v) [JStr t]
      | Some (JArr ts) \<Rightarrow> anyE (matches_json_type v) ts
      | Some _ \<Rightarrow> Inr False)"

definition object_child ::
  "(json \<Rightarrow> json \<Rightarrow> exn + bool) \<Rightarrow> json \<Rightarrow> (pystr \<times> json) list \<Rightarrow> pystr \<times> json \<Rightarrow> exn + bool" where
  "object_child rec additional ps kw =
     (let child = (case map_of ps (fst kw) of None \<Rightarrow> additional | Some c \<Rightarrow> c) in
      if child = JBool True then Inr True else rec (snd kw) child)"

definition object_check ::
  "(json \<Rightarrow> json \<Rightarrow> exn + bool) \<Rightarrow> (pystr \<times> json) list \<Rightarrow> (pystr \<times> json) list \<Rightarrow> exn + bool" where
  "object_check rec kvs obj =
     (case (case json_get kvs ''properties'' of None \<Rightarrow> JObj [] | Some p \<Rightarrow> p,
            case json_get kvs ''required'' of None \<Rightarrow> JArr [] | Some r \<Rightarrow> r) of
        (JObj ps, JArr ks) \<Rightarrow>
          let additional = (case json_get kvs ''additionalProperties'' of None \<Rightarrow> JBool True | Some a \<Rightarrow> a) in
          if \<not> list_all (\<lambda>k. case k of JStr s \<Rightarrow> s \<in> set (map fst obj) | _ \<Rightarrow> False) ks then Inr False
          else if \<not> in_range (length obj) kvs ''minProperties'' ''maxProperties'' then Inr False
          else if additional = JBool False \<and> \<not> set (map fst obj) \<subseteq> set (map fst ps) then Inr False
          else if \<not> is_boolean additional \<and> \<not> is_object additional then Inr False
          else allE' (object_child rec additional ps) obj
      | _ \<Rightarrow> Inr False)"

text \<open>\<open>schema.get("prefixItems", ())\<close> is the empty tuple, which is not a list, when the keyword is missing.\<close>

definition array_check ::
  "schema_env \<Rightarrow> (json \<Rightarrow> json \<Rightarrow> exn + bool) \<Rightarrow> (pystr \<times> json) list \<Rightarrow> json list \<Rightarrow> exn + bool" where
  "array_check env rec kvs vs =
     (if \<not> in_range (length vs) kvs ''minItems'' ''maxItems'' then Inr False
      else if json_get kvs ''uniqueItems'' = Some (JBool True) \<and> \<not> distinct (map (sv_dumps env) vs) then Inr False
      else case json_get kvs ''prefixItems'' of
        Some (JArr ps) \<Rightarrow>
          andE (allE' (\<lambda>(w, s). rec w s) (zip vs ps))
            (let items = (case json_get kvs ''items'' of None \<Rightarrow> JBool True | Some s \<Rightarrow> s) in
             if items = JBool True then Inr True else allE' (\<lambda>w. rec w items) (drop (length ps) vs))
      | _ \<Rightarrow> Inr False)"

definition string_check :: "schema_env \<Rightarrow> (pystr \<times> json) list \<Rightarrow> pystr \<Rightarrow> bool" where
  "string_check env kvs t \<longleftrightarrow>
     in_range (length t) kvs ''minLength'' ''maxLength''
     \<and> (case json_given kvs ''pattern'' of
          None \<Rightarrow> True
        | Some (JStr p) \<Rightarrow> sv_search env p t = Some True
        | Some _ \<Rightarrow> False)"

definition shape_check ::
  "schema_env \<Rightarrow> (json \<Rightarrow> json \<Rightarrow> exn + bool) \<Rightarrow> (pystr \<times> json) list \<Rightarrow> json \<Rightarrow> exn + bool" where
  "shape_check env rec kvs v =
     (case v of
        JObj obj \<Rightarrow> object_check rec kvs obj
      | JArr vs \<Rightarrow> array_check env rec kvs vs
      | JStr t \<Rightarrow> Inr (string_check env kvs t)
      | JInt _ \<Rightarrow> matches_number env kvs v
      | JFloat _ \<Rightarrow> matches_number env kvs v
      | _ \<Rightarrow> Inr True)"

definition schema_step ::
  "schema_env \<Rightarrow> (json \<Rightarrow> json \<Rightarrow> exn + bool) \<Rightarrow> json \<Rightarrow> json \<Rightarrow> json \<Rightarrow> exn + bool" where
  "schema_step env rec whole v schema =
     (case schema of
        JBool b \<Rightarrow> Inr b
      | JObj kvs \<Rightarrow>
          if \<not> set (map fst kvs) \<subseteq> ustr ` set JSON_SCHEMA_KEYWORDS then Inr False
          else andE (ref_check rec whole kvs v)
              (andE (allE' (branch_check rec kvs v) BRANCH_KEYWORDS)
              (andE (not_check rec kvs v)
              (andE (if_check rec kvs v)
              (andE (Inr (value_check kvs v))
              (andE (type_check kvs v)
                    (shape_check env rec kvs v))))))
      | _ \<Rightarrow> Inr False)"

fun matches_json_schema :: "schema_env \<Rightarrow> nat \<Rightarrow> json \<Rightarrow> json \<Rightarrow> json \<Rightarrow> exn + bool" where
  "matches_json_schema env 0 whole v schema = Inl RecursionError"
| "matches_json_schema env (Suc n) whole v schema = schema_step env (matches_json_schema env n whole) whole v schema"

section \<open>Arrays and bounds\<close>

lemma andE_True: "andE a b = Inr True \<longleftrightarrow> a = Inr True \<and> b = Inr True"
  by (auto simp: andE_def bindE_eq_Inr split: if_splits)

lemma allE'_True: "allE' f xs = Inr True \<longleftrightarrow> (\<forall>x \<in> set xs. f x = Inr True)"
  by (induction xs) (auto simp: andE_True)

lemma schema_step_True:
  assumes "schema_step env rec whole v (JObj kvs) = Inr True"
  shows "set (map fst kvs) \<subseteq> ustr ` set JSON_SCHEMA_KEYWORDS" and "value_check kvs v" and "type_check kvs v = Inr True"
    and "shape_check env rec kvs v = Inr True"
  using assms unfolding schema_step_def by (auto simp only: json.case andE_True split: if_splits)

lemma matches_True:
  assumes "matches_json_schema env n whole v schema = Inr True"
  obtains m where "n = Suc m" and "schema_step env (matches_json_schema env m whole) whole v schema = Inr True"
  using assms by (cases n) auto

text \<open>A schema that does not list prefix items accepts no array at all, the empty one included.\<close>

lemma arrays_rejected:
  assumes "json_get kvs ''prefixItems'' = None"
  shows "matches_json_schema env n whole (JArr vs) (JObj kvs) \<noteq> Inr True"
proof
  assume "matches_json_schema env n whole (JArr vs) (JObj kvs) = Inr True"
  then obtain m where "schema_step env (matches_json_schema env m whole) whole (JArr vs) (JObj kvs) = Inr True"
    by (rule matches_True)
  from schema_step_True(4) [OF this] assms show False
    by (simp add: shape_check_def array_check_def split: if_splits)
qed

text \<open>A float bound on an integer is not enforced where \<open>NotImplemented\<close> counts as true.\<close>

lemma float_bound_ignored:
  assumes "sv_not_implemented env = Inr True" and "json_given kvs (fst kc) = Some (JFloat b)"
  shows "bound_check env kvs (JInt i) kc = Inr True"
  using assms by (simp add: bound_check_def int_method_def)

section \<open>Depth of the recursion\<close>

text \<open>A result that may only be an exhausted stack, or the same.\<close>

definition deeper :: "exn + 'a \<Rightarrow> exn + 'a \<Rightarrow> bool" where
  "deeper r r' \<longleftrightarrow> r = Inl RecursionError \<or> r' = r"

named_theorems deepens

lemma deeper_refl [deepens]: "deeper r r"
  by (simp add: deeper_def)

lemma deeper_bindE [deepens]: "deeper m m' \<Longrightarrow> (\<And>x. deeper (f x) (f' x)) \<Longrightarrow> deeper (bindE m f) (bindE m' f')"
  by (cases m) (auto simp: deeper_def)

lemma deeper_andE [deepens]: "deeper a a' \<Longrightarrow> deeper b b' \<Longrightarrow> deeper (andE a b) (andE a' b')"
  unfolding andE_def by (rule deeper_bindE) (simp_all add: deeper_refl)

lemma deeper_notE [deepens]: "deeper a a' \<Longrightarrow> deeper (notE' a) (notE' a')"
  unfolding notE'_def by (intro deepens)

lemma deeper_allE [deepens]: "(\<And>x. x \<in> set xs \<Longrightarrow> deeper (f x) (f' x)) \<Longrightarrow> deeper (allE' f xs) (allE' f' xs)"
  by (induction xs) (simp_all add: deeper_refl deeper_andE)

lemma deeper_countE [deepens]: "(\<And>x. x \<in> set xs \<Longrightarrow> deeper (f x) (f' x)) \<Longrightarrow> deeper (countE f xs) (countE f' xs)"
  by (induction xs) (simp_all add: deeper_refl deeper_bindE)

lemma deeper_cases [deepens]:
  "(P \<Longrightarrow> deeper a a') \<Longrightarrow> (\<not> P \<Longrightarrow> deeper b b') \<Longrightarrow> deeper (if P then a else b) (if P then a' else b')"
  "(z = None \<Longrightarrow> deeper c c') \<Longrightarrow> (\<And>x. z = Some x \<Longrightarrow> deeper (d x) (d' x)) \<Longrightarrow>
     deeper (case z of None \<Rightarrow> c | Some x \<Rightarrow> d x) (case z of None \<Rightarrow> c' | Some x \<Rightarrow> d' x)"
  by (simp_all split: option.split)

text \<open>More stack changes nothing but an exhausted stack.\<close>

lemma schema_step_deeper:
  assumes "\<And>v s. deeper (rec v s) (rec' v s)"
  shows "deeper (schema_step env rec whole v schema) (schema_step env rec' whole v schema)"
proof (cases schema)
  case (JObj kvs)
  have r: "deeper (ref_check rec whole kvs v) (ref_check rec' whole kvs v)"
    unfolding ref_check_def by (intro deepens assms)
  have b: "deeper (branch_check rec kvs v kc) (branch_check rec' kvs v kc)" for kc
    unfolding branch_check_def by (auto split: option.split json.split intro!: deepens assms)
  have n: "deeper (not_check rec kvs v) (not_check rec' kvs v)" "deeper (if_check rec kvs v) (if_check rec' kvs v)"
    unfolding not_check_def if_check_def by (intro deepens assms)+
  have o: "deeper (object_check rec kvs obj) (object_check rec' kvs obj)" for obj
    unfolding object_check_def object_child_def Let_def by (auto split: json.split prod.split intro!: deepens assms)
  have a: "deeper (array_check env rec kvs vs) (array_check env rec' kvs vs)" for vs
    unfolding array_check_def Let_def by (auto split: json.split option.split prod.split intro!: deepens assms)
  have "deeper (shape_check env rec kvs v) (shape_check env rec' kvs v)"
    unfolding shape_check_def by (cases v) (simp_all add: o a deeper_refl)
  with JObj r b n show ?thesis unfolding schema_step_def by (auto intro!: deepens)
qed (simp_all add: schema_step_def deeper_refl)

lemma more_depth: "n \<le> m \<Longrightarrow> deeper (matches_json_schema env n whole v s) (matches_json_schema env m whole v s)"
proof (induction n arbitrary: m v s)
  case (Suc n)
  then obtain k where "m = Suc k" "n \<le> k" by (cases m) auto
  with Suc.IH show ?case by (simp add: schema_step_deeper)
qed (simp add: deeper_def)

text \<open>Without references every call goes to a smaller schema, so the size of the schema is enough.\<close>

fun key_free :: "ident \<Rightarrow> json \<Rightarrow> bool" where
  "key_free q (JArr vs) \<longleftrightarrow> list_all (key_free q) vs"
| "key_free q (JObj kvs) \<longleftrightarrow> ustr q \<notin> set (map fst kvs) \<and> list_all (\<lambda>(k, v). key_free q v) kvs"
| "key_free q _ \<longleftrightarrow> True"

definition fine :: "exn + 'a \<Rightarrow> bool" where
  "fine r \<longleftrightarrow> r \<noteq> Inl RecursionError"

named_theorems fines

lemma fine_Inr [fines]: "fine (Inr x)"
  by (simp add: fine_def)

lemma fine_bindE [fines]: "fine m \<Longrightarrow> (\<And>x. fine (f x)) \<Longrightarrow> fine (bindE m f)"
  by (cases m) (auto simp: fine_def)

lemma fine_if [fines]: "fine a \<Longrightarrow> fine b \<Longrightarrow> fine (if P then a else b)"
  by simp

lemma fine_andE [fines]: "fine a \<Longrightarrow> fine b \<Longrightarrow> fine (andE a b)"
  unfolding andE_def by (intro fines)

lemma fine_notE [fines]: "fine a \<Longrightarrow> fine (notE' a)"
  unfolding notE'_def by (intro fines)

lemma fine_allE [fines]: "(\<And>x. x \<in> set xs \<Longrightarrow> fine (f x)) \<Longrightarrow> fine (allE' f xs)"
  by (induction xs) (simp_all add: fines)

lemma fine_anyE [fines]: "(\<And>x. x \<in> set xs \<Longrightarrow> fine (f x)) \<Longrightarrow> fine (anyE f xs)"
  by (induction xs) (simp_all add: fines)

lemma fine_countE [fines]: "(\<And>x. x \<in> set xs \<Longrightarrow> fine (f x)) \<Longrightarrow> fine (countE f xs)"
  by (induction xs) (simp_all add: fines)

definition below :: "json \<Rightarrow> json \<Rightarrow> bool" where
  "below s t \<longleftrightarrow> size s < size t \<and> key_free ''$ref'' s"

lemma below_get:
  assumes "key_free ''$ref'' (JObj kvs)" and "json_get kvs k = Some s"
  shows "below s (JObj kvs)"
  using assms size_json_get [OF assms(2)] by (auto simp: below_def json_get_def list_all_iff dest: map_of_SomeD)

lemma below_given:
  assumes "key_free ''$ref'' (JObj kvs)" and "json_given kvs k = Some s"
  shows "below s (JObj kvs)"
  using assms by (intro below_get [of kvs k]) (auto simp: json_given_def split: option.splits json.splits)

lemma below_mem:
  "below (JArr ss) t \<Longrightarrow> s \<in> set ss \<Longrightarrow> below s t"
  "below (JObj ps) t \<Longrightarrow> map_of ps k = Some s \<Longrightarrow> below s t"
  using size_mem_arr [of s ss] size_map_of [of ps k s] by (auto simp: below_def list_all_iff dest: map_of_SomeD)

definition env_fine :: "schema_env \<Rightarrow> bool" where
  "env_fine env \<longleftrightarrow> fine (sv_not_implemented env) \<and> (\<forall>v m. fine (sv_multiple env v m))"

lemma number_fine:
  assumes "env_fine env"
  shows "fine (matches_number env kvs v)"
proof -
  have "fine (bound_check env kvs v kc)" for kc
    using assms by (auto simp: bound_check_def int_method_def env_fine_def fine_def split: option.split json.split)
  moreover have "fine (case json_given kvs ''multipleOf'' of None \<Rightarrow> Inr True
      | Some m \<Rightarrow> if is_number m \<and> fl_less (Fin 0) (as_float m) then sv_multiple env v m else Inr False)"
    using assms by (auto simp: env_fine_def fine_def split: option.split)
  ultimately show ?thesis unfolding matches_number_def by (intro fines)
qed

lemma type_fine: "fine (matches_json_type v t)"
  by (cases t) (simp_all add: matches_json_type_def fine_def)

lemma object_fine:
  assumes bel: "\<And>v s. below s (JObj kvs) \<Longrightarrow> fine (rec v s)" and kf: "key_free ''$ref'' (JObj kvs)"
  shows "fine (object_check rec kvs obj)"
proof -
  let ?p = "case json_get kvs ''properties'' of None \<Rightarrow> JObj [] | Some p \<Rightarrow> p"
  let ?a = "case json_get kvs ''additionalProperties'' of None \<Rightarrow> JBool True | Some a \<Rightarrow> a"
  have props: "below c (JObj kvs)" if "?p = JObj ps" "map_of ps k = Some c" for ps k c
    using that below_mem(2) [OF below_get [OF kf, of "''properties''" "JObj ps"], of k c] by (auto split: option.splits)
  have additional: "?a = JBool True \<or> below ?a (JObj kvs)" by (auto split: option.split dest: below_get [OF kf])
  have "fine (object_child rec ?a ps kw)" if "?p = JObj ps" for ps kw
  proof (cases "map_of ps (fst kw)")
    case None
    then show ?thesis unfolding object_child_def Let_def using additional bel by (auto intro!: fine_Inr)
  next
    case (Some c)
    with props [OF that] bel show ?thesis by (simp add: object_child_def Let_def fine_Inr)
  qed
  then show ?thesis
    unfolding object_check_def Let_def
    by (cases ?p; cases "case json_get kvs ''required'' of None \<Rightarrow> JArr [] | Some r \<Rightarrow> r")
      (simp_all only: prod.case json.case, (intro fines; simp)+)
qed

lemma array_fine:
  assumes bel: "\<And>v s. below s (JObj kvs) \<Longrightarrow> fine (rec v s)" and kf: "key_free ''$ref'' (JObj kvs)"
  shows "fine (array_check env rec kvs vs)"
proof -
  let ?i = "case json_get kvs ''items'' of None \<Rightarrow> JBool True | Some s \<Rightarrow> s"
  have items: "?i = JBool True \<or> below ?i (JObj kvs)" by (auto split: option.split dest: below_get [OF kf])
  have "fine (andE (allE' (\<lambda>(w, s). rec w s) (zip vs ps)) (if ?i = JBool True then Inr True else allE' (\<lambda>w. rec w ?i) (drop (length ps) vs)))"
    if p: "json_get kvs ''prefixItems'' = Some (JArr ps)" for ps
  proof (intro fine_andE fine_allE)
    fix x assume "x \<in> set (zip vs ps)"
    then have "snd x \<in> set ps" by (metis set_zip_rightD surjective_pairing)
    then have "below (snd x) (JObj kvs)" by (rule below_mem(1) [OF below_get [OF kf p]])
    then show "fine (case x of (w, s) \<Rightarrow> rec w s)" using bel by (cases x) simp
  next
    show "fine (if ?i = JBool True then Inr True else allE' (\<lambda>w. rec w ?i) (drop (length ps) vs))"
      using items bel by (auto intro!: fines)
  qed
  then show ?thesis unfolding array_check_def Let_def by (auto split: json.split option.split intro!: fine_if fine_Inr)
qed

lemma schema_step_fine:
  assumes rec: "\<And>v s. below s schema \<Longrightarrow> fine (rec v s)" and free: "key_free ''$ref'' schema" and env: "env_fine env"
  shows "fine (schema_step env rec whole v schema)"
proof (cases schema)
  case (JObj kvs)
  have kf: "key_free ''$ref'' (JObj kvs)" and bel: "\<And>v s. below s (JObj kvs) \<Longrightarrow> fine (rec v s)" using free rec JObj by simp_all
  have "json_get kvs ''$ref'' = None" using kf by (simp add: json_get_def map_of_eq_None_iff)
  then have r: "fine (ref_check rec whole kvs v)" by (simp add: ref_check_def json_given_def fines)
  have b: "fine (branch_check rec kvs v kc)" for kc
    unfolding branch_check_def
    by (auto split: option.split json.split intro!: fines bel dest: below_given [OF kf] below_mem(1))
  have n: "fine (not_check rec kvs v)" "fine (if_check rec kvs v)"
    unfolding not_check_def if_check_def
    by (auto split: option.split intro!: fines bel dest: below_given [OF kf] below_get [OF kf])
  have t: "fine (type_check kvs v)"
    unfolding type_check_def by (auto split: option.split json.split intro!: fines type_fine)
  have "fine (shape_check env rec kvs v)"
    unfolding shape_check_def by (cases v) (simp_all add: object_fine [OF bel kf] array_fine [OF bel kf] number_fine [OF env] fine_Inr)
  with JObj r b n t show ?thesis unfolding schema_step_def by (auto intro!: fines)
qed (simp_all add: schema_step_def fine_Inr)

lemma enough_depth:
  assumes "env_fine env"
  shows "key_free ''$ref'' s \<Longrightarrow> size s < n \<Longrightarrow> fine (matches_json_schema env n whole v s)"
proof (induction n arbitrary: v s)
  case (Suc n)
  have "fine (matches_json_schema env n whole w t)" if "below t s" for w t
    using Suc that by (simp add: below_def)
  with Suc.prems assms show ?case by (simp add: schema_step_fine)
qed simp

text \<open>A reference that leads back to itself exhausts every stack.\<close>

lemma cyclic_reference:
  assumes "resolve_schema_ref whole r = JObj [(ustr ''$ref'', r)]" and "r \<noteq> JNull"
  shows "matches_json_schema env n whole v (JObj [(ustr ''$ref'', r)]) = Inl RecursionError"
proof (induction n)
  case (Suc n)
  have "ustr ''$ref'' \<in> ustr ` set JSON_SCHEMA_KEYWORDS" by (simp add: JSON_SCHEMA_KEYWORDS_def)
  moreover have "json_given [(ustr ''$ref'', r)] ''$ref'' = Some r"
    using assms(2) by (cases r) (simp_all add: json_given_def json_get_def)
  ultimately show ?case using Suc assms(1) by (simp add: schema_step_def ref_check_def andE_def del: ustr_inj)
qed simp

section \<open>Strict answers and the output contract\<close>

text \<open>
  Schemas that use only the keywords the output contract interprets, apart from \<open>items\<close>; values
  without arrays. There the two validators of the library can be compared.
\<close>

definition PLAIN_KEYWORDS :: "ident list" where
  "PLAIN_KEYWORDS = JSON_SCHEMA_ANNOTATIONS @ [''type'', ''enum'', ''required'', ''properties'', ''additionalProperties'']"

function plain_schema :: "(pystr \<times> json) list \<Rightarrow> bool" where
  "plain_schema s \<longleftrightarrow>
     set (map fst s) \<subseteq> ustr ` set PLAIN_KEYWORDS
     \<and> (case json_get s ''type'' of None \<Rightarrow> True | Some t \<Rightarrow> is_string t)
     \<and> (case json_get s ''enum'' of None \<Rightarrow> True | Some (JArr es) \<Rightarrow> list_all is_string es | Some _ \<Rightarrow> False)
     \<and> (case json_get s ''required'' of None \<Rightarrow> True | Some (JArr ks) \<Rightarrow> list_all is_string ks | Some _ \<Rightarrow> False)
     \<and> (case json_get s ''additionalProperties'' of None \<Rightarrow> True | Some a \<Rightarrow> is_boolean a)
     \<and> (case json_get s ''properties'' of
          None \<Rightarrow> True
        | Some (JObj ps) \<Rightarrow> list_all (\<lambda>(k, c). case c of JObj c' \<Rightarrow> plain_schema c' | _ \<Rightarrow> False) ps
        | Some _ \<Rightarrow> False)"
  by pat_completeness auto

termination plain_schema
  by (relation "measure (\<lambda>s. size (JObj s))")
    (auto simp del: json.size dest!: sym [of "Some _"] size_json_get size_mem_obj)

declare plain_schema.simps [simp del]

fun array_free :: "json \<Rightarrow> bool" where
  "array_free (JArr vs) \<longleftrightarrow> False"
| "array_free (JObj kvs) \<longleftrightarrow> list_all (\<lambda>(k, v). array_free v) kvs"
| "array_free _ \<longleftrightarrow> True"

lemma plain_keys:
  assumes "plain_schema s"
  shows "set (map fst s) \<subseteq> ustr ` set JSON_SCHEMA_KEYWORDS" and "k \<notin> set PLAIN_KEYWORDS \<Longrightarrow> json_get s k = None"
proof -
  have keys: "set (map fst s) \<subseteq> ustr ` set PLAIN_KEYWORDS" using assms by (subst (asm) plain_schema.simps) blast
  have "set PLAIN_KEYWORDS \<subseteq> set JSON_SCHEMA_KEYWORDS" by (auto simp: PLAIN_KEYWORDS_def JSON_SCHEMA_KEYWORDS_def)
  with keys show "set (map fst s) \<subseteq> ustr ` set JSON_SCHEMA_KEYWORDS" by blast
  assume "k \<notin> set PLAIN_KEYWORDS"
  then have "ustr k \<notin> set (map fst s)" using keys by auto
  then show "json_get s k = None" by (simp add: json_get_def map_of_eq_None_iff)
qed

lemma plain_absent:
  assumes "plain_schema s"
  shows "json_given s ''$ref'' = None" "json_given s ''allOf'' = None" "json_given s ''anyOf'' = None"
    "json_given s ''oneOf'' = None" "json_get s ''not'' = None" "json_given s ''if'' = None" "json_get s ''const'' = None"
    "json_given s ''minProperties'' = None" "json_given s ''maxProperties'' = None" "json_get s ''prefixItems'' = None"
    "json_given s ''minLength'' = None" "json_given s ''maxLength'' = None" "json_given s ''pattern'' = None"
    "json_given s ''minimum'' = None" "json_given s ''maximum'' = None" "json_given s ''exclusiveMinimum'' = None"
    "json_given s ''exclusiveMaximum'' = None" "json_given s ''multipleOf'' = None" "json_get s ''items'' = None"
    "json_given s ''minItems'' = None" "json_given s ''maxItems'' = None" "json_get s ''uniqueItems'' = None"
  by (simp_all add: json_given_def plain_keys(2) [OF assms] PLAIN_KEYWORDS_def JSON_SCHEMA_ANNOTATIONS_def)

text \<open>What is left of one step of the matcher on such a schema.\<close>

definition plain_shape :: "(json \<Rightarrow> json \<Rightarrow> exn + bool) \<Rightarrow> (pystr \<times> json) list \<Rightarrow> json \<Rightarrow> exn + bool" where
  "plain_shape rec s v = (case v of JObj obj \<Rightarrow> object_check rec s obj | JArr vs \<Rightarrow> Inr False | _ \<Rightarrow> Inr True)"

lemma plain_step:
  assumes "plain_schema s"
  shows "schema_step env rec whole v (JObj s) =
     andE (Inr (value_check s v)) (andE (type_check s v) (plain_shape rec s v))"
proof -
  have "shape_check env rec s v = plain_shape rec s v"
    by (cases v) (simp_all add: shape_check_def plain_shape_def array_check_def string_check_def matches_number_def
      NUMBER_BOUNDS_def bound_check_def in_range_def andE_def plain_absent [OF assms])
  then show ?thesis
    using plain_keys(1) [OF assms]
    by (simp add: schema_step_def ref_check_def BRANCH_KEYWORDS_def branch_check_def not_check_def if_check_def
      plain_absent [OF assms] andE_def)
qed

lemma plain_type:
  assumes "plain_schema s"
  shows "type_check s v = Inr (\<forall>t. json_get s ''type'' = Some (JStr t) \<longrightarrow> (\<exists>test. type_ok t = Some test \<and> test v))"
proof (cases "json_get s ''type''")
  case (Some t)
  then have "is_string t" using assms by (subst (asm) plain_schema.simps) simp
  with Some show ?thesis
    by (cases t) (simp_all add: type_check_def json_given_def matches_json_type_def split: option.split)
qed (simp add: type_check_def json_given_def)

lemma plain_value:
  assumes "plain_schema s"
  shows "value_check s v \<longleftrightarrow> (\<forall>es. json_get s ''enum'' = Some (JArr es) \<longrightarrow> (\<exists>e \<in> set es. py_eq v e))"
proof (cases "json_get s ''enum''")
  case (Some e)
  then obtain es where es: "e = JArr es" "list_all is_string es"
    using assms by (subst (asm) plain_schema.simps) (simp split: json.splits)
  have "json_equal v x \<longleftrightarrow> py_eq v x" if "x \<in> set es" for x
  proof -
    have "is_string x" using es(2) that by (simp add: list_all_iff)
    then obtain t where "x = JStr t" by (cases x) simp_all
    then show ?thesis by (cases v) (simp_all add: json_equal_def py_eq.simps)
  qed
  then show ?thesis using Some es(1) by (simp add: value_check_def plain_absent [OF assms] list_ex_iff)
qed (simp add: value_check_def plain_absent [OF assms])


lemma plain_properties:
  assumes "plain_schema s"
  obtains ps where "schema_properties s = Some ps"
    and "(case json_get s ''properties'' of None \<Rightarrow> JObj [] | Some p \<Rightarrow> p) = JObj ps"
    and "\<And>k c. (k, c) \<in> set ps \<Longrightarrow> \<exists>c'. c = JObj c' \<and> plain_schema c' \<and> size c < size (JObj s)"
proof (cases "json_get s ''properties''")
  case None
  then show thesis by (intro that [of "[]"]) (simp_all add: schema_properties_def)
next
  case (Some p)
  obtain ps where p: "p = JObj ps" and all: "list_all (\<lambda>(k, c). case c of JObj c' \<Rightarrow> plain_schema c' | _ \<Rightarrow> False) ps"
    using assms Some by (subst (asm) plain_schema.simps) (simp split: json.splits)
  have "\<exists>c'. c = JObj c' \<and> plain_schema c' \<and> size c < size (JObj s)" if "(k, c) \<in> set ps" for k c
  proof -
    have "case c of JObj c' \<Rightarrow> plain_schema c' | _ \<Rightarrow> False" using all that by (auto simp: list_all_iff)
    moreover have "size c < size (JObj s)" using size_mem_obj [OF that] size_json_get [OF Some] p by simp
    ultimately show ?thesis by (cases c) simp_all
  qed
  with Some p show thesis by (intro that [of ps]) (simp_all add: schema_properties_def)
qed

lemma allE'_total:
  "(\<And>x. x \<in> set xs \<Longrightarrow> \<exists>b. f x = Inr b) \<Longrightarrow> allE' f xs = Inr (\<forall>x \<in> set xs. f x = Inr True)"
proof (induction xs)
  case (Cons x xs)
  from Cons.prems [of x] obtain b where "f x = Inr b" by auto
  with Cons show ?case by (simp add: andE_def)
qed simp

lemma plain_object:
  assumes plain: "plain_schema s" and ps: "schema_properties s = Some ps"
    and total: "\<And>c w. JObj c \<in> snd ` set ps \<Longrightarrow> \<exists>b. rec w (JObj c) = Inr b"
  shows "object_check rec s obj = Inr
     ((\<forall>ks k. json_get s ''required'' = Some (JArr ks) \<and> JStr k \<in> set ks \<longrightarrow> k \<in> fst ` set obj)
      \<and> (json_get s ''additionalProperties'' = Some (JBool False) \<longrightarrow> fst ` set obj \<subseteq> fst ` set ps)
      \<and> (\<forall>k w c. (k, w) \<in> set obj \<and> map_of ps k = Some (JObj c) \<longrightarrow> rec w (JObj c) = Inr True))"
    (is "_ = Inr (?R \<and> ?A \<and> ?C)")
proof -
  let ?a = "case json_get s ''additionalProperties'' of None \<Rightarrow> JBool True | Some a \<Rightarrow> a"
  let ?r = "case json_get s ''required'' of None \<Rightarrow> JArr [] | Some r \<Rightarrow> r"
  obtain qs where q: "schema_properties s = Some qs" "(case json_get s ''properties'' of None \<Rightarrow> JObj [] | Some p \<Rightarrow> p) = JObj qs"
    and objs: "\<And>k c. (k, c) \<in> set qs \<Longrightarrow> \<exists>c'. c = JObj c' \<and> plain_schema c' \<and> size c < size (JObj s)"
    by (rule plain_properties [OF plain]) blast
  have qs: "qs = ps" using q(1) ps by simp
  obtain b where b: "?a = JBool b" "b = (json_get s ''additionalProperties'' \<noteq> Some (JBool False))"
    using plain by (subst (asm) plain_schema.simps) (auto split: option.splits elim: is_boolean.elims)
  obtain ks where ks: "?r = JArr ks" "list_all is_string ks"
    using plain by (subst (asm) plain_schema.simps) (auto split: option.splits json.splits)
  have req: "list_all (\<lambda>k. case k of JStr t \<Rightarrow> t \<in> set (map fst obj) | _ \<Rightarrow> False) ks = ?R"
    using ks by (auto simp: list_all_iff split: json.splits option.splits)
  have child: "object_child rec (JBool b) ps kw = Inr (\<forall>c. map_of ps (fst kw) = Some (JObj c) \<longrightarrow> rec (snd kw) (JObj c) = Inr True)"
    if "?A" "kw \<in> set obj" for kw
  proof (cases "map_of ps (fst kw)")
    case None
    then have "fst kw \<notin> fst ` set ps" by (simp add: map_of_eq_None_iff)
    then have b using b(2) that by auto
    then show ?thesis using None by (simp add: object_child_def)
  next
    case (Some c)
    then obtain c' where "c = JObj c'" using objs [OF map_of_SomeD] qs by metis
    then show ?thesis using Some total [of c' "snd kw"] imageI [OF map_of_SomeD [OF Some], of snd] by (auto simp: object_child_def)
  qed
  have "allE' (object_child rec (JBool b) ps) obj = Inr ?C" if "?A"
    proof -
    have "allE' (object_child rec (JBool b) ps) obj = Inr (\<forall>kw \<in> set obj. object_child rec (JBool b) ps kw = Inr True)"
      by (rule allE'_total) (simp add: child [OF that])
    then show ?thesis using child [OF that] by auto
  qed
  then show ?thesis
    using b q(2) qs ks(1) req plain_absent [OF plain]
    by (auto simp: object_check_def Let_def in_range_def)
qed


text \<open>One call of the matcher whose recursive calls have answers.\<close>

definition plain_accepts ::
  "(json \<Rightarrow> json \<Rightarrow> exn + bool) \<Rightarrow> (pystr \<times> json) list \<Rightarrow> (pystr \<times> json) list \<Rightarrow> json \<Rightarrow> bool" where
  "plain_accepts rec s ps v \<longleftrightarrow>
     (\<forall>t. json_get s ''type'' = Some (JStr t) \<longrightarrow> (\<exists>test. type_ok t = Some test \<and> test v))
     \<and> (\<forall>es. json_get s ''enum'' = Some (JArr es) \<longrightarrow> (\<exists>e \<in> set es. py_eq v e))
     \<and> \<not> is_array v
     \<and> (\<forall>obj ks k. v = JObj obj \<and> json_get s ''required'' = Some (JArr ks) \<and> JStr k \<in> set ks \<longrightarrow> k \<in> fst ` set obj)
     \<and> (\<forall>obj. v = JObj obj \<and> json_get s ''additionalProperties'' = Some (JBool False) \<longrightarrow> fst ` set obj \<subseteq> fst ` set ps)
     \<and> (\<forall>obj k w c. v = JObj obj \<and> (k, w) \<in> set obj \<and> map_of ps k = Some (JObj c) \<longrightarrow> rec w (JObj c) = Inr True)"

lemma plain_matches:
  assumes plain: "plain_schema s" and ps: "schema_properties s = Some ps"
    and total: "\<And>c w. JObj c \<in> snd ` set ps \<Longrightarrow> \<exists>b. matches_json_schema env n whole w (JObj c) = Inr b"
  shows "matches_json_schema env (Suc n) whole v (JObj s) = Inr (plain_accepts (matches_json_schema env n whole) s ps v)"
  using plain_object [OF plain ps, of "matches_json_schema env n whole"] total
  by (cases v) (simp_all only: matches_json_schema.simps plain_step [OF plain] plain_type [OF plain] plain_value [OF plain],
     auto simp: plain_shape_def plain_accepts_def andE_def)

lemma strict_total:
  assumes "plain_schema s" and "size (JObj s) < n"
  shows "\<exists>b. matches_json_schema env n whole v (JObj s) = Inr b"
  using assms
proof (induction n arbitrary: s v)
  case (Suc n)
  obtain ps where ps: "schema_properties s = Some ps"
    and objs: "\<And>k c. (k, c) \<in> set ps \<Longrightarrow> \<exists>c'. c = JObj c' \<and> plain_schema c' \<and> size c < size (JObj s)"
    by (rule plain_properties [OF Suc.prems(1)]) blast
  have "\<exists>b. matches_json_schema env n whole w (JObj c) = Inr b" if "JObj c \<in> snd ` set ps" for c w
    using that objs Suc.IH [of c w] Suc.prems(2) by fastforce
  then show ?case using plain_matches [OF Suc.prems(1) ps] by blast
qed simp


lemma json_wf_member: "json_wf (JObj kvs) \<Longrightarrow> (k, v) \<in> set kvs \<Longrightarrow> json_wf v"
  by (auto simp: list_all_iff)

lemma strict_sound:
  assumes "plain_schema s" and "json_wf (JObj s)" and "size (JObj s) < n" and "matches_json_schema env n whole v (JObj s) = Inr True"
  shows "conforms s v"
  using assms
proof (induction n arbitrary: s v)
  case (Suc n)
  obtain ps where ps: "schema_properties s = Some ps"
    and properties: "(case json_get s ''properties'' of None \<Rightarrow> JObj [] | Some p \<Rightarrow> p) = JObj ps"
    and objs: "\<And>k c. (k, c) \<in> set ps \<Longrightarrow> \<exists>c'. c = JObj c' \<and> plain_schema c' \<and> size c < size (JObj s)"
    by (rule plain_properties [OF Suc.prems(1)]) blast
  have wf: "json_wf (JObj ps)"
    using properties json_wf_member [OF Suc.prems(2), of "ustr ''properties''"]
    by (auto simp: json_get_def split: option.splits dest!: map_of_SomeD simp del: json_wf.simps) simp
  have total: "\<exists>b. matches_json_schema env n whole w (JObj c) = Inr b" if "JObj c \<in> snd ` set ps" for c w
    using that objs strict_total [of c n] Suc.prems(3) by fastforce
  have ok: "plain_accepts (matches_json_schema env n whole) s ps v"
    using plain_matches [OF Suc.prems(1) ps total, of v] Suc.prems(4) by simp
  have children: "conforms c w" if "v = JObj obj" "(k, JObj c) \<in> set ps" "map_of obj k = Some w" for obj k c w
  proof -
    have "map_of ps k = Some (JObj c)" using wf that(2) by simp
    then have "matches_json_schema env n whole w (JObj c) = Inr True" using ok that map_of_SomeD [OF that(3)] unfolding plain_accepts_def by blast
    moreover have "json_wf (JObj c)" by (rule json_wf_member [OF wf that(2)])
    ultimately show ?thesis using Suc.IH objs [OF that(2)] Suc.prems(3) by auto
  qed
  show ?case
  proof (rule conforms.intros, goal_cases)
    case 3 show ?case using ok unfolding plain_accepts_def by (elim conjE) assumption
  next
    case 5 show ?case using children ps by auto
  next
    case 6 show ?case using ok by (auto simp: plain_accepts_def)
  qed (use ok ps in \<open>simp_all add: plain_accepts_def\<close>)
qed simp

lemma strict_complete:
  assumes "plain_schema s" and "json_wf v" and "array_free v" and "size (JObj s) < n" and "conforms s v"
  shows "matches_json_schema env n whole v (JObj s) = Inr True"
  using assms
proof (induction n arbitrary: s v)
  case (Suc n)
  obtain ps where ps: "schema_properties s = Some ps"
    and objs: "\<And>k c. (k, c) \<in> set ps \<Longrightarrow> \<exists>c'. c = JObj c' \<and> plain_schema c' \<and> size c < size (JObj s)"
    by (rule plain_properties [OF Suc.prems(1)]) blast
  have total: "\<exists>b. matches_json_schema env n whole w (JObj c) = Inr b" if "JObj c \<in> snd ` set ps" for c w
    using that objs strict_total [of c n] Suc.prems(4) by fastforce
  note ok = Suc.prems(5) [unfolded conforms_simps [of s v]]
  have children: "matches_json_schema env n whole w (JObj c) = Inr True"
    if v: "v = JObj obj" and w: "(k, w) \<in> set obj" and c: "map_of ps k = Some (JObj c)" for obj k w c
  proof -
    have "json_wf w" "array_free w" "map_of obj k = Some w" using Suc.prems(2,3) v w by (auto simp: list_all_iff)
    moreover have "conforms c w" using ok v ps map_of_SomeD [OF c] \<open>map_of obj k = Some w\<close> by blast
    ultimately show ?thesis using Suc.IH objs [OF map_of_SomeD [OF c]] Suc.prems(4) by auto
  qed
  have "\<not> is_array v" using Suc.prems(3) by (cases v) simp_all
  moreover have "\<forall>obj ks k. v = JObj obj \<and> json_get s ''required'' = Some (JArr ks) \<and> JStr k \<in> set ks \<longrightarrow> k \<in> fst ` set obj"
    using ok by (elim conjE) assumption
  moreover have "\<forall>obj k w c. v = JObj obj \<and> (k, w) \<in> set obj \<and> map_of ps k = Some (JObj c) \<longrightarrow>
      matches_json_schema env n whole w (JObj c) = Inr True"
    using children by blast
  ultimately have "plain_accepts (matches_json_schema env n whole) s ps v"
    unfolding plain_accepts_def using ok ps by (intro conjI) simp_all
  then show ?case using plain_matches [OF Suc.prems(1) ps total, of v] by simp
qed simp

lemma plain_wf: "plain_schema s \<Longrightarrow> wf_schema s"
proof (induction s rule: plain_schema.induct)
  case (1 s)
  note plain = 1(2)
  obtain ps where properties: "(case json_get s ''properties'' of None \<Rightarrow> JObj [] | Some p \<Rightarrow> p) = JObj ps"
    and objs: "\<And>k c. (k, c) \<in> set ps \<Longrightarrow> \<exists>c'. c = JObj c' \<and> plain_schema c' \<and> size c < size (JObj s)"
    by (rule plain_properties [OF plain]) blast
  have ty: "case json_get s ''type'' of None \<Rightarrow> True | Some t \<Rightarrow> t = JNull \<or> is_string t"
    and en: "case json_get s ''enum'' of None \<Rightarrow> True | Some es \<Rightarrow> is_array es"
    and re: "case json_get s ''required'' of None \<Rightarrow> True | Some (JArr ks) \<Rightarrow> list_all is_string ks | Some _ \<Rightarrow> False"
    using plain by (subst (asm) plain_schema.simps, simp split: option.splits json.splits)+
  have "list_all (\<lambda>(k, c). case c of JObj c' \<Rightarrow> wf_schema c' | _ \<Rightarrow> True) ps" if p: "json_get s ''properties'' = Some (JObj ps)"
  proof (clarsimp simp: list_all_iff)
    fix k c assume m: "(k, c) \<in> set ps"
    from objs [OF m] 1(1) [OF p refl m refl] show "case c of JObj c' \<Rightarrow> wf_schema c' | _ \<Rightarrow> True" by auto
  qed
  then have "case json_get s ''properties'' of None \<Rightarrow> True
      | Some (JObj ps) \<Rightarrow> list_all (\<lambda>(k, c). case c of JObj c' \<Rightarrow> wf_schema c' | _ \<Rightarrow> True) ps | Some _ \<Rightarrow> False"
    using properties by (auto split: option.splits)
  with ty en re show ?case by (subst wf_schema.simps) (simp add: plain_absent [OF plain])
qed


text \<open>
  Where the two validators of the library can be compared they agree on values without arrays; an
  array passes the output contract and not the strict check.
\<close>

lemma strict_check_agrees:
  assumes "plain_schema s" and "json_wf (JObj s)" and "json_wf v" and "size (JObj s) < n"
  shows "array_free v \<Longrightarrow> matches_json_schema env n whole v (JObj s) = Inr (validate_schema s v [] = Inr None)"
    and "matches_json_schema env n whole v (JObj s) = Inr True \<Longrightarrow> validate_schema s v [] = Inr None"
    and "matches_json_schema env n whole (JArr vs) (JObj s) = Inr False"
proof -
  have iff: "validate_schema s w [] = Inr None \<longleftrightarrow> conforms s w" for w
    using validate_schema_decides [OF plain_wf [OF assms(1)]] by blast
  have total: "\<exists>b. matches_json_schema env n whole w (JObj s) = Inr b" for w
    by (rule strict_total [OF assms(1,4)])
  note sound = strict_sound [OF assms(1,2,4)]
  show "matches_json_schema env n whole v (JObj s) = Inr (validate_schema s v [] = Inr None)" if "array_free v"
    using total [of v] sound strict_complete [OF assms(1,3) that assms(4)] iff by fastforce
  show "validate_schema s v [] = Inr None" if "matches_json_schema env n whole v (JObj s) = Inr True"
    using sound [OF that] iff by simp
  show "matches_json_schema env n whole (JArr vs) (JObj s) = Inr False"
    using total [of "JArr vs"] arrays_rejected plain_absent(10) [OF assms(1)] by (metis (full_types))
qed


section \<open>A schema checked\<close>

definition demo_schema_env :: schema_env where
  "demo_schema_env = \<lparr>sv_search = (\<lambda>p t. Some (is_substring p t)), sv_dumps = (\<lambda>v. case v of JStr t \<Rightarrow> t | _ \<Rightarrow> []),
     sv_multiple = (\<lambda>v m. Inr (v = m)), sv_not_implemented = Inr True\<rparr>"

definition demo_plain_schema :: "(pystr \<times> json) list" where
  "demo_plain_schema =
     [(ustr ''type'', JStr (ustr ''object'')),
      (ustr ''properties'', JObj [(ustr ''name'', JObj [(ustr ''type'', JStr (ustr ''string''))])]),
      (ustr ''required'', JArr [JStr (ustr ''name'')]),
      (ustr ''additionalProperties'', JBool False)]"

lemma demo_plain: "plain_schema demo_plain_schema" "json_wf (JObj demo_plain_schema)"
proof -
  have "plain_schema [(ustr ''type'', JStr (ustr ''string''))]"
    by (subst plain_schema.simps) (simp add: json_get_def PLAIN_KEYWORDS_def)
  then show "plain_schema demo_plain_schema"
    by (subst plain_schema.simps) (simp add: json_get_def PLAIN_KEYWORDS_def demo_plain_schema_def)
qed (simp add: demo_plain_schema_def)

lemma demo_strict:
  "matches_json_schema demo_schema_env 5 JNull (JObj [(ustr ''name'', JStr (ustr ''x''))]) (JObj demo_plain_schema) = Inr True"
  "matches_json_schema demo_schema_env 5 JNull (JObj [(ustr ''name'', JInt 1)]) (JObj demo_plain_schema) = Inr False"
  by code_simp+

end
