(* ===== verification/Sqlite_Store.thy ===== *)
theory Sqlite_Store
  imports Store_Laws Model_Exchange
begin

text \<open>
  The persistent Run Store, \<open>src/src/m_agent/adapters/_sqlite_store.py\<close>: its tables, the
  implicit transactions of a \<open>sqlite3\<close> connection, and every operation of the class.

  A table whose rows are only addressed by primary key (\<open>runs\<close>, \<open>run_payloads\<close>) is a map
  from the key; a table that is read back with \<open>ORDER BY rowid\<close> is the list of its rows
  in that order. A timestamp column holds \<open>isoformat()\<close> text; for the UTC readings of the
  injected clock the order of that text is the order of the instants, so the column is the
  instant. A \<open>snapshot_json\<close> cell is the snapshot it was dumped from, with the information
  whether the object has an \<open>instructions\<close> key: databases of earlier versions do.
  Each statement finds the database lock free.
\<close>

section \<open>Tables\<close>

datatype snapshot_json = Metadata_Json definition_snapshot | Legacy_Json definition_snapshot

record run_row =
  rw_run_id :: ident
  rw_definition_id :: ident
  rw_definition_version :: ident
  rw_status :: run_status
  rw_snapshot_json :: "snapshot_json option"
  rw_version :: int
  rw_waiting_reason :: "ident option"
  rw_waiting_step_id :: "ident option"
  rw_error_code :: "ident option"
  rw_lease_owner :: "ident option"
  rw_lease_expires_at :: "timestamp option"
  rw_created_at :: timestamp
  rw_updated_at :: timestamp

record sql_tables =
  tb_runs :: "ident \<Rightarrow> run_row option"
  tb_payloads :: "ident \<times> string \<Rightarrow> pybytes option"
  tb_steps :: "step_record list"
  tb_attempts :: "stored_attempt list"
  tb_checkpoints :: "stored_checkpoint list"
  tb_policy :: "policy_decision_record list"

definition empty_tables :: sql_tables where
  "empty_tables = \<lparr>tb_runs = Map.empty, tb_payloads = Map.empty, tb_steps = [], tb_attempts = [],
     tb_checkpoints = [], tb_policy = []\<rparr>"

text \<open>
  What the store takes from outside: the codec and JSON functions of every Run Store, and
  \<open>DefinitionSnapshot.model_validate\<close> on the parsed cell.
\<close>

record sql_env =
  sq_env :: store_env
  sq_model_validate :: "definition_snapshot \<Rightarrow> exn + definition_snapshot"

text \<open>\<open>json.loads(...)\<close> and \<open>setdefault("instructions", "")\<close>.\<close>

fun snapshot_data :: "snapshot_json \<Rightarrow> definition_snapshot" where
  "snapshot_data (Metadata_Json d) = d\<lparr>snap_instructions := []\<rparr>"
| "snapshot_data (Legacy_Json d) = d"

definition read_snapshot_cell :: "sql_env \<Rightarrow> snapshot_json option \<Rightarrow> exn + definition_snapshot option" where
  "read_snapshot_cell env cell =
     (case cell of
        None \<Rightarrow> Inr None
      | Some j \<Rightarrow> bindE (sq_model_validate env (snapshot_data j)) (\<lambda>d. Inr (Some d)))"

definition run_from_row :: "sql_env \<Rightarrow> run_row \<Rightarrow> exn + stored_run" where
  "run_from_row env row =
     bindE (read_snapshot_cell env (rw_snapshot_json row)) (\<lambda>snapshot. Inr
     \<lparr>sr_run_id = rw_run_id row,
      sr_definition_id = rw_definition_id row,
      sr_definition_version = rw_definition_version row,
      sr_status = rw_status row,
      sr_snapshot = snapshot,
      sr_version = rw_version row,
      sr_waiting_reason = rw_waiting_reason row,
      sr_waiting_step_id = rw_waiting_step_id row,
      sr_error_code = rw_error_code row,
      sr_lease_owner = rw_lease_owner row,
      sr_lease_expires_at = rw_lease_expires_at row,
      sr_created_at = rw_created_at row,
      sr_updated_at = rw_updated_at row\<rparr>)"

text \<open>\<open>_snapshot_metadata_json\<close>: the dump excludes the \<open>instructions\<close> key.\<close>

definition snapshot_metadata_json :: "definition_snapshot option \<Rightarrow> snapshot_json option" where
  "snapshot_metadata_json snapshot = map_option Metadata_Json snapshot"

definition run_row_of :: "stored_run \<Rightarrow> run_row" where
  "run_row_of stored =
     \<lparr>rw_run_id = sr_run_id stored,
      rw_definition_id = sr_definition_id stored,
      rw_definition_version = sr_definition_version stored,
      rw_status = sr_status stored,
      rw_snapshot_json = snapshot_metadata_json (sr_snapshot stored),
      rw_version = sr_version stored,
      rw_waiting_reason = sr_waiting_reason stored,
      rw_waiting_step_id = sr_waiting_step_id stored,
      rw_error_code = sr_error_code stored,
      rw_lease_owner = sr_lease_owner stored,
      rw_lease_expires_at = sr_lease_expires_at stored,
      rw_created_at = sr_created_at stored,
      rw_updated_at = sr_updated_at stored\<rparr>"

section \<open>The connection\<close>

text \<open>
  A data-changing statement opens a transaction implicitly, also when it changes no row or
  fails; \<open>commit\<close> publishes what the connection sees, \<open>rollback\<close> drops it. Between two
  statements outside a transaction other connections may commit: \<open>interleave\<close> applies such
  a change of the file, which an open transaction (it holds the write lock) excludes.
\<close>

record sql_conn =
  cn_committed :: sql_tables
  cn_pending :: "sql_tables option"

definition open_conn :: "sql_tables \<Rightarrow> sql_conn" where
  "open_conn t = \<lparr>cn_committed = t, cn_pending = None\<rparr>"

definition sees :: "sql_conn \<Rightarrow> sql_tables" where
  "sees c = (case cn_pending c of None \<Rightarrow> cn_committed c | Some t \<Rightarrow> t)"

definition execute :: "(sql_tables \<Rightarrow> sql_tables) \<Rightarrow> sql_conn \<Rightarrow> sql_conn" where
  "execute f c = c\<lparr>cn_pending := Some (f (sees c))\<rparr>"

definition commit :: "sql_conn \<Rightarrow> sql_conn" where
  "commit c = \<lparr>cn_committed = sees c, cn_pending = None\<rparr>"

definition rollback :: "sql_conn \<Rightarrow> sql_conn" where
  "rollback c = c\<lparr>cn_pending := None\<rparr>"

definition interleave :: "(sql_tables \<Rightarrow> sql_tables) \<Rightarrow> sql_conn \<Rightarrow> sql_conn" where
  "interleave others c =
     (if cn_pending c = None then c\<lparr>cn_committed := others (cn_committed c)\<rparr> else c)"

text \<open>
  \<open>INSERT OR REPLACE\<close> deletes the row of the same primary key and inserts at the end of the
  rowid order.
\<close>

definition replace_row :: "('a \<Rightarrow> 'k) \<Rightarrow> 'a \<Rightarrow> 'a list \<Rightarrow> 'a list" where
  "replace_row key x xs = filter (\<lambda>y. key y \<noteq> key x) xs @ [x]"

definition step_key :: "step_record \<Rightarrow> ident \<times> ident" where
  "step_key x = (step_run_id x, step_id x)"

definition attempt_key :: "stored_attempt \<Rightarrow> ident \<times> ident" where
  "attempt_key a = (sa_run_id a, sa_attempt_id a)"

definition checkpoint_key :: "stored_checkpoint \<Rightarrow> ident \<times> ident" where
  "checkpoint_key c = (sc_run_id c, sc_step_id c)"

definition put_run :: "ident \<Rightarrow> run_row \<Rightarrow> sql_tables \<Rightarrow> sql_tables" where
  "put_run rid row t = t\<lparr>tb_runs := (tb_runs t)(rid \<mapsto> row)\<rparr>"

definition put_payload :: "ident \<Rightarrow> string \<Rightarrow> pybytes \<Rightarrow> sql_tables \<Rightarrow> sql_tables" where
  "put_payload rid field encoded t =
     t\<lparr>tb_payloads := (tb_payloads t)((rid, field) \<mapsto> encoded)\<rparr>"

definition sql_set_payload :: "ident \<Rightarrow> string \<Rightarrow> pybytes \<Rightarrow> sql_conn \<Rightarrow> sql_conn" where
  "sql_set_payload rid field encoded c = execute (put_payload rid field encoded) c"

fun sql_set_payloads :: "ident \<Rightarrow> payload_entries \<Rightarrow> sql_conn \<Rightarrow> sql_conn" where
  "sql_set_payloads rid [] c = c"
| "sql_set_payloads rid ((field, encoded) # ps) c =
     sql_set_payloads rid ps (sql_set_payload rid field encoded c)"

definition raw_payload_bytes :: "ident \<Rightarrow> string \<Rightarrow> sql_conn \<Rightarrow> pybytes option" where
  "raw_payload_bytes rid field c = tb_payloads (sees c) (rid, field)"

definition sql_read_payload :: "sql_env \<Rightarrow> sql_conn \<Rightarrow> ident \<Rightarrow> string \<Rightarrow> exn + pystr option" where
  "sql_read_payload env c rid field =
     (case tb_payloads (sees c) (rid, field) of
        None \<Rightarrow> Inr None
      | Some b \<Rightarrow> bindE (env_decode (sq_env env) b) (\<lambda>t. Inr (Some t)))"

text \<open>\<open>SELECT * FROM runs WHERE run_id = ?\<close>; \<open>_run_from_row(None)\<close> subscripts \<open>None\<close>.\<close>

definition fetch_run :: "sql_conn \<Rightarrow> ident \<Rightarrow> run_row option" where
  "fetch_run c rid = tb_runs (sees c) rid"

definition current_run :: "sql_env \<Rightarrow> sql_conn \<Rightarrow> ident \<Rightarrow> exn + stored_run" where
  "current_run env c rid =
     (case fetch_run c rid of None \<Rightarrow> Inl TypeError | Some row \<Rightarrow> run_from_row env row)"

section \<open>Leases\<close>

text \<open>A comparison with NULL is not true: a row without an expiry never matches.\<close>

definition acquirable :: "timestamp \<Rightarrow> ident \<Rightarrow> int \<Rightarrow> run_row \<Rightarrow> bool" where
  "acquirable now owner v row \<longleftrightarrow> rw_version row = v
     \<and> (rw_lease_owner row = None \<or> rw_lease_owner row = Some owner
        \<or> (case rw_lease_expires_at row of None \<Rightarrow> False | Some t \<Rightarrow> t \<le> now))"

definition sql_acquire_lease ::
  "sql_env \<Rightarrow> timestamp \<Rightarrow> ident \<Rightarrow> ident \<Rightarrow> duration \<Rightarrow> int \<Rightarrow> (sql_tables \<Rightarrow> sql_tables) \<Rightarrow> sql_conn
     \<Rightarrow> (exn + run_lease) \<times> sql_conn" where
  "sql_acquire_lease env now rid owner ttl v others c0 =
     (case fetch_run c0 rid of
        None \<Rightarrow> (Inl RunNotFoundError, c0)
      | Some _ \<Rightarrow>
          let c = interleave others c0;
              expires_at = now + ttl;
              hit = (case fetch_run c rid of None \<Rightarrow> None
                     | Some row \<Rightarrow> if acquirable now owner v row then Some row else None) in
          (case hit of
             None \<Rightarrow>
               let c1 = rollback c in
               attempt_op c1 (current_run env c1 rid) (\<lambda>cur.
                 if sr_version cur \<noteq> v then (Inl StaleRunVersionError, c1)
                 else (Inl LeaseNotHeldError, c1))
           | Some row \<Rightarrow>
               (Inr \<lparr>lease_run_id = rid, lease_owner = owner, lease_expires_at = expires_at\<rparr>,
                commit (execute (put_run rid (row\<lparr>rw_lease_owner := Some owner,
                                             rw_lease_expires_at := Some expires_at\<rparr>)) c))))"

definition sql_release_lease ::
  "ident \<Rightarrow> ident \<Rightarrow> int \<Rightarrow> sql_conn \<Rightarrow> (exn + unit) \<times> sql_conn" where
  "sql_release_lease rid owner v c =
     (let hit = (case fetch_run c rid of None \<Rightarrow> None
                 | Some row \<Rightarrow> if rw_version row = v \<and> rw_lease_owner row = Some owner
                              then Some row else None) in
      case hit of
        None \<Rightarrow>
          let c1 = rollback c in
          (case fetch_run c1 rid of
             None \<Rightarrow> (Inl RunNotFoundError, c1)
           | Some row \<Rightarrow> if rw_version row \<noteq> v then (Inl StaleRunVersionError, c1)
                         else (Inl LeaseNotHeldError, c1))
      | Some row \<Rightarrow>
          (Inr (), commit (execute (put_run rid (row\<lparr>rw_lease_owner := None,
                                                 rw_lease_expires_at := None\<rparr>)) c)))"

definition sql_get_lease :: "ident \<Rightarrow> sql_conn \<Rightarrow> run_lease option" where
  "sql_get_lease rid c =
     (case fetch_run c rid of
        None \<Rightarrow> None
      | Some row \<Rightarrow>
          (case (rw_lease_owner row, rw_lease_expires_at row) of
             (Some o', Some t) \<Rightarrow> Some \<lparr>lease_run_id = rid, lease_owner = o', lease_expires_at = t\<rparr>
           | _ \<Rightarrow> None))"

definition row_lease_lost :: "timestamp \<Rightarrow> ident \<Rightarrow> run_row \<Rightarrow> bool" where
  "row_lease_lost now owner row \<longleftrightarrow> rw_lease_owner row \<noteq> Some owner
     \<or> (case rw_lease_expires_at row of None \<Rightarrow> True | Some t \<Rightarrow> t \<le> now)"

definition sql_assert_lease ::
  "timestamp \<Rightarrow> ident \<Rightarrow> int \<Rightarrow> ident \<Rightarrow> sql_conn \<Rightarrow> exn + unit" where
  "sql_assert_lease now rid v owner c =
     (case fetch_run c rid of
        None \<Rightarrow> Inl RunNotFoundError
      | Some row \<Rightarrow>
          if rw_version row \<noteq> v then Inl StaleRunVersionError
          else if row_lease_lost now owner row then Inl LeaseNotHeldError else Inr ())"

definition sql_prepare_model_dispatch ::
  "timestamp \<Rightarrow> ident \<Rightarrow> int \<Rightarrow> ident \<Rightarrow> (exn + unit) \<Rightarrow> sql_conn \<Rightarrow> exn + unit" where
  "sql_prepare_model_dispatch now rid v owner guard c =
     (case fetch_run c rid of
        None \<Rightarrow> Inl RunNotFoundError
      | Some row \<Rightarrow>
          if rw_version row \<noteq> v then Inl StaleRunVersionError
          else bindE guard (\<lambda>_.
            if row_lease_lost now owner row then Inl LeaseNotHeldError else Inr ()))"

definition lease_condition :: "timestamp \<Rightarrow> ident option \<Rightarrow> run_row \<Rightarrow> bool" where
  "lease_condition now owner row =
     (case owner of
        None \<Rightarrow> True
      | Some o' \<Rightarrow> rw_lease_owner row = Some o'
          \<and> (case rw_lease_expires_at row of None \<Rightarrow> False | Some t \<Rightarrow> now < t))"

definition lease_conflict :: "sql_env \<Rightarrow> ident \<Rightarrow> sql_conn \<Rightarrow> exn" where
  "lease_conflict env rid c =
     (case current_run env c rid of Inl e \<Rightarrow> e | Inr _ \<Rightarrow> LeaseNotHeldError)"

definition raise_lease_or_missing :: "sql_env \<Rightarrow> ident \<Rightarrow> sql_conn \<Rightarrow> exn" where
  "raise_lease_or_missing env rid c =
     (case fetch_run c rid of None \<Rightarrow> RunNotFoundError | Some _ \<Rightarrow> lease_conflict env rid c)"

section \<open>Run life cycle\<close>

definition sql_load_run :: "sql_env \<Rightarrow> sql_conn \<Rightarrow> stored_run \<Rightarrow> ident \<Rightarrow> exn + run_record" where
  "sql_load_run env c sr rid =
     bindE (sql_read_payload env c rid FIELD_RUN_INPUT) (\<lambda>input.
     bindE (sql_read_payload env c rid FIELD_RUN_OUTPUT) (\<lambda>out.
     bindE (sql_read_payload env c rid FIELD_RUN_SNAPSHOT) (\<lambda>snap.
     bindE (restore_snapshot (sq_env env) (sr_snapshot sr) snap) (\<lambda>snapshot.
     bindE (sql_read_payload env c rid FIELD_RUN_HISTORY) (\<lambda>hist.
     bindE (restore_history (sq_env env) hist) (\<lambda>history.
       run_to_record sr input out snapshot history))))))"

text \<open>The INSERT fails when another connection has created the Run since the SELECT; its
  implicit transaction stays open then.\<close>

definition sql_create_run ::
  "sql_env \<Rightarrow> run_record \<Rightarrow> (sql_tables \<Rightarrow> sql_tables) \<Rightarrow> sql_conn
     \<Rightarrow> (exn + run_record) \<times> sql_conn" where
  "sql_create_run env run others c0 =
     attempt_op c0 (split_run (sq_env env) run) (\<lambda>(stored, ps).
       if fetch_run c0 (sr_run_id stored) \<noteq> None then (Inl DuplicateRunError, c0)
       else
         let c = interleave others c0 in
         if fetch_run c (sr_run_id stored) \<noteq> None then (Inl IntegrityError, execute id c)
         else
        (bindE (decode_entry (sq_env env) ps FIELD_RUN_INPUT) (\<lambda>input.
         bindE (decode_entry (sq_env env) ps FIELD_RUN_OUTPUT) (\<lambda>out.
         bindE (decode_entry (sq_env env) ps FIELD_RUN_SNAPSHOT) (\<lambda>snap.
         bindE (restore_snapshot (sq_env env) (sr_snapshot stored) snap) (\<lambda>snapshot.
         bindE (decode_entry (sq_env env) ps FIELD_RUN_HISTORY) (\<lambda>hist.
         bindE (restore_history (sq_env env) hist) (\<lambda>history.
           run_to_record stored input out snapshot history)))))),
         commit (sql_set_payloads (sr_run_id stored) ps
                   (execute (put_run (sr_run_id stored) (run_row_of stored)) c))))"

definition sql_get_run :: "sql_env \<Rightarrow> ident \<Rightarrow> sql_conn \<Rightarrow> exn + run_record option" where
  "sql_get_run env rid c =
     (case fetch_run c rid of
        None \<Rightarrow> Inr None
      | Some row \<Rightarrow>
          bindE (run_from_row env row) (\<lambda>sr.
          bindE (sql_load_run env c sr rid) (\<lambda>r. Inr (Some r))))"

text \<open>
  The UPDATE of a transition writes every column except the lease columns, on the row that
  still has the expected version and, when an owner is given, that owner's unexpired lease.
\<close>

definition updated_row :: "stored_run \<Rightarrow> run_row \<Rightarrow> run_row" where
  "updated_row updated row =
     (run_row_of updated)\<lparr>rw_run_id := rw_run_id row,
        rw_lease_owner := rw_lease_owner row,
        rw_lease_expires_at := rw_lease_expires_at row\<rparr>"

definition transition_hit ::
  "timestamp \<Rightarrow> ident \<Rightarrow> int \<Rightarrow> ident option \<Rightarrow> sql_conn \<Rightarrow> run_row option" where
  "transition_hit now rid v owner c =
     (case fetch_run c rid of
        None \<Rightarrow> None
      | Some row \<Rightarrow> if rw_version row = v \<and> lease_condition now owner row then Some row else None)"

definition transition_refused :: "sql_env \<Rightarrow> ident \<Rightarrow> int \<Rightarrow> ident option \<Rightarrow> sql_conn \<Rightarrow> exn" where
  "transition_refused env rid v owner c =
     (case owner of
        None \<Rightarrow> StaleRunVersionError
      | Some _ \<Rightarrow>
          (case current_run env c rid of
             Inl e \<Rightarrow> e
           | Inr fresh \<Rightarrow> if sr_version fresh \<noteq> v then StaleRunVersionError
                          else lease_conflict env rid c))"

definition sql_write_optional ::
  "sql_env \<Rightarrow> ident \<Rightarrow> string \<Rightarrow> pystr option \<Rightarrow> sql_conn \<Rightarrow> (exn + unit) \<times> sql_conn" where
  "sql_write_optional env rid field text c =
     (case text of
        None \<Rightarrow> (Inr (), c)
      | Some t \<Rightarrow> attempt_op c (env_encode (sq_env env) t) (\<lambda>b.
          (Inr (), sql_set_payload rid field b c)))"

definition sql_transition_run ::
  "sql_env \<Rightarrow> timestamp \<Rightarrow> timestamp \<Rightarrow> ident \<Rightarrow> int \<Rightarrow> transition_args
     \<Rightarrow> (sql_tables \<Rightarrow> sql_tables) \<Rightarrow> sql_conn \<Rightarrow> (exn + run_record) \<times> sql_conn" where
  "sql_transition_run env now utc rid v args others c0 =
     (case fetch_run c0 rid of
        None \<Rightarrow> (Inl RunNotFoundError, c0)
      | Some row0 \<Rightarrow>
     attempt_op c0 (run_from_row env row0) (\<lambda>cur.
       if sr_version cur \<noteq> v then (Inl StaleRunVersionError, c0)
       else attempt_op c0 (validate_transition (sr_status cur) (to_status args)) (\<lambda>_.
         let updated = transitioned utc args cur;
             c = interleave others c0 in
         (case transition_hit now rid v (to_lease_owner args) c of
            None \<Rightarrow>
              let c1 = rollback c in
              (Inl (transition_refused env rid v (to_lease_owner args) c1), c1)
          | Some row \<Rightarrow>
              let c1 = execute (put_run rid (updated_row updated row)) c in
              and_then (sql_write_optional env rid FIELD_RUN_OUTPUT (to_output args) c1) (\<lambda>c2.
              and_then (sql_write_optional env rid FIELD_RUN_SNAPSHOT
                   (map_option (env_dump_snapshot (sq_env env)) (to_snapshot args)) c2) (\<lambda>c3.
                let c4 = commit c3 in (sql_load_run env c4 updated rid, c4)))))))"

section \<open>Step records\<close>

text \<open>
  \<open>INSERT ... SELECT ... WHERE EXISTS (SELECT 1 FROM runs WHERE run_id=? AND version=? ...)\<close>,
  and what the three recording operations do when it inserted no row: roll back, then find
  the reason. Without an owner, a Run that has reached the expected version by now ends the
  search without an exception and the operation goes on.
\<close>

definition mutation_refused ::
  "sql_env \<Rightarrow> ident \<Rightarrow> int \<Rightarrow> ident option \<Rightarrow> sql_conn \<Rightarrow> exn + unit" where
  "mutation_refused env rid v owner c =
     (case fetch_run c rid of
        None \<Rightarrow> Inl RunNotFoundError
      | Some row \<Rightarrow>
          if rw_version row \<noteq> v then Inl StaleRunVersionError
          else (case owner of None \<Rightarrow> Inr () | Some _ \<Rightarrow> Inl (lease_conflict env rid c)))"

definition run_matches :: "timestamp \<Rightarrow> ident \<Rightarrow> int \<Rightarrow> ident option \<Rightarrow> sql_conn \<Rightarrow> bool" where
  "run_matches now rid v owner c \<longleftrightarrow> transition_hit now rid v owner c \<noteq> None"

definition guarded_insert ::
  "sql_env \<Rightarrow> timestamp \<Rightarrow> ident \<Rightarrow> int \<Rightarrow> ident option \<Rightarrow> (sql_tables \<Rightarrow> sql_tables) \<Rightarrow> sql_conn
     \<Rightarrow> (exn + unit) \<times> sql_conn" where
  "guarded_insert env now rid v owner ins c =
     (if run_matches now rid v owner c then (Inr (), execute ins c)
      else let c1 = rollback (execute id c) in (mutation_refused env rid v owner c1, c1))"

definition put_step :: "step_record \<Rightarrow> sql_tables \<Rightarrow> sql_tables" where
  "put_step x t = t\<lparr>tb_steps := replace_row step_key x (tb_steps t)\<rparr>"

definition put_attempt :: "stored_attempt \<Rightarrow> sql_tables \<Rightarrow> sql_tables" where
  "put_attempt a t = t\<lparr>tb_attempts := replace_row attempt_key a (tb_attempts t)\<rparr>"

definition add_checkpoint :: "stored_checkpoint \<Rightarrow> sql_tables \<Rightarrow> sql_tables" where
  "add_checkpoint x t = t\<lparr>tb_checkpoints := tb_checkpoints t @ [x]\<rparr>"

definition add_policy :: "policy_decision_record \<Rightarrow> sql_tables \<Rightarrow> sql_tables" where
  "add_policy d t = t\<lparr>tb_policy := tb_policy t @ [d]\<rparr>"

definition sql_record_step ::
  "sql_env \<Rightarrow> timestamp \<Rightarrow> step_record \<Rightarrow> int \<Rightarrow> ident option \<Rightarrow> sql_conn
     \<Rightarrow> (exn + step_record) \<times> sql_conn" where
  "sql_record_step env now step v owner c =
     and_then (guarded_insert env now (step_run_id step) v owner (put_step step) c)
       (\<lambda>c1. (Inr step, commit c1))"

definition sql_record_attempt ::
  "sql_env \<Rightarrow> timestamp \<Rightarrow> step_attempt \<Rightarrow> int \<Rightarrow> ident option \<Rightarrow> sql_conn
     \<Rightarrow> (exn + step_attempt) \<times> sql_conn" where
  "sql_record_attempt env now a v owner c =
     attempt_op c (split_attempt (sq_env env) a) (\<lambda>(stored, ps).
       and_then (guarded_insert env now (sa_run_id stored) v owner (put_attempt stored) c) (\<lambda>c1.
         (Inr (attempt_to_record stored (attempt_output a) (attempt_error a)),
          commit (sql_set_payloads (sa_run_id stored) ps c1))))"

text \<open>The row a reservation inserts: no error, classification, code or usage.\<close>

definition reserved_row :: "step_attempt \<Rightarrow> stored_attempt" where
  "reserved_row a =
     \<lparr>sa_attempt_id = attempt_id a, sa_step_id = attempt_step_id a, sa_run_id = attempt_run_id a,
      sa_status = attempt_status a, sa_error = None, sa_classification = None,
      sa_error_code = None, sa_model_purpose = attempt_model_purpose a, sa_usage = None,
      sa_created_at = attempt_created_at a\<rparr>"

text \<open>
  \<open>BEGIN IMMEDIATE\<close> fails inside an open transaction. Everything after it is one
  transaction, which every exception rolls back.
\<close>

definition sql_reserve_model_attempt ::
  "timestamp \<Rightarrow> step_record \<Rightarrow> step_attempt \<Rightarrow> int option \<Rightarrow> int option \<Rightarrow> int \<Rightarrow> ident \<Rightarrow> sql_conn
     \<Rightarrow> (exn + bool) \<times> sql_conn" where
  "sql_reserve_model_attempt now step a run_max purpose_max v owner c =
     (case attempt_model_purpose a of
        None \<Rightarrow> (Inl ValueError, c)
      | Some p \<Rightarrow>
     if step_type step \<noteq> STEP_MODEL \<or> step_run_id step \<noteq> attempt_run_id a
        \<or> step_id step \<noteq> attempt_step_id a then (Inl ValueError, c)
     else if cn_pending c \<noteq> None then (Inl OperationalError, rollback c)
     else
       let c1 = execute id c;
           rid = attempt_run_id a;
           own = filter (\<lambda>x. sa_run_id x = rid) (tb_attempts (sees c1)) in
       (case fetch_run c1 rid of
          None \<Rightarrow> (Inl RunNotFoundError, rollback c1)
        | Some row \<Rightarrow>
       if rw_version row \<noteq> v then (Inl StaleRunVersionError, rollback c1)
       else if row_lease_lost now owner row then (Inl LeaseNotHeldError, rollback c1)
       else if (\<exists>n \<in> set_option run_max. n \<le> int (length (model_attempts own)))
            \<or> (\<exists>n \<in> set_option purpose_max. n \<le> int (length (purpose_attempts p own)))
       then (Inr False, rollback c1)
       else
         let c2 = execute (put_step step) c1; x = reserved_row a in
         if attempt_key x \<in> attempt_key ` set (tb_attempts (sees c2))
         then (Inl IntegrityError, rollback c2)
         else (Inr True,
               commit (execute (\<lambda>t. t\<lparr>tb_attempts := tb_attempts t @ [x]\<rparr>) c2))))"

text \<open>A duplicate primary key fails the INSERT and leaves its transaction open.\<close>

definition sql_record_checkpoint ::
  "sql_env \<Rightarrow> timestamp \<Rightarrow> step_checkpoint \<Rightarrow> int \<Rightarrow> ident option \<Rightarrow> sql_conn
     \<Rightarrow> (exn + step_checkpoint) \<times> sql_conn" where
  "sql_record_checkpoint env now cp v owner c =
     attempt_op c (split_checkpoint (sq_env env) cp) (\<lambda>(stored, ps).
       if run_matches now (sc_run_id stored) v owner c
          \<and> checkpoint_key stored \<in> checkpoint_key ` set (tb_checkpoints (sees c))
       then (Inl IntegrityError, execute id c)
       else and_then (guarded_insert env now (sc_run_id stored) v owner (add_checkpoint stored) c)
         (\<lambda>c1. (checkpoint_to_record stored (Some (cp_output cp)),
                commit (sql_set_payloads (sc_run_id stored) ps c1))))"

definition sql_get_steps :: "ident \<Rightarrow> sql_conn \<Rightarrow> step_record list" where
  "sql_get_steps rid c = filter (\<lambda>x. step_run_id x = rid) (tb_steps (sees c))"

text \<open>Reading a usage cell runs the validators of \<open>ModelUsage\<close> again.\<close>

definition read_usage :: "model_usage option \<Rightarrow> exn + model_usage option" where
  "read_usage cell =
     (case cell of None \<Rightarrow> Inr None | Some u \<Rightarrow> bindE (validate_usage u) (\<lambda>x. Inr (Some x)))"

definition sql_read_attempt :: "sql_env \<Rightarrow> sql_conn \<Rightarrow> ident \<Rightarrow> stored_attempt \<Rightarrow> exn + step_attempt" where
  "sql_read_attempt env c rid row =
     bindE (read_usage (sa_usage row)) (\<lambda>usage.
     bindE (sql_read_payload env c rid (attempt_output_field (sa_attempt_id row))) (\<lambda>out.
     bindE (sql_read_payload env c rid (attempt_error_field (sa_attempt_id row))) (\<lambda>err.
       Inr (attempt_to_record (row\<lparr>sa_usage := usage\<rparr>) out err))))"

definition sql_get_attempts :: "sql_env \<Rightarrow> ident \<Rightarrow> sql_conn \<Rightarrow> exn + step_attempt list" where
  "sql_get_attempts env rid c =
     mapE (sql_read_attempt env c rid) (filter (\<lambda>x. sa_run_id x = rid) (tb_attempts (sees c)))"

definition sql_get_checkpoints :: "sql_env \<Rightarrow> ident \<Rightarrow> sql_conn \<Rightarrow> exn + step_checkpoint list" where
  "sql_get_checkpoints env rid c =
     mapE (\<lambda>x. bindE (sql_read_payload env c rid (checkpoint_output_field (sc_step_id x))) (\<lambda>out.
             checkpoint_to_record x out))
       (filter (\<lambda>x. sc_run_id x = rid) (tb_checkpoints (sees c)))"

text \<open>The guard is a SELECT, the INSERT a statement of its own.\<close>

definition sql_record_policy_decision ::
  "sql_env \<Rightarrow> timestamp \<Rightarrow> policy_decision_record \<Rightarrow> int \<Rightarrow> ident option
     \<Rightarrow> (sql_tables \<Rightarrow> sql_tables) \<Rightarrow> sql_conn \<Rightarrow> (exn + policy_decision_record) \<times> sql_conn" where
  "sql_record_policy_decision env now d v owner others c =
     (case fetch_run c (pdr_run_id d) of
        None \<Rightarrow> (Inl RunNotFoundError, c)
      | Some row \<Rightarrow>
     attempt_op c (run_from_row env row) (\<lambda>stored.
       if sr_version stored \<noteq> v then (Inl StaleRunVersionError, c)
       else if (\<exists>o' \<in> set_option owner. check_lease now stored o' \<noteq> Inr ())
       then (Inl (lease_conflict env (pdr_run_id d) c), c)
       else (Inr d, commit (execute (add_policy d) (interleave others c)))))"

definition sql_get_policy_decisions :: "ident \<Rightarrow> sql_conn \<Rightarrow> policy_decision_record list" where
  "sql_get_policy_decisions rid c = filter (\<lambda>d. pdr_run_id d = rid) (tb_policy (sees c))"

section \<open>Commands\<close>

text \<open>The operations on the commands of the contract, with nobody else writing meanwhile.\<close>

fun sql_exec :: "sql_env \<Rightarrow> store_cmd \<Rightarrow> sql_conn \<Rightarrow> exn option \<times> sql_conn" where
  "sql_exec env (Acquire now rid owner ttl v) c =
     outcome_of (sql_acquire_lease env now rid owner ttl v id c)"
| "sql_exec env (Release rid owner v) c = outcome_of (sql_release_lease rid owner v c)"
| "sql_exec env (Create run) c = outcome_of (sql_create_run env run id c)"
| "sql_exec env (Transition now utc rid v args) c =
     outcome_of (sql_transition_run env now utc rid v args id c)"
| "sql_exec env (Record_Step now st v ow) c = outcome_of (sql_record_step env now st v ow c)"
| "sql_exec env (Record_Attempt now a v ow) c = outcome_of (sql_record_attempt env now a v ow c)"
| "sql_exec env (Reserve now st a m1 m2 v owner) c =
     outcome_of (sql_reserve_model_attempt now st a m1 m2 v owner c)"
| "sql_exec env (Record_Checkpoint now cp v ow) c = outcome_of (sql_record_checkpoint env now cp v ow c)"
| "sql_exec env (Record_Policy now d v ow) c =
     outcome_of (sql_record_policy_decision env now d v ow id c)"

fun sql_execs :: "sql_env \<Rightarrow> store_cmd list \<Rightarrow> sql_conn \<Rightarrow> sql_conn" where
  "sql_execs env [] c = c"
| "sql_execs env (x # xs) c = sql_execs env xs (snd (sql_exec env x c))"

end
