(* ===== verification/Sqlite_Laws.thy ===== *)
theory Sqlite_Laws
  imports Sqlite_Store "HOL-Library.Multiset"
begin

text \<open>
  The SQLite Run Store against the in-memory one: a simulation relation between a
  connection and the reference store that every command keeps, and what the readers return
  on related states.
\<close>

section \<open>Connections\<close>

lemma sees_simps [simp]:
  "sees (open_conn t) = t" "sees (execute f c) = f (sees c)" "sees (commit c) = sees c"
  "sees (rollback c) = cn_committed c" "cn_pending (open_conn t) = None"
  "cn_pending (commit c) = None" "cn_pending (rollback c) = None" "cn_committed (commit c) = sees c"
  "cn_committed (rollback c) = cn_committed c" "cn_committed (execute f c) = cn_committed c"
  "cn_committed (open_conn t) = t"
  by (simp_all add: sees_def open_conn_def execute_def commit_def rollback_def)

lemma sees_idle [simp]: "cn_pending c = None \<Longrightarrow> sees c = cn_committed c"
  by (simp add: sees_def)

lemma rollback_idle [simp]: "cn_pending c = None \<Longrightarrow> rollback c = c"
  by (simp add: rollback_def)

lemma rollback_execute [simp]: "rollback (execute f c) = rollback c"
  by (simp add: rollback_def execute_def)

lemma interleave_id [simp]: "interleave id c = c"
  by (simp add: interleave_def)

lemma conn_eq: "cn_pending c = None \<Longrightarrow> c = open_conn (cn_committed c)"
  by (cases c) (simp add: open_conn_def)

lemma put_simps [simp]:
  "tb_runs (put_run rid row t) = (tb_runs t)(rid \<mapsto> row)"
  "tb_payloads (put_run rid row t) = tb_payloads t" "tb_steps (put_run rid row t) = tb_steps t"
  "tb_attempts (put_run rid row t) = tb_attempts t" "tb_checkpoints (put_run rid row t) = tb_checkpoints t"
  "tb_policy (put_run rid row t) = tb_policy t"
  "tb_runs (put_payload r f b t) = tb_runs t"
  "tb_payloads (put_payload r f b t) = (tb_payloads t)((r, f) \<mapsto> b)"
  "tb_steps (put_payload r f b t) = tb_steps t" "tb_attempts (put_payload r f b t) = tb_attempts t"
  "tb_checkpoints (put_payload r f b t) = tb_checkpoints t" "tb_policy (put_payload r f b t) = tb_policy t"
  by (simp_all add: put_run_def put_payload_def)

lemma set_payloads_simps [simp]:
  "tb_runs (sees (sql_set_payloads r ps c)) = tb_runs (sees c)"
  "tb_steps (sees (sql_set_payloads r ps c)) = tb_steps (sees c)"
  "tb_attempts (sees (sql_set_payloads r ps c)) = tb_attempts (sees c)"
  "tb_checkpoints (sees (sql_set_payloads r ps c)) = tb_checkpoints (sees c)"
  "tb_policy (sees (sql_set_payloads r ps c)) = tb_policy (sees c)"
  "tb_payloads (sees (sql_set_payloads r ps c)) = write_payloads r ps (tb_payloads (sees c))"
  "cn_committed (sql_set_payloads r ps c) = cn_committed c"
  by (induction r ps c rule: sql_set_payloads.induct) (simp_all add: sql_set_payload_def)

section \<open>Replacing rows\<close>

lemma mset_upsert:
  "distinct (map key ys) \<Longrightarrow>
     mset (upsert key x ys) = mset (filter (\<lambda>y. key y \<noteq> key x) ys) + {#x#}"
proof (induction ys)
  case (Cons y ys)
  show ?case
  proof (cases "key y = key x")
    case True
    then have "filter (\<lambda>z. key z \<noteq> key x) ys = ys"
      using Cons.prems by (auto intro!: filter_True) (metis image_eqI)
    with True show ?thesis by simp
  qed (use Cons in simp)
qed simp

lemma replace_row_distinct:
  "distinct (map key xs) \<Longrightarrow> distinct (map key (replace_row key x xs))"
  by (auto simp: replace_row_def distinct_map intro: inj_on_subset)

lemma set_replace_row: "set (replace_row key x xs) = insert x {y \<in> set xs. key y \<noteq> key x}"
  by (auto simp: replace_row_def)

text \<open>The rows of one Run after a replacement, up to order, are those of the upsert.\<close>

definition rows_agree :: "('a \<Rightarrow> ident) \<Rightarrow> ('a \<Rightarrow> ident) \<Rightarrow> 'a list \<Rightarrow> (ident \<Rightarrow> 'a list option) \<Rightarrow> bool" where
  "rows_agree run key rows d \<longleftrightarrow> distinct (map (\<lambda>x. (run x, key x)) rows)
     \<and> (\<forall>rid. distinct (map key (entries d rid))
          \<and> mset (entries d rid) = mset (filter (\<lambda>x. run x = rid) rows))"

lemma entries_upd_if: "entries (d(k \<mapsto> xs)) r = (if r = k then xs else entries d r)"
  by (simp add: entries_def)

lemma rows_agree_upsert:
  assumes "rows_agree run key rows d" and "run x = r"
  shows "rows_agree run key (replace_row (\<lambda>x. (run x, key x)) x rows)
     (d(r \<mapsto> upsert key x (entries d r)))"
proof -
  have d: "distinct (map key (entries d rid))"
    and m: "mset (entries d rid) = mset (filter (\<lambda>x. run x = rid) rows)" for rid
    using assms(1) by (simp_all add: rows_agree_def)
  have "mset (filter (\<lambda>y. key y \<noteq> key x) (entries d r)) + {#x#}
      = mset (filter (\<lambda>y. run y = r) (replace_row (\<lambda>x. (run x, key x)) x rows))"
    using assms(2) by (auto simp: m replace_row_def mset_filter filter_filter_mset conj_commute
        intro!: arg_cong [where f = "\<lambda>p. filter_mset p (mset rows)"])
  moreover have "mset (filter (\<lambda>y. run y = rid) (replace_row (\<lambda>x. (run x, key x)) x rows))
      = mset (filter (\<lambda>y. run y = rid) rows)" if "rid \<noteq> r" for rid
  proof -
    have "filter (\<lambda>y. run y = rid) (replace_row (\<lambda>x. (run x, key x)) x rows)
      = filter (\<lambda>y. run y = rid) rows"
      using that assms(2) by (auto simp: replace_row_def intro!: filter_cong)
    then show ?thesis by (rule arg_cong)
  qed
  ultimately show ?thesis
    using assms(1) d m unfolding rows_agree_def
    by (auto simp: entries_upd_if mset_upsert distinct_upsert
        intro: replace_row_distinct [where key = "\<lambda>x. (run x, key x)"])
qed

lemma rows_agree_set: "rows_agree run key rows d \<Longrightarrow> set (entries d r) = {y \<in> set rows. run y = r}"
  by (metis rows_agree_def set_mset_mset set_filter)

lemma rows_agree_snoc:
  assumes "rows_agree run key rows d" and "run x = r" and "(run x, key x) \<notin> (\<lambda>x. (run x, key x)) ` set rows"
  shows "rows_agree run key (rows @ [x]) (d(r \<mapsto> entries d r @ [x]))"
proof -
  have "key x \<notin> key ` set (entries d r)"
  proof
    assume "key x \<in> key ` set (entries d r)"
    then obtain y where "y \<in> set rows" "run y = r" "key y = key x"
      using rows_agree_set [OF assms(1), of r] by auto
    then have "(run x, key x) \<in> (\<lambda>x. (run x, key x)) ` set rows"
      using assms(2) by (intro image_eqI [of _ _ y]) simp_all
    with assms(3) show False by blast
  qed
  then show ?thesis
    using assms unfolding rows_agree_def by (auto simp: entries_upd_if)
qed

lemma rows_agree_entries: "rows_agree run key rows d \<Longrightarrow> rows_agree run key rows (d(r \<mapsto> entries d r))"
  by (simp add: rows_agree_def entries_upd_if)

lemma rows_agree_count:
  assumes "rows_agree run key rows d"
  shows "length (filter p (entries d r)) = length (filter p (filter (\<lambda>x. run x = r) rows))"
proof (rule mset_eq_length)
  have "mset (entries d r) = mset (filter (\<lambda>x. run x = r) rows)" using assms by (simp add: rows_agree_def)
  then show "mset (filter p (entries d r)) = mset (filter p (filter (\<lambda>x. run x = r) rows))"
    by (simp only: mset_filter)
qed

section \<open>The simulation relation\<close>

definition lease_pair_ok :: "'a option \<Rightarrow> 'b option \<Rightarrow> bool" where
  "lease_pair_ok owner expires \<longleftrightarrow> (owner = None \<longleftrightarrow> expires = None)"

text \<open>
  A snapshot without instructions that its own validator accepts unchanged, as JSON dumped by
  Pydantic is; a row of the \<open>runs\<close> table stands for the record it was written from.
\<close>

definition metadata_readable :: "sql_env \<Rightarrow> definition_snapshot option \<Rightarrow> bool" where
  "metadata_readable env sn \<longleftrightarrow>
     (\<forall>d. sn = Some d \<longrightarrow> snap_instructions d = [] \<and> sq_model_validate env d = Inr d)"

definition stands_for :: "sql_env \<Rightarrow> run_row \<Rightarrow> stored_run \<Rightarrow> bool" where
  "stands_for env row sr \<longleftrightarrow> row = run_row_of sr \<and> metadata_readable env (sr_snapshot sr)
     \<and> lease_pair_ok (sr_lease_owner sr) (sr_lease_expires_at sr)"

lemma no_instructions: "snap_instructions d = [] \<Longrightarrow> d\<lparr>snap_instructions := []\<rparr> = d"
  by (cases d) simp

lemma stands_for_reads: "stands_for env row sr \<Longrightarrow> run_from_row env row = Inr sr"
  by (cases "sr_snapshot sr")
    (auto simp: stands_for_def run_from_row_def run_row_of_def read_snapshot_cell_def
      snapshot_metadata_json_def metadata_readable_def no_instructions)

definition runs_agree :: "sql_env \<Rightarrow> sql_tables \<Rightarrow> run_store \<Rightarrow> bool" where
  "runs_agree env t s \<longleftrightarrow> (\<forall>rid. rel_option (stands_for env) (tb_runs t rid) (runs s rid))"

definition agrees :: "sql_env \<Rightarrow> sql_conn \<Rightarrow> run_store \<Rightarrow> bool" where
  "agrees env c s \<longleftrightarrow> cn_pending c = None
     \<and> runs_agree env (cn_committed c) s
     \<and> tb_payloads (cn_committed c) = payloads s
     \<and> rows_agree step_run_id step_id (tb_steps (cn_committed c)) (steps s)
     \<and> rows_agree sa_run_id sa_attempt_id (tb_attempts (cn_committed c)) (attempts s)
     \<and> (\<forall>rid. entries (checkpoints s) rid = filter (\<lambda>x. sc_run_id x = rid) (tb_checkpoints (cn_committed c)))
     \<and> (\<forall>rid. entries (policy_decisions s) rid = filter (\<lambda>d. pdr_run_id d = rid) (tb_policy (cn_committed c)))"

lemma agrees_empty: "agrees env (open_conn empty_tables) empty_store"
  by (simp add: agrees_def runs_agree_def rows_agree_def empty_tables_def empty_store_def entries_def)

lemma stands_for_cols:
  "stands_for env row sr \<Longrightarrow> sr_run_id sr = rw_run_id row \<and> sr_version sr = rw_version row
     \<and> sr_status sr = rw_status row \<and> sr_lease_owner sr = rw_lease_owner row
     \<and> sr_lease_expires_at sr = rw_lease_expires_at row
     \<and> lease_pair_ok (rw_lease_owner row) (rw_lease_expires_at row)"
  by (simp add: stands_for_def run_row_of_def)

text \<open>What a related pair of states says about one Run.\<close>

lemma agrees_run:
  assumes "agrees env c s"
  obtains (absent) "fetch_run c rid = None" "runs s rid = None"
    | (present) row sr where "fetch_run c rid = Some row" "runs s rid = Some sr" "stands_for env row sr"
proof -
  have r: "rel_option (stands_for env) (fetch_run c rid) (runs s rid)"
    using assms by (auto simp: agrees_def runs_agree_def fetch_run_def)
  show ?thesis
  proof (cases "runs s rid")
    case None
    with r show ?thesis using absent by (cases "fetch_run c rid") auto
  next
    case (Some sr)
    with r obtain row where "fetch_run c rid = Some row" "stands_for env row sr"
      by (cases "fetch_run c rid") auto
    with Some show ?thesis using present by blast
  qed
qed


lemma key_eqs:
  "step_key = (\<lambda>x. (step_run_id x, step_id x))" "attempt_key = (\<lambda>a. (sa_run_id a, sa_attempt_id a))"
  by (simp_all add: fun_eq_iff step_key_def attempt_key_def)

text \<open>Two calls that both return or both raise, and leave related states.\<close>

definition similar :: "sql_env \<Rightarrow> (exn + 'a) \<times> sql_conn \<Rightarrow> (exn + 'b) \<times> run_store \<Rightarrow> bool" where
  "similar env p q \<longleftrightarrow> isl (fst p) = isl (fst q) \<and> agrees env (snd p) (snd q)"

lemma similar_raise: "agrees env c s \<Longrightarrow> similar env (Inl e, c) (Inl e', s)"
  by (simp add: similar_def)

lemma similar_return: "agrees env c s \<Longrightarrow> similar env (Inr v, c) (Inr v', s)"
  by (simp add: similar_def)

lemma agrees_idle: "agrees env c s \<Longrightarrow> cn_pending c = None"
  by (simp add: agrees_def)

section \<open>Leases\<close>

lemma stands_for_lease:
  "stands_for env row sr \<Longrightarrow> lease_pair_ok o' t \<Longrightarrow>
     stands_for env (row\<lparr>rw_lease_owner := o', rw_lease_expires_at := t\<rparr>)
       (sr\<lparr>sr_lease_owner := o', sr_lease_expires_at := t\<rparr>)"
  by (simp add: stands_for_def run_row_of_def)

lemma agrees_put_run:
  assumes "agrees env c s" and "stands_for env row sr"
  shows "agrees env (commit (execute (put_run rid row) c)) (s\<lparr>runs := (runs s)(rid \<mapsto> sr)\<rparr>)"
  using assms by (auto simp: agrees_def runs_agree_def)

lemma acquire_agrees:
  assumes a: "agrees env c s"
  shows "similar env (sql_acquire_lease env now rid owner ttl v id c) (acquire_lease now rid owner ttl v s)"
  using a
proof (cases rule: agrees_run [where rid = rid])
  case absent
  then show ?thesis
    using a by (simp add: sql_acquire_lease_def acquire_lease_def current_at_def similar_raise)
next
  case (present row sr)
  note cols = stands_for_cols [OF present(3)]
  have idle: "rollback c = c" using a by (simp add: agrees_idle)
  have cur: "current_run env c rid = Inr sr"
    using present by (simp add: current_run_def stands_for_reads)
  have ok: "acquirable now owner v row \<longleftrightarrow> sr_version sr = v
      \<and> \<not> ((\<exists>o' \<in> set_option (sr_lease_owner sr). o' \<noteq> owner)
          \<and> (\<exists>t \<in> set_option (sr_lease_expires_at sr). now < t))"
    using cols by (cases "rw_lease_owner row"; cases "rw_lease_expires_at row")
      (auto simp: acquirable_def lease_pair_ok_def)
  show ?thesis
  proof (cases "acquirable now owner v row")
    case True
    have "stands_for env (row\<lparr>rw_lease_owner := Some owner, rw_lease_expires_at := Some (now + ttl)\<rparr>)
        (sr\<lparr>sr_lease_owner := Some owner, sr_lease_expires_at := Some (now + ttl)\<rparr>)"
      by (rule stands_for_lease [OF present(3)]) (simp add: lease_pair_ok_def)
    from agrees_put_run [OF a this, of rid] True show ?thesis
      using present ok
      by (simp add: sql_acquire_lease_def acquire_lease_def current_at_def Let_def similar_def)
  next
    case False
    with present ok a idle cur show ?thesis
      by (auto simp: sql_acquire_lease_def acquire_lease_def current_at_def Let_def similar_def)
  qed
qed

lemma release_agrees:
  assumes a: "agrees env c s"
  shows "similar env (sql_release_lease rid owner v c) (release_lease rid owner v s)"
  using a
proof (cases rule: agrees_run [where rid = rid])
  case absent
  then show ?thesis
    using a by (simp add: sql_release_lease_def release_lease_def current_at_def similar_raise agrees_idle)
next
  case (present row sr)
  have "stands_for env (row\<lparr>rw_lease_owner := None, rw_lease_expires_at := None\<rparr>)
      (sr\<lparr>sr_lease_owner := None, sr_lease_expires_at := None\<rparr>)"
    by (rule stands_for_lease [OF present(3)]) (simp add: lease_pair_ok_def)
  from agrees_put_run [OF a this, of rid] show ?thesis
    using present stands_for_cols [OF present(3)] a
    by (auto simp: sql_release_lease_def release_lease_def current_at_def similar_def Let_def agrees_idle)
qed

lemma lease_readers_agree:
  assumes a: "agrees env c s"
  shows "sql_get_lease rid c = get_lease rid s"
    and "sql_assert_lease now rid v owner c = assert_lease now rid v owner s"
    and "sql_prepare_model_dispatch now rid v owner g c = prepare_model_dispatch now rid v owner g s"
proof -
  note defs = sql_get_lease_def get_lease_def sql_assert_lease_def assert_lease_def current_at_def
    sql_prepare_model_dispatch_def prepare_model_dispatch_def
  have lost: "check_lease now sr owner = (if row_lease_lost now owner row then Inl LeaseNotHeldError else Inr ())"
    if "stands_for env row sr" for row sr
    using stands_for_cols [OF that] by (simp add: check_lease_def row_lease_lost_def)
  show "sql_get_lease rid c = get_lease rid s"
    using a by (cases rule: agrees_run [where rid = rid]) (simp_all add: defs stands_for_cols)
  show "sql_assert_lease now rid v owner c = assert_lease now rid v owner s"
    using a by (cases rule: agrees_run [where rid = rid]) (simp_all add: defs stands_for_cols lost)
  show "sql_prepare_model_dispatch now rid v owner g c = prepare_model_dispatch now rid v owner g s"
    using a by (cases rule: agrees_run [where rid = rid]) (simp_all add: defs stands_for_cols lost)
qed

section \<open>The guards of the mutations\<close>

lemma lease_condition_iff:
  "stands_for env row sr \<Longrightarrow>
     lease_condition now owner row \<longleftrightarrow> (\<forall>o'. owner = Some o' \<longrightarrow> check_lease now sr o' = Inr ())"
  by (cases owner) (auto simp: lease_condition_def check_lease_ok dest!: stands_for_cols split: option.splits)

lemma run_matches_guarded:
  assumes a: "agrees env c s"
  shows "run_matches now rid v owner c \<longleftrightarrow> (\<exists>cur. guarded now s rid v owner = Inr cur)"
  using a by (cases rule: agrees_run [where rid = rid])
    (auto simp: run_matches_def transition_hit_def guarded_ok lease_condition_iff dest: stands_for_cols)

lemma refused_raises:
  assumes a: "agrees env c s" and "\<not> run_matches now rid v owner c"
  shows "\<exists>e. mutation_refused env rid v owner c = Inl e"
  using a assms(2) by (cases rule: agrees_run [where rid = rid])
    (auto simp: run_matches_def transition_hit_def mutation_refused_def lease_condition_def split: option.splits)

text \<open>A guarded insertion in front of a continuation that commits.\<close>

lemma guarded_insert_agrees:
  assumes a: "agrees env c s"
    and go: "\<And>cur. guarded now s rid v owner = Inr cur \<Longrightarrow> similar env (f (execute ins c)) (g cur)"
  shows "similar env (and_then (guarded_insert env now rid v owner ins c) f)
     (attempt_op s (guarded now s rid v owner) g)"
proof (cases "run_matches now rid v owner c")
  case True
  then obtain cur where "guarded now s rid v owner = Inr cur" using run_matches_guarded [OF a] by blast
  with go True show ?thesis by (simp add: guarded_insert_def and_then_def)
next
  case False
  then obtain e where "guarded now s rid v owner = Inl e"
    using run_matches_guarded [OF a] by (cases "guarded now s rid v owner") auto
  with refused_raises [OF a False] False a show ?thesis
    by (auto simp: guarded_insert_def and_then_def agrees_idle similar_def)
qed

lemma record_step_agrees:
  assumes a: "agrees env c s"
  shows "similar env (sql_record_step env now st v owner c) (record_step now st v owner s)"
  unfolding sql_record_step_def record_step_def
proof (rule guarded_insert_agrees [OF a])
  show "similar env (Inr st, commit (execute (put_step st) c))
      (Inr st, s\<lparr>steps := (steps s)(step_run_id st \<mapsto> upsert step_id st (entries (steps s) (step_run_id st)))\<rparr>)"
    using a rows_agree_upsert [of step_run_id step_id _ _ st, OF _ refl]
    by (simp add: similar_def agrees_def runs_agree_def put_step_def key_eqs)
qed

lemma record_policy_agrees:
  assumes a: "agrees env c s"
  shows "similar env (sql_record_policy_decision env now d v owner id c) (record_policy_decision now d v owner s)"
  using a
proof (cases rule: agrees_run [where rid = "pdr_run_id d"])
  case absent
  then show ?thesis
    using a by (simp add: sql_record_policy_decision_def record_policy_decision_def guarded_def
        current_at_def similar_raise)
next
  case (present row sr)
  have "run_from_row env row = Inr sr" using present by (simp add: stands_for_reads)
  moreover have "agrees env (commit (execute (add_policy d) c))
      (s\<lparr>policy_decisions := (policy_decisions s)(pdr_run_id d \<mapsto> entries (policy_decisions s) (pdr_run_id d) @ [d])\<rparr>)"
    using a by (auto simp: agrees_def runs_agree_def add_policy_def entries_upd_if)
  ultimately show ?thesis
    using present a
    by (cases owner; cases "check_lease now sr (the owner)")
      (auto simp: sql_record_policy_decision_def record_policy_decision_def guarded_def
        current_at_def similar_def)
qed


lemma record_attempt_agrees:
  assumes a: "agrees env c s"
  shows "similar env (sql_record_attempt env now x v owner c) (record_attempt (sq_env env) now x v owner s)"
proof (cases "split_attempt (sq_env env) x")
  case (Inl e)
  then show ?thesis
    using a by (cases "guarded now s (attempt_run_id x) v owner")
      (simp_all add: sql_record_attempt_def record_attempt_def similar_raise)
next
  case (Inr sp)
  obtain stored ps where sp: "sp = (stored, ps)" by (cases sp)
  have run: "sa_run_id stored = attempt_run_id x"
    using Inr by (auto simp: sp split_attempt_def bindE_eq_Inr attempt_metadata_def)
  have "similar env (and_then (guarded_insert env now (attempt_run_id x) v owner (put_attempt stored) c)
       (\<lambda>c1. (Inr (attempt_to_record stored (attempt_output x) (attempt_error x)),
          commit (sql_set_payloads (attempt_run_id x) ps c1))))
     (attempt_op s (guarded now s (attempt_run_id x) v owner) (\<lambda>_.
       (Inr (attempt_to_record stored (attempt_output x) (attempt_error x)),
        s\<lparr>attempts := (attempts s)(attempt_run_id x \<mapsto>
             upsert sa_attempt_id stored (entries (attempts s) (attempt_run_id x))),
          payloads := write_payloads (attempt_run_id x) ps (payloads s)\<rparr>)))"
  proof (rule guarded_insert_agrees [OF a])
    show "similar env
       (Inr (attempt_to_record stored (attempt_output x) (attempt_error x)),
          commit (sql_set_payloads (attempt_run_id x) ps (execute (put_attempt stored) c)))
       (Inr (attempt_to_record stored (attempt_output x) (attempt_error x)),
        s\<lparr>attempts := (attempts s)(attempt_run_id x \<mapsto>
             upsert sa_attempt_id stored (entries (attempts s) (attempt_run_id x))),
          payloads := write_payloads (attempt_run_id x) ps (payloads s)\<rparr>)"
      using a rows_agree_upsert [of sa_run_id sa_attempt_id _ _ stored, OF _ run]
      by (simp add: similar_def agrees_def runs_agree_def put_attempt_def key_eqs)
  qed
  with Inr show ?thesis by (simp add: sql_record_attempt_def record_attempt_def sp run)
qed

text \<open>The in-memory store appends a second checkpoint of a Step where SQLite raises.\<close>

lemma record_checkpoint_agrees:
  assumes a: "agrees env c s"
    and fresh: "cp_step_id x \<notin> sc_step_id ` set (entries (checkpoints s) (cp_run_id x))"
  shows "similar env (sql_record_checkpoint env now x v owner c) (record_checkpoint (sq_env env) now x v owner s)"
proof (cases "split_checkpoint (sq_env env) x")
  case (Inl e)
  then show ?thesis
    using a by (cases "guarded now s (cp_run_id x) v owner")
      (simp_all add: sql_record_checkpoint_def record_checkpoint_def similar_raise)
next
  case (Inr sp)
  obtain stored ps where sp: "sp = (stored, ps)" by (cases sp)
  have st: "sc_run_id stored = cp_run_id x" "sc_step_id stored = cp_step_id x"
    using Inr by (auto simp: sp split_checkpoint_def bindE_eq_Inr checkpoint_metadata_def)
  have new: "checkpoint_key stored \<notin> checkpoint_key ` set (tb_checkpoints (sees c))"
    using a fresh by (auto simp: checkpoint_key_def st agrees_def)
  have "similar env (and_then (guarded_insert env now (cp_run_id x) v owner (add_checkpoint stored) c)
       (\<lambda>c1. (checkpoint_to_record stored (Some (cp_output x)),
              commit (sql_set_payloads (cp_run_id x) ps c1))))
     (attempt_op s (guarded now s (cp_run_id x) v owner) (\<lambda>_.
       (checkpoint_to_record stored (Some (cp_output x)),
        s\<lparr>checkpoints := (checkpoints s)(cp_run_id x \<mapsto> entries (checkpoints s) (cp_run_id x) @ [stored]),
          payloads := write_payloads (cp_run_id x) ps (payloads s)\<rparr>)))"
  proof (rule guarded_insert_agrees [OF a])
    show "similar env
       (checkpoint_to_record stored (Some (cp_output x)),
        commit (sql_set_payloads (cp_run_id x) ps (execute (add_checkpoint stored) c)))
       (checkpoint_to_record stored (Some (cp_output x)),
        s\<lparr>checkpoints := (checkpoints s)(cp_run_id x \<mapsto> entries (checkpoints s) (cp_run_id x) @ [stored]),
          payloads := write_payloads (cp_run_id x) ps (payloads s)\<rparr>)"
      using a by (auto simp: similar_def agrees_def runs_agree_def add_checkpoint_def entries_upd_if st)
  qed
  with Inr new show ?thesis by (simp add: sql_record_checkpoint_def record_checkpoint_def sp st)
qed

text \<open>A reservation as the Runner makes it: nothing is known of the attempt yet.\<close>

definition blank_reservation :: "step_attempt \<Rightarrow> bool" where
  "blank_reservation a \<longleftrightarrow> attempt_output a = None \<and> attempt_error a = None
     \<and> attempt_classification a = None \<and> attempt_error_code a = None \<and> attempt_usage a = None"

lemma blank_reservation_split:
  "blank_reservation a \<Longrightarrow> split_attempt env a = Inr (reserved_row a, [])"
  by (simp add: blank_reservation_def split_attempt_def encode_optional_def append_entries_def
      attempt_metadata_def reserved_row_def)

lemma reserve_agrees:
  assumes a: "agrees env c s" and bare: "blank_reservation x"
    and fresh: "attempt_id x \<notin> sa_attempt_id ` set (entries (attempts s) (attempt_run_id x))"
  shows "similar env (sql_reserve_model_attempt now st x m1 m2 v owner c)
     (reserve_model_attempt (sq_env env) now st x m1 m2 v owner s)"
proof (cases "attempt_model_purpose x = None \<or> step_type st \<noteq> STEP_MODEL
    \<or> step_run_id st \<noteq> attempt_run_id x \<or> step_id st \<noteq> attempt_step_id x")
  case True
  then show ?thesis
    using a by (auto simp: sql_reserve_model_attempt_def reserve_model_attempt_def similar_def split: option.split)
next
  case False
  then obtain p where p: "attempt_model_purpose x = Some p" "step_type st = STEP_MODEL"
    "step_run_id st = attempt_run_id x" "step_id st = attempt_step_id x" by auto
  let ?r = "attempt_run_id x"
  let ?own = "filter (\<lambda>y. sa_run_id y = ?r) (tb_attempts (sees c))"
  let ?as = "entries (attempts s) ?r"
  have rows: "rows_agree sa_run_id sa_attempt_id (tb_attempts (sees c)) (attempts s)"
    and srows: "rows_agree step_run_id step_id (tb_steps (sees c)) (steps s)"
    using a by (simp_all add: agrees_def)
  have counts: "length (model_attempts ?as) = length (model_attempts ?own)"
    "length (purpose_attempts p ?as) = length (purpose_attempts p ?own)"
    using rows_agree_count [OF rows, of _ ?r] by (simp_all add: model_attempts_def purpose_attempts_def)
  have new: "attempt_key (reserved_row x) \<notin> attempt_key ` set (tb_attempts (sees c))"
    using rows_agree_set [OF rows, of ?r] fresh by (auto simp: attempt_key_def reserved_row_def)
  have idle: "cn_pending c = None" using a by (rule agrees_idle)
  have full: "agrees env c (s\<lparr>attempts := (attempts s)(?r \<mapsto> ?as)\<rparr>)"
    using a by (auto simp: agrees_def runs_agree_def intro: rows_agree_entries)
  have run: "sa_run_id (reserved_row x) = ?r" by (simp add: reserved_row_def)
  have "rows_agree sa_run_id sa_attempt_id (tb_attempts (sees c) @ [reserved_row x])
      ((attempts s)(?r \<mapsto> ?as @ [reserved_row x]))"
    by (rule rows_agree_snoc [OF rows run]) (use new in \<open>simp add: key_eqs\<close>)
  moreover have "rows_agree step_run_id step_id (replace_row step_key st (tb_steps (sees c)))
      ((steps s)(?r \<mapsto> upsert step_id st (entries (steps s) ?r)))"
    using rows_agree_upsert [OF srows p(3)] by (simp add: key_eqs)
  ultimately have fin: "agrees env
      (commit (execute (\<lambda>t. t\<lparr>tb_attempts := tb_attempts t @ [reserved_row x]\<rparr>) (execute (put_step st) (execute id c))))
      (s\<lparr>steps := (steps s)(?r \<mapsto> upsert step_id st (entries (steps s) ?r)),
         attempts := (attempts s)(?r \<mapsto> ?as @ [reserved_row x])\<rparr>)"
    using a by (simp add: agrees_def runs_agree_def put_step_def)
  note defs = sql_reserve_model_attempt_def reserve_model_attempt_def similar_def Let_def p idle
  from a show ?thesis
  proof (cases rule: agrees_run [where rid = ?r])
    case absent
    then show ?thesis using a by (simp add: defs guarded_def current_at_def fetch_run_def)
  next
    case (present row sr)
    note cols = stands_for_cols [OF present(3)]
    have lost: "row_lease_lost now owner row \<longleftrightarrow> check_lease now sr owner = Inl LeaseNotHeldError"
      using cols by (simp add: row_lease_lost_def check_lease_def)
    have fetch: "fetch_run (execute id c) ?r = Some row" using present(1) by (simp add: fetch_run_def idle)
    show ?thesis
    proof (cases "rw_version row = v \<and> \<not> row_lease_lost now owner row")
      case False
      then have "\<exists>e. guarded now s ?r v (Some owner) = Inl e"
        using present cols lost by (auto simp: guarded_def current_at_def)
      with False a show ?thesis by (auto simp: defs fetch)
    next
      case True
      then have g: "guarded now s ?r v (Some owner) = Inr sr"
        using present cols lost check_lease_error [of now sr owner]
        by (cases "check_lease now sr owner") (auto simp: guarded_def current_at_def)
      show ?thesis
        using True full fin new
        by (simp add: defs fetch g counts blank_reservation_split [OF bare] put_step_def idle)
    qed
  qed
qed


section \<open>Creation and transitions\<close>

definition snapshot_readable :: "sql_env \<Rightarrow> definition_snapshot option \<Rightarrow> bool" where
  "snapshot_readable env sn \<longleftrightarrow> metadata_readable env (snapshot_metadata sn)"

lemma create_agrees:
  assumes a: "agrees env c s" and "snapshot_readable env (run_snapshot run)"
    and "lease_pair_ok (run_lease_owner run) (run_lease_expires_at run)"
  shows "similar env (sql_create_run env run id c) (create_run (sq_env env) run s)"
proof (cases "split_run (sq_env env) run")
  case (Inl e)
  then show ?thesis using a by (simp add: sql_create_run_def create_run_def similar_raise)
next
  case (Inr sp)
  obtain stored ps where sp: "sp = (stored, ps)" by (cases sp)
  have stored: "stored = run_metadata run" "sr_run_id stored = run_id run"
    using Inr by (auto simp: sp split_run_def bindE_eq_Inr) (simp_all add: run_metadata_def)
  have "stands_for env (run_row_of stored) stored"
    using assms(2,3) by (simp add: stands_for_def stored run_metadata_def snapshot_readable_def)
  then have put: "agrees env
      (commit (sql_set_payloads (run_id run) ps (execute (put_run (run_id run) (run_row_of stored)) c)))
      (s\<lparr>runs := (runs s)(run_id run \<mapsto> stored), payloads := write_payloads (run_id run) ps (payloads s)\<rparr>)"
    using a by (simp add: agrees_def runs_agree_def)
  from a show ?thesis
    by (cases rule: agrees_run [where rid = "run_id run"])
      (simp_all add: sql_create_run_def create_run_def Inr sp stored(2) similar_def Let_def put a)
qed

lemma read_payload_agrees:
  "tb_payloads (sees c) = payloads s \<Longrightarrow> sql_read_payload env c rid f = read_payload (sq_env env) s rid f"
  by (simp add: sql_read_payload_def read_payload_def)

lemma load_run_agrees:
  "tb_payloads (sees c) = payloads s \<Longrightarrow> sql_load_run env c sr rid = load_run (sq_env env) s sr rid"
  by (simp add: sql_load_run_def load_run_def read_payload_agrees)

definition encoded_optional :: "store_env \<Rightarrow> pystr option \<Rightarrow> (string \<Rightarrow> payload_entries)" where
  "encoded_optional env t f =
     (case t of None \<Rightarrow> [] | Some x \<Rightarrow> (case env_encode env x of Inl _ \<Rightarrow> [] | Inr b \<Rightarrow> [(f, b)]))"

lemma write_optional_encodable:
  assumes "encodable (sq_env env) t"
  shows "sql_write_optional env rid f t c = (Inr (), sql_set_payloads rid (encoded_optional (sq_env env) t f) c)"
    and "write_optional (sq_env env) rid f t s =
      (Inr (), s\<lparr>payloads := write_payloads rid (encoded_optional (sq_env env) t f) (payloads s)\<rparr>)"
  using assms by (cases t; auto simp: encodable_def sql_write_optional_def write_optional_def encoded_optional_def)+

lemma transitioned_stands_for:
  assumes "stands_for env row sr" and "snapshot_readable env (to_snapshot args)"
  shows "stands_for env (updated_row (transitioned utc args sr) row) (transitioned utc args sr)"
  using assms by (auto simp: stands_for_def updated_row_def transitioned_def run_row_of_def snapshot_readable_def)

lemma transition_agrees:
  assumes a: "agrees env c s" and ok: "transition_args_ok (sq_env env) args"
    and snap: "snapshot_readable env (to_snapshot args)"
  shows "similar env (sql_transition_run env now utc rid v args id c)
     (transition_run (sq_env env) now utc rid v args s)"
  using a
proof (cases rule: agrees_run [where rid = rid])
  case absent
  then show ?thesis
    using a by (simp add: sql_transition_run_def transition_run_def guarded_def current_at_def similar_raise)
next
  case (present row sr)
  note cols = stands_for_cols [OF present(3)]
  have read: "run_from_row env row = Inr sr" using present(3) by (rule stands_for_reads)
  have idle: "rollback c = c" using a by (simp add: agrees_idle)
  let ?hit = "rw_version row = v \<and> lease_condition now (to_lease_owner args) row"
  have g: "?hit \<Longrightarrow> guarded now s rid v (to_lease_owner args) = Inr sr"
    and no: "\<not> ?hit \<Longrightarrow> \<exists>e. guarded now s rid v (to_lease_owner args) = Inl e"
  proof -
    have "?hit \<longleftrightarrow> guarded now s rid v (to_lease_owner args) = Inr sr"
      using present cols by (auto simp: guarded_ok lease_condition_iff)
    moreover have "guarded now s rid v (to_lease_owner args) = Inr cur \<Longrightarrow> cur = sr" for cur
      using present by (simp add: guarded_ok)
    ultimately show "?hit \<Longrightarrow> guarded now s rid v (to_lease_owner args) = Inr sr"
      and "\<not> ?hit \<Longrightarrow> \<exists>e. guarded now s rid v (to_lease_owner args) = Inl e"
      by (cases "guarded now s rid v (to_lease_owner args)"; auto)+
  qed
  show ?thesis
  proof (cases "?hit \<and> validate_transition (sr_status sr) (to_status args) = Inr ()")
    case False
    have "\<exists>e. sql_transition_run env now utc rid v args id c = (Inl e, c)"
      using False present(1) cols idle
      by (cases "to_status args \<in> set (ALLOWED_TRANSITIONS (sr_status sr))")
        (auto simp: sql_transition_run_def read transition_hit_def Let_def validate_transition_def)
    moreover have "\<exists>e. transition_run (sq_env env) now utc rid v args s = (Inl e, s)"
      using False g no by (cases "to_status args \<in> set (ALLOWED_TRANSITIONS (sr_status sr))"; cases ?hit)
        (auto simp: transition_run_def validate_transition_def)
    ultimately show ?thesis using a by (auto simp: similar_def)
  next
    case True
    have enc: "encodable (sq_env env) (to_output args)"
      "encodable (sq_env env) (map_option (env_dump_snapshot (sq_env env)) (to_snapshot args))"
      using ok by (simp_all add: transition_args_ok_def)
    let ?u = "transitioned utc args sr"
    have "stands_for env (updated_row ?u row) ?u" by (rule transitioned_stands_for [OF present(3) snap])
    moreover
    let ?c = "commit (sql_set_payloads rid (encoded_optional (sq_env env)
        (map_option (env_dump_snapshot (sq_env env)) (to_snapshot args)) FIELD_RUN_SNAPSHOT)
       (sql_set_payloads rid (encoded_optional (sq_env env) (to_output args) FIELD_RUN_OUTPUT)
         (execute (put_run rid (updated_row ?u row)) c)))"
    let ?s = "s\<lparr>runs := (runs s)(rid \<mapsto> ?u),
       payloads := write_payloads rid (encoded_optional (sq_env env)
           (map_option (env_dump_snapshot (sq_env env)) (to_snapshot args)) FIELD_RUN_SNAPSHOT)
         (write_payloads rid (encoded_optional (sq_env env) (to_output args) FIELD_RUN_OUTPUT) (payloads s))\<rparr>"
    have "sql_transition_run env now utc rid v args id c = (sql_load_run env ?c ?u rid, ?c)"
      using True present(1) cols
      by (simp add: sql_transition_run_def read transition_hit_def Let_def validate_transition_def
          write_optional_encodable [OF enc(1)] write_optional_encodable [OF enc(2)] and_then_def)
    moreover have "transition_run (sq_env env) now utc rid v args s = (load_run (sq_env env) ?s ?u rid, ?s)"
      using True g
      by (simp add: transition_run_def Let_def validate_transition_def
          write_optional_encodable [OF enc(1)] write_optional_encodable [OF enc(2)] and_then_def)
    moreover have "sql_load_run env ?c ?u rid = load_run (sq_env env) ?s ?u rid"
      using a by (intro load_run_agrees) (simp add: agrees_def)
    ultimately show ?thesis using a by (simp add: similar_def agrees_def runs_agree_def)
  qed
qed


section \<open>Histories\<close>

text \<open>
  What the two stores need in order to agree, checked on the reference store: snapshots the
  validator accepts, a lease with both columns or none, payloads of a transition that the
  codec encodes, bare reservations of new attempts, and one checkpoint per Step.
\<close>

fun portable :: "sql_env \<Rightarrow> run_store \<Rightarrow> store_cmd \<Rightarrow> bool" where
  "portable env s (Create run) \<longleftrightarrow> snapshot_readable env (run_snapshot run)
     \<and> lease_pair_ok (run_lease_owner run) (run_lease_expires_at run)"
| "portable env s (Transition now utc rid v args) \<longleftrightarrow>
     transition_args_ok (sq_env env) args \<and> snapshot_readable env (to_snapshot args)"
| "portable env s (Reserve now st a m1 m2 v owner) \<longleftrightarrow> blank_reservation a
     \<and> attempt_id a \<notin> sa_attempt_id ` set (entries (attempts s) (attempt_run_id a))"
| "portable env s (Record_Checkpoint now cp v ow) \<longleftrightarrow>
     cp_step_id cp \<notin> sc_step_id ` set (entries (checkpoints s) (cp_run_id cp))"
| "portable env s _ \<longleftrightarrow> True"

fun portable_all :: "sql_env \<Rightarrow> run_store \<Rightarrow> store_cmd list \<Rightarrow> bool" where
  "portable_all env s [] \<longleftrightarrow> True"
| "portable_all env s (x # xs) \<longleftrightarrow>
     portable env s x \<and> portable_all env (snd (exec_cmd (sq_env env) x s)) xs"

lemma similar_outcome:
  "similar env p q \<Longrightarrow> (fst (outcome_of p) = None \<longleftrightarrow> fst (outcome_of q) = None)
     \<and> agrees env (snd (outcome_of p)) (snd (outcome_of q))"
  by (cases "fst p"; cases "fst q") (auto simp: similar_def outcome_of_def)

lemma sql_exec_agrees:
  assumes "agrees env c s" and "portable env s x"
  shows "(fst (sql_exec env x c) = None \<longleftrightarrow> fst (exec_cmd (sq_env env) x s) = None)
     \<and> agrees env (snd (sql_exec env x c)) (snd (exec_cmd (sq_env env) x s))"
  using assms
  by (cases x; simp only: sql_exec.simps exec_cmd.simps portable.simps)
    (rule similar_outcome; simp add: acquire_agrees release_agrees create_agrees transition_agrees
      record_step_agrees record_attempt_agrees reserve_agrees record_checkpoint_agrees
      record_policy_agrees)+

lemma sql_execs_agree:
  "agrees env c s \<Longrightarrow> portable_all env s xs \<Longrightarrow>
     agrees env (sql_execs env xs c) (exec_cmds (sq_env env) xs s)"
  by (induction xs arbitrary: c s) (simp_all add: sql_exec_agrees)

lemma get_run_agrees:
  assumes a: "agrees env c s"
  shows "sql_get_run env rid c = get_run (sq_env env) rid s"
proof -
  have "tb_payloads (sees c) = payloads s" using a by (simp add: agrees_def)
  note load = load_run_agrees [OF this, of env]
  show ?thesis
    using a by (cases rule: agrees_run [where rid = rid])
      (simp_all add: sql_get_run_def get_run_def stands_for_reads load)
qed

lemma get_checkpoints_agrees:
  assumes a: "agrees env c s"
  shows "sql_get_checkpoints env rid c = get_checkpoints (sq_env env) rid s"
proof -
  have "tb_payloads (sees c) = payloads s" using a by (simp add: agrees_def)
  note load = read_payload_agrees [OF this, of env]
  show ?thesis using a by (simp add: sql_get_checkpoints_def get_checkpoints_def load agrees_def)
qed

lemma get_policy_agrees:
  "agrees env c s \<Longrightarrow> sql_get_policy_decisions rid c = get_policy_decisions rid s"
  by (simp add: sql_get_policy_decisions_def get_policy_decisions_def agrees_def)

lemma get_steps_agrees:
  "agrees env c s \<Longrightarrow> mset (sql_get_steps rid c) = mset (get_steps rid s)"
  by (simp add: sql_get_steps_def get_steps_def agrees_def rows_agree_def)

text \<open>Attempts read back up to order, provided their usage survives a second validation.\<close>

definition usage_stable :: "stored_attempt \<Rightarrow> bool" where
  "usage_stable a \<longleftrightarrow> read_usage (sa_usage a) = Inr (sa_usage a)"

lemma mapE_mset:
  assumes "mset xs = mset ys" and "mapE f xs = Inr us"
  shows "\<exists>vs. mapE f ys = Inr vs \<and> mset vs = mset us"
proof -
  have "(\<forall>x \<in> set xs. f x = Inr (projr (f x))) \<and> us = map (\<lambda>x. projr (f x)) xs"
    using assms(2) by (induction xs arbitrary: us) (auto simp: bindE_eq_Inr)
  moreover have "set ys = set xs" using assms(1) by (metis set_mset_mset)
  ultimately have "mapE f ys = Inr (map (\<lambda>x. projr (f x)) ys)"
    and "us = map (\<lambda>x. projr (f x)) xs" by (auto intro: mapE_all_ok)
  with assms(1) show ?thesis by simp
qed

definition read_attempt :: "store_env \<Rightarrow> run_store \<Rightarrow> ident \<Rightarrow> stored_attempt \<Rightarrow> exn + step_attempt" where
  "read_attempt env s rid a =
     bindE (read_payload env s rid (attempt_output_field (sa_attempt_id a))) (\<lambda>out.
     bindE (read_payload env s rid (attempt_error_field (sa_attempt_id a))) (\<lambda>err.
       Inr (attempt_to_record a out err)))"

lemma get_attempts_read: "get_attempts env rid s = mapE (read_attempt env s rid) (entries (attempts s) rid)"
  by (simp add: get_attempts_def read_attempt_def [abs_def])

lemma mapE_cong: "(\<And>x. x \<in> set xs \<Longrightarrow> f x = g x) \<Longrightarrow> mapE f xs = mapE g xs"
  by (induction xs) simp_all

lemma get_attempts_agrees:
  assumes a: "agrees env c s" and st: "list_all usage_stable (entries (attempts s) rid)"
    and us: "get_attempts (sq_env env) rid s = Inr us"
  shows "\<exists>vs. sql_get_attempts env rid c = Inr vs \<and> mset vs = mset us"
proof -
  let ?rows = "filter (\<lambda>x. sa_run_id x = rid) (tb_attempts (sees c))"
  have rows: "rows_agree sa_run_id sa_attempt_id (tb_attempts (sees c)) (attempts s)"
    and pay: "tb_payloads (sees c) = payloads s"
    using a by (simp_all add: agrees_def)
  have "sql_read_attempt env c rid x = read_attempt (sq_env env) s rid x" if "x \<in> set ?rows" for x
  proof -
    have "usage_stable x" using that st rows_agree_set [OF rows, of rid] by (auto simp: list_all_iff)
    then show ?thesis
      by (simp add: sql_read_attempt_def read_attempt_def usage_stable_def read_payload_agrees [OF pay])
  qed
  then have "sql_get_attempts env rid c = mapE (read_attempt (sq_env env) s rid) ?rows"
    unfolding sql_get_attempts_def by (rule mapE_cong)
  moreover have "mset (entries (attempts s) rid) = mset ?rows" using rows by (simp add: rows_agree_def)
  ultimately show ?thesis using mapE_mset us by (metis get_attempts_read)
qed

section \<open>Attempts that cannot be read back\<close>

lemma mapE_raises: "x \<in> set xs \<Longrightarrow> f x = Inl e \<Longrightarrow> \<exists>e'. mapE f xs = Inl e'"
  by (induction xs) (auto simp: bindE_eq_Inl split: sum.splits, metis bindE_eq_Inl sumE)

text \<open>One attempt whose usage does not validate again makes every read of the Run fail.\<close>

lemma unreadable_usage:
  assumes "sql_record_attempt env now a v ow c = (Inr r, c')" and "run_matches now (attempt_run_id a) v ow c"
    and "attempt_usage a = Some y" and "validate_usage y = Inl e"
  shows "\<exists>e'. sql_get_attempts env (attempt_run_id a) c' = Inl e'"
proof -
  have "attempt_metadata a \<in> set (filter (\<lambda>x. sa_run_id x = attempt_run_id a) (tb_attempts (sees c')))"
    using assms(1,2)
    by (auto simp: sql_record_attempt_def split_attempt_def bindE_eq_Inr guarded_insert_def and_then_def
        attempt_metadata_ok put_attempt_def replace_row_def)
  moreover have "sql_read_attempt env c' (attempt_run_id a) (attempt_metadata a) = Inl e"
    using assms(3,4) by (simp add: sql_read_attempt_def read_usage_def attempt_metadata_def)
  ultimately show ?thesis unfolding sql_get_attempts_def by (rule mapE_raises)
qed

text \<open>A validated usage whose count inherits an UNAVAILABLE summary is rejected the second time.\<close>

lemma revalidation_raises:
  assumes "validate_usage x = Inr y" and "usage_value x f \<noteq> None" and "usage_source x f = None"
    and "u_provenance x = UNAVAILABLE"
  shows "\<exists>e. validate_usage y = Inl e"
proof (cases "validate_usage y")
  case (Inr z)
  have "usage_source y f = Some UNAVAILABLE" "usage_value y f \<noteq> None"
    using validate_usage_sources [OF assms(1), of f] validate_usage_values [OF assms(1), of f] assms(2-4)
    by (auto simp: field_provenance_Inr split: if_splits option.splits)
  then show ?thesis
    using validate_usage_sources [OF Inr, of f] by (auto simp: field_provenance_Inr)
qed simp

section \<open>Where the two stores differ\<close>

text \<open>
  Recording a Step again moves it to the end of what \<open>get_steps\<close> returns in SQLite; the
  in-memory store keeps its position.
\<close>

lemma record_step_order:
  assumes a: "agrees env c s" and g: "guarded now s (step_run_id st) v ow = Inr cur"
  shows "sql_get_steps (step_run_id st) (snd (sql_record_step env now st v ow c)) =
       filter (\<lambda>x. step_id x \<noteq> step_id st) (sql_get_steps (step_run_id st) c) @ [st]"
    and "get_steps (step_run_id st) (snd (record_step now st v ow s)) =
       upsert step_id st (get_steps (step_run_id st) s)"
proof -
  have m: "run_matches now (step_run_id st) v ow c" using run_matches_guarded [OF a] g by blast
  have "filter (\<lambda>x. step_run_id x = step_run_id st) (filter (\<lambda>y. step_key y \<noteq> step_key st) (tb_steps (sees c)))
      = filter (\<lambda>x. step_id x \<noteq> step_id st) (filter (\<lambda>x. step_run_id x = step_run_id st) (tb_steps (sees c)))"
    by (auto simp: step_key_def intro!: filter_cong)
  then show "sql_get_steps (step_run_id st) (snd (sql_record_step env now st v ow c)) =
       filter (\<lambda>x. step_id x \<noteq> step_id st) (sql_get_steps (step_run_id st) c) @ [st]"
    using m by (simp add: sql_record_step_def guarded_insert_def and_then_def sql_get_steps_def put_step_def
        replace_row_def)
  show "get_steps (step_run_id st) (snd (record_step now st v ow s)) =
       upsert step_id st (get_steps (step_run_id st) s)"
    using g by (simp add: record_step_def get_steps_def)
qed

text \<open>A second checkpoint of a Step raises and leaves a transaction open, which the next reservation
  trips over; the in-memory store appends.\<close>

lemma duplicate_checkpoint:
  assumes "split_checkpoint (sq_env env) cp = Inr sp" and "run_matches now (cp_run_id cp) v ow c"
    and "(cp_run_id cp, cp_step_id cp) \<in> checkpoint_key ` set (tb_checkpoints (sees c))"
  shows "sql_record_checkpoint env now cp v ow c = (Inl IntegrityError, execute id c)"
    and "attempt_model_purpose a \<noteq> None \<Longrightarrow> step_type st = STEP_MODEL \<Longrightarrow>
      step_run_id st = attempt_run_id a \<Longrightarrow> step_id st = attempt_step_id a \<Longrightarrow>
      fst (sql_reserve_model_attempt now' st a m1 m2 v' owner (execute id c)) = Inl OperationalError"
proof -
  have "checkpoint_key (fst sp) = (cp_run_id cp, cp_step_id cp)" "sc_run_id (fst sp) = cp_run_id cp"
    using assms(1) by (auto simp: split_checkpoint_def bindE_eq_Inr checkpoint_metadata_def checkpoint_key_def)
  then show "sql_record_checkpoint env now cp v ow c = (Inl IntegrityError, execute id c)"
    using assms by (simp add: sql_record_checkpoint_def split_beta)
  show "fst (sql_reserve_model_attempt now' st a m1 m2 v' owner (execute id c)) = Inl OperationalError"
    if "attempt_model_purpose a \<noteq> None" "step_type st = STEP_MODEL"
      "step_run_id st = attempt_run_id a" "step_id st = attempt_step_id a"
    using that by (auto simp: sql_reserve_model_attempt_def execute_def)
qed

text \<open>
  An encoding that fails after the UPDATE of a transition leaves the transition uncommitted
  but visible on its connection, and the next operation that commits there publishes it.
\<close>

lemma failed_encoding_pending:
  assumes idle: "cn_pending c = None" and row: "tb_runs (cn_committed c) rid = Some row"
    and read: "run_from_row env row = Inr cur" and v: "rw_version row = v"
    and lease: "lease_condition now (to_lease_owner args) row"
    and legal: "to_status args \<in> set (ALLOWED_TRANSITIONS (sr_status cur))"
    and fails: "to_output args = Some t" "env_encode (sq_env env) t = Inl e"
    and st: "step_run_id st = rid"
  obtains c' c'' where "sql_transition_run env now utc rid v args id c = (Inl e, c')"
    and "cn_committed c' = cn_committed c"
    and "sql_record_step env now' st (v + 1) None c' = (Inr st, c'')"
    and "tb_runs (cn_committed c'') rid = Some (updated_row (transitioned utc args cur) row)"
proof
  let ?row = "updated_row (transitioned utc args cur) row"
  let ?c = "execute (put_run rid ?row) c"
  have cv: "sr_version cur = v" using read v by (auto simp: run_from_row_def bindE_eq_Inr)
  show "sql_transition_run env now utc rid v args id c = (Inl e, ?c)"
    using assms cv by (simp add: sql_transition_run_def fetch_run_def transition_hit_def Let_def
        validate_transition_def sql_write_optional_def and_then_def)
  show "cn_committed ?c = cn_committed c" by simp
  have "rw_version ?row = v + 1" using cv by (simp add: updated_row_def run_row_of_def transitioned_def)
  then have "run_matches now' (step_run_id st) (v + 1) None ?c"
    by (simp add: run_matches_def transition_hit_def fetch_run_def st lease_condition_def)
  then show "sql_record_step env now' st (v + 1) None ?c = (Inr st, commit (execute (put_step st) ?c))"
    by (simp add: sql_record_step_def guarded_insert_def and_then_def)
  show "tb_runs (cn_committed (commit (execute (put_step st) ?c))) rid = Some ?row"
    by (simp add: put_step_def)
qed

text \<open>
  A policy decision is inserted without its guard being checked again: whatever other
  connections committed since the SELECT, it is recorded.
\<close>

lemma policy_decision_unfenced:
  assumes "cn_pending c = None" and "tb_runs (cn_committed c) (pdr_run_id d) = Some row"
    and "run_from_row env row = Inr cur" and "rw_version row = v" and "lease_condition now ow row"
  shows "sql_record_policy_decision env now d v ow others c =
     (Inr d, open_conn (add_policy d (others (cn_committed c))))"
proof -
  have "sr_version cur = v" "sr_lease_owner cur = rw_lease_owner row"
    "sr_lease_expires_at cur = rw_lease_expires_at row"
    using assms(3,4) by (auto simp: run_from_row_def bindE_eq_Inr)
  then show ?thesis
    using assms by (cases ow) (auto simp: sql_record_policy_decision_def fetch_run_def lease_condition_def
        check_lease_def interleave_def execute_def commit_def sees_def open_conn_def split: option.splits)
qed

end
