(* ===== verification/Sqlite_Lease.thy ===== *)
theory Sqlite_Lease
  imports Sqlite_Laws Lease_Protocol
begin

text \<open>
  Several connections to one SQLite file: what a transition found when other connections
  commit between its statements, and the file as an instance of the lease contract, so that
  fencing and the absence of lost updates hold across processes.
\<close>

section \<open>Interleaving with other connections\<close>

text \<open>
  Whatever other connections commit between the SELECT and the UPDATE of a transition, a
  transition that returns found the expected version and the owner's lease at its UPDATE,
  and keeps the lease columns it found there.
\<close>

lemma write_optional_committed:
  "sql_write_optional env rid f t c = (r, c') \<Longrightarrow>
     cn_committed c' = cn_committed c \<and> tb_runs (sees c') = tb_runs (sees c)"
  by (auto simp: sql_write_optional_def sql_set_payload_def attempt_op_def split: option.splits sum.splits)

lemma transition_fenced:
  assumes "sql_transition_run env now utc rid v args others c = (Inr r, c')" and "cn_pending c = None"
  shows "\<exists>row row0 cur. tb_runs (others (cn_committed c)) rid = Some row \<and> rw_version row = v
     \<and> lease_condition now (to_lease_owner args) row
     \<and> tb_runs (cn_committed c) rid = Some row0 \<and> run_from_row env row0 = Inr cur
     \<and> tb_runs (cn_committed c') rid = Some (updated_row (transitioned utc args cur) row)
     \<and> cn_pending c' = None"
proof -
  obtain row0 cur where 0: "tb_runs (cn_committed c) rid = Some row0" "run_from_row env row0 = Inr cur"
    using assms by (auto simp: sql_transition_run_def fetch_run_def split: option.splits)
  obtain row where row: "tb_runs (others (cn_committed c)) rid = Some row" "rw_version row = v"
    "lease_condition now (to_lease_owner args) row"
    using assms 0 by (auto simp: sql_transition_run_def fetch_run_def transition_hit_def Let_def
        interleave_def sees_def split: option.splits if_splits)
  have hit: "transition_hit now rid v (to_lease_owner args) (interleave others c) = Some row"
    using row assms(2) by (simp add: transition_hit_def fetch_run_def interleave_def sees_def)
  have "tb_runs (cn_committed c') rid = Some (updated_row (transitioned utc args cur) row) \<and> cn_pending c' = None"
    using assms 0 by (auto simp: sql_transition_run_def fetch_run_def hit Let_def and_then_Inr
        split: if_splits dest!: write_optional_committed)
  with 0 row show ?thesis by blast
qed

section \<open>The lease contract\<close>

text \<open>
  One command on a fresh connection to the file, as another process would run it: what it
  has not committed when it ends is lost.
\<close>

definition sql_once :: "sql_env \<Rightarrow> store_cmd \<Rightarrow> sql_tables \<Rightarrow> exn option \<times> sql_tables" where
  "sql_once env x t = (let p = sql_exec env x (open_conn t) in (fst p, cn_committed (snd p)))"

definition row_lease :: "sql_tables \<Rightarrow> ident \<Rightarrow> (ident \<times> timestamp) option" where
  "row_lease t rid =
     (case sql_get_lease rid (open_conn t) of None \<Rightarrow> None | Some l \<Rightarrow> Some (lease_owner l, lease_expires_at l))"

definition row_version :: "sql_tables \<Rightarrow> ident \<Rightarrow> int option" where
  "row_version t rid = map_option rw_version (tb_runs t rid)"

lemma row_lease_eq:
  "row_lease t rid = Some (o', e) \<longleftrightarrow>
     (\<exists>row. tb_runs t rid = Some row \<and> rw_lease_owner row = Some o' \<and> rw_lease_expires_at row = Some e)"
  by (auto simp: row_lease_def sql_get_lease_def fetch_run_def split: option.splits)

lemma row_views_cong:
  "tb_runs t rid = tb_runs t' rid \<Longrightarrow> row_lease t rid = row_lease t' rid \<and> row_version t rid = row_version t' rid"
  by (simp add: row_lease_def row_version_def sql_get_lease_def fetch_run_def)


lemma sql_once_eq: "sql_once env x t = (e, t') \<longleftrightarrow>
    fst (sql_exec env x (open_conn t)) = e \<and> cn_committed (snd (sql_exec env x (open_conn t))) = t'"
  by (auto simp: sql_once_def Let_def)

text \<open>The recording operations leave the \<open>runs\<close> table alone and return only behind their guard.\<close>

definition guard_held :: "timestamp \<Rightarrow> ident \<Rightarrow> int \<Rightarrow> ident option \<Rightarrow> sql_tables \<Rightarrow> bool" where
  "guard_held now rid v ow t \<longleftrightarrow>
     (\<exists>row. tb_runs t rid = Some row \<and> rw_version row = v \<and> lease_condition now ow row)"

lemma run_matches_held: "run_matches now rid v ow (open_conn t) = guard_held now rid v ow t"
  by (auto simp: run_matches_def transition_hit_def fetch_run_def guard_held_def split: option.splits)

lemma refused_held:
  "mutation_refused env rid v ow (open_conn t) = Inr () \<Longrightarrow> guard_held now rid v ow t"
  by (auto simp: mutation_refused_def fetch_run_def guard_held_def lease_condition_def
      split: option.splits if_splits)

lemma guarded_insert_once:
  assumes "tb_runs (ins t) = tb_runs t"
  obtains (inserted) c where "guarded_insert env now rid v ow ins (open_conn t) = (Inr (), c)"
      "guard_held now rid v ow t" "tb_runs (sees c) = tb_runs t" "cn_committed c = t"
    | (refused) e where "guarded_insert env now rid v ow ins (open_conn t) = (Inl e, open_conn t)"
proof (cases "run_matches now rid v ow (open_conn t)")
  case True
  with assms show ?thesis
    by (intro inserted [of "execute ins (open_conn t)"]) (simp_all add: guarded_insert_def run_matches_held)
next
  case False
  show ?thesis
  proof (cases "mutation_refused env rid v ow (open_conn t)")
    case (Inl e)
    with False show ?thesis by (intro refused [of e]) (simp add: guarded_insert_def)
  next
    case (Inr u)
    then have "guard_held now rid v ow t" using refused_held [of env rid v ow t now] by simp
    with False show ?thesis by (simp add: run_matches_held)
  qed
qed

lemma put_runs:
  "tb_runs (put_step st t) = tb_runs t" "tb_runs (put_attempt a t) = tb_runs t"
  "tb_runs (add_checkpoint cp t) = tb_runs t"
  by (simp_all add: put_step_def put_attempt_def add_checkpoint_def)

lemma records_once:
  assumes "cmd_kind x = K_Mutate now rid ow v False" and "sql_once env x t = (e, t')"
  shows "tb_runs t' = tb_runs t \<and> (e = None \<longrightarrow> guard_held now rid v ow t)"
proof (cases x)
  case (Record_Step n st v' ow')
  show ?thesis
    using put_runs(1) [of st t] Record_Step assms
    by (cases rule: guarded_insert_once [where ins = "put_step st" and t = t and env = env and now = now
          and rid = rid and v = v and ow = ow])
      (auto simp: sql_once_eq sql_record_step_def outcome_of_def and_then_def put_step_def)
next
  case (Record_Attempt n a v' ow')
  show ?thesis
  proof (cases "split_attempt (sq_env env) a")
    case (Inl e)
    then show ?thesis
      using assms Record_Attempt by (auto simp: sql_once_eq sql_record_attempt_def outcome_of_def)
  next
    case (Inr sp)
    then have "sa_run_id (fst sp) = attempt_run_id a"
      by (auto simp: split_attempt_def bindE_eq_Inr attempt_metadata_ok)
    with put_runs(2) [of "fst sp" t] show ?thesis
      using assms Record_Attempt Inr
      by (cases rule: guarded_insert_once [where ins = "put_attempt (fst sp)" and t = t and env = env
            and now = now and rid = rid and v = v and ow = ow])
        (auto simp: sql_once_eq sql_record_attempt_def outcome_of_def and_then_def put_attempt_def
          split_beta)
  qed
next
  case (Record_Checkpoint n cp v' ow')
  show ?thesis
  proof (cases "split_checkpoint (sq_env env) cp")
    case (Inl e)
    then show ?thesis
      using assms Record_Checkpoint by (auto simp: sql_once_eq sql_record_checkpoint_def outcome_of_def)
  next
    case (Inr sp)
    then have "sc_run_id (fst sp) = cp_run_id cp"
      by (auto simp: split_checkpoint_def bindE_eq_Inr checkpoint_metadata_def)
    with put_runs(3) [of "fst sp" t] show ?thesis
      using assms Record_Checkpoint Inr
      by (cases rule: guarded_insert_once [where ins = "add_checkpoint (fst sp)" and t = t and env = env
            and now = now and rid = rid and v = v and ow = ow])
        (auto simp: sql_once_eq sql_record_checkpoint_def outcome_of_def and_then_def add_checkpoint_def
          split_beta split: if_splits)
  qed
next
  case (Record_Policy n d v' ow')
  have held: "guard_held now rid v ow t"
    if "run_from_row env row = Inr sr" "tb_runs t rid = Some row" "sr_version sr = v"
      "\<not> (\<exists>o' \<in> set_option ow. check_lease now sr o' \<noteq> Inr ())" for row sr
    using that by (cases ow) (auto simp: guard_held_def lease_condition_def check_lease_ok
        run_from_row_def bindE_eq_Inr)
  from Record_Policy show ?thesis
    using assms held
    by (cases "tb_runs t rid"; cases "run_from_row env (the (tb_runs t rid))")
      (auto simp: sql_once_eq sql_record_policy_decision_def outcome_of_def fetch_run_def add_policy_def
        split: if_splits)
next
  case (Reserve n st a m1 m2 v' owner)
  have "guard_held now rid v ow t"
    if "tb_runs t rid = Some row" "rw_version row = v" "\<not> row_lease_lost now owner row" for row
    using that assms(1) Reserve
    by (auto simp: guard_held_def lease_condition_def row_lease_lost_def split: option.splits)
  then show ?thesis
    using assms Reserve
    by (auto simp: sql_once_eq sql_reserve_model_attempt_def outcome_of_def fetch_run_def Let_def put_step_def
        split: option.splits if_splits)
qed (use assms in simp_all)


text \<open>A transition either leaves the table alone and raises, or advances the row it matched.\<close>

definition advanced :: "run_row \<Rightarrow> run_row \<Rightarrow> bool" where
  "advanced row row' \<longleftrightarrow> rw_version row' = rw_version row + 1
     \<and> rw_lease_owner row' = rw_lease_owner row \<and> rw_lease_expires_at row' = rw_lease_expires_at row"

lemma transition_once:
  assumes "sql_once env (Transition now utc rid v args) t = (e, t')"
  shows "(tb_runs t' = tb_runs t \<and> e \<noteq> None)
     \<or> (\<exists>row row'. tb_runs t rid = Some row \<and> rw_version row = v \<and> lease_condition now (to_lease_owner args) row
          \<and> tb_runs t' = (tb_runs t)(rid \<mapsto> row') \<and> advanced row row')"
proof (cases "\<exists>row cur. tb_runs t rid = Some row \<and> run_from_row env row = Inr cur \<and> rw_version row = v
    \<and> lease_condition now (to_lease_owner args) row \<and> to_status args \<in> set (ALLOWED_TRANSITIONS (sr_status cur))")
  case False
  have cols: "run_from_row env row = Inr cur \<Longrightarrow> sr_version cur = rw_version row" for row cur
    by (auto simp: run_from_row_def bindE_eq_Inr)
  have "\<exists>e. sql_transition_run env now utc rid v args id (open_conn t) = (Inl e, open_conn t)"
    using False cols
    by (cases "tb_runs t rid"; cases "run_from_row env (the (tb_runs t rid))")
      (auto simp: sql_transition_run_def fetch_run_def transition_hit_def Let_def validate_transition_def
        split: option.splits if_splits)
  with assms show ?thesis by (auto simp: sql_once_eq outcome_of_def)
next
  case True
  then obtain row cur where row: "tb_runs t rid = Some row" "run_from_row env row = Inr cur"
    "rw_version row = v" "lease_condition now (to_lease_owner args) row"
    "to_status args \<in> set (ALLOWED_TRANSITIONS (sr_status cur))" by blast
  then have v: "sr_version cur = v" by (auto simp: run_from_row_def bindE_eq_Inr)
  let ?row = "updated_row (transitioned utc args cur) row"
  let ?c1 = "execute (put_run rid ?row) (open_conn t)"
  have adv: "advanced row ?row"
    using v row(3) by (simp add: advanced_def updated_row_def run_row_of_def transitioned_def)
  obtain r2 c2 where w2: "sql_write_optional env rid FIELD_RUN_OUTPUT (to_output args) ?c1 = (r2, c2)"
    by (cases "sql_write_optional env rid FIELD_RUN_OUTPUT (to_output args) ?c1")
  obtain r3 c3 where w3: "sql_write_optional env rid FIELD_RUN_SNAPSHOT
      (map_option (env_dump_snapshot (sq_env env)) (to_snapshot args)) c2 = (r3, c3)"
    by (cases "sql_write_optional env rid FIELD_RUN_SNAPSHOT
      (map_option (env_dump_snapshot (sq_env env)) (to_snapshot args)) c2")
  note w = write_optional_committed [OF w2] write_optional_committed [OF w3]
  have res: "sql_transition_run env now utc rid v args id (open_conn t) =
      (case r2 of Inl e \<Rightarrow> (Inl e, c2) | Inr _ \<Rightarrow> (case r3 of Inl e \<Rightarrow> (Inl e, c3)
         | Inr _ \<Rightarrow> (sql_load_run env (commit c3) (transitioned utc args cur) rid, commit c3)))"
    using row v
    by (simp add: sql_transition_run_def fetch_run_def transition_hit_def Let_def validate_transition_def
        w2 w3 and_then_def split: sum.split)
  show ?thesis
  proof (cases "isl r2 \<or> isl r3")
    case True
    with assms res w show ?thesis
      by (cases r2; cases r3) (auto simp: sql_once_eq outcome_of_def)
  next
    case False
    then have "tb_runs t' = (tb_runs t)(rid \<mapsto> ?row)"
      using assms res w by (cases r2; cases r3) (auto simp: sql_once_eq outcome_of_def)
    with row adv show ?thesis by blast
  qed
qed

lemma mutate_once:
  assumes "cmd_kind x = K_Mutate now rid ow v bump" and "sql_once env x t = (e, t')"
  shows "(tb_runs t' = tb_runs t \<and> (e = None \<longrightarrow> \<not> bump \<and> guard_held now rid v ow t))
     \<or> (\<exists>row row'. bump \<and> tb_runs t rid = Some row \<and> rw_version row = v \<and> lease_condition now ow row
          \<and> tb_runs t' = (tb_runs t)(rid \<mapsto> row') \<and> advanced row row')"
proof (cases x)
  case (Transition n utc r v' args)
  then show ?thesis using assms transition_once [of env n utc r v' args t e t'] by auto
qed (use assms records_once [of x now rid ow v env t e t'] in simp_all)

lemma lease_condition_held:
  "tb_runs t rid = Some row \<Longrightarrow> lease_condition now (Some owner) row \<Longrightarrow>
     \<exists>e. row_lease t rid = Some (owner, e) \<and> now < e"
  by (auto simp: lease_condition_def row_lease_eq split: option.splits)

lemma advanced_views:
  "tb_runs t rid = Some row \<Longrightarrow> tb_runs t' rid = Some row' \<Longrightarrow> advanced row row' \<Longrightarrow>
     row_lease t' rid = row_lease t rid \<and> row_version t' rid = Some (rw_version row + 1)"
  by (simp add: row_lease_def row_version_def sql_get_lease_def fetch_run_def advanced_def)

lemma acquire_once:
  "sql_once env (Acquire now rid owner ttl v) t =
     (case tb_runs t rid of
        None \<Rightarrow> (Some RunNotFoundError, t)
      | Some row \<Rightarrow>
          if acquirable now owner v row
          then (None, put_run rid (row\<lparr>rw_lease_owner := Some owner, rw_lease_expires_at := Some (now + ttl)\<rparr>) t)
          else (Some (case run_from_row env row of Inl e \<Rightarrow> e | Inr cur \<Rightarrow>
                  if sr_version cur \<noteq> v then StaleRunVersionError else LeaseNotHeldError), t))"
  by (auto simp: sql_once_def sql_acquire_lease_def outcome_of_def fetch_run_def current_run_def
      attempt_op_def Let_def split: option.splits sum.splits)

lemma release_once:
  "sql_once env (Release rid owner v) t =
     (case tb_runs t rid of
        None \<Rightarrow> (Some RunNotFoundError, t)
      | Some row \<Rightarrow>
          if rw_version row = v \<and> rw_lease_owner row = Some owner
          then (None, put_run rid (row\<lparr>rw_lease_owner := None, rw_lease_expires_at := None\<rparr>) t)
          else (Some (if rw_version row \<noteq> v then StaleRunVersionError else LeaseNotHeldError), t))"
  by (auto simp: sql_once_def sql_release_lease_def outcome_of_def fetch_run_def Let_def split: option.splits)

lemma create_once:
  assumes "sql_once env (Create run) t = (e, t')"
  shows "tb_runs t' = tb_runs t \<or> (tb_runs t (run_id run) = None
     \<and> (\<exists>row. tb_runs t' = (tb_runs t)(run_id run \<mapsto> row)))"
  using assms
  by (cases "split_run (sq_env env) run")
    (auto simp: sql_once_eq sql_create_run_def outcome_of_def fetch_run_def Let_def split_run_def
      bindE_eq_Inr run_metadata_def)

interpretation sqlite: lease_store "sql_once env" cmd_kind row_lease row_version
proof
  fix x :: store_cmd and now rid owner expires v t t'
  assume k: "cmd_kind x = K_Acquire now rid owner expires v" and e: "sql_once env x t = (None, t')"
  then obtain ttl where "x = Acquire now rid owner ttl v" "expires = now + ttl" by (cases x) auto
  with e show "row_version t rid = Some v
      \<and> (\<forall>o' e. row_lease t rid = Some (o', e) \<longrightarrow> o' = owner \<or> e \<le> now)
      \<and> row_lease t' rid = Some (owner, expires) \<and> row_version t' rid = row_version t rid"
    by (auto simp: acquire_once row_lease_eq row_version_def acquirable_def split: option.splits if_splits)
next
  fix x :: store_cmd and now rid owner expires v t e t'
  assume k: "cmd_kind x = K_Acquire now rid owner expires v" and e: "sql_once env x t = (Some e, t')"
  then obtain ttl where "x = Acquire now rid owner ttl v" by (cases x) auto
  with e show "t' = t" by (auto simp: acquire_once split: option.splits if_splits)
next
  fix x :: store_cmd and rid owner v t t'
  assume k: "cmd_kind x = K_Release rid owner v" and e: "sql_once env x t = (None, t')"
  then have "x = Release rid owner v" by (cases x) auto
  with e show "row_version t rid = Some v \<and> (\<forall>o' e. row_lease t rid = Some (o', e) \<longrightarrow> o' = owner)
      \<and> row_lease t' rid = None \<and> row_version t' rid = row_version t rid"
    by (auto simp: release_once row_lease_eq row_version_def split: option.splits if_splits)
      (simp add: row_lease_def sql_get_lease_def fetch_run_def)
next
  fix x :: store_cmd and rid owner v t e t'
  assume k: "cmd_kind x = K_Release rid owner v" and e: "sql_once env x t = (Some e, t')"
  then have "x = Release rid owner v" by (cases x) auto
  with e show "t' = t" by (auto simp: release_once split: option.splits if_splits)
next
  fix x :: store_cmd and now rid ow v bump t t'
  assume "cmd_kind x = K_Mutate now rid ow v bump" and "sql_once env x t = (None, t')"
  from mutate_once [OF this] show "row_version t rid = Some v
      \<and> (\<forall>owner. ow = Some owner \<longrightarrow> (\<exists>e. row_lease t rid = Some (owner, e) \<and> now < e))
      \<and> row_version t' rid = Some (if bump then v + 1 else v)"
    by (auto simp: guard_held_def row_version_def advanced_def intro: lease_condition_held)
next
  fix x :: store_cmd and now rid ow v bump t v0
  assume k: "cmd_kind x = K_Mutate now rid ow v bump" and v: "row_version t rid = Some v0"
  obtain e t' where o: "sql_once env x t = (e, t')" by (cases "sql_once env x t")
  from mutate_once [OF k o] have "row_lease t' rid = row_lease t rid \<and> (\<exists>v'. row_version t' rid = Some v' \<and> v0 \<le> v')"
  proof (elim disjE exE conjE)
    assume "tb_runs t' = tb_runs t"
    then show ?thesis using v row_views_cong [of t' rid t] by simp
  next
    fix row row'
    assume "tb_runs t rid = Some row" "tb_runs t' = (tb_runs t)(rid \<mapsto> row')" "advanced row row'"
    then show ?thesis using v advanced_views [of t rid row t' row'] by (simp add: row_version_def)
  qed
  with o show "row_lease (snd (sql_once env x t)) rid = row_lease t rid
      \<and> (\<exists>v'. row_version (snd (sql_once env x t)) rid = Some v' \<and> v0 \<le> v')" by simp
next
  fix x :: store_cmd and rid t
  assume k: "cmd_kind x = K_Create rid" and v: "row_version t rid \<noteq> None"
  then obtain run where x: "x = Create run" "run_id run = rid" by (cases x) auto
  obtain e t' where o: "sql_once env x t = (e, t')" by (cases "sql_once env x t")
  have "tb_runs t' rid = tb_runs t rid"
    using create_once [of env run t e t'] o v x by (auto simp: row_version_def)
  with o show "row_lease (snd (sql_once env x t)) rid = row_lease t rid
      \<and> row_version (snd (sql_once env x t)) rid = row_version t rid"
    using row_views_cong [of t' rid t] by simp
next
  fix x :: store_cmd and rid t
  assume ne: "rid \<noteq> kind_run (cmd_kind x)"
  obtain e t' where o: "sql_once env x t = (e, t')" by (cases "sql_once env x t")
  have "tb_runs t' rid = tb_runs t rid"
  proof (cases "cmd_kind x")
    case (K_Mutate now r ow v bump)
    with mutate_once [OF K_Mutate o] ne show ?thesis by auto
  next
    case (K_Create r)
    then obtain run where "x = Create run" by (cases x) auto
    with create_once [of env run t e t'] o ne show ?thesis by auto
  next
    case (K_Acquire now r owner expires v)
    then obtain ttl where "x = Acquire now r owner ttl v" by (cases x) auto
    with o ne show ?thesis by (auto simp: acquire_once split: option.splits if_splits)
  next
    case (K_Release r owner v)
    then have "x = Release r owner v" by (cases x) auto
    with o ne show ?thesis by (auto simp: release_once split: option.splits if_splits)
  qed
  with o show "row_lease (snd (sql_once env x t)) rid = row_lease t rid
      \<and> row_version (snd (sql_once env x t)) rid = row_version t rid"
    using row_views_cong [of t' rid t] by simp
qed

lemma sqlite_foreign_eq: "sqlite.foreign B t rid c = foreign_cmd B t rid c"
  by (cases c) (simp_all add: sqlite.foreign_def)

fun sql_processes :: "sql_env \<Rightarrow> store_cmd list \<Rightarrow> sql_tables \<Rightarrow> sql_tables" where
  "sql_processes env [] t = t"
| "sql_processes env (x # xs) t = sql_processes env xs (snd (sql_once env x t))"

lemma sqlite_execs [simp]: "sqlite.execs env xs t = sql_processes env xs t"
  by (induction xs arbitrary: t) simp_all

lemma sqlite_fenced_cmd:
  assumes "row_lease t rid = Some (B, e)" and "list_all (foreign_cmd B e rid) xs"
    and "cmd_run d = rid" and "mutation_owner d = Some A" and "A \<noteq> B"
  shows "\<exists>x. fst (sql_once env d (sql_processes env xs t)) = Some x"
proof -
  obtain w where w: "mutation_version d = Some w" using owned_is_mutation [OF assms(4)] by blast
  obtain v where v: "row_version t rid = Some v" using assms(1) by (auto simp: row_lease_eq row_version_def)
  obtain now bump where k: "cmd_kind d = K_Mutate now rid (Some A) w bump"
    using mutation_kind [OF w] assms(3,4) by auto
  have "list_all (sqlite.foreign B e rid) xs" using assms(2) by (simp add: list_all_iff sqlite_foreign_eq)
  from sqlite.fenced [OF assms(1) v this k assms(5), of env] show ?thesis by simp
qed

lemma sqlite_no_lost_update_cmd:
  assumes "sql_once env (Transition now utc rid v args) t = (None, t1)"
    and "cmd_run d = rid" and "mutation_version d = Some v"
  shows "\<exists>x. fst (sql_once env d (sql_processes env xs t1)) = Some x"
proof -
  obtain now' bump where "cmd_kind d = K_Mutate now' rid (mutation_owner d) v bump"
    using mutation_kind [OF assms(3)] assms(2) by auto
  from sqlite.no_lost_update [OF _ assms(1) this, of now "to_lease_owner args" xs] show ?thesis by simp
qed

end
