(* ===== verification/Sqlite_Migration.thy ===== *)
theory Sqlite_Migration
  imports Sqlite_Laws
begin

text \<open>
  Opening a database file, \<open>SQLiteRunStore.__init__\<close> of
  \<open>src/src/m_agent/adapters/_sqlite_store.py\<close>: creation of missing tables, the check of the
  schema version, the migration of rows written by earlier versions (instructions and
  diagnostics move from metadata columns to encoded payloads) and the rebuild of the three
  Step tables whose primary key was not scoped by Run. All of it is one transaction, so the
  result is the new file or an exception with the file unchanged.

  A file is its rows in rowid order together with what \<open>PRAGMA table_info\<close> and
  \<open>sqlite_master\<close> say of the tables. A column that a table does not have yet reads as NULL
  in its rows; a statement that names a missing column raises \<open>OperationalError\<close>.
\<close>

section \<open>The file\<close>

text \<open>Column names with their position in the primary key (0: not part of it).\<close>

record table_info =
  ti_columns :: "(string \<times> nat) list"
  ti_hidden :: bool
  ti_trigger :: bool
  ti_index :: bool

record sql_file =
  fl_user_version :: int
  fl_run_columns :: "string list option"
  fl_steps_info :: "table_info option"
  fl_attempts_info :: "table_info option"
  fl_checkpoints_info :: "table_info option"
  fl_runs :: "run_row list"
  fl_payloads :: "((ident \<times> string) \<times> pybytes) list"
  fl_steps :: "step_record list"
  fl_attempts :: "stored_attempt list"
  fl_checkpoints :: "stored_checkpoint list"
  fl_policy :: "policy_decision_record list"

definition tables_of :: "sql_file \<Rightarrow> sql_tables" where
  "tables_of f = \<lparr>tb_runs = map_of (map (\<lambda>r. (rw_run_id r, r)) (fl_runs f)),
     tb_payloads = map_of (fl_payloads f), tb_steps = fl_steps f, tb_attempts = fl_attempts f,
     tb_checkpoints = fl_checkpoints f, tb_policy = fl_policy f\<rparr>"

definition SCHEMA_VERSION :: int where "SCHEMA_VERSION = 1"

definition RUN_COLUMNS :: "string list" where
  "RUN_COLUMNS = [''run_id'', ''definition_id'', ''definition_version'', ''status'',
     ''snapshot_json'', ''version'', ''waiting_reason'', ''waiting_step_id'', ''error_code'',
     ''lease_owner'', ''lease_expires_at'', ''created_at'', ''updated_at'']"

definition plain_table :: "(string \<times> nat) list \<Rightarrow> table_info" where
  "plain_table cols = \<lparr>ti_columns = cols, ti_hidden = False, ti_trigger = False, ti_index = False\<rparr>"

definition STEPS_SCHEMA :: table_info where
  "STEPS_SCHEMA = plain_table [(''step_id'', 2), (''run_id'', 1), (''step_type'', 0),
     (''status'', 0), (''error_code'', 0), (''created_at'', 0)]"

definition ATTEMPTS_SCHEMA :: table_info where
  "ATTEMPTS_SCHEMA = plain_table [(''attempt_id'', 2), (''step_id'', 0), (''run_id'', 1),
     (''status'', 0), (''error'', 0), (''classification'', 0), (''error_code'', 0),
     (''model_purpose'', 0), (''usage_json'', 0), (''created_at'', 0)]"

definition CHECKPOINTS_SCHEMA :: table_info where
  "CHECKPOINTS_SCHEMA = plain_table [(''step_id'', 2), (''run_id'', 1), (''attempt_id'', 0),
     (''step_type'', 0), (''created_at'', 0)]"

section \<open>Creating tables and adding columns\<close>

text \<open>\<open>CREATE TABLE IF NOT EXISTS\<close>: a new table has no rows.\<close>

definition create_tables :: "sql_file \<Rightarrow> sql_file" where
  "create_tables f =
     (case fl_run_columns f of
        None \<Rightarrow> f\<lparr>fl_run_columns := Some RUN_COLUMNS, fl_runs := []\<rparr> | Some _ \<Rightarrow> f)"

definition create_step_tables :: "sql_file \<Rightarrow> sql_file" where
  "create_step_tables f =
     (let f1 = (case fl_steps_info f of
                  None \<Rightarrow> f\<lparr>fl_steps_info := Some STEPS_SCHEMA, fl_steps := []\<rparr> | Some _ \<Rightarrow> f);
          f2 = (case fl_attempts_info f1 of
                  None \<Rightarrow> f1\<lparr>fl_attempts_info := Some ATTEMPTS_SCHEMA, fl_attempts := []\<rparr>
                | Some _ \<Rightarrow> f1) in
      case fl_checkpoints_info f2 of
        None \<Rightarrow> f2\<lparr>fl_checkpoints_info := Some CHECKPOINTS_SCHEMA, fl_checkpoints := []\<rparr>
      | Some _ \<Rightarrow> f2)"

definition add_run_column :: "string \<Rightarrow> string list \<Rightarrow> string list" where
  "add_run_column col cols = (if col \<in> set cols then cols else cols @ [col])"

definition add_column :: "string \<Rightarrow> table_info \<Rightarrow> table_info" where
  "add_column col i =
     (if col \<in> fst ` set (ti_columns i) then i else i\<lparr>ti_columns := ti_columns i @ [(col, 0)]\<rparr>)"

definition add_columns :: "sql_file \<Rightarrow> sql_file" where
  "add_columns f =
     f\<lparr>fl_run_columns := map_option (\<lambda>c. add_run_column ''error_code'' (add_run_column ''waiting_step_id'' c))
          (fl_run_columns f),
       fl_steps_info := map_option (add_column ''error_code'') (fl_steps_info f),
       fl_attempts_info := map_option (\<lambda>i. add_column ''usage_json'' (add_column ''model_purpose'' i))
          (fl_attempts_info f)\<rparr>"

definition require_columns :: "string list \<Rightarrow> string list \<Rightarrow> exn + unit" where
  "require_columns wanted cols = (if set wanted \<subseteq> set cols then Inr () else Inl OperationalError)"

definition column_names :: "table_info option \<Rightarrow> string list" where
  "column_names i = (case i of None \<Rightarrow> [] | Some x \<Rightarrow> map fst (ti_columns x))"

section \<open>Moving content out of metadata\<close>

text \<open>
  One row of the snapshot loop and one of the two attempt loops. Each UPDATE addresses its
  row by the primary key, so the loops are maps over the rows; the payloads they write are
  returned beside the new row.
\<close>

type_synonym payload_writes = "((ident \<times> string) \<times> pybytes) list"

definition migrate_run_row :: "sql_env \<Rightarrow> run_row \<Rightarrow> exn + run_row \<times> payload_writes" where
  "migrate_run_row env row =
     (case rw_snapshot_json row of
        Some (Legacy_Json data) \<Rightarrow>
          bindE (sq_model_validate env data) (\<lambda>snapshot.
          bindE (env_encode (sq_env env) (env_dump_snapshot (sq_env env) snapshot)) (\<lambda>b.
            Inr (row\<lparr>rw_snapshot_json := snapshot_metadata_json (snapshot_metadata (Some snapshot))\<rparr>,
                 [((rw_run_id row, FIELD_RUN_SNAPSHOT), b)])))
      | _ \<Rightarrow> Inr (row, []))"

definition redacted_text :: "pystr \<Rightarrow> pystr" where
  "redacted_text message = ustr (redact_failure_message (map char_of message))"

definition migrate_attempt_row ::
  "sql_env \<Rightarrow> stored_attempt \<Rightarrow> exn + stored_attempt \<times> payload_writes" where
  "migrate_attempt_row env a =
     (let a' = a\<lparr>sa_error := None, sa_error_code := map_option sanitize_error_code (sa_error_code a)\<rparr> in
      case sa_error a of
        None \<Rightarrow> Inr (a', [])
      | Some message \<Rightarrow>
          bindE (env_encode (sq_env env) (redacted_text message)) (\<lambda>b.
            Inr (a', [((sa_run_id a, attempt_error_field (sa_attempt_id a)), b)])))"

definition put_writes :: "payload_writes \<Rightarrow> payload_writes \<Rightarrow> payload_writes" where
  "put_writes ws rows = fold (replace_row fst) ws rows"

definition migrate :: "sql_env \<Rightarrow> sql_file \<Rightarrow> exn + sql_file" where
  "migrate env f0 =
     (let f = add_columns f0 in
      bindE (require_columns [''run_id'', ''snapshot_json'']
               (case fl_run_columns f of None \<Rightarrow> [] | Some cs \<Rightarrow> cs)) (\<lambda>_.
      bindE (mapE (migrate_run_row env) (fl_runs f)) (\<lambda>rs.
      bindE (require_columns [''attempt_id'', ''run_id'', ''error'', ''error_code'']
               (column_names (fl_attempts_info f))) (\<lambda>_.
      bindE (mapE (migrate_attempt_row env) (fl_attempts f)) (\<lambda>as.
        Inr (f\<lparr>fl_runs := map fst rs, fl_attempts := map fst as,
               fl_payloads := put_writes (concat (map snd as))
                 (put_writes (concat (map snd rs)) (fl_payloads f))\<rparr>))))))"

section \<open>Primary keys scoped by Run\<close>

text \<open>\<open>sorted(columns, key=pk)\<close> without the columns that are not in the key.\<close>

definition primary_key :: "table_info \<Rightarrow> string list" where
  "primary_key i = map fst (filter (\<lambda>c. snd c \<noteq> 0) (sort_key snd (ti_columns i)))"

text \<open>\<open>True\<close>: the table has the old key and must be rebuilt.\<close>

definition legacy_identity :: "string \<Rightarrow> table_info \<Rightarrow> exn + bool" where
  "legacy_identity ident_col i =
     (if primary_key i = [ident_col] then Inr True
      else if primary_key i = [''run_id'', ident_col] then Inr False
      else Inl RunStoreIntegrityError)"

text \<open>
  The five queries of \<open>_validate_legacy_ownership\<close>: an attempt without its Step, a
  checkpoint without its Step or attempt or of another Step type, a Step without its Run, a
  payload without its Run, a checkpoint without its payload.
\<close>

definition ownership_valid :: "sql_file \<Rightarrow> bool" where
  "ownership_valid f \<longleftrightarrow>
     list_all (\<lambda>a. list_ex (\<lambda>s. step_run_id s = sa_run_id a \<and> step_id s = sa_step_id a) (fl_steps f))
       (fl_attempts f)
     \<and> list_all (\<lambda>c.
          list_ex (\<lambda>s. step_run_id s = sc_run_id c \<and> step_id s = sc_step_id c) (fl_steps f)
          \<and> list_ex (\<lambda>a. sa_run_id a = sc_run_id c \<and> sa_attempt_id a = sc_attempt_id c
                        \<and> sa_step_id a = sc_step_id c) (fl_attempts f)
          \<and> list_all (\<lambda>s. step_run_id s = sc_run_id c \<and> step_id s = sc_step_id c
                         \<longrightarrow> step_type s = sc_step_type c) (fl_steps f))
       (fl_checkpoints f)
     \<and> list_all (\<lambda>s. list_ex (\<lambda>r. rw_run_id r = step_run_id s) (fl_runs f)) (fl_steps f)
     \<and> list_all (\<lambda>k. list_ex (\<lambda>r. rw_run_id r = fst (fst k)) (fl_runs f)) (fl_payloads f)
     \<and> list_all (\<lambda>c. list_ex (\<lambda>p. fst p = (sc_run_id c, checkpoint_output_field (sc_step_id c))) (fl_payloads f))
         (fl_checkpoints f)"

definition validate_legacy_ownership :: "sql_file \<Rightarrow> exn + unit" where
  "validate_legacy_ownership f =
     bindE (require_columns [''step_id'', ''run_id'', ''step_type''] (column_names (fl_steps_info f))) (\<lambda>_.
     bindE (require_columns [''step_id'', ''run_id'', ''attempt_id''] (column_names (fl_attempts_info f))) (\<lambda>_.
     bindE (require_columns [''step_id'', ''run_id'', ''attempt_id'', ''step_type'']
              (column_names (fl_checkpoints_info f))) (\<lambda>_.
       if ownership_valid f then Inr () else Inl RunStoreIntegrityError)))"

text \<open>
  The rebuild of one table: rename, create with the new schema, copy in rowid order, drop.
  The rows are the same; what may fail is the comparison of the catalogs.
\<close>

definition rebuild_table :: "table_info \<Rightarrow> table_info \<Rightarrow> exn + table_info" where
  "rebuild_table schema i =
     (if ti_trigger i \<or> ti_index i then Inl RunStoreIntegrityError
      else if ti_hidden i then Inl RunStoreIntegrityError
      else if set (map fst (ti_columns schema)) \<noteq> set (map fst (ti_columns i))
      then Inl RunStoreIntegrityError
      else Inr schema)"

definition rebuild_if :: "bool \<Rightarrow> table_info \<Rightarrow> table_info \<Rightarrow> exn + table_info" where
  "rebuild_if legacy schema i = (if legacy then rebuild_table schema i else Inr i)"

definition migrate_run_scoped_identities :: "sql_file \<Rightarrow> exn + sql_file" where
  "migrate_run_scoped_identities f =
     (case (fl_steps_info f, fl_attempts_info f, fl_checkpoints_info f) of
        (Some si, Some ai, Some ci) \<Rightarrow>
          bindE (legacy_identity ''step_id'' si) (\<lambda>ls.
          bindE (legacy_identity ''attempt_id'' ai) (\<lambda>la.
          bindE (legacy_identity ''step_id'' ci) (\<lambda>lc.
            if \<not> (ls \<or> la \<or> lc) then Inr f
            else bindE (validate_legacy_ownership f) (\<lambda>_.
              bindE (rebuild_if ls STEPS_SCHEMA si) (\<lambda>si'.
              bindE (rebuild_if la ATTEMPTS_SCHEMA ai) (\<lambda>ai'.
              bindE (rebuild_if lc CHECKPOINTS_SCHEMA ci) (\<lambda>ci'.
                Inr (f\<lparr>fl_steps_info := Some si', fl_attempts_info := Some ai',
                       fl_checkpoints_info := Some ci'\<rparr>))))))))
      | _ \<Rightarrow> Inl RunStoreIntegrityError)"

text \<open>
  \<open>__init__\<close>: everything between \<open>BEGIN IMMEDIATE\<close> and the commit, or the exception after
  the rollback. The version test precedes the creation of the Step tables.
\<close>

definition open_store :: "sql_env \<Rightarrow> sql_file \<Rightarrow> exn + sql_file" where
  "open_store env f =
     (let f1 = create_tables f in
      if fl_user_version f1 \<noteq> 0 \<and> fl_user_version f1 \<noteq> SCHEMA_VERSION
      then Inl RunStoreIntegrityError
      else
        bindE (migrate env (create_step_tables f1)) (\<lambda>f2.
        bindE (migrate_run_scoped_identities f2) (\<lambda>f3.
          Inr (f3\<lparr>fl_user_version := SCHEMA_VERSION\<rparr>))))"

definition new_file :: sql_file where
  "new_file = \<lparr>fl_user_version = 0, fl_run_columns = None, fl_steps_info = None,
     fl_attempts_info = None, fl_checkpoints_info = None, fl_runs = [], fl_payloads = [],
     fl_steps = [], fl_attempts = [], fl_checkpoints = [], fl_policy = []\<rparr>"

section \<open>What an opened file looks like\<close>

text \<open>No content in metadata: no instructions, no diagnostics, only allow-listed codes.\<close>

fun metadata_cell :: "snapshot_json option \<Rightarrow> bool" where
  "metadata_cell (Some (Legacy_Json d)) = False"
| "metadata_cell (Some (Metadata_Json d)) \<longleftrightarrow> True"
| "metadata_cell None = True"

definition clean_attempt :: "stored_attempt \<Rightarrow> bool" where
  "clean_attempt a \<longleftrightarrow> sa_error a = None \<and> (\<forall>c \<in> set_option (sa_error_code a). recordable_code c)"

definition scoped :: "string \<Rightarrow> table_info option \<Rightarrow> bool" where
  "scoped ident_col i \<longleftrightarrow> (\<exists>x. i = Some x \<and> primary_key x = [''run_id'', ident_col])"

definition migrated :: "sql_file \<Rightarrow> bool" where
  "migrated f \<longleftrightarrow> fl_user_version f = SCHEMA_VERSION
     \<and> list_all (\<lambda>r. metadata_cell (rw_snapshot_json r)) (fl_runs f)
     \<and> list_all clean_attempt (fl_attempts f)
     \<and> scoped ''step_id'' (fl_steps_info f) \<and> scoped ''attempt_id'' (fl_attempts_info f)
     \<and> scoped ''step_id'' (fl_checkpoints_info f)
     \<and> (\<exists>cs. fl_run_columns f = Some cs
          \<and> {''run_id'', ''snapshot_json'', ''waiting_step_id'', ''error_code''} \<subseteq> set cs)
     \<and> ''error_code'' \<in> set (column_names (fl_steps_info f))
     \<and> {''attempt_id'', ''run_id'', ''error'', ''error_code'', ''model_purpose'', ''usage_json''}
          \<subseteq> set (column_names (fl_attempts_info f))"

lemma sort_key_pk:
  "primary_key STEPS_SCHEMA = [''run_id'', ''step_id'']"
  "primary_key ATTEMPTS_SCHEMA = [''run_id'', ''attempt_id'']"
  "primary_key CHECKPOINTS_SCHEMA = [''run_id'', ''step_id'']"
  by code_simp+

text \<open>Rows one at a time.\<close>

lemma migrate_run_row_ok:
  assumes "migrate_run_row env row = Inr (row', ws)"
  shows "metadata_cell (rw_snapshot_json row')" and "rw_run_id row' = rw_run_id row"
    and "row'\<lparr>rw_snapshot_json := rw_snapshot_json row\<rparr> = row"
  using assms
  by (auto simp: migrate_run_row_def bindE_eq_Inr snapshot_metadata_def snapshot_metadata_json_def
      split: option.splits snapshot_json.splits)

lemma migrate_run_row_clean: "metadata_cell (rw_snapshot_json row) \<Longrightarrow> migrate_run_row env row = Inr (row, [])"
  by (cases "rw_snapshot_json row" rule: metadata_cell.cases) (simp_all add: migrate_run_row_def)

lemma migrate_attempt_row_ok:
  assumes "migrate_attempt_row env a = Inr (a', ws)"
  shows "clean_attempt a'" and "attempt_key a' = attempt_key a"
    and "a'\<lparr>sa_error := sa_error a, sa_error_code := sa_error_code a\<rparr> = a"
  using assms
  by (auto simp: migrate_attempt_row_def bindE_eq_Inr clean_attempt_def attempt_key_def Let_def
      split: option.splits)

lemma sanitize_recordable: "recordable_code c \<Longrightarrow> sanitize_error_code c = c"
  by (auto simp: recordable_code_def sanitize_error_code_def)

lemma migrate_attempt_row_clean: "clean_attempt a \<Longrightarrow> migrate_attempt_row env a = Inr (a, [])"
  by (cases a; cases "sa_error_code a") (auto simp: migrate_attempt_row_def clean_attempt_def sanitize_recordable)

lemma mapE_list_all:
  assumes "mapE g xs = Inr ys" and "\<And>x y. g x = Inr y \<Longrightarrow> P y"
  shows "list_all P ys"
  using assms(1) by (induction xs arbitrary: ys) (auto simp: bindE_eq_Inr assms(2))

lemma mapE_unchanged: "(\<And>x. x \<in> set xs \<Longrightarrow> g x = Inr (x, [])) \<Longrightarrow> mapE g xs = Inr (map (\<lambda>x. (x, [])) xs)"
  by (rule mapE_all_ok)

text \<open>The catalog.\<close>

lemma add_column_names: "set (map fst (ti_columns (add_column col i))) = insert col (set (map fst (ti_columns i)))"
  by (auto simp: add_column_def)

lemma primary_key_add [simp]: "primary_key (add_column col i) = primary_key i"
proof -
  have "filter (\<lambda>c. snd c \<noteq> 0) (sort_key snd (xs @ [(col, 0)])) = filter (\<lambda>c. snd c \<noteq> 0) (sort_key snd xs)"
    for xs :: "(string \<times> nat) list"
    by (simp add: filter_sort)
  then show ?thesis by (simp add: primary_key_def add_column_def)
qed

lemma rebuild_if_ok:
  assumes "rebuild_if legacy schema i = Inr i'" and "legacy_identity col i = Inr legacy"
    and "primary_key schema = [''run_id'', col]" and "col \<noteq> ''run_id''"
  shows "primary_key i' = [''run_id'', col]" and "set (map fst (ti_columns i')) = set (map fst (ti_columns i))"
  using assms by (auto simp: rebuild_if_def rebuild_table_def legacy_identity_def split: if_splits)

lemma identities_ok:
  assumes "migrate_run_scoped_identities f = Inr f'"
  shows "scoped ''step_id'' (fl_steps_info f') \<and> scoped ''attempt_id'' (fl_attempts_info f')
     \<and> scoped ''step_id'' (fl_checkpoints_info f')"
    and "set (column_names (fl_steps_info f')) = set (column_names (fl_steps_info f))"
    and "set (column_names (fl_attempts_info f')) = set (column_names (fl_attempts_info f))"
    and "f'\<lparr>fl_steps_info := fl_steps_info f, fl_attempts_info := fl_attempts_info f,
           fl_checkpoints_info := fl_checkpoints_info f\<rparr> = f"
proof -
  obtain si ai ci where i: "fl_steps_info f = Some si" "fl_attempts_info f = Some ai"
    "fl_checkpoints_info f = Some ci"
    using assms by (auto simp: migrate_run_scoped_identities_def split: option.splits)
  obtain ls la lc where l: "legacy_identity ''step_id'' si = Inr ls" "legacy_identity ''attempt_id'' ai = Inr la"
    "legacy_identity ''step_id'' ci = Inr lc"
    using assms i by (auto simp: migrate_run_scoped_identities_def bindE_eq_Inr)
  have "\<exists>si' ai' ci'. rebuild_if ls STEPS_SCHEMA si = Inr si' \<and> rebuild_if la ATTEMPTS_SCHEMA ai = Inr ai'
      \<and> rebuild_if lc CHECKPOINTS_SCHEMA ci = Inr ci'
      \<and> f' = f\<lparr>fl_steps_info := Some si', fl_attempts_info := Some ai', fl_checkpoints_info := Some ci'\<rparr>"
  proof (cases "ls \<or> la \<or> lc")
    case True
    with assms show ?thesis by (auto simp: migrate_run_scoped_identities_def i l bindE_eq_Inr)
  next
    case False
    moreover have "f = f\<lparr>fl_steps_info := Some si, fl_attempts_info := Some ai, fl_checkpoints_info := Some ci\<rparr>"
      by (rule sql_file.equality) (simp_all add: i)
    ultimately show ?thesis
      using assms i by (simp add: migrate_run_scoped_identities_def l rebuild_if_def)
  qed
  then obtain si' ai' ci' where r: "rebuild_if ls STEPS_SCHEMA si = Inr si'"
      "rebuild_if la ATTEMPTS_SCHEMA ai = Inr ai'" "rebuild_if lc CHECKPOINTS_SCHEMA ci = Inr ci'"
    and f': "f' = f\<lparr>fl_steps_info := Some si', fl_attempts_info := Some ai', fl_checkpoints_info := Some ci'\<rparr>"
    by blast
  note ok = rebuild_if_ok [OF r(1) l(1) sort_key_pk(1)] rebuild_if_ok [OF r(2) l(2) sort_key_pk(2)]
    rebuild_if_ok [OF r(3) l(3) sort_key_pk(3)]
  show "scoped ''step_id'' (fl_steps_info f') \<and> scoped ''attempt_id'' (fl_attempts_info f')
     \<and> scoped ''step_id'' (fl_checkpoints_info f')"
    using ok by (simp add: f' scoped_def)
  show "set (column_names (fl_steps_info f')) = set (column_names (fl_steps_info f))"
    and "set (column_names (fl_attempts_info f')) = set (column_names (fl_attempts_info f))"
    using ok by (simp_all add: f' i column_names_def)
  show "f'\<lparr>fl_steps_info := fl_steps_info f, fl_attempts_info := fl_attempts_info f,
           fl_checkpoints_info := fl_checkpoints_info f\<rparr> = f"
    by (cases f) (simp add: f')
qed

lemma identities_scoped:
  assumes "scoped ''step_id'' (fl_steps_info f)" and "scoped ''attempt_id'' (fl_attempts_info f)"
    and "scoped ''step_id'' (fl_checkpoints_info f)"
  shows "migrate_run_scoped_identities f = Inr f"
  using assms by (auto simp: scoped_def migrate_run_scoped_identities_def legacy_identity_def)

section \<open>Opening is clean and idempotent\<close>

lemma migrate_ok:
  assumes "migrate env f = Inr f'"
  shows "list_all (\<lambda>r. metadata_cell (rw_snapshot_json r)) (fl_runs f')"
    and "list_all clean_attempt (fl_attempts f')"
    and "\<exists>cs. fl_run_columns f' = Some cs
       \<and> {''run_id'', ''snapshot_json'', ''waiting_step_id'', ''error_code''} \<subseteq> set cs"
    and "fl_steps_info f \<noteq> None \<Longrightarrow> ''error_code'' \<in> set (column_names (fl_steps_info f'))"
    and "{''attempt_id'', ''run_id'', ''error'', ''error_code'', ''model_purpose'', ''usage_json''}
       \<subseteq> set (column_names (fl_attempts_info f'))"
proof -
  let ?f = "add_columns f"
  obtain rs as where rs: "mapE (migrate_run_row env) (fl_runs ?f) = Inr rs"
    and as: "mapE (migrate_attempt_row env) (fl_attempts ?f) = Inr as"
    and rc: "require_columns [''run_id'', ''snapshot_json'']
        (case fl_run_columns ?f of None \<Rightarrow> [] | Some cs \<Rightarrow> cs) = Inr ()"
    and ac: "require_columns [''attempt_id'', ''run_id'', ''error'', ''error_code'']
        (column_names (fl_attempts_info ?f)) = Inr ()"
    and f': "f' = ?f\<lparr>fl_runs := map fst rs, fl_attempts := map fst as,
        fl_payloads := put_writes (concat (map snd as)) (put_writes (concat (map snd rs)) (fl_payloads ?f))\<rparr>"
    using assms by (auto simp: migrate_def Let_def bindE_eq_Inr)
  have "list_all (\<lambda>p. metadata_cell (rw_snapshot_json (fst p))) rs"
    by (rule mapE_list_all [OF rs]) (metis migrate_run_row_ok(1) prod.collapse)
  then show "list_all (\<lambda>r. metadata_cell (rw_snapshot_json r)) (fl_runs f')"
    by (simp add: f' list_all_iff)
  have "list_all (\<lambda>p. clean_attempt (fst p)) as"
    by (rule mapE_list_all [OF as]) (metis migrate_attempt_row_ok(1) prod.collapse)
  then show "list_all clean_attempt (fl_attempts f')" by (simp add: f' list_all_iff)
  show "\<exists>cs. fl_run_columns f' = Some cs
       \<and> {''run_id'', ''snapshot_json'', ''waiting_step_id'', ''error_code''} \<subseteq> set cs"
    using rc by (cases "fl_run_columns f")
      (auto simp: f' add_columns_def require_columns_def add_run_column_def split: if_splits)
  show "''error_code'' \<in> set (column_names (fl_steps_info f'))" if st: "fl_steps_info f \<noteq> None"
  proof -
    obtain i where "fl_steps_info f = Some i" using st by auto
    then show ?thesis using add_column_names [of "''error_code''" i]
      by (simp add: f' add_columns_def column_names_def del: set_map)
  qed
  show "{''attempt_id'', ''run_id'', ''error'', ''error_code'', ''model_purpose'', ''usage_json''}
       \<subseteq> set (column_names (fl_attempts_info f'))"
  proof (cases "fl_attempts_info f")
    case None
    with ac show ?thesis by (simp add: add_columns_def column_names_def require_columns_def)
  next
    case (Some i)
    let ?i = "add_column ''usage_json'' (add_column ''model_purpose'' i)"
    have "set (map fst (ti_columns ?i)) =
        insert ''usage_json'' (insert ''model_purpose'' (set (map fst (ti_columns i))))"
      by (simp only: add_column_names)
    moreover have "column_names (fl_attempts_info f') = map fst (ti_columns ?i)"
      "column_names (fl_attempts_info ?f) = map fst (ti_columns ?i)"
      by (simp_all add: f' add_columns_def column_names_def Some)
    ultimately show ?thesis using ac by (auto simp: require_columns_def split: if_splits)
  qed
qed

lemma open_store_migrated:
  assumes "open_store env f = Inr f'"
  shows "migrated f'"
proof -
  obtain f2 f3 where f2: "migrate env (create_step_tables (create_tables f)) = Inr f2"
    and f3: "migrate_run_scoped_identities f2 = Inr f3"
    and f': "f' = f3\<lparr>fl_user_version := SCHEMA_VERSION\<rparr>"
    using assms by (auto simp: open_store_def Let_def bindE_eq_Inr split: if_splits)
  have steps: "fl_steps_info (create_step_tables g) \<noteq> None" for g
    by (auto simp: create_step_tables_def Let_def split: option.splits)
  have data: "fl_runs f3 = fl_runs f2" "fl_attempts f3 = fl_attempts f2" "fl_run_columns f3 = fl_run_columns f2"
    using arg_cong [OF identities_ok(4) [OF f3], of fl_runs] arg_cong [OF identities_ok(4) [OF f3], of fl_attempts]
      arg_cong [OF identities_ok(4) [OF f3], of fl_run_columns] by simp_all
  show ?thesis
    unfolding migrated_def
    using migrate_ok [OF f2] identities_ok(1-3) [OF f3] steps by (simp add: f' data)
qed

lemma concat_nils: "concat (map (\<lambda>x. []) xs) = []"
  by (induction xs) simp_all

lemma migrated_unchanged:
  assumes "migrated f"
  shows "open_store env f = Inr f"
proof -
  have m: "fl_user_version f = SCHEMA_VERSION" "list_all (\<lambda>r. metadata_cell (rw_snapshot_json r)) (fl_runs f)"
    "list_all clean_attempt (fl_attempts f)"
    and sc: "scoped ''step_id'' (fl_steps_info f)" "scoped ''attempt_id'' (fl_attempts_info f)"
      "scoped ''step_id'' (fl_checkpoints_info f)"
    and se: "''error_code'' \<in> set (column_names (fl_steps_info f))"
    and ac: "{''attempt_id'', ''run_id'', ''error'', ''error_code'', ''model_purpose'', ''usage_json''}
       \<subseteq> set (column_names (fl_attempts_info f))"
    using assms by (simp_all add: migrated_def)
  obtain cs where cs: "fl_run_columns f = Some cs"
    "{''run_id'', ''snapshot_json'', ''waiting_step_id'', ''error_code''} \<subseteq> set cs"
    using assms by (auto simp: migrated_def)
  obtain si ai ci where i: "fl_steps_info f = Some si" "fl_attempts_info f = Some ai"
    "fl_checkpoints_info f = Some ci" using sc by (auto simp: scoped_def)
  have "create_step_tables (create_tables f) = f"
    by (simp add: create_tables_def create_step_tables_def cs i)
  moreover have "add_columns f = f"
    using cs se ac by (intro sql_file.equality)
      (simp_all add: add_columns_def add_run_column_def add_column_def i column_names_def image_iff)
  moreover have "mapE (migrate_run_row env) (fl_runs f) = Inr (map (\<lambda>r. (r, [])) (fl_runs f))"
    using m(2) by (intro mapE_unchanged migrate_run_row_clean) (simp add: list_all_iff)
  moreover have "mapE (migrate_attempt_row env) (fl_attempts f) = Inr (map (\<lambda>a. (a, [])) (fl_attempts f))"
    using m(3) by (intro mapE_unchanged migrate_attempt_row_clean) (simp add: list_all_iff)
  ultimately have "migrate env (create_step_tables (create_tables f)) = Inr f"
    using cs ac by (simp add: migrate_def require_columns_def put_writes_def comp_def concat_nils)
  with m(1) identities_scoped [OF sc] show ?thesis
    by (simp add: open_store_def Let_def create_tables_def cs)
qed

section \<open>Nothing is lost\<close>

lemma map_of_replace: "map_of (replace_row fst w rows) = (map_of rows)(fst w \<mapsto> snd w)"
proof
  fix k
  have "k \<noteq> fst w \<Longrightarrow> map_of (filter (\<lambda>y. fst y \<noteq> fst w) rows) k = map_of rows k"
    by (induction rows) auto
  moreover have "map_of (filter (\<lambda>y. fst y \<noteq> fst w) rows) (fst w) = None"
    by (auto simp: map_of_eq_None_iff)
  ultimately show "map_of (replace_row fst w rows) k = ((map_of rows)(fst w \<mapsto> snd w)) k"
    by (cases w) (auto simp: replace_row_def map_add_def split: option.splits)
qed

lemma put_writes_other: "k \<notin> fst ` set ws \<Longrightarrow> map_of (put_writes ws rows) k = map_of rows k"
  by (induction ws arbitrary: rows) (auto simp: put_writes_def map_of_replace)

lemma put_writes_some:
  "(k, b) \<in> set ws \<Longrightarrow> distinct (map fst ws) \<Longrightarrow> map_of (put_writes ws rows) k = Some b"
proof (induction ws arbitrary: rows)
  case (Cons w ws)
  show ?case
  proof (cases "w = (k, b)")
    case True
    then have "k \<notin> fst ` set ws" using Cons.prems(2) by simp
    with True show ?thesis
      using put_writes_other [of k ws "replace_row fst w rows"] by (simp add: put_writes_def map_of_replace)
  next
    case False
    with Cons.prems have "(k, b) \<in> set ws" "distinct (map fst ws)" by simp_all
    from Cons.IH [OF this] show ?thesis by (simp add: put_writes_def)
  qed
qed simp

lemma mapE_member:
  assumes "mapE g xs = Inr ys" and "x \<in> set xs"
  shows "\<exists>y \<in> set ys. g x = Inr y"
  using assms by (induction xs arbitrary: ys) (auto simp: bindE_eq_Inr)

lemma run_writes_keys:
  assumes "mapE (migrate_run_row env) rows = Inr rs" and "distinct (map rw_run_id rows)"
  shows "distinct (map fst (concat (map snd rs)))
     \<and> fst ` set (concat (map snd rs)) \<subseteq> (\<lambda>r. (rw_run_id r, FIELD_RUN_SNAPSHOT)) ` set rows"
  using assms
proof (induction rows arbitrary: rs)
  case (Cons row rows)
  then obtain p ps where p: "migrate_run_row env row = Inr p" "mapE (migrate_run_row env) rows = Inr ps" "rs = p # ps"
    by (auto simp: bindE_eq_Inr)
  have "snd p = [] \<or> (\<exists>b. snd p = [((rw_run_id row, FIELD_RUN_SNAPSHOT), b)])"
    using p(1) by (auto simp: migrate_run_row_def bindE_eq_Inr split: option.splits snapshot_json.splits)
  moreover have "(rw_run_id row, FIELD_RUN_SNAPSHOT) \<notin> (\<lambda>r. (rw_run_id r, FIELD_RUN_SNAPSHOT)) ` set rows"
    using Cons.prems(2) by auto
  moreover have "distinct (map fst (concat (map snd ps)))"
    "fst ` set (concat (map snd ps)) \<subseteq> (\<lambda>r. (rw_run_id r, FIELD_RUN_SNAPSHOT)) ` set rows"
    using Cons.IH [OF p(2)] Cons.prems(2) by simp_all
  ultimately show ?case by (elim disjE exE) (simp_all add: p(3) subset_iff del: set_concat, blast+)
qed simp

lemma attempt_writes_keys:
  assumes "mapE (migrate_attempt_row env) atts = Inr as" and "k \<in> fst ` set (concat (map snd as))"
  shows "\<exists>a. snd k = attempt_error_field a"
proof -
  have "list_all (\<lambda>p. \<forall>w \<in> set (snd p). \<exists>a. snd (fst w) = attempt_error_field a) as"
    by (rule mapE_list_all [OF assms(1)])
      (auto simp: migrate_attempt_row_def Let_def bindE_eq_Inr split: option.splits)
  with assms(2) show ?thesis by (fastforce simp: list_all_iff)
qed

text \<open>
  The snapshot of a legacy row is in the payload table afterwards, and the row keeps its
  place, its columns and the metadata of that snapshot.
\<close>

lemma legacy_snapshot_kept:
  assumes op: "open_store env f = Inr f'" and ex: "fl_run_columns f \<noteq> None"
    and row: "row \<in> set (fl_runs f)" "rw_snapshot_json row = Some (Legacy_Json d)"
    and dist: "distinct (map rw_run_id (fl_runs f))"
    and val: "sq_model_validate env d = Inr d" and codec: "codec_ok (sq_env env)"
  shows "\<exists>b. map_of (fl_payloads f') (rw_run_id row, FIELD_RUN_SNAPSHOT) = Some b
     \<and> env_decode (sq_env env) b = Inr (env_dump_snapshot (sq_env env) d)
     \<and> row\<lparr>rw_snapshot_json := Some (Metadata_Json (d\<lparr>snap_instructions := []\<rparr>))\<rparr> \<in> set (fl_runs f')"
proof -
  let ?f = "add_columns (create_step_tables (create_tables f))"
  have runs: "fl_runs ?f = fl_runs f"
    using ex by (auto simp: add_columns_def create_step_tables_def create_tables_def Let_def split: option.splits)
  obtain f2 f3 where f2: "migrate env (create_step_tables (create_tables f)) = Inr f2"
    and f3: "migrate_run_scoped_identities f2 = Inr f3" and f': "f' = f3\<lparr>fl_user_version := SCHEMA_VERSION\<rparr>"
    using op by (auto simp: open_store_def Let_def bindE_eq_Inr split: if_splits)
  obtain rs as where rs: "mapE (migrate_run_row env) (fl_runs f) = Inr rs"
    and as: "mapE (migrate_attempt_row env) (fl_attempts ?f) = Inr as"
    and f2': "f2 = ?f\<lparr>fl_runs := map fst rs, fl_attempts := map fst as,
        fl_payloads := put_writes (concat (map snd as)) (put_writes (concat (map snd rs)) (fl_payloads ?f))\<rparr>"
    using f2 runs by (auto simp: migrate_def Let_def bindE_eq_Inr)
  have data: "fl_runs f' = map fst rs"
    "fl_payloads f' = put_writes (concat (map snd as)) (put_writes (concat (map snd rs)) (fl_payloads ?f))"
    using arg_cong [OF identities_ok(4) [OF f3], of fl_runs] arg_cong [OF identities_ok(4) [OF f3], of fl_payloads]
    by (simp_all add: f' f2')
  obtain y where y: "y \<in> set rs" "migrate_run_row env row = Inr y" using mapE_member [OF rs row(1)] by blast
  then obtain b where b: "env_encode (sq_env env) (env_dump_snapshot (sq_env env) d) = Inr b"
    "y = (row\<lparr>rw_snapshot_json := Some (Metadata_Json (d\<lparr>snap_instructions := []\<rparr>))\<rparr>,
          [((rw_run_id row, FIELD_RUN_SNAPSHOT), b)])"
    using row(2) val by (auto simp: migrate_run_row_def bindE_eq_Inr snapshot_metadata_json_def snapshot_metadata_def)
  let ?k = "(rw_run_id row, FIELD_RUN_SNAPSHOT)"
  have "(?k, b) \<in> set (concat (map snd rs))" using y(1) b(2) by force
  then have "map_of (put_writes (concat (map snd rs)) (fl_payloads ?f)) ?k = Some b"
    using run_writes_keys [OF rs dist] by (intro put_writes_some) simp_all
  moreover have "?k \<notin> fst ` set (concat (map snd as))"
    using attempt_writes_keys [OF as, of ?k] by (auto simp: field_defs)
  ultimately have "map_of (fl_payloads f') ?k = Some b" by (simp add: data put_writes_other)
  moreover have "fst y \<in> set (fl_runs f')" using y(1) by (simp add: data)
  ultimately show ?thesis using b codec_decode [OF codec b(1)] by auto
qed

end
