(* ===== verification/Sqlite_Examples.thy ===== *)
theory Sqlite_Examples
  imports Examples Sqlite_Lease Sqlite_Migration
begin

text \<open>
  The example store of \<open>Examples\<close> in SQLite, an attempt whose usage cannot be read back,
  and a database file written by an earlier version.
\<close>

definition demo_sql_env :: sql_env where
  "demo_sql_env = \<lparr>sq_env = demo_env, sq_model_validate = Inr\<rparr>"

lemma demo_sql_env_simps [simp]:
  "sq_env demo_sql_env = demo_env" "sq_model_validate demo_sql_env d = Inr d"
  by (simp_all add: demo_sql_env_def)

definition demo_conn :: sql_conn where
  "demo_conn = sql_execs demo_sql_env demo_cmds (open_conn empty_tables)"

definition demo_tables :: sql_tables where
  "demo_tables = cn_committed demo_conn"

lemma demo_portable: "portable_all demo_sql_env empty_store demo_cmds"
  by (simp add: demo_cmds_def snapshot_readable_def metadata_readable_def snapshot_metadata_def lease_pair_ok_def)
    (simp add: demo_run_def)

lemma demo_agrees: "agrees demo_sql_env demo_conn demo_store"
  using sql_execs_agree [OF agrees_empty demo_portable] by (simp add: demo_conn_def demo_store_def)

lemma demo_conn_open: "demo_conn = open_conn demo_tables" "cn_pending demo_conn = None"
  using conn_eq [OF agrees_idle [OF demo_agrees]] agrees_idle [OF demo_agrees] by (simp_all add: demo_tables_def)

lemma demo_row_lease: "row_lease demo_tables ''r1'' = Some (''A'', 10)"
proof -
  have "sql_get_lease ''r1'' (open_conn demo_tables) = get_lease ''r1'' demo_store"
    using lease_readers_agree(1) [OF demo_agrees, of "''r1''"] demo_conn_open by simp
  with demo_lease show ?thesis by (auto simp: row_lease_def stored_lease_def)
qed

definition demo_stored_run :: stored_run where
  "demo_stored_run = (run_metadata (demo_run ''r1''))\<lparr>sr_lease_owner := Some ''A'', sr_lease_expires_at := Some 10\<rparr>"

lemma demo_sql_row:
  obtains row where "tb_runs (cn_committed demo_conn) ''r1'' = Some row" and "stands_for demo_sql_env row demo_stored_run"
    and "run_from_row demo_sql_env row = Inr demo_stored_run" and "rw_version row = 0"
    and "lease_condition 5 (Some ''A'') row"
proof -
  have g: "guarded 5 demo_store ''r1'' 0 (Some ''A'') = Inr demo_stored_run"
    using demo_guarded [of 5] by (simp add: demo_stored_run_def)
  from demo_agrees obtain row where row: "fetch_run demo_conn ''r1'' = Some row"
    "stands_for demo_sql_env row demo_stored_run"
    by (cases rule: agrees_run [where rid = "''r1''"]) (auto simp: demo_stored demo_stored_run_def)
  from that [of row] row stands_for_reads [OF row(2)] stands_for_cols [OF row(2)] g lease_condition_iff [OF row(2)]
  show thesis by (auto simp: fetch_run_def demo_conn_open(2) guarded_ok)
qed

lemma demo_matches: "run_matches 5 ''r1'' 0 (Some ''A'') demo_conn"
  using run_matches_guarded [OF demo_agrees] demo_guarded [of 5] by fastforce

lemma demo_sql_started:
  "\<exists>r c'. sql_transition_run demo_sql_env 5 5 ''r1'' 0 (demo_move RUNNING (Some ''A'')) id demo_conn = (Inr r, c')"
proof -
  have "portable demo_sql_env demo_store (Transition 5 5 ''r1'' 0 (demo_move RUNNING (Some ''A'')))"
    by (simp add: transition_args_ok_def snapshot_ok_def encodable_def snapshot_readable_def metadata_readable_def
        snapshot_metadata_def)
  moreover have "fst (exec_cmd demo_env (Transition 5 5 ''r1'' 0 (demo_move RUNNING (Some ''A''))) demo_store) = None"
    using demo_started by (metis fst_conv)
  ultimately have "fst (sql_exec demo_sql_env (Transition 5 5 ''r1'' 0 (demo_move RUNNING (Some ''A''))) demo_conn) = None"
    using sql_exec_agrees [OF demo_agrees] by (metis demo_sql_env_simps(1))
  then show ?thesis by (simp add: fst_outcome_of) (metis prod.collapse)
qed

section \<open>A usage that does not validate twice\<close>

definition demo_count_usage :: "usage_provenance option \<Rightarrow> model_usage" where
  "demo_count_usage p = \<lparr>u_input_tokens = Some 3, u_output_tokens = None, u_cached_input_tokens = None,
     u_reasoning_tokens = None, u_input_provenance = p, u_output_provenance = map_option (\<lambda>_. UNAVAILABLE) p,
     u_cached_input_provenance = map_option (\<lambda>_. UNAVAILABLE) p,
     u_reasoning_provenance = map_option (\<lambda>_. UNAVAILABLE) p, u_raw_unit = None,
     u_normalization_source = None, u_provenance = UNAVAILABLE\<rparr>"

definition demo_usage_attempt :: step_attempt where
  "demo_usage_attempt = \<lparr>attempt_id = ''a1'', attempt_step_id = ''s1'', attempt_run_id = ''r1'',
     attempt_status = STEP_FAILED, attempt_output = None, attempt_error = None,
     attempt_classification = Some PERMANENT, attempt_error_code = None,
     attempt_model_purpose = Some PRIMARY, attempt_usage = Some (demo_count_usage (Some UNAVAILABLE)),
     attempt_created_at = 5\<rparr>"

lemma demo_usage_validates:
  "validate_usage (demo_count_usage None) = Inr (demo_count_usage (Some UNAVAILABLE))"
  by code_simp

lemma demo_attempt_recorded:
  "\<exists>r c'. sql_record_attempt demo_sql_env 5 demo_usage_attempt 0 (Some ''A'') demo_conn = (Inr r, c')"
  using demo_matches
  by (simp add: sql_record_attempt_def split_attempt_def demo_usage_attempt_def encode_optional_def append_entries_def
      attempt_metadata_def guarded_insert_def and_then_def)

section \<open>A database of an earlier version\<close>

definition demo_legacy_row :: run_row where
  "demo_legacy_row = (run_row_of (run_metadata (demo_run ''r1'')))\<lparr>rw_snapshot_json := Some (Legacy_Json demo_snapshot)\<rparr>"

definition demo_legacy_attempt :: stored_attempt where
  "demo_legacy_attempt = (attempt_metadata demo_usage_attempt)\<lparr>sa_error := Some (ustr ''token abc rejected''),
     sa_error_code := Some ''abc'', sa_usage := None\<rparr>"

definition demo_legacy_file :: sql_file where
  "demo_legacy_file = \<lparr>fl_user_version = 0,
     fl_run_columns = Some (filter (\<lambda>c. c \<noteq> ''waiting_step_id'' \<and> c \<noteq> ''error_code'') RUN_COLUMNS),
     fl_steps_info = Some (plain_table [(''step_id'', 1), (''run_id'', 0), (''step_type'', 0), (''status'', 0),
       (''created_at'', 0)]),
     fl_attempts_info = Some (plain_table [(''attempt_id'', 1), (''step_id'', 0), (''run_id'', 0), (''status'', 0),
       (''error'', 0), (''classification'', 0), (''error_code'', 0), (''created_at'', 0)]),
     fl_checkpoints_info = Some (plain_table [(''step_id'', 1), (''run_id'', 0), (''attempt_id'', 0),
       (''step_type'', 0), (''created_at'', 0)]),
     fl_runs = [demo_legacy_row],
     fl_payloads = [((''r1'', FIELD_RUN_INPUT), [])],
     fl_steps = [\<lparr>step_id = ''s1'', step_run_id = ''r1'', step_type = STEP_MODEL, step_status = STEP_FAILED,
       step_error_code = None, step_created_at = 1\<rparr>],
     fl_attempts = [demo_legacy_attempt], fl_checkpoints = [], fl_policy = []\<rparr>"

lemma demo_legacy_opens: "\<exists>f. open_store demo_sql_env demo_legacy_file = Inr f"
proof -
  have "\<not> isl (open_store demo_sql_env demo_legacy_file)" by code_simp
  then show ?thesis by (cases "open_store demo_sql_env demo_legacy_file") simp_all
qed

end
