(* ===== verification/Spec2Isabelle.thy ===== *)
theory Spec2Isabelle
  imports Agent_Definition Compression Context_Plan Eval_Data Eval_Engine Eval_Evidence Eval_Examples Eval_Execute Eval_Projection Eval_Report Eval_Store Examples Failure Json Lease_Protocol Model_Contract Model_Exchange Output_Contract Payload_Codec Prelude Provider_Schema Router Router_Laws Routing_Data Routing_Flow Routing_Store Run_Data Run_Policy Run_Status Run_Store Runner_Context Runner_Effects Runner_Examples Runner_Fuel Runner_Gates Runner_Laws Runner_Logic Runner_Loop Runner_Model Runner_Ops Runner_Output Runner_Rules Runner_State Runner_Steps Session_Examples Session_Ports Session_Runner Session_Store Sqlite_Eval Sqlite_Examples Sqlite_Laws Sqlite_Lease Sqlite_Migration Sqlite_Session Sqlite_Store Store_Laws Tools
begin

text \<open>
  A verification development for M-Agent, a Python library for durable agent Runs
  (\<open>src/src/m_agent\<close>). An application registers Agent Definitions, creates Runs and lets
  workers (\<open>_runner.py\<close>) drive them through Steps; everything authoritative about a Run
  lives in a Run Store that several workers share. Three companions sit on top: the Routing
  Companion chooses a complete Agent Variant from a catalog on recorded evidence, the
  Session Companion keeps conversations whose turns are Runs, and the Eval Companion runs suites of
  cases against Variants in isolated stores and reports, compares and recommends.

  \<^bold>\<open>Representation.\<close> \<open>Prelude\<close> fixes it: identifiers are strings, texts are lists of code points,
  bytes are lists of numbers below 256, instants and durations are integers, an exception is a
  value of \<open>exn\<close> and a fallible function returns \<open>exn + 'a\<close>. An operation that changes state
  returns its result or exception \<^emph>\<open>and\<close> the state it leaves, so what a raise leaves behind is
  visible. The coroutines of the in-memory stores contain no \<open>await\<close>, so a call is one atomic
  step, and concurrency between workers is an arbitrary sequence of calls. Code outside the
  repository (payload codecs of an application, JSON and SHA-256 digests of Pydantic models,
  clocks) is a parameter; what is relied on is stated as a hypothesis by name (\<open>codec_ok\<close>,
  \<open>snapshot_ok\<close>, \<open>history_ok\<close>, \<open>payloads_ok\<close>).

  \<^bold>\<open>Theories and sources.\<close>
  \<^item> \<open>Run_Status\<close>: \<open>_status.py\<close>, the life cycle as a table and as a step relation.
  \<^item> \<open>Failure\<close>: \<open>_failure.py\<close>; \<open>Json\<close>, \<open>Output_Contract\<close>: \<open>_output.py\<close> with Python's
    equality on JSON values, and conformance to a schema as an inductive relation.
  \<^item> \<open>Provider_Schema\<close>: the strict JSON Schema check of the live adapters, from \<open>provider/_base.py\<close>.
  \<^item> \<open>Model_Contract\<close>: the contract half of \<open>_model.py\<close>; \<open>Tools\<close>: \<open>_tools.py\<close>;
    \<open>Run_Policy\<close>: \<open>_policy.py\<close>; \<open>Context_Plan\<close>: \<open>_context_plan.py\<close>, \<open>_context.py\<close>,
    \<open>_history.py\<close>; \<open>Compression\<close>: \<open>_compression.py\<close>.
  \<^item> \<open>Run_Data\<close>: \<open>_steps.py\<close>, \<open>_run.py\<close>, \<open>_resolution.py\<close>, and the snapshot and retry
    policy of \<open>_definition.py\<close>.
  \<^item> \<open>Payload_Codec\<close>: \<open>_codec.py\<close> with strict UTF-8 written out; the codec interface is the
    locale \<open>payload_codec\<close>.
  \<^item> \<open>Run_Store\<close>: \<open>_store.py\<close> and every operation of \<open>adapters/_in_memory_store.py\<close>.
    \<open>Store_Laws\<close> has what each operation checks, keeps and changes, and the invariant of
    reachable stores; \<open>Lease_Protocol\<close> states the contract workers rely on as the locale
    \<open>lease_store\<close>, derives fencing and absence of lost updates from it alone, and interprets
    it on the in-memory store.
  \<^item> \<open>Model_Exchange\<close>: the request and response half of \<open>_model.py\<close>; \<open>Agent_Definition\<close>:
    \<open>_definition.py\<close> with adapters, tools and providers, and the registry.
  \<^item> \<open>Runner_State\<close>, \<open>Runner_Gates\<close>, \<open>Runner_Steps\<close>, \<open>Runner_Model\<close>, \<open>Runner_Context\<close>,
    \<open>Runner_Loop\<close>, \<open>Runner_Ops\<close>: \<open>_runner.py\<close>, from its helpers to its entry points. A coroutine
    is a state transformer that ends with a value or a fault; \<open>suspend\<close> marks the points at
    which other workers may run.
  \<^item> \<open>Runner_Logic\<close>, \<open>Runner_Rules\<close>, \<open>Runner_Laws\<close>: triples over an arbitrary step relation
    (locale \<open>runner_steps\<close>, extended by external calls to \<open>runner_dispatch\<close>), proved once for
    every coroutine and interpreted twice: \<open>driving\<close> says that the Runner speaks the protocol
    and that its calls are evidenced, \<open>quietly\<close> that a coroutine makes no call.
    \<open>Runner_Effects\<close> counts calls, \<open>Runner_Output\<close> describes results, \<open>Runner_Fuel\<close> is about
    termination.
  \<^item> \<open>Routing_Data\<close>, \<open>Router\<close>, \<open>Routing_Flow\<close>, \<open>Routing_Store\<close>: \<open>companion/routing\<close>
    (\<open>_policy.py\<close>, \<open>_catalog.py\<close>, \<open>_evidence.py\<close>, \<open>_cost.py\<close>; \<open>_router.py\<close>; \<open>_fallback.py\<close>,
    \<open>_publish.py\<close>; \<open>_store.py\<close>). \<open>Router_Laws\<close> gives the declarative reading of a selection.
    Both routing stores interpret the locale \<open>decision_store\<close>.
  \<^item> \<open>Sqlite_Store\<close>: every operation of \<open>adapters/_sqlite_store.py\<close>. A connection is the committed
    tables and its own uncommitted ones; what other connections commit between two statements is
    an argument. \<open>Sqlite_Migration\<close>: opening a file, with every migration. \<open>Sqlite_Laws\<close>: the
    simulation by the in-memory store, call by call, and where the two differ. \<open>Sqlite_Lease\<close>: the
    second interpretation of \<open>lease_store\<close>. \<open>Sqlite_Examples\<close>: concrete files.
  \<^item> \<open>Session_Store\<close>: \<open>companion/_session.py\<close> and \<open>companion/_in_memory_session_store.py\<close>; the
    locale \<open>session_contract\<close> is what a session runner relies on.
  \<^item> \<open>Sqlite_Session\<close>: \<open>companion/_sqlite_session_store.py\<close> and its simulation by the store in memory.
    \<open>Session_Runner\<close>: \<open>companion/_session_runner.py\<close>, over the Runner and a record of the store's
    operations; before each of its store calls other clients may act. \<open>Session_Ports\<close>: the locale
    \<open>port_simulation\<close> is what two session stores have to agree on for the runner not to see a
    difference, interpreted on SQLite and memory. \<open>Session_Examples\<close>: a submission evaluated.
  \<^item> \<open>Eval_Data\<close>, \<open>Eval_Evidence\<close>, \<open>Eval_Projection\<close>, \<open>Eval_Report\<close>: the values of \<open>companion/eval\<close>
    (\<open>_case.py\<close>, \<open>_identity.py\<close>; \<open>_evidence.py\<close>, \<open>_observation.py\<close>, \<open>_observe.py\<close>; \<open>_projection.py\<close>,
    \<open>_evaluator.py\<close>; \<open>_report.py\<close>, \<open>_baseline.py\<close>, \<open>_recommendation.py\<close>). \<open>Eval_Store\<close>: \<open>_store.py\<close>, with
    the locale \<open>fact_store\<close> for append-only stores; \<open>Sqlite_Eval\<close>: \<open>_sqlite_store.py\<close> and its refinement.
    \<open>Eval_Execute\<close>: \<open>_execute.py\<close>, over the Runner, an optional session store and the eval store;
    \<open>Eval_Engine\<close>: \<open>_judge.py\<close> and \<open>_engine.py\<close>. \<open>Eval_Examples\<close>: a suite that is run.
  \<^item> \<open>Examples\<close>, \<open>Runner_Examples\<close>: the concrete values at which the properties are exercised.

  \<^bold>\<open>What is shown.\<close> For the Runner: effects in doubt are not repeated, neither by retries nor by
  recovery, every external call stands behind recorded evidence, Steps make boundedly many
  calls, successful Runs have acceptable outputs, cancellation calls nobody, and operations
  end unless the model is called for ever. For the Run Store: fencing by leases, no lost updates, legal histories,
  round trips, soundness of every reachable store, execution budgets, and
  what a failing call leaves behind. For the values: exact behaviour of requirement matching
  and merging, of the output validator and the strict check of the live adapters, which agree where
  they can be compared except on arrays, of frame assembly, budget checks and compression. For
  routing: the selection is the unique best admissible candidate, hard gates fail closed,
  stored decisions are immutable and the two stores agree except where the code differs. For
  sessions: a claim guarantees its commit, histories are append-only, and a submission leaves its
  session with one more turn, free, or claimed by a waiting Run, over either store. For SQLite:
  agreement with the in-memory store on portable histories, fencing across connections,
  migrations that clean, lose nothing and are idempotent, and what codec failures leave behind.
  For evaluation: a suite that was run can be run again without executing anything, work outside the
  fixtures is refused before it starts, evaluators see only what they need and may have, reports and
  comparisons say exactly what was recorded, judges cannot pass a subject by accident, and the two
  stores agree.

  \<^bold>\<open>Bounds.\<close> Python integers are unbounded and are \<open>int\<close> here. Monetary amounts are rationals
  rounded to 28 significant digits half-even where the source's \<open>Decimal\<close> rounds. The paging
  loop of a client has as fuel one page per stored turn plus one, which is shown to suffice.
  The model decides when the loop of a Run ends, so \<open>agent_loop\<close> has fuel; running out of it is
  the fault \<open>Unfinished\<close>, which no handler catches. An operation with fuel \<open>n\<close> that makes fewer
  than \<open>n\<close> external calls does not run out, and more fuel does not change what it does. The strict schema
  check follows references, so its fuel is the depth of calls Python allows and running out is
  \<open>RecursionError\<close>: a schema without \<open>$ref\<close> needs no more than its size, and more changes nothing.

  \<^bold>\<open>Not modelled.\<close> Waiting for SQLite's file lock is not modelled: a statement finds the lock free.
  Scores of evaluators are finite floats and stand for the rationals they denote; the rounding of sums and
  quotients is a parameter (\<open>float_arith\<close>), and scores that are not numbers or infinite are left out. Of the Runner, telemetry, the crash hook of the
  tests and the queue of \<open>subscribe_run\<close> are left out; \<open>rs_updates\<close> is what the queue would
  deliver. Of the provider adapters only the schema check is modelled. Their HTTP side, deterministic test doubles, the synchronous facade, testing
  packs, examples and benchmarks are I/O, tooling or re-exports. Exception messages are not
  kept.
\<close>

section \<open>The Runner\<close>



text \<open>C2. Whatever an entry point of the Runner does, and however its calls interleave with other
  workers, the store only sees calls of the lease protocol: the Runner's own name its Run and
  its owner id, and every call to a model, tool or context provider stands behind evidence in
  the store, a recorded attempt and, for tools and context, a recorded ALLOW of the policy.\<close>

theorem runner_speaks_protocol:
  assumes "ids_ok (rs_store s)" and "exec_op fuel env op s = (r, t)"
  shows "\<exists>cs calls. list_all (protocol_cmd env (op_run op)) cs
     \<and> rs_store t = exec_cmds (re_store env) cs (rs_store s)
     \<and> rs_effects t = rs_effects s @ calls \<and> list_all (evidenced env (rs_store t)) calls"
  using exec_op_drives [OF assms(1), of env op fuel] assms(2)
  by (auto simp: drives_def store_evolves_def)

theorem runner_speaks_protocol_witness:
  "\<exists>t cs calls. snd (exec_op 3 (demo_runner (demo_agent paid)) (Start_Run ''r1'') (demo_held (demo_agent paid))) = t
     \<and> list_all (protocol_cmd (demo_runner (demo_agent paid)) ''r1'') cs
     \<and> rs_store t = exec_cmds (re_store (demo_runner (demo_agent paid))) cs (rs_store (demo_held (demo_agent paid)))
     \<and> rs_effects t = rs_effects (demo_held (demo_agent paid)) @ calls
     \<and> list_all (evidenced (demo_runner (demo_agent paid)) (rs_store t)) calls"
proof -
  obtain r t where e: "exec_op 3 (demo_runner (demo_agent paid)) (Start_Run ''r1'') (demo_held (demo_agent paid)) = (r, t)"
    by fastforce
  from runner_speaks_protocol [OF demo_held_ids e] e show ?thesis by auto
qed



text \<open>C4. A Run ends SUCCEEDED only with an output its frozen contract accepts: whether the Run is
  executed from the start or resumed after an interruption, and whatever repairs were needed,
  the output that is read back satisfies the validator.\<close>

theorem succeeded_output_accepted:
  assumes "codec_ok (re_store env)" and "run_status_of run = RUNNING"
    and "Option.bind (run_snapshot run) snap_output_contract = Some contract"
    and "m = execute_steps fuel env run d lease \<or> m = resume_running fuel env run lease"
    and "m s = (Inr r, t)" and "run_status_of r = SUCCEEDED"
  shows "\<exists>x err. run_output r = Some x \<and> validate_output (re_loads env) contract x = Inr (True, err)"
proof (rule accepted_output [where m = m and run = run])
  show "gives m (accepted env run)"
    using assms(4) gives_execute_steps [OF assms(1,2)] gives_resume_running [OF assms(1,2)] by auto
qed (use assms(3,5,6) in simp_all)

theorem succeeded_output_accepted_witness:
  "\<exists>r t x err. resume_running 1 demo_resumer demo_contracted demo_held_lease demo_interrupted = (Inr r, t)
     \<and> run_status_of r = SUCCEEDED \<and> run_output r = Some x
     \<and> validate_output (re_loads demo_resumer) demo_output_contract x = Inr (True, err)"
proof -
  obtain r t where r: "resume_running 1 demo_resumer demo_contracted demo_held_lease demo_interrupted = (Inr r, t)"
    "run_status_of r = SUCCEEDED"
    by (rule demo_resumed)
  from succeeded_output_accepted [where m = "resume_running 1 demo_resumer demo_contracted demo_held_lease",
      OF demo_plain_codec demo_contracted_simps disjI2 [OF refl] r] r
  show ?thesis by blast
qed

text \<open>C5. The fuel of the model is no restriction: an operation that makes fewer external calls than
  its fuel returns or raises an exception of the program, and any larger fuel gives the same
  result in the same state. The loop can only go on for ever by calling the model for ever.\<close>

theorem runner_terminates:
  assumes "env_total env" and "exec_op fuel env op s = (r, t)"
    and "length (rs_effects t) < length (rs_effects s) + fuel" and "fuel \<le> fuel'"
  shows "exec_op fuel' env op s = (r, t) \<and> r \<noteq> Inl Unfinished"
  using assms by (rule exec_op_fuel)

theorem runner_terminates_witness:
  "exec_op 7 (demo_runner (demo_agent paid)) (Start_Run ''r9'') demo_begin =
     exec_op 1 (demo_runner (demo_agent paid)) (Start_Run ''r9'') demo_begin"
proof -
  have "exec_op 1 (demo_runner (demo_agent paid)) (Start_Run ''r9'') demo_begin = (Inl (Exn RunNotFoundError), demo_begin)"
    by (simp add: start_run_def get_existing_run_def store_get_def bindR_def getR_def liftE_def retR_def raiseR_def
        get_run_def demo_begin_def empty_store_def)
  then show ?thesis using runner_terminates [OF demo_total, of 1 "Start_Run ''r9''" demo_begin _ _ 7] by simp
qed

text \<open>C6. Cancelling calls nobody: \<open>cancel_run\<close> makes no external call, and when it returns the Run
  is CANCELLED or the request is noted for the worker that is driving it.\<close>

theorem cancel_run_safe:
  assumes "ids_ok (rs_store s)" and "cancel_run fuel env rid expected s = (r, t)"
  shows "rs_effects t = rs_effects s
     \<and> (\<forall>x. r = Inr x \<longrightarrow> run_status_of x = CANCELLED \<or> rid \<in> rs_cancel t)"
  using cancel_run_quiet [OF assms(1), of fuel env rid expected] cancel_run_outcome [of fuel env rid expected s _ t]
    assms by auto

theorem cancel_run_safe_witness:
  "rs_effects (snd (cancel_run 1 (demo_runner (demo_agent paid)) ''r1'' None (demo_held (demo_agent paid)))) =
     rs_effects (demo_held (demo_agent paid))"
  using cancel_run_safe [OF demo_held_ids, where fuel = 1 and env = "demo_runner (demo_agent paid)"
      and rid = "''r1''" and expected = None]
  by (cases "cancel_run 1 (demo_runner (demo_agent paid)) ''r1'' None (demo_held (demo_agent paid))") simp

section \<open>The run store\<close>

text \<open>C7. Fencing. While worker \<open>B\<close> holds the lease of a Run until \<open>t\<close> and nobody acts in
  \<open>B\<close>'s name, no sequence of calls by other workers, takeover attempts before \<open>t\<close> included,
  lets a mutation that another owner \<open>A\<close> guards with its own lease succeed.\<close>

theorem lease_fencing:
  assumes "stored_lease s rid = Some (B, t)" and "list_all (foreign_cmd B t rid) cs"
    and "cmd_run d = rid" and "mutation_owner d = Some A" and "A \<noteq> B"
  shows "\<exists>e. fst (exec_cmd env d (exec_cmds env cs s)) = Some e"
  using assms by (rule fenced_cmd)

theorem lease_fencing_witness:
  "\<exists>e. fst (exec_cmd demo_env (Transition 5 5 ''r1'' 0 (demo_move RUNNING (Some ''B'')))
     (exec_cmds demo_env [Acquire 4 ''r1'' ''B'' 10 0] demo_store)) = Some e"
  by (rule lease_fencing [OF demo_lease, where A = "''B''"]) simp_all

text \<open>C8. No lost update. After a transition computed from version \<open>v\<close> took effect, every later
  mutation of that Run computed from \<open>v\<close> is refused, whatever calls come in between.\<close>

theorem lost_update_free:
  assumes "exec_cmd env (Transition now utc rid v args) s = (None, s1)"
    and "cmd_run d = rid" and "mutation_version d = Some v"
  shows "\<exists>e. fst (exec_cmd env d (exec_cmds env cs s1)) = Some e"
  using assms by (rule no_lost_update_cmd)

theorem lost_update_free_witness:
  "\<exists>s1. exec_cmd demo_env (Transition 5 5 ''r1'' 0 (demo_move RUNNING (Some ''A''))) demo_store = (None, s1)
     \<and> (\<exists>e. fst (exec_cmd demo_env (Transition 6 6 ''r1'' 0 (demo_move CANCELLED None))
          (exec_cmds demo_env [Release ''r1'' ''A'' 1] s1)) = Some e)"
proof -
  obtain s1 where "exec_cmd demo_env (Transition 5 5 ''r1'' 0 (demo_move RUNNING (Some ''A''))) demo_store = (None, s1)"
    using demo_started by auto
  with lost_update_free [OF this, of "Transition 6 6 ''r1'' 0 (demo_move CANCELLED None)" "[Release ''r1'' ''A'' 1]"]
  show ?thesis by auto
qed





text \<open>C11. A codec failure is the exception to that rule: \<open>transition_run\<close> writes the
  metadata before it encodes the output, so when encoding raises the Run has already
  moved to the new status and version although the caller sees an exception.\<close>

theorem transition_encode_failure_mutates:
  assumes "guarded now s rid v (to_lease_owner args) = Inr cur"
    and "to_status args \<in> set (ALLOWED_TRANSITIONS (sr_status cur))"
    and "to_output args = Some t" and "env_encode env t = Inl e"
  shows "\<exists>s'. transition_run env now utc rid v args s = (Inl e, s')
     \<and> runs s' rid = Some (transitioned utc args cur) \<and> runs s' rid \<noteq> runs s rid"
proof -
  have "runs s rid = Some cur" using assms(1) by (simp add: guarded_ok)
  moreover have "sr_version (transitioned utc args cur) \<noteq> sr_version cur" by (simp add: transitioned_def)
  ultimately show ?thesis using transition_encode_failure [OF assms] by auto
qed

theorem transition_encode_failure_mutates_witness:
  "\<exists>s'. transition_run demo_env 5 5 ''r1'' 0 ((demo_move FAILED (Some ''A''))\<lparr>to_output := Some [0xD800]\<rparr>) demo_store
       = (Inl UnicodeEncodeError, s')
     \<and> map_option sr_status (runs s' ''r1'') = Some FAILED"
proof -
  let ?args = "(demo_move FAILED (Some ''A''))\<lparr>to_output := Some [0xD800]\<rparr>"
  have e: "env_encode demo_env [0xD800] = Inl UnicodeEncodeError"
    by (simp add: plaintext_encode_def utf8_char_def is_surrogate_def)
  have "guarded 5 demo_store ''r1'' 0 (to_lease_owner ?args) = Inr
      ((run_metadata (demo_run ''r1''))\<lparr>sr_lease_owner := Some ''A'', sr_lease_expires_at := Some 10\<rparr>)"
    using demo_guarded [of 5] by simp
  from transition_encode_failure_mutates [OF this _ _ e, of 5] show ?thesis
    by (auto simp: transitioned_def)
qed

text \<open>C12. Execution budget. A granted model attempt is recorded exactly once and keeps the Run
  within the run-wide and the per-purpose attempt limits; a refused one records nothing.\<close>

theorem reservation_within_budget:
  assumes "reserve_model_attempt env now st a m1 m2 v owner s = (Inr granted, s')"
  shows "if granted then
       (\<exists>p. attempt_model_purpose a = Some p
          \<and> entries (attempts s') (attempt_run_id a) = entries (attempts s) (attempt_run_id a) @ [attempt_metadata a]
          \<and> (\<forall>n. m1 = Some n \<longrightarrow> int (length (model_attempts (entries (attempts s') (attempt_run_id a)))) \<le> n)
          \<and> (\<forall>n. m2 = Some n \<longrightarrow> int (length (purpose_attempts p (entries (attempts s') (attempt_run_id a)))) \<le> n))
     else entries (attempts s') = entries (attempts s) \<and> steps s' = steps s"
  using assms reserve_granted reserve_refused(1,2) by (cases granted) auto

theorem reservation_within_budget_witness:
  "\<exists>s'. reserve_model_attempt demo_env 5 (demo_step ''s1'') (demo_attempt ''a1'') (Some 1) None 0 ''A'' demo_store
       = (Inr True, s')
     \<and> int (length (model_attempts (entries (attempts s') ''r1''))) \<le> 1"
proof -
  obtain s' where s': "reserve_model_attempt demo_env 5 (demo_step ''s1'') (demo_attempt ''a1'') (Some 1) None 0
      ''A'' demo_store = (Inr True, s')" using demo_reserved by blast
  from reservation_within_budget [OF s'] s' show ?thesis by (auto simp: demo_attempt_def)
qed

section \<open>The SQLite run store\<close>

text \<open>C13. The SQLite store implements the in-memory one. After any history of portable calls (\<open>portable\<close>: the conditions under which the stores do not differ) on
  a new database, the two stores return the same Run, lease, checkpoints and policy decisions
  and the same Steps up to their order, and the next portable call returns in one exactly
  when it returns in the other.\<close>

theorem sqlite_store_agrees:
  assumes "portable_all env empty_store xs"
    and "c = sql_execs env xs (open_conn empty_tables)" and "s = exec_cmds (sq_env env) xs empty_store"
  shows "sql_get_run env rid c = get_run (sq_env env) rid s
     \<and> sql_get_lease rid c = get_lease rid s
     \<and> sql_get_checkpoints env rid c = get_checkpoints (sq_env env) rid s
     \<and> sql_get_policy_decisions rid c = get_policy_decisions rid s
     \<and> mset (sql_get_steps rid c) = mset (get_steps rid s)
     \<and> (portable env s x \<longrightarrow> (fst (sql_exec env x c) = None \<longleftrightarrow> fst (exec_cmd (sq_env env) x s) = None))"
proof -
  have a: "agrees env c s" using sql_execs_agree [OF agrees_empty assms(1)] assms(2,3) by simp
  show ?thesis
    using get_run_agrees [OF a] lease_readers_agree(1) [OF a] get_checkpoints_agrees [OF a]
      get_policy_agrees [OF a] get_steps_agrees [OF a] sql_exec_agrees [OF a] by simp
qed

theorem sqlite_store_agrees_witness:
  "sql_get_run demo_sql_env ''r1'' demo_conn = get_run demo_env ''r1'' demo_store
     \<and> sql_get_lease ''r1'' demo_conn = get_lease ''r1'' demo_store"
  using sqlite_store_agrees [OF demo_portable refl refl, of "''r1''"]
  by (simp add: demo_conn_def demo_store_def)



text \<open>C15. Whatever other connections commit between the statements of a transition, a
  transition that returns found the expected version and its owner's unexpired lease when it
  wrote, and the row it committed keeps the lease it found there.\<close>

theorem sqlite_transition_atomic:
  assumes "sql_transition_run env now utc rid v args others c = (Inr r, c')" and "cn_pending c = None"
  shows "\<exists>row row'. tb_runs (others (cn_committed c)) rid = Some row \<and> rw_version row = v
     \<and> lease_condition now (to_lease_owner args) row
     \<and> tb_runs (cn_committed c') rid = Some row' \<and> rw_version row' = v + 1 \<and> rw_status row' = to_status args
     \<and> rw_lease_owner row' = rw_lease_owner row \<and> rw_lease_expires_at row' = rw_lease_expires_at row
     \<and> cn_pending c' = None"
proof -
  obtain row row0 cur where row: "tb_runs (others (cn_committed c)) rid = Some row" "rw_version row = v"
      "lease_condition now (to_lease_owner args) row"
    and cur: "tb_runs (cn_committed c) rid = Some row0" "run_from_row env row0 = Inr cur"
    and c': "tb_runs (cn_committed c') rid = Some (updated_row (transitioned utc args cur) row)" "cn_pending c' = None"
    using transition_fenced [OF assms] by blast
  have "sr_version cur = v"
    using assms cur by (auto simp: sql_transition_run_def fetch_run_def split: if_splits)
  with row c' show ?thesis by (auto simp: updated_row_def run_row_of_def transitioned_def)
qed

theorem sqlite_transition_atomic_witness:
  "\<exists>row'. tb_runs (cn_committed (snd (sql_transition_run demo_sql_env 5 5 ''r1'' 0 (demo_move RUNNING (Some ''A''))
        id demo_conn))) ''r1'' = Some row' \<and> rw_version row' = 1 \<and> rw_status row' = RUNNING"
proof -
  obtain r c' where t: "sql_transition_run demo_sql_env 5 5 ''r1'' 0 (demo_move RUNNING (Some ''A'')) id demo_conn = (Inr r, c')"
    using demo_sql_started by blast
  from sqlite_transition_atomic [OF t demo_conn_open(2)] t show ?thesis by (auto simp: demo_move_def)
qed

text \<open>C16. A codec failure inside a transition is not rolled back: the caller sees the
  exception and the file is unchanged, but the connection keeps the transition open, and the
  next operation that commits on it, here the recording of a Step at the new version,
  publishes the Run in its new status.\<close>

theorem sqlite_transition_left_pending:
  assumes "cn_pending c = None" and "tb_runs (cn_committed c) rid = Some row"
    and "run_from_row env row = Inr cur" and "rw_version row = v"
    and "lease_condition now (to_lease_owner args) row"
    and "to_status args \<in> set (ALLOWED_TRANSITIONS (sr_status cur))"
    and "to_output args = Some t" and "env_encode (sq_env env) t = Inl e" and "step_run_id st = rid"
  shows "\<exists>c' c''. sql_transition_run env now utc rid v args id c = (Inl e, c')
     \<and> cn_committed c' = cn_committed c
     \<and> sql_record_step env now' st (v + 1) None c' = (Inr st, c'')
     \<and> tb_runs (cn_committed c'') rid = Some (updated_row (transitioned utc args cur) row)"
  using assms by (rule failed_encoding_pending) blast

theorem sqlite_transition_left_pending_witness:
  "\<exists>c' c'' row. sql_transition_run demo_sql_env 5 5 ''r1'' 0 ((demo_move FAILED (Some ''A''))\<lparr>to_output := Some [0xD800]\<rparr>)
        id demo_conn = (Inl UnicodeEncodeError, c')
     \<and> sql_record_step demo_sql_env 6 \<lparr>step_id = ''s1'', step_run_id = ''r1'', step_type = STEP_MODEL,
          step_status = STEP_RUNNING, step_error_code = None, step_created_at = 6\<rparr> 1 None c' = (Inr
          \<lparr>step_id = ''s1'', step_run_id = ''r1'', step_type = STEP_MODEL, step_status = STEP_RUNNING,
           step_error_code = None, step_created_at = 6\<rparr>, c'')
     \<and> tb_runs (cn_committed c'') ''r1'' = Some row \<and> rw_status row = FAILED"
proof -
  let ?args = "(demo_move FAILED (Some ''A''))\<lparr>to_output := Some [0xD800]\<rparr>"
  obtain row where row: "tb_runs (cn_committed demo_conn) ''r1'' = Some row"
    "run_from_row demo_sql_env row = Inr demo_stored_run" "rw_version row = 0" "lease_condition 5 (Some ''A'') row"
    by (rule demo_sql_row)
  have "env_encode (sq_env demo_sql_env) [0xD800] = Inl UnicodeEncodeError"
    by (simp add: plaintext_encode_def utf8_char_def is_surrogate_def)
  from sqlite_transition_left_pending [OF demo_conn_open(2) row(1-3) _ _ _ this, of 5 ?args
      "\<lparr>step_id = ''s1'', step_run_id = ''r1'', step_type = STEP_MODEL, step_status = STEP_RUNNING,
        step_error_code = None, step_created_at = 6\<rparr>" 5 6] row(4)
  show ?thesis by (auto simp: demo_stored_run_def updated_row_def run_row_of_def transitioned_def)
qed

text \<open>C17. A usage report that its validator accepted, but with a count whose provenance is
  inherited from an UNAVAILABLE summary, is rejected when the database is read: after such an
  attempt has been recorded, \<open>get_attempts\<close> raises for the whole Run.\<close>

theorem sqlite_usage_unreadable:
  assumes "validate_usage x = Inr y" and "usage_value x f \<noteq> None" and "usage_source x f = None"
    and "u_provenance x = UNAVAILABLE" and "attempt_usage a = Some y"
    and "run_matches now (attempt_run_id a) v ow c"
    and "sql_record_attempt env now a v ow c = (Inr r, c')"
  shows "\<exists>e. sql_get_attempts env (attempt_run_id a) c' = Inl e"
proof -
  obtain e where "validate_usage y = Inl e" using revalidation_raises [OF assms(1-4)] by blast
  from unreadable_usage [OF assms(7,6,5) this] show ?thesis .
qed

theorem sqlite_usage_unreadable_witness:
  "\<exists>e. sql_get_attempts demo_sql_env ''r1''
     (snd (sql_record_attempt demo_sql_env 5 demo_usage_attempt 0 (Some ''A'') demo_conn)) = Inl e"
proof -
  obtain r c' where rec: "sql_record_attempt demo_sql_env 5 demo_usage_attempt 0 (Some ''A'') demo_conn = (Inr r, c')"
    using demo_attempt_recorded by blast
  have "usage_value (demo_count_usage None) U_Input \<noteq> None" "usage_source (demo_count_usage None) U_Input = None"
    "u_provenance (demo_count_usage None) = UNAVAILABLE"
    by (simp_all add: demo_count_usage_def)
  from sqlite_usage_unreadable [OF demo_usage_validates this _ _ rec] demo_matches rec
  show ?thesis by (auto simp: demo_usage_attempt_def)
qed



text \<open>C19. The migration loses no snapshot: the full snapshot of a row written by an earlier
  version is afterwards the decoded payload of its Run, and the row keeps every other column
  and the metadata of that snapshot.\<close>

theorem migration_keeps_snapshot:
  assumes "open_store env f = Inr f'" and "fl_run_columns f \<noteq> None"
    and "row \<in> set (fl_runs f)" and "rw_snapshot_json row = Some (Legacy_Json d)"
    and "distinct (map rw_run_id (fl_runs f))"
    and "sq_model_validate env d = Inr d" and "codec_ok (sq_env env)"
  shows "\<exists>b. map_of (fl_payloads f') (rw_run_id row, FIELD_RUN_SNAPSHOT) = Some b
     \<and> env_decode (sq_env env) b = Inr (env_dump_snapshot (sq_env env) d)
     \<and> row\<lparr>rw_snapshot_json := Some (Metadata_Json (d\<lparr>snap_instructions := []\<rparr>))\<rparr> \<in> set (fl_runs f')"
  using assms by (rule legacy_snapshot_kept)

theorem migration_keeps_snapshot_witness:
  "\<exists>f' b. open_store demo_sql_env demo_legacy_file = Inr f'
     \<and> map_of (fl_payloads f') (''r1'', FIELD_RUN_SNAPSHOT) = Some b
     \<and> plaintext_decode b = Inr (snap_instructions demo_snapshot)"
proof -
  obtain f' where f': "open_store demo_sql_env demo_legacy_file = Inr f'" using demo_legacy_opens by blast
  have row: "rw_run_id demo_legacy_row = ''r1''"
    by (simp add: demo_legacy_row_def run_row_of_def run_metadata_def)
  from migration_keeps_snapshot [OF f', of demo_legacy_row demo_snapshot] f' demo_codec row show ?thesis
    by (auto simp: demo_legacy_file_def demo_legacy_row_def)
qed

section \<open>Model requirements and bindings\<close>

section \<open>Failures\<close>

text \<open>C20. What is recorded of an adapter exception depends only on its declared
  classification, its code if whitelisted, and its type name: two exceptions that differ
  in messages or in unknown codes are indistinguishable, the code is always recordable,
  and anything undeclared is PERMANENT.\<close>

theorem failure_classification_safe:
  "(visible_part e1 = visible_part e2 \<longrightarrow> classify_exception e1 = classify_exception e2)
     \<and> recordable_code (fst (snd (classify_exception e1)))
     \<and> fst (classify_exception (Bare n t)) = PERMANENT"
proof (intro conjI impI)
  show "visible_part e1 = visible_part e2 \<Longrightarrow> classify_exception e1 = classify_exception e2"
    by (rule classify_noninterference)
  obtain cls code msg where "classify_exception e1 = (cls, code, msg)" by (cases "classify_exception e1")
  then show "recordable_code (fst (snd (classify_exception e1)))" using classify_code_recordable by simp
qed (rule classify_bare_permanent)

theorem failure_classification_safe_witness:
  "classify_exception (StepFailure TRANSIENT ''secret-1'' ''token=1'') =
     classify_exception (StepFailure TRANSIENT ''secret-2'' ''token=2'')"
  using failure_classification_safe [of "StepFailure TRANSIENT ''secret-1'' ''token=1''"
      "StepFailure TRANSIENT ''secret-2'' ''token=2''" "''E''" "''t''"]
  by (simp add: sanitize_error_code_def SAFE_ERROR_CODES_def DEFAULT_FAILURE_CODE_def)

section \<open>Structured output\<close>

text \<open>C21. On a well-formed schema the output validator terminates without an exception and
  accepts exactly the values that conform to the schema; text that is not JSON is
  rejected.\<close>

theorem output_validator_decides:
  assumes "wf_schema (oc_schema contract)"
  shows "(loads output = None \<longrightarrow> validate_output loads contract output = Inr (False, Some OUTPUT_NOT_VALID_JSON))
     \<and> (\<forall>v. loads output = Some v \<longrightarrow>
          (\<exists>err. validate_output loads contract output = Inr (conforms (oc_schema contract) v, err)))"
proof -
  have "\<exists>err. validate_output loads contract output = Inr (conforms (oc_schema contract) v, err)"
    if "loads output = Some v" for v
  proof -
    obtain r where "validate_schema (oc_schema contract) v [] = Inr r" "r = None \<longleftrightarrow> conforms (oc_schema contract) v"
      using validate_schema_decides [OF assms, of v "[]"] by auto
    then show ?thesis using that by (simp add: validate_output_def)
  qed
  then show ?thesis by (simp add: validate_output_def)
qed

theorem output_validator_decides_witness:
  "\<exists>err. validate_output (\<lambda>_. Some (JInt 3)) demo_output_contract [] =
     Inr (conforms (oc_schema demo_output_contract) (JInt 3), err)"
  using output_validator_decides [OF demo_schema_wf, of "\<lambda>_. Some (JInt 3)" "[]"] by simp



text \<open>C23. On a schema that uses only keywords the output contract interprets, the strict
  check of the live adapters returns within a depth of calls bounded by the size of the schema; on values without
  arrays it accepts exactly what the validator of the output contract accepts, what it accepts that validator accepts
  too, and it rejects every array.\<close>

theorem strict_check_matches_contract:
  assumes "plain_schema s" and "json_wf (JObj s)" and "json_wf v" and "size (JObj s) < n"
  shows "(\<exists>b. matches_json_schema env n whole v (JObj s) = Inr b)
     \<and> (array_free v \<longrightarrow> matches_json_schema env n whole v (JObj s) = Inr (validate_schema s v [] = Inr None))
     \<and> (matches_json_schema env n whole v (JObj s) = Inr True \<longrightarrow> validate_schema s v [] = Inr None)
     \<and> matches_json_schema env n whole (JArr vs) (JObj s) = Inr False"
  using strict_check_agrees [OF assms] strict_total [OF assms(1,4)] by blast

theorem strict_check_matches_contract_witness:
  "matches_json_schema demo_schema_env 100 (JObj demo_plain_schema) (JObj [(ustr ''name'', JStr (ustr ''x''))]) (JObj demo_plain_schema)
     = Inr (validate_schema demo_plain_schema (JObj [(ustr ''name'', JStr (ustr ''x''))]) [] = Inr None)
   \<and> matches_json_schema demo_schema_env 100 (JObj demo_plain_schema) (JArr []) (JObj demo_plain_schema) = Inr False"
proof -
  have "size (JObj demo_plain_schema) < 100" by (simp add: demo_plain_schema_def ustr_def)
  from strict_check_matches_contract [OF demo_plain(1,2) _ this, of "JObj [(ustr ''name'', JStr (ustr ''x''))]"]
  show ?thesis by simp
qed

section \<open>Context\<close>

text \<open>C24. The frame check compares the sized input with the input share of the budget, and
  the default budget of a model contract always leaves room for input and reserves no
  more output than the model can produce. The flag \<open>within_budget\<close> of the returned
  sizing, however, is always true.\<close>

theorem frame_budget_check:
  assumes "1 \<le> context_window_tokens l" and "0 \<le> max_output_tokens l"
  shows "\<exists>b. from_model_limits l None = Inr b \<and> 1 \<le> input_token_limit b
     \<and> budget_reserved_output_tokens b \<le> max_output_tokens l
     \<and> (sz_total_tokens (check_frame_budget dump_tool f b sizer) \<le> total_token_limit b \<longleftrightarrow>
          sz_input_tokens (size_frame dump_tool sizer f) \<le> input_token_limit b)
     \<and> within_budget (check_frame_budget dump_tool f b sizer)"
  using from_model_limits_valid [OF assms]
  by (auto simp: within_budget_def check_frame_budget_def input_token_limit_def Let_def)

theorem frame_budget_check_witness:
  "\<exists>b. from_model_limits (limits demo_contract) None = Inr b
     \<and> sz_total_tokens (check_frame_budget (\<lambda>_. []) demo_frame b \<lparr>sizer_id = ''x'', sizer_mode = EXACT\<rparr>)
         > total_token_limit b
     \<and> within_budget (check_frame_budget (\<lambda>_. []) demo_frame b \<lparr>sizer_id = ''x'', sizer_mode = EXACT\<rparr>)"
  using frame_budget_check [of "limits demo_contract" "\<lambda>_. []" demo_frame "\<lparr>sizer_id = ''x'', sizer_mode = EXACT\<rparr>"]
  by (auto simp: demo_contract_def demo_frame_def from_model_limits_def validate_budget_def check_frame_budget_def
      size_frame_def estimate_text_def Let_def)

section \<open>Resolutions\<close>

text \<open>C25. A validated binding set answers for every purpose, with a binding of that purpose,
  and a reused purpose carries the PRIMARY contract and requirements.\<close>

theorem binding_set_complete:
  assumes "validate_complete_bindings bs = Inr bs'"
  shows "\<exists>b. for_purpose bs p = Inr b \<and> b \<in> set bs \<and> purpose b = p
     \<and> (source_purpose b = Some PRIMARY \<longrightarrow>
          (\<exists>q. for_purpose bs PRIMARY = Inr q \<and> binding_contract b = binding_contract q
             \<and> binding_requirements b = binding_requirements q))"
proof -
  obtain b where b: "for_purpose bs p = Inr b" "b \<in> set bs" "purpose b = p"
    using for_purpose_validated(2) [OF assms] by blast
  obtain q where "for_purpose bs PRIMARY = Inr q" using for_purpose_validated(2) [OF assms] by blast
  with b assms show ?thesis by (auto simp: validate_complete_bindings_def list_ex_iff split: if_splits)
qed

theorem binding_set_complete_witness:
  "\<exists>b. for_purpose demo_bindings OUTPUT_REPAIR = Inr b \<and> purpose b = OUTPUT_REPAIR"
  using binding_set_complete [OF demo_bindings_valid, of OUTPUT_REPAIR] by auto

section \<open>Routing\<close>

text \<open>C26. The router selects the best admissible candidate: the chosen Variant comes from the
  catalog, passes scope, requirements, deployment, retention and every hard gate, and no
  other admissible candidate is preferred by the policy's objectives in order with the
  stable identity as the last criterion; the choice is unique. A result carries a decision
  exactly when its outcome is SELECTED.\<close>

theorem router_selects_best:
  assumes "select d catalog p (Some evidence) as_of = Inr r"
  shows "(rr_decision r \<noteq> None \<longleftrightarrow> rr_outcome r = SELECTED)
     \<and> (\<forall>rd. rr_decision r = Some rd \<longrightarrow>
          (\<exists>e \<in> set (catalog_entries catalog). selected_variant rd = entry_variant e
             \<and> compat_ok p evidence as_of e \<and> gates_ok d p evidence as_of (entry_variant e)
             \<and> (\<forall>e' \<in> set (admissible d catalog p evidence as_of).
                  preferred d p evidence as_of e e' < 0 \<or> entry_identity e' = entry_identity e)))"
proof (intro conjI allI impI)
  fix rd
  assume rd: "rr_decision r = Some rd"
  then have sel: "rr_outcome r = SELECTED" using select_decision_iff [OF assms] by simp
  obtain e where e: "e \<in> set (admissible d catalog p evidence as_of)" "selected_variant rd = entry_variant e"
    and least: "\<forall>e' \<in> set (admissible d catalog p evidence as_of). preferred d p evidence as_of e e' \<le> 0"
    using selected_is_least [OF assms rd sel] by blast
  have "preferred d p evidence as_of e e' < 0 \<or> entry_identity e' = entry_identity e"
    if "e' \<in> set (admissible d catalog p evidence as_of)" for e'
    using least that preferred_zero [of d p evidence as_of e e'] by fastforce
  then show "\<exists>e \<in> set (catalog_entries catalog). selected_variant rd = entry_variant e
      \<and> compat_ok p evidence as_of e \<and> gates_ok d p evidence as_of (entry_variant e)
      \<and> (\<forall>e' \<in> set (admissible d catalog p evidence as_of).
           preferred d p evidence as_of e e' < 0 \<or> entry_identity e' = entry_identity e)"
    using e canonical_entries_set [of catalog] unfolding admissible_def by (intro bexI [of _ e]) auto
qed (rule select_decision_iff [OF assms])

theorem router_selects_best_witness:
  "\<exists>r rd. select demo_digests (demo_catalog [''x'', ''y'']) (demo_policy (Some 5))
        (Some (demo_evidence [(''x'', 3), (''y'', 2)])) 1 = Inr r
     \<and> rr_decision r = Some rd \<and> variant_id (selected_variant rd) = ''y''
     \<and> gates_ok demo_digests (demo_policy (Some 5)) (demo_evidence [(''x'', 3), (''y'', 2)]) 1 (selected_variant rd)"
proof -
  obtain r rd where r: "select demo_digests (demo_catalog [''x'', ''y'']) (demo_policy (Some 5))
      (Some (demo_evidence [(''x'', 3), (''y'', 2)])) 1 = Inr r"
    and rd: "rr_decision r = Some rd" "variant_id (selected_variant rd) = ''y''" by (rule demo_selected)
  from router_selects_best [OF r] r rd show ?thesis by auto
qed



text \<open>C28. The decision id is derived from Variant, policy, catalog and evidence but not
  from the evaluation time: two selections of one Variant from the same inputs at
  different times share their id even when their traces differ, and then the second one
  cannot be stored.\<close>

theorem decision_id_ignores_time:
  assumes "select d catalog p (Some evidence) t1 = Inr r1" and "rr_decision r1 = Some rd1"
    and "select d catalog p (Some evidence) t2 = Inr r2" and "rr_decision r2 = Some rd2"
    and "selected_variant rd1 = selected_variant rd2"
  shows "decision_id rd1 = decision_id rd2
     \<and> (rd1 \<noteq> rd2 \<longrightarrow> payloads_ok pl \<longrightarrow>
          fst (memory_save_decision d pl rd2 evidence (snd (memory_save_decision d pl rd1 evidence memory_init)))
            = Inl RoutingDecisionConflictError)"
proof -
  have ids: "decision_id rd1 = decision_id rd2"
    using select_decision_fields(1) [OF assms(1,2)] select_decision_fields(1) [OF assms(3,4)] assms(5) by simp
  then show ?thesis
    using select_decision_fields(2) [OF assms(1,2)] select_decision_fields(2) [OF assms(3,4)]
    by (auto simp: memory_save_decision_def verify_pair_def memory_init_def payloads_ok_inj)
qed

theorem decision_id_ignores_time_witness:
  "\<exists>r1 r2 rd1 rd2.
     select demo_digests (demo_catalog [''x'']) (demo_policy None) (Some (demo_evidence [(''x'', 3)])) 1 = Inr r1
     \<and> rr_decision r1 = Some rd1
     \<and> select demo_digests (demo_catalog [''x'']) (demo_policy None) (Some (demo_evidence [(''x'', 3)])) 20 = Inr r2
     \<and> rr_decision r2 = Some rd2 \<and> rd1 \<noteq> rd2 \<and> decision_id rd1 = decision_id rd2"
proof -
  obtain r1 r2 rd1 rd2 where r: "select demo_digests (demo_catalog [''x'']) (demo_policy None)
      (Some (demo_evidence [(''x'', 3)])) 1 = Inr r1" "rr_decision r1 = Some rd1"
    "select demo_digests (demo_catalog [''x'']) (demo_policy None) (Some (demo_evidence [(''x'', 3)])) 20 = Inr r2"
    "rr_decision r2 = Some rd2" "selected_variant rd1 = selected_variant rd2"
    and "rd_candidate_evaluations rd1 \<noteq> rd_candidate_evaluations rd2" by (rule demo_two_times)
  with decision_id_ignores_time [OF r, of demo_payloads_id] show ?thesis by auto
qed



section \<open>Sessions\<close>

text \<open>C30. A claim guarantees its commit. After \<open>claim_run\<close> succeeded at version \<open>v\<close>, and
  whatever other callers do in the meantime, the claiming Run's \<open>commit_turn\<close> at \<open>v\<close> is
  accepted, appends its turn directly after the history that was claimed, advances the
  version by one and ends the claim.\<close>

theorem claimed_commit_succeeds:
  assumes "sessions_inv s" and "exec_session (ClaimRun now now' k rid v) s = (Inr (ClaimReply cl), s1)"
    and "\<forall>c \<in> set cs. ends_claim_of c \<noteq> Some (k, rid)"
    and "turn_run_id t = rid" and "turn_session_id t = snd k"
  shows "\<exists>ts s3. session_view_of s k = Some (ts, None)
     \<and> exec_session (CommitTurn now'' k t v) (run_all exec_session cs s1) =
         (Inr (CommitReply \<lparr>commit_status = COMMITTED, committed_turn = Some t, commit_version = v + 1\<rparr>), s3)
     \<and> session_view_of s3 k = Some (ts @ [t], None)"
  using assms by (rule memory_sessions.claim_then_commit)

theorem claimed_commit_succeeds_witness:
  "\<exists>cl s1 s3. exec_session (ClaimRun 1 1 (''t'', ''s'') ''r1'' 0) demo_sessions = (Inr (ClaimReply cl), s1)
     \<and> exec_session (CommitTurn 3 (''t'', ''s'') (demo_turn ''r1'') 0)
         (run_all exec_session [ClaimRun 2 2 (''t'', ''s'') ''r2'' 0, ReleaseClaim 2 (''t'', ''s'') ''r2''] s1) =
         (Inr (CommitReply \<lparr>commit_status = COMMITTED, committed_turn = Some (demo_turn ''r1''), commit_version = 1\<rparr>), s3)"
proof -
  obtain cl s1 where c: "exec_session (ClaimRun 1 1 (''t'', ''s'') ''r1'' 0) demo_sessions = (Inr (ClaimReply cl), s1)"
    by (rule demo_claimed)
  from claimed_commit_succeeds [OF demo_sessions_inv c,
      of "[ClaimRun 2 2 (''t'', ''s'') ''r2'' 0, ReleaseClaim 2 (''t'', ''s'') ''r2'']" "demo_turn ''r1''" 3] c
  show ?thesis by (auto simp: demo_turn_def)
qed

text \<open>C31. Histories are append-only and free of duplicates: under every sequence of calls a
  session's turns only grow at the end, carry distinct Run ids, and their number is the
  version; a commit repeated for a Run that already has a turn answers with that turn and
  changes nothing.\<close>

theorem session_history_sound:
  assumes "sessions_inv s" and "s k = Some x"
  shows "\<exists>y us. run_all exec_session cs s k = Some y \<and> ss_turns y = ss_turns x @ us
     \<and> distinct (map turn_run_id (ss_turns y)) \<and> ss_version y = int (length (ss_turns y))
     \<and> (\<forall>t \<in> set (ss_turns y). \<forall>t'. turn_run_id t' = turn_run_id t \<longrightarrow> turn_session_id t' = snd k \<longrightarrow>
          exec_session (CommitTurn now k t' v) (run_all exec_session cs s) =
            (Inr (CommitReply \<lparr>commit_status = COMMITTED, committed_turn = Some t, commit_version = ss_version y\<rparr>),
             run_all exec_session cs s))"
proof -
  have inv: "sessions_inv (run_all exec_session cs s)" by (rule memory_sessions.run_all_keeps [OF assms(1)])
  have "session_view_of s k = Some (ss_turns x, ss_claim x)" using assms(2) by (simp add: session_view_of_def)
  then obtain us cl where v: "session_view_of (run_all exec_session cs s) k = Some (ss_turns x @ us, cl)"
    using memory_sessions.history_append_only by blast
  then obtain y where y: "run_all exec_session cs s k = Some y" "ss_turns y = ss_turns x @ us"
    by (auto simp: session_view_of_def)
  have ok: "session_ok k y" by (rule sessions_invD [OF inv y(1)])
  then show ?thesis using y memory_sessions.recommits [OF inv v] by (auto simp: session_ok_def)
qed

theorem session_history_sound_witness:
  "\<exists>y. run_all exec_session [ClaimRun 1 1 (''t'', ''s'') ''r1'' 0, CommitTurn 2 (''t'', ''s'') (demo_turn ''r1'') 0]
        demo_sessions (''t'', ''s'') = Some y
     \<and> distinct (map turn_run_id (ss_turns y)) \<and> ss_version y = int (length (ss_turns y))"
  using session_history_sound [OF demo_sessions_inv demo_session, where
      cs = "[ClaimRun 1 1 (''t'', ''s'') ''r1'' 0, CommitTurn 2 (''t'', ''s'') (demo_turn ''r1'') 0]"]
  by blast


text \<open>C32. One message, one Run, one turn. When \<open>submit\<close> returns, the session it found has gained
  exactly one turn, that of the Run, and is free again if the Run SUCCEEDED; is unchanged and free
  if the Run ended otherwise; and is unchanged and still claimed by the Run if it waits. This holds
  with other clients acting on the store before every call, none of which ends a claim of this Run.\<close>

theorem session_submit_outcome:
  assumes "sru_port sru = memory_port" and "sessions_inv (w_sessions w)" and "ids_ok (rs_store (w_core w))"
    and "submit fuel sru scope sid did version input w = (Inr res, w')"
    and "respects_claim sru (scope, sid) (run_id (sres_run res))"
  shows "\<exists>ts co. session_view_of (arriving sru w) (scope, sid) = Some (ts, co)
     \<and> (if run_status_of (sres_run res) = SUCCEEDED
        then sres_status res = COMMITTED \<and> (\<exists>turn. sres_turn res = Some turn
          \<and> turn = turn_of_run (turn_id turn) sid (sres_run res) (turn_created_at turn)
          \<and> session_view_of (w_sessions w') (scope, sid) = Some (ts @ [turn], None))
        else sres_status res = NOT_READY \<and> session_view_of (w_sessions w') (scope, sid) =
          Some (ts, if is_terminal (run_status_of (sres_run res)) then None else Some (sres_claim res)))"
  using assms by (rule submit_outcome)

theorem session_submit_outcome_witness:
  "\<exists>res w'. submit 1 demo_session_runner ''t'' ''s'' ''d'' ''1'' (ustr ''hi'') demo_world = (Inr res, w')
     \<and> sres_status res = NOT_READY \<and> session_view_of (w_sessions w') (''t'', ''s'') = Some ([], None)"
proof -
  obtain res w' where r: "submit 1 demo_session_runner ''t'' ''s'' ''d'' ''1'' (ustr ''hi'') demo_world = (Inr res, w')"
    "run_status_of (sres_run res) = REJECTED" by (rule demo_submitted)
  have "session_view_of (arriving demo_session_runner demo_world) (''t'', ''s'') = Some ([], None)"
    by (simp add: arriving_def demo_session_runner_def demo_world_def session_view_of_def demo_session)
  with session_submit_outcome [OF demo_session_runner_quiet(2) demo_world_ok r(1) demo_session_runner_quiet(1)] r
  show ?thesis by (auto simp: is_terminal_def TERMINAL_STATUSES_def)
qed


section \<open>Evaluation\<close>

text \<open>C34. An eval execution can be repeated: once a run of a suite has returned, running the suite
  again, after any facts other clients wrote and even with other Runners, evaluators, policies and clocks,
  returns the same execution, observations and results, and neither creates nor advances a subject Run or
  a judge Run nor touches the session store.\<close>

theorem eval_rerun_idempotent:
  fixes env env' :: "'s eval_env"
  assumes "run_suite fuel env suite given w = (Inr res, w')"
    and "ee_digests env' = ee_digests env" and "ee_bindings env' = ee_bindings env"
    and "ew_store v = run_all put_fact fs (ew_store w')"
  shows "\<exists>v'. run_suite fuel' env' suite given v = (Inr res, v') \<and> ew_subject v' = ew_subject v
     \<and> ew_judge v' = ew_judge v \<and> ew_sessions v' = ew_sessions v"
  using rerun_idempotent [OF assms(1), where env' = env' and v = v and fuel' = fuel'] assms(2-4)
  by (auto simp: same_names_def untouched_def)

theorem eval_rerun_idempotent_witness:
  "\<exists>res w' v'. run_suite 1 demo_eval_env (demo_suite [''pay'']) None demo_eval_world = (Inr res, w')
     \<and> map evr_outcome (srr_results res) = [O_PASS]
     \<and> run_suite 0 (demo_eval_env\<lparr>ee_evaluators := Map.empty\<rparr>) (demo_suite [''pay'']) None (w'\<lparr>ew_subject := demo_begin\<rparr>) = (Inr res, v')
     \<and> ew_subject v' = demo_begin"
proof -
  obtain res w' where r: "run_suite 1 demo_eval_env (demo_suite [''pay'']) None demo_eval_world = (Inr res, w')"
      "map evr_outcome (srr_results res) = [O_PASS]" by (rule demo_suite_runs)
  from eval_rerun_idempotent [OF r(1), of "demo_eval_env\<lparr>ee_evaluators := Map.empty\<rparr>" "w'\<lparr>ew_subject := demo_begin\<rparr>" "[]" 0] r
  show ?thesis by auto
qed

text \<open>C35. Controlled execution fails closed: a definition with a live model adapter, or with a
  tool that is live or has effects and is not declared by the fixtures of the case, is refused
  before anything happens; the whole state, Runs, sessions and facts, is unchanged.\<close>

theorem eval_boundary_closed:
  assumes "case_by_id suite (item_case_id item) = Inr c"
    and "resolve (evv_definition_id (item_variant item)) (evv_definition_version (item_variant item)) (re_registry (ee_subject env)) = Inr d"
    and "(\<exists>a \<in> insert (def_model_adapter d) (snd ` set (def_model_adapters d)). \<not> ma_deterministic a)
       \<or> (\<exists>t \<in> set (def_tools d). tool_name t \<notin> set (declared_external_effects (fixture_bundle_of c))
            \<and> (\<not> ee_tool_deterministic env t \<or> tool_effect_of t \<noteq> READ_ONLY))"
  shows "execute_item fuel env suite item eid w = (Inl (Exn EvalFixtureBoundaryError), w)"
  using assms(3) by (intro outside_boundary [OF assms(1,2)])
    (auto simp: enforce_fixture_boundary_def definition_adapters_def list_ex_iff isl_def)

theorem eval_boundary_closed_witness:
  "execute_item 1 demo_eval_env (demo_suite []) (suite_item demo_eval_digests (demo_suite []) (demo_case []) demo_eval_variant 0) ''e''
     demo_eval_world = (Inl (Exn EvalFixtureBoundaryError), demo_eval_world)"
  using demo_outside_boundary
  by (intro eval_boundary_closed [where c = "demo_case []" and d = "(demo_agent paid)\<lparr>def_run_policy := deny_policy\<rparr>"])
    (auto simp: suite_item_def demo_case_def demo_eval_variant_def demo_agent_def demo_tool_def)

text \<open>C36. What a report says is exactly what was recorded: it passes if and only if every
  repetition of every case under every Variant of the suite has results and all of them passed, and its
  hard gate fails if and only if some hard result of an expected repetition failed. Scores play no part.\<close>

theorem eval_report_exact:
  assumes "build_report_revision env rid rv eid s rs m now = Inr rpt" and "validate_suite s = Inr s"
  shows "(rpt_overall_outcome rpt = O_PASS \<longleftrightarrow>
       (\<forall>c \<in> set (suite_cases s). \<forall>v \<in> set (suite_variants s). \<forall>i < case_repetitions c.
          results_of rs (case_id c, evv_id v) i \<noteq> []
          \<and> (\<forall>r \<in> set (results_of rs (case_id c, evv_id v) i). evr_outcome r = O_PASS)))
     \<and> (rpt_hard_outcome rpt = O_FAIL \<longleftrightarrow>
       (\<exists>c \<in> set (suite_cases s). \<exists>v \<in> set (suite_variants s). \<exists>i < case_repetitions c.
          \<exists>r \<in> set (results_of rs (case_id c, evv_id v) i). evr_hard r \<and> evr_outcome r = O_FAIL))"
  using report_outcomes [OF assms] by blast

theorem eval_report_exact_witness:
  "\<exists>rpt. demo_report O_FAIL = Inr rpt \<and> rpt_hard_outcome rpt = O_FAIL \<and> rpt_overall_outcome rpt \<noteq> O_PASS"
proof -
  have b: "build_report_revision demo_report_env ''rep'' 1 None (demo_suite []) [demo_eval_result O_FAIL] 20 0
      = Inr (projr (demo_report O_FAIL))" using demo_report_built [of O_FAIL] by (simp add: demo_report_def)
  from eval_report_exact [OF b demo_suite_valid] show ?thesis
    using demo_report_built [of O_FAIL]
    by (intro exI [of _ "projr (demo_report O_FAIL)"])
      (simp add: demo_suite_def demo_case_def demo_eval_variant_def case_repetitions_def results_of_def demo_eval_result_def)
qed

text \<open>C37. The comparison of two reports of one suite is a regression if and only if some case under
  some Variant that is conclusive in both reports got worse under the frozen policy, and comparable
  only if every case in both reports is conclusive in both; missing evidence never counts as a pass.\<close>

theorem eval_comparison_exact:
  assumes "compare_report_revisions current baseline breport = Inr cmp" and "rpt_suite_id current = rpt_suite_id breport"
  shows "(bc_overall cmp = CO_REGRESSION \<longleftrightarrow>
       (\<exists>k x y. cases_by_key (case_results breport) k = Some x \<and> cases_by_key (case_results current) k = Some y
          \<and> comparable_case x \<and> comparable_case y \<and> regressions (comparison_policy_of baseline) x y \<noteq> []))
     \<and> (bc_overall cmp = CO_COMPARABLE \<longleftrightarrow>
       (\<forall>k x y. cases_by_key (case_results breport) k = Some x \<longrightarrow> cases_by_key (case_results current) k = Some y
          \<longrightarrow> comparable_case x \<and> comparable_case y \<and> regressions (comparison_policy_of baseline) x y = []))"
  using comparison_exact [OF assms] by blast

theorem eval_comparison_exact_witness:
  "\<exists>cmp. compare_report_revisions (projr (demo_report O_FAIL)) demo_baseline (projr (demo_report O_PASS)) = Inr cmp
     \<and> bc_overall cmp = CO_REGRESSION"
proof -
  obtain cmp where c: "compare_report_revisions (projr (demo_report O_FAIL)) demo_baseline (projr (demo_report O_PASS)) = Inr cmp"
    using demo_compared by blast
  from eval_comparison_exact [OF c] demo_regressed c show ?thesis by blast
qed

text \<open>C38. The SQLite store of eval facts implements the in-memory one: after any sequence of
  records it can keep, its tables are the image of the in-memory store, the next record gets the same reply,
  and every fact, view and latest revision reads the same.\<close>

theorem eval_stores_agree:
  assumes "eval_codec_ok ec" and "\<forall>f \<in> set (fs @ [g]). storable ec f"
  defines "t \<equiv> run_all (sql_put_fact ec) fs empty_eval_tables" and "s \<equiv> run_all put_fact fs empty_eval_store"
  shows "fst (sql_put_fact ec g t) = fst (put_fact g s) \<and> sql_get_fact ec k t = Inr (get_fact k s)
     \<and> sql_latest_report_revision i t = latest_report_revision i s
     \<and> sql_observation_view ec i t = Inr (observation_view i s) \<and> sql_execution_view ec id i t = Inr (execution_view i s)
     \<and> sql_report_view ec i n t = Inr (report_view i n s)"
proof -
  have fs: "\<forall>f \<in> set fs. storable ec f" and g: "storable ec g" using assms(2) by (simp_all del: storable.simps)
  note run = sql_run_refines [OF assms(1) store_storable_empty links_ok_empty fs]
  have t: "t = eval_tables_of ec s" using run(1) by (simp add: t_def s_def eval_tables_of_empty)
  have l: "links_ok s" unfolding s_def by (rule run_facts_links [OF links_ok_empty])
  show ?thesis
    using sql_put_refines [OF assms(1) run(2) [folded s_def] l g] sql_readers_refine [OF assms(1) run(2) [folded s_def]]
    by (simp add: t)
qed

theorem eval_stores_agree_witness:
  "sql_get_fact demo_eval_codec (Key_Observation ''o'')
     (run_all (sql_put_fact demo_eval_codec) [Fact_Observation demo_eval_observation] empty_eval_tables)
     = Inr (get_fact (Key_Observation ''o'') (run_all put_fact [Fact_Observation demo_eval_observation] empty_eval_store))"
  using eval_stores_agree [OF demo_eval_codec_ok, of "[Fact_Observation demo_eval_observation]"
      "Fact_Observation demo_eval_observation" "Key_Observation ''o''"] demo_observation_storable
  by (simp del: storable.simps sql_get_fact.simps get_fact.simps run_all.simps)





end
